(* ===== verification/Uoa_Prelude.thy ===== *)
theory Uoa_Prelude
  imports Main "HOL-Library.AList" "HOL-Library.Multiset"
begin

section \<open>Shared vocabulary of the development\<close>

text \<open>
  This theory holds what every component uses: the error values of
  \<^verbatim>\<open>API/src/utils/errors.ts\<close>, the string operations of the JavaScript library the
  sources call, the row operations of the database client (a table is the list of its
  rows), result chaining, and the generic lemmas about them.

  A JavaScript string is a sequence of UTF-16 code units; here it is a list of
  \<^typ>\<open>char\<close>, so the strings of the model are those whose code units are below 256.
  \<open>js_trim\<close> and \<open>js_lower\<close> follow ECMAScript on that range.
  Dates are integers (milliseconds since the epoch), identifiers are strings.
\<close>

named_theorems row_simps \<open>rewriting of table reads and writes\<close>
named_theorems policy_defs \<open>unfolding of small decision functions\<close>

subsection \<open>Errors as values\<close>

datatype app_error_code =
  BAD_REQUEST | UNAUTHORIZED | FORBIDDEN | NOT_FOUND | RATE_LIMITED | INTERNAL

record app_error =
  err_code :: app_error_code
  err_status :: nat
  err_message :: string

text \<open>The constructor of the source: a missing message defaults to the code.\<close>

fun code_string :: "app_error_code \<Rightarrow> string" where
  "code_string BAD_REQUEST = ''BAD_REQUEST''"
| "code_string UNAUTHORIZED = ''UNAUTHORIZED''"
| "code_string FORBIDDEN = ''FORBIDDEN''"
| "code_string NOT_FOUND = ''NOT_FOUND''"
| "code_string RATE_LIMITED = ''RATE_LIMITED''"
| "code_string INTERNAL = ''INTERNAL''"

definition AppError :: "app_error_code \<Rightarrow> nat \<Rightarrow> string option \<Rightarrow> app_error" where
  "AppError c s m =
     \<lparr>err_code = c, err_status = s,
      err_message = (case m of None \<Rightarrow> code_string c | Some t \<Rightarrow> t)\<rparr>"

type_synonym 'a outcome = "app_error + 'a"

abbreviation fail :: "app_error_code \<Rightarrow> nat \<Rightarrow> 'a outcome" where
  "fail c s \<equiv> Inl (AppError c s None)"

abbreviation fail_with :: "app_error_code \<Rightarrow> nat \<Rightarrow> string \<Rightarrow> 'a outcome" where
  "fail_with c s m \<equiv> Inl (AppError c s (Some m))"

lemma AppError_sel [simp]:
  "err_code (AppError c s m) = c"
  "err_status (AppError c s m) = s"
  by (simp_all add: AppError_def)

text \<open>Sequencing: the exception of the first computation skips the rest.\<close>

fun and_then :: "'e + 'a \<Rightarrow> ('a \<Rightarrow> 'e + 'b) \<Rightarrow> 'e + 'b" where
  "and_then (Inl e) f = Inl e"
| "and_then (Inr x) f = f x"

lemma and_then_Inr_iff:
  "and_then r f = Inr y \<longleftrightarrow> (\<exists>x. r = Inr x \<and> f x = Inr y)"
  by (cases r) auto

lemma and_thenE: "and_then r f = Inr y \<Longrightarrow> (\<And>x. r = Inr x \<Longrightarrow> f x = Inr y \<Longrightarrow> P) \<Longrightarrow> P"
  by (auto simp: and_then_Inr_iff)

lemma and_then_Inl_iff:
  "and_then r f = Inl e \<longleftrightarrow> r = Inl e \<or> (\<exists>x. r = Inr x \<and> f x = Inl e)"
  by (cases r) auto

lemma and_then_assoc: "and_then (and_then r f) g = and_then r (\<lambda>x. and_then (f x) g)"
  by (cases r) auto

definition guard :: "bool \<Rightarrow> 'e \<Rightarrow> 'e + unit" where
  "guard b e = (if b then Inr () else Inl e)"

lemma guard_Inr_iff [simp]: "guard b e = Inr u \<longleftrightarrow> b"
  by (simp add: guard_def)

lemma guard_True [simp]: "guard True e = Inr ()" and guard_False [simp]: "guard False e = Inl e"
  by (simp_all add: guard_def)

fun first_error :: "('a \<Rightarrow> 'e + 'b) \<Rightarrow> 'a list \<Rightarrow> 'e + 'b list" where
  "first_error f [] = Inr []"
| "first_error f (x # xs) =
     (case f x of Inl e \<Rightarrow> Inl e
      | Inr y \<Rightarrow> (case first_error f xs of Inl e \<Rightarrow> Inl e | Inr ys \<Rightarrow> Inr (y # ys)))"

lemma first_error_Inr_iff:
  "first_error f xs = Inr ys \<longleftrightarrow> list_all2 (\<lambda>x y. f x = Inr y) xs ys"
proof (induction xs arbitrary: ys)
  case Nil
  then show ?case by (cases ys) auto
next
  case (Cons x xs)
  show ?case
  proof (cases "f x")
    case (Inl e)
    then show ?thesis by (simp add: list_all2_Cons1)
  next
    case (Inr y)
    then show ?thesis
      by (cases "first_error f xs") (auto simp: list_all2_Cons1 Cons.IH[symmetric])
  qed
qed

lemma first_error_mem: "first_error f xs = Inr ys \<Longrightarrow> y \<in> set ys \<Longrightarrow> \<exists>x \<in> set xs. f x = Inr y"
  by (induction xs arbitrary: ys) (auto split: sum.splits)

subsection \<open>Strings\<close>

definition js_space :: "char \<Rightarrow> bool" where
  "js_space c \<longleftrightarrow> (of_char c :: nat) \<in> {9, 10, 11, 12, 13, 32, 160}"

definition js_trim :: "string \<Rightarrow> string" where
  "js_trim s = rev (dropWhile js_space (rev (dropWhile js_space s)))"

definition lower_char :: "char \<Rightarrow> char" where
  "lower_char c =
     (let n = (of_char c :: nat)
      in if 65 \<le> n \<and> n \<le> 90 \<or> 192 \<le> n \<and> n \<le> 222 \<and> n \<noteq> 215
         then char_of (n + 32) else c)"

definition js_lower :: "string \<Rightarrow> string" where
  "js_lower s = map lower_char s"

definition is_digit :: "char \<Rightarrow> bool" where
  "is_digit c \<longleftrightarrow> 48 \<le> (of_char c :: nat) \<and> (of_char c :: nat) \<le> 57"

definition is_upper :: "char \<Rightarrow> bool" where
  "is_upper c \<longleftrightarrow> 65 \<le> (of_char c :: nat) \<and> (of_char c :: nat) \<le> 90"

definition is_lower :: "char \<Rightarrow> bool" where
  "is_lower c \<longleftrightarrow> 97 \<le> (of_char c :: nat) \<and> (of_char c :: nat) \<le> 122"

text \<open>\<open>s.split(sep)\<close> for a one-character separator: always at least one part.\<close>

fun split_on :: "char \<Rightarrow> string \<Rightarrow> string list" where
  "split_on sep [] = [[]]"
| "split_on sep (c # cs) =
     (if c = sep then [] # split_on sep cs
      else (case split_on sep cs of [] \<Rightarrow> [[c]] | p # ps \<Rightarrow> (c # p) # ps))"

lemma split_on_nonempty [simp]: "split_on sep s \<noteq> []"
  by (induction s) (auto split: list.splits)

lemma split_on_no_sep: "sep \<notin> set s \<Longrightarrow> split_on sep s = [s]"
  by (induction s) auto

lemma split_on_append:
  "sep \<notin> set p \<Longrightarrow> split_on sep (p @ sep # s) = p # split_on sep s"
  by (induction p) auto

lemma split_on_parts: "p \<in> set (split_on sep s) \<Longrightarrow> sep \<notin> set p"
proof (induction s arbitrary: p)
  case Nil
  then show ?case by simp
next
  case (Cons c cs)
  then show ?case
    by (cases "split_on sep cs") (auto split: if_splits)
qed

lemma of_char_bound: "(of_char c :: nat) < 256"
  by (metis mod_less_divisor of_char_mod_256 zero_less_numeral)

lemma lower_char_idem [simp]: "lower_char (lower_char c) = lower_char c"
proof -
  let ?n = "of_char c :: nat"
  show ?thesis
  proof (cases "65 \<le> ?n \<and> ?n \<le> 90 \<or> 192 \<le> ?n \<and> ?n \<le> 222 \<and> ?n \<noteq> 215")
    case True
    then have low: "lower_char c = char_of (?n + 32)"
      by (auto simp: lower_char_def Let_def)
    from True have "(?n + 32) mod 256 = ?n + 32" by auto
    then have "lower_char (char_of (?n + 32)) = char_of (?n + 32)"
      using True by (auto simp: lower_char_def Let_def)
    with low show ?thesis by simp
  next
    case False
    then have "lower_char c = c" by (auto simp: lower_char_def Let_def)
    then show ?thesis by simp
  qed
qed

lemma js_lower_idem [simp]: "js_lower (js_lower s) = js_lower s"
  by (simp add: js_lower_def)

lemma length_js_lower [simp]: "length (js_lower s) = length s"
  by (simp add: js_lower_def)

lemma dropWhile_id: "xs = [] \<or> \<not> P (hd xs) \<Longrightarrow> dropWhile P xs = xs"
  by (cases xs) auto

lemma js_trim_split:
  "dropWhile js_space s = js_trim s @ rev (takeWhile js_space (rev (dropWhile js_space s)))"
  unfolding js_trim_def rev_append[symmetric] takeWhile_dropWhile_id rev_rev_ident ..

lemma js_trim_decomp:
  "\<exists>pre post. s = pre @ js_trim s @ post \<and> (\<forall>c \<in> set pre \<union> set post. js_space c)"
proof -
  let ?d = "dropWhile js_space s"
  let ?post = "rev (takeWhile js_space (rev ?d))"
  have "?d = js_trim s @ ?post" by (rule js_trim_split)
  then have "s = takeWhile js_space s @ js_trim s @ ?post"
    by (metis takeWhile_dropWhile_id)
  moreover have "\<forall>c \<in> set (takeWhile js_space s) \<union> set ?post. js_space c"
    by (auto dest: set_takeWhileD)
  ultimately show ?thesis by blast
qed

lemma js_trim_last: "js_trim s \<noteq> [] \<Longrightarrow> \<not> js_space (last (js_trim s))"
  by (simp add: js_trim_def last_rev hd_dropWhile del: dropWhile_eq_Nil_conv)

lemma js_trim_hd:
  assumes "js_trim s \<noteq> []"
  shows "\<not> js_space (hd (js_trim s))"
proof -
  let ?d = "dropWhile js_space s"
  have d: "?d = js_trim s @ rev (takeWhile js_space (rev ?d))"
    by (rule js_trim_split)
  with assms have "hd ?d = hd (js_trim s)" by (metis hd_append2)
  moreover from d assms have "?d \<noteq> []" by (metis append_is_Nil_conv)
  ultimately show ?thesis by (metis hd_dropWhile)
qed

lemma js_trim_idem [simp]: "js_trim (js_trim s) = js_trim s"
proof (cases "js_trim s = []")
  case True
  then show ?thesis by (metis dropWhile.simps(1) js_trim_def rev.simps(1))
next
  case False
  let ?t = "js_trim s"
  have 1: "dropWhile js_space ?t = ?t"
    by (rule dropWhile_id) (simp add: js_trim_hd[OF False])
  have 2: "dropWhile js_space (rev ?t) = rev ?t"
    by (rule dropWhile_id) (simp add: js_trim_last[OF False] hd_rev)
  have "js_trim ?t = rev (dropWhile js_space (rev (dropWhile js_space ?t)))"
    by (simp only: js_trim_def)
  also have "\<dots> = ?t" by (simp only: 1 2 rev_rev_ident)
  finally show ?thesis .
qed

subsection \<open>Tables\<close>

text \<open>
  The database client reads and writes tables through \<open>findFirst\<close> / \<open>findUnique\<close>,
  \<open>count\<close> and \<open>updateMany\<close>. A table is the list of its rows; \<open>findUnique\<close> is
  \<^const>\<open>List.find\<close> on a key that the schema declares unique.
\<close>

definition update_where :: "('r \<Rightarrow> bool) \<Rightarrow> ('r \<Rightarrow> 'r) \<Rightarrow> 'r list \<Rightarrow> 'r list" where
  "update_where P f rs = map (\<lambda>r. if P r then f r else r) rs"

definition count_where :: "('r \<Rightarrow> bool) \<Rightarrow> 'r list \<Rightarrow> nat" where
  "count_where P rs = length (filter P rs)"

lemma update_where_Nil [simp, row_simps]: "update_where P f [] = []"
  by (simp add: update_where_def)

lemma update_where_Cons [simp, row_simps]:
  "update_where P f (r # rs) = (if P r then f r else r) # update_where P f rs"
  by (simp add: update_where_def)

lemma set_update_where [row_simps]:
  "set (update_where P f rs) = (\<lambda>r. if P r then f r else r) ` set rs"
  by (simp add: update_where_def)

lemma length_update_where [simp]: "length (update_where P f rs) = length rs"
  by (simp add: update_where_def)

lemma update_where_none: "(\<And>r. r \<in> set rs \<Longrightarrow> \<not> P r) \<Longrightarrow> update_where P f rs = rs"
  by (induction rs) auto

lemma map_update_where:
  "(\<And>r. P r \<Longrightarrow> g (f r) = g r) \<Longrightarrow> map g (update_where P f rs) = map g rs"
  by (induction rs) auto

lemma update_where_append [simp]:
  "update_where P f (rs @ qs) = update_where P f rs @ update_where P f qs"
  by (simp add: update_where_def)

lemma count_where_Nil [simp]: "count_where P [] = 0"
  by (simp add: count_where_def)

lemma count_where_Cons [simp]:
  "count_where P (r # rs) = (if P r then Suc (count_where P rs) else count_where P rs)"
  by (simp add: count_where_def)

lemma count_where_append [simp]:
  "count_where P (rs @ qs) = count_where P rs + count_where P qs"
  by (simp add: count_where_def)

lemma count_where_0_iff: "count_where P rs = 0 \<longleftrightarrow> (\<forall>r \<in> set rs. \<not> P r)"
  by (simp add: count_where_def filter_empty_conv)

lemma count_where_mono:
  "(\<And>r. r \<in> set rs \<Longrightarrow> P r \<Longrightarrow> Q r) \<Longrightarrow> count_where P rs \<le> count_where Q rs"
  by (induction rs) (auto intro: le_SucI)

lemma count_where_update_le:
  "(\<And>r. r \<in> set rs \<Longrightarrow> P r \<Longrightarrow> Q (f r) \<Longrightarrow> Q r) \<Longrightarrow>
     count_where Q (update_where P f rs) \<le> count_where Q rs"
  by (induction rs) (auto intro: le_SucI)

lemma count_where_update_eq:
  "(\<And>r. r \<in> set rs \<Longrightarrow> P r \<Longrightarrow> Q (f r) = Q r) \<Longrightarrow>
     count_where Q (update_where P f rs) = count_where Q rs"
  by (induction rs) auto

lemma find_Some_set: "List.find P rs = Some r \<Longrightarrow> r \<in> set rs \<and> P r"
  by (auto simp: find_Some_iff in_set_conv_nth)

lemma find_unique:
  assumes "distinct (map key rs)" and "r \<in> set rs"
  shows "List.find (\<lambda>x. key x = key r) rs = Some r"
  using assms by (induction rs) auto

lemma find_key_Some_iff:
  assumes "distinct (map key rs)"
  shows "List.find (\<lambda>x. key x = k) rs = Some r \<longleftrightarrow> r \<in> set rs \<and> key r = k"
proof
  assume "List.find (\<lambda>x. key x = k) rs = Some r"
  from find_Some_set[OF this] show "r \<in> set rs \<and> key r = k" .
next
  assume a: "r \<in> set rs \<and> key r = k"
  then have "List.find (\<lambda>x. key x = key r) rs = Some r"
    using assms by (intro find_unique) auto
  with a show "List.find (\<lambda>x. key x = k) rs = Some r" by simp
qed

lemma distinct_key_eq:
  "distinct (map key rs) \<Longrightarrow> a \<in> set rs \<Longrightarrow> b \<in> set rs \<Longrightarrow> key a = key b \<Longrightarrow> a = b"
  by (metis find_unique option.inject)

lemma count_where_key:
  "distinct (map key rs) \<Longrightarrow> count_where (\<lambda>x. key x = k \<and> P x) rs \<le> 1"
proof (induction rs)
  case (Cons r rs)
  have "count_where (\<lambda>x. key x = k \<and> P x) rs = 0" if "key r = k"
    using Cons.prems that by (auto simp: count_where_0_iff image_iff)
  then show ?case using Cons by auto
qed simp

subsection \<open>Insertion sort with a comparator\<close>

text \<open>
  \<open>Array.prototype.sort\<close> is a stable sort; for a consistent comparator its result is the
  one stable sorted permutation, which insertion from the right computes.
\<close>

fun insort_cmp :: "('a \<Rightarrow> 'a \<Rightarrow> int) \<Rightarrow> 'a \<Rightarrow> 'a list \<Rightarrow> 'a list" where
  "insort_cmp cmp x [] = [x]"
| "insort_cmp cmp x (y # ys) = (if cmp x y \<le> 0 then x # y # ys else y # insort_cmp cmp x ys)"

fun js_sort :: "('a \<Rightarrow> 'a \<Rightarrow> int) \<Rightarrow> 'a list \<Rightarrow> 'a list" where
  "js_sort cmp [] = []"
| "js_sort cmp (x # xs) = insort_cmp cmp x (js_sort cmp xs)"

lemma set_insort_cmp [simp]: "set (insort_cmp cmp x ys) = insert x (set ys)"
  by (induction ys) auto

lemma set_js_sort [simp]: "set (js_sort cmp xs) = set xs"
  by (induction xs) auto

lemma length_js_sort [simp]: "length (js_sort cmp xs) = length xs"
proof -
  have "length (insort_cmp cmp x ys) = Suc (length ys)" for x ys
    by (induction ys) auto
  then show ?thesis by (induction xs) auto
qed

lemma mset_js_sort [simp]: "mset (js_sort cmp xs) = mset xs"
proof -
  have "mset (insort_cmp cmp x ys) = add_mset x (mset ys)" for x ys
    by (induction ys) auto
  then show ?thesis by (induction xs) auto
qed

lemma sum_list_js_sort: "sum_list (map f (js_sort cmp xs)) = (sum_list (map f xs) :: 'b :: comm_monoid_add)"
proof -
  have "mset (map f (js_sort cmp xs)) = mset (map f xs)" by simp
  then show ?thesis by (metis sum_mset_sum_list)
qed

lemma distinct_map_js_sort: "distinct (map f (js_sort cmp xs)) = distinct (map f xs)"
proof -
  have "mset (map f (js_sort cmp xs)) = mset (map f xs)" by simp
  then show ?thesis by (metis mset_eq_imp_distinct_iff)
qed

subsection \<open>Association lists as insertion-ordered maps\<close>

lemma alist_sum_update:
  fixes f :: "'v \<Rightarrow> 'b :: ab_group_add"
  shows "distinct (map fst m) \<Longrightarrow>
     sum_list (map (\<lambda>e. f (snd e)) (AList.update k v m)) =
       sum_list (map (\<lambda>e. f (snd e)) m) + f v - (case map_of m k of Some w \<Rightarrow> f w | None \<Rightarrow> 0)"
proof (induction m)
  case (Cons e m)
  have "k \<notin> fst ` set m" if "fst e = k" using Cons.prems that by auto
  then have "map_of m k = None" if "fst e = k" using that by (simp add: map_of_eq_None_iff)
  with Cons show ?case by (cases e) (auto simp: algebra_simps split: option.splits)
qed simp

lemma set_alist_update:
  assumes "distinct (map fst m)" and "(j, w) \<in> set (AList.update k v m)"
  shows "(j = k \<and> w = v) \<or> (j \<noteq> k \<and> (j, w) \<in> set m)"
proof -
  have "map_of (AList.update k v m) j = Some w"
    using assms by (intro map_of_is_SomeI) (simp_all add: distinct_update)
  then show ?thesis by (auto simp: update_conv' dest: map_of_SomeD split: if_splits)
qed

subsection \<open>Invariants of step relations\<close>

text \<open>What a component promises to a history of its own operations.\<close>

locale step_invariant =
  fixes step :: "'s \<Rightarrow> 's \<Rightarrow> bool" and inv :: "'s \<Rightarrow> bool"
  assumes preserved: "step s t \<Longrightarrow> inv s \<Longrightarrow> inv t"
begin

lemma run_preserved: "step\<^sup>*\<^sup>* s t \<Longrightarrow> inv s \<Longrightarrow> inv t"
  by (induction rule: rtranclp_induct) (auto intro: preserved)

end

end
