(* ===== verification/Team_Invite.thy ===== *)
theory Team_Invite
  imports Uoa_Prelude
begin

section \<open>The team-invite state machine\<close>

text \<open>
  \<^verbatim>\<open>API/src/services/team-invite-state-machine.ts\<close>: the predicates on an invite row, the
  derived status, the decision of each lifecycle transition, and the assertion wrapper.
  A timestamp column is an \<^typ>\<open>int option\<close>; the truthiness tests of the source are
  tests for \<open>Some\<close>, because every \<open>Date\<close> object is truthy. The second half adds the
  write that the invite services perform after a \<open>proceed\<close> and follows one row through its
  life as a step relation.
\<close>

subsection \<open>Rows, status, transitions, decisions\<close>

datatype team_invite_status = Pending | Accepted | Declined | Replaced | Revoked | Expired

record invite_row =
  approvalStatus :: string
  acceptedAt :: "int option"
  declinedAt :: "int option"
  revokedAt :: "int option"
  expiresAt :: "int option"
  revokedReason :: "string option"

datatype team_invite_transition = Create | Approve | Deny | Resend | Revoke | Accept | Decline

datatype no_op_reason = Duplicate_Actionable | Already_Terminal

datatype refuse_reason = Already_Accepted

datatype transition_decision = Proceed | No_Op no_op_reason | Refuse refuse_reason

abbreviation is_set :: "'a option \<Rightarrow> bool" where
  "is_set x \<equiv> x \<noteq> None"

subsection \<open>Predicates\<close>

definition isTerminal :: "('a invite_row_scheme) \<Rightarrow> bool" where
  "isTerminal i \<longleftrightarrow> is_set (acceptedAt i) \<or> is_set (declinedAt i) \<or> is_set (revokedAt i)"

definition isResolved :: "('a invite_row_scheme) \<Rightarrow> bool" where
  "isResolved i \<longleftrightarrow> isTerminal i \<or> approvalStatus i = ''DENIED''"

definition isActionable :: "('a invite_row_scheme) \<Rightarrow> bool" where
  "isActionable i \<longleftrightarrow> \<not> isTerminal i \<and> approvalStatus i \<noteq> ''DENIED''"

definition isExpired :: "('a invite_row_scheme) \<Rightarrow> int \<Rightarrow> bool" where
  "isExpired i now = (case expiresAt i of None \<Rightarrow> False | Some e \<Rightarrow> e \<le> now)"

definition deriveInviteStatus :: "('a invite_row_scheme) \<Rightarrow> int \<Rightarrow> team_invite_status" where
  "deriveInviteStatus row now =
     (if is_set (acceptedAt row) then Accepted
      else if is_set (declinedAt row) then Declined
      else if is_set (revokedAt row)
        then (if revokedReason row = Some ''REVOKED'' then Revoked else Replaced)
      else if isExpired row now then Expired else Pending)"

subsection \<open>Decisions\<close>

definition badRequest :: "'a outcome" where
  "badRequest = fail BAD_REQUEST 400"

definition decideCreate :: "('a invite_row_scheme) option \<Rightarrow> transition_decision" where
  "decideCreate invite =
     (case invite of
        Some i \<Rightarrow> (if isActionable i then No_Op Duplicate_Actionable else Proceed)
      | None \<Rightarrow> Proceed)"

definition decideApprove :: "('a invite_row_scheme) \<Rightarrow> int \<Rightarrow> transition_decision outcome" where
  "decideApprove i now =
     (if isResolved i \<or> approvalStatus i \<noteq> ''PENDING'' \<or> isExpired i now
      then badRequest else Inr Proceed)"

definition decideDeny :: "('a invite_row_scheme) \<Rightarrow> transition_decision outcome" where
  "decideDeny i =
     (if isResolved i \<or> approvalStatus i \<noteq> ''PENDING'' then badRequest else Inr Proceed)"

definition decideResend :: "('a invite_row_scheme) \<Rightarrow> transition_decision outcome" where
  "decideResend i =
     (if isResolved i then badRequest
      else if approvalStatus i \<noteq> ''NOT_REQUIRED'' \<and> approvalStatus i \<noteq> ''APPROVED''
        then badRequest
      else Inr Proceed)"

definition decideRevoke :: "('a invite_row_scheme) \<Rightarrow> transition_decision" where
  "decideRevoke i =
     (if is_set (acceptedAt i) then Refuse Already_Accepted
      else if is_set (revokedAt i) \<or> is_set (declinedAt i) then No_Op Already_Terminal
      else Proceed)"

definition decideAccept :: "('a invite_row_scheme) \<Rightarrow> int \<Rightarrow> transition_decision outcome" where
  "decideAccept i now =
     (if isResolved i \<or> isExpired i now then badRequest
      else if approvalStatus i \<noteq> ''NOT_REQUIRED'' \<and> approvalStatus i \<noteq> ''APPROVED''
        then badRequest
      else Inr Proceed)"

definition decideDecline :: "('a invite_row_scheme) \<Rightarrow> transition_decision outcome" where
  "decideDecline i = (if \<not> isActionable i then badRequest else Inr Proceed)"

definition decideTeamInviteTransition ::
  "team_invite_transition \<Rightarrow> ('a invite_row_scheme) option \<Rightarrow> int \<Rightarrow> transition_decision outcome" where
  "decideTeamInviteTransition transition invite now =
     (if transition = Create then Inr (decideCreate invite)
      else case invite of
        None \<Rightarrow> fail NOT_FOUND 404
      | Some i \<Rightarrow>
          (case transition of
             Approve \<Rightarrow> decideApprove i now
           | Deny \<Rightarrow> decideDeny i
           | Resend \<Rightarrow> decideResend i
           | Revoke \<Rightarrow> Inr (decideRevoke i)
           | Accept \<Rightarrow> decideAccept i now
           | Decline \<Rightarrow> decideDecline i
           | Create \<Rightarrow> badRequest))"

definition assertTeamInviteTransition ::
  "team_invite_transition \<Rightarrow> ('a invite_row_scheme) option \<Rightarrow> int \<Rightarrow> unit outcome" where
  "assertTeamInviteTransition transition invite now =
     (case decideTeamInviteTransition transition invite now of
        Inl e \<Rightarrow> Inl e
      | Inr d \<Rightarrow> (if d \<noteq> Proceed then badRequest else Inr ()))"

lemmas invite_predicates = isTerminal_def isResolved_def isActionable_def isExpired_def

lemmas invite_decisions =
  decideTeamInviteTransition_def decideCreate_def decideApprove_def decideDeny_def
  decideResend_def decideRevoke_def decideAccept_def decideDecline_def badRequest_def

declare invite_decisions [policy_defs]

subsection \<open>The life of one row\<close>

text \<open>
  The write each service performs once the decision is \<open>proceed\<close>: acceptance and
  decline (\<^verbatim>\<open>team-invite.service.acceptance.ts\<close>), revocation
  (\<^verbatim>\<open>team-invite.service.revoke.ts\<close>), approval and denial
  (\<^verbatim>\<open>team-invite.service.member.ts\<close>). Creating or resending for an email that has an
  actionable row stamps that row as replaced.
\<close>

definition write_accept :: "int \<Rightarrow> ('a invite_row_scheme) \<Rightarrow> ('a invite_row_scheme)" where
  "write_accept now i = i\<lparr>acceptedAt := Some now\<rparr>"

definition write_decline :: "int \<Rightarrow> ('a invite_row_scheme) \<Rightarrow> ('a invite_row_scheme)" where
  "write_decline now i = i\<lparr>declinedAt := Some now\<rparr>"

definition write_revoke :: "int \<Rightarrow> ('a invite_row_scheme) \<Rightarrow> ('a invite_row_scheme)" where
  "write_revoke now i = i\<lparr>revokedAt := Some now, revokedReason := Some ''REVOKED''\<rparr>"

definition write_replaced :: "int \<Rightarrow> ('a invite_row_scheme) \<Rightarrow> ('a invite_row_scheme)" where
  "write_replaced now i = i\<lparr>revokedAt := Some now, revokedReason := Some ''REPLACED''\<rparr>"

definition write_approval :: "string \<Rightarrow> ('a invite_row_scheme) \<Rightarrow> ('a invite_row_scheme)" where
  "write_approval s i = i\<lparr>approvalStatus := s\<rparr>"

lemmas invite_writes = write_accept_def write_decline_def write_revoke_def write_replaced_def
  write_approval_def

inductive invite_step :: "int \<Rightarrow> invite_row \<Rightarrow> invite_row \<Rightarrow> bool" where
  accept: "decideTeamInviteTransition Accept (Some i) now = Inr Proceed \<Longrightarrow>
     invite_step now i (write_accept now i)"
| decline: "decideTeamInviteTransition Decline (Some i) now = Inr Proceed \<Longrightarrow>
     invite_step now i (write_decline now i)"
| revoke: "decideTeamInviteTransition Revoke (Some i) now = Inr Proceed \<Longrightarrow>
     invite_step now i (write_revoke now i)"
| approve: "decideTeamInviteTransition Approve (Some i) now = Inr Proceed \<Longrightarrow>
     invite_step now i (write_approval ''APPROVED'' i)"
| deny: "decideTeamInviteTransition Deny (Some i) now = Inr Proceed \<Longrightarrow>
     invite_step now i (write_approval ''DENIED'' i)"
| replace: "decideTeamInviteTransition Create (Some i) now = Inr (No_Op Duplicate_Actionable) \<Longrightarrow>
     invite_step now i (write_replaced now i)"

inductive_cases invite_stepE: "invite_step now i j"

inductive_simps invite_step_iff: "invite_step now i j"

inductive invite_run :: "invite_row \<Rightarrow> invite_row \<Rightarrow> bool" where
  refl: "invite_run i i"
| step: "invite_run i j \<Longrightarrow> invite_step now j k \<Longrightarrow> invite_run i k"

definition fresh_invite :: "string \<Rightarrow> int option \<Rightarrow> invite_row" where
  "fresh_invite approval expires =
     \<lparr>approvalStatus = approval, acceptedAt = None, declinedAt = None, revokedAt = None,
      expiresAt = expires, revokedReason = None\<rparr>"

text \<open>How many of the three terminal timestamps are set; the reason column is only written
  together with \<open>revokedAt\<close>.\<close>

definition terminal_marks :: "('a invite_row_scheme) \<Rightarrow> nat" where
  "terminal_marks i =
     (if is_set (acceptedAt i) then 1 else 0) + (if is_set (declinedAt i) then 1 else 0)
     + (if is_set (revokedAt i) then 1 else 0)"

definition invite_coherent :: "('a invite_row_scheme) \<Rightarrow> bool" where
  "invite_coherent i \<longleftrightarrow>
     terminal_marks i \<le> 1 \<and> (is_set (revokedReason i) \<longrightarrow> is_set (revokedAt i)) \<and>
     (is_set (acceptedAt i) \<longrightarrow> approvalStatus i \<in> {''NOT_REQUIRED'', ''APPROVED''})"

subsection \<open>Lemmas\<close>

lemma badRequest_not_Inr [simp]: "badRequest \<noteq> Inr x" "Inr x \<noteq> badRequest"
  by (simp_all add: badRequest_def)

lemma terminal_marks_0 [simp]: "terminal_marks i = 0 \<longleftrightarrow> \<not> isTerminal i"
  by (auto simp: terminal_marks_def isTerminal_def)

lemma proceed_not_terminal:
  "t \<noteq> Create \<Longrightarrow> decideTeamInviteTransition t (Some i) now = Inr Proceed \<Longrightarrow> \<not> isTerminal i"
  by (cases t) (auto simp: policy_defs invite_predicates split: if_splits)

lemma invite_step_not_terminal: "invite_step now i j \<Longrightarrow> \<not> isTerminal i"
  by (erule invite_stepE) (auto simp: policy_defs invite_predicates split: if_splits)

lemma invite_step_coherent:
  assumes "invite_step now i j" and "invite_coherent i"
  shows "invite_coherent j"
proof -
  from assms(1) have "\<not> isTerminal i" by (rule invite_step_not_terminal)
  with assms show ?thesis
    by (auto elim!: invite_stepE split: if_splits
        simp: invite_coherent_def terminal_marks_def isTerminal_def invite_writes
          decideTeamInviteTransition_def decideAccept_def)
qed

lemma invite_run_coherent: "invite_run i j \<Longrightarrow> invite_coherent i \<Longrightarrow> invite_coherent j"
  by (induction rule: invite_run.induct) (auto intro: invite_step_coherent)

lemma fresh_invite_coherent [simp]: "invite_coherent (fresh_invite a e)"
  by (simp add: fresh_invite_def invite_coherent_def terminal_marks_def)

lemma invite_run_terminal: "invite_run i j \<Longrightarrow> isTerminal i \<Longrightarrow> j = i"
  by (induction rule: invite_run.induct) (auto dest: invite_step_not_terminal)

subsection \<open>Properties\<close>

text \<open>
  C29: whatever happens to an invite row after its creation (any number of accept, decline,
  revoke, approve, deny and replace steps at any times), it never carries more than one of
  the three terminal timestamps, a revocation reason appears only with a revocation, and an
  accepted row was approved or needed no approval.
\<close>

theorem invite_history_coherent:
  assumes "invite_run (fresh_invite approval expires) j"
  shows "terminal_marks j \<le> 1 \<and>
     (revokedReason j \<noteq> None \<longrightarrow> revokedAt j \<noteq> None) \<and>
     (acceptedAt j \<noteq> None \<longrightarrow> approvalStatus j \<in> {''NOT_REQUIRED'', ''APPROVED''})"
  using invite_run_coherent[OF assms fresh_invite_coherent] by (auto simp: invite_coherent_def)

theorem invite_history_coherent_witness:
  "invite_run (fresh_invite ''NOT_REQUIRED'' (Some 100))
     (write_accept 50 (fresh_invite ''NOT_REQUIRED'' (Some 100)))
   \<and> terminal_marks (write_accept 50 (fresh_invite ''NOT_REQUIRED'' (Some 100))) \<le> 1"
proof -
  let ?i = "fresh_invite ''NOT_REQUIRED'' (Some 100)"
  have "invite_step 50 ?i (write_accept 50 ?i)"
    by (rule invite_step.accept)
       (simp add: policy_defs invite_predicates fresh_invite_def)
  then have run: "invite_run ?i (write_accept 50 ?i)"
    by (blast intro: invite_run.intros)
  with invite_history_coherent[OF run] show ?thesis by simp
qed

text \<open>
  a terminal row is frozen. Once an invite is accepted, declined or revoked, no sequence
  of transitions changes it, so the status a caller reads is the same at every later time.
\<close>

theorem terminal_invite_frozen:
  assumes "invite_run i j" and "isTerminal i"
  shows "j = i \<and> deriveInviteStatus j later = deriveInviteStatus i now"
  using assms invite_run_terminal[OF assms]
  by (auto simp: deriveInviteStatus_def isTerminal_def)

theorem terminal_invite_frozen_witness:
  "invite_run (write_decline 5 (fresh_invite ''PENDING'' None))
     (write_decline 5 (fresh_invite ''PENDING'' None))
   \<and> deriveInviteStatus (write_decline 5 (fresh_invite ''PENDING'' None)) 900
     = deriveInviteStatus (write_decline 5 (fresh_invite ''PENDING'' None)) 6"
proof -
  let ?i = "write_decline 5 (fresh_invite ''PENDING'' None)"
  have run: "invite_run ?i ?i" by (rule invite_run.refl)
  have trm: "isTerminal ?i" by (simp add: isTerminal_def write_decline_def)
  from terminal_invite_frozen[OF run trm, of 900 6] run show ?thesis by simp
qed

text \<open>
  exact decision of every transition on an existing invite, against the specification
  of the module: each transition proceeds exactly under the condition its comment states.
\<close>

theorem transition_decisions_exact:
  "(decideTeamInviteTransition t (Some i) now = Inr Proceed) =
     (case t of
        Create \<Rightarrow> isTerminal i \<or> approvalStatus i = ''DENIED''
      | Approve \<Rightarrow> \<not> isTerminal i \<and> approvalStatus i = ''PENDING'' \<and> \<not> isExpired i now
      | Deny \<Rightarrow> \<not> isTerminal i \<and> approvalStatus i = ''PENDING''
      | Resend \<Rightarrow> \<not> isTerminal i \<and> approvalStatus i \<in> {''NOT_REQUIRED'', ''APPROVED''}
      | Revoke \<Rightarrow> \<not> isTerminal i
      | Accept \<Rightarrow> deriveInviteStatus i now = Pending
          \<and> approvalStatus i \<in> {''NOT_REQUIRED'', ''APPROVED''}
      | Decline \<Rightarrow> \<not> isTerminal i \<and> approvalStatus i \<noteq> ''DENIED'')"
  by (cases t)
     (auto simp: policy_defs invite_predicates deriveInviteStatus_def split: option.splits if_splits)

end
