(* ===== verification/Role_Grants.thy ===== *)
theory Role_Grants
  imports Uoa_Prelude
begin

section \<open>Roles, capabilities and grant tables\<close>

text \<open>
  \<^verbatim>\<open>API/src/services/role-grants.ts\<close> and the cross-field validation of
  \<^verbatim>\<open>API/src/services/config-org-features.schema.ts\<close>. A grant table is, per scope, an
  optional object from role names to capability lists; an object is the association list of its
  own properties. The client config record holds the fields the modelled services read.
\<close>

subsection \<open>Configuration data\<close>

datatype role_grant_scope = Org_Scope | Team_Scope

type_synonym grant_object = "(string \<times> string list) list"

record role_grant_table =
  grants_org :: "grant_object option"
  grants_team :: "grant_object option"

record org_features =
  orgs_enabled :: bool
  groups_enabled :: bool
  user_needs_team :: bool
  allow_user_create_org :: bool
  allow_user_create_team :: bool
  max_groups_per_org :: "nat option"
  max_members_per_group :: "nat option"
  backend_org_management :: "bool option"
  max_teams_per_org :: "nat option"
  max_members_per_org :: "nat option"
  max_members_per_team :: "nat option"
  max_team_memberships_per_user :: "nat option"
  org_roles :: "string list option"
  team_roles :: "string list option"
  capabilities :: "string list option"
  role_grants :: "role_grant_table option"

record session_config =
  access_token_ttl_minutes :: "int option"
  short_refresh_token_ttl_hours :: "int option"
  long_refresh_token_ttl_days :: "int option"

record client_config =
  cfg_domain :: string
  cfg_org_features :: "org_features option"
  cfg_2fa_enabled :: bool
  cfg_user_scope_global :: bool
  cfg_session :: "session_config option"
  cfg_workspace_selection :: "string option"
  cfg_registration_mode :: string
  cfg_existing_user_behavior :: string
  cfg_redirect_urls :: "string list"

definition empty_features :: org_features where
  "empty_features =
     \<lparr>orgs_enabled = False, groups_enabled = False, user_needs_team = False,
      allow_user_create_org = False, allow_user_create_team = False, max_groups_per_org = None,
      max_members_per_group = None, backend_org_management = None, max_teams_per_org = None, max_members_per_org = None,
      max_members_per_team = None, max_team_memberships_per_user = None, org_roles = None,
      team_roles = None, capabilities = None, role_grants = None\<rparr>"

definition default_config :: "string \<Rightarrow> client_config" where
  "default_config d =
     \<lparr>cfg_domain = d, cfg_org_features = None, cfg_2fa_enabled = False,
      cfg_user_scope_global = True, cfg_session = None, cfg_workspace_selection = None,
      cfg_registration_mode = ''password_required'', cfg_existing_user_behavior = ''email_login_link'',
      cfg_redirect_urls = []\<rparr>"

definition UOA_CAPABILITIES :: "string list" where
  "UOA_CAPABILITIES = [''members.manage'', ''teams.manage'', ''organisation.manage'']"

definition OWNER_ROLE :: string where
  "OWNER_ROLE = ''owner''"

definition DEFAULT_DEMOTED_OWNER_ROLE :: string where
  "DEFAULT_DEMOTED_OWNER_ROLE = ''admin''"

definition DEFAULT_ORG_ROLES :: "string list" where
  "DEFAULT_ORG_ROLES = [''owner'', ''admin'', ''member'']"

definition DEFAULT_TEAM_ROLES :: "string list" where
  "DEFAULT_TEAM_ROLES = [''owner'', ''admin'', ''member'']"

definition LEGACY_DEFAULT_ROLE_GRANTS :: role_grant_table where
  "LEGACY_DEFAULT_ROLE_GRANTS =
     \<lparr>grants_org = Some [(''admin'', [''members.manage'', ''teams.manage'', ''organisation.manage''])],
      grants_team = Some [(''admin'', [''members.manage'', ''teams.manage''])]\<rparr>"

subsection \<open>Readers of the configuration\<close>

definition withOwner :: "string list option \<Rightarrow> string list \<Rightarrow> string list" where
  "withOwner roles fallback =
     (case roles of Some rs \<Rightarrow> if length rs > 0 then rs else fallback | None \<Rightarrow> fallback)"

definition feature :: "(org_features \<Rightarrow> 'a option) \<Rightarrow> client_config \<Rightarrow> 'a option" where
  "feature f c = Option.bind (cfg_org_features c) f"

definition resolveOrgRoleVocabulary :: "client_config \<Rightarrow> string list" where
  "resolveOrgRoleVocabulary c = withOwner (feature org_roles c) DEFAULT_ORG_ROLES"

definition resolveTeamRoleVocabulary :: "client_config \<Rightarrow> string list" where
  "resolveTeamRoleVocabulary c = withOwner (feature team_roles c) DEFAULT_TEAM_ROLES"

definition resolveRoleVocabulary :: "client_config \<Rightarrow> role_grant_scope \<Rightarrow> string list" where
  "resolveRoleVocabulary c scope =
     (if scope = Org_Scope then resolveOrgRoleVocabulary c else resolveTeamRoleVocabulary c)"

definition resolveDemotedOwnerRole :: "client_config \<Rightarrow> string option" where
  "resolveDemotedOwnerRole c =
     (let vocabulary = resolveOrgRoleVocabulary c
      in if DEFAULT_DEMOTED_OWNER_ROLE \<in> set vocabulary then Some DEFAULT_DEMOTED_OWNER_ROLE
         else List.find (\<lambda>role. role \<noteq> OWNER_ROLE) vocabulary)"

definition resolveRoleGrants :: "client_config \<Rightarrow> role_grant_table" where
  "resolveRoleGrants c =
     (case feature role_grants c of Some g \<Rightarrow> g | None \<Rightarrow> LEGACY_DEFAULT_ROLE_GRANTS)"

definition resolveKnownCapabilities :: "client_config \<Rightarrow> string set" where
  "resolveKnownCapabilities c =
     set (UOA_CAPABILITIES @ (case feature capabilities c of Some cs \<Rightarrow> cs | None \<Rightarrow> []))"

subsection \<open>Resolution\<close>

fun grants_at :: "role_grant_table \<Rightarrow> role_grant_scope \<Rightarrow> grant_object option" where
  "grants_at g Org_Scope = grants_org g"
| "grants_at g Team_Scope = grants_team g"

definition roleHoldsCapability ::
  "role_grant_table \<Rightarrow> role_grant_scope \<Rightarrow> string option \<Rightarrow> string \<Rightarrow> bool" where
  "roleHoldsCapability grants scope role capability =
     (case role of
        None \<Rightarrow> False
      | Some r \<Rightarrow>
          if r = [] then False
          else if r = OWNER_ROLE then True
          else case Option.bind (grants_at grants scope) (\<lambda>obj. map_of obj r) of
                 None \<Rightarrow> False
               | Some caps \<Rightarrow> capability \<in> set caps)"

definition configRoleHoldsCapability ::
  "client_config \<Rightarrow> role_grant_scope \<Rightarrow> string option \<Rightarrow> string \<Rightarrow> bool" where
  "configRoleHoldsCapability c scope role capability =
     roleHoldsCapability (resolveRoleGrants c) scope role capability"

definition workspaceRolesHoldCapability ::
  "role_grant_table \<Rightarrow> string option \<Rightarrow> string option \<Rightarrow> string \<Rightarrow> bool" where
  "workspaceRolesHoldCapability grants orgRole teamRole capability \<longleftrightarrow>
     roleHoldsCapability grants Org_Scope orgRole capability \<or>
     roleHoldsCapability grants Team_Scope teamRole capability"

subsection \<open>Validation of a written table\<close>

datatype grant_issue =
  Names_Owner role_grant_scope string
| Not_In_Vocabulary role_grant_scope string
| Undeclared_Capability role_grant_scope string nat string

definition entry_issues ::
  "string list \<Rightarrow> string set \<Rightarrow> role_grant_scope \<Rightarrow> string \<times> string list \<Rightarrow> grant_issue list" where
  "entry_issues vocabulary known scope entry =
     (case entry of (role, caps) \<Rightarrow>
        if role = OWNER_ROLE then [Names_Owner scope role]
        else (if role \<notin> set vocabulary then [Not_In_Vocabulary scope role] else []) @
             concat (map (\<lambda>(i, cap). if cap \<in> known then []
                           else [Undeclared_Capability scope role i cap]) (enumerate 0 caps)))"

definition validateRoleGrants :: "client_config \<Rightarrow> grant_issue list" where
  "validateRoleGrants c =
     (case feature role_grants c of
        None \<Rightarrow> []
      | Some grants \<Rightarrow>
          concat (map (\<lambda>scope.
            case grants_at grants scope of
              None \<Rightarrow> []
            | Some table \<Rightarrow>
                concat (map (entry_issues (resolveRoleVocabulary c scope)
                  (resolveKnownCapabilities c) scope) table)) [Org_Scope, Team_Scope]))"

lemmas role_consts = OWNER_ROLE_def DEFAULT_DEMOTED_OWNER_ROLE_def DEFAULT_ORG_ROLES_def
  DEFAULT_TEAM_ROLES_def UOA_CAPABILITIES_def LEGACY_DEFAULT_ROLE_GRANTS_def

lemmas role_readers = resolveOrgRoleVocabulary_def resolveTeamRoleVocabulary_def
  resolveRoleVocabulary_def withOwner_def feature_def resolveRoleGrants_def
  resolveKnownCapabilities_def

subsection \<open>The authority interface\<close>

text \<open>
  What the membership services rely on when they ask whether an acting role holds a capability:
  no role, no authority; \<open>owner\<close> holds everything at its scope; the empty string is no role.
\<close>

locale role_authority =
  fixes holds :: "role_grant_scope \<Rightarrow> string option \<Rightarrow> string \<Rightarrow> bool"
  assumes absent_role: "\<not> holds scope None cap"
    and empty_role: "\<not> holds scope (Some []) cap"
    and owner_role: "holds scope (Some OWNER_ROLE) cap"
begin

definition workspace_holds :: "string option \<Rightarrow> string option \<Rightarrow> string \<Rightarrow> bool" where
  "workspace_holds org_role team_role cap \<longleftrightarrow>
     holds Org_Scope org_role cap \<or> holds Team_Scope team_role cap"

lemma holds_role: "holds scope role cap \<Longrightarrow> \<exists>r. role = Some r \<and> r \<noteq> []"
  using absent_role empty_role by (cases role) auto

lemma workspace_owner:
  "workspace_holds (Some OWNER_ROLE) t cap" "workspace_holds r (Some OWNER_ROLE) cap"
  by (simp_all add: workspace_holds_def owner_role)

lemma workspace_stranger: "\<not> workspace_holds None None cap"
  by (simp add: workspace_holds_def absent_role)

lemma workspace_team_adds_only:
  "workspace_holds r None cap \<Longrightarrow> workspace_holds r t cap"
  by (auto simp: workspace_holds_def absent_role)

end

interpretation grant_table: role_authority "roleHoldsCapability g" for g
  by unfold_locales (auto simp: roleHoldsCapability_def OWNER_ROLE_def)

lemma workspace_holds_eq [simp]:
  "grant_table.workspace_holds g r t c = workspaceRolesHoldCapability g r t c"
  by (simp add: grant_table.workspace_holds_def workspaceRolesHoldCapability_def)

interpretation domain_grants: role_authority "configRoleHoldsCapability c" for c
  by unfold_locales
    (auto simp: configRoleHoldsCapability_def grant_table.absent_role grant_table.empty_role
      grant_table.owner_role)

subsection \<open>Lemmas\<close>

lemma find_None_all: "List.find P xs = None \<longleftrightarrow> (\<forall>x \<in> set xs. \<not> P x)"
  by (auto simp: find_None_iff)

lemma all_enumerate: "(\<forall>x \<in> set (enumerate 0 xs). P (snd x)) \<longleftrightarrow> (\<forall>x \<in> set xs. P x)"
proof -
  have "list_all P (map snd (enumerate 0 xs)) = list_all (P \<circ> snd) (enumerate 0 xs)"
    by (simp only: list.pred_map)
  then show ?thesis by (simp only: map_snd_enumerate list_all_iff comp_def)
qed

lemma entry_issues_empty:
  "entry_issues vocabulary known scope (role, caps) = [] \<longleftrightarrow>
     role \<noteq> OWNER_ROLE \<and> role \<in> set vocabulary \<and> set caps \<subseteq> known"
proof -
  have "concat (map (\<lambda>(i, cap). if cap \<in> known then []
          else [Undeclared_Capability scope role i cap]) (enumerate 0 caps)) = []
        \<longleftrightarrow> (\<forall>x \<in> set (enumerate 0 caps). snd x \<in> known)"
    by (auto split: if_splits)
  also have "\<dots> \<longleftrightarrow> set caps \<subseteq> known"
    by (simp only: all_enumerate[where P = "\<lambda>x. x \<in> known"]) blast
  finally show ?thesis by (simp add: entry_issues_def del: concat_eq_Nil_conv)
qed

lemma validated_entry:
  assumes "validateRoleGrants c = []" and "feature role_grants c = Some g"
    and "grants_at g scope = Some table" and "(role, caps) \<in> set table"
  shows "role \<noteq> OWNER_ROLE" and "role \<in> set (resolveRoleVocabulary c scope)"
    and "set caps \<subseteq> resolveKnownCapabilities c"
proof -
  have "entry_issues (resolveRoleVocabulary c scope) (resolveKnownCapabilities c) scope
          (role, caps) = []"
    using assms by (cases scope) (force simp: validateRoleGrants_def)+
  then show "role \<noteq> OWNER_ROLE" and "role \<in> set (resolveRoleVocabulary c scope)"
    and "set caps \<subseteq> resolveKnownCapabilities c"
    by (simp_all add: entry_issues_empty)
qed

subsection \<open>Properties\<close>

text \<open>
  for a domain that wrote no grant table, the capability resolution is equivalent to
  the predicates it replaced: in a workspace, managing members or teams needs \<open>owner\<close> or
  \<open>admin\<close> at either scope, managing the organisation needs \<open>owner\<close> or \<open>admin\<close> of the
  organisation or \<open>owner\<close> of the team, and at organisation scope alone it is \<open>owner\<close> or
  \<open>admin\<close> for all three.
\<close>

theorem legacy_default_equivalence:
  assumes "feature role_grants c = None"
  shows "(cap \<in> {''members.manage'', ''teams.manage''} \<longrightarrow>
       workspaceRolesHoldCapability (resolveRoleGrants c) orgRole teamRole cap \<longleftrightarrow>
         orgRole \<in> {Some ''owner'', Some ''admin''} \<or>
         teamRole \<in> {Some ''owner'', Some ''admin''})
     \<and> (workspaceRolesHoldCapability (resolveRoleGrants c) orgRole teamRole
          ''organisation.manage'' \<longleftrightarrow>
         orgRole \<in> {Some ''owner'', Some ''admin''} \<or> teamRole = Some ''owner'')
     \<and> (cap \<in> set UOA_CAPABILITIES \<longrightarrow>
         configRoleHoldsCapability c Org_Scope orgRole cap \<longleftrightarrow>
           orgRole \<in> {Some ''owner'', Some ''admin''})"
  using assms
  by (auto simp: workspaceRolesHoldCapability_def configRoleHoldsCapability_def
      roleHoldsCapability_def resolveRoleGrants_def role_consts split: option.splits if_splits)

theorem legacy_default_equivalence_witness:
  "workspaceRolesHoldCapability (resolveRoleGrants (default_config ''acme.test''))
     (Some ''member'') (Some ''admin'') ''teams.manage''"
  using legacy_default_equivalence[of "default_config ''acme.test''" "''teams.manage''"
      "Some ''member''" "Some ''admin''"]
  by (simp add: default_config_def feature_def)

text \<open>
  A grant table that passes validation cannot lock out or forge the owner: it never names
  \<open>owner\<close>, so owner still holds every capability, and any other role that holds a capability
  through the table is in the domain's vocabulary for that scope and the capability is one that
  UOA compiled in or the product declared.
\<close>

theorem validated_grants_sound:
  assumes "validateRoleGrants c = []" and "feature role_grants c = Some g"
    and "configRoleHoldsCapability c scope (Some role) cap" and "role \<noteq> OWNER_ROLE"
  shows "role \<in> set (resolveRoleVocabulary c scope) \<and> cap \<in> resolveKnownCapabilities c
     \<and> (\<forall>table. grants_at g scope = Some table \<longrightarrow> OWNER_ROLE \<notin> fst ` set table)"
proof -
  from assms(2-4) obtain table caps where t: "grants_at g scope = Some table"
      "map_of table role = Some caps" and cap: "cap \<in> set caps"
    by (auto simp: configRoleHoldsCapability_def roleHoldsCapability_def resolveRoleGrants_def
        bind_eq_Some_conv split: option.splits if_splits)
  then have mem: "(role, caps) \<in> set table" by (simp add: map_of_SomeD)
  note v = validated_entry[OF assms(1,2) t(1)]
  from v(2)[OF mem] v(3)[OF mem] cap v(1) t(1) show ?thesis by force
qed

definition sample_grants_config :: client_config where
  "sample_grants_config = (default_config ''acme.test'')
     \<lparr>cfg_org_features := Some (empty_features
        \<lparr>org_roles := Some [''owner'', ''registrar''],
         role_grants := Some \<lparr>grants_org = Some [(''registrar'', [''members.manage''])],
                             grants_team = None\<rparr>\<rparr>)\<rparr>"

theorem validated_grants_sound_witness:
  "configRoleHoldsCapability sample_grants_config Org_Scope (Some ''registrar'') ''members.manage''
   \<and> ''registrar'' \<in> set (resolveRoleVocabulary sample_grants_config Org_Scope)"
proof -
  let ?c = "sample_grants_config"
  let ?g = "\<lparr>grants_org = Some [(''registrar'', [''members.manage''])], grants_team = None\<rparr>"
  have g: "feature role_grants ?c = Some ?g"
    by (simp add: sample_grants_config_def feature_def default_config_def)
  have v: "validateRoleGrants ?c = []"
    by (simp add: validateRoleGrants_def g entry_issues_def role_consts)
       (simp add: sample_grants_config_def role_readers role_consts)
  have h: "configRoleHoldsCapability ?c Org_Scope (Some ''registrar'') ''members.manage''"
    by (simp add: configRoleHoldsCapability_def resolveRoleGrants_def g roleHoldsCapability_def
        OWNER_ROLE_def)
  from validated_grants_sound[OF v g h] h show ?thesis by (simp add: OWNER_ROLE_def)
qed

text \<open>
  the role a demoted owner lands on is always writable and never \<open>owner\<close>: it is in the
  organisation vocabulary, it is \<open>admin\<close> whenever the vocabulary has it, and there is none
  exactly when the vocabulary names only \<open>owner\<close>.
\<close>

theorem demoted_owner_role_spec:
  "case resolveDemotedOwnerRole c of
     Some r \<Rightarrow> r \<in> set (resolveOrgRoleVocabulary c) \<and> r \<noteq> OWNER_ROLE \<and>
       (''admin'' \<in> set (resolveOrgRoleVocabulary c) \<longleftrightarrow> r = ''admin'')
   | None \<Rightarrow> set (resolveOrgRoleVocabulary c) = {OWNER_ROLE}"
proof -
  have "resolveOrgRoleVocabulary c \<noteq> []"
    by (auto simp: resolveOrgRoleVocabulary_def withOwner_def DEFAULT_ORG_ROLES_def
        split: option.splits)
  then show ?thesis
    by (auto simp: resolveDemotedOwnerRole_def Let_def DEFAULT_DEMOTED_OWNER_ROLE_def
        OWNER_ROLE_def find_None_all split: option.splits dest!: find_Some_set)
       (metis last_in_set)
qed

end
