(* ===== verification/Refresh_Store.thy ===== *)
theory Refresh_Store
  imports Uoa_Prelude
begin

section \<open>Refresh-token rows and their revocation\<close>

text \<open>
  The table of refresh tokens with the per-user access-token epoch, the pure helpers of
  \<^verbatim>\<open>API/src/services/refresh-token-replay.service.ts\<close>, and the revocation writers of
  \<^verbatim>\<open>refresh-token-revocation.service.ts\<close> and \<^verbatim>\<open>refresh-token.service.ts\<close>.

  HMAC-SHA-256 is a parameter of the model (\<open>crypto\<close>): the sources only feed it a key and
  a text and store or return the encoded digest. Row identifiers are drawn from a counter, as
  the database draws fresh ones. The advisory locks have no effect on the data; what they
  exclude is a hypothesis of the theorems that need it (hooks that leave the store alone).
\<close>

subsection \<open>Rows, contexts, the store\<close>

record refresh_context =
  ctx_clientId :: string
  ctx_configUrl :: string
  ctx_domain :: string

record refresh_row =
  rt_id :: nat
  rt_tokenHash :: string
  rt_familyId :: string
  rt_parentTokenId :: "nat option"
  rt_userId :: string
  rt_domain :: string
  rt_clientId :: string
  rt_configUrl :: string
  rt_createdAt :: int
  rt_expiresAt :: int
  rt_revokedAt :: "int option"
  rt_securityRevokedAt :: "int option"
  rt_replacedByTokenId :: "nat option"
  rt_orgId :: "string option"
  rt_teamId :: "string option"
  rt_twoFaCompleted :: bool
  rt_lastUsedAt :: "int option"

record refresh_db =
  rt_rows :: "refresh_row list"
  rt_versions :: "string \<rightharpoonup> nat"
  rt_next :: nat

record crypto =
  hmac_hex :: "string \<Rightarrow> string \<Rightarrow> string"
  hmac_base64url :: "string \<Rightarrow> string \<Rightarrow> string"

datatype thrown = App app_error | Reuse_Detected | Db_Error string

abbreviation invalid_refresh :: thrown where
  "invalid_refresh \<equiv> App (AppError UNAUTHORIZED 401 (Some ''INVALID_REFRESH_TOKEN''))"

abbreviation switch_conflict :: thrown where
  "switch_conflict \<equiv> App (AppError BAD_REQUEST 409 (Some ''WORKSPACE_SWITCH_CONFLICT''))"

text \<open>The private reuse signal is a subclass of the public 401.\<close>

fun thrown_status :: "thrown \<Rightarrow> nat option" where
  "thrown_status (App e) = Some (err_status e)"
| "thrown_status Reuse_Detected = Some 401"
| "thrown_status (Db_Error _) = None"

definition REFRESH_SUCCESSOR_HMAC_DOMAIN :: string where
  "REFRESH_SUCCESSOR_HMAC_DOMAIN = ''uoa.refresh-token.successor.v1'' @ [CHR 0x00]"

definition MAX_REFRESH_REPLAY_CHAIN_DEPTH :: nat where
  "MAX_REFRESH_REPLAY_CHAIN_DEPTH = 32"

definition REFRESH_TOKEN_REPLAY_GRACE_MS :: int where
  "REFRESH_TOKEN_REPLAY_GRACE_MS = 120000"

subsection \<open>Helpers\<close>

definition hashRefreshToken :: "crypto \<Rightarrow> string \<Rightarrow> string \<Rightarrow> string" where
  "hashRefreshToken cr token pepper = hmac_hex cr pepper token"

definition deriveRefreshTokenSuccessor :: "crypto \<Rightarrow> string \<Rightarrow> string \<Rightarrow> string" where
  "deriveRefreshTokenSuccessor cr token pepper =
     hmac_base64url cr pepper (REFRESH_SUCCESSOR_HMAC_DOMAIN @ token)"

definition matchesRefreshTokenContext :: "refresh_row \<Rightarrow> refresh_context \<Rightarrow> bool" where
  "matchesRefreshTokenContext row ctx \<longleftrightarrow>
     rt_clientId row = ctx_clientId ctx \<and> rt_configUrl row = ctx_configUrl ctx \<and>
     rt_domain row = ctx_domain ctx"

definition sameRefreshTokenFamily :: "refresh_row \<Rightarrow> refresh_row \<Rightarrow> bool" where
  "sameRefreshTokenFamily l r \<longleftrightarrow>
     rt_familyId l = rt_familyId r \<and> rt_userId l = rt_userId r \<and> rt_domain l = rt_domain r \<and>
     rt_clientId l = rt_clientId r \<and> rt_configUrl l = rt_configUrl r \<and>
     rt_twoFaCompleted l = rt_twoFaCompleted r"

text \<open>A nullable string is falsy when it is null or empty.\<close>

definition truthy :: "string option \<Rightarrow> bool" where
  "truthy s \<longleftrightarrow> (\<exists>c cs. s = Some (c # cs))"

lemma truthy_code [simp, code]:
  "truthy None = False" "truthy (Some []) = False" "truthy (Some (c # cs)) = True"
  by (simp_all add: truthy_def)

definition hasValidWorkspaceScope :: "refresh_row \<Rightarrow> bool" where
  "hasValidWorkspaceScope row \<longleftrightarrow> truthy (rt_orgId row) = truthy (rt_teamId row)"

definition matchesWorkspaceScope :: "refresh_row \<Rightarrow> string option \<times> string option \<Rightarrow> bool" where
  "matchesWorkspaceScope row expected \<longleftrightarrow>
     rt_orgId row = fst expected \<and> rt_teamId row = snd expected"

definition ceil_div :: "int \<Rightarrow> int \<Rightarrow> int" where
  "ceil_div a b = - ((- a) div b)"

definition remainingRefreshTokenTtlSeconds :: "refresh_row \<Rightarrow> int \<Rightarrow> int" where
  "remainingRefreshTokenTtlSeconds row now = max 1 (ceil_div (rt_expiresAt row - now) 1000)"

subsection \<open>Writers\<close>

definition bumpUserTokenVersion :: "string \<Rightarrow> 'z refresh_db_scheme \<Rightarrow> (thrown + unit) \<times> 'z refresh_db_scheme" where
  "bumpUserTokenVersion userId db =
     (case rt_versions db userId of
        None \<Rightarrow> (Inl (Db_Error ''P2025''), db)
      | Some v \<Rightarrow> (Inr (), db\<lparr>rt_versions := (rt_versions db)(userId \<mapsto> Suc v)\<rparr>))"

definition mark_revoked :: "int \<Rightarrow> refresh_row \<Rightarrow> refresh_row" where
  "mark_revoked now r = r\<lparr>rt_revokedAt := Some now\<rparr>"

definition mark_security :: "int \<Rightarrow> refresh_row \<Rightarrow> refresh_row" where
  "mark_security now r = r\<lparr>rt_revokedAt := Some now, rt_securityRevokedAt := Some now\<rparr>"

definition revoke_matching ::
  "(refresh_row \<Rightarrow> bool) \<Rightarrow> int \<Rightarrow> 'z refresh_db_scheme \<Rightarrow> nat \<times> 'z refresh_db_scheme" where
  "revoke_matching P now db =
     (let Q = (\<lambda>r. P r \<and> rt_revokedAt r = None)
      in (count_where Q (rt_rows db),
          db\<lparr>rt_rows := update_where Q (mark_revoked now) (rt_rows db)\<rparr>))"

definition revokeRefreshTokenFamilyInternal ::
  "string \<Rightarrow> int \<Rightarrow> 'z refresh_db_scheme \<Rightarrow> nat \<times> 'z refresh_db_scheme" where
  "revokeRefreshTokenFamilyInternal familyId now db =
     revoke_matching (\<lambda>r. rt_familyId r = familyId) now db"

definition revokeRefreshTokensForUserDomain ::
  "string \<times> string \<Rightarrow> int \<Rightarrow> 'z refresh_db_scheme \<Rightarrow> nat \<times> 'z refresh_db_scheme" where
  "revokeRefreshTokensForUserDomain k now db =
     revoke_matching (\<lambda>r. rt_userId r = fst k \<and> rt_domain r = snd k) now db"

definition revokeRefreshTokenFamiliesForUserOrganisation ::
  "string \<times> string \<Rightarrow> int \<Rightarrow> 'z refresh_db_scheme \<Rightarrow> nat \<times> 'z refresh_db_scheme" where
  "revokeRefreshTokenFamiliesForUserOrganisation k now db =
     revoke_matching (\<lambda>r. rt_userId r = fst k \<and> rt_orgId r = Some (snd k)) now db"

definition revokeRefreshTokenFamiliesForUserTeam ::
  "string \<times> string \<Rightarrow> int \<Rightarrow> 'z refresh_db_scheme \<Rightarrow> nat \<times> 'z refresh_db_scheme" where
  "revokeRefreshTokenFamiliesForUserTeam k now db =
     revoke_matching (\<lambda>r. rt_userId r = fst k \<and> rt_teamId r = Some (snd k)) now db"

definition run_tx :: "('s \<Rightarrow> ('e + 'a) \<times> 's) \<Rightarrow> 's \<Rightarrow> ('e + 'a) \<times> 's" where
  "run_tx body db = (case body db of (Inl e, _) \<Rightarrow> (Inl e, db) | r \<Rightarrow> r)"

definition revokeAllRefreshTokensForUser ::
  "string \<Rightarrow> int \<Rightarrow> 'z refresh_db_scheme \<Rightarrow> (thrown + unit) \<times> 'z refresh_db_scheme" where
  "revokeAllRefreshTokensForUser userId now =
     run_tx (\<lambda>db. bumpUserTokenVersion userId
       (snd (revoke_matching (\<lambda>r. rt_userId r = userId) now db)))"

text \<open>Classify the presented row once; only the first classification marks the family and
  moves the user's access-token epoch.\<close>

definition security_claim :: "nat \<Rightarrow> int \<Rightarrow> 'z refresh_db_scheme \<Rightarrow> nat \<times> 'z refresh_db_scheme" where
  "security_claim i now db =
     (let Q = (\<lambda>r. rt_id r = i \<and> rt_securityRevokedAt r = None)
      in (count_where Q (rt_rows db),
          db\<lparr>rt_rows := update_where Q (mark_security now) (rt_rows db)\<rparr>))"

definition security_mark :: "(refresh_row \<Rightarrow> bool) \<Rightarrow> int \<Rightarrow> 'z refresh_db_scheme \<Rightarrow> 'z refresh_db_scheme" where
  "security_mark P now db =
     db\<lparr>rt_rows := update_where (\<lambda>r. P r \<and> rt_securityRevokedAt r = None)
                      (mark_security now) (rt_rows db)\<rparr>"

definition invalidateRefreshTokenFamilySecurityEpoch ::
  "refresh_row \<Rightarrow> int \<Rightarrow> 'z refresh_db_scheme \<Rightarrow> (thrown + unit) \<times> 'z refresh_db_scheme" where
  "invalidateRefreshTokenFamilySecurityEpoch row now db =
     (case security_claim (rt_id row) now db of
        (n, db1) \<Rightarrow>
          if n \<noteq> 1 then (Inr (), db1)
          else bumpUserTokenVersion (rt_userId row)
                 (security_mark (\<lambda>r. rt_familyId r = rt_familyId row) now db1))"

definition then_throw :: "'e \<Rightarrow> ('e + unit) \<times> 's \<Rightarrow> ('e + 'a) \<times> 's" where
  "then_throw e r = (case r of (Inl e', s) \<Rightarrow> (Inl e', s) | (Inr _, s) \<Rightarrow> (Inl e, s))"

definition rejectRefreshTokenReuse ::
  "refresh_row \<Rightarrow> int \<Rightarrow> 'z refresh_db_scheme \<Rightarrow> (thrown + 'a) \<times> 'z refresh_db_scheme" where
  "rejectRefreshTokenReuse row now db =
     then_throw Reuse_Detected (invalidateRefreshTokenFamilySecurityEpoch row now db)"

definition retireRefreshTokenFamily ::
  "refresh_row \<Rightarrow> int \<Rightarrow> 'z refresh_db_scheme \<Rightarrow> (thrown + 'a) \<times> 'z refresh_db_scheme" where
  "retireRefreshTokenFamily row now db =
     (Inl Reuse_Detected, snd (revokeRefreshTokenFamilyInternal (rt_familyId row) now db))"

definition rejectRefreshTokenCorruption ::
  "refresh_row \<Rightarrow> int \<Rightarrow> 'z refresh_db_scheme \<Rightarrow> (thrown + 'a) \<times> 'z refresh_db_scheme" where
  "rejectRefreshTokenCorruption row now db =
     then_throw Reuse_Detected
       (case security_claim (rt_id row) now db of
          (n, db1) \<Rightarrow>
            if n \<noteq> 1 then (Inr (), db1)
            else bumpUserTokenVersion (rt_userId row)
                   (security_mark (\<lambda>r. rt_userId r = rt_userId row) now db1))"

subsection \<open>Revocation only ever revokes\<close>

text \<open>
  The order in which a store may evolve under revocation: rows keep their identity and every
  other column; revocation stamps may appear, never disappear.
\<close>

definition row_decays :: "refresh_row \<Rightarrow> refresh_row \<Rightarrow> bool" where
  "row_decays r r' \<longleftrightarrow>
     r' = r\<lparr>rt_revokedAt := rt_revokedAt r', rt_securityRevokedAt := rt_securityRevokedAt r'\<rparr> \<and>
     (rt_revokedAt r \<noteq> None \<longrightarrow> rt_revokedAt r' \<noteq> None) \<and>
     (rt_securityRevokedAt r \<noteq> None \<longrightarrow> rt_securityRevokedAt r' = rt_securityRevokedAt r) \<and>
     (rt_securityRevokedAt r' \<noteq> None \<longrightarrow> rt_securityRevokedAt r = None \<longrightarrow> rt_revokedAt r' \<noteq> None)"

definition decays :: "refresh_db \<Rightarrow> refresh_db \<Rightarrow> bool" where
  "decays db db' \<longleftrightarrow> list_all2 row_decays (rt_rows db) (rt_rows db') \<and> rt_next db' = rt_next db"

lemma row_decays_refl [simp]: "row_decays r r"
  by (cases r) (auto simp: row_decays_def)

lemma row_decays_trans: "row_decays a b \<Longrightarrow> row_decays b c \<Longrightarrow> row_decays a c"
  by (cases a, cases b, cases c) (auto simp: row_decays_def)

lemma row_decays_marks [simp]:
  "row_decays r (mark_revoked now r)"
  "rt_securityRevokedAt r = None \<Longrightarrow> row_decays r (mark_security now r)"
  by (simp_all add: row_decays_def mark_revoked_def mark_security_def)

lemma decays_refl [simp]: "decays db db"
  by (simp add: decays_def list_all2_refl)

lemma decays_trans: "decays a b \<Longrightarrow> decays b c \<Longrightarrow> decays a c"
  by (auto simp: decays_def intro: list_all2_trans[OF row_decays_trans])

lemma decays_versions [simp]:
  "decays db (db'\<lparr>rt_versions := v\<rparr>) = decays db db'" "decays (db\<lparr>rt_versions := v\<rparr>) db' = decays db db'"
  by (simp_all add: decays_def)

lemma decays_update:
  "(\<And>r. Q r \<Longrightarrow> row_decays r (f r)) \<Longrightarrow> decays db (db\<lparr>rt_rows := update_where Q f (rt_rows db)\<rparr>)"
  by (auto simp: decays_def update_where_def list_all2_map2 intro: list_all2_refl)

lemma revoke_matching_decays [simp]: "decays db (snd (revoke_matching P now db))"
  by (simp add: revoke_matching_def Let_def decays_update)

lemma security_claim_decays: "security_claim i now db = (n, db') \<Longrightarrow> decays db db'"
  by (auto simp: security_claim_def Let_def intro!: decays_update)

lemma security_mark_decays [simp]: "decays db (security_mark P now db)"
  by (auto simp: security_mark_def intro!: decays_update)

lemma bump_decays: "bumpUserTokenVersion u db = (r, db') \<Longrightarrow> decays db db'"
  by (auto simp: bumpUserTokenVersion_def split: option.splits)

lemma invalidate_decays:
  "invalidateRefreshTokenFamilySecurityEpoch row now db = (r, db') \<Longrightarrow> decays db db'"
  by (auto simp: invalidateRefreshTokenFamilySecurityEpoch_def split: prod.splits if_splits
      dest!: security_claim_decays bump_decays intro: decays_trans[OF _ decays_trans, OF _ security_mark_decays])

lemma reject_decays:
  "rejectRefreshTokenReuse row now db = (r, db') \<Longrightarrow> decays db db'"
  "retireRefreshTokenFamily row now db = (r, db') \<Longrightarrow> decays db db'"
  "rejectRefreshTokenCorruption row now db = (r, db') \<Longrightarrow> decays db db'"
  by (auto simp: rejectRefreshTokenReuse_def retireRefreshTokenFamily_def then_throw_def
      rejectRefreshTokenCorruption_def revokeRefreshTokenFamilyInternal_def
      split: prod.splits sum.splits if_splits
      dest!: invalidate_decays security_claim_decays bump_decays
      intro: decays_trans[OF _ decays_trans, OF _ security_mark_decays])

lemma decays_rowE:
  assumes "decays db db'" and "r' \<in> set (rt_rows db')"
  obtains r where "r \<in> set (rt_rows db)" and "row_decays r r'"
proof -
  from assms(2) obtain i where i: "i < length (rt_rows db')" "rt_rows db' ! i = r'"
    by (auto simp: in_set_conv_nth)
  with assms(1) have "i < length (rt_rows db)" and "row_decays (rt_rows db ! i) r'"
    by (auto simp: decays_def list_all2_conv_all_nth)
  then show thesis using that nth_mem by blast
qed

lemma decays_rowE2:
  assumes "decays db db'" and "r \<in> set (rt_rows db)"
  obtains r' where "r' \<in> set (rt_rows db')" and "row_decays r r'"
proof -
  from assms(2) obtain i where i: "i < length (rt_rows db)" "rt_rows db ! i = r"
    by (auto simp: in_set_conv_nth)
  with assms(1) have "i < length (rt_rows db')" and "row_decays r (rt_rows db' ! i)"
    by (auto simp: decays_def list_all2_conv_all_nth)
  then show thesis using that nth_mem by blast
qed

lemma row_decays_sel:
  assumes "row_decays r r'"
  shows "rt_id r' = rt_id r" "rt_tokenHash r' = rt_tokenHash r" "rt_familyId r' = rt_familyId r"
    "rt_parentTokenId r' = rt_parentTokenId r" "rt_userId r' = rt_userId r"
    "rt_domain r' = rt_domain r" "rt_clientId r' = rt_clientId r"
    "rt_configUrl r' = rt_configUrl r" "rt_createdAt r' = rt_createdAt r"
    "rt_expiresAt r' = rt_expiresAt r" "rt_replacedByTokenId r' = rt_replacedByTokenId r"
    "rt_orgId r' = rt_orgId r" "rt_teamId r' = rt_teamId r"
    "rt_twoFaCompleted r' = rt_twoFaCompleted r" "rt_lastUsedAt r' = rt_lastUsedAt r"
  using assms by (cases r, cases r', simp add: row_decays_def)+

lemma row_decays_live: "row_decays r r' \<Longrightarrow> rt_revokedAt r' = None \<Longrightarrow> rt_revokedAt r = None"
  by (auto simp: row_decays_def)

lemma decays_keys:
  assumes "decays db db'"
  shows "map rt_id (rt_rows db') = map rt_id (rt_rows db)"
    and "map rt_tokenHash (rt_rows db') = map rt_tokenHash (rt_rows db)"
proof -
  have l: "list_all2 row_decays (rt_rows db) (rt_rows db')"
    using assms by (simp add: decays_def)
  show "map rt_id (rt_rows db') = map rt_id (rt_rows db)"
    using l by (induction rule: list_all2_induct) (auto dest: row_decays_sel)
  show "map rt_tokenHash (rt_rows db') = map rt_tokenHash (rt_rows db)"
    using l by (induction rule: list_all2_induct) (auto dest: row_decays_sel)
qed

subsection \<open>The revocation interface\<close>

text \<open>
  What the membership services rely on when they revoke the sessions a member loses. A key
  selects rows (a user and a domain, organisation or team).
\<close>

locale session_revocation =
  fixes revoke :: "'k \<Rightarrow> int \<Rightarrow> refresh_db \<Rightarrow> nat \<times> refresh_db"
    and selects :: "'k \<Rightarrow> refresh_row \<Rightarrow> bool"
  assumes revoke_decays: "decays db (snd (revoke k now db))"
    and revoke_versions: "rt_versions (snd (revoke k now db)) = rt_versions db"
    and revoke_selected:
      "r \<in> set (rt_rows (snd (revoke k now db))) \<Longrightarrow> selects k r \<Longrightarrow> rt_revokedAt r \<noteq> None"
    and revoke_others:
      "r \<in> set (rt_rows db) \<Longrightarrow> \<not> selects k r \<Longrightarrow> r \<in> set (rt_rows (snd (revoke k now db)))"
    and selects_stable: "row_decays r r' \<Longrightarrow> selects k r' = selects k r"
begin

lemma no_live_selected:
  "r \<in> set (rt_rows (snd (revoke k now db))) \<Longrightarrow> rt_revokedAt r = None \<Longrightarrow> \<not> selects k r"
  using revoke_selected by blast

lemma stays_dead:
  assumes "decays (snd (revoke k now db)) db'" and "r \<in> set (rt_rows db')" and "selects k r"
  shows "rt_revokedAt r \<noteq> None"
proof -
  from assms(1,2) obtain r0 where r0: "r0 \<in> set (rt_rows (snd (revoke k now db)))"
      and d: "row_decays r0 r" by (rule decays_rowE)
  from selects_stable[OF d] assms(3) have "selects k r0" by simp
  with revoke_selected[OF r0] d show ?thesis by (auto simp: row_decays_def)
qed

end

lemma revoke_matching_law:
  assumes "\<And>r r'. row_decays r r' \<Longrightarrow> P r' = P r"
  shows "r \<in> set (rt_rows (snd (revoke_matching P now db))) \<Longrightarrow> P r \<Longrightarrow> rt_revokedAt r \<noteq> None"
    and "r \<in> set (rt_rows db) \<Longrightarrow> \<not> P r \<Longrightarrow> r \<in> set (rt_rows (snd (revoke_matching P now db)))"
    and "rt_versions (snd (revoke_matching P now db)) = rt_versions db"
  using assms[OF row_decays_marks(1)[of _ now]]
  by (auto simp: revoke_matching_def Let_def set_update_where mark_revoked_def image_iff
      split: if_splits)

lemma revoke_matching_session:
  assumes "\<And>k r r'. row_decays r r' \<Longrightarrow> P k r' = P k r"
  shows "session_revocation (\<lambda>k. revoke_matching (P k)) P"
proof (unfold_locales, goal_cases)
  case 1 show ?case by simp
next
  case (2 k) show ?case using assms revoke_matching_law(3)[where P = "P k"] by blast
next
  case (3 r k) then show ?case using assms revoke_matching_law(1)[where P = "P k"] by blast
next
  case (4 r db k) then show ?case using assms revoke_matching_law(2)[where P = "P k"] by blast
next
  case (5 r r' k) then show ?case by (rule assms)
qed

lemma user_domain_eq:
  "revokeRefreshTokensForUserDomain =
     (\<lambda>k. revoke_matching (\<lambda>r. rt_userId r = fst k \<and> rt_domain r = snd k))"
  by (intro ext) (simp add: revokeRefreshTokensForUserDomain_def)

lemma user_organisation_eq:
  "revokeRefreshTokenFamiliesForUserOrganisation =
     (\<lambda>k. revoke_matching (\<lambda>r. rt_userId r = fst k \<and> rt_orgId r = Some (snd k)))"
  by (intro ext) (simp add: revokeRefreshTokenFamiliesForUserOrganisation_def)

lemma user_team_eq:
  "revokeRefreshTokenFamiliesForUserTeam =
     (\<lambda>k. revoke_matching (\<lambda>r. rt_userId r = fst k \<and> rt_teamId r = Some (snd k)))"
  by (intro ext) (simp add: revokeRefreshTokenFamiliesForUserTeam_def)

interpretation user_domain: session_revocation revokeRefreshTokensForUserDomain
  "\<lambda>k r. rt_userId r = fst k \<and> rt_domain r = snd k"
  unfolding user_domain_eq by (rule revoke_matching_session) (auto simp: row_decays_sel)

interpretation user_organisation: session_revocation revokeRefreshTokenFamiliesForUserOrganisation
  "\<lambda>k r. rt_userId r = fst k \<and> rt_orgId r = Some (snd k)"
  unfolding user_organisation_eq by (rule revoke_matching_session) (auto simp: row_decays_sel)

interpretation user_team: session_revocation revokeRefreshTokenFamiliesForUserTeam
  "\<lambda>k r. rt_userId r = fst k \<and> rt_teamId r = Some (snd k)"
  unfolding user_team_eq by (rule revoke_matching_session) (auto simp: row_decays_sel)

end
