(* ===== verification/Refresh_Exchange.thy ===== *)
theory Refresh_Exchange
  imports Refresh_Store
begin

section \<open>Issuing, rotating, replaying and revoking refresh tokens\<close>

text \<open>
  \<^verbatim>\<open>refresh-token.service.ts\<close>, \<^verbatim>\<open>refresh-token-replay.service.ts\<close> and
  \<^verbatim>\<open>refresh-token-transaction.service.ts\<close>. The policy hooks of the callers are functions
  on the store that may throw; the clock readings of one call are \<open>at1\<close> (the first) and
  \<open>at2\<close> (every later one, no call takes more than two decisions after the first).
  Random token values and family identifiers are arguments.
\<close>

subsection \<open>Parameters and results\<close>

record policy_row =
  pr_userId :: string
  pr_domain :: string
  pr_orgId :: "string option"
  pr_teamId :: "string option"
  pr_twoFaCompleted :: bool

definition policy_view :: "refresh_row \<Rightarrow> policy_row" where
  "policy_view r = \<lparr>pr_userId = rt_userId r, pr_domain = rt_domain r, pr_orgId = rt_orgId r,
     pr_teamId = rt_teamId r, pr_twoFaCompleted = rt_twoFaCompleted r\<rparr>"

type_synonym 'z policy_hook = "policy_row \<Rightarrow> 'z refresh_db_scheme \<Rightarrow> (thrown + unit) \<times> 'z refresh_db_scheme"

record 'z refresh_deps =
  beforeFamilyDecision :: "'z policy_hook option"
  beforeRotate :: "'z policy_hook option"
  beforeReplay :: "'z policy_hook option"
  at1 :: int
  at2 :: int

definition run_hook :: "'z policy_hook option \<Rightarrow> 'z policy_hook" where
  "run_hook h row db = (case h of None \<Rightarrow> (Inr (), db) | Some f \<Rightarrow> f row db)"

record new_session =
  ns_familyId :: "string option"
  ns_parentTokenId :: "nat option"
  ns_userId :: string
  ns_context :: refresh_context
  ns_orgId :: "string option"
  ns_teamId :: "string option"
  ns_twoFaCompleted :: bool

record exchange_result =
  er_userId :: string
  er_refreshToken :: string
  er_expiresInSeconds :: int
  er_replayed :: bool
  er_orgId :: "string option"
  er_teamId :: "string option"
  er_twoFaCompleted :: bool

subsection \<open>Creating a row\<close>

definition getRefreshTokenTtlSeconds :: "int option \<Rightarrow> int option \<Rightarrow> int \<Rightarrow> int" where
  "getRefreshTokenTtlSeconds ttlSeconds ttlDays envDays =
     (case ttlSeconds of
        Some s \<Rightarrow> s
      | None \<Rightarrow> (case ttlDays of Some d \<Rightarrow> d | None \<Rightarrow> envDays) * 24 * 60 * 60)"

text \<open>The schema declares \<open>tokenHash\<close> and \<open>parentTokenId\<close> unique; a clash is P2002.\<close>

definition createRefreshTokenRecord ::
  "crypto \<Rightarrow> string \<Rightarrow> new_session \<Rightarrow> string \<Rightarrow> string \<Rightarrow> int \<Rightarrow> int \<Rightarrow> 'z refresh_db_scheme \<Rightarrow>
     (thrown + (string \<times> nat \<times> int)) \<times> 'z refresh_db_scheme" where
  "createRefreshTokenRecord cr secret params refreshToken freshFamily now ttlSeconds db =
     (let h = hashRefreshToken cr refreshToken secret;
          row = \<lparr>rt_id = rt_next db, rt_tokenHash = h,
            rt_familyId = (case ns_familyId params of Some f \<Rightarrow> f | None \<Rightarrow> freshFamily),
            rt_parentTokenId = ns_parentTokenId params, rt_userId = ns_userId params,
            rt_domain = ctx_domain (ns_context params),
            rt_clientId = ctx_clientId (ns_context params),
            rt_configUrl = ctx_configUrl (ns_context params),
            rt_createdAt = now, rt_expiresAt = now + ttlSeconds * 1000,
            rt_revokedAt = None, rt_securityRevokedAt = None, rt_replacedByTokenId = None,
            rt_orgId = ns_orgId params, rt_teamId = ns_teamId params,
            rt_twoFaCompleted = ns_twoFaCompleted params, rt_lastUsedAt = None\<rparr>
      in if (\<exists>r \<in> set (rt_rows db). rt_tokenHash r = h \<or>
              (ns_parentTokenId params \<noteq> None \<and> rt_parentTokenId r = ns_parentTokenId params))
         then (Inl (Db_Error ''P2002''), db)
         else (Inr (refreshToken, rt_next db, ttlSeconds),
               db\<lparr>rt_rows := rt_rows db @ [row], rt_next := Suc (rt_next db)\<rparr>))"

definition issueRefreshToken ::
  "crypto \<Rightarrow> string \<Rightarrow> new_session \<Rightarrow> string \<Rightarrow> string \<Rightarrow> int \<Rightarrow> int \<Rightarrow> 'z refresh_db_scheme \<Rightarrow>
     (thrown + (string \<times> nat \<times> int)) \<times> 'z refresh_db_scheme" where
  "issueRefreshToken cr secret params randomToken freshFamily now ttlSeconds db =
     createRefreshTokenRecord cr secret params randomToken freshFamily now ttlSeconds db"

subsection \<open>Walking the deterministic successor chain\<close>

datatype walk = Walk_Reuse | Walk_Corrupt | Walk_End refresh_row string bool

definition successor_ok ::
  "crypto \<Rightarrow> string \<Rightarrow> refresh_context \<Rightarrow> refresh_row \<Rightarrow> refresh_row \<Rightarrow> string \<Rightarrow> refresh_row \<Rightarrow> bool" where
  "successor_ok cr secret ctx root current successorRaw successor \<longleftrightarrow>
     rt_parentTokenId successor = Some (rt_id current) \<and>
     rt_tokenHash successor = hashRefreshToken cr successorRaw secret \<and>
     sameRefreshTokenFamily root successor \<and>
     matchesRefreshTokenContext successor ctx \<and> hasValidWorkspaceScope successor"

text \<open>\<open>depth\<close> counts down from the limit, so the loop is structural.\<close>

fun walk_chain ::
  "crypto \<Rightarrow> string \<Rightarrow> refresh_context \<Rightarrow> refresh_row \<Rightarrow> string option \<times> string option \<Rightarrow>
   refresh_row list \<Rightarrow> nat \<Rightarrow> refresh_row \<Rightarrow> string \<Rightarrow> bool \<Rightarrow> nat set \<Rightarrow> walk" where
  "walk_chain cr secret ctx root expected rows 0 current raw conflict seen =
     (case rt_replacedByTokenId current of
        None \<Rightarrow> Walk_End current raw conflict
      | Some _ \<Rightarrow> Walk_Reuse)"
| "walk_chain cr secret ctx root expected rows (Suc left) current raw conflict seen =
     (case rt_replacedByTokenId current of
        None \<Rightarrow> Walk_End current raw conflict
      | Some next \<Rightarrow>
          if next \<in> seen then Walk_Corrupt
          else case List.find (\<lambda>r. rt_id r = next) rows of
            None \<Rightarrow> Walk_Corrupt
          | Some successor \<Rightarrow>
              (let successorRaw = deriveRefreshTokenSuccessor cr raw secret
               in if \<not> successor_ok cr secret ctx root current successorRaw successor
                  then Walk_Corrupt
                  else walk_chain cr secret ctx root expected rows left successor successorRaw
                    (conflict \<or> \<not> matchesWorkspaceScope successor expected)
                    (insert (rt_id successor) seen)))"

definition graceExpired :: "refresh_row \<Rightarrow> int \<Rightarrow> bool" where
  "graceExpired row now =
     (case rt_revokedAt row of
        None \<Rightarrow> True
      | Some t \<Rightarrow> now - t > REFRESH_TOKEN_REPLAY_GRACE_MS)"

definition resolveRefreshTokenReplay ::
  "crypto \<Rightarrow> string \<Rightarrow> refresh_context \<Rightarrow> string \<Rightarrow> refresh_row \<Rightarrow>
   string option \<times> string option \<Rightarrow> bool \<Rightarrow> 'z policy_hook option \<Rightarrow> int \<Rightarrow> int \<Rightarrow> 'z refresh_db_scheme \<Rightarrow>
     (thrown + exchange_result) \<times> 'z refresh_db_scheme" where
  "resolveRefreshTokenReplay cr secret ctx refreshToken row expected workspaceSwitch hook t1 t2 db =
     (if \<not> hasValidWorkspaceScope row then rejectRefreshTokenCorruption row t1 db
      else case walk_chain cr secret ctx row expected (rt_rows db)
                  MAX_REFRESH_REPLAY_CHAIN_DEPTH row refreshToken False {rt_id row} of
        Walk_Reuse \<Rightarrow> rejectRefreshTokenReuse row t2 db
      | Walk_Corrupt \<Rightarrow> rejectRefreshTokenCorruption row t2 db
      | Walk_End current currentRaw conflict \<Rightarrow>
          if graceExpired row t1 then rejectRefreshTokenReuse row t1 db
          else if rt_revokedAt current \<noteq> None then (Inl invalid_refresh, db)
          else if conflict then (Inl switch_conflict, db)
          else if workspaceSwitch \<and> matchesWorkspaceScope row expected
            then (Inl switch_conflict, db)
          else (case run_hook hook (policy_view current) db of
              (Inl e, db1) \<Rightarrow>
                if graceExpired row t2 then rejectRefreshTokenReuse row t2 db1
                else if workspaceSwitch \<and> thrown_status e \<in> {Some 401, Some 403}
                  then retireRefreshTokenFamily row t2 db1
                else (Inl e, db1)
            | (Inr _, db1) \<Rightarrow>
                if graceExpired row t2 then rejectRefreshTokenReuse row t2 db1
                else if rt_expiresAt current \<le> t2 then (Inl invalid_refresh, db1)
                else (Inr \<lparr>er_userId = rt_userId current, er_refreshToken = currentRaw,
                        er_expiresInSeconds = remainingRefreshTokenTtlSeconds current t2,
                        er_replayed = True, er_orgId = rt_orgId current,
                        er_teamId = rt_teamId current,
                        er_twoFaCompleted = rt_twoFaCompleted current\<rparr>, db1)))"

subsection \<open>The exchange\<close>

definition MIN_INHERITED_REFRESH_TTL_SECONDS :: int where
  "MIN_INHERITED_REFRESH_TTL_SECONDS = 5 * 60"

text \<open>\<open>Math.round\<close> of a quotient by 1000.\<close>

definition round_div_1000 :: "int \<Rightarrow> int" where
  "round_div_1000 a = (a + 500) div 1000"

definition inherited_ttl :: "refresh_row \<Rightarrow> int" where
  "inherited_ttl row =
     max (round_div_1000 (rt_expiresAt row - rt_createdAt row)) MIN_INHERITED_REFRESH_TTL_SECONDS"

definition successor_session ::
  "refresh_row \<Rightarrow> string option \<times> string option \<Rightarrow> new_session" where
  "successor_session row expected =
     \<lparr>ns_familyId = Some (rt_familyId row), ns_parentTokenId = Some (rt_id row),
      ns_userId = rt_userId row,
      ns_context = \<lparr>ctx_clientId = rt_clientId row, ctx_configUrl = rt_configUrl row,
                    ctx_domain = rt_domain row\<rparr>,
      ns_orgId = fst expected, ns_teamId = snd expected,
      ns_twoFaCompleted = rt_twoFaCompleted row\<rparr>"

definition rotate_row ::
  "crypto \<Rightarrow> string \<Rightarrow> string \<Rightarrow> refresh_row \<Rightarrow> string option \<times> string option \<Rightarrow> int \<Rightarrow>
     'z refresh_db_scheme \<Rightarrow> (thrown + exchange_result) \<times> 'z refresh_db_scheme" where
  "rotate_row cr secret refreshToken row expected now db =
     (case createRefreshTokenRecord cr secret (successor_session row expected)
             (deriveRefreshTokenSuccessor cr refreshToken secret) [] now (inherited_ttl row) db of
        (Inl e, db1) \<Rightarrow> (Inl e, db1)
      | (Inr (nextToken, nextId, ttl), db1) \<Rightarrow>
          (let Q = (\<lambda>r. rt_id r = rt_id row \<and> rt_revokedAt r = None \<and>
                       rt_replacedByTokenId r = None \<and> rt_expiresAt r > now);
               db2 = db1\<lparr>rt_rows := update_where Q
                      (\<lambda>r. r\<lparr>rt_lastUsedAt := Some now, rt_revokedAt := Some now,
                            rt_replacedByTokenId := Some nextId\<rparr>) (rt_rows db1)\<rparr>
           in if count_where Q (rt_rows db1) \<noteq> 1 then rejectRefreshTokenReuse row now db2
              else (Inr \<lparr>er_userId = rt_userId row, er_refreshToken = nextToken,
                      er_expiresInSeconds = ttl, er_replayed = False,
                      er_orgId = fst expected, er_teamId = snd expected,
                      er_twoFaCompleted = rt_twoFaCompleted row\<rparr>, db2)))"

definition find_token :: "crypto \<Rightarrow> string \<Rightarrow> string \<Rightarrow> 'z refresh_db_scheme \<Rightarrow> refresh_row option" where
  "find_token cr secret refreshToken db =
     List.find (\<lambda>r. rt_tokenHash r = hashRefreshToken cr refreshToken secret) (rt_rows db)"

definition decide_exchange ::
  "crypto \<Rightarrow> string \<Rightarrow> refresh_context \<Rightarrow> string \<Rightarrow> (string \<times> string) option \<Rightarrow> 'z refresh_deps \<Rightarrow>
     refresh_row \<Rightarrow> 'z refresh_db_scheme \<Rightarrow> (thrown + exchange_result) \<times> 'z refresh_db_scheme" where
  "decide_exchange cr secret ctx refreshToken workspace deps row db =
     (let expected = (case workspace of
            Some (o1, t1) \<Rightarrow> (Some o1, Some t1) | None \<Rightarrow> (rt_orgId row, rt_teamId row))
      in if rt_replacedByTokenId row \<noteq> None then
           resolveRefreshTokenReplay cr secret ctx refreshToken row expected (workspace \<noteq> None)
             (case beforeReplay deps of Some h \<Rightarrow> Some h | None \<Rightarrow> beforeRotate deps)
             (at1 deps) (at2 deps) db
         else if rt_revokedAt row \<noteq> None \<or> rt_expiresAt row \<le> at1 deps then
           (Inl invalid_refresh, db)
         else if workspace \<noteq> None \<and> (rt_orgId row, rt_teamId row) = expected then
           (Inl switch_conflict, db)
         else (case run_hook (beforeRotate deps) (policy_view row) db of
             (Inl e, db1) \<Rightarrow> (Inl e, db1)
           | (Inr _, db1) \<Rightarrow>
               if rt_expiresAt row \<le> at2 deps then (Inl invalid_refresh, db1)
               else rotate_row cr secret refreshToken row expected (at2 deps) db1))"

definition exchangeRefreshToken ::
  "crypto \<Rightarrow> string \<Rightarrow> refresh_context \<Rightarrow> string \<Rightarrow> (string \<times> string) option \<Rightarrow> 'z refresh_deps \<Rightarrow>
     'z refresh_db_scheme \<Rightarrow> (thrown + exchange_result) \<times> 'z refresh_db_scheme" where
  "exchangeRefreshToken cr secret ctx refreshToken workspace deps db =
     (case find_token cr secret refreshToken db of
        None \<Rightarrow> (Inl invalid_refresh, db)
      | Some row \<Rightarrow>
          if \<not> matchesRefreshTokenContext row ctx then (Inl invalid_refresh, db)
          else (case beforeFamilyDecision deps of
              None \<Rightarrow> decide_exchange cr secret ctx refreshToken workspace deps row db
            | Some lock \<Rightarrow>
                (case lock (policy_view row) db of
                   (Inl e, db1) \<Rightarrow> (Inl e, db1)
                 | (Inr _, db1) \<Rightarrow>
                     (case find_token cr secret refreshToken db1 of
                        None \<Rightarrow> (Inl invalid_refresh, db1)
                      | Some row1 \<Rightarrow>
                          if \<not> matchesRefreshTokenContext row1 ctx then (Inl invalid_refresh, db1)
                          else decide_exchange cr secret ctx refreshToken workspace deps row1 db1))))"

subsection \<open>Logout and the exchange transaction\<close>

definition revokeRefreshTokenFamily ::
  "crypto \<Rightarrow> string \<Rightarrow> refresh_context \<Rightarrow> string \<Rightarrow> ('z refresh_db_scheme \<Rightarrow> 'z refresh_db_scheme) \<Rightarrow> int \<Rightarrow>
     'z refresh_db_scheme \<Rightarrow> (thrown + unit) \<times> 'z refresh_db_scheme" where
  "revokeRefreshTokenFamily cr secret ctx refreshToken awaitLock now =
     run_tx (\<lambda>db.
       case find_token cr secret refreshToken db of
         None \<Rightarrow> (Inr (), db)
       | Some row \<Rightarrow>
           if \<not> matchesRefreshTokenContext row ctx then (Inr (), db)
           else (let db1 = awaitLock db
                 in case find_token cr secret refreshToken db1 of
                      None \<Rightarrow> (Inr (), db1)
                    | Some row1 \<Rightarrow>
                        if \<not> matchesRefreshTokenContext row1 ctx then (Inr (), db1)
                        else invalidateRefreshTokenFamilySecurityEpoch row1 now db1))"

text \<open>
  The transaction commits the revocation a reuse signal announces and rolls every other
  failure back; the caller sees the public 401 either way.
\<close>

definition runRefreshTokenExchangeTransaction ::
  "('z refresh_db_scheme \<Rightarrow> (thrown + 'a) \<times> 'z refresh_db_scheme) \<Rightarrow> 'z refresh_db_scheme \<Rightarrow> (thrown + 'a) \<times> 'z refresh_db_scheme" where
  "runRefreshTokenExchangeTransaction exchange db =
     (case exchange db of
        (Inr v, db1) \<Rightarrow> (Inr v, db1)
      | (Inl Reuse_Detected, db1) \<Rightarrow> (Inl invalid_refresh, db1)
      | (Inl e, _) \<Rightarrow> (Inl e, db))"

end
