(* ===== verification/Refresh_Safety.thy ===== *)
theory Refresh_Safety
  imports Refresh_Exchange
begin

section \<open>Safety of refresh-token sessions\<close>

text \<open>
  The store as a state machine (issue, exchange, logout, revocation by the membership
  services), its invariant, and what the exchange promises in every reachable store: one live
  token per family, idempotent retries inside the replay window, theft detection outside it,
  and no loss of a session to a false corruption verdict.
\<close>

subsection \<open>The invariant\<close>

definition link_ok :: "crypto \<Rightarrow> string \<Rightarrow> refresh_row \<Rightarrow> refresh_row \<Rightarrow> bool" where
  "link_ok cr secret r s \<longleftrightarrow>
     rt_parentTokenId s = Some (rt_id r) \<and> rt_id r < rt_id s \<and> sameRefreshTokenFamily r s \<and>
     (\<exists>raw. rt_tokenHash r = hashRefreshToken cr raw secret \<and>
            rt_tokenHash s = hashRefreshToken cr (deriveRefreshTokenSuccessor cr raw secret) secret)"

definition one_live :: "refresh_row list \<Rightarrow> bool" where
  "one_live rows \<longleftrightarrow>
     (\<forall>r \<in> set rows. \<forall>s \<in> set rows. rt_revokedAt r = None \<longrightarrow> rt_revokedAt s = None \<longrightarrow>
        rt_familyId r = rt_familyId s \<longrightarrow> rt_id r = rt_id s)"

definition links_ok :: "crypto \<Rightarrow> string \<Rightarrow> refresh_row list \<Rightarrow> bool" where
  "links_ok cr secret rows \<longleftrightarrow>
     (\<forall>r \<in> set rows. \<forall>k. rt_replacedByTokenId r = Some k \<longrightarrow>
        rt_revokedAt r \<noteq> None \<and> (\<exists>s \<in> set rows. rt_id s = k \<and> link_ok cr secret r s))"

definition session_ok :: "crypto \<Rightarrow> string \<Rightarrow> refresh_db \<Rightarrow> bool" where
  "session_ok cr secret db \<longleftrightarrow>
     distinct (map rt_id (rt_rows db)) \<and> distinct (map rt_tokenHash (rt_rows db)) \<and>
     (\<forall>r \<in> set (rt_rows db). rt_id r < rt_next db \<and> hasValidWorkspaceScope r) \<and>
     one_live (rt_rows db) \<and> links_ok cr secret (rt_rows db)"

lemma session_okD:
  assumes "session_ok cr secret db"
  shows "distinct (map rt_id (rt_rows db))" "distinct (map rt_tokenHash (rt_rows db))"
    "r \<in> set (rt_rows db) \<Longrightarrow> rt_id r < rt_next db"
    "r \<in> set (rt_rows db) \<Longrightarrow> hasValidWorkspaceScope r"
    "one_live (rt_rows db)" "links_ok cr secret (rt_rows db)"
  using assms by (auto simp: session_ok_def)

lemma link_ok_decays:
  "row_decays r r' \<Longrightarrow> row_decays s s' \<Longrightarrow> link_ok cr secret r s \<Longrightarrow> link_ok cr secret r' s'"
  by (auto simp: link_ok_def sameRefreshTokenFamily_def row_decays_sel)

lemma session_ok_decays:
  assumes "decays db db'" and ok: "session_ok cr secret db"
  shows "session_ok cr secret db'"
proof -
  note keys = decays_keys[OF assms(1)]
  have next_eq: "rt_next db' = rt_next db" using assms(1) by (simp add: decays_def)
  have rows: "rt_id r < rt_next db' \<and> hasValidWorkspaceScope r" if "r \<in> set (rt_rows db')" for r
    using decays_rowE[OF assms(1) that] session_okD(3,4)[OF ok] next_eq
    by (metis hasValidWorkspaceScope_def row_decays_sel(1,12,13))
  have live: "one_live (rt_rows db')"
    unfolding one_live_def
  proof (intro ballI impI)
    fix r s assume r: "r \<in> set (rt_rows db')" "rt_revokedAt r = None"
      and s: "s \<in> set (rt_rows db')" "rt_revokedAt s = None" and f: "rt_familyId r = rt_familyId s"
    from decays_rowE[OF assms(1) r(1)] obtain r0 where r0: "r0 \<in> set (rt_rows db)" "row_decays r0 r" .
    from decays_rowE[OF assms(1) s(1)] obtain s0 where s0: "s0 \<in> set (rt_rows db)" "row_decays s0 s" .
    from r0 s0 r s f have "rt_id r0 = rt_id s0"
      using session_okD(5)[OF ok] row_decays_live row_decays_sel(3) unfolding one_live_def by metis
    then show "rt_id r = rt_id s" using r0 s0 row_decays_sel(1) by metis
  qed
  have links: "links_ok cr secret (rt_rows db')"
    unfolding links_ok_def
  proof (intro ballI allI impI)
    fix r k assume r: "r \<in> set (rt_rows db')" and k: "rt_replacedByTokenId r = Some k"
    from decays_rowE[OF assms(1) r] obtain r0 where r0: "r0 \<in> set (rt_rows db)" "row_decays r0 r" .
    with k have "rt_replacedByTokenId r0 = Some k" by (simp add: row_decays_sel)
    with r0 session_okD(6)[OF ok] obtain s0 where s0: "s0 \<in> set (rt_rows db)" "rt_id s0 = k"
        "link_ok cr secret r0 s0" and rev: "rt_revokedAt r0 \<noteq> None"
      unfolding links_ok_def by metis
    from decays_rowE2[OF assms(1) s0(1)] obtain s where s: "s \<in> set (rt_rows db')" "row_decays s0 s" .
    have "rt_revokedAt r \<noteq> None" using rev row_decays_live[OF r0(2)] by (cases "rt_revokedAt r") auto
    moreover have "rt_id s = k" using s(2) s0(2) by (simp add: row_decays_sel)
    moreover have "link_ok cr secret r s" using link_ok_decays[OF r0(2) s(2) s0(3)] .
    ultimately show "rt_revokedAt r \<noteq> None \<and> (\<exists>s \<in> set (rt_rows db'). rt_id s = k \<and> link_ok cr secret r s)"
      using s(1) by blast
  qed
  show ?thesis
    using keys session_okD(1,2)[OF ok] rows live links by (auto simp: session_ok_def)
qed

subsection \<open>Rotation\<close>

definition successor_row ::
  "crypto \<Rightarrow> string \<Rightarrow> string \<Rightarrow> refresh_row \<Rightarrow> string option \<times> string option \<Rightarrow> int \<Rightarrow> nat \<Rightarrow> refresh_row" where
  "successor_row cr secret tok row expected now i =
     \<lparr>rt_id = i,
      rt_tokenHash = hashRefreshToken cr (deriveRefreshTokenSuccessor cr tok secret) secret,
      rt_familyId = rt_familyId row, rt_parentTokenId = Some (rt_id row),
      rt_userId = rt_userId row, rt_domain = rt_domain row, rt_clientId = rt_clientId row,
      rt_configUrl = rt_configUrl row, rt_createdAt = now,
      rt_expiresAt = now + inherited_ttl row * 1000, rt_revokedAt = None,
      rt_securityRevokedAt = None, rt_replacedByTokenId = None, rt_orgId = fst expected,
      rt_teamId = snd expected, rt_twoFaCompleted = rt_twoFaCompleted row, rt_lastUsedAt = None\<rparr>"

definition retire_row :: "int \<Rightarrow> nat \<Rightarrow> refresh_row \<Rightarrow> refresh_row" where
  "retire_row now i r =
     r\<lparr>rt_lastUsedAt := Some now, rt_revokedAt := Some now, rt_replacedByTokenId := Some i\<rparr>"

definition rotated ::
  "crypto \<Rightarrow> string \<Rightarrow> string \<Rightarrow> refresh_row \<Rightarrow> string option \<times> string option \<Rightarrow> int \<Rightarrow> refresh_db \<Rightarrow> refresh_db" where
  "rotated cr secret tok row expected now db =
     db\<lparr>rt_rows := update_where (\<lambda>r. rt_id r = rt_id row) (retire_row now (rt_next db)) (rt_rows db)
                  @ [successor_row cr secret tok row expected now (rt_next db)],
        rt_next := Suc (rt_next db)\<rparr>"

definition rotation_result ::
  "crypto \<Rightarrow> string \<Rightarrow> string \<Rightarrow> refresh_row \<Rightarrow> string option \<times> string option \<Rightarrow> exchange_result" where
  "rotation_result cr secret tok row expected =
     \<lparr>er_userId = rt_userId row, er_refreshToken = deriveRefreshTokenSuccessor cr tok secret,
      er_expiresInSeconds = inherited_ttl row, er_replayed = False, er_orgId = fst expected,
      er_teamId = snd expected, er_twoFaCompleted = rt_twoFaCompleted row\<rparr>"

lemma update_where_cong:
  "(\<And>r. r \<in> set rs \<Longrightarrow> P r = Q r) \<Longrightarrow> (\<And>r. f r = g r) \<Longrightarrow> update_where P f rs = update_where Q g rs"
  by (induction rs) auto

lemma count_where_the:
  "distinct (map key rs) \<Longrightarrow> r \<in> set rs \<Longrightarrow> P r \<Longrightarrow> count_where (\<lambda>x. key x = key r \<and> P x) rs = 1"
proof (induction rs)
  case (Cons a rs)
  have "count_where (\<lambda>x. key x = key r \<and> P x) rs = 0" if "a = r"
    using Cons.prems(1) that by (auto simp: count_where_0_iff image_iff)
  then show ?case using Cons by (auto simp: image_iff)
qed simp

lemma rotate_row_cases:
  assumes ids: "distinct (map rt_id (rt_rows db))" and bound: "\<And>r. r \<in> set (rt_rows db) \<Longrightarrow> rt_id r < rt_next db"
    and row: "row \<in> set (rt_rows db)" "rt_revokedAt row = None" "rt_replacedByTokenId row = None"
      "now < rt_expiresAt row"
  shows "rotate_row cr secret tok row expected now db = (Inl (Db_Error ''P2002''), db)
    \<or> (rotate_row cr secret tok row expected now db =
         (Inr (rotation_result cr secret tok row expected), rotated cr secret tok row expected now db)
       \<and> (\<forall>r \<in> set (rt_rows db). rt_tokenHash r \<noteq>
            hashRefreshToken cr (deriveRefreshTokenSuccessor cr tok secret) secret))"
proof -
  let ?h = "hashRefreshToken cr (deriveRefreshTokenSuccessor cr tok secret) secret"
  let ?clash = "\<exists>r \<in> set (rt_rows db). rt_tokenHash r = ?h \<or> rt_parentTokenId r = Some (rt_id row)"
  let ?live = "\<lambda>r. rt_revokedAt r = None \<and> rt_replacedByTokenId r = None \<and> rt_expiresAt r > now"
  let ?Q = "\<lambda>r. rt_id r = rt_id row \<and> ?live r"
  let ?new = "successor_row cr secret tok row expected now (rt_next db)"
  have fresh: "rt_next db \<noteq> rt_id row" using bound[OF row(1)] by simp
  have n: "count_where ?Q (rt_rows db) = 1"
    using count_where_the[OF ids row(1), of ?live] row(2-4) by blast
  have q: "?Q r = (rt_id r = rt_id row)" if "r \<in> set (rt_rows db)" for r
    using distinct_key_eq[OF ids that row(1)] row(2-4) by auto
  have upd: "update_where ?Q (retire_row now (rt_next db)) (rt_rows db)
           = update_where (\<lambda>r. rt_id r = rt_id row) (retire_row now (rt_next db)) (rt_rows db)"
    by (rule update_where_cong[OF q]) simp_all
  show ?thesis
  proof (cases ?clash)
    case True
    then show ?thesis by (auto simp: rotate_row_def createRefreshTokenRecord_def successor_session_def Let_def)
  next
    case False
    then have "rotate_row cr secret tok row expected now db =
         (Inr (rotation_result cr secret tok row expected), rotated cr secret tok row expected now db)"
      using n fresh upd
      by (simp add: rotate_row_def createRefreshTokenRecord_def successor_session_def Let_def
          rotated_def rotation_result_def successor_row_def retire_row_def [abs_def])
    with False show ?thesis by blast
  qed
qed

lemma inherited_ttl_min: "300 \<le> inherited_ttl row"
  by (simp add: inherited_ttl_def MIN_INHERITED_REFRESH_TTL_SECONDS_def)

lemma rotated_rows:
  "r \<in> set (rt_rows (rotated cr secret tok row expected now db)) \<longleftrightarrow>
     r = successor_row cr secret tok row expected now (rt_next db) \<or>
     (\<exists>r0 \<in> set (rt_rows db). r = (if rt_id r0 = rt_id row then retire_row now (rt_next db) r0 else r0))"
  by (auto simp: rotated_def set_update_where)

lemma retire_row_sel [simp]:
  "rt_id (retire_row now i r) = rt_id r" "rt_tokenHash (retire_row now i r) = rt_tokenHash r"
  "rt_familyId (retire_row now i r) = rt_familyId r" "rt_userId (retire_row now i r) = rt_userId r"
  "rt_domain (retire_row now i r) = rt_domain r" "rt_orgId (retire_row now i r) = rt_orgId r"
  "rt_teamId (retire_row now i r) = rt_teamId r" "rt_clientId (retire_row now i r) = rt_clientId r"
  "rt_configUrl (retire_row now i r) = rt_configUrl r" "rt_revokedAt (retire_row now i r) = Some now"
  "rt_twoFaCompleted (retire_row now i r) = rt_twoFaCompleted r"
  "rt_parentTokenId (retire_row now i r) = rt_parentTokenId r"
  "rt_replacedByTokenId (retire_row now i r) = Some i"
  by (simp_all add: retire_row_def)

lemma successor_row_sel [simp]:
  "rt_id (successor_row cr secret tok row expected now i) = i"
  "rt_familyId (successor_row cr secret tok row expected now i) = rt_familyId row"
  "rt_revokedAt (successor_row cr secret tok row expected now i) = None"
  "rt_replacedByTokenId (successor_row cr secret tok row expected now i) = None"
  "rt_orgId (successor_row cr secret tok row expected now i) = fst expected"
  "rt_teamId (successor_row cr secret tok row expected now i) = snd expected"
  "rt_tokenHash (successor_row cr secret tok row expected now i)
     = hashRefreshToken cr (deriveRefreshTokenSuccessor cr tok secret) secret"
  by (simp_all add: successor_row_def)

lemma rotated_ok:
  assumes ok: "session_ok cr secret db"
    and row: "row \<in> set (rt_rows db)" "rt_revokedAt row = None"
    and tok: "rt_tokenHash row = hashRefreshToken cr tok secret"
    and scope: "truthy (fst expected) = truthy (snd expected)"
    and new: "\<forall>r \<in> set (rt_rows db). rt_tokenHash r \<noteq>
            hashRefreshToken cr (deriveRefreshTokenSuccessor cr tok secret) secret"
  shows "session_ok cr secret (rotated cr secret tok row expected now db)"
proof -
  let ?db = "rotated cr secret tok row expected now db"
  let ?new = "successor_row cr secret tok row expected now (rt_next db)"
  let ?old = "retire_row now (rt_next db) row"
  note okD = session_okD[OF ok]
  have split: "r = ?new \<or> r = ?old \<or> (r \<in> set (rt_rows db) \<and> rt_id r \<noteq> rt_id row)"
    if "r \<in> set (rt_rows ?db)" for r
  proof -
    have "r0 = row" if "r0 \<in> set (rt_rows db)" "rt_id r0 = rt_id row" for r0
      by (rule distinct_key_eq[OF okD(1) that(1) row(1) that(2)])
    with that show ?thesis by (auto simp: rotated_rows split: if_splits)
  qed
  have maps: "map rt_id (rt_rows ?db) = map rt_id (rt_rows db) @ [rt_next db]"
    "map rt_tokenHash (rt_rows ?db) = map rt_tokenHash (rt_rows db) @ [rt_tokenHash ?new]"
    by (simp_all add: rotated_def map_update_where)
  have "distinct (map rt_id (rt_rows ?db))" "distinct (map rt_tokenHash (rt_rows ?db))"
    unfolding maps using okD(1,2) okD(3) new by (force simp: image_iff)+
  moreover have "rt_id r < rt_next ?db \<and> hasValidWorkspaceScope r" if "r \<in> set (rt_rows ?db)" for r
    using split[OF that] okD(3)[of r] okD(4)[of r] okD(3,4)[OF row(1)] scope
    by (auto simp: rotated_def hasValidWorkspaceScope_def)
  moreover have "one_live (rt_rows ?db)"
    unfolding one_live_def
  proof (intro ballI impI)
    have live: "r = ?new \<or> (r \<in> set (rt_rows db) \<and> rt_familyId r \<noteq> rt_familyId row)"
      if "r \<in> set (rt_rows ?db)" "rt_revokedAt r = None" for r
      using split[OF that(1)] that(2) okD(5) row unfolding one_live_def
      by (metis option.distinct(1) retire_row_sel(10))
    fix r s assume r: "r \<in> set (rt_rows ?db)" "rt_revokedAt r = None"
      and s: "s \<in> set (rt_rows ?db)" "rt_revokedAt s = None" and f: "rt_familyId r = rt_familyId s"
    show "rt_id r = rt_id s"
      using live[OF r] live[OF s] f
    proof (elim disjE conjE)
      assume "r \<in> set (rt_rows db)" "s \<in> set (rt_rows db)"
      then show ?thesis using okD(5) r(2) s(2) f unfolding one_live_def by blast
    qed simp_all
  qed
  moreover have "links_ok cr secret (rt_rows ?db)"
    unfolding links_ok_def
  proof (intro ballI allI impI)
    fix r k assume r: "r \<in> set (rt_rows ?db)" and k: "rt_replacedByTokenId r = Some k"
    have here: "?new \<in> set (rt_rows ?db)" by (simp add: rotated_rows)
    consider "r = ?old" | "r \<in> set (rt_rows db)" "rt_id r \<noteq> rt_id row"
      using split[OF r] k by auto
    then show "rt_revokedAt r \<noteq> None \<and> (\<exists>s \<in> set (rt_rows ?db). rt_id s = k \<and> link_ok cr secret r s)"
    proof cases
      case 1
      have "link_ok cr secret ?old ?new"
        using okD(3)[OF row(1)] tok
        by (auto simp: link_ok_def sameRefreshTokenFamily_def successor_row_def retire_row_def)
      with 1 k here show ?thesis by (intro conjI bexI[where x = ?new]) auto
    next
      case 2
      with k okD(6) obtain s where s: "s \<in> set (rt_rows db)" "rt_id s = k" "link_ok cr secret r s"
        and rev: "rt_revokedAt r \<noteq> None" unfolding links_ok_def by metis
      let ?s = "if rt_id s = rt_id row then retire_row now (rt_next db) s else s"
      have "?s \<in> set (rt_rows ?db)" using s(1) by (auto simp: rotated_rows)
      moreover have "link_ok cr secret r ?s" using s(3)
        by (auto simp: link_ok_def sameRefreshTokenFamily_def)
      moreover have "rt_id ?s = k" using s(2) by simp
      ultimately show ?thesis using rev by blast
    qed
  qed
  ultimately show ?thesis by (auto simp: session_ok_def)
qed

subsection \<open>One exchange, by cases\<close>

text \<open>Hooks that only decide: they read the store and may throw.\<close>

definition reads_only :: "unit policy_hook option \<Rightarrow> bool" where
  "reads_only h \<longleftrightarrow> (\<forall>row db. snd (run_hook h row db) = db)"

definition deciding :: "unit refresh_deps \<Rightarrow> bool" where
  "deciding deps \<longleftrightarrow> reads_only (beforeFamilyDecision deps) \<and> reads_only (beforeRotate deps) \<and>
     reads_only (beforeReplay deps)"

definition expected_scope ::
  "(string \<times> string) option \<Rightarrow> refresh_row \<Rightarrow> string option \<times> string option" where
  "expected_scope workspace row =
     (case workspace of Some (o1, t1) \<Rightarrow> (Some o1, Some t1) | None \<Rightarrow> (rt_orgId row, rt_teamId row))"

definition replay_hook :: "unit refresh_deps \<Rightarrow> unit policy_hook option" where
  "replay_hook deps = (case beforeReplay deps of Some h \<Rightarrow> Some h | None \<Rightarrow> beforeRotate deps)"

lemma reads_only_run:
  assumes "reads_only h"
  obtains v where "run_hook h row db = (v, db)"
  using assms that unfolding reads_only_def by (metis prod.collapse)

lemma replay_hook_reads: "deciding deps \<Longrightarrow> reads_only (replay_hook deps)"
  by (auto simp: deciding_def replay_hook_def split: option.splits)

lemma exchange_decides:
  assumes d: "deciding deps"
  shows "exchangeRefreshToken cr secret ctx tok ws deps db =
     (case find_token cr secret tok db of
        None \<Rightarrow> (Inl invalid_refresh, db)
      | Some row \<Rightarrow>
          if \<not> matchesRefreshTokenContext row ctx then (Inl invalid_refresh, db)
          else (case run_hook (beforeFamilyDecision deps) (policy_view row) db of
                 (Inl e, _) \<Rightarrow> (Inl e, db)
               | (Inr _, _) \<Rightarrow> decide_exchange cr secret ctx tok ws deps row db))"
proof -
  have r: "reads_only (beforeFamilyDecision deps)" using d by (simp add: deciding_def)
  show ?thesis
  proof (cases "find_token cr secret tok db")
    case None
    then show ?thesis by (simp add: exchangeRefreshToken_def)
  next
    case (Some row)
    obtain v where v: "run_hook (beforeFamilyDecision deps) (policy_view row) db = (v, db)"
      by (rule reads_only_run[OF r])
    show ?thesis
    proof (cases "beforeFamilyDecision deps")
      case None
      with Some show ?thesis by (simp add: exchangeRefreshToken_def run_hook_def)
    next
      case lock: (Some lock)
      with v have "lock (policy_view row) db = (v, db)" by (simp add: run_hook_def)
      with Some lock show ?thesis
        by (cases v) (simp_all add: exchangeRefreshToken_def run_hook_def)
    qed
  qed
qed

lemma decide_exchange_live:
  assumes d: "deciding deps" and n: "rt_replacedByTokenId row = None"
    and res: "decide_exchange cr secret ctx tok ws deps row db = (res, db')"
  shows "(db' = db \<and> (\<exists>e. res = Inl e)) \<or>
     (rt_revokedAt row = None \<and> at2 deps < rt_expiresAt row \<and>
      \<not> (ws \<noteq> None \<and> matchesWorkspaceScope row (expected_scope ws row)) \<and>
      rotate_row cr secret tok row (expected_scope ws row) (at2 deps) db = (res, db'))"
proof -
  have r: "reads_only (beforeRotate deps)" using d by (simp add: deciding_def)
  obtain v where v: "run_hook (beforeRotate deps) (policy_view row) db = (v, db)"
    by (rule reads_only_run[OF r])
  show ?thesis
    using res unfolding decide_exchange_def Let_def expected_scope_def[symmetric] v
    by (cases v) (auto simp: n matchesWorkspaceScope_def prod_eq_iff split: if_splits)
qed

definition replayed_result :: "refresh_row \<Rightarrow> string \<Rightarrow> int \<Rightarrow> exchange_result" where
  "replayed_result current raw now =
     \<lparr>er_userId = rt_userId current, er_refreshToken = raw,
      er_expiresInSeconds = remainingRefreshTokenTtlSeconds current now, er_replayed = True,
      er_orgId = rt_orgId current, er_teamId = rt_teamId current,
      er_twoFaCompleted = rt_twoFaCompleted current\<rparr>"

lemma replay_cases:
  assumes hook: "reads_only hook"
    and res: "resolveRefreshTokenReplay cr secret ctx tok row expected sw hook t1 t2 db = (res, db')"
  shows "(isl res \<and> (db' = db \<or> (rejectRefreshTokenReuse row t1 db = (res, db') \<or>
            rejectRefreshTokenReuse row t2 db = (res, db') \<or>
            retireRefreshTokenFamily row t2 db = (res, db')) \<or>
            rejectRefreshTokenCorruption row t1 db = (res, db') \<and> \<not> hasValidWorkspaceScope row \<or>
            rejectRefreshTokenCorruption row t2 db = (res, db') \<and>
              walk_chain cr secret ctx row expected (rt_rows db) MAX_REFRESH_REPLAY_CHAIN_DEPTH
                row tok False {rt_id row} = Walk_Corrupt)) \<or>
     (db' = db \<and> \<not> graceExpired row t1 \<and> \<not> graceExpired row t2 \<and>
      (\<exists>current raw. walk_chain cr secret ctx row expected (rt_rows db)
           MAX_REFRESH_REPLAY_CHAIN_DEPTH row tok False {rt_id row} = Walk_End current raw False \<and>
         rt_revokedAt current = None \<and> t2 < rt_expiresAt current \<and>
         res = Inr (replayed_result current raw t2)))"
proof -
  have rej: "isl res" if "rejectRefreshTokenReuse row t db = (res, db')
      \<or> rejectRefreshTokenCorruption row t db = (res, db') \<or> retireRefreshTokenFamily row t db = (res, db')" for t
    using that by (auto simp: rejectRefreshTokenReuse_def rejectRefreshTokenCorruption_def
        retireRefreshTokenFamily_def then_throw_def split: prod.splits sum.splits)
  show ?thesis
  proof (cases "walk_chain cr secret ctx row expected (rt_rows db) MAX_REFRESH_REPLAY_CHAIN_DEPTH
      row tok False {rt_id row}")
    case (Walk_End current raw conflict)
    obtain v where v: "run_hook hook (policy_view current) db = (v, db)"
      by (rule reads_only_run[OF hook])
    show ?thesis
    proof (cases "hasValidWorkspaceScope row \<and> \<not> graceExpired row t1 \<and> rt_revokedAt current = None
        \<and> \<not> conflict \<and> \<not> (sw \<and> matchesWorkspaceScope row expected)")
      case True
      then show ?thesis
        using res rej unfolding resolveRefreshTokenReplay_def Walk_End walk.case v
        by (cases v) (auto simp: replayed_result_def split: if_split_asm)
    next
      case False
      then show ?thesis
        using res rej unfolding resolveRefreshTokenReplay_def Walk_End walk.case
        by (cases conflict) (auto split: if_split_asm)
    qed
  qed (use res rej in \<open>auto simp: resolveRefreshTokenReplay_def split: if_split_asm\<close>)
qed

subsection \<open>The successor chain of a sound store\<close>

text \<open>The keyed hash does not collide; the only fact about HMAC the safety of replay needs.\<close>

definition collision_free :: "crypto \<Rightarrow> string \<Rightarrow> bool" where
  "collision_free cr secret \<longleftrightarrow>
     (\<forall>a b. hashRefreshToken cr a secret = hashRefreshToken cr b secret \<longrightarrow> a = b)"

lemma sameFamily_trans [trans]:
  "sameRefreshTokenFamily a b \<Longrightarrow> sameRefreshTokenFamily b c \<Longrightarrow> sameRefreshTokenFamily a c"
  by (simp add: sameRefreshTokenFamily_def)

lemma sameFamily_refl [simp]: "sameRefreshTokenFamily a a"
  by (simp add: sameRefreshTokenFamily_def)

lemma walk_end:
  assumes "current \<in> set rows" and "rt_tokenHash current = hashRefreshToken cr raw secret"
    and "sameRefreshTokenFamily root current"
    and "walk_chain cr secret ctx root expected rows left current raw conflict seen = Walk_End c craw cf"
  shows "c \<in> set rows \<and> rt_replacedByTokenId c = None \<and>
     rt_tokenHash c = hashRefreshToken cr craw secret \<and> sameRefreshTokenFamily root c"
  using assms
proof (induction left arbitrary: current raw conflict seen)
  case 0
  then show ?case by (auto split: option.splits)
next
  case (Suc left)
  show ?case
  proof (cases "rt_replacedByTokenId current")
    case None
    with Suc.prems show ?thesis by auto
  next
    case (Some k)
    with Suc.prems obtain s where s: "List.find (\<lambda>r. rt_id r = k) rows = Some s"
      and okS: "successor_ok cr secret ctx root current (deriveRefreshTokenSuccessor cr raw secret) s"
      and w: "walk_chain cr secret ctx root expected rows left s (deriveRefreshTokenSuccessor cr raw secret)
         (conflict \<or> \<not> matchesWorkspaceScope s expected) (insert (rt_id s) seen) = Walk_End c craw cf"
      by (auto simp: Let_def split: if_splits option.splits)
    from okS find_Some_set[OF s] show ?thesis
      by (intro Suc.IH[OF _ _ _ w]) (auto simp: successor_ok_def)
  qed
qed

lemma sameFamily_context:
  "sameRefreshTokenFamily a b \<Longrightarrow> matchesRefreshTokenContext b ctx = matchesRefreshTokenContext a ctx"
  by (simp add: sameRefreshTokenFamily_def matchesRefreshTokenContext_def)

lemma walk_not_corrupt:
  assumes ok: "session_ok cr secret db" and cf: "collision_free cr secret"
    and ctx: "matchesRefreshTokenContext root ctx"
    and "current \<in> set (rt_rows db)" and "rt_tokenHash current = hashRefreshToken cr raw secret"
    and "sameRefreshTokenFamily root current" and "\<forall>i \<in> seen. i \<le> rt_id current"
  shows "walk_chain cr secret ctx root expected (rt_rows db) left current raw conflict seen \<noteq> Walk_Corrupt"
  using assms(4-)
proof (induction left arbitrary: current raw conflict seen)
  case 0
  then show ?case by (auto split: option.splits)
next
  case (Suc left)
  show ?case
  proof (cases "rt_replacedByTokenId current")
    case None
    then show ?thesis by simp
  next
    case (Some k)
    with Suc.prems(1) session_okD(6)[OF ok] obtain s where s: "s \<in> set (rt_rows db)" "rt_id s = k"
      and l: "link_ok cr secret current s" unfolding links_ok_def by metis
    let ?raw = "deriveRefreshTokenSuccessor cr raw secret"
    from l Suc.prems(2) cf have h: "rt_tokenHash s = hashRefreshToken cr ?raw secret"
      by (auto simp: link_ok_def collision_free_def)
    from l have fam: "sameRefreshTokenFamily current s" and lt: "rt_id current < rt_id s"
      by (auto simp: link_ok_def)
    have fam': "sameRefreshTokenFamily root s" using Suc.prems(3) fam by (rule sameFamily_trans)
    have f: "List.find (\<lambda>r. rt_id r = k) (rt_rows db) = Some s"
      using find_unique[OF session_okD(1)[OF ok] s(1)] s(2) by simp
    have fresh: "k \<notin> seen" using Suc.prems(4) lt s(2) by auto
    have okS: "successor_ok cr secret ctx root current ?raw s"
      using l h fam' sameFamily_context[OF fam'] ctx session_okD(4)[OF ok s(1)]
      by (simp add: successor_ok_def link_ok_def)
    have "\<forall>i \<in> insert (rt_id s) seen. i \<le> rt_id s" using Suc.prems(4) lt by auto
    from Suc.IH[OF s(1) h fam' this] show ?thesis
      using Some f fresh okS by (simp add: Let_def)
  qed
qed

subsection \<open>What a security rejection writes\<close>

lemma claim_then_mark:
  assumes ids: "distinct (map rt_id (rt_rows db))" and row: "row \<in> set (rt_rows db)"
    and P: "P row" "\<And>r. P (mark_security now r) = P r"
  shows "(rt_securityRevokedAt row \<noteq> None \<and> fst (security_claim (rt_id row) now db) = 0 \<and>
            snd (security_claim (rt_id row) now db) = db) \<or>
     (rt_securityRevokedAt row = None \<and> fst (security_claim (rt_id row) now db) = 1 \<and>
      rt_versions (snd (security_claim (rt_id row) now db)) = rt_versions db \<and>
      security_mark P now (snd (security_claim (rt_id row) now db)) = security_mark P now db)"
proof -
  let ?Q = "\<lambda>r. rt_id r = rt_id row \<and> rt_securityRevokedAt r = None"
  have the_row: "r = row" if "r \<in> set (rt_rows db)" "rt_id r = rt_id row" for r
    by (rule distinct_key_eq[OF ids that(1) row that(2)])
  show ?thesis
  proof (cases "rt_securityRevokedAt row")
    case None
    have "count_where ?Q (rt_rows db) = 1"
      using count_where_the[OF ids row, of "\<lambda>r. rt_securityRevokedAt r = None"] None by simp
    moreover have "update_where (\<lambda>r. P r \<and> rt_securityRevokedAt r = None) (mark_security now)
          (update_where ?Q (mark_security now) (rt_rows db))
        = update_where (\<lambda>r. P r \<and> rt_securityRevokedAt r = None) (mark_security now) (rt_rows db)"
      using the_row P by (auto simp: update_where_def mark_security_def)
    ultimately show ?thesis using None
      by (simp add: security_claim_def security_mark_def Let_def)
  next
    case (Some t)
    then have none: "\<not> ?Q r" if "r \<in> set (rt_rows db)" for r using the_row[OF that] by auto
    then have "count_where ?Q (rt_rows db) = 0" by (auto simp: count_where_0_iff)
    with Some none show ?thesis
      by (simp add: security_claim_def Let_def update_where_none)
  qed
qed

text \<open>The store after a rejection: nothing when the row was already classified.\<close>

definition security_effect ::
  "(refresh_row \<Rightarrow> bool) \<Rightarrow> refresh_row \<Rightarrow> int \<Rightarrow> refresh_db \<Rightarrow> refresh_db \<Rightarrow> bool" where
  "security_effect P row now db db' \<longleftrightarrow>
     (if rt_securityRevokedAt row \<noteq> None then db' = db
      else \<exists>v. rt_versions db (rt_userId row) = Some v \<and>
        db' = (security_mark P now db)\<lparr>rt_versions := (rt_versions db)(rt_userId row \<mapsto> Suc v)\<rparr>)"

lemma security_mark_versions [simp]: "rt_versions (security_mark P now db) = rt_versions db"
  by (simp add: security_mark_def)

lemma invalidate_effect:
  assumes "distinct (map rt_id (rt_rows db))" and "row \<in> set (rt_rows db)"
    and "invalidateRefreshTokenFamilySecurityEpoch row now db = (r, db')"
  shows "r = Inl (Db_Error ''P2025'') \<or>
     r = Inr () \<and> security_effect (\<lambda>s. rt_familyId s = rt_familyId row) row now db db'"
  using claim_then_mark[OF assms(1,2), of "\<lambda>s. rt_familyId s = rt_familyId row" now] assms(3)
  by (auto simp: invalidateRefreshTokenFamilySecurityEpoch_def security_effect_def mark_security_def
      bumpUserTokenVersion_def split: prod.splits option.splits if_splits)

lemma reuse_effect:
  assumes "distinct (map rt_id (rt_rows db))" and "row \<in> set (rt_rows db)"
    and "rejectRefreshTokenReuse row now db = (r, db')"
  shows "r = Inl (Db_Error ''P2025'') \<or>
     r = Inl Reuse_Detected \<and> security_effect (\<lambda>s. rt_familyId s = rt_familyId row) row now db db'"
  using assms(3) invalidate_effect[OF assms(1,2)]
  by (cases "invalidateRefreshTokenFamilySecurityEpoch row now db")
     (fastforce simp: rejectRefreshTokenReuse_def then_throw_def split: sum.splits)

lemma corruption_effect:
  assumes "distinct (map rt_id (rt_rows db))" and "row \<in> set (rt_rows db)"
    and "rejectRefreshTokenCorruption row now db = (r, db')"
  shows "r = Inl (Db_Error ''P2025'') \<or>
     r = Inl Reuse_Detected \<and> security_effect (\<lambda>s. rt_userId s = rt_userId row) row now db db'"
  using claim_then_mark[OF assms(1,2), of "\<lambda>s. rt_userId s = rt_userId row" now] assms(3)
  by (auto simp: rejectRefreshTokenCorruption_def then_throw_def security_effect_def mark_security_def
      bumpUserTokenVersion_def split: prod.splits option.splits if_splits sum.splits)

lemma security_effect_decays: "security_effect P row now db db' \<Longrightarrow> decays db db'"
  by (auto simp: security_effect_def split: if_splits)

end
