(* ===== verification/Refresh_Sessions.thy ===== *)
theory Refresh_Sessions
  imports Refresh_Safety
begin

section \<open>Reachable session stores\<close>

text \<open>
  The steps that write the refresh-token table, the full invariant, and the properties of the
  token service over every reachable store. An exchange runs inside
  \<^const>\<open>runRefreshTokenExchangeTransaction\<close>, as every caller of the service does.
\<close>

subsection \<open>Families and theft\<close>

definition families_ok :: "refresh_row list \<Rightarrow> bool" where
  "families_ok rows \<longleftrightarrow>
     (\<forall>r \<in> set rows. \<forall>s \<in> set rows. rt_familyId r = rt_familyId s \<longrightarrow>
        rt_userId r = rt_userId s \<and> rt_domain r = rt_domain s)"

definition theft_ok :: "refresh_row list \<Rightarrow> bool" where
  "theft_ok rows \<longleftrightarrow>
     (\<forall>r \<in> set rows. \<forall>s \<in> set rows. rt_securityRevokedAt r \<noteq> None \<longrightarrow>
        rt_familyId r = rt_familyId s \<longrightarrow> rt_revokedAt s \<noteq> None)"

definition session_inv :: "crypto \<Rightarrow> string \<Rightarrow> refresh_db \<Rightarrow> bool" where
  "session_inv cr secret db \<longleftrightarrow>
     session_ok cr secret db \<and> families_ok (rt_rows db) \<and> theft_ok (rt_rows db)"

lemma session_invD:
  assumes "session_inv cr secret db"
  shows "session_ok cr secret db" "families_ok (rt_rows db)" "theft_ok (rt_rows db)"
  using assms by (simp_all add: session_inv_def)

lemma session_inv_versions [simp]:
  "session_inv cr secret (db\<lparr>rt_versions := v\<rparr>) = session_inv cr secret db"
  by (simp add: session_inv_def session_ok_def)

lemma families_ok_decays:
  assumes "decays db db'" and f: "families_ok (rt_rows db)"
  shows "families_ok (rt_rows db')"
  unfolding families_ok_def
proof (intro ballI impI)
  fix r s assume r: "r \<in> set (rt_rows db')" and s: "s \<in> set (rt_rows db')"
    and e: "rt_familyId r = rt_familyId s"
  from decays_rowE[OF assms(1) r] obtain r0 where r0: "r0 \<in> set (rt_rows db)" "row_decays r0 r" .
  from decays_rowE[OF assms(1) s] obtain s0 where s0: "s0 \<in> set (rt_rows db)" "row_decays s0 s" .
  from f r0(1) s0(1) show "rt_userId r = rt_userId s \<and> rt_domain r = rt_domain s"
    using e row_decays_sel(3,5,6)[OF r0(2)] row_decays_sel(3,5,6)[OF s0(2)]
    unfolding families_ok_def by metis
qed

lemma inv_revoke_matching:
  assumes "session_inv cr secret db"
  shows "session_inv cr secret (snd (revoke_matching P now db))"
proof -
  note d = revoke_matching_decays[of db P now]
  have "theft_ok (rt_rows (snd (revoke_matching P now db)))"
    using session_invD(3)[OF assms]
    by (auto simp: theft_ok_def revoke_matching_def Let_def set_update_where mark_revoked_def)
  then show ?thesis
    using session_ok_decays[OF d] families_ok_decays[OF d] assms by (simp add: session_inv_def)
qed

lemma inv_security_mark:
  assumes inv: "session_inv cr secret db"
    and closed: "\<And>r s. r \<in> set (rt_rows db) \<Longrightarrow> s \<in> set (rt_rows db) \<Longrightarrow>
       rt_familyId r = rt_familyId s \<Longrightarrow> P r \<Longrightarrow> P s"
  shows "session_inv cr secret (security_mark P now db)"
proof -
  note d = security_mark_decays[of db P now]
  let ?m = "\<lambda>r. if P r \<and> rt_securityRevokedAt r = None then mark_security now r else r"
  have rows: "set (rt_rows (security_mark P now db)) = ?m ` set (rt_rows db)"
    by (simp add: security_mark_def set_update_where)
  have theft: "rt_revokedAt s \<noteq> None"
    if "r \<in> set (rt_rows db)" "s \<in> set (rt_rows db)" "rt_securityRevokedAt r \<noteq> None"
       "rt_familyId r = rt_familyId s" for r s
    using session_invD(3)[OF inv] that unfolding theft_ok_def by blast
  have "theft_ok (rt_rows (security_mark P now db))"
    unfolding theft_ok_def rows
  proof (intro ballI impI)
    fix r' s' assume "r' \<in> ?m ` set (rt_rows db)" "s' \<in> ?m ` set (rt_rows db)"
    then obtain r s where r: "r \<in> set (rt_rows db)" "r' = ?m r" and s: "s \<in> set (rt_rows db)" "s' = ?m s"
      by blast
    assume sec: "rt_securityRevokedAt r' \<noteq> None" and "rt_familyId r' = rt_familyId s'"
    then have fam: "rt_familyId r = rt_familyId s"
      unfolding r(2) s(2) by (simp add: mark_security_def split: if_splits)
    show "rt_revokedAt s' \<noteq> None"
    proof (cases "rt_securityRevokedAt r = None")
      case True
      with sec r(2) have "P r" by (auto split: if_splits)
      with closed r(1) s(1) fam have "P s" by blast
      then show ?thesis using theft[OF s(1) s(1)] s(2) by (simp add: mark_security_def)
    next
      case False
      from theft[OF r(1) s(1) this fam] show ?thesis
        using s(2) by (simp add: mark_security_def)
    qed
  qed
  then show ?thesis
    using session_ok_decays[OF d] families_ok_decays[OF d] inv by (simp add: session_inv_def)
qed

lemma inv_security_effect:
  assumes inv: "session_inv cr secret db"
    and "security_effect (\<lambda>s. rt_familyId s = rt_familyId row) row now db db' \<or>
         security_effect (\<lambda>s. rt_userId s = rt_userId row) row now db db'"
  shows "session_inv cr secret db'"
proof -
  have "session_inv cr secret (security_mark (\<lambda>s. rt_familyId s = rt_familyId row) now db)"
    by (rule inv_security_mark[OF inv]) simp
  moreover have "session_inv cr secret (security_mark (\<lambda>s. rt_userId s = rt_userId row) now db)"
    using session_invD(2)[OF inv] unfolding families_ok_def
    by (intro inv_security_mark[OF inv]) metis
  ultimately show ?thesis using assms(2) inv by (auto simp: security_effect_def split: if_splits)
qed

lemma inv_rotated:
  assumes inv: "session_inv cr secret db"
    and row: "row \<in> set (rt_rows db)" "rt_revokedAt row = None"
    and tok: "rt_tokenHash row = hashRefreshToken cr tok secret"
    and scope: "truthy (fst expected) = truthy (snd expected)"
    and new: "\<forall>r \<in> set (rt_rows db). rt_tokenHash r \<noteq>
            hashRefreshToken cr (deriveRefreshTokenSuccessor cr tok secret) secret"
  shows "session_inv cr secret (rotated cr secret tok row expected now db)"
proof -
  let ?rows = "rt_rows (rotated cr secret tok row expected now db)"
  have fam: "\<exists>r0 \<in> set (rt_rows db). rt_familyId r = rt_familyId r0 \<and> rt_userId r = rt_userId r0 \<and>
      rt_domain r = rt_domain r0 \<and> (rt_revokedAt r0 \<noteq> None \<longrightarrow> rt_revokedAt r \<noteq> None \<or> r0 = row)
      \<and> rt_securityRevokedAt r \<in> {None, rt_securityRevokedAt r0}"
    if "r \<in> set ?rows" for r
  proof -
    from that consider "r = successor_row cr secret tok row expected now (rt_next db)"
      | r0 where "r0 \<in> set (rt_rows db)" "r = retire_row now (rt_next db) r0"
      | "r \<in> set (rt_rows db)"
      unfolding rotated_rows by (auto split: if_splits)
    then show ?thesis
    proof cases
      case 1
      with row(1) show ?thesis by (intro bexI[of _ row]) (simp_all add: successor_row_def)
    next
      case 2
      then show ?thesis by (intro bexI[of _ r0]) (simp_all add: retire_row_def)
    qed auto
  qed
  have "families_ok ?rows"
    unfolding families_ok_def using fam session_invD(2)[OF inv] unfolding families_ok_def by metis
  moreover have "theft_ok ?rows"
    unfolding theft_ok_def
  proof (intro ballI impI)
    fix r s assume r: "r \<in> set ?rows" and s: "s \<in> set ?rows"
      and sec: "rt_securityRevokedAt r \<noteq> None" and e: "rt_familyId r = rt_familyId s"
    from fam[OF r] sec obtain r0 where r0: "r0 \<in> set (rt_rows db)" "rt_familyId r = rt_familyId r0"
        "rt_securityRevokedAt r0 \<noteq> None" by auto
    from fam[OF s] obtain s0 where s0: "s0 \<in> set (rt_rows db)" "rt_familyId s = rt_familyId s0"
        "rt_revokedAt s0 \<noteq> None \<longrightarrow> rt_revokedAt s \<noteq> None \<or> s0 = row" by auto
    have "rt_revokedAt s0 \<noteq> None" using session_invD(3)[OF inv] r0 s0 e unfolding theft_ok_def by metis
    with s0(3) row(2) show "rt_revokedAt s \<noteq> None" by auto
  qed
  ultimately show ?thesis
    using rotated_ok[OF session_invD(1)[OF inv] row tok scope new] by (simp add: session_inv_def)
qed

subsection \<open>The exchange transaction by cases\<close>

definition exchange_tx ::
  "crypto \<Rightarrow> string \<Rightarrow> refresh_context \<Rightarrow> string \<Rightarrow> (string \<times> string) option \<Rightarrow> unit refresh_deps \<Rightarrow>
     refresh_db \<Rightarrow> (thrown + exchange_result) \<times> refresh_db" where
  "exchange_tx cr secret ctx tok ws deps =
     runRefreshTokenExchangeTransaction (exchangeRefreshToken cr secret ctx tok ws deps)"

text \<open>The workspace of the explicit switch grant is a row of the database: non-empty ids.\<close>

definition real_workspace :: "(string \<times> string) option \<Rightarrow> bool" where
  "real_workspace ws \<longleftrightarrow> (case ws of None \<Rightarrow> True | Some (o1, t1) \<Rightarrow> o1 \<noteq> [] \<and> t1 \<noteq> [])"

lemma truthy_Some_iff: "truthy (Some s) \<longleftrightarrow> s \<noteq> []"
  by (cases s) simp_all

lemma expected_scope_valid:
  "real_workspace ws \<Longrightarrow> hasValidWorkspaceScope row \<Longrightarrow>
     truthy (fst (expected_scope ws row)) = truthy (snd (expected_scope ws row))"
  by (auto simp: expected_scope_def real_workspace_def hasValidWorkspaceScope_def truthy_Some_iff
      split: option.splits)

lemma tx_exchange:
  "runRefreshTokenExchangeTransaction f db =
     (case f db of (Inr v, db1) \<Rightarrow> (Inr v, db1)
      | (Inl e, db1) \<Rightarrow> if e = Reuse_Detected then (Inl invalid_refresh, db1) else (Inl e, db))"
  by (auto simp: runRefreshTokenExchangeTransaction_def split: prod.splits sum.splits thrown.splits)

lemma find_token_row:
  "find_token cr secret tok db = Some row \<Longrightarrow>
     row \<in> set (rt_rows db) \<and> rt_tokenHash row = hashRefreshToken cr tok secret"
  unfolding find_token_def by (drule find_Some_set) simp

text \<open>
  A transaction leaves the store alone, applies a security rejection (of the family, or of the
  user when the chain is corrupt), retires the family, or rotates the presented row.
\<close>

definition tx_effect ::
  "crypto \<Rightarrow> string \<Rightarrow> refresh_row \<Rightarrow> string \<Rightarrow> (string \<times> string) option \<Rightarrow> unit refresh_deps \<Rightarrow>
     refresh_db \<Rightarrow> (thrown + exchange_result) \<Rightarrow> refresh_db \<Rightarrow> bool" where
  "tx_effect cr secret row tok ws deps db res db' \<longleftrightarrow>
     (isl res \<and> (db' = db \<or>
        (\<exists>t. security_effect (\<lambda>s. rt_familyId s = rt_familyId row) row t db db') \<or>
        (\<exists>t. security_effect (\<lambda>s. rt_userId s = rt_userId row) row t db db' \<and>
             \<not> collision_free cr secret) \<or>
        (\<exists>t. db' = snd (revoke_matching (\<lambda>s. rt_familyId s = rt_familyId row) t db)))) \<or>
     (db' = db \<and> (\<exists>current raw. current \<in> set (rt_rows db) \<and> rt_revokedAt current = None \<and>
        rt_replacedByTokenId current = None \<and> rt_tokenHash current = hashRefreshToken cr raw secret \<and>
        sameRefreshTokenFamily row current \<and> at2 deps < rt_expiresAt current \<and>
        res = Inr (replayed_result current raw (at2 deps)))) \<or>
     (rt_revokedAt row = None \<and> at2 deps < rt_expiresAt row \<and>
      \<not> (ws \<noteq> None \<and> matchesWorkspaceScope row (expected_scope ws row)) \<and>
      (\<forall>r \<in> set (rt_rows db). rt_tokenHash r \<noteq>
            hashRefreshToken cr (deriveRefreshTokenSuccessor cr tok secret) secret) \<and>
      res = Inr (rotation_result cr secret tok row (expected_scope ws row)) \<and>
      db' = rotated cr secret tok row (expected_scope ws row) (at2 deps) db)"

lemma decide_tx_effect:
  assumes ok: "session_ok cr secret db" and d: "deciding deps"
    and row: "find_token cr secret tok db = Some row" and ctx: "matchesRefreshTokenContext row ctx"
    and dec: "decide_exchange cr secret ctx tok ws deps row db = (r1, db1)"
    and tx: "(case r1 of Inr v \<Rightarrow> (Inr v, db1)
      | Inl e \<Rightarrow> if e = Reuse_Detected then (Inl invalid_refresh, db1) else (Inl e, db)) = (res, db')"
  shows "tx_effect cr secret row tok ws deps db res db'"
proof -
  from find_token_row[OF row] have mem: "row \<in> set (rt_rows db)"
    and hash: "rt_tokenHash row = hashRefreshToken cr tok secret" by auto
  note ids = session_okD(1)[OF ok]
  note eff = reuse_effect[OF ids mem] corruption_effect[OF ids mem]
  show ?thesis
  proof (cases "rt_replacedByTokenId row")
    case None
    from decide_exchange_live[OF d None dec] consider "db1 = db" "isl r1"
      | "rt_revokedAt row = None" "at2 deps < rt_expiresAt row"
        "\<not> (ws \<noteq> None \<and> matchesWorkspaceScope row (expected_scope ws row))"
        "rotate_row cr secret tok row (expected_scope ws row) (at2 deps) db = (r1, db1)" by auto
    then show ?thesis
    proof cases
      case 1
      then show ?thesis using tx by (cases r1) (auto simp: tx_effect_def split: if_splits)
    next
      case 2
      from rotate_row_cases[OF ids session_okD(3)[OF ok] mem 2(1) None 2(2), of cr secret tok "expected_scope ws row"]
      show ?thesis using 2 tx by (auto simp: tx_effect_def split: if_splits)
    qed
  next
    case (Some k)
    have rep: "resolveRefreshTokenReplay cr secret ctx tok row (expected_scope ws row) (ws \<noteq> None)
        (replay_hook deps) (at1 deps) (at2 deps) db = (r1, db1)"
      using dec Some by (simp add: decide_exchange_def Let_def expected_scope_def replay_hook_def)
    have nc: "walk_chain cr secret ctx row e (rt_rows db) n row tok False {rt_id row} \<noteq> Walk_Corrupt"
      if "collision_free cr secret" for n e
      by (rule walk_not_corrupt[OF ok that ctx mem hash]) simp_all
    have valid: "hasValidWorkspaceScope row" using session_okD(4)[OF ok mem] .
    show ?thesis
      using replay_cases[OF replay_hook_reads[OF d] rep]
    proof (elim disjE conjE exE)
      assume "db1 = db" "isl r1"
      then show ?thesis using tx by (cases r1) (auto simp: tx_effect_def split: if_splits)
    next
      assume "rejectRefreshTokenReuse row (at1 deps) db = (r1, db1)"
      from eff(1)[OF this] tx show ?thesis by (auto simp: tx_effect_def)
    next
      assume "rejectRefreshTokenReuse row (at2 deps) db = (r1, db1)"
      from eff(1)[OF this] tx show ?thesis by (auto simp: tx_effect_def)
    next
      assume "retireRefreshTokenFamily row (at2 deps) db = (r1, db1)"
      then show ?thesis using tx
        by (auto simp: tx_effect_def retireRefreshTokenFamily_def revokeRefreshTokenFamilyInternal_def)
    next
      assume "\<not> hasValidWorkspaceScope row"
      with valid show ?thesis by simp
    next
      assume "rejectRefreshTokenCorruption row (at2 deps) db = (r1, db1)"
        and "walk_chain cr secret ctx row (expected_scope ws row) (rt_rows db)
          MAX_REFRESH_REPLAY_CHAIN_DEPTH row tok False {rt_id row} = Walk_Corrupt"
      then have "rejectRefreshTokenCorruption row (at2 deps) db = (r1, db1)" "\<not> collision_free cr secret"
        using nc by blast+
      with eff(2) tx show ?thesis by (fastforce simp: tx_effect_def)
    next
      fix current raw
      assume "walk_chain cr secret ctx row (expected_scope ws row) (rt_rows db)
          MAX_REFRESH_REPLAY_CHAIN_DEPTH row tok False {rt_id row} = Walk_End current raw False"
        and *: "rt_revokedAt current = None" "at2 deps < rt_expiresAt current"
          "r1 = Inr (replayed_result current raw (at2 deps))" "db1 = db"
      from walk_end[OF mem hash sameFamily_refl this(1)] * tx show ?thesis
        by (auto simp: tx_effect_def)
    qed
  qed
qed

lemma exchange_tx_cases:
  assumes ok: "session_ok cr secret db" and d: "deciding deps"
    and tx: "exchange_tx cr secret ctx tok ws deps db = (res, db')"
  shows "(isl res \<and> db' = db) \<or> (\<exists>row. find_token cr secret tok db = Some row \<and>
     matchesRefreshTokenContext row ctx \<and> tx_effect cr secret row tok ws deps db res db')"
proof (cases "find_token cr secret tok db")
  case None
  with tx show ?thesis by (auto simp: exchange_tx_def tx_exchange exchange_decides[OF d])
next
  case (Some row)
  obtain v where v: "run_hook (beforeFamilyDecision deps) (policy_view row) db = (v, db)"
    using reads_only_run d unfolding deciding_def by metis
  show ?thesis
  proof (cases "matchesRefreshTokenContext row ctx \<and> \<not> isl v")
    case True
    obtain r1 db1 where dec: "decide_exchange cr secret ctx tok ws deps row db = (r1, db1)"
      by fastforce
    from True v Some tx dec have "(case r1 of Inr v \<Rightarrow> (Inr v, db1)
      | Inl e \<Rightarrow> if e = Reuse_Detected then (Inl invalid_refresh, db1) else (Inl e, db)) = (res, db')"
      by (cases v) (auto simp: exchange_tx_def tx_exchange exchange_decides[OF d] split: sum.splits)
    from decide_tx_effect[OF ok d Some _ dec this] True Some show ?thesis by blast
  next
    case False
    with v Some tx show ?thesis
      by (cases v) (auto simp: exchange_tx_def tx_exchange exchange_decides[OF d] split: if_splits)
  qed
qed

subsection \<open>The store as a state machine\<close>

datatype session_event = Sign_In string string | Other_Event

inductive session_step :: "crypto \<Rightarrow> string \<Rightarrow> session_event \<Rightarrow> refresh_db \<Rightarrow> refresh_db \<Rightarrow> bool"
  for cr :: crypto and secret :: string where
  sign_in: "issueRefreshToken cr secret params tok fam now ttl db = (r, db') \<Longrightarrow>
     ns_familyId params = None \<Longrightarrow> ns_parentTokenId params = None \<Longrightarrow>
     truthy (ns_orgId params) = truthy (ns_teamId params) \<Longrightarrow>
     fam \<notin> rt_familyId ` set (rt_rows db) \<Longrightarrow>
     session_step cr secret (Sign_In (ns_userId params) (ctx_domain (ns_context params))) db db'"
| exchange: "exchange_tx cr secret ctx tok ws deps db = (res, db') \<Longrightarrow> deciding deps \<Longrightarrow>
     real_workspace ws \<Longrightarrow> session_step cr secret Other_Event db db'"
| logout: "revokeRefreshTokenFamily cr secret ctx tok (\<lambda>d. d) now db = (u, db') \<Longrightarrow>
     session_step cr secret Other_Event db db'"
| revoke_domain: "session_step cr secret Other_Event db (snd (revokeRefreshTokensForUserDomain k now db))"
| revoke_organisation: "session_step cr secret Other_Event db
     (snd (revokeRefreshTokenFamiliesForUserOrganisation k now db))"
| revoke_team: "session_step cr secret Other_Event db (snd (revokeRefreshTokenFamiliesForUserTeam k now db))"
| revoke_all: "session_step cr secret Other_Event db (snd (revokeAllRefreshTokensForUser userId now db))"

inductive_cases session_stepE: "session_step cr secret ev db db'"

definition session_reachable :: "crypto \<Rightarrow> string \<Rightarrow> refresh_db \<Rightarrow> bool" where
  "session_reachable cr secret db \<longleftrightarrow>
     (\<exists>versions. (\<lambda>a b. \<exists>ev. session_step cr secret ev a b)\<^sup>*\<^sup>*
        \<lparr>rt_rows = [], rt_versions = versions, rt_next = 0\<rparr> db)"

lemma inv_issue:
  assumes inv: "session_inv cr secret db"
    and i: "issueRefreshToken cr secret params tok fam now ttl db = (r, db')"
    and p: "ns_familyId params = None" "ns_parentTokenId params = None"
      "truthy (ns_orgId params) = truthy (ns_teamId params)"
    and fam: "fam \<notin> rt_familyId ` set (rt_rows db)"
  shows "session_inv cr secret db' \<and> (\<forall>new \<in> set (rt_rows db').
     new \<in> set (rt_rows db) \<or>
     rt_userId new = ns_userId params \<and> rt_domain new = ctx_domain (ns_context params))"
proof (cases r)
  case (Inl e)
  with i have "db' = db"
    by (auto simp: issueRefreshToken_def createRefreshTokenRecord_def Let_def split: if_splits)
  with inv show ?thesis by simp
next
  case (Inr x)
  note okD = session_okD[OF session_invD(1)[OF inv]]
  from Inr i p obtain new where db': "db' = db\<lparr>rt_rows := rt_rows db @ [new], rt_next := Suc (rt_next db)\<rparr>"
    and new: "rt_id new = rt_next db" "rt_familyId new = fam" "rt_replacedByTokenId new = None"
      "rt_securityRevokedAt new = None" "hasValidWorkspaceScope new"
      "\<forall>r \<in> set (rt_rows db). rt_tokenHash r \<noteq> rt_tokenHash new"
      "rt_userId new = ns_userId params" "rt_domain new = ctx_domain (ns_context params)"
    by (auto simp: issueRefreshToken_def createRefreshTokenRecord_def Let_def hasValidWorkspaceScope_def
        split: if_splits)
  have other: "rt_familyId r \<noteq> fam" if "r \<in> set (rt_rows db)" for r
    using fam that by auto
  have "one_live (rt_rows db')"
    unfolding one_live_def
  proof (intro ballI impI)
    fix r s assume "r \<in> set (rt_rows db')" "s \<in> set (rt_rows db')"
    then have m: "r = new \<or> r \<in> set (rt_rows db)" "s = new \<or> s \<in> set (rt_rows db)"
      by (auto simp: db')
    assume "rt_revokedAt r = None" "rt_revokedAt s = None" "rt_familyId r = rt_familyId s"
    with m show "rt_id r = rt_id s"
      using okD(5) other[of r] other[of s] new(2) unfolding one_live_def by metis
  qed
  moreover have "links_ok cr secret (rt_rows db')"
    using okD(6)[unfolded links_ok_def] new(3) unfolding links_ok_def db' by simp
  moreover have "families_ok (rt_rows db')"
    unfolding families_ok_def
  proof (intro ballI impI)
    fix r s assume "r \<in> set (rt_rows db')" "s \<in> set (rt_rows db')"
    then have m: "r = new \<or> r \<in> set (rt_rows db)" "s = new \<or> s \<in> set (rt_rows db)"
      by (auto simp: db')
    assume "rt_familyId r = rt_familyId s"
    with m show "rt_userId r = rt_userId s \<and> rt_domain r = rt_domain s"
      using session_invD(2)[OF inv] other[of r] other[of s] new(2) unfolding families_ok_def by metis
  qed
  moreover have "theft_ok (rt_rows db')"
    using session_invD(3)[OF inv, unfolded theft_ok_def] other new(2,4)
    unfolding theft_ok_def db' by simp
  moreover have "distinct (map rt_id (rt_rows db'))" "distinct (map rt_tokenHash (rt_rows db'))"
    using okD(1,2) okD(3) new(1,6) unfolding db' by (force simp: image_iff)+
  moreover have "\<forall>r \<in> set (rt_rows db'). rt_id r < rt_next db' \<and> hasValidWorkspaceScope r"
    using okD(3,4) new(1,5) unfolding db' by (auto simp: less_SucI)
  ultimately show ?thesis
    using new(7,8) by (auto simp: session_inv_def session_ok_def db')
qed

lemma inv_tx_effect:
  assumes inv: "session_inv cr secret db" and ws: "real_workspace ws"
    and row: "find_token cr secret tok db = Some row"
    and e: "tx_effect cr secret row tok ws deps db res db'"
  shows "session_inv cr secret db'"
proof -
  from find_token_row[OF row] have mem: "row \<in> set (rt_rows db)"
    and hash: "rt_tokenHash row = hashRefreshToken cr tok secret" by auto
  have scope: "truthy (fst (expected_scope ws row)) = truthy (snd (expected_scope ws row))"
    using expected_scope_valid[OF ws session_okD(4)[OF session_invD(1)[OF inv] mem]] .
  from e show ?thesis
    unfolding tx_effect_def
    using inv inv_security_effect[OF inv] inv_revoke_matching[OF inv]
      inv_rotated[OF inv mem _ hash scope] by blast
qed

lemma logout_cases:
  assumes ids: "distinct (map rt_id (rt_rows db))"
    and "revokeRefreshTokenFamily cr secret ctx tok (\<lambda>d. d) now db = (u, db')"
  shows "db' = db \<or> (\<exists>row. find_token cr secret tok db = Some row \<and>
     security_effect (\<lambda>s. rt_familyId s = rt_familyId row) row now db db')"
proof (cases "find_token cr secret tok db")
  case None
  with assms(2) show ?thesis by (simp add: revokeRefreshTokenFamily_def run_tx_def)
next
  case (Some row)
  then have mem: "row \<in> set (rt_rows db)" using find_token_row by blast
  obtain r1 db1 where r1: "invalidateRefreshTokenFamilySecurityEpoch row now db = (r1, db1)"
    by fastforce
  from assms(2) Some r1 have "db' = db \<or> (\<not> isl r1 \<and> db' = db1)"
    by (cases r1) (auto simp: revokeRefreshTokenFamily_def run_tx_def Let_def split: if_splits)
  with invalidate_effect[OF ids mem r1] Some show ?thesis by auto
qed

lemma revoke_all_cases:
  "snd (revokeAllRefreshTokensForUser u now db) = db \<or>
   (\<exists>v. snd (revokeAllRefreshTokensForUser u now db) =
      (snd (revoke_matching (\<lambda>r. rt_userId r = u) now db))\<lparr>rt_versions := v\<rparr>)"
  by (auto simp: revokeAllRefreshTokensForUser_def run_tx_def bumpUserTokenVersion_def
      split: option.splits prod.splits sum.splits)

lemma session_step_inv:
  assumes s: "session_step cr secret ev db db'" and inv: "session_inv cr secret db"
  shows "session_inv cr secret db'"
  using s
proof cases
  case (exchange ctx tok ws deps res)
  from exchange_tx_cases[OF session_invD(1)[OF inv] exchange(3,2)] inv_tx_effect[OF inv exchange(4)] inv
  show ?thesis by blast
next
  case (logout ctx tok now u)
  from logout_cases[OF session_okD(1)[OF session_invD(1)[OF inv]] logout(2)] inv_security_effect[OF inv] inv
  show ?thesis by blast
next
  case (revoke_all userId now)
  from revoke_all_cases[of userId now db] inv inv_revoke_matching[OF inv]
  show ?thesis unfolding revoke_all(2) by (metis session_inv_versions)
qed (use inv inv_issue[OF inv] inv_revoke_matching[OF inv] in
  \<open>auto simp: revokeRefreshTokensForUserDomain_def revokeRefreshTokenFamiliesForUserOrganisation_def
     revokeRefreshTokenFamiliesForUserTeam_def\<close>)

lemma session_inv_empty [simp]:
  "session_inv cr secret \<lparr>rt_rows = [], rt_versions = v, rt_next = 0\<rparr>"
  by (simp add: session_inv_def session_ok_def one_live_def links_ok_def families_ok_def theft_ok_def)

interpretation sessions: step_invariant "\<lambda>a b. \<exists>ev. session_step cr secret ev a b"
  "session_inv cr secret" for cr secret
  by unfold_locales (auto intro: session_step_inv)

lemma session_reachable_inv: "session_reachable cr secret db \<Longrightarrow> session_inv cr secret db"
  unfolding session_reachable_def using sessions.run_preserved session_inv_empty by blast

end
