(* ===== verification/Refresh_Properties.thy ===== *)
theory Refresh_Properties
  imports Refresh_Sessions
begin

section \<open>Properties of the token service\<close>

text \<open>
  The properties of refresh-token sessions, each over an arbitrary reachable store
  (\<^const>\<open>session_reachable\<close>), with witnesses on a small store and a transparent hash.
\<close>

subsection \<open>A concrete store\<close>

definition toy_crypto :: crypto where
  "toy_crypto = \<lparr>hmac_hex = (\<lambda>k t. t), hmac_base64url = (\<lambda>k t. CHR ''n'' # t)\<rparr>"

definition toy_context :: refresh_context where
  "toy_context = \<lparr>ctx_clientId = ''web'', ctx_configUrl = ''https://acme.test/c'', ctx_domain = ''acme.test''\<rparr>"

definition toy_session :: new_session where
  "toy_session = \<lparr>ns_familyId = None, ns_parentTokenId = None, ns_userId = ''u1'',
     ns_context = toy_context, ns_orgId = None, ns_teamId = None, ns_twoFaCompleted = False\<rparr>"

definition toy_empty :: refresh_db where
  "toy_empty = \<lparr>rt_rows = [], rt_versions = [''u1'' \<mapsto> 0], rt_next = 0\<rparr>"

definition toy_db :: refresh_db where
  "toy_db = snd (issueRefreshToken toy_crypto ''pep'' toy_session ''tok'' ''fam'' 0 3600 toy_empty)"

definition toy_deps :: "int \<Rightarrow> unit refresh_deps" where
  "toy_deps t = \<lparr>beforeFamilyDecision = None, beforeRotate = None, beforeReplay = None, at1 = t, at2 = t\<rparr>"

lemma toy_deps_deciding [simp]: "deciding (toy_deps t)"
  by (simp add: deciding_def reads_only_def run_hook_def toy_deps_def)

lemma toy_deps_sel [simp]: "at1 (toy_deps t) = t" "at2 (toy_deps t) = t"
  "beforeFamilyDecision (toy_deps t) = None" "beforeRotate (toy_deps t) = None"
  "beforeReplay (toy_deps t) = None"
  by (simp_all add: toy_deps_def)

lemma toy_collision_free: "collision_free toy_crypto k"
  by (simp add: collision_free_def hashRefreshToken_def toy_crypto_def)

lemma toy_reachable: "session_reachable toy_crypto ''pep'' toy_db"
proof -
  have "session_step toy_crypto ''pep'' (Sign_In ''u1'' ''acme.test'') toy_empty toy_db"
    using session_step.sign_in[of toy_crypto "''pep''" toy_session "''tok''" "''fam''" 0 3600 toy_empty
        "fst (issueRefreshToken toy_crypto ''pep'' toy_session ''tok'' ''fam'' 0 3600 toy_empty)" toy_db]
    by (simp add: toy_db_def toy_session_def toy_context_def toy_empty_def)
  then have "(\<lambda>a b. \<exists>ev. session_step toy_crypto ''pep'' ev a b)\<^sup>*\<^sup>* toy_empty toy_db"
    by blast
  then show ?thesis unfolding session_reachable_def toy_empty_def by blast
qed

definition toy_row :: refresh_row where
  "toy_row = \<lparr>rt_id = 0, rt_tokenHash = ''tok'', rt_familyId = ''fam'', rt_parentTokenId = None,
     rt_userId = ''u1'', rt_domain = ''acme.test'', rt_clientId = ''web'',
     rt_configUrl = ''https://acme.test/c'', rt_createdAt = 0, rt_expiresAt = 3600000,
     rt_revokedAt = None, rt_securityRevokedAt = None, rt_replacedByTokenId = None,
     rt_orgId = None, rt_teamId = None, rt_twoFaCompleted = False, rt_lastUsedAt = None\<rparr>"

lemma toy_db_eq: "toy_db = \<lparr>rt_rows = [toy_row], rt_versions = [''u1'' \<mapsto> 0], rt_next = 1\<rparr>"
  by (simp add: toy_db_def toy_row_def issueRefreshToken_def createRefreshTokenRecord_def Let_def
      toy_empty_def toy_session_def toy_context_def toy_crypto_def hashRefreshToken_def)

subsection \<open>One live token\<close>

text \<open>
  C12: in every reachable store a token family (one signed-in device) has at most one token
  that is neither rotated nor revoked, and once any token of the family was classified as
  stolen no token of the family is ever live again.
\<close>

theorem one_live_token_per_family:
  assumes "session_reachable cr secret db" and "r \<in> set (rt_rows db)" and "s \<in> set (rt_rows db)"
    and "rt_familyId r = rt_familyId s"
  shows "(rt_revokedAt r = None \<and> rt_revokedAt s = None \<longrightarrow> r = s) \<and>
     (rt_securityRevokedAt r \<noteq> None \<longrightarrow> rt_revokedAt s \<noteq> None)"
proof -
  note inv = session_reachable_inv[OF assms(1)]
  note okD = session_okD[OF session_invD(1)[OF inv]]
  have "r = s" if "rt_revokedAt r = None" "rt_revokedAt s = None"
    using okD(5) that assms(2-4) distinct_key_eq[OF okD(1) assms(2,3)] unfolding one_live_def by blast
  moreover have "rt_revokedAt s \<noteq> None" if "rt_securityRevokedAt r \<noteq> None"
    using session_invD(3)[OF inv] that assms(2-4) unfolding theft_ok_def by blast
  ultimately show ?thesis by blast
qed

theorem one_live_token_per_family_witness:
  "toy_row \<in> set (rt_rows toy_db) \<and> rt_revokedAt toy_row = None \<and> rt_securityRevokedAt toy_row = None"
  using one_live_token_per_family[OF toy_reachable, of toy_row toy_row]
  by (simp add: toy_db_eq) (simp add: toy_row_def)

subsection \<open>Retries inside the window\<close>

lemma walk_after_rotation:
  fixes now :: int
  assumes ok: "session_ok cr secret db" and row: "row \<in> set (rt_rows db)"
    and hash: "rt_tokenHash row = hashRefreshToken cr tok secret"
    and ctx: "matchesRefreshTokenContext row ctx"
    and scope: "truthy (fst expected) = truthy (snd expected)"
  defines "new \<equiv> successor_row cr secret tok row expected now (rt_next db)"
    and "old \<equiv> retire_row now (rt_next db) row"
  shows "walk_chain cr secret ctx old expected (rt_rows (rotated cr secret tok row expected now db))
     MAX_REFRESH_REPLAY_CHAIN_DEPTH old tok False {rt_id old}
     = Walk_End new (deriveRefreshTokenSuccessor cr tok secret) False"
proof -
  let ?rows = "rt_rows (rotated cr secret tok row expected now db)"
  note okD = session_okD[OF ok]
  have "rt_next db \<notin> rt_id ` set (rt_rows db)" using okD(3) by fastforce
  then have "distinct (map rt_id ?rows)" and "new \<in> set ?rows"
    by (auto simp: rotated_def map_update_where okD(1) new_def)
  from find_unique[OF this] have f: "List.find (\<lambda>r. rt_id r = rt_next db) ?rows = Some new"
    by (simp add: new_def)
  have "successor_ok cr secret ctx old old (deriveRefreshTokenSuccessor cr tok secret) new"
    using ctx scope
    by (simp add: successor_ok_def new_def old_def successor_row_def sameRefreshTokenFamily_def
        matchesRefreshTokenContext_def hasValidWorkspaceScope_def)
  moreover have "rt_next db \<noteq> rt_id row" using okD(3)[OF row] by simp
  moreover have "walk_chain cr secret ctx old expected ?rows n new raw False seen = Walk_End new raw False"
    for n raw seen by (cases n) (simp_all add: new_def)
  moreover have "matchesWorkspaceScope new expected"
    by (simp add: new_def matchesWorkspaceScope_def)
  ultimately have "walk_chain cr secret ctx old expected ?rows (Suc n) old tok False {rt_id old}
     = Walk_End new (deriveRefreshTokenSuccessor cr tok secret) False" for n
    using f by (simp add: old_def Let_def)
  from this[of 31] show ?thesis by (simp add: MAX_REFRESH_REPLAY_CHAIN_DEPTH_def)
qed

text \<open>
  C8: losing the response of a rotation loses nothing. When a rotation succeeded and the same
  request is repeated within the two-minute window (its policy hooks accepting), the repeat
  returns the same successor token, user and workspace, marked as a replay, with the remaining
  lifetime rounded up, and leaves the store unchanged; the successor cannot have expired.
\<close>

theorem rotation_retry_idempotent:
  assumes reach: "session_reachable cr secret db" and d: "deciding deps" and ws: "real_workspace ws"
    and tx: "exchange_tx cr secret ctx tok ws deps db = (Inr res, db')" and new: "\<not> er_replayed res"
    and d2: "deciding deps'"
    and accept: "\<And>row. fst (run_hook (beforeFamilyDecision deps') row db') = Inr ()"
      "\<And>row. fst (run_hook (replay_hook deps') row db') = Inr ()"
    and time: "at2 deps \<le> at1 deps'" "at1 deps' \<le> at2 deps'" "at2 deps' - at2 deps \<le> 120000"
  shows "exchange_tx cr secret ctx tok ws deps' db' =
     (Inr (res\<lparr>er_replayed := True,
               er_expiresInSeconds := er_expiresInSeconds res - (at2 deps' - at2 deps) div 1000\<rparr>), db')"
proof -
  note inv = session_reachable_inv[OF reach]
  note ok = session_invD(1)[OF inv]
  from exchange_tx_cases[OF ok d tx] new obtain row where
    row: "find_token cr secret tok db = Some row" and ctx: "matchesRefreshTokenContext row ctx"
    and eff: "tx_effect cr secret row tok ws deps db (Inr res) db'"
    by auto
  let ?e = "expected_scope ws row" and ?raw = "deriveRefreshTokenSuccessor cr tok secret"
  let ?new = "successor_row cr secret tok row ?e (at2 deps) (rt_next db)"
  let ?old = "retire_row (at2 deps) (rt_next db) row"
  from eff new have res: "res = rotation_result cr secret tok row ?e"
    and db': "db' = rotated cr secret tok row ?e (at2 deps) db" and live: "rt_revokedAt row = None"
    and sw: "\<not> (ws \<noteq> None \<and> matchesWorkspaceScope row ?e)"
    and fresh: "\<forall>r \<in> set (rt_rows db). rt_tokenHash r \<noteq> hashRefreshToken cr ?raw secret"
    by (auto simp: tx_effect_def replayed_result_def)
  from find_token_row[OF row] have mem: "row \<in> set (rt_rows db)"
    and hash: "rt_tokenHash row = hashRefreshToken cr tok secret" by auto
  have scope: "truthy (fst ?e) = truthy (snd ?e)"
    using expected_scope_valid[OF ws session_okD(4)[OF ok mem]] .
  have ok': "session_ok cr secret db'" unfolding db' by (rule rotated_ok[OF ok mem live hash scope fresh])
  have "?old \<in> set (rt_rows db')" using mem by (force simp: db' rotated_rows)
  then have find': "find_token cr secret tok db' = Some ?old"
    using find_unique[OF session_okD(2)[OF ok'], of ?old] hash by (simp add: find_token_def)
  have e': "expected_scope ws ?old = ?e" by (simp add: expected_scope_def split: option.splits)
  have walk: "walk_chain cr secret ctx ?old ?e (rt_rows db') MAX_REFRESH_REPLAY_CHAIN_DEPTH ?old tok False
      {rt_id ?old} = Walk_End ?new ?raw False"
    unfolding db' by (rule walk_after_rotation[OF ok mem hash ctx scope])
  have hooks: "run_hook (beforeFamilyDecision deps') r db' = (Inr (), db')"
    "run_hook (replay_hook deps') r db' = (Inr (), db')" for r
    using accept[of r] d2 replay_hook_reads[OF d2] unfolding deciding_def reads_only_def
    by (metis prod.collapse)+
  have exp: "at2 deps' < rt_expiresAt ?new"
    using time(3) inherited_ttl_min[of row] by (simp add: successor_row_def)
  have grace: "\<not> graceExpired ?old (at1 deps')" "\<not> graceExpired ?old (at2 deps')"
    using time by (simp_all add: graceExpired_def REFRESH_TOKEN_REPLAY_GRACE_MS_def)
  have ttl: "remainingRefreshTokenTtlSeconds ?new (at2 deps')
      = inherited_ttl row - (at2 deps' - at2 deps) div 1000"
    using time inherited_ttl_min[of row]
    by (simp add: remainingRefreshTokenTtlSeconds_def successor_row_def ceil_div_def)
  have "resolveRefreshTokenReplay cr secret ctx tok ?old ?e (ws \<noteq> None) (replay_hook deps')
      (at1 deps') (at2 deps') db' = (Inr (replayed_result ?new ?raw (at2 deps')), db')"
    using session_okD(4)[OF ok mem] sw grace exp walk
    by (simp add: resolveRefreshTokenReplay_def hooks hasValidWorkspaceScope_def matchesWorkspaceScope_def
        replayed_result_def)
  then have "decide_exchange cr secret ctx tok ws deps' ?old db'
      = (Inr (replayed_result ?new ?raw (at2 deps')), db')"
    using e' by (simp add: decide_exchange_def Let_def expected_scope_def replay_hook_def)
  moreover have "matchesRefreshTokenContext ?old ctx" using ctx by (simp add: matchesRefreshTokenContext_def)
  ultimately show ?thesis
    using find' hooks(1) ttl res
    by (simp add: exchange_tx_def tx_exchange exchange_decides[OF d2] rotation_result_def replayed_result_def
        successor_row_def)
qed

lemmas exchange_defs = exchange_tx_def tx_exchange exchangeRefreshToken_def decide_exchange_def Let_def
  find_token_def hashRefreshToken_def matchesRefreshTokenContext_def toy_crypto_def toy_context_def
  rotate_row_def createRefreshTokenRecord_def successor_session_def run_hook_def inherited_ttl_def
  round_div_1000_def MIN_INHERITED_REFRESH_TTL_SECONDS_def deriveRefreshTokenSuccessor_def
  REFRESH_SUCCESSOR_HMAC_DOMAIN_def

definition toy_rotation :: exchange_result where
  "toy_rotation = rotation_result toy_crypto ''pep'' ''tok'' toy_row (None, None)"

definition toy_rotated :: refresh_db where
  "toy_rotated = rotated toy_crypto ''pep'' ''tok'' toy_row (None, None) 1000 toy_db"

lemma toy_exchange:
  "exchange_tx toy_crypto ''pep'' toy_context ''tok'' None (toy_deps 1000) toy_db
     = (Inr toy_rotation, toy_rotated)"
  by (simp add: exchange_defs toy_db_eq toy_rotated_def toy_rotation_def rotated_def rotation_result_def
      successor_row_def retire_row_def) (simp add: toy_row_def)

theorem rotation_retry_idempotent_witness:
  "exchange_tx toy_crypto ''pep'' toy_context ''tok'' None (toy_deps 61500) toy_rotated
     = (Inr (toy_rotation\<lparr>er_replayed := True, er_expiresInSeconds := 3540\<rparr>), toy_rotated)"
proof -
  have ttl: "er_expiresInSeconds toy_rotation = 3600" "\<not> er_replayed toy_rotation"
    by (simp_all add: toy_rotation_def rotation_result_def inherited_ttl_def round_div_1000_def
        MIN_INHERITED_REFRESH_TTL_SECONDS_def toy_row_def)
  show ?thesis
    using rotation_retry_idempotent[OF toy_reachable toy_deps_deciding _ toy_exchange ttl(2), of "toy_deps 61500"]
    by (simp add: real_workspace_def run_hook_def replay_hook_def ttl(1))
qed

subsection \<open>Use of a spent token outside the window\<close>

text \<open>
  C25: presenting a rotated token after the two-minute window is theft. The caller gets the
  ordinary 401, every token of the family is revoked afterwards, and the user's access-token
  epoch moves by exactly one on the first such use and not at all on later ones; tokens of the
  user's other families are untouched.
\<close>

theorem late_reuse_revokes_family:
  assumes reach: "session_reachable cr secret db" and cf: "collision_free cr secret" and d: "deciding deps"
    and row: "find_token cr secret tok db = Some row" and ctx: "matchesRefreshTokenContext row ctx"
    and rot: "rt_replacedByTokenId row \<noteq> None" and rev: "rt_revokedAt row = Some t"
    and late: "120000 < at1 deps - t" and mono: "at1 deps \<le> at2 deps"
    and accept: "fst (run_hook (beforeFamilyDecision deps) (policy_view row) db) = Inr ()"
    and user: "rt_versions db (rt_userId row) = Some v"
  shows "\<exists>db'. exchange_tx cr secret ctx tok ws deps db = (Inl invalid_refresh, db') \<and>
     (\<forall>s \<in> set (rt_rows db'). rt_familyId s = rt_familyId row \<longrightarrow> rt_revokedAt s \<noteq> None) \<and>
     (\<forall>s \<in> set (rt_rows db). rt_familyId s \<noteq> rt_familyId row \<longrightarrow> s \<in> set (rt_rows db')) \<and>
     rt_versions db' (rt_userId row) = Some (if rt_securityRevokedAt row = None then Suc v else v)"
proof -
  note inv = session_reachable_inv[OF reach]
  note ok = session_invD(1)[OF inv]
  from find_token_row[OF row] have mem: "row \<in> set (rt_rows db)"
    and hash: "rt_tokenHash row = hashRefreshToken cr tok secret" by auto
  have expired: "graceExpired row (at1 deps)" "graceExpired row (at2 deps)"
    using rev late mono by (simp_all add: graceExpired_def REFRESH_TOKEN_REPLAY_GRACE_MS_def)
  have nc: "walk_chain cr secret ctx row e (rt_rows db) n row tok False {rt_id row} \<noteq> Walk_Corrupt" for e n
    by (rule walk_not_corrupt[OF ok cf ctx mem hash]) simp_all
  obtain t' where rep: "resolveRefreshTokenReplay cr secret ctx tok row (expected_scope ws row) (ws \<noteq> None)
      (replay_hook deps) (at1 deps) (at2 deps) db = rejectRefreshTokenReuse row t' db"
    using nc[of "expected_scope ws row" MAX_REFRESH_REPLAY_CHAIN_DEPTH] expired session_okD(4)[OF ok mem]
    by (cases "walk_chain cr secret ctx row (expected_scope ws row) (rt_rows db)
          MAX_REFRESH_REPLAY_CHAIN_DEPTH row tok False {rt_id row}")
       (auto simp: resolveRefreshTokenReplay_def)
  obtain r1 :: "thrown + exchange_result" and db1 where rej: "rejectRefreshTokenReuse row t' db = (r1, db1)" by fastforce
  have dec: "decide_exchange cr secret ctx tok ws deps row db = (r1, db1)"
    using rep rej rot by (simp add: decide_exchange_def Let_def expected_scope_def replay_hook_def)
  have no_db_error: "r1 = Inl Reuse_Detected"
    using rej user by (auto simp: rejectRefreshTokenReuse_def then_throw_def
        invalidateRefreshTokenFamilySecurityEpoch_def bumpUserTokenVersion_def security_claim_def Let_def
        split: prod.splits sum.splits if_splits option.splits)
  with reuse_effect[OF session_okD(1)[OF ok] mem rej]
  have eff: "security_effect (\<lambda>s. rt_familyId s = rt_familyId row) row t' db db1" by auto
  have v: "run_hook (beforeFamilyDecision deps) (policy_view row) db = (Inr (), db)"
    using accept d unfolding deciding_def reads_only_def by (metis prod.collapse)
  have tx: "exchange_tx cr secret ctx tok ws deps db = (Inl invalid_refresh, db1)"
    using row ctx v dec no_db_error by (simp add: exchange_tx_def tx_exchange exchange_decides[OF d])
  have theft: "rt_revokedAt s \<noteq> None" if "s \<in> set (rt_rows db)" "rt_familyId s = rt_familyId row"
      "rt_securityRevokedAt row \<noteq> None \<or> rt_securityRevokedAt s \<noteq> None" for s
    using session_invD(3)[OF inv] that mem unfolding theft_ok_def by metis
  have "\<forall>s \<in> set (rt_rows db1). rt_familyId s = rt_familyId row \<longrightarrow> rt_revokedAt s \<noteq> None"
    using eff theft by (auto simp: security_effect_def security_mark_def set_update_where mark_security_def
        split: if_splits)
  moreover have "\<forall>s \<in> set (rt_rows db). rt_familyId s \<noteq> rt_familyId row \<longrightarrow> s \<in> set (rt_rows db1)"
    using eff by (auto simp: security_effect_def security_mark_def set_update_where image_iff split: if_splits)
  moreover have "rt_versions db1 (rt_userId row) = Some (if rt_securityRevokedAt row = None then Suc v else v)"
    using eff user by (auto simp: security_effect_def split: if_splits)
  ultimately show ?thesis using tx by blast
qed

theorem late_reuse_revokes_family_witness:
  "\<exists>db'. exchange_tx toy_crypto ''pep'' toy_context ''tok'' None (toy_deps 200000) toy_rotated
     = (Inl invalid_refresh, db') \<and> rt_versions db' ''u1'' = Some 1"
proof -
  let ?row = "retire_row 1000 1 toy_row"
  have row: "find_token toy_crypto ''pep'' ''tok'' toy_rotated = Some ?row"
    by (simp add: find_token_def toy_rotated_def rotated_def toy_db_eq hashRefreshToken_def toy_crypto_def)
       (simp add: toy_row_def)
  have ctx: "matchesRefreshTokenContext ?row toy_context"
    by (simp add: matchesRefreshTokenContext_def toy_context_def toy_row_def)
  have sel: "rt_replacedByTokenId ?row \<noteq> None" "rt_revokedAt ?row = Some 1000"
    "rt_userId ?row = ''u1''" "rt_securityRevokedAt ?row = None"
    by (simp_all add: toy_row_def retire_row_def)
  have user: "rt_versions toy_rotated (rt_userId ?row) = Some 0"
    by (simp add: toy_rotated_def rotated_def toy_db_eq toy_row_def)
  have reach: "session_reachable toy_crypto ''pep'' toy_rotated"
  proof -
    have "session_step toy_crypto ''pep'' Other_Event toy_db toy_rotated"
      by (rule session_step.exchange[OF toy_exchange toy_deps_deciding]) (simp add: real_workspace_def)
    with toy_reachable show ?thesis
      unfolding session_reachable_def by (blast intro: rtranclp.rtrancl_into_rtrancl)
  qed
  from late_reuse_revokes_family[OF reach toy_collision_free toy_deps_deciding row ctx sel(1,2) _ _ _ user,
      of 200000 None]
  show ?thesis using sel by (auto simp: run_hook_def)
qed

subsection \<open>What a transaction may change\<close>

text \<open>
  an exchange transaction that fails never creates, replaces or revives a session: the
  rows are the same rows, with revocation stamps possibly added; and when the token is unknown
  or presented from another client, configuration or domain, nothing at all changes and the
  answer is the ordinary 401.
\<close>

theorem failed_exchange_only_revokes:
  assumes reach: "session_reachable cr secret db" and d: "deciding deps"
    and tx: "exchange_tx cr secret ctx tok ws deps db = (res, db')"
  shows "(isl res \<longrightarrow> decays db db') \<and>
     ((\<forall>row. find_token cr secret tok db = Some row \<longrightarrow> \<not> matchesRefreshTokenContext row ctx) \<longrightarrow>
        res = Inl invalid_refresh \<and> db' = db)"
proof -
  note ok = session_invD(1)[OF session_reachable_inv[OF reach]]
  have "decays db db'" if "isl res"
    using exchange_tx_cases[OF ok d tx] that
    by (auto simp: tx_effect_def dest: security_effect_decays)
  moreover have "res = Inl invalid_refresh \<and> db' = db"
    if "\<forall>row. find_token cr secret tok db = Some row \<longrightarrow> \<not> matchesRefreshTokenContext row ctx"
    using tx that by (auto simp: exchange_tx_def tx_exchange exchange_decides[OF d] split: option.splits)
  ultimately show ?thesis by blast
qed

theorem failed_exchange_only_revokes_witness:
  "exchange_tx toy_crypto ''pep'' (toy_context\<lparr>ctx_domain := ''evil.test''\<rparr>) ''tok'' None (toy_deps 5) toy_db
     = (Inl invalid_refresh, toy_db)"
proof -
  have "\<not> matchesRefreshTokenContext row (toy_context\<lparr>ctx_domain := ''evil.test''\<rparr>)"
    if "find_token toy_crypto ''pep'' ''tok'' toy_db = Some row" for row
    using find_token_row[OF that]
    by (simp add: toy_db_eq matchesRefreshTokenContext_def) (simp add: toy_row_def)
  moreover obtain res db' where tx: "exchange_tx toy_crypto ''pep'' (toy_context\<lparr>ctx_domain := ''evil.test''\<rparr>)
      ''tok'' None (toy_deps 5) toy_db = (res, db')" by fastforce
  ultimately show ?thesis
    using failed_exchange_only_revokes[OF toy_reachable toy_deps_deciding tx] by blast
qed

definition toy_two :: refresh_db where
  "toy_two = snd (issueRefreshToken toy_crypto ''pep'' toy_session ''other'' ''fam2'' 0 3600 toy_db)"

lemma toy_two_eq:
  "toy_two = \<lparr>rt_rows = [toy_row, toy_row\<lparr>rt_id := 1, rt_tokenHash := ''other'', rt_familyId := ''fam2''\<rparr>],
     rt_versions = [''u1'' \<mapsto> 0], rt_next = 2\<rparr>"
  by (simp add: toy_two_def toy_db_eq issueRefreshToken_def createRefreshTokenRecord_def Let_def
      toy_session_def toy_context_def toy_crypto_def hashRefreshToken_def) (simp add: toy_row_def)

lemma toy_two_reachable: "session_reachable toy_crypto ''pep'' toy_two"
proof -
  have "session_step toy_crypto ''pep'' (Sign_In ''u1'' ''acme.test'') toy_db toy_two"
    using session_step.sign_in[of toy_crypto "''pep''" toy_session "''other''" "''fam2''" 0 3600 toy_db
        "fst (issueRefreshToken toy_crypto ''pep'' toy_session ''other'' ''fam2'' 0 3600 toy_db)" toy_two]
    by (simp add: toy_two_def toy_session_def toy_context_def) (simp add: toy_db_eq toy_row_def)
  with toy_reachable show ?thesis
    unfolding session_reachable_def by (blast intro: rtranclp.rtrancl_into_rtrancl)
qed

text \<open>
  C26: an exchange transaction reaches only one session. Whatever its outcome, every token of
  another family keeps its row unchanged, and no other user's access-token epoch moves; in
  particular a genuine token is never mistaken for a corrupted chain, which would revoke every
  session of the user.
\<close>

theorem exchange_isolates_family:
  assumes reach: "session_reachable cr secret db" and cf: "collision_free cr secret" and d: "deciding deps"
    and tx: "exchange_tx cr secret ctx tok ws deps db = (res, db')"
    and row: "find_token cr secret tok db = Some row"
    and s: "s \<in> set (rt_rows db)" "rt_familyId s \<noteq> rt_familyId row"
  shows "s \<in> set (rt_rows db') \<and> (\<forall>u. u \<noteq> rt_userId row \<longrightarrow> rt_versions db' u = rt_versions db u)"
proof -
  note ok = session_invD(1)[OF session_reachable_inv[OF reach]]
  have mem: "row \<in> set (rt_rows db)" using find_token_row[OF row] ..
  have other: "rt_id s \<noteq> rt_id row" using distinct_key_eq[OF session_okD(1)[OF ok] s(1) mem] s(2) by auto
  then have rot: "s \<in> set (rt_rows (rotated cr secret tok row e n db))"
    "rt_versions (rotated cr secret tok row e n db) = rt_versions db" for e n
    using s(1) by (force simp: rotated_rows) (simp add: rotated_def)
  have mark: "s \<in> set (rt_rows (security_mark (\<lambda>s. rt_familyId s = rt_familyId row) t db))"
    "s \<in> set (rt_rows (snd (revoke_matching (\<lambda>s. rt_familyId s = rt_familyId row) t db)))"
    "rt_versions (snd (revoke_matching (\<lambda>s. rt_familyId s = rt_familyId row) t db)) = rt_versions db" for t
    using s by (force simp: security_mark_def revoke_matching_def Let_def set_update_where image_iff)+
  from exchange_tx_cases[OF ok d tx] row have "db' = db \<or> tx_effect cr secret row tok ws deps db res db'"
    by auto
  then show ?thesis
    unfolding tx_effect_def
    using cf s(1) rot mark by (auto simp: security_effect_def split: if_splits)
qed

theorem exchange_isolates_family_witness:
  "toy_row\<lparr>rt_id := 1, rt_tokenHash := ''other'', rt_familyId := ''fam2''\<rparr> \<in> set (rt_rows (snd
     (exchange_tx toy_crypto ''pep'' toy_context ''tok'' None (toy_deps 1000) toy_two)))"
proof -
  have find: "find_token toy_crypto ''pep'' ''tok'' toy_two = Some toy_row"
    by (simp add: toy_two_eq find_token_def hashRefreshToken_def toy_crypto_def) (simp add: toy_row_def)
  obtain res db' where tx: "exchange_tx toy_crypto ''pep'' toy_context ''tok'' None (toy_deps 1000) toy_two
      = (res, db')" by fastforce
  from exchange_isolates_family[OF toy_two_reachable toy_collision_free toy_deps_deciding tx find,
      of "toy_row\<lparr>rt_id := 1, rt_tokenHash := ''other'', rt_familyId := ''fam2''\<rparr>"] tx
  show ?thesis by (simp add: toy_two_eq) (simp add: toy_row_def)
qed

text \<open>
  a successful exchange hands out exactly one live token: the returned value is the
  preimage of a row of the same family and user as the presented one, neither revoked nor
  rotated nor expired at the time of the decision, and it is the only live row of its family.
\<close>

theorem exchanged_token_is_live:
  assumes reach: "session_reachable cr secret db" and d: "deciding deps" and ws: "real_workspace ws"
    and tx: "exchange_tx cr secret ctx tok ws deps db = (Inr res, db')"
  shows "\<exists>row r. find_token cr secret tok db = Some row \<and> r \<in> set (rt_rows db') \<and>
     rt_tokenHash r = hashRefreshToken cr (er_refreshToken res) secret \<and>
     sameRefreshTokenFamily row r \<and> er_userId res = rt_userId r \<and>
     er_orgId res = rt_orgId r \<and> er_teamId res = rt_teamId r \<and>
     rt_revokedAt r = None \<and> rt_replacedByTokenId r = None \<and> at2 deps < rt_expiresAt r \<and>
     (\<forall>s \<in> set (rt_rows db'). rt_familyId s = rt_familyId r \<longrightarrow> rt_revokedAt s = None \<longrightarrow> rt_id s = rt_id r)"
proof -
  note inv = session_reachable_inv[OF reach]
  note ok = session_invD(1)[OF inv]
  from exchange_tx_cases[OF ok d tx] obtain row where row: "find_token cr secret tok db = Some row"
    and eff: "tx_effect cr secret row tok ws deps db (Inr res) db'" by auto
  have live: "one_live (rt_rows db')"
    using session_okD(5)[OF session_invD(1)[OF inv_tx_effect[OF inv ws row eff]]] .
  from eff consider current raw where "db' = db" "current \<in> set (rt_rows db)"
      "rt_revokedAt current = None" "rt_replacedByTokenId current = None"
      "rt_tokenHash current = hashRefreshToken cr raw secret" "sameRefreshTokenFamily row current"
      "at2 deps < rt_expiresAt current" "res = replayed_result current raw (at2 deps)"
    | "res = rotation_result cr secret tok row (expected_scope ws row)"
      "db' = rotated cr secret tok row (expected_scope ws row) (at2 deps) db"
    by (auto simp: tx_effect_def)
  then obtain r where "r \<in> set (rt_rows db')"
     "rt_tokenHash r = hashRefreshToken cr (er_refreshToken res) secret"
     "sameRefreshTokenFamily row r" "er_userId res = rt_userId r"
     "er_orgId res = rt_orgId r" "er_teamId res = rt_teamId r"
     "rt_revokedAt r = None" "rt_replacedByTokenId r = None" "at2 deps < rt_expiresAt r"
  proof cases
    case 1
    then show ?thesis by (intro that[of current]) (simp_all add: replayed_result_def)
  next
    case 2
    let ?r = "successor_row cr secret tok row (expected_scope ws row) (at2 deps) (rt_next db)"
    show ?thesis
      using inherited_ttl_min[of row]
      by (intro that[of ?r]) (simp_all add: 2 rotated_rows rotation_result_def successor_row_def
          sameRefreshTokenFamily_def)
  qed
  with row live show ?thesis unfolding one_live_def by blast
qed

theorem exchanged_token_is_live_witness:
  "\<exists>r \<in> set (rt_rows toy_rotated). rt_revokedAt r = None \<and> rt_tokenHash r = er_refreshToken toy_rotation"
  using exchanged_token_is_live[OF toy_reachable toy_deps_deciding _ toy_exchange]
  by (auto simp: real_workspace_def hashRefreshToken_def toy_crypto_def)

subsection \<open>Sessions a membership change ends\<close>

text \<open>A history in which the user does not sign in to the domain again.\<close>

definition no_sign_in_step :: "crypto \<Rightarrow> string \<Rightarrow> string \<times> string \<Rightarrow> refresh_db \<Rightarrow> refresh_db \<Rightarrow> bool" where
  "no_sign_in_step cr secret k a b \<longleftrightarrow>
     (\<exists>ev. session_step cr secret ev a b \<and> ev \<noteq> Sign_In (fst k) (snd k))"

definition signed_out :: "crypto \<Rightarrow> string \<Rightarrow> string \<times> string \<Rightarrow> refresh_db \<Rightarrow> bool" where
  "signed_out cr secret k db \<longleftrightarrow> session_inv cr secret db \<and>
     (\<forall>r \<in> set (rt_rows db). rt_userId r = fst k \<and> rt_domain r = snd k \<longrightarrow> rt_revokedAt r \<noteq> None)"

lemma signed_out_decays:
  "decays db db' \<Longrightarrow> (\<forall>r \<in> set (rt_rows db). rt_userId r = u \<and> rt_domain r = d \<longrightarrow> rt_revokedAt r \<noteq> None) \<Longrightarrow>
     (\<forall>r \<in> set (rt_rows db'). rt_userId r = u \<and> rt_domain r = d \<longrightarrow> rt_revokedAt r \<noteq> None)"
  by (metis decays_rowE row_decays_live row_decays_sel(5,6))

lemma tx_effect_kinds:
  assumes "tx_effect cr secret row tok ws deps db res db'"
  shows "decays db db' \<or> (rt_revokedAt row = None \<and>
     db' = rotated cr secret tok row (expected_scope ws row) (at2 deps) db)"
  using assms by (auto simp: tx_effect_def dest: security_effect_decays)

lemma signed_out_step:
  assumes "no_sign_in_step cr secret k db db'" and so: "signed_out cr secret k db"
  shows "signed_out cr secret k db'"
proof -
  from assms(1) obtain ev where s: "session_step cr secret ev db db'" and ev: "ev \<noteq> Sign_In (fst k) (snd k)"
    by (auto simp: no_sign_in_step_def)
  have inv: "session_inv cr secret db" and dead: "\<forall>r \<in> set (rt_rows db).
      rt_userId r = fst k \<and> rt_domain r = snd k \<longrightarrow> rt_revokedAt r \<noteq> None"
    using so by (auto simp: signed_out_def)
  note ids = session_okD(1)[OF session_invD(1)[OF inv]]
  from s have "\<forall>r \<in> set (rt_rows db'). rt_userId r = fst k \<and> rt_domain r = snd k \<longrightarrow> rt_revokedAt r \<noteq> None"
  proof cases
    case (sign_in params tok fam now ttl r)
    then show ?thesis using inv_issue[OF inv sign_in(2-6)] ev dead by auto
  next
    case (exchange ctx tok ws deps res)
    from exchange_tx_cases[OF session_invD(1)[OF inv] exchange(3,2)] show ?thesis
    proof (elim disjE exE conjE)
      fix row assume row: "find_token cr secret tok db = Some row"
        and eff: "tx_effect cr secret row tok ws deps db res db'"
      from find_token_row[OF row] have mem: "row \<in> set (rt_rows db)" ..
      from tx_effect_kinds[OF eff] show ?thesis
      proof (elim disjE conjE)
        assume live: "rt_revokedAt row = None"
          and "db' = rotated cr secret tok row (expected_scope ws row) (at2 deps) db"
        moreover have "\<not> (rt_userId row = fst k \<and> rt_domain row = snd k)"
          using live mem dead by blast
        ultimately show ?thesis using dead
          by (auto simp: rotated_rows successor_row_def split: if_splits)
      qed (use dead signed_out_decays in blast)
    qed (use dead in simp)
  next
    case (logout ctx tok now u)
    from logout_cases[OF ids logout(2)] have "decays db db'"
      by (auto dest: security_effect_decays)
    with dead show ?thesis using signed_out_decays by blast
  next
    case (revoke_all userId now)
    from revoke_all_cases[of userId now db] have "decays db db'" unfolding revoke_all(2) by auto
    with dead show ?thesis using signed_out_decays by blast
  qed (use dead signed_out_decays[OF user_domain.revoke_decays] signed_out_decays[OF user_organisation.revoke_decays]
      signed_out_decays[OF user_team.revoke_decays] in blast)+
  with session_step_inv[OF s inv] show ?thesis by (simp add: signed_out_def)
qed

interpretation signed_out: step_invariant "no_sign_in_step cr secret k" "signed_out cr secret k" for cr secret k
  by unfold_locales (rule signed_out_step)

text \<open>
  C27: when a membership change revokes a user's sessions on a domain, the user stays signed out
  there. In every later store reached without a new sign-in to that domain (other users' traffic,
  exchanges, retries of lost responses, logouts and further revocations included), no exchange
  that presents a token of that user and domain succeeds.
\<close>

theorem revoked_user_stays_signed_out:
  assumes reach: "session_reachable cr secret db"
    and run: "(no_sign_in_step cr secret k)\<^sup>*\<^sup>* (snd (revokeRefreshTokensForUserDomain k now db)) db'"
    and row: "find_token cr secret tok db' = Some row"
    and key: "rt_userId row = fst k" "rt_domain row = snd k"
    and d: "deciding deps"
  shows "isl (fst (exchange_tx cr secret ctx tok ws deps db'))"
proof -
  have "signed_out cr secret k (snd (revokeRefreshTokensForUserDomain k now db))"
    using session_step_inv[OF session_step.revoke_domain session_reachable_inv[OF reach]]
      user_domain.no_live_selected unfolding signed_out_def by blast
  from signed_out.run_preserved[OF run this] have so: "signed_out cr secret k db'" .
  then have inv: "session_inv cr secret db'" and dead: "\<forall>r \<in> set (rt_rows db').
      rt_userId r = fst k \<and> rt_domain r = snd k \<longrightarrow> rt_revokedAt r \<noteq> None"
    by (auto simp: signed_out_def)
  from find_token_row[OF row] have mem: "row \<in> set (rt_rows db')" ..
  obtain res db2 where tx: "exchange_tx cr secret ctx tok ws deps db' = (res, db2)" by fastforce
  from exchange_tx_cases[OF session_invD(1)[OF inv] d tx] row
  have "isl res \<or> tx_effect cr secret row tok ws deps db' res db2" by auto
  moreover have "rt_revokedAt row \<noteq> None" using dead mem key by blast
  moreover have "rt_revokedAt current \<noteq> None"
    if "current \<in> set (rt_rows db')" "sameRefreshTokenFamily row current" for current
    using dead that key by (simp add: sameRefreshTokenFamily_def)
  ultimately have "isl res" unfolding tx_effect_def by blast
  then show ?thesis using tx by simp
qed

theorem revoked_user_stays_signed_out_witness:
  "isl (fst (exchange_tx toy_crypto ''pep'' toy_context ''tok'' None (toy_deps 1000)
     (snd (revokeRefreshTokensForUserDomain (''u1'', ''acme.test'') 900 toy_db))))"
  by (rule revoked_user_stays_signed_out[OF toy_reachable rtranclp.rtrancl_refl,
        where row = "mark_revoked 900 toy_row"])
     (simp_all add: revokeRefreshTokensForUserDomain_def revoke_matching_def Let_def toy_db_eq find_token_def
       hashRefreshToken_def toy_crypto_def, simp_all add: toy_row_def mark_revoked_def)

end
