(* ===== verification/Decimal_Digits.thy ===== *)
theory Decimal_Digits
  imports Uoa_Prelude
begin

section \<open>Decimal digits\<close>

text \<open>
  What \<open>String(n)\<close>, a template literal and \<open>BigInt(s)\<close> do on non-negative numbers: the digits
  of a number, the number a string of digits denotes, and the lemmas that relate them. The
  billing amounts, the slug candidates and the one-time codes are printed and read with them.
\<close>

subsection \<open>Digits\<close>

definition digit_char :: "nat \<Rightarrow> char" where
  "digit_char n = char_of (48 + n)"

definition digit_val :: "char \<Rightarrow> nat" where
  "digit_val c = of_char c - 48"

fun digits_of :: "nat \<Rightarrow> string" where
  "digits_of n = (if n < 10 then [digit_char n] else digits_of (n div 10) @ [digit_char (n mod 10)])"

declare digits_of.simps [simp del]

definition dec_nat :: "string \<Rightarrow> nat" where
  "dec_nat s = foldl (\<lambda>a c. 10 * a + digit_val c) 0 s"

definition all_digits :: "string \<Rightarrow> bool" where
  "all_digits s \<longleftrightarrow> list_all is_digit s"

lemma of_char_digit_char: "n < 10 \<Longrightarrow> (of_char (digit_char n) :: nat) = 48 + n"
  by (simp add: digit_char_def of_char_of)

lemma digit_char_props [simp]:
  "n < 10 \<Longrightarrow> is_digit (digit_char n)" "n < 10 \<Longrightarrow> digit_val (digit_char n) = n"
  by (simp_all add: is_digit_def digit_val_def of_char_digit_char)

lemma of_char_zero: "(of_char c :: nat) = 48 \<longleftrightarrow> c = CHR ''0''"
proof -
  have "(of_char c :: nat) = 48 \<longleftrightarrow> (of_char c :: nat) = of_char (CHR ''0'')" by simp
  then show ?thesis unfolding of_char_eq_iff .
qed

lemma digit_char_0: "digit_char 0 = CHR ''0''"
  using of_char_zero[of "digit_char 0"] by (simp add: of_char_digit_char)

lemma digit_chars:
  "digit_char 0 = CHR ''0''" "digit_char 1 = CHR ''1''" "digit_char (Suc 0) = CHR ''1''"
  "digit_char 2 = CHR ''2''" "digit_char 3 = CHR ''3''" "digit_char 4 = CHR ''4''"
  "digit_char 5 = CHR ''5''" "digit_char 6 = CHR ''6''" "digit_char 7 = CHR ''7''"
  "digit_char 8 = CHR ''8''" "digit_char 9 = CHR ''9''"
  by (rule iffD1[OF of_char_eq_iff[where 'a = nat]]; simp add: of_char_digit_char)+

lemma digit_val_0 [simp]: "digit_val (CHR ''0'') = 0"
  by (simp add: digit_val_def)

lemma is_digit_0 [simp]: "is_digit (CHR ''0'')" and not_digit [simp]: "\<not> is_digit (CHR ''.'')" "\<not> is_digit (CHR ''-'')"
  by (simp_all add: is_digit_def)

lemma digit_val_eq_0: "is_digit c \<Longrightarrow> digit_val c = 0 \<longleftrightarrow> c = CHR ''0''"
  using of_char_zero[of c] by (auto simp: is_digit_def digit_val_def)

lemma digit_val_less: "is_digit c \<Longrightarrow> digit_val c < 10"
  by (auto simp: is_digit_def digit_val_def)

lemma dec_nat_acc: "foldl (\<lambda>a c. 10 * a + digit_val c) a s = a * 10 ^ length s + dec_nat s"
proof (induction s arbitrary: a)
  case (Cons c s)
  have d: "dec_nat (c # s) = digit_val c * 10 ^ length s + dec_nat s"
    using Cons[of "digit_val c"] by (simp add: dec_nat_def)
  show ?case unfolding foldl_Cons Cons[of "10 * a + digit_val c"] d by (simp add: algebra_simps)
qed (simp add: dec_nat_def)

lemma dec_nat_Nil [simp]: "dec_nat [] = 0"
  by (simp add: dec_nat_def)

lemma dec_nat_append: "dec_nat (s @ t) = dec_nat s * 10 ^ length t + dec_nat t"
  by (simp add: dec_nat_def) (metis dec_nat_acc dec_nat_def)

lemma dec_nat_single [simp]: "dec_nat [c] = digit_val c"
  by (simp add: dec_nat_def)

lemma dec_nat_Cons: "dec_nat (c # s) = digit_val c * 10 ^ length s + dec_nat s"
  using dec_nat_append[of "[c]" s] by simp

lemma dec_nat_zeros [simp]: "dec_nat (replicate k (CHR ''0'')) = 0"
  by (induction k) (simp_all add: dec_nat_Cons)

lemma dec_nat_digits_of [simp]: "dec_nat (digits_of n) = n"
  by (induction n rule: digits_of.induct) (subst digits_of.simps, simp add: dec_nat_append)

lemma all_digits_append [simp]: "all_digits (s @ t) \<longleftrightarrow> all_digits s \<and> all_digits t"
  by (simp add: all_digits_def)

lemma all_digits_simps [simp]: "all_digits []" "all_digits (c # s) \<longleftrightarrow> is_digit c \<and> all_digits s"
  by (simp_all add: all_digits_def)

lemma all_digits_of [simp]: "all_digits (digits_of n)"
  by (induction n rule: digits_of.induct) (subst digits_of.simps, simp)

lemma digits_of_nonempty [simp]: "digits_of n \<noteq> []"
  by (subst digits_of.simps) simp

lemma length_digits_of: "Suc 0 \<le> length (digits_of n)"
  by (cases "digits_of n") (simp_all add: digits_of_nonempty)

lemma digits_of_hd: "0 < n \<Longrightarrow> hd (digits_of n) \<noteq> CHR ''0''"
proof (induction n rule: digits_of.induct)
  case (1 n)
  show ?case
  proof (cases "n < 10")
    case True
    then have "digit_char n \<noteq> CHR ''0''"
      using 1(2) digit_char_props(2)[of n] digit_val_0 by fastforce
    with True show ?thesis by (simp add: digits_of.simps)
  next
    case False
    then show ?thesis using 1 by (simp add: digits_of.simps[of n])
  qed
qed

lemma digits_of_times_10: "0 < n \<Longrightarrow> digits_of (n * 10) = digits_of n @ ''0''"
  by (subst digits_of.simps) (simp add: digit_char_0)

lemma dec_nat_bound: "all_digits s \<Longrightarrow> dec_nat s < 10 ^ length s"
proof (induction s rule: rev_induct)
  case (snoc c s)
  then show ?case using digit_val_less[of c] by (simp add: dec_nat_append)
qed simp

lemma dec_nat_pos: "all_digits (c # s) \<Longrightarrow> c \<noteq> CHR ''0'' \<Longrightarrow> 0 < dec_nat (c # s)"
  using digit_val_eq_0[of c] by (simp add: dec_nat_Cons)

subsection \<open>Padding\<close>

definition pad_start :: "nat \<Rightarrow> char \<Rightarrow> string \<Rightarrow> string" where
  "pad_start n c s = replicate (n - length s) c @ s"

lemma pad_start_times_10: "pad_start (Suc n) c (s @ [d]) = pad_start n c s @ [d]"
  by (simp add: pad_start_def)

lemma length_pad_start [simp]: "length (pad_start n c s) = max n (length s)"
  by (simp add: pad_start_def)

lemma dec_nat_pad [simp]: "dec_nat (pad_start n (CHR ''0'') s) = dec_nat s"
  by (simp add: pad_start_def dec_nat_append)

lemma all_digits_pad [simp]: "all_digits s \<Longrightarrow> all_digits (pad_start n (CHR ''0'') s)"
  by (induction "n - length s" arbitrary: n) (auto simp: pad_start_def all_digits_def list_all_iff)

lemma dec_nat_less_length: "0 < n \<Longrightarrow> n < 10 ^ k \<Longrightarrow> length (digits_of n) \<le> k"
proof (rule ccontr)
  assume n: "0 < n" "n < 10 ^ k" and "\<not> length (digits_of n) \<le> k"
  then have long: "k < length (digits_of n)" by simp
  obtain c s where cs: "digits_of n = c # s" using digits_of_nonempty[of n] by (cases "digits_of n") auto
  have "c \<noteq> CHR ''0''" using digits_of_hd[OF n(1)] cs by simp
  moreover have "is_digit c" using all_digits_of[of n] cs by simp
  ultimately have "1 \<le> digit_val c" using digit_val_eq_0[of c] by simp
  then have "10 ^ length s \<le> dec_nat (digits_of n)" by (simp add: cs dec_nat_Cons trans_le_add1)
  moreover have "(10::nat) ^ k \<le> 10 ^ length s" using long cs by simp
  ultimately show False using n(2) by simp
qed

end
