(* ===== verification/Billing_Money.thy ===== *)
theory Billing_Money
  imports Complex_Main Decimal_Digits
begin

section \<open>Exact decimal money\<close>

text \<open>
  \<^verbatim>\<open>API/src/services/billing-money.service.ts\<close>: decimal strings, their exact
  arithmetic on big integers, and the conversion between major and minor currency units.
  Strings are parsed and printed as the source does; the meaning of a decimal is the rational
  number \<open>dec_value\<close>. Big integers are \<^typ>\<open>int\<close>; JavaScript \<open>BigInt\<close> division truncates,
  and the model divides non-negative numbers only, as the source does.
\<close>

subsection \<open>Decimals\<close>

record decimal =
  coefficient :: int
  scale :: nat

definition dec_value :: "decimal \<Rightarrow> rat" where
  "dec_value d = of_int (coefficient d) / 10 ^ scale d"

text \<open>\<^verbatim>\<open>/^-?(0|[1-9][0-9]*)(\.[0-9]+)?$/\<close>\<close>

definition whole_ok :: "string \<Rightarrow> bool" where
  "whole_ok w \<longleftrightarrow> w = ''0'' \<or> (w \<noteq> [] \<and> all_digits w \<and> hd w \<noteq> CHR ''0'')"

definition unsigned_pattern :: "string \<Rightarrow> bool" where
  "unsigned_pattern u =
     (case split_on (CHR ''.'') u of
        [w] \<Rightarrow> whole_ok w
      | [w, f] \<Rightarrow> whole_ok w \<and> f \<noteq> [] \<and> all_digits f
      | _ \<Rightarrow> False)"

definition is_negative :: "string \<Rightarrow> bool" where
  "is_negative s \<longleftrightarrow> take 1 s = ''-''"

definition unsigned :: "string \<Rightarrow> string" where
  "unsigned s = (if is_negative s then drop 1 s else s)"

definition DECIMAL_PATTERN :: "string \<Rightarrow> bool" where
  "DECIMAL_PATTERN s \<longleftrightarrow> unsigned_pattern (unsigned s)"

definition split_fraction :: "string \<Rightarrow> string \<times> string" where
  "split_fraction u =
     (case split_on (CHR ''.'') u of [w] \<Rightarrow> (w, []) | w # f # _ \<Rightarrow> (w, f) | [] \<Rightarrow> ([], []))"

definition parseDecimal :: "string \<Rightarrow> decimal outcome" where
  "parseDecimal s =
     (if \<not> DECIMAL_PATTERN s then fail_with INTERNAL 502 ''BILLING_DECIMAL_INVALID''
      else (case split_fraction (unsigned s) of
        (whole, fraction) \<Rightarrow>
          (let c = int (dec_nat (whole @ fraction))
           in Inr \<lparr>coefficient = (if is_negative s then - c else c), scale = length fraction\<rparr>)))"

definition strip_zeros :: "string \<Rightarrow> string" where
  "strip_zeros s = rev (dropWhile (\<lambda>c. c = CHR ''0'') (rev s))"

definition serializeDecimal :: "decimal \<Rightarrow> string" where
  "serializeDecimal d =
     (if coefficient d = 0 then ''0''
      else (let sign = (if coefficient d < 0 then ''-'' else []);
                digits = digits_of (nat \<bar>coefficient d\<bar>)
            in if scale d = 0 then sign @ digits
               else (let padded = pad_start (scale d + 1) (CHR ''0'') digits;
                         whole = take (length padded - scale d) padded;
                         fraction = strip_zeros (drop (length padded - scale d) padded)
                     in sign @ whole @ (if fraction \<noteq> [] then CHR ''.'' # fraction else []))))"

definition align :: "decimal \<Rightarrow> decimal \<Rightarrow> int \<times> int \<times> nat" where
  "align l r =
     (let s = max (scale l) (scale r)
      in (coefficient l * 10 ^ (s - scale l), coefficient r * 10 ^ (s - scale r), s))"

definition addBillingDecimals :: "string \<Rightarrow> string \<Rightarrow> string outcome" where
  "addBillingDecimals l r =
     and_then (parseDecimal l) (\<lambda>x. and_then (parseDecimal r) (\<lambda>y.
       case align x y of (a, b, s) \<Rightarrow> Inr (serializeDecimal \<lparr>coefficient = a + b, scale = s\<rparr>)))"

definition subtractBillingDecimals :: "string \<Rightarrow> string \<Rightarrow> string outcome" where
  "subtractBillingDecimals l r =
     and_then (parseDecimal l) (\<lambda>x. and_then (parseDecimal r) (\<lambda>y.
       case align x y of (a, b, s) \<Rightarrow> Inr (serializeDecimal \<lparr>coefficient = a - b, scale = s\<rparr>)))"

text \<open>\<open>Number.isSafeInteger\<close> on the integers of the model.\<close>

definition is_safe_integer :: "int \<Rightarrow> bool" where
  "is_safe_integer n \<longleftrightarrow> \<bar>n\<bar> \<le> 9007199254740991"

definition multiplyBillingDecimalByBps :: "string \<Rightarrow> int \<Rightarrow> string outcome" where
  "multiplyBillingDecimalByBps v basisPoints =
     (if \<not> is_safe_integer basisPoints \<or> basisPoints < 0
      then fail_with INTERNAL 500 ''BILLING_MULTIPLIER_INVALID''
      else and_then (parseDecimal v) (\<lambda>d.
        Inr (serializeDecimal \<lparr>coefficient = coefficient d * basisPoints, scale = scale d + 4\<rparr>)))"

definition billingDecimalRatioBasisPoints :: "string \<Rightarrow> string \<Rightarrow> int option outcome" where
  "billingDecimalRatioBasisPoints part whole =
     and_then (parseDecimal part) (\<lambda>x. and_then (parseDecimal whole) (\<lambda>y.
       case align x y of (p, t, _) \<Rightarrow>
         Inr (if p < 0 \<or> t \<le> 0 \<or> p > t then None else Some ((p * 10000 + t div 2) div t))))"

fun sum_from :: "string \<Rightarrow> string list \<Rightarrow> string outcome" where
  "sum_from acc [] = Inr acc"
| "sum_from acc (v # vs) = and_then (addBillingDecimals acc v) (\<lambda>s. sum_from s vs)"

definition sumBillingDecimals :: "string list \<Rightarrow> string outcome" where
  "sumBillingDecimals values = sum_from ''0'' values"

subsection \<open>Currencies\<close>

definition ZERO_DECIMAL_CURRENCIES :: "string list" where
  "ZERO_DECIMAL_CURRENCIES = [''BIF'', ''CLP'', ''DJF'', ''GNF'', ''JPY'', ''KMF'', ''KRW'', ''PYG'',
     ''RWF'', ''UGX'', ''VND'', ''VUV'', ''XAF'', ''XOF'', ''XPF'']"

definition THREE_DECIMAL_CURRENCIES :: "string list" where
  "THREE_DECIMAL_CURRENCIES = [''BHD'', ''IQD'', ''JOD'', ''KWD'', ''LYD'', ''OMR'', ''TND'']"

definition currencyMinorDigits :: "string \<Rightarrow> nat" where
  "currencyMinorDigits currency =
     (if currency \<in> set ZERO_DECIMAL_CURRENCIES then 0
      else if currency \<in> set THREE_DECIMAL_CURRENCIES then 3 else 2)"

definition currency_pattern :: "string \<Rightarrow> bool" where
  "currency_pattern c \<longleftrightarrow> length c = 3 \<and> list_all is_upper c"

definition minorAmountToMajor :: "string \<Rightarrow> string \<Rightarrow> string outcome" where
  "minorAmountToMajor amountMinor currency =
     (if \<not> whole_ok amountMinor \<or> \<not> currency_pattern currency
      then fail_with INTERNAL 500 ''BILLING_MONEY_INVALID''
      else Inr (serializeDecimal \<lparr>coefficient = int (dec_nat amountMinor),
                  scale = currencyMinorDigits currency\<rparr>))"

definition majorAmountToMinorRounded :: "string \<Rightarrow> string \<Rightarrow> int outcome" where
  "majorAmountToMinorRounded amount currency =
     (if \<not> currency_pattern currency then fail_with INTERNAL 500 ''BILLING_MONEY_INVALID''
      else and_then (parseDecimal amount) (\<lambda>d.
        let minorScale = currencyMinorDigits currency
        in if scale d \<le> minorScale then Inr (coefficient d * 10 ^ (minorScale - scale d))
           else (let divisor = 10 ^ (scale d - minorScale);
                     absolute = \<bar>coefficient d\<bar>;
                     rounded = absolute div divisor +
                       (if (absolute mod divisor) * 2 \<ge> divisor then 1 else 0)
                 in Inr (if coefficient d < 0 then - rounded else rounded))))"

subsection \<open>Printing is a normal form\<close>

lemma strip_zeros_append_0 [simp]: "strip_zeros (s @ ''0'') = strip_zeros s"
  by (simp add: strip_zeros_def)

lemma strip_zeros_decomp: "\<exists>k. s = strip_zeros s @ replicate k (CHR ''0'')"
proof -
  have "rev s = takeWhile (\<lambda>c. c = CHR ''0'') (rev s) @ dropWhile (\<lambda>c. c = CHR ''0'') (rev s)"
    by simp
  then have "s = strip_zeros s @ rev (takeWhile (\<lambda>c. c = CHR ''0'') (rev s))"
    unfolding strip_zeros_def by (metis rev_append rev_rev_ident)
  moreover have "takeWhile (\<lambda>c. c = CHR ''0'') xs = replicate (length (takeWhile (\<lambda>c. c = CHR ''0'') xs)) (CHR ''0'')" for xs
    by (induction xs) auto
  then have "rev (takeWhile (\<lambda>c. c = CHR ''0'') (rev s)) =
      replicate (length (takeWhile (\<lambda>c. c = CHR ''0'') (rev s))) (CHR ''0'')"
    by (metis rev_replicate)
  ultimately show ?thesis by metis
qed

lemma serialize_shift:
  "serializeDecimal \<lparr>coefficient = c * 10, scale = Suc k\<rparr> = serializeDecimal \<lparr>coefficient = c, scale = k\<rparr>"
proof (cases "c = 0")
  case False
  let ?d = "digits_of (nat \<bar>c\<bar>)"
  have d10: "digits_of (nat \<bar>c * 10\<bar>) = ?d @ ''0''"
    using digits_of_times_10[of "nat \<bar>c\<bar>"] False by (simp add: abs_mult nat_mult_distrib)
  let ?p = "pad_start (k + 1) (CHR ''0'') ?d"
  have p10: "pad_start (Suc k + 1) (CHR ''0'') (?d @ ''0'') = ?p @ ''0''"
    by (simp add: pad_start_times_10)
  have len: "k < length ?p" by simp
  show ?thesis
  proof (cases k)
    case 0
    have "?p = ?d" using 0 length_digits_of by (simp add: pad_start_def)
    moreover have "max (Suc 0) (length ?d) = length ?d" using length_digits_of by simp
    ultimately show ?thesis using 0 False d10 p10
      by (simp add: serializeDecimal_def Let_def strip_zeros_def mult_less_0_iff)
  next
    case (Suc j)
    then show ?thesis using False d10 p10 len
      by (simp add: serializeDecimal_def Let_def mult_less_0_iff)
  qed
qed (simp add: serializeDecimal_def)

lemma serialize_shift_by:
  "serializeDecimal \<lparr>coefficient = c * 10 ^ n, scale = k + n\<rparr> = serializeDecimal \<lparr>coefficient = c, scale = k\<rparr>"
proof (induction n)
  case (Suc n)
  have "serializeDecimal \<lparr>coefficient = c * 10 ^ n * 10, scale = Suc (k + n)\<rparr>
      = serializeDecimal \<lparr>coefficient = c * 10 ^ n, scale = k + n\<rparr>" by (rule serialize_shift)
  moreover have "c * 10 ^ n * 10 = c * 10 ^ Suc n" by simp
  ultimately show ?case using Suc by simp
qed simp

lemma dec_value_eq_iff:
  assumes "scale a \<le> scale b"
  shows "dec_value a = dec_value b \<longleftrightarrow> coefficient b = coefficient a * 10 ^ (scale b - scale a)"
proof -
  have p: "(10::rat) ^ scale b = 10 ^ scale a * 10 ^ (scale b - scale a)"
    using assms by (simp flip: power_add)
  have "dec_value a = dec_value b \<longleftrightarrow> (of_int (coefficient b) :: rat) = of_int (coefficient a * 10 ^ (scale b - scale a))"
    unfolding dec_value_def p by (simp add: field_simps) (metis mult.commute)
  then show ?thesis by (simp only: of_int_eq_iff)
qed

lemma dec_value_shift:
  "scale d = n + z \<Longrightarrow> c * 10 ^ z = coefficient d \<Longrightarrow> dec_value \<lparr>coefficient = c, scale = n\<rparr> = dec_value d"
  using dec_value_eq_iff[of "\<lparr>coefficient = c, scale = n\<rparr>" d] by simp

lemma serialize_value_le:
  assumes "scale a \<le> scale b" and "dec_value a = dec_value b"
  shows "serializeDecimal b = serializeDecimal a"
proof -
  have "b = \<lparr>coefficient = coefficient a * 10 ^ (scale b - scale a), scale = scale a + (scale b - scale a)\<rparr>"
    using assms dec_value_eq_iff[OF assms(1)] by (cases b) simp
  then have "serializeDecimal b = serializeDecimal \<lparr>coefficient = coefficient a, scale = scale a\<rparr>"
    using serialize_shift_by by metis
  then show ?thesis by (cases a) simp
qed

lemma serialize_value: "dec_value a = dec_value b \<Longrightarrow> serializeDecimal a = serializeDecimal b"
  by (metis nle_le serialize_value_le)

subsection \<open>Parsing what was printed\<close>

lemma no_dot: "all_digits w \<Longrightarrow> CHR ''.'' \<notin> set w"
  by (auto simp: all_digits_def list_all_iff)

lemma split_printed:
  assumes "all_digits w" and "all_digits f"
  shows "split_on (CHR ''.'') (w @ (if f \<noteq> [] then CHR ''.'' # f else [])) = (if f \<noteq> [] then [w, f] else [w])"
  using assms by (simp add: split_on_append split_on_no_sep no_dot)

lemma whole_ok_digits: "whole_ok w \<Longrightarrow> all_digits w \<and> w \<noteq> []"
  by (auto simp: whole_ok_def)

lemma whole_ok_no_sign: "whole_ok w \<Longrightarrow> \<not> is_negative (w @ t)"
  by (cases w) (auto simp: whole_ok_def is_negative_def)

lemma parse_printed:
  assumes w: "whole_ok w" and f: "all_digits f"
  shows "parseDecimal ((if neg then ''-'' else []) @ w @ (if f \<noteq> [] then CHR ''.'' # f else []))
     = Inr \<lparr>coefficient = (if neg then - int (dec_nat (w @ f)) else int (dec_nat (w @ f))), scale = length f\<rparr>"
proof -
  let ?u = "w @ (if f \<noteq> [] then CHR ''.'' # f else [])"
  let ?s = "(if neg then ''-'' else []) @ ?u"
  have neg: "is_negative ?s = neg"
    using whole_ok_no_sign[OF w] by (simp add: is_negative_def)
  have u: "unsigned ?s = ?u" using whole_ok_no_sign[OF w] by (simp add: unsigned_def is_negative_def)
  have split: "split_on (CHR ''.'') ?u = (if f \<noteq> [] then [w, f] else [w])"
    by (rule split_printed[OF _ f]) (use whole_ok_digits[OF w] in simp)
  have "DECIMAL_PATTERN ?s"
    unfolding DECIMAL_PATTERN_def u unsigned_pattern_def split using w f by simp
  moreover have "split_fraction ?u = (w, f)" unfolding split_fraction_def split by simp
  ultimately show ?thesis unfolding parseDecimal_def neg u by (simp add: Let_def)
qed

lemma whole_of_padded:
  assumes "0 < n" and "k < length p" and p: "p = pad_start (k + 1) (CHR ''0'') (digits_of n)"
  shows "whole_ok (take (length p - k) p)"
proof (cases "length (digits_of n) \<le> k + 1")
  case True
  then have "length p = k + 1" by (simp add: p)
  then have "take (length p - k) p = [hd p]" using assms(2) by (cases p) simp_all
  moreover have "is_digit (hd p)" 
    using all_digits_pad[OF all_digits_of, of "k + 1" n] assms(2) unfolding p[symmetric]
    by (cases p) simp_all
  ultimately show ?thesis by (auto simp: whole_ok_def)
next
  case False
  then have p': "p = digits_of n" by (simp add: p pad_start_def)
  then have "hd (take (length p - k) p) \<noteq> CHR ''0''" using digits_of_hd[OF assms(1)] assms(2)
    by (metis hd_take zero_less_diff)
  moreover have "all_digits (take (length p - k) p)"
    using all_digits_of[of n] unfolding p' all_digits_def by (metis append_take_drop_id list_all_append)
  ultimately show ?thesis using assms(2) by (auto simp: whole_ok_def)
qed

lemma parse_serialize:
  "\<exists>d'. parseDecimal (serializeDecimal d) = Inr d' \<and> dec_value d' = dec_value d"
proof (cases "coefficient d = 0")
  case True
  have "parseDecimal ''0'' = Inr \<lparr>coefficient = 0, scale = 0\<rparr>"
    using parse_printed[of "''0''" "[]" False] by (simp add: whole_ok_def)
  with True show ?thesis by (simp add: serializeDecimal_def dec_value_def)
next
  case False
  let ?n = "nat \<bar>coefficient d\<bar>" and ?k = "scale d" and ?neg = "coefficient d < 0"
  let ?p = "pad_start (?k + 1) (CHR ''0'') (digits_of ?n)"
  let ?w = "take (length ?p - ?k) ?p" and ?f = "drop (length ?p - ?k) ?p"
  have len: "?k < length ?p" and lf: "length ?f = ?k" by simp_all
  have w: "whole_ok ?w" by (rule whole_of_padded[OF _ len refl]) (use False in simp)
  have "all_digits (?w @ ?f)" unfolding append_take_drop_id by simp
  then have f: "all_digits ?f" by (simp only: all_digits_append)
  obtain z where z: "?f = strip_zeros ?f @ replicate z (CHR ''0'')" using strip_zeros_decomp by blast
  have sf: "all_digits (strip_zeros ?f)" using f z by (metis all_digits_append)
  have ser: "serializeDecimal d = (if ?neg then ''-'' else []) @ ?w @
      (if strip_zeros ?f \<noteq> [] then CHR ''.'' # strip_zeros ?f else [])"
  proof (cases "?k = 0")
    case True
    then have "?p = digits_of ?n" using length_digits_of by (simp add: pad_start_def)
    with True False show ?thesis by (simp add: serializeDecimal_def Let_def strip_zeros_def)
  qed (use False in \<open>simp add: serializeDecimal_def Let_def\<close>)
  have n: "dec_nat (?w @ strip_zeros ?f) * 10 ^ z = ?n"
  proof -
    have "dec_nat ((?w @ strip_zeros ?f) @ replicate z (CHR ''0'')) = ?n"
      by (simp only: append_assoc z[symmetric] append_take_drop_id dec_nat_pad dec_nat_digits_of)
    then show ?thesis unfolding dec_nat_append[of "?w @ strip_zeros ?f"] by simp
  qed
  have k: "?k = length (strip_zeros ?f) + z" using z lf by (metis length_append length_replicate)
  let ?m = "dec_nat (?w @ strip_zeros ?f)"
  have coeff: "(if ?neg then - int ?m else int ?m) * 10 ^ z = coefficient d"
  proof -
    have "int (?m * 10 ^ z) = \<bar>coefficient d\<bar>" unfolding n by simp
    then have "int ?m * 10 ^ z = \<bar>coefficient d\<bar>" by (simp only: of_nat_mult of_nat_power of_nat_numeral)
    then show ?thesis by (cases ?neg) simp_all
  qed
  let ?d = "\<lparr>coefficient = (if ?neg then - int ?m else int ?m), scale = length (strip_zeros ?f)\<rparr>"
  have "dec_value ?d = dec_value d"
    by (rule dec_value_shift[OF k coeff])
  then show ?thesis unfolding ser parse_printed[OF w sf] by blast
qed

subsection \<open>The meaning of an amount, and exact addition as an interface\<close>

definition amount_value :: "string \<Rightarrow> rat option" where
  "amount_value s = (case parseDecimal s of Inl e \<Rightarrow> None | Inr d \<Rightarrow> Some (dec_value d))"

lemma amount_value_Some: "amount_value s = Some x \<longleftrightarrow> (\<exists>d. parseDecimal s = Inr d \<and> dec_value d = x)"
  by (auto simp: amount_value_def split: sum.splits)

lemma amount_value_None: "amount_value s = None \<longleftrightarrow> parseDecimal s = fail_with INTERNAL 502 ''BILLING_DECIMAL_INVALID''"
  by (auto simp: amount_value_def parseDecimal_def Let_def split: sum.splits prod.splits if_splits)

lemma amount_value_serialize [simp]: "amount_value (serializeDecimal d) = Some (dec_value d)"
  using parse_serialize[of d] by (auto simp: amount_value_Some)

lemma amount_value_0 [simp]: "amount_value ''0'' = Some 0"
  using amount_value_serialize[of "\<lparr>coefficient = 0, scale = 0\<rparr>"]
  by (simp add: serializeDecimal_def dec_value_def)

lemma align_value:
  assumes "align x y = (a, b, s)"
  shows "dec_value \<lparr>coefficient = a, scale = s\<rparr> = dec_value x" "dec_value \<lparr>coefficient = b, scale = s\<rparr> = dec_value y"
  using assms dec_value_eq_iff[of x "\<lparr>coefficient = a, scale = s\<rparr>"]
    dec_value_eq_iff[of y "\<lparr>coefficient = b, scale = s\<rparr>"]
  by (auto simp: align_def Let_def)

lemma dec_value_add:
  "dec_value \<lparr>coefficient = a + b, scale = s\<rparr> = dec_value \<lparr>coefficient = a, scale = s\<rparr> + dec_value \<lparr>coefficient = b, scale = s\<rparr>"
  "dec_value \<lparr>coefficient = a - b, scale = s\<rparr> = dec_value \<lparr>coefficient = a, scale = s\<rparr> - dec_value \<lparr>coefficient = b, scale = s\<rparr>"
  by (simp_all add: dec_value_def add_divide_distrib diff_divide_distrib)

lemma add_exact:
  assumes "amount_value l = Some x" and "amount_value r = Some y"
  shows "\<exists>s. addBillingDecimals l r = Inr s \<and> amount_value s = Some (x + y)"
    and "\<exists>s. subtractBillingDecimals l r = Inr s \<and> amount_value s = Some (x - y)"
proof -
  from assms obtain c d where cd: "parseDecimal l = Inr c" "dec_value c = x" "parseDecimal r = Inr d" "dec_value d = y"
    by (auto simp: amount_value_Some)
  obtain a b s where al: "align c d = (a, b, s)" by (cases "align c d")
  note v = align_value[OF al]
  show "\<exists>s. addBillingDecimals l r = Inr s \<and> amount_value s = Some (x + y)"
    and "\<exists>s. subtractBillingDecimals l r = Inr s \<and> amount_value s = Some (x - y)"
    using cd al v by (simp_all add: addBillingDecimals_def subtractBillingDecimals_def dec_value_add)
qed

lemma multiply_exact:
  assumes "amount_value v = Some x" and "0 \<le> bps" and "is_safe_integer bps"
  shows "\<exists>s. multiplyBillingDecimalByBps v bps = Inr s \<and> amount_value s = Some (x * of_int bps / 10000)"
proof -
  from assms(1) obtain d where d: "parseDecimal v = Inr d" "dec_value d = x" by (auto simp: amount_value_Some)
  have "dec_value \<lparr>coefficient = coefficient d * bps, scale = scale d + 4\<rparr> = x * of_int bps / 10000"
    unfolding d(2)[symmetric] by (simp add: dec_value_def power_add)
  with d assms(2,3) show ?thesis by (simp add: multiplyBillingDecimalByBps_def)
qed

text \<open>Evaluation of the arithmetic on literal strings.\<close>

lemmas money_eval = addBillingDecimals_def parseDecimal_def DECIMAL_PATTERN_def unsigned_def
  is_negative_def unsigned_pattern_def whole_ok_def is_digit_def split_fraction_def Let_def
  dec_nat_def digit_val_def align_def serializeDecimal_def digits_of.simps pad_start_def
  strip_zeros_def digit_chars

text \<open>What the rating services rely on: a zero and an addition that is exact on the amounts
  that denote a number and fails on the others.\<close>

locale exact_addition =
  fixes denote :: "'d \<Rightarrow> rat option" and zero :: 'd and add :: "'d \<Rightarrow> 'd \<Rightarrow> 'e + 'd"
  assumes denote_zero: "denote zero = Some 0"
    and denote_add: "denote a = Some x \<Longrightarrow> denote b = Some y \<Longrightarrow> \<exists>c. add a b = Inr c \<and> denote c = Some (x + y)"
    and add_rejects: "denote a = None \<or> denote b = None \<Longrightarrow> isl (add a b)"
begin

definition val :: "'d \<Rightarrow> rat" where
  "val a = the (denote a)"

definition valid :: "'d \<Rightarrow> bool" where
  "valid a \<longleftrightarrow> denote a \<noteq> None"

lemma zero_valid [simp]: "valid zero" "val zero = 0"
  by (simp_all add: valid_def val_def denote_zero)

lemma add_Inr: "add a b = Inr c \<Longrightarrow> valid a \<and> valid b \<and> valid c \<and> val c = val a + val b"
  using denote_add[of a _ b] add_rejects[of a b]
  by (cases "denote a"; cases "denote b") (auto simp: valid_def val_def)

lemma add_valid: "valid a \<Longrightarrow> valid b \<Longrightarrow> \<exists>c. add a b = Inr c"
  using denote_add unfolding valid_def by blast

fun running :: "'d \<Rightarrow> 'd list \<Rightarrow> 'e + 'd" where
  "running acc [] = Inr acc"
| "running acc (v # vs) = and_then (add acc v) (\<lambda>s. running s vs)"

lemma running_value:
  "running acc vs = Inr s \<Longrightarrow> valid acc \<Longrightarrow> valid s \<and> val s = val acc + sum_list (map val vs) \<and> list_all valid vs"
  by (induction vs arbitrary: acc) (auto simp: and_then_Inr_iff dest!: add_Inr)

lemma running_total: "valid acc \<Longrightarrow> list_all valid vs \<Longrightarrow> \<exists>s. running acc vs = Inr s"
proof (induction vs arbitrary: acc)
  case (Cons v vs)
  then obtain c where c: "add acc v = Inr c" using add_valid by fastforce
  with Cons.IH[of c] Cons.prems add_Inr[OF c] show ?case by simp
qed simp

end

interpretation billing_decimals: exact_addition amount_value "''0''" addBillingDecimals
proof (unfold_locales, goal_cases)
  case 1 show ?case by simp
next
  case (2 a x b y) then show ?case by (rule add_exact(1))
next
  case (3 a b) then show ?case
    by (cases "parseDecimal a") (auto simp: addBillingDecimals_def amount_value_def split: sum.splits)
qed

lemma sum_from_running: "sum_from acc vs = billing_decimals.running acc vs"
  by (induction vs arbitrary: acc) simp_all

subsection \<open>Properties\<close>

text \<open>
  printing is a normal form of exact amounts. A printed decimal parses back to the same
  rational number, and two decimals print to the same string exactly when they are the same
  number, so comparing printed amounts compares money.
\<close>

theorem serialize_normal_form:
  "(\<exists>d'. parseDecimal (serializeDecimal d) = Inr d' \<and> dec_value d' = dec_value d) \<and>
   (serializeDecimal a = serializeDecimal b \<longleftrightarrow> dec_value a = dec_value b)"
  using parse_serialize serialize_value by (metis sum.inject(2))

text \<open>What a result has to be: the printed form of the exact number, or the error for a malformed
  amount when there is no number.\<close>

definition yields :: "string outcome \<Rightarrow> rat option \<Rightarrow> bool" where
  "yields res v =
     (case v of
        None \<Rightarrow> res = fail_with INTERNAL 502 ''BILLING_DECIMAL_INVALID''
      | Some x \<Rightarrow> (\<exists>s. res = Inr s \<and> amount_value s = Some x))"

definition both :: "(rat \<Rightarrow> rat \<Rightarrow> rat) \<Rightarrow> rat option \<Rightarrow> rat option \<Rightarrow> rat option" where
  "both f a b = Option.bind a (\<lambda>x. map_option (f x) b)"

fun total_value :: "string list \<Rightarrow> rat option" where
  "total_value [] = Some 0"
| "total_value (v # vs) = both (+) (amount_value v) (total_value vs)"

lemma malformed_operand:
  assumes "amount_value l = None \<or> amount_value r = None"
  shows "addBillingDecimals l r = fail_with INTERNAL 502 ''BILLING_DECIMAL_INVALID''"
    and "subtractBillingDecimals l r = fail_with INTERNAL 502 ''BILLING_DECIMAL_INVALID''"
proof -
  have *: "and_then (parseDecimal l) (\<lambda>x. and_then (parseDecimal r) (k x)) =
      fail_with INTERNAL 502 ''BILLING_DECIMAL_INVALID''" for k :: "decimal \<Rightarrow> decimal \<Rightarrow> string outcome"
  proof (cases "amount_value l")
    case None
    then show ?thesis by (simp add: amount_value_None)
  next
    case (Some x)
    with assms have "parseDecimal r = fail_with INTERNAL 502 ''BILLING_DECIMAL_INVALID''"
      by (simp add: amount_value_None)
    moreover from Some obtain d where "parseDecimal l = Inr d" by (auto simp: amount_value_Some)
    ultimately show ?thesis by simp
  qed
  show "addBillingDecimals l r = fail_with INTERNAL 502 ''BILLING_DECIMAL_INVALID''"
    "subtractBillingDecimals l r = fail_with INTERNAL 502 ''BILLING_DECIMAL_INVALID''"
    by (simp_all only: addBillingDecimals_def subtractBillingDecimals_def *)
qed

lemma add_yields: "yields (addBillingDecimals l r) (both (+) (amount_value l) (amount_value r))"
  using malformed_operand(1)[of l r] add_exact(1)[of l _ r]
  by (cases "amount_value l"; cases "amount_value r") (auto simp: yields_def both_def)

lemma subtract_yields: "yields (subtractBillingDecimals l r) (both (-) (amount_value l) (amount_value r))"
  using malformed_operand(2)[of l r] add_exact(2)[of l _ r]
  by (cases "amount_value l"; cases "amount_value r") (auto simp: yields_def both_def)

lemma sum_from_yields:
  "amount_value acc = Some a \<Longrightarrow> yields (sum_from acc vs) (both (+) (Some a) (total_value vs))"
proof (induction vs arbitrary: acc a)
  case (Cons v vs)
  show ?case
  proof (cases "amount_value v")
    case None
    then show ?thesis by (simp add: malformed_operand yields_def both_def)
  next
    case (Some x)
    from add_exact(1)[OF Cons.prems this] obtain s where
      s: "addBillingDecimals acc v = Inr s" "amount_value s = Some (a + x)" by blast
    have "both (+) (Some (a + x)) t = both (+) (Some a) (both (+) (Some x) t)" for t
      by (cases t) (simp_all add: both_def add.assoc)
    with Cons.IH[OF s(2)] show ?thesis by (simp add: s(1) Some)
  qed
qed (simp add: yields_def both_def)

text \<open>
  C35: the billing arithmetic is total and exact: adding and subtracting give the printed exact
  rational result when both operands are well-formed amounts and the 502 error when either is not;
  multiplying by basis points refuses a multiplier that is negative or no safe integer, then does
  the same for its one operand; and summing a list gives the exact sum of its amounts, or the
  502 error when any of them is malformed.
\<close>

theorem billing_arithmetic_exact:
  "yields (addBillingDecimals l r) (both (+) (amount_value l) (amount_value r)) \<and>
   yields (subtractBillingDecimals l r) (both (-) (amount_value l) (amount_value r)) \<and>
   (if 0 \<le> bps \<and> bps \<le> 9007199254740991
    then yields (multiplyBillingDecimalByBps l bps) (map_option (\<lambda>x. x * of_int bps / 10000) (amount_value l))
    else multiplyBillingDecimalByBps l bps = fail_with INTERNAL 500 ''BILLING_MULTIPLIER_INVALID'') \<and>
   yields (sumBillingDecimals vs) (total_value vs)"
proof (intro conjI)
  have safe: "(\<not> is_safe_integer bps \<or> bps < 0) = (\<not> (0 \<le> bps \<and> bps \<le> 9007199254740991))"
    by (auto simp: is_safe_integer_def)
  show "if 0 \<le> bps \<and> bps \<le> 9007199254740991
    then yields (multiplyBillingDecimalByBps l bps) (map_option (\<lambda>x. x * of_int bps / 10000) (amount_value l))
    else multiplyBillingDecimalByBps l bps = fail_with INTERNAL 500 ''BILLING_MULTIPLIER_INVALID''"
  proof (cases "0 \<le> bps \<and> bps \<le> 9007199254740991")
    case True
    then have "is_safe_integer bps" by (simp add: is_safe_integer_def)
    show ?thesis
    proof (cases "amount_value l")
      case None
      then have "parseDecimal l = fail_with INTERNAL 502 ''BILLING_DECIMAL_INVALID''"
        by (simp add: amount_value_None)
      with True safe None show ?thesis by (simp add: yields_def multiplyBillingDecimalByBps_def)
    next
      case (Some x)
      with multiply_exact[OF Some _ \<open>is_safe_integer bps\<close>] True show ?thesis by (simp add: yields_def)
    qed
  next
    case False
    then show ?thesis unfolding multiplyBillingDecimalByBps_def safe by (simp only: if_True if_False not_False_eq_True)
  qed
  have "amount_value ''0'' = Some 0" by simp
  from sum_from_yields[OF this, of vs] show "yields (sumBillingDecimals vs) (total_value vs)"
    by (cases "total_value vs") (simp_all add: sumBillingDecimals_def both_def)
qed (fact add_yields subtract_yields)+

theorem billing_arithmetic_exact_witness:
  "\<exists>s. addBillingDecimals ''0.1'' ''0.2'' = Inr s \<and> amount_value s = Some (1/10 + 2/10)"
proof -
  have "amount_value ''0.1'' = Some (1/10)" "amount_value ''0.2'' = Some (2/10)"
    by (simp_all add: amount_value_def parseDecimal_def DECIMAL_PATTERN_def unsigned_def is_negative_def
        unsigned_pattern_def whole_ok_def is_digit_def split_fraction_def dec_value_def Let_def dec_nat_def
        digit_val_def)
  with billing_arithmetic_exact[of "''0.1''" "''0.2''"] show ?thesis by (simp add: yields_def both_def)
qed

subsection \<open>Rounding to minor units\<close>

text \<open>The nearest integer, ties away from zero.\<close>

definition rounds_half_away :: "rat \<Rightarrow> int \<Rightarrow> bool" where
  "rounds_half_away x n \<longleftrightarrow>
     \<bar>of_int n - x\<bar> \<le> 1 / 2 \<and> (\<bar>of_int n - x\<bar> = 1 / 2 \<longrightarrow> \<bar>x\<bar> < \<bar>of_int n\<bar>)"

lemma rounds_half_away_not_less:
  assumes "rounds_half_away x m" and "rounds_half_away x n"
  shows "\<not> m < n"
proof
  assume "m < n"
  then have "(of_int (m + 1) :: rat) \<le> of_int n" by (simp only: of_int_le_iff)
  then have mn: "(of_int m :: rat) + 1 \<le> of_int n" by simp
  from assms have "\<bar>of_int m - x\<bar> \<le> 1 / 2" "\<bar>of_int n - x\<bar> \<le> 1 / 2"
    by (simp_all add: rounds_half_away_def)
  with mn have x: "x = of_int m + 1 / 2" "(of_int n :: rat) = of_int m + 1" by linarith+
  then have "\<bar>of_int m - x\<bar> = 1 / 2" "\<bar>of_int n - x\<bar> = 1 / 2" by simp_all
  with assms have less: "\<bar>x\<bar> < \<bar>of_int m\<bar>" "\<bar>x\<bar> < \<bar>of_int n\<bar>" by (simp_all add: rounds_half_away_def)
  show False
  proof (cases "0 \<le> m")
    case True
    then have "(0::rat) \<le> of_int m" by simp
    with less(1) x(1) show ?thesis by linarith
  next
    case False
    then have "(of_int m :: rat) \<le> of_int (-1)" by (simp only: of_int_le_iff)
    then have "(of_int m :: rat) \<le> -1" by simp
    with less(2) x show ?thesis by linarith
  qed
qed

lemma rounds_half_away_unique: "rounds_half_away x m \<Longrightarrow> rounds_half_away x n \<Longrightarrow> m = n"
  using rounds_half_away_not_less by (meson linorder_neqE)

lemma rounds_half_away_minus: "rounds_half_away x n \<Longrightarrow> rounds_half_away (- x) (- n)"
  by (auto simp: rounds_half_away_def abs_minus_commute)

lemma half_up:
  fixes a D :: int
  assumes "0 < D" and "0 \<le> a"
  defines "n \<equiv> a div D + (if (a mod D) * 2 \<ge> D then 1 else 0)"
  shows "rounds_half_away (of_int a / of_int D) n"
proof -
  let ?q = "a div D" and ?r = "a mod D"
  have a: "a = ?q * D + ?r" by simp
  have r: "0 \<le> ?r" "?r < D" using assms(1) by auto
  have D: "(0::rat) < of_int D" using assms(1) by simp
  have x: "of_int a / of_int D = of_int ?q + (of_int ?r / of_int D :: rat)"
  proof -
    have "(of_int a :: rat) = of_int (?q * D + ?r)" using a by (rule arg_cong)
    also have "\<dots> = of_int ?q * of_int D + of_int ?r" by (simp only: of_int_add of_int_mult)
    finally show ?thesis using D by (simp add: add_divide_distrib)
  qed
  let ?f = "of_int ?r / of_int D :: rat"
  have f: "0 \<le> ?f" "?f < 1" using r D by (simp_all add: divide_simps)
  have half: "?r * 2 \<ge> D \<longleftrightarrow> 1 / 2 \<le> ?f"
  proof -
    have "1 / 2 \<le> ?f \<longleftrightarrow> (of_int D :: rat) \<le> of_int (?r * 2)" using D by (simp add: field_simps)
    then show ?thesis by (simp only: of_int_le_iff)
  qed
  have q: "(0::rat) \<le> of_int ?q" using assms by (simp add: pos_imp_zdiv_nonneg_iff)
  show ?thesis
    using f q half unfolding n_def x rounds_half_away_def by (auto simp: abs_if)
qed

lemma major_minor_value:
  assumes "majorAmountToMinorRounded amount currency = Inr n" and "amount_value amount = Some x"
  shows "rounds_half_away (x * 10 ^ currencyMinorDigits currency) n"
proof -
  from assms(2) obtain d where d: "parseDecimal amount = Inr d" "dec_value d = x" by (auto simp: amount_value_Some)
  let ?m = "currencyMinorDigits currency"
  show ?thesis
  proof (cases "scale d \<le> ?m")
    case True
    then have n: "n = coefficient d * 10 ^ (?m - scale d)"
      using assms(1) d(1) by (simp add: majorAmountToMinorRounded_def Let_def split: if_splits)
    have "(10::rat) ^ ?m = 10 ^ scale d * 10 ^ (?m - scale d)" using True by (simp flip: power_add)
    then have "x * 10 ^ ?m = of_int n" unfolding d(2)[symmetric] n by (simp add: dec_value_def)
    then show ?thesis by (simp add: rounds_half_away_def)
  next
    case False
    let ?D = "10 ^ (scale d - ?m) :: int" and ?a = "\<bar>coefficient d\<bar>"
    let ?r = "?a div ?D + (if (?a mod ?D) * 2 \<ge> ?D then 1 else 0)"
    have n: "n = (if coefficient d < 0 then - ?r else ?r)"
      using assms(1) d(1) False by (simp add: majorAmountToMinorRounded_def Let_def split: if_splits)
    have "(10::rat) ^ scale d = 10 ^ ?m * 10 ^ (scale d - ?m)" using False by (simp flip: power_add)
    then have x: "x * 10 ^ ?m = of_int (coefficient d) / of_int ?D" unfolding d(2)[symmetric] by (simp add: dec_value_def)
    have "rounds_half_away (of_int ?a / of_int ?D) ?r" by (rule half_up) simp_all
    then show ?thesis
      using rounds_half_away_minus[of "of_int ?a / of_int ?D" ?r] unfolding x n by (cases "coefficient d < 0") simp_all
  qed
qed

text \<open>
  the final currency boundary rounds correctly and only once. On a well-formed currency and
  amount the result is the integer nearest to the amount in minor units, halves away from zero
  (so a credit is the exact negative of the charge); and converting an integer number of minor
  units to a major amount and back returns it unchanged.
\<close>

theorem minor_rounding_correct:
  assumes "currency_pattern currency" and "amount_value amount = Some x" and "whole_ok m"
  shows "(\<exists>n. majorAmountToMinorRounded amount currency = Inr n \<and>
            rounds_half_away (x * 10 ^ currencyMinorDigits currency) n \<and>
            (\<forall>credit k. amount_value credit = Some (- x) \<longrightarrow>
               majorAmountToMinorRounded credit currency = Inr k \<longrightarrow> k = - n)) \<and>
         (\<exists>s. minorAmountToMajor m currency = Inr s \<and>
            majorAmountToMinorRounded s currency = Inr (int (dec_nat m)))"
proof -
  have total: "\<exists>n. majorAmountToMinorRounded a currency = Inr n" if "amount_value a = Some y" for a y
    using assms(1) that by (auto simp: majorAmountToMinorRounded_def amount_value_Some Let_def)
  obtain n where n: "majorAmountToMinorRounded amount currency = Inr n" using total[OF assms(2)] ..
  have round: "rounds_half_away (x * 10 ^ currencyMinorDigits currency) n"
    by (rule major_minor_value[OF n assms(2)])
  have neg: "k = - n" if "amount_value credit = Some (- x)" "majorAmountToMinorRounded credit currency = Inr k"
    for credit k
    using rounds_half_away_unique[OF major_minor_value[OF that(2,1)], of "- n"] rounds_half_away_minus[OF round]
    by simp
  let ?s = "serializeDecimal \<lparr>coefficient = int (dec_nat m), scale = currencyMinorDigits currency\<rparr>"
  obtain k where k: "majorAmountToMinorRounded ?s currency = Inr k" using total[OF amount_value_serialize] ..
  have "rounds_half_away (of_int (int (dec_nat m))) k"
    using major_minor_value[OF k amount_value_serialize] by (simp add: dec_value_def)
  then have "k = int (dec_nat m)"
    by (rule rounds_half_away_unique) (simp add: rounds_half_away_def)
  with k n round neg assms(1,3) show ?thesis by (auto simp: minorAmountToMajor_def)
qed

theorem minor_rounding_correct_witness:
  "\<exists>n. majorAmountToMinorRounded ''0.125'' ''USD'' = Inr n \<and> n = 13"
proof -
  have a: "amount_value ''0.125'' = Some (125/1000)"
    by (simp add: amount_value_def parseDecimal_def DECIMAL_PATTERN_def unsigned_def is_negative_def
        unsigned_pattern_def whole_ok_def is_digit_def split_fraction_def dec_value_def Let_def dec_nat_def
        digit_val_def)
  have c: "currency_pattern ''USD''" by (simp add: currency_pattern_def is_upper_def)
  have d: "currencyMinorDigits ''USD'' = 2"
    by (simp add: currencyMinorDigits_def ZERO_DECIMAL_CURRENCIES_def THREE_DECIMAL_CURRENCIES_def)
  obtain n where n: "majorAmountToMinorRounded ''0.125'' ''USD'' = Inr n" "rounds_half_away (125/1000 * 10^2) n"
    using minor_rounding_correct[OF c a, of "''0''"] d by (auto simp: whole_ok_def)
  have "rounds_half_away (125/1000 * 10^2) 13" by (simp add: rounds_half_away_def abs_if)
  with n rounds_half_away_unique show ?thesis by blast
qed

end
