(* ===== verification/Billing_Rating.thy ===== *)
theory Billing_Rating
  imports Billing_Money
begin

section \<open>Rating metered usage\<close>

text \<open>
  \<^verbatim>\<open>billing-rating.service.ts\<close> (the customer price of a provider cost, per caller
  and in total) and the quantity conversion of
  \<^verbatim>\<open>billing-stripe-usage-validation.service.ts\<close>. A JavaScript \<open>Map\<close> keeps the order of
  first insertion: an association list updated in place (\<^const>\<open>AList.update\<close>).
  \<open>String.prototype.localeCompare\<close> depends on the locale data of the runtime, so it is an
  argument (\<open>localeCompare\<close>).
\<close>

subsection \<open>Lines, terms, prices\<close>

record metering_line =
  ml_selectedProviderCost :: "string option"
  ml_currency :: "string option"
  ml_billingProduct :: string
  ml_callerProduct :: "string option"
  ml_userId :: "string option"

datatype rating_mode = Standard | Free | At_Cost | Custom

record rating_terms =
  term_mode :: rating_mode
  term_markupBps :: int

record rated_money =
  rm_base :: string
  rm_markup :: string
  rm_total :: string
  rm_currency :: string

record rated_caller = rated_money +
  rc_billingProduct :: string
  rc_callerProduct :: string

datatype missing_cost = Reject | Skip

definition assertTerms :: "rating_terms \<Rightarrow> unit outcome" where
  "assertTerms t =
     (if \<not> is_safe_integer (term_markupBps t) \<or> term_markupBps t < 0 \<or>
         ((term_mode t = Free \<or> term_mode t = At_Cost) \<and> term_markupBps t \<noteq> 0)
      then fail_with INTERNAL 500 ''BILLING_RATING_TERMS_INVALID'' else Inr ())"

definition usagePriceMultiplierBps :: "rating_terms \<Rightarrow> int outcome" where
  "usagePriceMultiplierBps t =
     and_then (assertTerms t) (\<lambda>_. Inr (if term_mode t = Free then 0 else 10000 + term_markupBps t))"

definition rateProviderCost :: "string \<Rightarrow> string \<Rightarrow> rating_terms \<Rightarrow> rated_money outcome" where
  "rateProviderCost amount currency t =
     and_then (usagePriceMultiplierBps t) (\<lambda>multiplier.
     and_then (multiplyBillingDecimalByBps amount multiplier) (\<lambda>total.
     and_then (if term_mode t = Free then Inr ''0'' else subtractBillingDecimals total amount) (\<lambda>markup.
       Inr \<lparr>rm_base = amount, rm_markup = markup, rm_total = total, rm_currency = currency\<rparr>)))"

definition selectedCost ::
  "metering_line \<Rightarrow> string \<Rightarrow> string \<Rightarrow> missing_cost \<Rightarrow> string option outcome" where
  "selectedCost line product currency missing =
     (if ml_billingProduct line \<noteq> product then fail_with INTERNAL 502 ''LEDGER_METERING_PRODUCT_MISMATCH''
      else case ml_selectedProviderCost line of
        None \<Rightarrow>
          if ml_currency line = None
          then (if missing = Skip then Inr None else fail_with INTERNAL 502 ''LEDGER_METERING_COST_MISSING'')
          else fail_with INTERNAL 502 ''LEDGER_METERING_COST_MISMATCH''
      | Some cost \<Rightarrow>
          if ml_currency line \<noteq> Some currency then fail_with INTERNAL 502 ''LEDGER_METERING_COST_MISMATCH''
          else Inr (Some cost))"

definition caller_of :: "string \<Rightarrow> metering_line \<Rightarrow> string" where
  "caller_of unattributed line = (case ml_callerProduct line of Some c \<Rightarrow> c | None \<Rightarrow> unattributed)"

definition get_or_zero :: "(string \<times> string) list \<Rightarrow> string \<Rightarrow> string" where
  "get_or_zero m k = (case map_of m k of Some v \<Rightarrow> v | None \<Rightarrow> ''0'')"

fun base_by_caller ::
  "string \<Rightarrow> string \<Rightarrow> missing_cost \<Rightarrow> string \<Rightarrow> (string \<times> string) list \<Rightarrow> metering_line list \<Rightarrow>
     (string \<times> string) list outcome" where
  "base_by_caller product currency missing unattributed m [] = Inr m"
| "base_by_caller product currency missing unattributed m (line # lines) =
     and_then (selectedCost line product currency missing) (\<lambda>cost.
       case cost of
         None \<Rightarrow> base_by_caller product currency missing unattributed m lines
       | Some c \<Rightarrow>
           and_then (addBillingDecimals (get_or_zero m (caller_of unattributed line)) c) (\<lambda>s.
             base_by_caller product currency missing unattributed
               (AList.update (caller_of unattributed line) s m) lines))"

definition rateMeteringByCaller ::
  "(string \<Rightarrow> string \<Rightarrow> int) \<Rightarrow> metering_line list \<Rightarrow> string \<Rightarrow> string \<Rightarrow> rating_terms \<Rightarrow> string \<Rightarrow>
     missing_cost \<Rightarrow> rated_caller list outcome" where
  "rateMeteringByCaller localeCompare lines product currency t unattributed missing =
     and_then (base_by_caller product currency missing unattributed [] lines) (\<lambda>m.
       first_error (\<lambda>(caller, base).
           and_then (rateProviderCost base currency t) (\<lambda>r.
             Inr (rated_money.extend r \<lparr>rc_billingProduct = product, rc_callerProduct = caller\<rparr>)))
         (js_sort (\<lambda>l r. localeCompare (fst l) (fst r)) m))"

fun base_total ::
  "string \<Rightarrow> string \<Rightarrow> missing_cost \<Rightarrow> string \<Rightarrow> metering_line list \<Rightarrow> string outcome" where
  "base_total product currency missing base [] = Inr base"
| "base_total product currency missing base (line # lines) =
     and_then (selectedCost line product currency missing) (\<lambda>cost.
       case cost of
         None \<Rightarrow> base_total product currency missing base lines
       | Some c \<Rightarrow> and_then (addBillingDecimals base c) (\<lambda>s.
                     base_total product currency missing s lines))"

definition rateMeteringTotal ::
  "metering_line list \<Rightarrow> string \<Rightarrow> string \<Rightarrow> rating_terms \<Rightarrow> missing_cost \<Rightarrow> rated_money outcome" where
  "rateMeteringTotal lines product currency t missing =
     and_then (base_total product currency missing ''0'' lines) (\<lambda>base. rateProviderCost base currency t)"

subsection \<open>Grouping conserves the sum\<close>

context exact_addition
begin

definition table_sum :: "('k \<times> 'd) list \<Rightarrow> rat" where
  "table_sum m = sum_list (map (\<lambda>e. val (snd e)) m)"

definition table_ok :: "('k \<times> 'd) list \<Rightarrow> bool" where
  "table_ok m \<longleftrightarrow> distinct (map fst m) \<and> (\<forall>e \<in> set m. valid (snd e))"

lemma table_sum_update:
  "distinct (map fst m) \<Longrightarrow>
     table_sum (AList.update k s m) =
       table_sum m + val s - (case map_of m k of Some v \<Rightarrow> val v | None \<Rightarrow> 0)"
  unfolding table_sum_def by (rule alist_sum_update)

lemma table_add:
  assumes ok: "table_ok m" and get: "g = (case map_of m k of Some v \<Rightarrow> v | None \<Rightarrow> zero)"
    and add: "add g c = Inr s"
  shows "table_ok (AList.update k s m)" and "table_sum (AList.update k s m) = table_sum m + val c"
proof -
  note s = add_Inr[OF add]
  have "valid (snd e)" if "e \<in> set (AList.update k s m)" for e
    using set_alist_update[of m "fst e" "snd e" k s] that s ok by (force simp: table_ok_def)
  then show "table_ok (AList.update k s m)" using ok by (simp add: table_ok_def distinct_update)
  show "table_sum (AList.update k s m) = table_sum m + val c"
    using table_sum_update[of m k s] ok s get by (auto simp: table_ok_def split: option.splits)
qed

end

lemma base_by_caller_sum:
  assumes "base_by_caller product currency missing u m lines = Inr m'" and "billing_decimals.table_ok m"
    and "base_total product currency missing b lines = Inr b'" and "billing_decimals.valid b"
    and "billing_decimals.table_sum m = billing_decimals.val b"
  shows "billing_decimals.table_ok m' \<and> billing_decimals.valid b' \<and>
     billing_decimals.table_sum m' = billing_decimals.val b'"
  using assms
proof (induction lines arbitrary: m b)
  case (Cons line lines)
  then obtain cost where cost: "selectedCost line product currency missing = Inr cost"
    by (auto simp: and_then_Inr_iff)
  show ?case
  proof (cases cost)
    case None
    with Cons cost show ?thesis by simp
  next
    case (Some c)
    let ?k = "caller_of u line"
    from Cons.prems(1,3) cost Some obtain s s' where s: "addBillingDecimals (get_or_zero m ?k) c = Inr s"
        "base_by_caller product currency missing u (AList.update ?k s m) lines = Inr m'"
      and s': "addBillingDecimals b c = Inr s'" "base_total product currency missing s' lines = Inr b'"
      by (auto simp: and_then_Inr_iff)
    note t = billing_decimals.table_add[OF Cons.prems(2) get_or_zero_def s(1)]
    from billing_decimals.add_Inr[OF s'(1)] t Cons.prems(5)
    show ?thesis by (intro Cons.IH[OF s(2) _ s'(2)]) simp_all
  qed
qed simp

abbreviation money :: "string \<Rightarrow> rat" where
  "money \<equiv> billing_decimals.val"

lemma multiply_Inr:
  "multiplyBillingDecimalByBps v bps = Inr s \<Longrightarrow>
     billing_decimals.valid v \<and> billing_decimals.valid s \<and> money s = money v * of_int bps / 10000"
  using multiply_exact[of v _ bps]
  by (auto simp: multiplyBillingDecimalByBps_def and_then_Inr_iff billing_decimals.valid_def
      billing_decimals.val_def dest: multiply_exact split: if_splits)
    (auto simp: amount_value_def dec_value_def power_add)

lemma subtract_Inr:
  assumes "subtractBillingDecimals a b = Inr s"
  shows "money s = money a - money b"
proof -
  from assms obtain c d where "parseDecimal a = Inr c" "parseDecimal b = Inr d"
    by (auto simp: subtractBillingDecimals_def and_then_Inr_iff)
  then have "amount_value a = Some (dec_value c)" "amount_value b = Some (dec_value d)"
    by (simp_all add: amount_value_def)
  from add_exact(2)[OF this] assms \<open>amount_value a = _\<close> \<open>amount_value b = _\<close> show ?thesis
    by (simp add: billing_decimals.val_def)
qed

definition multiplier :: "rating_terms \<Rightarrow> int" where
  "multiplier t = (if term_mode t = Free then 0 else 10000 + term_markupBps t)"

lemma rate_value:
  assumes "rateProviderCost amount currency t = Inr r"
  shows "rm_base r = amount \<and> rm_currency r = currency \<and>
     money (rm_total r) = money amount * of_int (multiplier t) / 10000 \<and>
     money (rm_markup r) = (if term_mode t = Free then 0 else money (rm_total r) - money amount)"
proof -
  from assms obtain tot mk where tot: "multiplyBillingDecimalByBps amount (multiplier t) = Inr tot"
    and mk: "(if term_mode t = Free then Inr ''0'' else subtractBillingDecimals tot amount) = Inr mk"
    and r: "r = \<lparr>rm_base = amount, rm_markup = mk, rm_total = tot, rm_currency = currency\<rparr>"
    by (auto simp: rateProviderCost_def usagePriceMultiplierBps_def and_then_Inr_iff multiplier_def)
  from mk have "money mk = (if term_mode t = Free then 0 else money tot - money amount)"
    by (auto dest: subtract_Inr split: if_splits)
  with multiply_Inr[OF tot] r show ?thesis by simp
qed

lemma rate_callers_sum:
  assumes "first_error (\<lambda>(caller, base). and_then (rateProviderCost base currency t) (\<lambda>r.
       Inr (rated_money.extend r \<lparr>rc_billingProduct = product, rc_callerProduct = caller\<rparr>))) m = Inr rs"
  shows "map rc_callerProduct rs = map fst m \<and> map rm_base rs = map snd m \<and>
     sum_list (map (money \<circ> rm_total) rs) = sum_list (map (money \<circ> snd) m) * of_int (multiplier t) / 10000"
  using assms
proof (induction m arbitrary: rs)
  case (Cons e m)
  obtain k b where e: "e = (k, b)" by fastforce
  from Cons.prems obtain r rs' where r: "rateProviderCost b currency t = Inr r"
    and rs: "rs = rated_money.extend r \<lparr>rc_billingProduct = product, rc_callerProduct = k\<rparr> # rs'"
    and rest: "first_error (\<lambda>(caller, base). and_then (rateProviderCost base currency t) (\<lambda>r.
       Inr (rated_money.extend r \<lparr>rc_billingProduct = product, rc_callerProduct = caller\<rparr>))) m = Inr rs'"
    by (auto simp: e and_then_Inr_iff split: sum.splits)
  from Cons.IH[OF rest] rate_value[OF r] show ?case
    by (simp add: rs e rated_money.defs add_divide_distrib distrib_right)
qed simp

subsection \<open>The Stripe meter quantity\<close>

definition STRIPE_METER_FRACTION_DIGITS :: nat where
  "STRIPE_METER_FRACTION_DIGITS = 6"

definition MAX_SIGNED_BIGINT :: int where
  "MAX_SIGNED_BIGINT = 9223372036854775807"

definition pad_end :: "nat \<Rightarrow> char \<Rightarrow> string \<Rightarrow> string" where
  "pad_end n c s = s @ replicate (n - length s) c"

text \<open>\<^verbatim>\<open>s.replace(/^0+(?=\d)/, '')\<close> on a digit string: the last digit always stays.\<close>

fun strip_leading_zeros :: "string \<Rightarrow> string" where
  "strip_leading_zeros (c # d # s) = (if c = CHR ''0'' then strip_leading_zeros (d # s) else c # d # s)"
| "strip_leading_zeros s = s"

definition stripeMeterQuantityFromMajorAmount :: "string \<Rightarrow> string \<Rightarrow> int outcome" where
  "stripeMeterQuantityFromMajorAmount amount currency =
     (if \<not> unsigned_pattern amount \<or> \<not> currency_pattern currency
      then fail_with INTERNAL 502 ''UOA_BILLING_AMOUNT_INVALID''
      else (case split_fraction amount of
        (whole, fraction) \<Rightarrow>
          (let scaleDigits = currencyMinorDigits currency + STRIPE_METER_FRACTION_DIGITS;
               keptFraction = pad_end scaleDigits (CHR ''0'') (take scaleDigits fraction);
               combined = strip_leading_zeros (whole @ keptFraction);
               quantity0 = int (dec_nat (if combined = [] then ''0'' else combined));
               roundUp = scaleDigits < length fraction \<and>
                         (of_char (fraction ! scaleDigits) :: nat) \<ge> of_char (CHR ''5'');
               quantity = (if roundUp then quantity0 + 1 else quantity0)
           in if quantity > MAX_SIGNED_BIGINT
              then fail_with INTERNAL 502 ''UOA_BILLING_AMOUNT_OUT_OF_RANGE'' else Inr quantity)))"

lemma dec_nat_strip [simp]: "dec_nat (strip_leading_zeros s) = dec_nat s"
  by (induction s rule: strip_leading_zeros.induct) (simp_all add: dec_nat_Cons)

lemma strip_leading_Nil [simp]: "strip_leading_zeros s = [] \<longleftrightarrow> s = []"
  by (induction s rule: strip_leading_zeros.induct) simp_all

lemma unsigned_pattern_split:
  assumes "unsigned_pattern u"
  shows "\<exists>w f. split_fraction u = (w, f) \<and> whole_ok w \<and> all_digits f"
  using assms by (fastforce simp: unsigned_pattern_def split_fraction_def split: list.splits)

lemma unsigned_amount:
  assumes "unsigned_pattern u" and "split_fraction u = (w, f)"
  shows "amount_value u = Some (of_nat (dec_nat (w @ f)) / 10 ^ length f)"
proof -
  have "\<not> is_negative u"
  proof
    assume "is_negative u"
    then obtain v where u: "u = CHR ''-'' # v" by (cases u) (auto simp: is_negative_def)
    from assms obtain w' where "split_on (CHR ''.'') u = [w'] \<or> (\<exists>f'. split_on (CHR ''.'') u = [w', f'])"
      and w': "whole_ok w'"
      by (fastforce simp: unsigned_pattern_def split: list.splits)
    then have "\<exists>w2. w' = CHR ''-'' # w2"
      unfolding u by (auto split: list.splits)
    with w' show False by (auto simp: whole_ok_def)
  qed
  then show ?thesis
    using assms by (simp add: amount_value_def parseDecimal_def DECIMAL_PATTERN_def unsigned_def
        dec_value_def Let_def)
qed

lemma div_mod_split: "0 \<le> b \<Longrightarrow> b < D \<Longrightarrow> (a * D + b) div D = a \<and> (a * D + b) mod D = (b :: int)"
  by auto

lemma half_reached: "5 * p \<le> x \<Longrightarrow> 10 * p \<le> (x + y) * (2::nat)"
  by simp

lemma half_missed: "x \<le> 4 * p \<Longrightarrow> y < p \<Longrightarrow> \<not> 10 * p \<le> (x + y) * (2::nat)"
  by simp

lemma leading_digit_half:
  assumes "all_digits (c # g)"
  shows "(of_char c :: nat) \<ge> 53 \<longleftrightarrow> 10 ^ length (c # g) \<le> dec_nat (c # g) * 2"
proof -
  have c: "digit_val c < 10" "(of_char c :: nat) = 48 + digit_val c"
    using assms digit_val_less by (auto simp: is_digit_def digit_val_def)
  have g: "dec_nat g < 10 ^ length g" using dec_nat_bound assms by simp
  let ?p = "10 ^ length g :: nat"
  have d: "dec_nat (c # g) = digit_val c * ?p + dec_nat g" by (simp add: dec_nat_Cons)
  have p: "10 ^ length (c # g) = 10 * ?p" by simp
  show ?thesis
  proof (cases "5 \<le> digit_val c")
    case True
    then have "5 * ?p \<le> digit_val c * ?p" by (rule mult_le_mono1)
    then have "10 ^ length (c # g) \<le> dec_nat (c # g) * 2" unfolding p d by (rule half_reached)
    with True c(2) show ?thesis by simp
  next
    case False
    then have "digit_val c * ?p \<le> 4 * ?p" by (intro mult_le_mono1) simp
    then have "\<not> 10 ^ length (c # g) \<le> dec_nat (c # g) * 2" unfolding p d using g by (rule half_missed)
    with False c(2) show ?thesis by simp
  qed
qed

lemma quantity_rounds:
  fixes S :: nat
  assumes w: "all_digits w" and f: "all_digits f"
  defines "q \<equiv> int (dec_nat (w @ pad_end S (CHR ''0'') (take S f))) +
     (if S < length f \<and> (of_char (f ! S) :: nat) \<ge> 53 then 1 else 0)"
  shows "rounds_half_away (of_nat (dec_nat (w @ f)) / 10 ^ length f * 10 ^ S) q"
proof (cases "S < length f")
  case False
  then have "w @ pad_end S (CHR ''0'') (take S f) = (w @ f) @ replicate (S - length f) (CHR ''0'')"
    by (simp add: pad_end_def)
  then have "dec_nat (w @ pad_end S (CHR ''0'') (take S f)) = dec_nat (w @ f) * 10 ^ (S - length f)"
    by (simp only: dec_nat_append[of "w @ f"] dec_nat_zeros length_replicate add_0_right)
  then have q: "q = int (dec_nat (w @ f)) * 10 ^ (S - length f)" using False by (simp add: q_def)
  have "(10::rat) ^ S = 10 ^ length f * 10 ^ (S - length f)" using False by (simp flip: power_add)
  then have "of_nat (dec_nat (w @ f)) / 10 ^ length f * 10 ^ S = (of_int q :: rat)" by (simp add: q)
  then show ?thesis by (simp add: rounds_half_away_def)
next
  case True
  let ?n = "dec_nat (w @ f)" and ?D = "10 ^ (length f - S) :: int"
  obtain c g where cg: "drop S f = c # g" using True by (cases "drop S f") auto
  have c: "c = f ! S" using True cg by (metis hd_drop_conv_nth list.sel(1))
  have dg: "all_digits (c # g)" using f cg by (metis all_digits_append append_take_drop_id)
  have len: "length (c # g) = length f - S" unfolding cg[symmetric] by simp
  have split: "w @ f = (w @ take S f) @ (c # g)" unfolding cg[symmetric] by simp
  have n: "?n = dec_nat (w @ take S f) * 10 ^ (length f - S) + dec_nat (c # g)"
    unfolding split dec_nat_append[of "w @ take S f"] len ..
  have less: "dec_nat (c # g) < 10 ^ (length f - S)" using dec_nat_bound[OF dg] unfolding len .
  have N: "int ?n = int (dec_nat (w @ take S f)) * ?D + int (dec_nat (c # g))"
    unfolding n by (simp only: of_nat_add of_nat_mult of_nat_power of_nat_numeral)
  have "int (dec_nat (c # g)) < int (10 ^ (length f - S))" using less by (simp only: of_nat_less_iff)
  then have less_int: "int (dec_nat (c # g)) < ?D" by (simp only: of_nat_power of_nat_numeral)
  have quot: "int ?n div ?D = int (dec_nat (w @ take S f))" and rem: "int ?n mod ?D = int (dec_nat (c # g))"
    unfolding N using div_mod_split[OF _ less_int] by simp_all
  have half: "(of_char (f ! S) :: nat) \<ge> 53 \<longleftrightarrow> int ?n mod ?D * 2 \<ge> ?D"
  proof -
    have "10 ^ length (c # g) \<le> dec_nat (c # g) * 2 \<longleftrightarrow> int (10 ^ (length f - S)) \<le> int (dec_nat (c # g) * 2)"
      unfolding len of_nat_le_iff ..
    then show ?thesis unfolding rem c[symmetric] leading_digit_half[OF dg]
      by (simp only: of_nat_power of_nat_numeral of_nat_mult)
  qed
  have q: "q = int ?n div ?D + (if int ?n mod ?D * 2 \<ge> ?D then 1 else 0)"
    using True half by (simp add: q_def quot pad_end_def)
  have "(10::rat) ^ length f = 10 ^ S * 10 ^ (length f - S)" using True by (simp flip: power_add)
  then have x: "of_nat ?n / 10 ^ length f * 10 ^ S = (of_int (int ?n) / of_int ?D :: rat)"
    by (simp only: of_int_of_nat_eq of_int_power of_int_numeral) simp
  show ?thesis unfolding x q by (rule half_up) simp_all
qed

subsection \<open>Properties\<close>

text \<open>
  C36: rating per caller and rating in total agree. For the same usage and terms, every caller
  appears once and the per-caller customer totals add up exactly to the total the statement
  shows, which is the exact provider cost times the multiplier; nothing is lost or counted twice
  by the grouping, the sorting or intermediate rounding.
\<close>

theorem caller_totals_conserve:
  assumes by_caller: "rateMeteringByCaller localeCompare lines product currency t unattributed missing = Inr rs"
    and total: "rateMeteringTotal lines product currency t missing = Inr r"
  shows "distinct (map rc_callerProduct rs) \<and>
     sum_list (map (money \<circ> rm_total) rs) = money (rm_total r) \<and>
     sum_list (map (money \<circ> rm_base) rs) = money (rm_base r) \<and>
     money (rm_total r) = money (rm_base r) * of_int (multiplier t) / 10000"
proof -
  let ?sort = "js_sort (\<lambda>l r. localeCompare (fst l) (fst r))"
  from by_caller obtain m where m: "base_by_caller product currency missing unattributed [] lines = Inr m"
    and rs: "first_error (\<lambda>(caller, base). and_then (rateProviderCost base currency t) (\<lambda>r.
       Inr (rated_money.extend r \<lparr>rc_billingProduct = product, rc_callerProduct = caller\<rparr>))) (?sort m) = Inr rs"
    by (auto simp: rateMeteringByCaller_def and_then_Inr_iff)
  from total obtain b where b: "base_total product currency missing ''0'' lines = Inr b"
    and r: "rateProviderCost b currency t = Inr r"
    by (auto simp: rateMeteringTotal_def and_then_Inr_iff)
  from base_by_caller_sum[OF m _ b] have ok: "billing_decimals.table_ok m"
    and eq: "billing_decimals.table_sum m = money b"
    by (simp_all add: billing_decimals.table_ok_def billing_decimals.table_sum_def)
  note sums = rate_callers_sum[OF rs]
  have base: "sum_list (map (money \<circ> snd) (?sort m)) = money b"
    unfolding sum_list_js_sort using eq by (simp add: billing_decimals.table_sum_def comp_def)
  have "distinct (map rc_callerProduct rs)"
    using sums ok by (simp add: distinct_map_js_sort billing_decimals.table_ok_def)
  moreover have "sum_list (map (money \<circ> rm_base) rs) = money b"
  proof -
    have "map (money \<circ> rm_base) rs = map money (map rm_base rs)" by simp
    also have "\<dots> = map (money \<circ> snd) (?sort m)" using sums by simp
    finally show ?thesis using base by simp
  qed
  ultimately show ?thesis using sums base rate_value[OF r] by simp
qed

definition sample_line :: "string \<Rightarrow> string \<Rightarrow> metering_line" where
  "sample_line caller cost = \<lparr>ml_selectedProviderCost = Some cost, ml_currency = Some ''USD'',
     ml_billingProduct = ''deepwater'', ml_callerProduct = Some caller, ml_userId = None\<rparr>"

lemma sample_decimals: "amount_value ''1.5'' = Some (3/2)"
  by (simp add: amount_value_def parseDecimal_def DECIMAL_PATTERN_def unsigned_def is_negative_def
      unsigned_pattern_def whole_ok_def is_digit_def split_fraction_def dec_value_def Let_def dec_nat_def
      digit_val_def)

theorem caller_totals_conserve_witness:
  "\<exists>rs r. rateMeteringByCaller (\<lambda>a b. 0) [sample_line ''a'' ''1.5''] ''deepwater'' ''USD''
       \<lparr>term_mode = Custom, term_markupBps = 2000\<rparr> ''unattributed'' Reject = Inr rs \<and>
     rateMeteringTotal [sample_line ''a'' ''1.5''] ''deepwater'' ''USD''
       \<lparr>term_mode = Custom, term_markupBps = 2000\<rparr> Reject = Inr r \<and>
     sum_list (map (money \<circ> rm_total) rs) = money (rm_total r)"
proof -
  let ?l = "[sample_line ''a'' ''1.5'']" and ?t = "\<lparr>term_mode = Custom, term_markupBps = 2000\<rparr>"
  have sel: "selectedCost (sample_line ''a'' ''1.5'') ''deepwater'' ''USD'' Reject = Inr (Some ''1.5'')"
    by (simp add: selectedCost_def sample_line_def)
  from add_exact(1)[OF amount_value_0 sample_decimals] obtain s where
    s: "addBillingDecimals ''0'' ''1.5'' = Inr s" "amount_value s = Some (0 + 3/2)" by blast
  from multiply_exact[OF s(2), of 12000] obtain u where
    u: "multiplyBillingDecimalByBps s 12000 = Inr u" "amount_value u = Some ((0 + 3/2) * of_int 12000 / 10000)"
    by (auto simp: is_safe_integer_def)
  from add_exact(2)[OF u(2) s(2)] obtain k where k: "subtractBillingDecimals u s = Inr k" by blast
  have rate: "\<exists>r. rateProviderCost s ''USD'' ?t = Inr r"
    by (simp add: rateProviderCost_def usagePriceMultiplierBps_def assertTerms_def is_safe_integer_def u k)
  then obtain r where r: "rateProviderCost s ''USD'' ?t = Inr r" ..
  have total: "rateMeteringTotal ?l ''deepwater'' ''USD'' ?t Reject = Inr r"
    by (simp add: rateMeteringTotal_def sel s(1) r)
  have "\<exists>rs. rateMeteringByCaller (\<lambda>a b. 0) ?l ''deepwater'' ''USD'' ?t ''unattributed'' Reject = Inr rs"
    by (simp add: rateMeteringByCaller_def sel get_or_zero_def s(1) r)
  then obtain rs where rs: "rateMeteringByCaller (\<lambda>a b. 0) ?l ''deepwater'' ''USD'' ?t ''unattributed'' Reject = Inr rs" ..
  from caller_totals_conserve[OF rs total] rs total show ?thesis by blast
qed

text \<open>
  the digit-string conversion to a Stripe meter quantity is correct rounding. For every
  well-formed non-negative amount it equals the reference definition: the amount times
  \<open>10^(minor digits + 6)\<close> rounded to the nearest integer (halves up), and it is refused exactly
  when that integer does not fit a signed 64-bit value.
\<close>

theorem stripe_quantity_is_rounding:
  assumes "unsigned_pattern amount" and "currency_pattern currency"
  shows "\<exists>x n. amount_value amount = Some x \<and> 0 \<le> x \<and> 0 \<le> n \<and>
     rounds_half_away (x * 10 ^ (currencyMinorDigits currency + 6)) n \<and>
     stripeMeterQuantityFromMajorAmount amount currency =
       (if n \<le> 2 ^ 63 - 1 then Inr n else fail_with INTERNAL 502 ''UOA_BILLING_AMOUNT_OUT_OF_RANGE'')"
proof -
  obtain w f where sf: "split_fraction amount = (w, f)" and w: "whole_ok w" and f: "all_digits f"
    using unsigned_pattern_split[OF assms(1)] by blast
  let ?S = "currencyMinorDigits currency + 6"
  let ?x = "of_nat (dec_nat (w @ f)) / 10 ^ length f :: rat"
  let ?q = "int (dec_nat (w @ pad_end ?S (CHR ''0'') (take ?S f))) +
     (if ?S < length f \<and> (of_char (f ! ?S) :: nat) \<ge> 53 then 1 else 0)"
  have round: "rounds_half_away (?x * 10 ^ ?S) ?q"
    by (rule quantity_rounds) (use whole_ok_digits[OF w] f in simp_all)
  have "w @ pad_end ?S (CHR ''0'') (take ?S f) \<noteq> []" using whole_ok_digits[OF w] by simp
  then have "stripeMeterQuantityFromMajorAmount amount currency =
       (if ?q \<le> 2 ^ 63 - 1 then Inr ?q else fail_with INTERNAL 502 ''UOA_BILLING_AMOUNT_OUT_OF_RANGE'')"
    using assms by (auto simp: stripeMeterQuantityFromMajorAmount_def sf Let_def
        STRIPE_METER_FRACTION_DIGITS_def MAX_SIGNED_BIGINT_def)
  then show ?thesis
    using round unsigned_amount[OF assms(1) sf]
    by (intro exI[of _ ?x] exI[of _ ?q] conjI) simp_all
qed

theorem stripe_quantity_is_rounding_witness:
  "\<exists>n. rounds_half_away (3/2 * 10 ^ 8) n \<and> stripeMeterQuantityFromMajorAmount ''1.5'' ''USD'' = Inr n"
proof -
  have p: "unsigned_pattern ''1.5''" "currency_pattern ''USD''"
    by (simp_all add: unsigned_pattern_def whole_ok_def is_digit_def currency_pattern_def is_upper_def)
  have d: "currencyMinorDigits ''USD'' = 2"
    by (simp add: currencyMinorDigits_def ZERO_DECIMAL_CURRENCIES_def THREE_DECIMAL_CURRENCIES_def)
  from stripe_quantity_is_rounding[OF p] obtain x n where x: "Some (3/2) = Some x"
    and nx: "rounds_half_away (x * 10 ^ (2 + 6)) n" and n2: "stripeMeterQuantityFromMajorAmount ''1.5'' ''USD'' =
       (if n \<le> 2 ^ 63 - 1 then Inr n else fail_with INTERNAL 502 ''UOA_BILLING_AMOUNT_OUT_OF_RANGE'')"
    unfolding d sample_decimals by blast
  from x have x': "x = 3/2" by simp
  from nx have n: "rounds_half_away (3/2 * 10 ^ (2 + 6)) n" unfolding x' .
  have "rounds_half_away (3/2 * 10 ^ (2 + 6)) 150000000" by (simp add: rounds_half_away_def)
  with n have "n = 150000000" by (rule rounds_half_away_unique)
  with n n2 show ?thesis by auto
qed

end
