(* ===== verification/Credit_Rating.thy ===== *)
theory Credit_Rating
  imports Billing_Rating
begin

section \<open>Spending prepaid credits on rated usage\<close>

text \<open>
  \<^verbatim>\<open>billing-credit-rating.service.ts\<close>: the portfolio of a team is rated per service and
  user, and prepaid credits are allocated over the resulting buckets by largest remainder. The
  buckets the source mutates through \<open>candidate.bucket\<close> are addressed by their position. The map
  key \<open>bucketKey\<close> joins the two identifiers with a character neither contains; the model keeps
  the pair.
\<close>

subsection \<open>Data\<close>

record credit_service =
  cs_id :: string
  cs_identifier :: string
  cs_mode :: rating_mode
  cs_markupBps :: int
  cs_currency :: string

record previous_allocation =
  pa_serviceId :: string
  pa_userId :: "string option"
  pa_consumed :: int

record credit_allocation =
  ca_userId :: "string option"
  ca_rated :: int
  ca_consumed :: int
  ca_remaining :: int

record rated_service =
  rs_service :: credit_service
  rs_rated :: int
  rs_consumed :: int
  rs_remaining :: int
  rs_allocations :: "credit_allocation list"

record bucket =
  b_service :: credit_service
  b_userId :: "string option"
  b_rated :: int
  b_previous :: int
  b_target :: int

definition MICROCREDITS_PER_CREDIT :: int where "MICROCREDITS_PER_CREDIT = 1000000"

definition MICRO_MINOR_PER_CREDIT :: int where "MICRO_MINOR_PER_CREDIT = 100000"

definition bucketKey :: "string \<Rightarrow> string option \<Rightarrow> string \<times> string option" where
  "bucketKey serviceId userId = (serviceId, userId)"

definition compareBuckets :: "(string \<Rightarrow> string \<Rightarrow> int) \<Rightarrow> bucket \<Rightarrow> bucket \<Rightarrow> int" where
  "compareBuckets localeCompare l r =
     (let s = localeCompare (cs_identifier (b_service l)) (cs_identifier (b_service r))
      in if s \<noteq> 0 then s
         else if b_userId l = b_userId r then 0
         else (case (b_userId l, b_userId r) of
                 (None, _) \<Rightarrow> 1
               | (_, None) \<Rightarrow> -1
               | (Some u, Some v) \<Rightarrow> localeCompare u v))"

definition credit_selectedCost :: "metering_line \<Rightarrow> string option outcome" where
  "credit_selectedCost line =
     (case ml_selectedProviderCost line of
        None \<Rightarrow> if ml_currency line = None then Inr None
                else fail_with INTERNAL 502 ''LEDGER_CREDIT_COST_INVALID''
      | Some c \<Rightarrow> if ml_currency line \<noteq> Some ''USD''
                  then fail_with INTERNAL 502 ''LEDGER_CREDIT_COST_INVALID'' else Inr (Some c))"

definition ratedMicroMinor :: "string \<Rightarrow> credit_service \<Rightarrow> int outcome" where
  "ratedMicroMinor baseCost service =
     (if cs_currency service \<noteq> ''USD''
      then fail_with INTERNAL 409 ''BILLING_CREDIT_TARIFF_CURRENCY_INVALID''
      else if cs_mode service = Free then Inr 0
      else and_then (multiplyBillingDecimalByBps baseCost (10000 + cs_markupBps service))
             (\<lambda>rated. stripeMeterQuantityFromMajorAmount rated ''USD''))"

definition billableCreditCapacity :: "bucket \<Rightarrow> int" where
  "billableCreditCapacity b = b_rated b div MICRO_MINOR_PER_CREDIT"

subsection \<open>Largest-remainder allocation\<close>

text \<open>Candidates: position, free capacity and, after the proportional share, the remainder.\<close>

definition candidates :: "bucket list \<Rightarrow> (nat \<times> int) list" where
  "candidates bs =
     filter (\<lambda>(i, c). c > 0)
       (map (\<lambda>(i, b). (i, billableCreditCapacity b - b_target b)) (enumerate 0 bs))"

definition give :: "nat \<Rightarrow> int \<Rightarrow> bucket list \<Rightarrow> bucket list" where
  "give i n bs = bs[i := (bs ! i)\<lparr>b_target := b_target (bs ! i) + n\<rparr>]"

fun give_shares ::
  "int \<Rightarrow> int \<Rightarrow> (nat \<times> int) list \<Rightarrow> int \<Rightarrow> bucket list \<Rightarrow> int \<times> bucket list \<times> (nat \<times> int) list" where
  "give_shares requested capacities [] allocated bs = (allocated, bs, [])"
| "give_shares requested capacities ((i, capacity) # cs) allocated bs =
     (let numerator = capacity * requested;
          credits = numerator div capacities
      in case give_shares requested capacities cs (allocated + credits) (give i credits bs) of
           (a, bs', rs) \<Rightarrow> (a, bs', (i, numerator mod capacities) # rs))"

definition compare_remainders ::
  "(string \<Rightarrow> string \<Rightarrow> int) \<Rightarrow> bucket list \<Rightarrow> nat \<times> int \<Rightarrow> nat \<times> int \<Rightarrow> int" where
  "compare_remainders localeCompare bs l r =
     (if snd l \<noteq> snd r then (if snd l > snd r then -1 else 1)
      else compareBuckets localeCompare (bs ! fst l) (bs ! fst r))"

fun hand_out :: "nat list \<Rightarrow> int \<Rightarrow> bucket list \<Rightarrow> int \<times> bucket list" where
  "hand_out [] outstanding bs = (outstanding, bs)"
| "hand_out (i # is) outstanding bs =
     (if outstanding = 0 then (outstanding, bs)
      else if b_target (bs ! i) < billableCreditCapacity (bs ! i)
        then hand_out is (outstanding - 1) (give i 1 bs)
      else hand_out is outstanding bs)"

definition allocateAdditionalCredits ::
  "(string \<Rightarrow> string \<Rightarrow> int) \<Rightarrow> bucket list \<Rightarrow> int \<Rightarrow> bucket list outcome" where
  "allocateAdditionalCredits localeCompare bs requested =
     (if requested \<le> 0 then Inr bs
      else (let cs = candidates bs;
                total = sum_list (map snd cs)
            in if requested > total \<or> total = 0
               then fail_with INTERNAL 500 ''BILLING_CREDIT_ALLOCATION_INVALID''
               else (case give_shares requested total cs 0 bs of
                 (allocated, bs1, remainders) \<Rightarrow>
                   (case hand_out (map fst (js_sort (compare_remainders localeCompare bs1) remainders))
                           (requested - allocated) bs1 of
                      (outstanding, bs2) \<Rightarrow>
                        if outstanding \<noteq> 0
                        then fail_with INTERNAL 500 ''BILLING_CREDIT_ALLOCATION_INVALID''
                        else Inr bs2))))"

subsection \<open>Rating a portfolio\<close>

type_synonym base_cost = "credit_service \<times> string option \<times> string"

fun base_costs ::
  "(string \<Rightarrow> credit_service option) \<Rightarrow> string list \<Rightarrow>
   ((string \<times> string option) \<times> base_cost) list \<Rightarrow> metering_line list \<Rightarrow>
     ((string \<times> string option) \<times> base_cost) list outcome" where
  "base_costs byIdentifier users m [] = Inr m"
| "base_costs byIdentifier users m (line # lines) =
     (case byIdentifier (ml_billingProduct line) of
        None \<Rightarrow> fail_with INTERNAL 502 ''LEDGER_CREDIT_SERVICE_UNKNOWN''
      | Some service \<Rightarrow>
          if (case ml_userId line of Some u \<Rightarrow> u \<notin> set users | None \<Rightarrow> False)
          then fail_with INTERNAL 502 ''LEDGER_CREDIT_USER_INVALID''
          else and_then (credit_selectedCost line) (\<lambda>cost.
            case cost of
              None \<Rightarrow> base_costs byIdentifier users m lines
            | Some c \<Rightarrow>
                (let key = bucketKey (cs_id service) (ml_userId line);
                     current = (case map_of m key of Some (_, _, a) \<Rightarrow> a | None \<Rightarrow> ''0'')
                 in and_then (addBillingDecimals current c) (\<lambda>amount.
                      base_costs byIdentifier users
                        (AList.update key (service, ml_userId line, amount) m) lines))))"

text \<open>The later of two services with one identifier wins, as in \<open>new Map(entries)\<close>.\<close>

definition map_by :: "(credit_service \<Rightarrow> string) \<Rightarrow> credit_service list \<Rightarrow> string \<Rightarrow> credit_service option" where
  "map_by key services k = map_of (map (\<lambda>s. (key s, s)) (rev services)) k"

fun previous_by_key ::
  "(string \<Rightarrow> credit_service option) \<Rightarrow> ((string \<times> string option) \<times> previous_allocation) list \<Rightarrow>
   previous_allocation list \<Rightarrow> ((string \<times> string option) \<times> previous_allocation) list outcome" where
  "previous_by_key byId m [] = Inr m"
| "previous_by_key byId m (a # as) =
     (if pa_consumed a < 0 \<or> pa_consumed a mod 10 \<noteq> 0
      then fail_with INTERNAL 500 ''BILLING_CREDIT_PREVIOUS_ALLOCATION_INVALID''
      else (case byId (pa_serviceId a) of
              None \<Rightarrow> fail_with INTERNAL 500 ''BILLING_CREDIT_SERVICE_MISSING''
            | Some service \<Rightarrow>
                previous_by_key byId (AList.update (bucketKey (cs_id service) (pa_userId a)) a m) as))"

definition make_bucket ::
  "(string \<Rightarrow> credit_service option) \<Rightarrow> ((string \<times> string option) \<times> base_cost) list \<Rightarrow>
   ((string \<times> string option) \<times> previous_allocation) list \<Rightarrow> string \<times> string option \<Rightarrow> bucket outcome" where
  "make_bucket byId costs previous key =
     (let cost = map_of costs key; old = map_of previous key
      in case (case cost of Some (s, _, _) \<Rightarrow> Some s
               | None \<Rightarrow> byId (case old of Some a \<Rightarrow> pa_serviceId a | None \<Rightarrow> [])) of
           None \<Rightarrow> fail_with INTERNAL 500 ''BILLING_CREDIT_SERVICE_MISSING''
         | Some service \<Rightarrow>
             and_then (case cost of Some (_, _, amount) \<Rightarrow> ratedMicroMinor amount service | None \<Rightarrow> Inr 0)
               (\<lambda>rated.
                 let prev = (case old of Some a \<Rightarrow> pa_consumed a | None \<Rightarrow> 0)
                 in Inr \<lparr>b_service = service,
                      b_userId = (case cost of Some (_, Some u, _) \<Rightarrow> Some u
                                  | _ \<Rightarrow> Option.bind old pa_userId),
                      b_rated = rated, b_previous = prev,
                      b_target = min (prev div MICROCREDITS_PER_CREDIT)
                                     (rated div MICRO_MINOR_PER_CREDIT)\<rparr>))"

definition empty_rated :: "credit_service \<Rightarrow> rated_service" where
  "empty_rated s = \<lparr>rs_service = s, rs_rated = 0, rs_consumed = 0, rs_remaining = 0, rs_allocations = []\<rparr>"

definition bucket_allocation :: "bucket \<Rightarrow> credit_allocation" where
  "bucket_allocation b =
     \<lparr>ca_userId = b_userId b, ca_rated = b_rated b,
      ca_consumed = b_target b * MICROCREDITS_PER_CREDIT,
      ca_remaining = b_rated b - b_target b * MICRO_MINOR_PER_CREDIT\<rparr>"

definition add_allocation :: "credit_allocation \<Rightarrow> rated_service \<Rightarrow> rated_service" where
  "add_allocation a t =
     t\<lparr>rs_rated := rs_rated t + ca_rated a, rs_consumed := rs_consumed t + ca_consumed a,
       rs_remaining := rs_remaining t + ca_remaining a, rs_allocations := rs_allocations t @ [a]\<rparr>"

fun collect :: "(string \<times> rated_service) list \<Rightarrow> bucket list \<Rightarrow> (string \<times> rated_service) list outcome" where
  "collect m [] = Inr m"
| "collect m (b # bs) =
     (case map_of m (cs_id (b_service b)) of
        None \<Rightarrow> fail_with INTERNAL 500 ''BILLING_CREDIT_SERVICE_MISSING''
      | Some t \<Rightarrow> collect (AList.update (cs_id (b_service b)) (add_allocation (bucket_allocation b) t) m) bs)"

definition portfolio_buckets ::
  "(string \<Rightarrow> string \<Rightarrow> int) \<Rightarrow> metering_line list \<Rightarrow> credit_service list \<Rightarrow> previous_allocation list \<Rightarrow>
   string list \<Rightarrow> bucket list outcome" where
  "portfolio_buckets localeCompare lines services previousAllocations users =
     and_then (base_costs (map_by cs_identifier services) users [] lines) (\<lambda>costs.
     and_then (previous_by_key (map_by cs_id services) [] previousAllocations) (\<lambda>previous.
     and_then (first_error (make_bucket (map_by cs_id services) costs previous)
         (map fst costs @ filter (\<lambda>k. k \<notin> set (map fst costs)) (map fst previous)))
       (\<lambda>bs. Inr (js_sort (compareBuckets localeCompare) bs))))"

definition released_microcredits :: "bucket list \<Rightarrow> int" where
  "released_microcredits bs = sum_list (map (\<lambda>b. b_previous b - b_target b * MICROCREDITS_PER_CREDIT) bs)"

definition credits_to_add :: "bucket list \<Rightarrow> int \<Rightarrow> int" where
  "credits_to_add bs balance =
     (let after = balance + released_microcredits bs;
          available = (if after > 0 then after div MICROCREDITS_PER_CREDIT else 0);
          remaining = sum_list (map (\<lambda>b. billableCreditCapacity b - b_target b) bs)
      in if available < remaining then available else remaining)"

definition rateCreditPortfolio ::
  "(string \<Rightarrow> string \<Rightarrow> int) \<Rightarrow> metering_line list \<Rightarrow> credit_service list \<Rightarrow> previous_allocation list \<Rightarrow>
   int \<Rightarrow> string list \<Rightarrow> rated_service list outcome" where
  "rateCreditPortfolio localeCompare lines services previousAllocations balance users =
     and_then (portfolio_buckets localeCompare lines services previousAllocations users) (\<lambda>bs.
     and_then (allocateAdditionalCredits localeCompare bs (credits_to_add bs balance)) (\<lambda>bs'.
     and_then (collect (fold (\<lambda>s m. AList.update (cs_id s) (empty_rated s) m) services []) bs') (\<lambda>m.
       Inr (js_sort (\<lambda>l r. localeCompare (cs_identifier (rs_service l)) (cs_identifier (rs_service r)))
              (map snd m)))))"

subsection \<open>The allocation is exact\<close>

definition bucket_ok :: "bucket \<Rightarrow> bool" where
  "bucket_ok b \<longleftrightarrow> 0 \<le> b_target b \<and> b_target b \<le> billableCreditCapacity b"

definition targets :: "bucket list \<Rightarrow> int" where
  "targets bs = sum_list (map b_target bs)"

definition free_capacity :: "bucket list \<Rightarrow> int" where
  "free_capacity bs = sum_list (map (\<lambda>b. billableCreditCapacity b - b_target b) bs)"

text \<open>Equal up to the allocated target.\<close>

definition same_bucket :: "bucket \<Rightarrow> bucket \<Rightarrow> bool" where
  "same_bucket b b' \<longleftrightarrow> b' = b\<lparr>b_target := b_target b'\<rparr>"

lemma same_bucket_sel:
  assumes "same_bucket b b'"
  shows "b_service b' = b_service b" "b_userId b' = b_userId b" "b_rated b' = b_rated b"
    "b_previous b' = b_previous b" "billableCreditCapacity b' = billableCreditCapacity b"
  using assms by (cases b, cases b', simp add: same_bucket_def billableCreditCapacity_def)+

lemma same_bucket_refl [simp]: "same_bucket b b"
  by (simp add: same_bucket_def)

lemma same_bucket_trans: "same_bucket a b \<Longrightarrow> same_bucket b c \<Longrightarrow> same_bucket a c"
  by (cases a, cases b, cases c) (simp add: same_bucket_def)

lemma length_give [simp]: "length (give i n bs) = length bs"
  by (simp add: give_def)

lemma nth_give: "i < length bs \<Longrightarrow>
    give i n bs ! j = (if j = i then (bs ! i)\<lparr>b_target := b_target (bs ! i) + n\<rparr> else bs ! j)"
  by (simp add: give_def)

lemma sum_list_put: "i < length xs \<Longrightarrow> sum_list (xs[i := x]) = sum_list xs + x - (xs ! i :: int)"
  by (induction xs arbitrary: i) (auto split: nat.splits)

lemma targets_give: "i < length bs \<Longrightarrow> targets (give i n bs) = targets bs + n"
  by (simp add: targets_def give_def map_update sum_list_put)

lemma same_bucket_give: "i < length bs \<Longrightarrow> same_bucket (bs ! j) (give i n bs ! j)"
  by (simp add: nth_give same_bucket_def)

definition share_of :: "int \<Rightarrow> int \<Rightarrow> (nat \<times> int) list \<Rightarrow> nat \<Rightarrow> int" where
  "share_of requested capacities cs j =
     (case map_of cs j of None \<Rightarrow> 0 | Some c \<Rightarrow> c * requested div capacities)"

lemma give_shares_spec:
  assumes "distinct (map fst cs)" and "\<forall>e \<in> set cs. fst e < length bs"
    and "give_shares req T cs al bs = (a, bs', rs)"
  shows "a = al + sum_list (map (\<lambda>e. snd e * req div T) cs) \<and>
     rs = map (\<lambda>e. (fst e, snd e * req mod T)) cs \<and> length bs' = length bs \<and>
     targets bs' = targets bs + (a - al) \<and>
     (\<forall>j. same_bucket (bs ! j) (bs' ! j)) \<and>
     (\<forall>j < length bs. b_target (bs' ! j) = b_target (bs ! j) + share_of req T cs j)"
  using assms
proof (induction cs arbitrary: al bs a bs' rs)
  case (Cons e cs)
  obtain i c where e: "e = (i, c)" by fastforce
  let ?n = "c * req div T"
  have i: "i < length bs" using Cons.prems(2) e by simp
  obtain rs' where rec: "give_shares req T cs (al + ?n) (give i ?n bs) = (a, bs', rs')"
    and rs: "rs = (i, c * req mod T) # rs'"
    using Cons.prems(3) by (auto simp: e Let_def split: prod.splits)
  have "\<forall>e \<in> set cs. fst e < length (give i ?n bs)" using Cons.prems(2) by simp
  note IH = Cons.IH[OF _ this rec]
  have fresh: "map_of cs i = None" using Cons.prems(1) e by (simp add: map_of_eq_None_iff)
  have "b_target (bs' ! j) = b_target (bs ! j) + share_of req T (e # cs) j" if "j < length bs" for j
    using IH Cons.prems(1) that fresh i by (auto simp: e nth_give share_of_def)
  moreover have "same_bucket (bs ! j) (bs' ! j)" for j
    using IH Cons.prems(1) same_bucket_give[OF i] same_bucket_trans by fastforce
  ultimately show ?case using IH Cons.prems(1) i by (auto simp: e rs targets_give)
qed (auto simp: share_of_def)

definition eligible :: "bucket list \<Rightarrow> nat \<Rightarrow> bool" where
  "eligible bs i \<longleftrightarrow> b_target (bs ! i) < billableCreditCapacity (bs ! i)"

lemma billable_give [simp]: "i < length bs \<Longrightarrow>
    billableCreditCapacity (give i n bs ! j) = billableCreditCapacity (bs ! j)"
  by (simp add: nth_give billableCreditCapacity_def)

lemma hand_out_spec:
  assumes "distinct is" and "\<forall>i \<in> set is. i < length bs" and "0 \<le> out"
    and "hand_out is out bs = (out', bs')"
  shows "length bs' = length bs \<and> targets bs' = targets bs + (out - out') \<and> 0 \<le> out' \<and>
     (\<forall>j. same_bucket (bs ! j) (bs' ! j)) \<and>
     (\<forall>j < length bs. b_target (bs' ! j) = b_target (bs ! j) \<or>
        (j \<in> set is \<and> eligible bs j \<and> b_target (bs' ! j) = b_target (bs ! j) + 1)) \<and>
     (out \<le> int (length (filter (eligible bs) is)) \<longrightarrow> out' = 0)"
  using assms
proof (induction "is" arbitrary: out bs)
  case (Cons i "is")
  have i: "i < length bs" using Cons.prems(2) by simp
  have keep: "filter (eligible (give i 1 bs)) is = filter (eligible bs) is"
    using Cons.prems(1) i by (auto simp: eligible_def nth_give billableCreditCapacity_def
        intro!: filter_cong split: if_splits)
  show ?case
  proof (cases "out = 0")
    case True
    then show ?thesis using Cons.prems(4) by auto
  next
    case out: False
    show ?thesis
    proof (cases "eligible bs i")
      case True
      then have rec: "hand_out is (out - 1) (give i 1 bs) = (out', bs')"
        using Cons.prems(4) out by (simp add: eligible_def)
      have IH: "length bs' = length bs \<and> targets bs' = targets (give i 1 bs) + (out - 1 - out') \<and> 0 \<le> out' \<and>
        (\<forall>j. same_bucket (give i 1 bs ! j) (bs' ! j)) \<and>
        (\<forall>j < length bs. b_target (bs' ! j) = b_target (give i 1 bs ! j) \<or>
          (j \<in> set is \<and> eligible (give i 1 bs) j \<and> b_target (bs' ! j) = b_target (give i 1 bs ! j) + 1)) \<and>
        (out - 1 \<le> int (length (filter (eligible bs) is)) \<longrightarrow> out' = 0)"
        using Cons.IH[OF _ _ _ rec] Cons.prems(1-3) out by (simp add: keep)
      have "same_bucket (bs ! j) (bs' ! j)" for j
        using IH same_bucket_give[OF i] same_bucket_trans by blast
      moreover have "b_target (bs' ! j) = b_target (bs ! j) \<or> (j \<in> set (i # is) \<and> eligible bs j \<and>
          b_target (bs' ! j) = b_target (bs ! j) + 1)" if "j < length bs" for j
        using IH that Cons.prems(1) i True
        by (auto simp: nth_give eligible_def billableCreditCapacity_def split: if_splits)
      ultimately show ?thesis using IH True i by (simp add: targets_give)
    next
      case False
      then have rec: "hand_out is out bs = (out', bs')"
        using Cons.prems(4) out by (simp add: eligible_def)
      show ?thesis using Cons.IH[OF _ _ _ rec] Cons.prems(1-3) False by auto
    qed
  qed
qed auto

lemma candidates_spec:
  "distinct (map fst (candidates bs))"
  "e \<in> set (candidates bs) \<Longrightarrow> fst e < length bs \<and> 0 < snd e \<and>
     snd e = billableCreditCapacity (bs ! fst e) - b_target (bs ! fst e)"
proof -
  have fst_enum: "map fst (map (\<lambda>(i, b). (i, billableCreditCapacity b - b_target b)) (enumerate 0 bs)) = [0..<length bs]"
    by (simp add: case_prod_unfold comp_def)
  have "distinct (map fst (filter P (map (\<lambda>(i, b). (i, billableCreditCapacity b - b_target b)) (enumerate 0 bs))))" for P
    by (rule distinct_map_filter) (simp only: fst_enum distinct_upt)
  then show "distinct (map fst (candidates bs))" by (simp only: candidates_def)
  show "fst e < length bs \<and> 0 < snd e \<and> snd e = billableCreditCapacity (bs ! fst e) - b_target (bs ! fst e)"
    if "e \<in> set (candidates bs)"
    using that by (auto simp: candidates_def in_set_enumerate_eq)
qed

lemma candidates_sum:
  assumes "\<forall>b \<in> set bs. bucket_ok b"
  shows "sum_list (map snd (candidates bs)) = free_capacity bs"
proof -
  have drop: "sum_list (map snd (filter (\<lambda>(i, c). c > 0) es)) = sum_list (map snd es)"
    if "\<forall>e \<in> set es. 0 \<le> (snd e :: int)" for es :: "(nat \<times> int) list"
    using that by (induction es) auto
  let ?es = "map (\<lambda>(i, b). (i, billableCreditCapacity b - b_target b)) (enumerate 0 bs)"
  have "\<forall>e \<in> set ?es. 0 \<le> snd e"
    using assms by (auto simp: in_set_enumerate_eq bucket_ok_def)
  from drop[OF this] have "sum_list (map snd (candidates bs)) = sum_list (map snd ?es)"
    by (simp only: candidates_def)
  also have "map snd ?es = map (\<lambda>b. billableCreditCapacity b - b_target b) (map snd (enumerate 0 bs))"
    by (simp only: map_map comp_def case_prod_unfold snd_conv)
  finally show ?thesis by (simp only: free_capacity_def map_snd_enumerate)
qed

lemma remainders_bound:
  fixes T :: int
  assumes "0 < T" and "0 \<le> req"
  shows "req * sum_list (map snd cs) - T * sum_list (map (\<lambda>e. snd e * req div T) cs)
           \<le> T * int (length (filter (\<lambda>e. 0 < snd e * req mod T) cs))"
    and "0 \<le> req * sum_list (map snd cs) - T * sum_list (map (\<lambda>e. snd e * req div T) cs)"
proof (induction cs)
  case (Cons e cs)
  define d where "d = snd e * req div T"
  define r where "r = snd e * req mod T"
  have split: "req * snd e = T * d + r"
    by (simp add: d_def r_def mult.commute)
  have lt: "r < T" "0 \<le> r" using assms by (simp_all add: r_def)
  {
    case 1
    from Cons(1) split lt show ?case
      by (simp add: distrib_left flip: d_def r_def)
  next
    case 2
    from Cons(2) split lt show ?case
      by (simp add: distrib_left flip: d_def r_def)
  }
qed simp_all

lemma js_sort_props [simp]:
  "distinct (map fst (js_sort cmp xs)) = distinct (map fst xs)"
  "length (filter P (map f (js_sort cmp xs))) = length (filter P (map f xs))"
proof -
  show "distinct (map fst (js_sort cmp xs)) = distinct (map fst xs)" by (rule distinct_map_js_sort)
  have "mset (filter P (map f (js_sort cmp xs))) = mset (filter P (map f xs))"
    unfolding mset_filter mset_map mset_js_sort ..
  then show "length (filter P (map f (js_sort cmp xs))) = length (filter P (map f xs))"
    by (metis size_mset)
qed

lemma allocate_spec:
  assumes ok: "\<forall>b \<in> set bs. bucket_ok b" and req: "0 \<le> req" "req \<le> free_capacity bs"
  shows "\<exists>bs'. allocateAdditionalCredits lc bs req = Inr bs' \<and> length bs' = length bs \<and>
     targets bs' = targets bs + req \<and> (\<forall>b \<in> set bs'. bucket_ok b) \<and>
     (\<forall>j < length bs. same_bucket (bs ! j) (bs' ! j)) \<and>
     (\<forall>j < length bs. let share = (billableCreditCapacity (bs ! j) - b_target (bs ! j)) * req div free_capacity bs
        in req = 0 \<or> b_target (bs' ! j) - b_target (bs ! j) \<in> {share, share + 1})"
proof (cases "req = 0")
  case True
  then show ?thesis using ok by (simp add: allocateAdditionalCredits_def)
next
  case False
  let ?cs = "candidates bs" and ?T = "free_capacity bs"
  have T: "0 < ?T" using False req by simp
  note cand = candidates_spec[where bs = bs]
  obtain a bs1 rs where gs: "give_shares req ?T ?cs 0 bs = (a, bs1, rs)" by (metis prod_cases3)
  have inb: "\<forall>e \<in> set ?cs. fst e < length bs" using cand(2) by blast
  note G = give_shares_spec[OF cand(1) inb gs]
  let ?order = "map fst (js_sort (compare_remainders lc bs1) rs)"
  obtain out' bs2 where ho: "hand_out ?order (req - a) bs1 = (out', bs2)" by fastforce
  let ?share = "\<lambda>j. share_of req ?T ?cs j"
  have rem: "?T * (req - a) \<le> ?T * int (length (filter (\<lambda>e. 0 < snd e * req mod ?T) ?cs))" "0 \<le> ?T * (req - a)"
    using remainders_bound[OF T req(1), of ?cs] candidates_sum[OF ok] G
    by (simp_all add: right_diff_distrib mult.commute)
  then have out: "0 \<le> req - a" "req - a \<le> int (length (filter (\<lambda>e. 0 < snd e * req mod ?T) ?cs))"
    using T by (simp_all add: zero_le_mult_iff)
  have share: "?share j = (billableCreditCapacity (bs ! j) - b_target (bs ! j)) * req div ?T"
    if "j < length bs" for j
  proof (cases "map_of ?cs j")
    case None
    have "(j, billableCreditCapacity (bs ! j) - b_target (bs ! j)) \<in>
        set (map (\<lambda>(i, b). (i, billableCreditCapacity b - b_target b)) (enumerate 0 bs))"
      using that by (force simp: in_set_enumerate_eq)
    moreover have "j \<notin> fst ` set ?cs" using None by (simp add: map_of_eq_None_iff)
    ultimately have "\<not> 0 < billableCreditCapacity (bs ! j) - b_target (bs ! j)"
      unfolding candidates_def by (force simp: image_iff)
    moreover have "bucket_ok (bs ! j)" using ok that by simp
    ultimately show ?thesis using None by (simp add: share_of_def bucket_ok_def)
  next
    case (Some c)
    then have "(j, c) \<in> set ?cs" by (rule map_of_SomeD)
    from cand(2)[OF this] Some show ?thesis by (simp add: share_of_def)
  qed
  have cap_share: "0 \<le> ?share j" "?share j \<le> billableCreditCapacity (bs ! j) - b_target (bs ! j)"
    if "j < length bs" for j
  proof -
    let ?c = "billableCreditCapacity (bs ! j) - b_target (bs ! j)"
    have c: "0 \<le> ?c" using ok that by (simp add: bucket_ok_def)
    show "0 \<le> ?share j" unfolding share[OF that] using c req T by (simp add: pos_imp_zdiv_nonneg_iff)
    have "?c * req \<le> ?c * ?T" using c req(2) by (rule mult_left_mono[rotated])
    then have "?c * req div ?T \<le> ?c * ?T div ?T" using T by (rule zdiv_mono1)
    then show "?share j \<le> ?c" unfolding share[OF that] using T by simp
  qed
  have elig: "eligible bs1 (fst e)" if "e \<in> set ?cs" "0 < snd e * req mod ?T" for e
  proof -
    note c = cand(2)[OF that(1)]
    have "snd e * req div ?T < snd e"
    proof (rule ccontr)
      assume "\<not> ?thesis"
      then have "?T * snd e \<le> ?T * (snd e * req div ?T)" using T by simp
      also have "\<dots> = snd e * req - snd e * req mod ?T" by (simp add: minus_mod_eq_mult_div)
      finally have "?T * snd e < snd e * req" using that(2) by simp
      moreover have "snd e * req \<le> snd e * ?T" using c req(2) by (intro mult_left_mono) simp_all
      ultimately show False by (simp add: mult.commute)
    qed
    moreover have "?share (fst e) = snd e * req div ?T" using share[of "fst e"] c by simp
    ultimately show ?thesis
      using G c same_bucket_sel(5)[of "bs ! fst e" "bs1 ! fst e"] by (simp add: eligible_def)
  qed
  have order: "distinct ?order" "\<forall>i \<in> set ?order. i < length bs1"
    using G cand(1) inb by (auto simp: comp_def)
  have "int (length (filter (\<lambda>e. 0 < snd e * req mod ?T) ?cs)) \<le> int (length (filter (eligible bs1) ?order))"
  proof -
    have "map fst rs = map fst ?cs" using G by (simp add: comp_def)
    then have "length (filter (eligible bs1) ?order) = length (filter (eligible bs1) (map fst ?cs))"
      by (simp only: js_sort_props(2))
    moreover have "length (filter (\<lambda>e. 0 < snd e * req mod ?T) es) \<le> length (filter (eligible bs1) (map fst es))"
      if "set es \<subseteq> set ?cs" for es using that elig by (induction es) auto
    ultimately show ?thesis by simp
  qed
  with out(2) have enough: "req - a \<le> int (length (filter (eligible bs1) ?order))" by linarith
  note H = hand_out_spec[OF order out(1) ho]
  have zero: "out' = 0" using H enough by simp
  have final: "b_target (bs2 ! j) - b_target (bs ! j) \<in> {?share j, ?share j + 1}" "bucket_ok (bs2 ! j)"
    "same_bucket (bs ! j) (bs2 ! j)" if "j < length bs" for j
  proof -
    have j1: "j < length bs1" using that G by simp
    show same: "same_bucket (bs ! j) (bs2 ! j)" using G H same_bucket_trans by blast
    have t1: "b_target (bs1 ! j) = b_target (bs ! j) + ?share j" using G that by simp
    have "b_target (bs2 ! j) = b_target (bs1 ! j) \<or>
        (eligible bs1 j \<and> b_target (bs2 ! j) = b_target (bs1 ! j) + 1)" using H j1 by blast
    moreover have "billableCreditCapacity (bs1 ! j) = billableCreditCapacity (bs ! j)"
      using G same_bucket_sel(5) by blast
    moreover have "bucket_ok (bs ! j)" using ok that by simp
    ultimately show "b_target (bs2 ! j) - b_target (bs ! j) \<in> {?share j, ?share j + 1}" "bucket_ok (bs2 ! j)"
      using t1 cap_share[OF that] same_bucket_sel(5)[OF same] by (auto simp: bucket_ok_def eligible_def)
  qed
  have result: "allocateAdditionalCredits lc bs req = Inr bs2"
    using False req T gs ho zero candidates_sum[OF ok]
    by (simp add: allocateAdditionalCredits_def Let_def)
  moreover have "\<forall>b \<in> set bs2. bucket_ok b"
    using final(2) G H by (metis in_set_conv_nth)
  ultimately show ?thesis using final share G H zero by (auto simp: Let_def)
qed

subsection \<open>What the portfolio hands to the allocation\<close>

lemma quantity_nonneg: "stripeMeterQuantityFromMajorAmount a c = Inr n \<Longrightarrow> 0 \<le> n"
  by (auto simp: stripeMeterQuantityFromMajorAmount_def Let_def split: prod.splits if_splits)

lemma ratedMicroMinor_nonneg: "ratedMicroMinor a s = Inr n \<Longrightarrow> 0 \<le> n"
  by (auto simp: ratedMicroMinor_def and_then_Inr_iff quantity_nonneg split: if_splits)

lemma previous_by_key_nonneg:
  "previous_by_key byId m as = Inr m' \<Longrightarrow> distinct (map fst m) \<Longrightarrow> \<forall>e \<in> set m. 0 \<le> pa_consumed (snd e) \<Longrightarrow>
     \<forall>e \<in> set m'. 0 \<le> pa_consumed (snd e)"
proof (induction as arbitrary: m)
  case (Cons a as)
  then have ok: "0 \<le> pa_consumed a" by (simp split: if_splits)
  from Cons.prems(1) obtain service :: credit_service where
    rec: "previous_by_key byId (AList.update (bucketKey (cs_id service) (pa_userId a)) a m) as = Inr m'"
    by (auto split: if_splits option.splits)
  have "\<forall>e \<in> set (AList.update (bucketKey (cs_id service) (pa_userId a)) a m). 0 \<le> pa_consumed (snd e)"
    using set_alist_update[OF Cons.prems(2)] Cons.prems(3) ok by fastforce
  from Cons.IH[OF rec _ this] Cons.prems(2) show ?case by (simp add: distinct_update)
qed simp

lemma map_by_mem: "map_by key services k = Some s \<Longrightarrow> s \<in> set services"
  by (auto simp: map_by_def dest!: map_of_SomeD)

lemma base_costs_services:
  "base_costs byI users m lines = Inr m' \<Longrightarrow> distinct (map fst m) \<Longrightarrow>
   (\<And>k s. byI k = Some s \<Longrightarrow> s \<in> S) \<Longrightarrow> \<forall>e \<in> set m. fst (snd e) \<in> S \<Longrightarrow> \<forall>e \<in> set m'. fst (snd e) \<in> S"
proof (induction lines arbitrary: m)
  case (Cons line lines)
  then obtain service where service: "byI (ml_billingProduct line) = Some service"
    by (auto split: option.splits)
  with Cons.prems(1) obtain cost where cost: "credit_selectedCost line = Inr cost"
    by (auto simp: and_then_Inr_iff split: if_splits)
  show ?case
  proof (cases cost)
    case None
    with Cons service cost show ?thesis by (auto split: if_splits)
  next
    case (Some c)
    let ?key = "bucketKey (cs_id service) (ml_userId line)"
    from Cons.prems(1) service cost Some obtain amount where
      rec: "base_costs byI users (AList.update ?key (service, ml_userId line, amount) m) lines = Inr m'"
      by (auto simp: and_then_Inr_iff Let_def split: if_splits)
    have "\<forall>e \<in> set (AList.update ?key (service, ml_userId line, amount) m). fst (snd e) \<in> S"
      using set_alist_update[OF Cons.prems(2)] Cons.prems(3)[OF service] Cons.prems(4) by fastforce
    from Cons.IH[OF rec _ Cons.prems(3) this] Cons.prems(2) show ?thesis by (simp add: distinct_update)
  qed
qed simp

lemma make_bucket_ok:
  assumes "make_bucket byId costs previous key = Inr b"
    and "\<forall>e \<in> set previous. 0 \<le> pa_consumed (snd e)"
    and "\<And>k s. byId k = Some s \<Longrightarrow> s \<in> S" and "\<forall>e \<in> set costs. fst (snd e) \<in> S"
  shows "bucket_ok b \<and> 0 \<le> b_rated b \<and> b_service b \<in> S \<and>
     b_target b * MICROCREDITS_PER_CREDIT \<le> b_previous b"
proof -
  let ?prev = "case map_of previous key of Some a \<Rightarrow> pa_consumed a | None \<Rightarrow> 0"
  have prev: "0 \<le> ?prev" using assms(2) by (auto split: option.splits dest!: map_of_SomeD)
  have costs: "s \<in> S" if "map_of costs key = Some (s, u, a)" for s u a
    using map_of_SomeD[OF that] assms(4) by force
  from assms(1) obtain service rated where
    "(case map_of costs key of Some (s, _, _) \<Rightarrow> Some s
      | None \<Rightarrow> byId (case map_of previous key of Some a \<Rightarrow> pa_serviceId a | None \<Rightarrow> [])) = Some service"
    "(case map_of costs key of Some (_, _, amount) \<Rightarrow> ratedMicroMinor amount service | None \<Rightarrow> Inr 0) = Inr rated"
    and b: "b_service b = service" "b_rated b = rated"
      "b_target b = min (?prev div MICROCREDITS_PER_CREDIT) (rated div MICRO_MINOR_PER_CREDIT)"
      "b_previous b = ?prev"
    by (auto simp: make_bucket_def Let_def and_then_Inr_iff split: option.splits)
  then have "service \<in> S" "0 \<le> rated"
    by (cases "map_of costs key"; force simp: costs split: prod.splits dest: assms(3) ratedMicroMinor_nonneg)+
  moreover have "b_target b * MICROCREDITS_PER_CREDIT \<le> b_previous b"
  proof -
    have "b_target b * MICROCREDITS_PER_CREDIT \<le> ?prev div MICROCREDITS_PER_CREDIT * MICROCREDITS_PER_CREDIT"
      unfolding b(3) by (intro mult_right_mono) (simp_all add: MICROCREDITS_PER_CREDIT_def)
    also have "\<dots> \<le> ?prev" by (simp add: MICROCREDITS_PER_CREDIT_def)
    finally show ?thesis using b(4) by simp
  qed
  ultimately show ?thesis using b prev
    by (simp add: bucket_ok_def billableCreditCapacity_def MICROCREDITS_PER_CREDIT_def
        MICRO_MINOR_PER_CREDIT_def min_def pos_imp_zdiv_nonneg_iff)
qed

lemma portfolio_buckets_ok:
  assumes "portfolio_buckets lc lines services prev users = Inr bs" and "b \<in> set bs"
  shows "bucket_ok b \<and> 0 \<le> b_rated b \<and> b_service b \<in> set services \<and>
     b_target b * MICROCREDITS_PER_CREDIT \<le> b_previous b"
proof -
  from assms(1) obtain costs previous bs0 where
    costs: "base_costs (map_by cs_identifier services) users [] lines = Inr costs"
    and previous: "previous_by_key (map_by cs_id services) [] prev = Inr previous"
    and bs0: "first_error (make_bucket (map_by cs_id services) costs previous)
         (map fst costs @ filter (\<lambda>k. k \<notin> set (map fst costs)) (map fst previous)) = Inr bs0"
    and bs: "bs = js_sort (compareBuckets lc) bs0"
    by (auto simp: portfolio_buckets_def and_then_Inr_iff)
  have "b \<in> set bs0" using assms(2) bs by simp
  then obtain key where "make_bucket (map_by cs_id services) costs previous key = Inr b"
    using first_error_mem[OF bs0] by blast
  then show ?thesis
    using previous_by_key_nonneg[OF previous] base_costs_services[OF costs, where S = "set services"] map_by_mem
    by (intro make_bucket_ok) auto
qed

subsection \<open>Collecting the buckets by service\<close>

lemma collect_total:
  "\<forall>b \<in> set bs. cs_id (b_service b) \<in> fst ` set m \<Longrightarrow> \<exists>m'. collect m bs = Inr m'"
proof (induction bs arbitrary: m)
  case (Cons b bs)
  then obtain t where t: "map_of m (cs_id (b_service b)) = Some t"
    by (cases "map_of m (cs_id (b_service b))") (auto simp: map_of_eq_None_iff)
  let ?m = "AList.update (cs_id (b_service b)) (add_allocation (bucket_allocation b) t) m"
  have "fst ` set ?m = insert (cs_id (b_service b)) (fst ` set m)"
    by (simp add: dom_update)
  then have "\<forall>b' \<in> set bs. cs_id (b_service b') \<in> fst ` set ?m" using Cons.prems by simp
  from Cons.IH[OF this] t show ?case by simp
qed simp

definition consumed_sum :: "(string \<times> rated_service) list \<Rightarrow> int" where
  "consumed_sum m = sum_list (map (\<lambda>e. rs_consumed (snd e)) m)"

lemma collect_consumed:
  "collect m bs = Inr m' \<Longrightarrow> distinct (map fst m) \<Longrightarrow>
     consumed_sum m' = consumed_sum m + targets bs * MICROCREDITS_PER_CREDIT \<and>
     (\<forall>e \<in> set m'. \<forall>a \<in> set (rs_allocations (snd e)). (\<exists>e \<in> set m. a \<in> set (rs_allocations (snd e))) \<or>
        a \<in> bucket_allocation ` set bs)"
proof (induction bs arbitrary: m)
  case (Cons b bs)
  from Cons.prems(1) obtain t where t: "map_of m (cs_id (b_service b)) = Some t"
    and rec: "collect (AList.update (cs_id (b_service b)) (add_allocation (bucket_allocation b) t) m) bs = Inr m'"
    by (auto split: option.splits)
  let ?m = "AList.update (cs_id (b_service b)) (add_allocation (bucket_allocation b) t) m"
  have sum: "consumed_sum ?m = consumed_sum m + b_target b * MICROCREDITS_PER_CREDIT"
    unfolding consumed_sum_def alist_sum_update[OF Cons.prems(2)]
    by (simp add: t add_allocation_def bucket_allocation_def)
  have alloc: "(\<exists>e \<in> set m. a \<in> set (rs_allocations (snd e))) \<or> a = bucket_allocation b"
    if "e \<in> set ?m" "a \<in> set (rs_allocations (snd e))" for e a
  proof -
    from that(1) have "(fst e, snd e) \<in> set ?m" by simp
    from set_alist_update[OF Cons.prems(2) this] show ?thesis
    proof
      assume "fst e = cs_id (b_service b) \<and> snd e = add_allocation (bucket_allocation b) t"
      with that(2) have "a \<in> set (rs_allocations t) \<or> a = bucket_allocation b"
        by (auto simp: add_allocation_def)
      with map_of_SomeD[OF t] show ?thesis by force
    next
      assume "fst e \<noteq> cs_id (b_service b) \<and> (fst e, snd e) \<in> set m"
      with that(2) show ?thesis by force
    qed
  qed
  from Cons.IH[OF rec] Cons.prems(2) sum alloc show ?case
    by (fastforce simp: distinct_update targets_def distrib_right)
qed (auto simp: targets_def)

lemma initial_services:
  "distinct (map fst m0) \<Longrightarrow> \<forall>e \<in> set m0. rs_consumed (snd e) = 0 \<and> rs_allocations (snd e) = [] \<Longrightarrow>
   distinct (map fst (fold (\<lambda>s m. AList.update (cs_id s) (empty_rated s) m) services m0)) \<and>
   (\<forall>e \<in> set (fold (\<lambda>s m. AList.update (cs_id s) (empty_rated s) m) services m0).
      rs_consumed (snd e) = 0 \<and> rs_allocations (snd e) = []) \<and>
   cs_id ` set services \<union> fst ` set m0 = fst ` set (fold (\<lambda>s m. AList.update (cs_id s) (empty_rated s) m) services m0)"
proof (induction services arbitrary: m0)
  case (Cons s services)
  let ?m = "AList.update (cs_id s) (empty_rated s) m0"
  have "fst ` set ?m = insert (cs_id s) (fst ` set m0)"
    by (simp add: dom_update)
  moreover have "\<forall>e \<in> set ?m. rs_consumed (snd e) = 0 \<and> rs_allocations (snd e) = []"
    using set_alist_update[OF Cons.prems(1)] Cons.prems(2) by (fastforce simp: empty_rated_def)
  ultimately show ?case using Cons.IH[of ?m] Cons.prems(1) by (simp add: distinct_update)
qed simp

lemma sum_list_map_diff: "sum_list (map (\<lambda>x. f x - g x) xs) = sum_list (map f xs) - (sum_list (map g xs) :: int)"
  by (induction xs) simp_all

lemma sum_list_times: "sum_list (map (\<lambda>x. f x * c) xs) = sum_list (map f xs) * (c :: int)"
  by (induction xs) (simp_all add: distrib_right)

lemma sum_list_mono_all: "\<forall>x \<in> set xs. f x \<le> g x \<Longrightarrow> sum_list (map f xs) \<le> (sum_list (map g xs) :: int)"
  by (induction xs) auto

lemma sum_list_zero_all:
  "\<forall>x \<in> set xs. (0::int) \<le> f x \<Longrightarrow> sum_list (map f xs) = 0 \<Longrightarrow> x \<in> set xs \<Longrightarrow> f x = 0"
proof (induction xs)
  case (Cons a xs)
  have "0 \<le> sum_list (map f xs)" using Cons.prems(1) by (intro sum_list_nonneg) auto
  with Cons show ?case by auto
qed simp

lemma sum_list_all_zero: "(\<And>x. x \<in> set xs \<Longrightarrow> f x = (0::int)) \<Longrightarrow> sum_list (map f xs) = 0"
  by (induction xs) simp_all

lemma free_capacity_targets:
  assumes "length bs' = length bs" and "\<forall>j < length bs. same_bucket (bs ! j) (bs' ! j)"
  shows "free_capacity bs' + targets bs' = free_capacity bs + targets bs"
proof -
  have "map billableCreditCapacity bs' = map billableCreditCapacity bs"
    using assms same_bucket_sel(5) by (intro nth_equalityI) auto
  then show ?thesis by (simp add: free_capacity_def targets_def sum_list_map_diff)
qed

lemma credits_to_add_bounds:
  assumes "0 \<le> balance" and "0 \<le> released_microcredits bs" and "0 \<le> free_capacity bs"
  shows "0 \<le> credits_to_add bs balance" "credits_to_add bs balance \<le> free_capacity bs"
    "credits_to_add bs balance * MICROCREDITS_PER_CREDIT \<le> balance + released_microcredits bs"
    "credits_to_add bs balance = free_capacity bs \<or>
     balance + released_microcredits bs < credits_to_add bs balance * MICROCREDITS_PER_CREDIT + MICROCREDITS_PER_CREDIT"
proof -
  let ?after = "balance + released_microcredits bs"
  have M: "MICROCREDITS_PER_CREDIT = 1000000" by (simp add: MICROCREDITS_PER_CREDIT_def)
  have after: "0 \<le> ?after" using assms by simp
  have c: "credits_to_add bs balance = min (?after div 1000000) (free_capacity bs)"
    using after by (auto simp: credits_to_add_def Let_def M free_capacity_def min_def)
  have q: "0 \<le> ?after div 1000000" "?after div 1000000 * 1000000 \<le> ?after"
    "?after < ?after div 1000000 * 1000000 + 1000000" using after by auto
  show "0 \<le> credits_to_add bs balance" "credits_to_add bs balance \<le> free_capacity bs"
    using q(1) assms(3) by (simp_all add: c)
  have "credits_to_add bs balance * 1000000 \<le> ?after div 1000000 * 1000000" by (simp add: c)
  with q(2) show "credits_to_add bs balance * MICROCREDITS_PER_CREDIT \<le> ?after" unfolding M by linarith
  show "credits_to_add bs balance = free_capacity bs \<or>
     ?after < credits_to_add bs balance * MICROCREDITS_PER_CREDIT + MICROCREDITS_PER_CREDIT"
    using q(3) unfolding M c by (cases "?after div 1000000 \<le> free_capacity bs") (simp_all add: min_def)
qed

subsection \<open>Properties\<close>

text \<open>
  C18: the largest-remainder allocation is total and fair. For buckets that do not exceed their
  capacity and any request up to the free capacity it never fails, allocates exactly the
  requested number of credits, keeps every bucket within its capacity, changes nothing but the
  allocated credits, and gives each bucket its proportional share rounded down or up.
\<close>

theorem credit_allocation_exact:
  assumes "\<forall>b \<in> set bs. bucket_ok b" and "0 \<le> requested" and "requested \<le> free_capacity bs"
  shows "\<exists>bs'. allocateAdditionalCredits localeCompare bs requested = Inr bs' \<and>
     length bs' = length bs \<and> targets bs' = targets bs + requested \<and> (\<forall>b \<in> set bs'. bucket_ok b) \<and>
     (\<forall>j < length bs. same_bucket (bs ! j) (bs' ! j)) \<and>
     (\<forall>j < length bs. let share = (billableCreditCapacity (bs ! j) - b_target (bs ! j)) * requested div free_capacity bs
        in requested = 0 \<or> b_target (bs' ! j) - b_target (bs ! j) \<in> {share, share + 1})"
  by (rule allocate_spec[OF assms])

definition sample_service :: credit_service where
  "sample_service = \<lparr>cs_id = ''s1'', cs_identifier = ''deepwater'', cs_mode = At_Cost, cs_markupBps = 0,
     cs_currency = ''USD''\<rparr>"

definition sample_bucket :: "string \<Rightarrow> int \<Rightarrow> bucket" where
  "sample_bucket user rated = \<lparr>b_service = sample_service, b_userId = Some user, b_rated = rated,
     b_previous = 0, b_target = 0\<rparr>"

theorem credit_allocation_exact_witness:
  "\<exists>bs'. allocateAdditionalCredits (\<lambda>a b. 0) [sample_bucket ''u'' 300000, sample_bucket ''v'' 500000] 5 = Inr bs' \<and>
     targets bs' = 5"
proof -
  let ?bs = "[sample_bucket ''u'' 300000, sample_bucket ''v'' 500000]"
  have "\<forall>b \<in> set ?bs. bucket_ok b" "free_capacity ?bs = 8" "targets ?bs = 0"
    by (simp_all add: bucket_ok_def sample_bucket_def billableCreditCapacity_def MICRO_MINOR_PER_CREDIT_def
        free_capacity_def targets_def)
  with credit_allocation_exact[of ?bs 5 "\<lambda>a b. 0"] show ?thesis by auto
qed

text \<open>
  C28: rating a portfolio spends prepaid credits safely and completely. Once the usage and the
  previous allocations are accepted, the rating cannot fail; it never spends more than the
  non-negative balance plus what earlier allocations released, each allocation's rated amount
  splits exactly into the part paid by credits and a non-negative remainder, and it stops only
  when less than one credit is left or no bucket can absorb another whole credit.
\<close>

theorem portfolio_spends_within_balance:
  assumes bs: "portfolio_buckets localeCompare lines services previousAllocations users = Inr bs"
    and balance: "0 \<le> balance"
  shows "\<exists>rs. rateCreditPortfolio localeCompare lines services previousAllocations balance users = Inr rs \<and>
     (let spent = sum_list (map rs_consumed rs);
          given = balance + sum_list (map b_previous bs);
          allocations = concat (map rs_allocations rs)
      in spent \<le> given \<and>
         (\<forall>a \<in> set allocations. 0 \<le> ca_consumed a \<and> 0 \<le> ca_remaining a \<and>
            10 * ca_rated a = 10 * ca_remaining a + ca_consumed a) \<and>
         (given - spent < 1000000 \<or> (\<forall>a \<in> set allocations. ca_remaining a < 100000)))"
proof -
  note ok = portfolio_buckets_ok[OF bs]
  have M: "MICROCREDITS_PER_CREDIT = 1000000" by (simp add: MICROCREDITS_PER_CREDIT_def)
  have rel: "released_microcredits bs = sum_list (map b_previous bs) - targets bs * MICROCREDITS_PER_CREDIT"
    by (simp add: released_microcredits_def sum_list_map_diff sum_list_times targets_def)
  have r0: "0 \<le> released_microcredits bs" unfolding released_microcredits_def
    using ok by (intro sum_list_nonneg) auto
  have f0: "0 \<le> free_capacity bs" unfolding free_capacity_def
    using ok by (intro sum_list_nonneg) (auto simp: bucket_ok_def)
  note req = credits_to_add_bounds[OF balance r0 f0]
  let ?req = "credits_to_add bs balance"
  obtain bs' where alloc: "allocateAdditionalCredits localeCompare bs ?req = Inr bs'"
    and t: "targets bs' = targets bs + ?req" and ok': "\<forall>b \<in> set bs'. bucket_ok b"
    and same: "length bs' = length bs" "\<forall>j < length bs. same_bucket (bs ! j) (bs' ! j)"
    using allocate_spec[of bs ?req localeCompare] ok req(1,2) by blast
  have rated: "0 \<le> b_rated b \<and> b_service b \<in> set services" if "b \<in> set bs'" for b
  proof -
    from that obtain j where j: "j < length bs'" "bs' ! j = b" by (auto simp: in_set_conv_nth)
    then have "same_bucket (bs ! j) b" "bs ! j \<in> set bs" using same by auto
    with ok[of "bs ! j"] show ?thesis by (simp add: same_bucket_sel)
  qed
  let ?m0 = "fold (\<lambda>s m. AList.update (cs_id s) (empty_rated s) m) services []"
  note m0 = initial_services[of "[]" services, simplified]
  have "\<forall>b \<in> set bs'. cs_id (b_service b) \<in> fst ` set ?m0" using m0 rated by auto
  then obtain m where m: "collect ?m0 bs' = Inr m" using collect_total by blast
  have zero: "consumed_sum ?m0 = 0"
    unfolding consumed_sum_def using m0 by (intro sum_list_all_zero) blast
  note col = collect_consumed[OF m]
  let ?rs = "js_sort (\<lambda>l r. localeCompare (cs_identifier (rs_service l)) (cs_identifier (rs_service r))) (map snd m)"
  have result: "rateCreditPortfolio localeCompare lines services previousAllocations balance users = Inr ?rs"
    by (simp add: rateCreditPortfolio_def bs alloc m)
  have spent: "sum_list (map rs_consumed ?rs) = (targets bs + ?req) * MICROCREDITS_PER_CREDIT"
    using col m0 zero t by (simp add: sum_list_js_sort consumed_sum_def comp_def)
  have allocs: "\<exists>b \<in> set bs'. a = bucket_allocation b" if "a \<in> set (concat (map rs_allocations ?rs))" for a
  proof -
    from that obtain e where e: "e \<in> set m" "a \<in> set (rs_allocations (snd e))" by auto
    have "\<not> (\<exists>e \<in> set ?m0. a \<in> set (rs_allocations (snd e)))" using m0 by auto
    with col m0 e show ?thesis by blast
  qed
  have shape: "0 \<le> ca_consumed a \<and> 0 \<le> ca_remaining a \<and> 10 * ca_rated a = 10 * ca_remaining a + ca_consumed a"
    if "a = bucket_allocation b" "b \<in> set bs'" for a b
    using that rated[OF that(2)] ok'
    by (auto simp: bucket_allocation_def bucket_ok_def billableCreditCapacity_def MICRO_MINOR_PER_CREDIT_def M)
  have full: "ca_remaining (bucket_allocation b) < 100000" if "?req = free_capacity bs" "b \<in> set bs'" for b
  proof -
    have "free_capacity bs' = 0" using free_capacity_targets[OF same] t that(1) by simp
    then have "billableCreditCapacity b - b_target b = 0"
      using ok' that(2) unfolding free_capacity_def
      by (intro sum_list_zero_all[of bs' "\<lambda>b. billableCreditCapacity b - b_target b"]) (auto simp: bucket_ok_def)
    then show ?thesis
      by (simp add: bucket_allocation_def billableCreditCapacity_def MICRO_MINOR_PER_CREDIT_def)
  qed
  have bound: "sum_list (map rs_consumed ?rs) \<le> balance + sum_list (map b_previous bs)"
    using spent req(3) rel by (simp add: distrib_right)
  have stop: "balance + sum_list (map b_previous bs) - sum_list (map rs_consumed ?rs) < 1000000 \<or>
      ?req = free_capacity bs"
    using spent req(4) rel unfolding M by (auto simp: distrib_right)
  show ?thesis
    using result bound stop allocs shape full unfolding Let_def by blast
qed

lemma replicate_small: "replicate 2 x = [x, x]" "replicate 7 x = [x, x, x, x, x, x, x]"
  by (simp_all add: eval_nat_numeral)

lemma sample_rating:
  "addBillingDecimals ''0'' ''1.5'' = Inr ''1.5''" "ratedMicroMinor ''1.5'' sample_service = Inr 150000000"
  by (simp add: money_eval)
    (simp add: money_eval ratedMicroMinor_def sample_service_def multiplyBillingDecimalByBps_def is_safe_integer_def
      stripeMeterQuantityFromMajorAmount_def currency_pattern_def is_upper_def currencyMinorDigits_def
      ZERO_DECIMAL_CURRENCIES_def THREE_DECIMAL_CURRENCIES_def STRIPE_METER_FRACTION_DIGITS_def pad_end_def
      MAX_SIGNED_BIGINT_def replicate_small)

lemma sample_buckets:
  "portfolio_buckets (\<lambda>a b. 0) [sample_line ''caller'' ''1.5''] [sample_service] [] [] =
     Inr [\<lparr>b_service = sample_service, b_userId = None, b_rated = 150000000, b_previous = 0, b_target = 0\<rparr>]"
proof -
  have "map_by cs_identifier [sample_service] ''deepwater'' = Some sample_service"
    by (simp add: map_by_def sample_service_def)
  then show ?thesis
    by (simp add: portfolio_buckets_def sample_line_def credit_selectedCost_def sample_rating make_bucket_def
        bucketKey_def MICROCREDITS_PER_CREDIT_def MICRO_MINOR_PER_CREDIT_def Let_def)
qed

theorem portfolio_spends_within_balance_witness:
  "\<exists>rs. rateCreditPortfolio (\<lambda>a b. 0) [sample_line ''caller'' ''1.5''] [sample_service] [] 2500000 [] = Inr rs \<and>
     sum_list (map rs_consumed rs) \<le> 2500000"
  using portfolio_spends_within_balance[OF sample_buckets, of 2500000] by (auto simp: Let_def)

end
