(* ===== verification/Slugs.thy ===== *)
theory Slugs
  imports Decimal_Digits
begin

section \<open>Slugs\<close>

text \<open>
  Slug derivation of \<^verbatim>\<open>API/src/services/organisation.service.base.ts\<close> (organisations,
  random suffix on a collision) and \<^verbatim>\<open>team.service.base.ts\<close> (teams, counting suffix).

  The lookup of a candidate in the database is the argument \<open>taken\<close>; the random bytes of
  the n-th collision are the argument \<open>bytes n\<close>. Unicode decomposition is written out for
  the characters the model has (code units below 256), after lower-casing.
\<close>

subsection \<open>Folding a name to slug characters\<close>

text \<open>\<open>normalize('NFKD')\<close>, then the removal of combining marks and of everything outside
  \<^verbatim>\<open>[\x20-\x7e]\<close>: what is left of one lower-case character.\<close>

definition nfkd_ascii :: "char \<Rightarrow> string" where
  "nfkd_ascii c =
     (let n = (of_char c :: nat)
      in if 32 \<le> n \<and> n \<le> 126 then [c]
         else if n \<in> {160, 168, 175, 180, 184} then '' ''
         else if n = 170 \<or> 224 \<le> n \<and> n \<le> 229 then ''a''
         else if n = 178 then ''2'' else if n = 179 then ''3'' else if n = 185 then ''1''
         else if n = 188 then ''14'' else if n = 189 then ''12'' else if n = 190 then ''34''
         else if n = 231 then ''c''
         else if 232 \<le> n \<and> n \<le> 235 then ''e''
         else if 236 \<le> n \<and> n \<le> 239 then ''i''
         else if n = 241 then ''n''
         else if n = 186 \<or> 242 \<le> n \<and> n \<le> 246 then ''o''
         else if 249 \<le> n \<and> n \<le> 252 then ''u''
         else if n = 253 \<or> n = 255 then ''y''
         else [])"

definition alnum :: "char \<Rightarrow> bool" where
  "alnum c \<longleftrightarrow> is_lower c \<or> is_digit c"

abbreviation dash :: char where
  "dash \<equiv> CHR ''-''"

text \<open>\<open>s.replace(/P+/g, d)\<close>: every maximal run becomes one character.\<close>

fun replace_runs :: "(char \<Rightarrow> bool) \<Rightarrow> char \<Rightarrow> bool \<Rightarrow> string \<Rightarrow> string" where
  "replace_runs P d in_run [] = []"
| "replace_runs P d in_run (c # cs) =
     (if P c then (if in_run then replace_runs P d True cs else d # replace_runs P d True cs)
      else c # replace_runs P d False cs)"

definition strip_leading :: "string \<Rightarrow> string" where
  "strip_leading s = dropWhile (\<lambda>c. c = dash) s"

definition strip_trailing :: "string \<Rightarrow> string" where
  "strip_trailing s = rev (dropWhile (\<lambda>c. c = dash) (rev s))"

definition normalizeSlugBase :: "string \<Rightarrow> string" where
  "normalizeSlugBase name =
     (let normalized = concat (map nfkd_ascii (js_lower (js_trim name)))
      in strip_trailing (strip_leading
           (replace_runs (\<lambda>c. c = dash) dash False
              (replace_runs (\<lambda>c. \<not> alnum c) dash False normalized))))"

text \<open>\<^verbatim>\<open>/^[a-z0-9](?:[a-z0-9-]*[a-z0-9])?$/\<close>\<close>

definition SLUG_ALLOWED_RE :: "string \<Rightarrow> bool" where
  "SLUG_ALLOWED_RE s \<longleftrightarrow>
     s \<noteq> [] \<and> list_all (\<lambda>c. alnum c \<or> c = dash) s \<and> alnum (hd s) \<and> alnum (last s)"

subsection \<open>Organisation slugs\<close>

definition RESERVED_ORG_SLUGS :: "string list" where
  "RESERVED_ORG_SLUGS =
     [''admin'', ''api'', ''internal'', ''me'', ''system'', ''settings'', ''new'', ''default'']"

definition SLUG_RANDOM_SUFFIX_MAX_ATTEMPTS :: nat where
  "SLUG_RANDOM_SUFFIX_MAX_ATTEMPTS = 10"

definition SLUG_SUFFIX_LENGTH :: nat where
  "SLUG_SUFFIX_LENGTH = 4"

definition suffix_chars :: string where
  "suffix_chars = ''abcdefghijklmnopqrstuvwxyz0123456789''"

definition randomSuffix :: "nat list \<Rightarrow> string" where
  "randomSuffix bytes = map (\<lambda>byte. suffix_chars ! (byte mod length suffix_chars)) bytes"

text \<open>The loop of at most ten candidates; \<open>attempt\<close> is the loop variable.\<close>

function resolve_attempt ::
  "(string \<Rightarrow> bool) \<Rightarrow> (nat \<Rightarrow> nat list) \<Rightarrow> string option \<Rightarrow> string \<Rightarrow> nat \<Rightarrow> string \<Rightarrow> string outcome"
where
  "resolve_attempt taken bytes ignore base attempt candidate =
     (if attempt < SLUG_RANDOM_SUFFIX_MAX_ATTEMPTS then
        if Some candidate = ignore then Inr candidate
        else if \<not> taken candidate then Inr candidate
        else resolve_attempt taken bytes ignore base (attempt + 1)
               (strip_trailing
                  (take (max 1 (120 - (1 + SLUG_SUFFIX_LENGTH))) base @ [dash] @
                   randomSuffix (bytes attempt)))
      else fail_with INTERNAL 500 ''ORG_SLUG_COLLISION_RETRY_EXHAUSTED'')"
  by pat_completeness auto
termination
  by (relation "measure (\<lambda>(_, _, _, _, attempt, _). SLUG_RANDOM_SUFFIX_MAX_ATTEMPTS - attempt)") auto

declare resolve_attempt.simps [simp del]

definition resolveUniqueSlugWithCollisionRetries ::
  "(string \<Rightarrow> bool) \<Rightarrow> (nat \<Rightarrow> nat list) \<Rightarrow> string \<Rightarrow> string option \<Rightarrow> string outcome" where
  "resolveUniqueSlugWithCollisionRetries taken bytes base existingSlugToIgnore =
     resolve_attempt taken bytes (map_option js_trim existingSlugToIgnore) base 0 base"

definition deriveSlugWithValidation ::
  "(string \<Rightarrow> bool) \<Rightarrow> (nat \<Rightarrow> nat list) \<Rightarrow> string \<Rightarrow> string option \<Rightarrow> string outcome" where
  "deriveSlugWithValidation taken bytes name existingSlugToIgnore =
     (let base = normalizeSlugBase name
      in if length base > 120 then
           (let final = strip_trailing (take 120 base)
            in if length final < 2 then fail BAD_REQUEST 400
               else resolveUniqueSlugWithCollisionRetries taken bytes final existingSlugToIgnore)
         else if length base < 2 \<or> length base > 120 \<or> \<not> SLUG_ALLOWED_RE base
         then fail BAD_REQUEST 400
         else if base \<in> set RESERVED_ORG_SLUGS then fail BAD_REQUEST 400
         else resolveUniqueSlugWithCollisionRetries taken bytes base existingSlugToIgnore)"

subsection \<open>Team slugs\<close>

definition TEAM_SLUG_FALLBACK :: string where
  "TEAM_SLUG_FALLBACK = ''team''"

definition MAX_TEAM_SLUG_LENGTH :: nat where
  "MAX_TEAM_SLUG_LENGTH = 120"

definition MAX_TEAM_SLUG_COLLISION_RETRIES :: nat where
  "MAX_TEAM_SLUG_COLLISION_RETRIES = 10000"

definition normalizeTeamSlugBase :: "string \<Rightarrow> string" where
  "normalizeTeamSlugBase name =
     (let slug = normalizeSlugBase name;
          base = (if slug = [] then TEAM_SLUG_FALLBACK else slug);
          trimmed = strip_trailing (take MAX_TEAM_SLUG_LENGTH base)
      in if length trimmed \<ge> 2 then trimmed else TEAM_SLUG_FALLBACK)"

definition buildTeamSlugCandidate :: "string \<Rightarrow> nat option \<Rightarrow> string" where
  "buildTeamSlugCandidate base suffix =
     (case suffix of
        None \<Rightarrow> base
      | Some n \<Rightarrow>
          if n = 0 then base
          else (let suffixText = dash # digits_of n;
                    trimmedBase = strip_trailing
                      (take (max 1 (MAX_TEAM_SLUG_LENGTH - length suffixText)) base);
                    candidateBase = (if length trimmedBase \<ge> 2 then trimmedBase
                                     else TEAM_SLUG_FALLBACK)
                in candidateBase @ suffixText))"

definition normalizeTeamSlug :: "string \<Rightarrow> string outcome" where
  "normalizeTeamSlug value =
     (let slug = normalizeTeamSlugBase value
      in if length slug < 2 \<or> length slug > MAX_TEAM_SLUG_LENGTH \<or> \<not> SLUG_ALLOWED_RE slug
         then fail BAD_REQUEST 400 else Inr slug)"

function team_slug_from ::
  "(string \<Rightarrow> bool) \<Rightarrow> string option \<Rightarrow> string \<Rightarrow> nat \<Rightarrow> string outcome" where
  "team_slug_from taken ignored base suffix =
     (if suffix < MAX_TEAM_SLUG_COLLISION_RETRIES then
        let candidate = buildTeamSlugCandidate base (if suffix = 0 then None else Some (suffix + 1))
        in if Some candidate = ignored then Inr candidate
           else if \<not> taken candidate then Inr candidate
           else team_slug_from taken ignored base (suffix + 1)
      else fail_with INTERNAL 500 ''TEAM_SLUG_COLLISION_RETRY_EXHAUSTED'')"
  by pat_completeness auto
termination
  by (relation "measure (\<lambda>(_, _, _, suffix). MAX_TEAM_SLUG_COLLISION_RETRIES - suffix)") auto

declare team_slug_from.simps [simp del]

definition deriveUniqueTeamSlug ::
  "(string \<Rightarrow> bool) \<Rightarrow> string \<Rightarrow> string option \<Rightarrow> string outcome" where
  "deriveUniqueTeamSlug taken name existingSlugToIgnore =
     team_slug_from taken (map_option js_trim existingSlugToIgnore) (normalizeTeamSlugBase name) 0"

definition ensureAvailableTeamSlug ::
  "(string \<Rightarrow> bool) \<Rightarrow> string \<Rightarrow> string option \<Rightarrow> string outcome" where
  "ensureAvailableTeamSlug taken slug existingSlugToIgnore =
     and_then (normalizeTeamSlug slug) (\<lambda>candidate.
       if Some candidate = map_option js_trim existingSlugToIgnore then Inr candidate
       else if taken candidate then fail BAD_REQUEST 400
       else Inr candidate)"

subsection \<open>Well-formed slugs\<close>

definition slug_char :: "char \<Rightarrow> bool" where
  "slug_char c \<longleftrightarrow> alnum c \<or> c = dash"

definition single_dashes :: "string \<Rightarrow> bool" where
  "single_dashes s \<longleftrightarrow> successively (\<lambda>a b. \<not> (a = dash \<and> b = dash)) s"

text \<open>A normalised slug: possibly empty, otherwise accepted by the pattern, with no two dashes
  in a row.\<close>

definition slug_ok :: "string \<Rightarrow> bool" where
  "slug_ok s \<longleftrightarrow>
     list_all slug_char s \<and> single_dashes s \<and> (s \<noteq> [] \<longrightarrow> alnum (hd s) \<and> alnum (last s))"

lemma not_alnum_dash [simp]: "\<not> alnum dash"
  by (simp add: alnum_def is_lower_def is_digit_def)

lemma alnum_not_dash: "alnum c \<Longrightarrow> c \<noteq> dash"
  by auto

lemma slug_ok_pattern: "slug_ok s \<Longrightarrow> s \<noteq> [] \<Longrightarrow> SLUG_ALLOWED_RE s"
  by (simp add: slug_ok_def SLUG_ALLOWED_RE_def slug_char_def[abs_def])

lemma replace_runs_chars:
  "list_all slug_char (replace_runs (\<lambda>c. \<not> alnum c) dash r s)"
  by (induction s arbitrary: r) (auto simp: slug_char_def)

lemma replace_runs_keeps:
  "list_all slug_char s \<Longrightarrow> list_all slug_char (replace_runs P dash r s)"
  by (induction s arbitrary: r) (auto simp: slug_char_def)

lemma replace_runs_single:
  "single_dashes (replace_runs (\<lambda>c. c = dash) dash r s) \<and>
   (r \<longrightarrow> (replace_runs (\<lambda>c. c = dash) dash r s = [] \<or>
            hd (replace_runs (\<lambda>c. c = dash) dash r s) \<noteq> dash))"
proof (induction s arbitrary: r)
  case (Cons c s)
  then show ?case
    using Cons[of True] Cons[of False]
    by (auto simp: single_dashes_def successively_Cons)
qed (simp add: single_dashes_def)

lemma single_dashes_suffix: "single_dashes (p @ s) \<Longrightarrow> single_dashes s"
  by (simp add: single_dashes_def successively_append_iff)

lemma single_dashes_prefix: "single_dashes (p @ s) \<Longrightarrow> single_dashes p"
  by (simp add: single_dashes_def successively_append_iff)

lemma strip_leading_split: "\<exists>p. s = p @ strip_leading s"
  unfolding strip_leading_def by (metis takeWhile_dropWhile_id)

lemma strip_trailing_split: "\<exists>p. s = strip_trailing s @ p"
  unfolding strip_trailing_def
  by (metis rev_append rev_rev_ident takeWhile_dropWhile_id)

lemma strip_trailing_last: "strip_trailing s \<noteq> [] \<Longrightarrow> last (strip_trailing s) \<noteq> dash"
  using hd_dropWhile[of "\<lambda>c. c = dash" "rev s"]
  by (auto simp: strip_trailing_def last_rev)

lemma strip_leading_hd: "strip_leading s \<noteq> [] \<Longrightarrow> hd (strip_leading s) \<noteq> dash"
  using hd_dropWhile[of "\<lambda>c. c = dash" s] by (auto simp: strip_leading_def)

lemma strip_trailing_nonempty: "s \<noteq> [] \<Longrightarrow> hd s \<noteq> dash \<Longrightarrow> strip_trailing s \<noteq> []"
  by (cases s) (auto simp: strip_trailing_def dropWhile_append)

lemma strip_trailing_id: "s = [] \<or> last s \<noteq> dash \<Longrightarrow> strip_trailing s = s"
  by (auto simp: strip_trailing_def dropWhile_id hd_rev)

lemma length_strip_trailing: "length (strip_trailing s) \<le> length s"
  by (metis strip_trailing_split length_append le_add1)

lemma strip_trailing_one: "single_dashes s \<Longrightarrow> length s \<le> Suc (length (strip_trailing s))"
proof (cases s rule: rev_cases)
  case (snoc t c)
  assume s: "single_dashes s"
  have "strip_trailing (t @ [c]) = (if c = dash then strip_trailing t else t @ [c])"
    by (simp add: strip_trailing_def)
  moreover have "strip_trailing t = t" if "c = dash"
    using s snoc that by (intro strip_trailing_id)
      (auto simp: single_dashes_def successively_append_iff)
  ultimately show ?thesis using snoc by auto
qed simp

lemma slug_ok_strip:
  assumes "list_all slug_char s" and "single_dashes s" and "s \<noteq> [] \<Longrightarrow> hd s \<noteq> dash"
  shows "slug_ok (strip_trailing s)"
proof -
  let ?t = "strip_trailing s"
  obtain p where p: "s = ?t @ p" using strip_trailing_split by blast
  have c: "list_all slug_char ?t" using assms(1) p by (metis list_all_append)
  have d: "single_dashes ?t" using assms(2) p by (metis single_dashes_prefix)
  have h: "hd ?t \<noteq> dash" if "?t \<noteq> []"
    using assms(3) p that by (metis append_is_Nil_conv hd_append2)
  from c have "slug_char (hd ?t) \<and> slug_char (last ?t)" if "?t \<noteq> []"
    using that by (auto simp: list_all_iff)
  with h strip_trailing_last[of s] c d show ?thesis
    by (auto simp: slug_ok_def slug_char_def)
qed

lemma slug_ok_base: "slug_ok (normalizeSlugBase name)"
proof -
  define r where "r = replace_runs (\<lambda>c. c = dash) dash False (replace_runs (\<lambda>c. \<not> alnum c) dash False
    (concat (map nfkd_ascii (js_lower (js_trim name)))))"
  obtain p where p: "r = p @ strip_leading r" using strip_leading_split by blast
  have "list_all slug_char r"
    unfolding r_def by (intro replace_runs_keeps replace_runs_chars)
  then have c: "list_all slug_char (strip_leading r)" using p by (metis list_all_append)
  have "single_dashes r" unfolding r_def using replace_runs_single by blast
  then have d: "single_dashes (strip_leading r)" using p by (metis single_dashes_suffix)
  have "slug_ok (strip_trailing (strip_leading r))"
    using c d strip_leading_hd by (rule slug_ok_strip)
  then show ?thesis by (simp add: normalizeSlugBase_def r_def Let_def)
qed

lemma slug_ok_take: "slug_ok s \<Longrightarrow> slug_ok (strip_trailing (take n s))"
proof (rule slug_ok_strip)
  assume s: "slug_ok s"
  have a: "take n s @ drop n s = s" by simp
  show "list_all slug_char (take n s)" using s a by (metis list_all_append slug_ok_def)
  show "single_dashes (take n s)" using s a by (metis single_dashes_prefix slug_ok_def)
  show "hd (take n s) \<noteq> dash" if "take n s \<noteq> []"
    using that s by (cases s; cases n) (auto simp: slug_ok_def)
qed

lemma strip_take_length:
  assumes "slug_ok s" and "0 < n" and "s \<noteq> []"
  shows "strip_trailing (take n s) \<noteq> []"
  using assms by (intro strip_trailing_nonempty) (auto simp: slug_ok_def hd_take)

subsection \<open>Organisation slugs are well formed\<close>

lemma suffix_chars_alnum: "list_all alnum suffix_chars" "length suffix_chars = 36"
  by (simp_all add: suffix_chars_def alnum_def is_lower_def is_digit_def)

lemma randomSuffix_alnum: "list_all alnum (randomSuffix bytes)"
  using suffix_chars_alnum by (auto simp: randomSuffix_def list_all_iff)

lemma length_randomSuffix [simp]: "length (randomSuffix bytes) = length bytes"
  by (simp add: randomSuffix_def)

text \<open>Two hyphens in a row: only in a slug of 120 characters, where a base cut after a hyphen meets
  the hyphen of the random suffix.\<close>

definition dashes_apart :: "string \<Rightarrow> bool" where
  "dashes_apart s \<longleftrightarrow>
     single_dashes s \<or>
     (length s = 120 \<and> s ! 114 = dash \<and> s ! 115 = dash \<and>
      single_dashes (take 115 s) \<and> single_dashes (drop 115 s))"

definition org_slug_ok :: "string \<Rightarrow> bool" where
  "org_slug_ok s \<longleftrightarrow>
     SLUG_ALLOWED_RE s \<and> 2 \<le> length s \<and> length s \<le> 120 \<and> s \<notin> set RESERVED_ORG_SLUGS \<and>
     dashes_apart s"

lemma dash_not_reserved: "dash \<in> set s \<Longrightarrow> s \<notin> set RESERVED_ORG_SLUGS"
  by (auto simp: RESERVED_ORG_SLUGS_def)

lemma suffixed_dashes_apart:
  assumes "slug_ok base" and "list_all alnum suffix" and "length suffix = 4"
  shows "dashes_apart (take 115 base @ [dash] @ suffix)"
proof -
  let ?b = "take 115 base"
  have b: "single_dashes ?b"
    using assms(1) by (metis append_take_drop_id single_dashes_prefix slug_ok_def)
  obtain w x y z where "suffix = [w, x, y, z]"
    using assms(3) by (auto simp: length_Suc_conv eval_nat_numeral)
  then have tail: "single_dashes (dash # suffix)"
    using assms(2) by (auto simp: single_dashes_def dest: alnum_not_dash)
  show ?thesis
  proof (cases "base \<noteq> [] \<and> last ?b = dash")
    case False
    then have "single_dashes (?b @ dash # suffix)"
      using b tail by (cases "?b = []") (auto simp: single_dashes_def successively_append_iff)
    then show ?thesis by (simp add: dashes_apart_def)
  next
    case True
    have long: "length ?b = 115"
    proof (rule ccontr)
      assume "length ?b \<noteq> 115"
      then have "?b = base" by auto
      with True assms(1) show False by (auto simp: slug_ok_def)
    qed
    then have "?b ! 114 = dash" using True by (subst (asm) last_conv_nth) auto
    then show ?thesis
      using long b tail assms(3) by (simp add: dashes_apart_def nth_append)
  qed
qed

lemma suffixed_slug_ok:
  assumes "slug_ok base" and "base \<noteq> []" and "list_all alnum suffix" and "length suffix = 4"
  shows "org_slug_ok (strip_trailing (take 115 base @ [dash] @ suffix))"
proof -
  let ?s = "take 115 base @ [dash] @ suffix"
  from assms(4) have ne: "suffix \<noteq> []" by auto
  with assms(3) have l: "suffix \<noteq> []" "alnum (last suffix)"
    by (simp_all add: list_all_iff)
  then have id: "strip_trailing ?s = ?s" by (intro strip_trailing_id) (auto dest: alnum_not_dash)
  have base: "base \<noteq> []" "alnum (hd base)" "list_all (\<lambda>c. alnum c \<or> c = dash) base"
    using slug_ok_pattern[OF assms(1,2)] by (simp_all add: SLUG_ALLOWED_RE_def)
  have "list_all (\<lambda>c. alnum c \<or> c = dash) (take 115 base)"
    using base(3) by (metis append_take_drop_id list_all_append)
  moreover have "list_all (\<lambda>c. alnum c \<or> c = dash) suffix"
    using assms(3) by (auto simp: list_all_iff)
  moreover have "hd ?s = hd base" using base(1) by (simp add: hd_append hd_take)
  ultimately have "SLUG_ALLOWED_RE ?s"
    using base l by (simp add: SLUG_ALLOWED_RE_def)
  moreover have "?s \<notin> set RESERVED_ORG_SLUGS" by (rule dash_not_reserved) simp
  moreover have "dashes_apart ?s" by (rule suffixed_dashes_apart[OF assms(1,3,4)])
  ultimately show ?thesis unfolding id org_slug_ok_def using assms(4) by auto
qed

lemma resolve_attempt_result:
  assumes "resolve_attempt taken bytes ignore base attempt candidate = Inr s"
    and "P candidate"
    and "\<And>i. P (strip_trailing (take 115 base @ [dash] @ randomSuffix (bytes i)))"
  shows "P s \<and> (Some s = ignore \<or> \<not> taken s)"
  using assms
proof (induction taken bytes ignore base attempt candidate rule: resolve_attempt.induct)
  case (1 taken bytes ignore base attempt candidate)
  show ?case
    using "1.prems"(1)[unfolded resolve_attempt.simps[of taken bytes ignore base attempt candidate]]
      "1.IH" "1.prems"(2,3)
    by (auto simp: SLUG_SUFFIX_LENGTH_def split: if_splits)
qed

lemma derived_slug:
  assumes "deriveSlugWithValidation taken bytes name ignore = Inr s"
    and bytes: "\<And>i. length (bytes i) = SLUG_SUFFIX_LENGTH"
  shows "org_slug_ok s \<and> (Some s = map_option js_trim ignore \<or> \<not> taken s)"
proof -
  define base where "base = normalizeSlugBase name"
  define final where "final = (if length base > 120 then strip_trailing (take 120 base) else base)"
  have ok: "slug_ok base" by (simp add: base_def slug_ok_base)
  have okf: "slug_ok final" using ok by (simp add: final_def slug_ok_take)
  have len: "2 \<le> length final"
    using assms(1) by (auto simp: deriveSlugWithValidation_def base_def final_def Let_def split: if_splits)
  have "length final \<le> 120"
    using length_strip_trailing[of "take 120 base"] by (auto simp: final_def)
  moreover have p: "SLUG_ALLOWED_RE final" using len okf by (intro slug_ok_pattern) auto
  moreover have "final \<notin> set RESERVED_ORG_SLUGS"
  proof (cases "length base > 120")
    case True
    then have "120 \<le> Suc (length final)"
      using strip_trailing_one[of "take 120 base"] ok
      by (simp add: final_def slug_ok_def) (metis append_take_drop_id single_dashes_prefix)
    then show ?thesis by (auto simp: RESERVED_ORG_SLUGS_def)
  next
    case False
    then show ?thesis
      using assms(1) by (auto simp: deriveSlugWithValidation_def base_def final_def Let_def split: if_splits)
  qed
  moreover have "dashes_apart final" using okf by (simp add: dashes_apart_def slug_ok_def)
  ultimately have "org_slug_ok final" using len by (simp add: org_slug_ok_def)
  moreover have "org_slug_ok (strip_trailing (take 115 final @ [dash] @ randomSuffix (bytes i)))" for i
    using okf len randomSuffix_alnum bytes by (intro suffixed_slug_ok) (auto simp: SLUG_SUFFIX_LENGTH_def)
  moreover have "resolve_attempt taken bytes (map_option js_trim ignore) final 0 final = Inr s"
    using assms(1)
    by (auto simp: deriveSlugWithValidation_def base_def final_def Let_def
        resolveUniqueSlugWithCollisionRetries_def split: if_splits)
  ultimately show ?thesis by (intro resolve_attempt_result[where P = org_slug_ok]) auto
qed

subsection \<open>Team slugs are well formed, stable and always found\<close>

definition team_slug_ok :: "string \<Rightarrow> bool" where
  "team_slug_ok s \<longleftrightarrow> SLUG_ALLOWED_RE s \<and> 2 \<le> length s \<and> length s \<le> MAX_TEAM_SLUG_LENGTH"

lemma fallback_ok: "slug_ok TEAM_SLUG_FALLBACK" "length TEAM_SLUG_FALLBACK = 4"
  by (simp_all add: slug_ok_def TEAM_SLUG_FALLBACK_def slug_char_def single_dashes_def alnum_def
      is_lower_def is_digit_def)

lemma team_base_ok:
  "slug_ok (normalizeTeamSlugBase v)" "2 \<le> length (normalizeTeamSlugBase v)"
  "length (normalizeTeamSlugBase v) \<le> 120"
proof -
  define base where
    "base = (if normalizeSlugBase v = [] then TEAM_SLUG_FALLBACK else normalizeSlugBase v)"
  define trimmed where "trimmed = strip_trailing (take 120 base)"
  have "slug_ok base" by (simp add: base_def slug_ok_base fallback_ok)
  then have t: "slug_ok trimmed" "length trimmed \<le> 120"
    using length_strip_trailing[of "take 120 base"] by (simp_all add: trimmed_def slug_ok_take)
  have eq: "normalizeTeamSlugBase v = (if 2 \<le> length trimmed then trimmed else TEAM_SLUG_FALLBACK)"
    by (simp add: normalizeTeamSlugBase_def trimmed_def base_def MAX_TEAM_SLUG_LENGTH_def Let_def)
  show "slug_ok (normalizeTeamSlugBase v)" "2 \<le> length (normalizeTeamSlugBase v)"
    "length (normalizeTeamSlugBase v) \<le> 120"
    using t fallback_ok by (simp_all add: eq)
qed

lemma length_digits_of_bound: "n < 10 ^ Suc k \<Longrightarrow> length (digits_of n) \<le> Suc k"
proof (induction k arbitrary: n)
  case (Suc k)
  then show ?case by (subst digits_of.simps) auto
qed (simp add: digits_of.simps)

lemma all_digits_slug: "all_digits d \<Longrightarrow> list_all (\<lambda>c. alnum c \<or> c = dash) d"
  by (auto simp: all_digits_def list_all_iff alnum_def)

lemma candidate_suffix_form:
  assumes "0 < n"
  obtains b where "buildTeamSlugCandidate base (Some n) = b @ dash # digits_of n"
    and "b = TEAM_SLUG_FALLBACK \<or>
         b = strip_trailing (take (max 1 (120 - Suc (length (digits_of n)))) base) \<and> 2 \<le> length b"
  using assms that
  by (simp add: buildTeamSlugCandidate_def Let_def MAX_TEAM_SLUG_LENGTH_def split: if_splits)

lemma candidate_ok:
  assumes "slug_ok base" and "2 \<le> length base" and "length base \<le> 120" and "n < 100000"
  shows "team_slug_ok (buildTeamSlugCandidate base (Some n))"
proof (cases "n = 0")
  case True
  then show ?thesis
    using assms by (auto simp: buildTeamSlugCandidate_def team_slug_ok_def
        MAX_TEAM_SLUG_LENGTH_def intro: slug_ok_pattern)
next
  case False
  let ?d = "digits_of n"
  have d: "length ?d \<le> 5" using length_digits_of_bound[of n 4] assms(4) by simp
  obtain b where c: "buildTeamSlugCandidate base (Some n) = b @ dash # ?d"
    and b: "b = TEAM_SLUG_FALLBACK \<or>
         b = strip_trailing (take (max 1 (120 - Suc (length ?d))) base) \<and> 2 \<le> length b"
    using candidate_suffix_form False by blast
  have "slug_ok b" using b fallback_ok slug_ok_take[OF assms(1)] by auto
  moreover have "2 \<le> length b \<and> length b + Suc (length ?d) \<le> 120"
    using b d fallback_ok length_strip_trailing[of "take (max 1 (120 - Suc (length ?d))) base"]
    by auto
  moreover have "list_all (\<lambda>c. alnum c \<or> c = dash) ?d"
    by (rule all_digits_slug) simp
  moreover have "is_digit (last ?d)"
    using all_digits_of[of n] by (simp add: all_digits_def list_all_iff)
  ultimately show ?thesis
    using slug_ok_pattern[of b] unfolding c
    by (auto simp: team_slug_ok_def SLUG_ALLOWED_RE_def MAX_TEAM_SLUG_LENGTH_def hd_append alnum_def)
qed

lemma digits_no_dash: "dash \<notin> set (digits_of n)"
  using all_digits_of[of n] by (auto simp: all_digits_def list_all_iff)

lemma dash_free_takeWhile: "dash \<notin> set s \<Longrightarrow> takeWhile (\<lambda>c. c \<noteq> dash) (rev s) = rev s"
  by (subst takeWhile_eq_all_conv) auto

lemma candidate_inj:
  assumes "0 < m" and "0 < n"
    and "buildTeamSlugCandidate base (Some m) = buildTeamSlugCandidate base (Some n)"
  shows "m = n"
proof -
  obtain a b where "a @ dash # digits_of m = b @ dash # digits_of n"
    using assms candidate_suffix_form by metis
  then have "takeWhile (\<lambda>c. c \<noteq> dash) (rev (a @ dash # digits_of m)) =
      takeWhile (\<lambda>c. c \<noteq> dash) (rev (b @ dash # digits_of n))" by (simp only:)
  then have "rev (digits_of m) = rev (digits_of n)"
    using digits_no_dash[of m] digits_no_dash[of n] by (simp add: takeWhile_tail dash_free_takeWhile)
  then show ?thesis by (metis dec_nat_digits_of rev_rev_ident)
qed

definition nth_candidate :: "string \<Rightarrow> nat \<Rightarrow> string" where
  "nth_candidate base k = buildTeamSlugCandidate base (if k = 0 then None else Some (k + 1))"

lemma team_slug_from_step:
  "team_slug_from taken ignored base k =
     (if k < MAX_TEAM_SLUG_COLLISION_RETRIES then
        if Some (nth_candidate base k) = ignored \<or> \<not> taken (nth_candidate base k)
        then Inr (nth_candidate base k) else team_slug_from taken ignored base (k + 1)
      else fail_with INTERNAL 500 ''TEAM_SLUG_COLLISION_RETRY_EXHAUSTED'')"
  by (subst team_slug_from.simps) (simp add: nth_candidate_def Let_def)

lemma team_slug_from_result:
  "team_slug_from taken ignored base k = Inr s \<Longrightarrow>
     (\<exists>j < MAX_TEAM_SLUG_COLLISION_RETRIES. s = nth_candidate base j) \<and>
     (Some s = ignored \<or> \<not> taken s)"
proof (induction taken ignored base k rule: team_slug_from.induct)
  case (1 taken ignored base k)
  note run = "1.prems"[unfolded team_slug_from_step[of taken ignored base k]]
  show ?case
  proof (cases "Some (nth_candidate base k) = ignored \<or> \<not> taken (nth_candidate base k)")
    case True
    with run have "k < MAX_TEAM_SLUG_COLLISION_RETRIES" "s = nth_candidate base k"
      by (simp_all split: if_splits)
    with True show ?thesis by blast
  next
    case False
    with run have "k < MAX_TEAM_SLUG_COLLISION_RETRIES" "team_slug_from taken ignored base (k + 1) = Inr s"
      by (simp_all split: if_splits)
    with "1.IH" False show ?thesis by (simp add: nth_candidate_def)
  qed
qed

lemma team_slug_from_error:
  "team_slug_from taken ignored base k = Inl e \<Longrightarrow> k \<le> j \<Longrightarrow>
     j < MAX_TEAM_SLUG_COLLISION_RETRIES \<Longrightarrow> taken (nth_candidate base j)"
proof (induction taken ignored base k rule: team_slug_from.induct)
  case (1 taken ignored base k)
  have e: "Some (nth_candidate base k) \<noteq> ignored" "taken (nth_candidate base k)"
    "team_slug_from taken ignored base (k + 1) = Inl e"
    using "1.prems"(1,2,3) unfolding team_slug_from_step[of taken ignored base k]
    by (auto split: if_splits)
  show ?case
  proof (cases "j = k")
    case False
    then show ?thesis using "1.IH" "1.prems" e by (auto simp: nth_candidate_def)
  qed (simp add: e)
qed

lemma nth_candidate_ok:
  assumes "j < MAX_TEAM_SLUG_COLLISION_RETRIES"
  shows "team_slug_ok (nth_candidate (normalizeTeamSlugBase v) j)"
proof (cases "j = 0")
  case True
  then show ?thesis
    using candidate_ok[OF team_base_ok, of 0 v]
    by (simp add: nth_candidate_def buildTeamSlugCandidate_def)
next
  case False
  with assms show ?thesis
    using candidate_ok[OF team_base_ok, of "j + 1" v]
    by (simp add: nth_candidate_def MAX_TEAM_SLUG_COLLISION_RETRIES_def)
qed

lemma derived_team_slug:
  assumes "deriveUniqueTeamSlug taken name ignore = Inr s"
  shows "team_slug_ok s" and "Some s = map_option js_trim ignore \<or> \<not> taken s"
  using team_slug_from_result[OF assms[unfolded deriveUniqueTeamSlug_def]] nth_candidate_ok
  by auto

lemma team_slug_found:
  assumes "deriveUniqueTeamSlug (\<lambda>s. s \<in> set used) name ignore = Inl e"
  shows "9999 \<le> length used"
proof -
  let ?c = "\<lambda>k. buildTeamSlugCandidate (normalizeTeamSlugBase name) (Some k)"
  have "?c k \<in> set used" if "k \<in> {2..10000}" for k
    using team_slug_from_error[OF assms[unfolded deriveUniqueTeamSlug_def], of "k - 1"] that
    by (auto simp: nth_candidate_def MAX_TEAM_SLUG_COLLISION_RETRIES_def split: if_splits)
  then have sub: "?c ` {2..10000} \<subseteq> set used" by blast
  have "inj_on ?c {2..10000}" by (rule inj_onI) (auto intro: candidate_inj)
  then have "card (?c ` {2..10000}) = 9999" by (simp add: card_image)
  with card_mono[OF _ sub] have "9999 \<le> card (set used)" by simp
  also have "\<dots> \<le> length used" by (rule card_length)
  finally show ?thesis .
qed

subsection \<open>Normalisation is stable\<close>

lemma slug_char_facts:
  assumes "slug_char c"
  shows "lower_char c = c" "\<not> js_space c" "nfkd_ascii c = [c]"
proof -
  define n where "n = (of_char c :: nat)"
  have "n = 45" if "c = dash" using that by (simp add: n_def)
  then have n: "n = 45 \<or> 48 \<le> n \<and> n \<le> 57 \<or> 97 \<le> n \<and> n \<le> 122"
    using assms by (auto simp: slug_char_def alnum_def is_lower_def is_digit_def n_def[symmetric])
  then have "\<not> (65 \<le> n \<and> n \<le> 90 \<or> 192 \<le> n \<and> n \<le> 222 \<and> n \<noteq> 215)" by linarith
  then show "lower_char c = c" unfolding lower_char_def Let_def n_def[symmetric] by (rule if_not_P)
  from n have "n \<notin> {9, 10, 11, 12, 13, 32, 160}" by auto
  then show "\<not> js_space c" by (simp only: js_space_def n_def[symmetric] not_False_eq_True)
  from n have "32 \<le> n \<and> n \<le> 126" by linarith
  then show "nfkd_ascii c = [c]" unfolding nfkd_ascii_def Let_def n_def[symmetric] by (rule if_P)
qed

lemma js_trim_id:
  assumes "\<forall>c \<in> set s. \<not> js_space c"
  shows "js_trim s = s"
proof -
  have drop: "dropWhile js_space t = t" if "set t = set s" for t
    using assms that by (intro dropWhile_id) (metis hd_in_set)
  show ?thesis unfolding js_trim_def drop[OF refl] using drop[of "rev s"] by simp
qed

lemma replace_runs_id:
  "list_all slug_char s \<Longrightarrow> single_dashes s \<Longrightarrow> \<not> (r \<and> s \<noteq> [] \<and> hd s = dash) \<Longrightarrow>
     replace_runs (\<lambda>c. \<not> alnum c) dash r s = s \<and> replace_runs (\<lambda>c. c = dash) dash r s = s"
proof (induction s arbitrary: r)
  case (Cons c s)
  then have "single_dashes s" "c = dash \<Longrightarrow> s \<noteq> [] \<Longrightarrow> hd s \<noteq> dash"
    by (auto simp: single_dashes_def successively_Cons)
  with Cons show ?case by (auto simp: slug_char_def)
qed simp

lemma normalizeSlugBase_id: "slug_ok s \<Longrightarrow> normalizeSlugBase s = s"
proof -
  assume s: "slug_ok s"
  then have c: "list_all slug_char s" by (simp add: slug_ok_def)
  then have "js_trim s = s" "js_lower s = s"
    by (auto simp: list_all_iff js_lower_def slug_char_facts intro!: js_trim_id map_idI)
  moreover have "concat (map nfkd_ascii s) = s"
    using c by (induction s) (auto simp: slug_char_facts)
  moreover have "strip_leading s = s"
    unfolding strip_leading_def by (rule dropWhile_id) (use s in \<open>auto simp: slug_ok_def\<close>)
  moreover have "strip_trailing s = s"
    by (rule strip_trailing_id) (use s in \<open>auto simp: slug_ok_def\<close>)
  ultimately show ?thesis
    using replace_runs_id[OF c, of False] s by (simp add: normalizeSlugBase_def slug_ok_def)
qed

lemma normalizeTeamSlugBase_id:
  assumes "slug_ok s" and "2 \<le> length s" and "length s \<le> 120"
  shows "normalizeTeamSlugBase s = s"
  using assms normalizeSlugBase_id[of s]
  by (auto simp: normalizeTeamSlugBase_def Let_def MAX_TEAM_SLUG_LENGTH_def slug_ok_def
      strip_trailing_id dest: alnum_not_dash)

lemma normalizeTeamSlug_total: "normalizeTeamSlug v = Inr (normalizeTeamSlugBase v)"
proof -
  have "normalizeTeamSlugBase v \<noteq> []" using team_base_ok(2)[of v] by auto
  then have "SLUG_ALLOWED_RE (normalizeTeamSlugBase v)"
    using team_base_ok(1) by (intro slug_ok_pattern)
  with team_base_ok(2,3)[of v] show ?thesis
    by (simp add: normalizeTeamSlug_def Let_def MAX_TEAM_SLUG_LENGTH_def)
qed

subsection \<open>The seam\<close>

text \<open>The exception happens: the name below is taken, and the slug derived for it carries two
  hyphens in a row.\<close>

definition seam_name :: string where
  "seam_name = replicate 114 (CHR ''a'') @ ''-bbbbb''"

lemma suffixed_slug_doubles_hyphen:
  "deriveSlugWithValidation (\<lambda>s. s = seam_name) (\<lambda>i. [0, 1, 2, 30]) seam_name None =
     Inr (replicate 114 (CHR ''a'') @ ''--abc4'')"
  by code_simp

subsection \<open>Properties\<close>

text \<open>
  C38: a derived organisation slug matches the slug pattern, has between 2 and 120 characters, is
  not a reserved word, and is free on the domain unless it is the slug the organisation already
  has - also after truncation and random suffixes. It has no two hyphens in a row, except where the
  code breaks the rule of \<^verbatim>\<open>Docs/brief.md\<close> 24.4: in a slug of exactly 120 characters whose base was
  cut after a hyphen, at the seam to the random suffix.
\<close>

theorem organisation_slug_well_formed:
  assumes "deriveSlugWithValidation taken bytes name existing = Inr s"
    and "\<And>i. length (bytes i) = SLUG_SUFFIX_LENGTH"
  shows "SLUG_ALLOWED_RE s \<and> 2 \<le> length s \<and> length s \<le> 120 \<and> s \<notin> set RESERVED_ORG_SLUGS \<and>
    (single_dashes s \<or>
     length s = 120 \<and> s ! 114 = dash \<and> s ! 115 = dash \<and>
     single_dashes (take 115 s) \<and> single_dashes (drop 115 s)) \<and>
    (Some s = map_option js_trim existing \<or> \<not> taken s)"
  using derived_slug[OF assms] by (simp add: org_slug_ok_def dashes_apart_def)

theorem organisation_slug_well_formed_witness:
  "deriveSlugWithValidation (\<lambda>s. s = ''caf-e'') (\<lambda>i. [0, 1, 2, 30]) ''  Caf & E! '' None =
     Inr ''caf-e-abc4'' \<and> SLUG_ALLOWED_RE ''caf-e-abc4''"
proof -
  have base: "normalizeSlugBase ''  Caf & E! '' = ''caf-e''" by code_simp
  have next_slug: "strip_trailing (take (max 1 (120 - (1 + SLUG_SUFFIX_LENGTH))) ''caf-e'' @ [dash] @
      randomSuffix [0, 1, 2, 30]) = ''caf-e-abc4''" by code_simp
  have "resolve_attempt (\<lambda>s. s = ''caf-e'') (\<lambda>i. [0, 1, 2, 30]) None ''caf-e'' 0 ''caf-e'' =
      Inr ''caf-e-abc4''"
    by (subst resolve_attempt.simps, subst resolve_attempt.simps)
      (simp only: next_slug, simp add: SLUG_RANDOM_SUFFIX_MAX_ATTEMPTS_def)
  then have run: "deriveSlugWithValidation (\<lambda>s. s = ''caf-e'') (\<lambda>i. [0, 1, 2, 30]) ''  Caf & E! '' None =
     Inr ''caf-e-abc4''"
    by (simp add: deriveSlugWithValidation_def base resolveUniqueSlugWithCollisionRetries_def
        SLUG_ALLOWED_RE_def RESERVED_ORG_SLUGS_def alnum_def is_lower_def is_digit_def)
  from organisation_slug_well_formed[OF run] have "SLUG_ALLOWED_RE ''caf-e-abc4''"
    by (simp add: SLUG_SUFFIX_LENGTH_def)
  with run show ?thesis ..
qed

text \<open>
  C39: in an organisation with fewer than 9,999 teams the counting loop always finds a slug, for
  any team name; the slug is free and well formed. Explicit slugs are normalised to a fixed point.
\<close>

theorem team_slug_always_found:
  assumes "length used < 9999"
  shows "(\<exists>s. deriveUniqueTeamSlug (\<lambda>c. c \<in> set used) name None = Inr s \<and> s \<notin> set used \<and>
            SLUG_ALLOWED_RE s \<and> 2 \<le> length s \<and> length s \<le> MAX_TEAM_SLUG_LENGTH) \<and>
         (\<exists>t. normalizeTeamSlug name = Inr t \<and> normalizeTeamSlug t = Inr t)"
proof
  obtain s where s: "deriveUniqueTeamSlug (\<lambda>c. c \<in> set used) name None = Inr s"
    using team_slug_found[of used name None] assms
    by (cases "deriveUniqueTeamSlug (\<lambda>c. c \<in> set used) name None") auto
  then show "\<exists>s. deriveUniqueTeamSlug (\<lambda>c. c \<in> set used) name None = Inr s \<and> s \<notin> set used \<and>
      SLUG_ALLOWED_RE s \<and> 2 \<le> length s \<and> length s \<le> MAX_TEAM_SLUG_LENGTH"
    using derived_team_slug[OF s] by (auto simp: team_slug_ok_def)
  show "\<exists>t. normalizeTeamSlug name = Inr t \<and> normalizeTeamSlug t = Inr t"
    using normalizeTeamSlugBase_id[OF team_base_ok] by (simp add: normalizeTeamSlug_total)
qed

theorem team_slug_always_found_witness:
  "\<exists>s. deriveUniqueTeamSlug (\<lambda>c. c \<in> set [''general'', ''general-2'']) ''General'' None = Inr s \<and>
     s \<notin> {''general'', ''general-2''}"
  using team_slug_always_found[of "[''general'', ''general-2'']" "''General''"] by auto

end
