(* ===== verification/Avatar_Urls.thy ===== *)
theory Avatar_Urls
  imports Uoa_Prelude
begin

section \<open>Avatar image URLs\<close>

text \<open>
  \<^verbatim>\<open>API/src/utils/avatar-url.ts\<close>: the absolute URLs that accompany every user and team in
  a response. \<open>encodeURIComponent\<close> is the function of the JavaScript library on the characters
  of the model: unreserved characters stay, everything else becomes its UTF-8 bytes in
  \<^verbatim>\<open>%XX\<close> form. \<open>decodeURIComponent\<close>, which a router applies to a path segment or a query
  parameter, is written out on such texts to state that nothing is lost or confused.
\<close>

subsection \<open>Percent encoding\<close>

definition hex_digit :: "nat \<Rightarrow> char" where
  "hex_digit n = (if n < 10 then char_of (48 + n) else char_of (55 + n))"

definition hex_val :: "char \<Rightarrow> nat" where
  "hex_val c = (let n = of_char c in if n < 58 then n - 48 else n - 55)"

definition unreserved :: "char \<Rightarrow> bool" where
  "unreserved c \<longleftrightarrow> is_digit c \<or> is_upper c \<or> is_lower c \<or> c \<in> set ''-_.!~*()'' \<or> c = CHR 0x27"

definition percent :: "nat \<Rightarrow> string" where
  "percent byte = [CHR ''%'', hex_digit (byte div 16), hex_digit (byte mod 16)]"

definition encode_char :: "char \<Rightarrow> string" where
  "encode_char c =
     (if unreserved c then [c]
      else let n = (of_char c :: nat)
           in if n < 128 then percent n else percent (192 + n div 64) @ percent (128 + n mod 64))"

definition encodeURIComponent :: "string \<Rightarrow> string" where
  "encodeURIComponent s = concat (map encode_char s)"

fun decode_bytes :: "string \<Rightarrow> nat list" where
  "decode_bytes [] = []"
| "decode_bytes (c # cs) =
     (if c = CHR ''%'' then
        (case cs of a # b # rest \<Rightarrow> (hex_val a * 16 + hex_val b) # decode_bytes rest | _ \<Rightarrow> [])
      else of_char c # decode_bytes cs)"

fun utf8_chars :: "nat list \<Rightarrow> string" where
  "utf8_chars [] = []"
| "utf8_chars (n # ns) =
     (if n < 128 then char_of n # utf8_chars ns
      else (case ns of m # rest \<Rightarrow> char_of ((n - 192) * 64 + (m - 128)) # utf8_chars rest | [] \<Rightarrow> []))"

definition decodeURIComponent :: "string \<Rightarrow> string" where
  "decodeURIComponent s = utf8_chars (decode_bytes s)"

subsection \<open>The builders\<close>

definition normalizeBaseUrl :: "string option \<Rightarrow> string" where
  "normalizeBaseUrl baseUrl =
     rev (dropWhile (\<lambda>c. c = CHR ''/'')
       (rev (js_trim (case baseUrl of None \<Rightarrow> [] | Some u \<Rightarrow> u))))"

definition avatarImageBaseUrl :: "string option \<Rightarrow> string" where
  "avatarImageBaseUrl publicBaseUrl = normalizeBaseUrl publicBaseUrl"

definition domainAvatarImageUrl :: "string option \<Rightarrow> string \<Rightarrow> string \<Rightarrow> string" where
  "domainAvatarImageUrl baseUrl domain userId =
     normalizeBaseUrl baseUrl @ ''/domain/users/'' @ encodeURIComponent userId @ ''/avatar'' @
     ''?domain='' @ encodeURIComponent domain"

definition adminAvatarImageUrl :: "string option \<Rightarrow> string \<Rightarrow> string" where
  "adminAvatarImageUrl baseUrl userId =
     normalizeBaseUrl baseUrl @ ''/internal/admin/users/'' @ encodeURIComponent userId @ ''/avatar''"

definition domainTeamAvatarImageUrl :: "string option \<Rightarrow> string \<Rightarrow> string \<Rightarrow> string" where
  "domainTeamAvatarImageUrl baseUrl domain teamId =
     normalizeBaseUrl baseUrl @ ''/domain/teams/'' @ encodeURIComponent teamId @ ''/avatar'' @
     ''?domain='' @ encodeURIComponent domain"

definition publicTeamAvatarImageUrl :: "string option \<Rightarrow> string \<Rightarrow> string" where
  "publicTeamAvatarImageUrl baseUrl teamId =
     normalizeBaseUrl baseUrl @ ''/teams/'' @ encodeURIComponent teamId @ ''/avatar''"

definition adminTeamAvatarImageUrl :: "string option \<Rightarrow> string \<Rightarrow> string" where
  "adminTeamAvatarImageUrl baseUrl teamId =
     normalizeBaseUrl baseUrl @ ''/internal/admin/teams/'' @ encodeURIComponent teamId @ ''/avatar''"

subsection \<open>Nothing is lost in the encoding\<close>

lemma hex_round [simp]: "n < 16 \<Longrightarrow> hex_val (hex_digit n) = n"
  by (simp add: hex_val_def hex_digit_def of_char_of Let_def)

lemma decode_percent [simp]:
  "byte < 256 \<Longrightarrow> decode_bytes (percent byte @ s) = byte # decode_bytes s"
  by (simp add: percent_def)

lemma unreserved_not_percent: "unreserved c \<Longrightarrow> c \<noteq> CHR ''%''"
  by (auto simp: unreserved_def is_digit_def is_upper_def is_lower_def)

lemma unreserved_ascii: "unreserved c \<Longrightarrow> (of_char c :: nat) < 128"
  by (auto simp: unreserved_def is_digit_def is_upper_def is_lower_def)

lemma decode_encode_char:
  "utf8_chars (decode_bytes (encode_char c @ s)) = c # utf8_chars (decode_bytes s)"
proof -
  define n where "n = (of_char c :: nat)"
  have c: "char_of n = c" by (simp add: n_def)
  have bound: "n < 256" by (simp add: n_def of_char_bound)
  consider "unreserved c" | "\<not> unreserved c" "n < 128" | "\<not> unreserved c" "128 \<le> n" by linarith
  then show ?thesis
  proof cases
    case 1
    then show ?thesis
      using unreserved_not_percent[OF 1] unreserved_ascii[OF 1] by (simp add: encode_char_def)
  next
    case 2
    then show ?thesis by (simp add: encode_char_def n_def[symmetric] Let_def c)
  next
    case 3
    have d: "192 + n div 64 < 256" "128 + n mod 64 < 256" using bound by auto
    have "n div 64 * 64 + n mod 64 = n" by simp
    then have "char_of ((192 + n div 64 - 192) * 64 + (128 + n mod 64 - 128)) = c"
      using c by simp
    then show ?thesis using 3 d by (simp add: encode_char_def n_def[symmetric] Let_def)
  qed
qed

lemma decode_encode: "decodeURIComponent (encodeURIComponent s) = s"
proof -
  have "utf8_chars (decode_bytes (concat (map encode_char s))) = s"
    by (induction s) (simp_all add: decode_encode_char)
  then show ?thesis by (simp add: decodeURIComponent_def encodeURIComponent_def)
qed

lemma hex_digit_unreserved: "n < 16 \<Longrightarrow> unreserved (hex_digit n)"
  by (auto simp: hex_digit_def unreserved_def is_digit_def is_upper_def of_char_of)

lemma encode_chars:
  assumes "c \<in> set (encodeURIComponent s)"
  shows "unreserved c \<or> c = CHR ''%''"
proof -
  have p: "c \<in> set (percent byte) \<Longrightarrow> byte < 256 \<Longrightarrow> unreserved c \<or> c = CHR ''%''" for byte
    by (auto simp: percent_def intro!: hex_digit_unreserved)
  have "c \<in> set (encode_char d) \<Longrightarrow> unreserved c \<or> c = CHR ''%''" for d
  proof -
    assume c: "c \<in> set (encode_char d)"
    define n where "n = (of_char d :: nat)"
    have n: "n < 256" by (simp add: n_def of_char_bound)
    then have "192 + n div 64 < 256" "128 + n mod 64 < 256" by auto
    with c n p[of n] p[of "192 + n div 64"] p[of "128 + n mod 64"]
    show "unreserved c \<or> c = CHR ''%''"
      by (auto simp: encode_char_def Let_def n_def[symmetric] split: if_splits)
  qed
  with assms show ?thesis by (auto simp: encodeURIComponent_def)
qed

lemma encode_no_separator:
  "CHR ''/'' \<notin> set (encodeURIComponent s)" "CHR ''?'' \<notin> set (encodeURIComponent s)"
  "CHR ''&'' \<notin> set (encodeURIComponent s)" "CHR ''#'' \<notin> set (encodeURIComponent s)"
  using encode_chars[of "CHR ''/''" s] encode_chars[of "CHR ''?''" s]
    encode_chars[of "CHR ''&''" s] encode_chars[of "CHR ''#''" s]
  by (auto simp: unreserved_def is_digit_def is_upper_def is_lower_def)

lemma takeWhile_segment: "x \<notin> set a \<Longrightarrow> takeWhile (\<lambda>c. c \<noteq> x) (a @ x # s) = a"
  by (induction a) auto

lemma dropWhile_segment: "x \<notin> set a \<Longrightarrow> dropWhile (\<lambda>c. c \<noteq> x) (a @ x # s) = x # s"
  by (induction a) auto

text \<open>
  The avatar URL of a user is a faithful address: the path segment after the fixed prefix ends
  at the next slash and decodes to the user id, and the query value decodes to the domain, for
  every id and every domain - whatever reserved characters they contain.
\<close>

theorem avatar_url_roundtrip:
  "\<exists>rest. domainAvatarImageUrl base domain userId =
       (normalizeBaseUrl base @ ''/domain/users/'') @ rest \<and>
     decodeURIComponent (takeWhile (\<lambda>c. c \<noteq> CHR ''/'') rest) = userId \<and>
     decodeURIComponent (drop (length ''?domain='') (dropWhile (\<lambda>c. c \<noteq> CHR ''?'') rest)) = domain"
proof (intro exI conjI)
  let ?rest = "encodeURIComponent userId @ CHR ''/'' # ''avatar?domain='' @ encodeURIComponent domain"
  show "domainAvatarImageUrl base domain userId =
      (normalizeBaseUrl base @ ''/domain/users/'') @ ?rest"
    by (simp add: domainAvatarImageUrl_def)
  show "decodeURIComponent (takeWhile (\<lambda>c. c \<noteq> CHR ''/'') ?rest) = userId"
    by (simp only: takeWhile_segment[OF encode_no_separator(1)] decode_encode)
  have "?rest = (encodeURIComponent userId @ ''/avatar'') @ CHR ''?'' # ''domain='' @ encodeURIComponent domain"
    by simp
  moreover have "CHR ''?'' \<notin> set (encodeURIComponent userId @ ''/avatar'')"
    using encode_no_separator(2)[of userId] by simp
  ultimately have "dropWhile (\<lambda>c. c \<noteq> CHR ''?'') ?rest =
      CHR ''?'' # ''domain='' @ encodeURIComponent domain"
    by (metis dropWhile_segment)
  then show "decodeURIComponent (drop (length ''?domain='') (dropWhile (\<lambda>c. c \<noteq> CHR ''?'') ?rest)) = domain"
    by (simp add: decode_encode)
qed

end
