(* ===== verification/Org_Model.thy ===== *)
theory Org_Model
  imports Role_Grants Refresh_Store Slugs Avatar_Urls
begin

section \<open>Organisations, teams and memberships: the store and the shared guards\<close>

text \<open>
  The tables the organisation and team services work on, and what the services share:
  \<^verbatim>\<open>organisation.resolve.ts\<close>, \<^verbatim>\<open>organisation.service.base.ts\<close>,
  \<^verbatim>\<open>team.service.base.ts\<close> and \<^verbatim>\<open>org-audit-log.service.ts\<close> under
  \<^verbatim>\<open>API/src/services\<close>. A table is the list of its rows; the unique indexes and foreign
  keys of \<^verbatim>\<open>API/prisma/schema.prisma\<close> are checked by the write primitives, which answer
  with the client's error codes. A \<open>findFirst\<close> or \<open>findMany\<close> without an order reads in table
  order.

  A handler takes an environment: the clock, the identifiers the database will generate, the
  random bytes, and \<open>awaitLock\<close> - what other transactions commit between the handler's checks
  and the moment its own transaction holds its row locks (the identity when it runs alone).
\<close>

subsection \<open>Rows\<close>

datatype membership_status = ACTIVE | DEACTIVATED | REMOVED

datatype org_member_invites = Invites_Allowed | Admin_Approval | Invites_Disabled

datatype team_join_policy = INVITE_ONLY | APPROVED_DOMAIN | REQUEST_TO_JOIN | OPEN_TO_ORG | HIDDEN

record organisation =
  o_id :: string
  o_domain :: string
  o_name :: string
  o_slug :: string
  o_ownerId :: string
  o_memberInvites :: org_member_invites
  o_iconUrl :: "string option"
  o_createdAt :: int
  o_updatedAt :: int

record org_member =
  om_id :: string
  om_orgId :: string
  om_userId :: string
  om_role :: string
  om_status :: membership_status
  om_statusChangedAt :: "int option"
  om_createdAt :: int
  om_updatedAt :: int

record team =
  t_id :: string
  t_orgId :: string
  t_groupId :: "string option"
  t_name :: string
  t_slug :: string
  t_description :: "string option"
  t_isDefault :: bool
  t_joinPolicy :: team_join_policy
  t_iconUrl :: "string option"
  t_createdAt :: int
  t_updatedAt :: int

record team_member =
  tm_id :: string
  tm_teamId :: string
  tm_userId :: string
  tm_teamRole :: string
  tm_status :: membership_status
  tm_statusChangedAt :: "int option"
  tm_createdAt :: int
  tm_updatedAt :: int

record org_group =
  g_id :: string
  g_orgId :: string
  g_name :: string
  g_description :: "string option"
  g_createdAt :: int
  g_updatedAt :: int

record group_member =
  gm_id :: string
  gm_groupId :: string
  gm_userId :: string
  gm_isAdmin :: bool
  gm_createdAt :: int
  gm_updatedAt :: int

record app_user =
  u_id :: string
  u_email :: string
  u_userKey :: string
  u_domain :: "string option"
  u_name :: "string option"
  u_twoFaEnabled :: bool

definition plain_user :: "string \<Rightarrow> string option \<Rightarrow> app_user" where
  "plain_user i d =
     \<lparr>u_id = i, u_email = i @ ''@mail.test'', u_userKey = i @ ''@mail.test'', u_domain = d,
      u_name = None, u_twoFaEnabled = False\<rparr>"

text \<open>Who acts on behalf of a domain when no user does.\<close>

record org_actor_provenance =
  via :: string
  sourceDomain :: string

datatype audit_value = Text string | Flag bool | Nested "(string \<times> string) list"

record audit_row =
  a_orgId :: string
  a_actorUserId :: "string option"
  a_action :: string
  a_targetType :: string
  a_targetId :: string
  a_metadata :: "(string \<times> audit_value) list"

record org_db =
  organisations :: "organisation list"
  org_members :: "org_member list"
  teams :: "team list"
  team_members :: "team_member list"
  groups :: "org_group list"
  group_members :: "group_member list"
  users :: "app_user list"
  domain_roles :: "(string \<times> string) list"
  sessions :: refresh_db
  audit_log :: "audit_row list"

record org_env =
  database_url :: bool
  public_base_url :: "string option"
  clock :: int
  fresh_id :: "nat \<Rightarrow> string"
  random_bytes :: "nat \<Rightarrow> nat list"
  referenced :: "string \<Rightarrow> bool"
  audit_reachable :: bool
  awaitLock :: "org_db \<Rightarrow> org_db"

record org_request =
  rq_orgId :: string
  rq_actorUserId :: "string option"
  rq_actor :: "org_actor_provenance option"
  rq_config :: client_config

type_synonym 'a checked = "thrown + 'a"
type_synonym 'a org_step = "org_db \<Rightarrow> (thrown + 'a) \<times> org_db"

abbreviation refuse :: "app_error_code \<Rightarrow> nat \<Rightarrow> 'a checked" where
  "refuse c s \<equiv> Inl (App (AppError c s None))"

abbreviation refuse_with :: "app_error_code \<Rightarrow> nat \<Rightarrow> string \<Rightarrow> 'a checked" where
  "refuse_with c s m \<equiv> Inl (App (AppError c s (Some m)))"

definition check :: "bool \<Rightarrow> app_error_code \<Rightarrow> nat \<Rightarrow> unit checked" where
  "check b c s = guard b (App (AppError c s None))"

definition lift :: "'a outcome \<Rightarrow> 'a checked" where
  "lift r = (case r of Inl e \<Rightarrow> Inl (App e) | Inr x \<Rightarrow> Inr x)"

lemma lift_Inr [simp]: "lift r = Inr x \<longleftrightarrow> r = Inr x"
  by (simp add: lift_def split: sum.splits)

lemma check_Inr [simp]: "check b c s = Inr u \<longleftrightarrow> b"
  by (simp add: check_def)

lemma check_simps [simp]: "check True c s = Inr ()" "check False c s = refuse c s"
  by (simp_all add: check_def)

subsection \<open>Lookups\<close>

definition findOrg :: "org_db \<Rightarrow> string \<Rightarrow> organisation option" where
  "findOrg db i = List.find (\<lambda>r. o_id r = i) (organisations db)"

definition org_domain :: "org_db \<Rightarrow> string \<Rightarrow> string option" where
  "org_domain db i = map_option o_domain (findOrg db i)"

definition findMember :: "org_db \<Rightarrow> (org_member \<Rightarrow> bool) \<Rightarrow> org_member option" where
  "findMember db P = List.find P (org_members db)"

definition findTeam :: "org_db \<Rightarrow> (team \<Rightarrow> bool) \<Rightarrow> team option" where
  "findTeam db P = List.find P (teams db)"

definition findTeamMember :: "org_db \<Rightarrow> (team_member \<Rightarrow> bool) \<Rightarrow> team_member option" where
  "findTeamMember db P = List.find P (team_members db)"

text \<open>\<open>team: { orgId }\<close> in a team-member filter.\<close>

definition team_in_org :: "org_db \<Rightarrow> string \<Rightarrow> string \<Rightarrow> bool" where
  "team_in_org db orgId teamId \<longleftrightarrow> (\<exists>t \<in> set (teams db). t_id t = teamId \<and> t_orgId t = orgId)"

definition group_in_org :: "org_db \<Rightarrow> string \<Rightarrow> string \<Rightarrow> bool" where
  "group_in_org db orgId groupId \<longleftrightarrow>
     (\<exists>g \<in> set (groups db). g_id g = groupId \<and> g_orgId g = orgId)"

abbreviation active_member :: "string \<Rightarrow> string \<Rightarrow> org_member \<Rightarrow> bool" where
  "active_member orgId userId m \<equiv> om_orgId m = orgId \<and> om_userId m = userId \<and> om_status m = ACTIVE"

subsection \<open>Constraints and writes\<close>

definition member_indexes_ok :: "org_db \<Rightarrow> bool" where
  "member_indexes_ok db \<longleftrightarrow>
     distinct (map (\<lambda>m. (om_orgId m, om_userId m)) (org_members db)) \<and>
     distinct (map (\<lambda>m. (om_userId m, org_domain db (om_orgId m)))
       (filter (\<lambda>m. om_status m = ACTIVE) (org_members db)))"

definition team_member_index_ok :: "org_db \<Rightarrow> bool" where
  "team_member_index_ok db \<longleftrightarrow> distinct (map (\<lambda>m. (tm_teamId m, tm_userId m)) (team_members db))"

definition team_indexes_ok :: "org_db \<Rightarrow> bool" where
  "team_indexes_ok db \<longleftrightarrow>
     distinct (map (\<lambda>t. (t_orgId t, t_name t)) (teams db)) \<and>
     distinct (map (\<lambda>t. (t_orgId t, t_slug t)) (teams db))"

definition organisation_index_ok :: "org_db \<Rightarrow> bool" where
  "organisation_index_ok db \<longleftrightarrow> distinct (map (\<lambda>r. (o_domain r, o_slug r)) (organisations db))"

definition constrained :: "(org_db \<Rightarrow> bool) \<Rightarrow> org_db \<Rightarrow> org_db checked" where
  "constrained index_ok db = (if index_ok db then Inr db else Inl (Db_Error ''P2002''))"

definition user_exists :: "org_db \<Rightarrow> string \<Rightarrow> bool" where
  "user_exists db userId \<longleftrightarrow> (\<exists>u \<in> set (users db). u_id u = userId)"

definition create_organisation :: "organisation \<Rightarrow> org_db \<Rightarrow> org_db checked" where
  "create_organisation r db =
     constrained organisation_index_ok (db\<lparr>organisations := organisations db @ [r]\<rparr>)"

definition create_org_member :: "org_member \<Rightarrow> org_db \<Rightarrow> org_db checked" where
  "create_org_member m db =
     (if \<not> user_exists db (om_userId m) \<or> findOrg db (om_orgId m) = None then Inl (Db_Error ''P2003'')
      else constrained member_indexes_ok (db\<lparr>org_members := org_members db @ [m]\<rparr>))"

definition create_team :: "team \<Rightarrow> org_db \<Rightarrow> org_db checked" where
  "create_team t db =
     (if findOrg db (t_orgId t) = None then Inl (Db_Error ''P2003'')
      else constrained team_indexes_ok (db\<lparr>teams := teams db @ [t]\<rparr>))"

definition create_team_member :: "team_member \<Rightarrow> org_db \<Rightarrow> org_db checked" where
  "create_team_member m db =
     (if \<not> user_exists db (tm_userId m) \<or> findTeam db (\<lambda>t. t_id t = tm_teamId m) = None
      then Inl (Db_Error ''P2003'')
      else constrained team_member_index_ok (db\<lparr>team_members := team_members db @ [m]\<rparr>))"

definition update_organisation :: "string \<Rightarrow> (organisation \<Rightarrow> organisation) \<Rightarrow> org_db \<Rightarrow> org_db checked"
  where
  "update_organisation i f db =
     (if findOrg db i = None then Inl (Db_Error ''P2025'')
      else constrained organisation_index_ok
             (db\<lparr>organisations := update_where (\<lambda>r. o_id r = i) f (organisations db)\<rparr>))"

definition update_org_member :: "string \<Rightarrow> (org_member \<Rightarrow> org_member) \<Rightarrow> org_db \<Rightarrow> org_db checked" where
  "update_org_member i f db =
     (if findMember db (\<lambda>m. om_id m = i) = None then Inl (Db_Error ''P2025'')
      else constrained member_indexes_ok
             (db\<lparr>org_members := update_where (\<lambda>m. om_id m = i) f (org_members db)\<rparr>))"

definition update_team :: "string \<Rightarrow> (team \<Rightarrow> team) \<Rightarrow> org_db \<Rightarrow> org_db checked" where
  "update_team i f db =
     (if findTeam db (\<lambda>t. t_id t = i) = None then Inl (Db_Error ''P2025'')
      else constrained team_indexes_ok
             (db\<lparr>teams := update_where (\<lambda>t. t_id t = i) f (teams db)\<rparr>))"

definition update_team_members :: "(team_member \<Rightarrow> bool) \<Rightarrow> (team_member \<Rightarrow> team_member) \<Rightarrow> org_db \<Rightarrow> org_db"
  where
  "update_team_members P f db = db\<lparr>team_members := update_where P f (team_members db)\<rparr>"

definition update_team_member :: "string \<Rightarrow> (team_member \<Rightarrow> team_member) \<Rightarrow> org_db \<Rightarrow> org_db checked"
  where
  "update_team_member i f db =
     (if findTeamMember db (\<lambda>m. tm_id m = i) = None then Inl (Db_Error ''P2025'')
      else Inr (update_team_members (\<lambda>m. tm_id m = i) f db))"

text \<open>The data of an update: a status write and a role write also touch \<open>updatedAt\<close>.\<close>

definition set_status :: "membership_status \<Rightarrow> int \<Rightarrow> org_member \<Rightarrow> org_member" where
  "set_status s now m = m\<lparr>om_status := s, om_statusChangedAt := Some now, om_updatedAt := now\<rparr>"

definition set_role :: "string \<Rightarrow> int \<Rightarrow> org_member \<Rightarrow> org_member" where
  "set_role r now m = m\<lparr>om_role := r, om_updatedAt := now\<rparr>"

definition set_team_status :: "membership_status \<Rightarrow> int \<Rightarrow> team_member \<Rightarrow> team_member" where
  "set_team_status s now m = m\<lparr>tm_status := s, tm_statusChangedAt := Some now, tm_updatedAt := now\<rparr>"

definition set_team_role :: "string \<Rightarrow> int \<Rightarrow> team_member \<Rightarrow> team_member" where
  "set_team_role r now m = m\<lparr>tm_teamRole := r, tm_updatedAt := now\<rparr>"

definition set_owner :: "string \<Rightarrow> int \<Rightarrow> organisation \<Rightarrow> organisation" where
  "set_owner u now r = r\<lparr>o_ownerId := u, o_updatedAt := now\<rparr>"

definition new_member :: "string \<Rightarrow> string \<Rightarrow> string \<Rightarrow> string \<Rightarrow> int \<Rightarrow> org_member" where
  "new_member i orgId userId role now =
     \<lparr>om_id = i, om_orgId = orgId, om_userId = userId, om_role = role, om_status = ACTIVE,
      om_statusChangedAt = None, om_createdAt = now, om_updatedAt = now\<rparr>"

definition new_team_member :: "string \<Rightarrow> string \<Rightarrow> string \<Rightarrow> string \<Rightarrow> int \<Rightarrow> team_member" where
  "new_team_member i teamId userId role now =
     \<lparr>tm_id = i, tm_teamId = teamId, tm_userId = userId, tm_teamRole = role, tm_status = ACTIVE,
      tm_statusChangedAt = None, tm_createdAt = now, tm_updatedAt = now\<rparr>"

lemmas row_data = set_status_def set_role_def set_team_status_def set_team_role_def set_owner_def
  new_member_def new_team_member_def

end
