(* ===== verification/Http_Url.thy ===== *)
theory Http_Url
  imports Uoa_Prelude "HOL-Library.Sublist"
begin

section \<open>URL policies\<close>

text \<open>
  \<^verbatim>\<open>API/src/utils/http-url.ts\<close>: which texts are acceptable as web addresses, redirect
  targets and icons. The WHATWG parser behind \<open>new URL(value)\<close> is the argument \<open>parse\<close>; it
  answers \<open>None\<close> where the constructor throws, otherwise the scheme (with its colon) and host.
\<close>

record url =
  protocol :: string
  hostname :: string
  href :: string

type_synonym url_parser = "string \<Rightarrow> url option"

definition tryParseHttpUrl :: "url_parser \<Rightarrow> string \<Rightarrow> url option" where
  "tryParseHttpUrl parse value =
     (case parse value of
        None \<Rightarrow> None
      | Some u \<Rightarrow>
          if protocol u \<noteq> ''https:'' \<and> protocol u \<noteq> ''http:'' then None
          else if hostname u = [] then None
          else Some u)"

definition REDIRECT_LOOPBACK_HOSTS :: "string list" where
  "REDIRECT_LOOPBACK_HOSTS = [''localhost'', ''127.0.0.1'', ''[::1]'']"

definition DANGEROUS_REDIRECT_SCHEMES :: "string list" where
  "DANGEROUS_REDIRECT_SCHEMES =
     [''javascript:'', ''data:'', ''vbscript:'', ''file:'', ''blob:'', ''about:'', ''filesystem:'']"

definition tryParseRedirectUrl :: "url_parser \<Rightarrow> string \<Rightarrow> url option" where
  "tryParseRedirectUrl parse value =
     (case parse value of
        None \<Rightarrow> None
      | Some u \<Rightarrow>
          if protocol u = ''https:'' then (if hostname u \<noteq> [] then Some u else None)
          else if protocol u = ''http:'' then
            (if hostname u \<in> set REDIRECT_LOOPBACK_HOSTS then Some u else None)
          else if protocol u \<in> set DANGEROUS_REDIRECT_SCHEMES then None
          else if length (protocol u) > 1 \<and> sublist ''://'' value \<and>
                  length value > length (protocol u) + 3 then Some u
          else None)"

definition MAX_ICON_URL_LENGTH :: nat where
  "MAX_ICON_URL_LENGTH = 2048"

definition parseIconUrl :: "url_parser \<Rightarrow> string \<Rightarrow> string option" where
  "parseIconUrl parse value =
     (let trimmed = js_trim value
      in if trimmed = [] \<or> length trimmed > MAX_ICON_URL_LENGTH then None
         else case tryParseHttpUrl parse trimmed of
                None \<Rightarrow> None
              | Some u \<Rightarrow> if protocol u \<noteq> ''https:'' then None else Some trimmed)"

definition isCustomSchemeUrl :: "url_parser \<Rightarrow> string \<Rightarrow> bool" where
  "isCustomSchemeUrl parse value =
     (case parse value of
        None \<Rightarrow> False
      | Some u \<Rightarrow> protocol u \<noteq> ''http:'' \<and> protocol u \<noteq> ''https:'')"

lemmas url_policy_defs = tryParseHttpUrl_def tryParseRedirectUrl_def parseIconUrl_def
  isCustomSchemeUrl_def

text \<open>
  The redirect policy is exactly the three allowed families: https with a host, http on a
  loopback host, and a deep link of a scheme that is neither web nor dangerous and that names
  more than the bare scheme.
\<close>

theorem redirect_policy_exact:
  "tryParseRedirectUrl parse value = Some u \<longleftrightarrow>
     parse value = Some u \<and>
     (protocol u = ''https:'' \<and> hostname u \<noteq> [] \<or>
      protocol u = ''http:'' \<and> hostname u \<in> {''localhost'', ''127.0.0.1'', ''[::1]''} \<or>
      isCustomSchemeUrl parse value \<and> protocol u \<notin> set DANGEROUS_REDIRECT_SCHEMES \<and>
      1 < length (protocol u) \<and> sublist ''://'' value \<and> length (protocol u) + 3 < length value)"
proof (cases "parse value")
  case (Some v)
  have dangerous: "''https:'' \<notin> set DANGEROUS_REDIRECT_SCHEMES" "''http:'' \<notin> set DANGEROUS_REDIRECT_SCHEMES"
    by (simp_all add: DANGEROUS_REDIRECT_SCHEMES_def)
  consider "protocol v = ''https:''" | "protocol v = ''http:''"
    | "protocol v \<noteq> ''https:''" "protocol v \<noteq> ''http:''" by blast
  then show ?thesis
  proof cases
    case 3
    then show ?thesis using Some by (auto simp: tryParseRedirectUrl_def isCustomSchemeUrl_def)
  qed (use Some dangerous in
      \<open>auto simp: tryParseRedirectUrl_def isCustomSchemeUrl_def REDIRECT_LOOPBACK_HOSTS_def\<close>)
qed (simp add: tryParseRedirectUrl_def)

lemma icon_url_https:
  "parseIconUrl parse value = Some s \<Longrightarrow>
     s = js_trim value \<and> s \<noteq> [] \<and> length s \<le> MAX_ICON_URL_LENGTH \<and>
     (\<exists>u. parse s = Some u \<and> protocol u = ''https:'' \<and> hostname u \<noteq> [])"
  by (auto simp: url_policy_defs Let_def split: option.splits if_splits)

end
