(* ===== verification/Org_Service.thy ===== *)
theory Org_Service
  imports Org_Model Http_Url
begin

section \<open>What the organisation and team handlers share\<close>

text \<open>
  The resolvers, normalisers, actor and capability guards, serializers and the audit writer of
  \<^verbatim>\<open>organisation.resolve.ts\<close>, \<^verbatim>\<open>organisation.service.base.ts\<close>,
  \<^verbatim>\<open>team.service.base.ts\<close> and \<^verbatim>\<open>org-audit-log.service.ts\<close>.
\<close>

subsection \<open>Resolving the organisation\<close>

definition normalizeDomain :: "string \<Rightarrow> string" where
  "normalizeDomain value =
     (let s = js_lower (js_trim value)
      in if s \<noteq> [] \<and> last s = CHR ''.'' then butlast s else s)"

definition resolveOrganisation :: "org_db \<Rightarrow> string \<Rightarrow> organisation checked" where
  "resolveOrganisation db rawOrgId =
     (let orgId = js_trim rawOrgId
      in if orgId = [] then refuse BAD_REQUEST 400
         else case findOrg db orgId of None \<Rightarrow> refuse NOT_FOUND 404 | Some row \<Rightarrow> Inr row)"

definition resolveOrganisationByDomain :: "org_db \<Rightarrow> string \<Rightarrow> string \<Rightarrow> organisation checked" where
  "resolveOrganisationByDomain db rawOrgId rawDomain =
     (let orgId = js_trim rawOrgId; domain = normalizeDomain rawDomain
      in if orgId = [] \<or> domain = [] then refuse BAD_REQUEST 400
         else case List.find (\<lambda>r. o_id r = orgId \<and> o_domain r = domain) (organisations db) of
                None \<Rightarrow> refuse NOT_FOUND 404
              | Some row \<Rightarrow> Inr row)"

subsection \<open>Normalisers\<close>

definition member_invites_of :: "string \<Rightarrow> org_member_invites option" where
  "member_invites_of s =
     map_of [(''allowed'', Invites_Allowed), (''admin_approval'', Admin_Approval),
             (''disabled'', Invites_Disabled)] s"

definition normalizeMemberInvitesSetting :: "string \<Rightarrow> org_member_invites checked" where
  "normalizeMemberInvitesSetting value =
     (case member_invites_of (js_lower (js_trim value)) of
        None \<Rightarrow> refuse BAD_REQUEST 400 | Some v \<Rightarrow> Inr v)"

text \<open>An optional nullable field: absent, null, or a text.\<close>

datatype 'a field = Absent | Null | Value 'a

definition normalizeIconUrl :: "url_parser \<Rightarrow> string field \<Rightarrow> string field checked" where
  "normalizeIconUrl parse value =
     (case value of
        Absent \<Rightarrow> Inr Absent
      | Null \<Rightarrow> Inr Null
      | Value v \<Rightarrow>
          (case parseIconUrl parse v of None \<Rightarrow> refuse BAD_REQUEST 400 | Some s \<Rightarrow> Inr (Value s)))"

definition ensureOrgName :: "string \<Rightarrow> string checked" where
  "ensureOrgName name =
     (let trimmed = js_trim name
      in if trimmed = [] \<or> length trimmed > 100 then refuse BAD_REQUEST 400 else Inr trimmed)"

definition ensureOrgRole :: "string \<Rightarrow> string list \<Rightarrow> unit checked" where
  "ensureOrgRole role allowedRoles = check (role \<in> set allowedRoles) BAD_REQUEST 400"

definition toListLimit :: "int option \<Rightarrow> nat" where
  "toListLimit limit =
     (let resolved = (case limit of None \<Rightarrow> 50 | Some l \<Rightarrow> l)
      in if resolved \<le> 0 then 1 else nat (min 200 resolved))"

definition parseOrgLimit :: "client_config \<Rightarrow> nat" where
  "parseOrgLimit c = (case feature max_members_per_org c of Some n \<Rightarrow> n | None \<Rightarrow> 1000)"

definition parseOrgFeatureRoles :: "client_config \<Rightarrow> string list" where
  "parseOrgFeatureRoles c = resolveOrgRoleVocabulary c"

text \<open>\<open>toUpperCase()\<close>. The two characters whose capital lies outside the model's range stay as
  they are; no policy name contains either form.\<close>

definition js_upper :: "string \<Rightarrow> string" where
  "js_upper s = concat (map (\<lambda>c.
     let n = (of_char c :: nat)
     in if n = 223 then ''SS''
        else if is_lower c \<or> 224 \<le> n \<and> n \<le> 254 \<and> n \<noteq> 247 then [char_of (n - 32)]
        else [c]) s)"

definition join_policy_of :: "string \<Rightarrow> team_join_policy option" where
  "join_policy_of s =
     map_of [(''INVITE_ONLY'', INVITE_ONLY), (''APPROVED_DOMAIN'', APPROVED_DOMAIN),
             (''REQUEST_TO_JOIN'', REQUEST_TO_JOIN), (''OPEN_TO_ORG'', OPEN_TO_ORG),
             (''HIDDEN'', HIDDEN)] s"

definition normalizeTeamJoinPolicy :: "string \<Rightarrow> team_join_policy checked" where
  "normalizeTeamJoinPolicy value =
     (case join_policy_of (js_upper (js_trim value)) of
        None \<Rightarrow> refuse BAD_REQUEST 400 | Some p \<Rightarrow> Inr p)"

definition normalizeTeamName :: "string \<Rightarrow> string checked" where
  "normalizeTeamName value =
     (let trimmed = js_trim value
      in if trimmed = [] \<or> length trimmed > 100 then refuse BAD_REQUEST 400 else Inr trimmed)"

definition normalizeTeamDescription :: "string field \<Rightarrow> string field checked" where
  "normalizeTeamDescription value =
     (case value of
        Absent \<Rightarrow> Inr Absent
      | Null \<Rightarrow> Inr Null
      | Value v \<Rightarrow>
          (let trimmed = js_trim v
           in if length trimmed > 500 then refuse BAD_REQUEST 400
              else if trimmed = [] then Inr Null else Inr (Value trimmed)))"

definition normalizeTeamRole :: "string option \<Rightarrow> client_config \<Rightarrow> string checked" where
  "normalizeTeamRole value c =
     (let role = (case value of Some v \<Rightarrow> js_trim v | None \<Rightarrow> ''member'')
      in if role \<notin> set (resolveTeamRoleVocabulary c) then refuse BAD_REQUEST 400 else Inr role)"

definition parseMaxTeamsPerOrg :: "client_config \<Rightarrow> nat" where
  "parseMaxTeamsPerOrg c = (case feature max_teams_per_org c of Some n \<Rightarrow> n | None \<Rightarrow> 100)"

definition parseMaxMembersPerTeam :: "client_config \<Rightarrow> nat" where
  "parseMaxMembersPerTeam c = (case feature max_members_per_team c of Some n \<Rightarrow> n | None \<Rightarrow> 200)"

definition parseMaxTeamMembershipsPerUser :: "client_config \<Rightarrow> nat" where
  "parseMaxTeamMembershipsPerUser c =
     (case feature max_team_memberships_per_user c of Some n \<Rightarrow> n | None \<Rightarrow> 50)"

subsection \<open>Who is acting\<close>

definition resolveOrgActor :: "org_request \<Rightarrow> string option checked" where
  "resolveOrgActor p =
     (if rq_actorUserId p \<noteq> None \<and> rq_actor p \<noteq> None
      then refuse_with INTERNAL 500 ''ORG_ACTOR_AMBIGUOUS''
      else case rq_actorUserId p of
             Some a \<Rightarrow>
               (let trimmed = js_trim a
                in if trimmed = [] then refuse BAD_REQUEST 400 else Inr (Some trimmed))
           | None \<Rightarrow>
               (if rq_actor p \<noteq> None then Inr None
                else refuse_with INTERNAL 500 ''ORG_ACTOR_UNRESOLVED''))"

definition assertDatabaseEnabled :: "org_env \<Rightarrow> unit checked" where
  "assertDatabaseEnabled env =
     (if database_url env then Inr () else refuse_with INTERNAL 500 ''DATABASE_DISABLED'')"

definition getOrganisationMember :: "org_db \<Rightarrow> string \<Rightarrow> string \<Rightarrow> bool \<Rightarrow> org_member option" where
  "getOrganisationMember db orgId userId activeOnly =
     findMember db (\<lambda>m. om_orgId m = orgId \<and> om_userId m = userId \<and>
       (activeOnly \<longrightarrow> om_status m = ACTIVE))"

definition requireOrgCapability :: "client_config \<Rightarrow> string \<Rightarrow> string option \<Rightarrow> unit checked" where
  "requireOrgCapability c capability actorRole =
     check (configRoleHoldsCapability c Org_Scope actorRole capability) FORBIDDEN 403"

definition requireOrgMemberManager :: "org_db \<Rightarrow> string \<Rightarrow> string option \<Rightarrow> client_config \<Rightarrow> unit checked"
  where
  "requireOrgMemberManager db orgId actorUserId c =
     (if \<not> truthy actorUserId then Inr ()
      else requireOrgCapability c ''members.manage''
             (map_option om_role (getOrganisationMember db orgId (the actorUserId) True)))"

definition hasWorkspaceCapability ::
  "org_db \<Rightarrow> string \<Rightarrow> string \<Rightarrow> string option \<Rightarrow> string option \<Rightarrow> client_config \<Rightarrow> bool" where
  "hasWorkspaceCapability db capability orgId teamId actorUserId c =
     (if \<not> truthy actorUserId then True
      else
        (let a = the actorUserId; grants = resolveRoleGrants c;
             actorOrgMembership = getOrganisationMember db orgId a True
         in if roleHoldsCapability grants Org_Scope (map_option om_role actorOrgMembership) capability
            then True
            else if \<not> truthy teamId then False
            else roleHoldsCapability grants Team_Scope
                   (map_option tm_teamRole (findTeamMember db
                     (\<lambda>m. tm_teamId m = the teamId \<and> tm_userId m = a \<and> tm_status m = ACTIVE)))
                   capability))"

definition requireWorkspaceCapability ::
  "org_db \<Rightarrow> string \<Rightarrow> string \<Rightarrow> string option \<Rightarrow> string option \<Rightarrow> client_config \<Rightarrow> unit checked" where
  "requireWorkspaceCapability db capability orgId teamId actorUserId c =
     check (hasWorkspaceCapability db capability orgId teamId actorUserId c) FORBIDDEN 403"

definition resolveAndAuthorizeTeamOrg :: "org_db \<Rightarrow> string \<Rightarrow> string option \<Rightarrow> organisation checked" where
  "resolveAndAuthorizeTeamOrg db rawOrgId actorUserId =
     and_then (resolveOrganisation db rawOrgId) (\<lambda>org.
       if \<not> truthy actorUserId then Inr org
       else if getOrganisationMember db (o_id org) (the actorUserId) True = None then refuse FORBIDDEN 403
       else Inr org)"

subsection \<open>Serializers\<close>

definition memberAvatarImageUrl :: "org_env \<Rightarrow> string \<Rightarrow> string \<Rightarrow> string" where
  "memberAvatarImageUrl env domain userId =
     domainAvatarImageUrl (Some (avatarImageBaseUrl (public_base_url env))) domain userId"

definition teamAvatarImageUrl :: "org_env \<Rightarrow> string \<Rightarrow> string \<Rightarrow> string" where
  "teamAvatarImageUrl env domain teamId =
     domainTeamAvatarImageUrl (Some (avatarImageBaseUrl (public_base_url env))) domain teamId"

text \<open>A selected row may lack the two optional columns; the record then carries their defaults.\<close>

definition toOrganisationRecord ::
  "organisation \<Rightarrow> org_member_invites option \<Rightarrow> string option option \<Rightarrow> organisation" where
  "toOrganisationRecord row memberInvites iconUrl =
     row\<lparr>o_memberInvites := (case memberInvites of Some v \<Rightarrow> v | None \<Rightarrow> Invites_Allowed),
         o_iconUrl := (case iconUrl of Some v \<Rightarrow> v | None \<Rightarrow> None)\<rparr>"

definition full_organisation_record :: "organisation \<Rightarrow> organisation" where
  "full_organisation_record row =
     toOrganisationRecord row (Some (o_memberInvites row)) (Some (o_iconUrl row))"

record organisation_member_record =
  omr_id :: string
  omr_orgId :: string
  omr_userId :: string
  omr_avatarImageUrl :: string
  omr_role :: string
  omr_status :: membership_status
  omr_createdAt :: int
  omr_updatedAt :: int

definition toMemberRecord :: "org_env \<Rightarrow> org_member \<Rightarrow> string \<Rightarrow> organisation_member_record" where
  "toMemberRecord env row domain =
     \<lparr>omr_id = om_id row, omr_orgId = om_orgId row, omr_userId = om_userId row,
      omr_avatarImageUrl = memberAvatarImageUrl env domain (om_userId row),
      omr_role = om_role row, omr_status = om_status row, omr_createdAt = om_createdAt row,
      omr_updatedAt = om_updatedAt row\<rparr>"

record team_record =
  tr_team :: team
  tr_avatarImageUrl :: string

definition toTeamRecord ::
  "org_env \<Rightarrow> team \<Rightarrow> team_join_policy option \<Rightarrow> string option option \<Rightarrow> string \<Rightarrow> team_record" where
  "toTeamRecord env row joinPolicy iconUrl domain =
     \<lparr>tr_team = row\<lparr>t_joinPolicy := (case joinPolicy of Some p \<Rightarrow> p | None \<Rightarrow> INVITE_ONLY),
        t_iconUrl := (case iconUrl of Some v \<Rightarrow> v | None \<Rightarrow> None)\<rparr>,
      tr_avatarImageUrl = teamAvatarImageUrl env domain (t_id row)\<rparr>"

definition full_team_record :: "org_env \<Rightarrow> team \<Rightarrow> string \<Rightarrow> team_record" where
  "full_team_record env row domain =
     toTeamRecord env row (Some (t_joinPolicy row)) (Some (t_iconUrl row)) domain"

record team_member_record =
  tmr_id :: string
  tmr_teamId :: string
  tmr_userId :: string
  tmr_avatarImageUrl :: string
  tmr_teamRole :: string
  tmr_createdAt :: int
  tmr_updatedAt :: int

definition toTeamMemberRecord :: "org_env \<Rightarrow> team_member \<Rightarrow> string \<Rightarrow> team_member_record" where
  "toTeamMemberRecord env row domain =
     \<lparr>tmr_id = tm_id row, tmr_teamId = tm_teamId row, tmr_userId = tm_userId row,
      tmr_avatarImageUrl = memberAvatarImageUrl env domain (tm_userId row),
      tmr_teamRole = tm_teamRole row, tmr_createdAt = tm_createdAt row,
      tmr_updatedAt = tm_updatedAt row\<rparr>"

lemma full_records [simp]:
  "full_organisation_record row = row"
  "tr_team (full_team_record env t d) = t"
  by (simp_all add: full_organisation_record_def toOrganisationRecord_def full_team_record_def
      toTeamRecord_def)

subsection \<open>The audit trail\<close>

definition ORG_AUDIT_ACTOR_METADATA_KEY :: string where
  "ORG_AUDIT_ACTOR_METADATA_KEY = ''uoa_actor''"

definition actorMetadata :: "org_actor_provenance option \<Rightarrow> (string \<times> audit_value) list option" where
  "actorMetadata actor =
     map_option (\<lambda>a. [(ORG_AUDIT_ACTOR_METADATA_KEY,
       Nested [(''via'', via a), (''source_domain'', sourceDomain a)])]) actor"

definition buildMetadata ::
  "(string \<times> audit_value) list \<Rightarrow> org_actor_provenance option \<Rightarrow> (string \<times> audit_value) list" where
  "buildMetadata base actor =
     (case actorMetadata actor of
        None \<Rightarrow> base
      | Some provenance \<Rightarrow> AList.merge base provenance)"

definition writeOrgAuditLog :: "audit_row \<Rightarrow> org_actor_provenance option \<Rightarrow> org_db \<Rightarrow> org_db" where
  "writeOrgAuditLog row actor db =
     db\<lparr>audit_log := audit_log db @ [row\<lparr>a_metadata := buildMetadata (a_metadata row) actor\<rparr>]\<rparr>"

text \<open>Best effort: an unreachable log leaves the committed work as it is.\<close>

definition auditOrg :: "org_env \<Rightarrow> org_actor_provenance option \<Rightarrow> audit_row \<Rightarrow> org_db \<Rightarrow> org_db" where
  "auditOrg env actor row db = (if audit_reachable env then writeOrgAuditLog row actor db else db)"

definition audit_entry ::
  "string \<Rightarrow> string option \<Rightarrow> string \<Rightarrow> string \<Rightarrow> string \<Rightarrow> (string \<times> audit_value) list \<Rightarrow> audit_row" where
  "audit_entry orgId actorUserId action targetType targetId metadata =
     \<lparr>a_orgId = orgId, a_actorUserId = actorUserId, a_action = action, a_targetType = targetType,
      a_targetId = targetId, a_metadata = metadata\<rparr>"

subsection \<open>Running a handler\<close>

text \<open>
  The checks before the transaction read the store as it is; a refusal leaves it alone. The
  transaction body then runs on the store its locks expose and is all or nothing.
\<close>

definition checks_then :: "(org_db \<Rightarrow> 'b checked) \<Rightarrow> ('b \<Rightarrow> 'a org_step) \<Rightarrow> 'a org_step" where
  "checks_then checks k db = (case checks db of Inl e \<Rightarrow> (Inl e, db) | Inr x \<Rightarrow> k x db)"

definition transact :: "org_env \<Rightarrow> (org_db \<Rightarrow> ('a \<times> org_db) checked) \<Rightarrow> 'a org_step" where
  "transact env body db =
     (let locked = awaitLock env db
      in case body locked of Inl e \<Rightarrow> (Inl e, locked) | Inr (x, db') \<Rightarrow> (Inr x, db'))"

definition and_audit :: "('a \<Rightarrow> org_db \<Rightarrow> org_db) \<Rightarrow> ('a \<Rightarrow> 'b) \<Rightarrow> 'a org_step \<Rightarrow> 'b org_step" where
  "and_audit write result step db =
     (case step db of (Inl e, db') \<Rightarrow> (Inl e, db') | (Inr x, db') \<Rightarrow> (Inr (result x), write x db'))"

lemma checks_then_Inr:
  "checks_then checks k db = (Inr y, db') \<longleftrightarrow> (\<exists>x. checks db = Inr x \<and> k x db = (Inr y, db'))"
  by (auto simp: checks_then_def split: sum.splits)

lemma transact_Inr:
  "transact env body db = (Inr y, db') \<longleftrightarrow> body (awaitLock env db) = Inr (y, db')"
  by (auto simp: transact_def Let_def split: sum.splits prod.splits)

lemma and_audit_Inr:
  "and_audit write result step db = (Inr y, db') \<longleftrightarrow>
     (\<exists>x db1. step db = (Inr x, db1) \<and> y = result x \<and> db' = write x db1)"
  by (auto simp: and_audit_def split: sum.splits prod.splits)

lemma case_option_Inr:
  "(case v of None \<Rightarrow> Inl e | Some m \<Rightarrow> f m) = Inr y \<longleftrightarrow> (\<exists>m. v = Some m \<and> f m = Inr y)"
  by (cases v) auto

lemmas step_simps = case_option_Inr checks_then_Inr transact_Inr and_audit_Inr and_then_Inr_iff

lemma handler_Inr:
  "checks_then checks (\<lambda>x. and_audit (w x) (r x) (transact env (body x))) db = (Inr y, db') \<longleftrightarrow>
     (\<exists>x v d. checks db = Inr x \<and> body x (awaitLock env db) = Inr (v, d) \<and> y = r x v \<and> db' = w x v d)"
  by (auto simp: checks_then_Inr and_audit_Inr transact_Inr)

text \<open>A refused handler: nothing but what other transactions committed meanwhile.\<close>

lemma checks_then_Inl:
  assumes "checks_then checks k db = (Inl e, db')"
    and "\<And>x. k x db = (Inl e, db') \<Longrightarrow> db' = db \<or> db' = awaitLock env db"
  shows "db' = db \<or> db' = awaitLock env db"
  using assms by (auto simp: checks_then_def split: sum.splits)

lemma transact_Inl: "transact env body db = (Inl e, db') \<Longrightarrow> db' = awaitLock env db"
  by (auto simp: transact_def Let_def split: sum.splits prod.splits)

lemma and_audit_Inl: "and_audit w r step db = (Inl e, db') \<longleftrightarrow> step db = (Inl e, db')"
  by (auto simp: and_audit_def split: sum.splits prod.splits)

end
