(* ===== verification/Cursor_Pages.thy ===== *)
theory Cursor_Pages
  imports Uoa_Prelude
begin

section \<open>Cursor pagination\<close>

text \<open>
  The list endpoints of \<^verbatim>\<open>organisation.service.members.ts\<close>,
  \<^verbatim>\<open>organisation.service.organisation.ts\<close> and \<^verbatim>\<open>team.service.teams.ts\<close> share one
  shape: order by creation time and id, both descending; take one row more than the limit; the
  last row of a full page is the cursor, which the next query skips.

  A cursor query of the database client returns the rows that are not before the cursor row in
  the query's order, whether or not the cursor row itself passes the filter, and nothing when
  no row has that id. How the database collates two ids is the argument \<open>collate\<close>.
\<close>

definition newest_first ::
  "(string \<Rightarrow> string \<Rightarrow> int) \<Rightarrow> ('r \<Rightarrow> int) \<Rightarrow> ('r \<Rightarrow> string) \<Rightarrow> 'r \<Rightarrow> 'r \<Rightarrow> int" where
  "newest_first collate created rid a b =
     (if created a = created b then collate (rid b) (rid a) else created b - created a)"

definition find_page ::
  "('r \<Rightarrow> 'r \<Rightarrow> int) \<Rightarrow> ('r \<Rightarrow> string) \<Rightarrow> ('r \<Rightarrow> bool) \<Rightarrow> nat \<Rightarrow> string option \<Rightarrow> 'r list \<Rightarrow> 'r list" where
  "find_page cmp rid P n cursor rows =
     (let ordered = js_sort cmp (filter P rows)
      in case cursor of
           None \<Rightarrow> take n ordered
         | Some c \<Rightarrow>
             (case List.find (\<lambda>r. rid r = c) rows of
                None \<Rightarrow> []
              | Some row \<Rightarrow> take n (drop 1 (dropWhile (\<lambda>r. cmp r row < 0) ordered))))"

definition cursor_page ::
  "('r \<Rightarrow> 'r \<Rightarrow> int) \<Rightarrow> ('r \<Rightarrow> string) \<Rightarrow> ('r \<Rightarrow> bool) \<Rightarrow> nat \<Rightarrow> string option \<Rightarrow> 'r list \<Rightarrow>
     'r list \<times> string option" where
  "cursor_page cmp rid P limit cursor rows =
     (let found = find_page cmp rid P (limit + 1) cursor rows;
          hasMore = length found > limit
      in (take limit found, if hasMore then Some (rid (found ! (limit - 1))) else None))"

text \<open>A client that follows \<open>next_cursor\<close> until there is none, in at most \<open>n\<close> requests.\<close>

fun cursor_walk ::
  "('r \<Rightarrow> 'r \<Rightarrow> int) \<Rightarrow> ('r \<Rightarrow> string) \<Rightarrow> ('r \<Rightarrow> bool) \<Rightarrow> nat \<Rightarrow> nat \<Rightarrow> string option \<Rightarrow> 'r list \<Rightarrow>
     'r list option" where
  "cursor_walk cmp rid P limit 0 cursor rows = None"
| "cursor_walk cmp rid P limit (Suc n) cursor rows =
     (case cursor_page cmp rid P limit cursor rows of
        (data, None) \<Rightarrow> Some data
      | (data, Some c) \<Rightarrow> map_option (append data) (cursor_walk cmp rid P limit n (Some c) rows))"

subsection \<open>Consistent orders\<close>

definition total_cmp :: "('a \<Rightarrow> 'a \<Rightarrow> int) \<Rightarrow> bool" where
  "total_cmp cmp \<longleftrightarrow>
     (\<forall>a b. cmp a b < 0 \<longleftrightarrow> 0 < cmp b a) \<and> (\<forall>a b c. cmp a b < 0 \<longrightarrow> cmp b c < 0 \<longrightarrow> cmp a c < 0)"

definition separates :: "('a \<Rightarrow> 'a \<Rightarrow> int) \<Rightarrow> 'a set \<Rightarrow> bool" where
  "separates cmp S \<longleftrightarrow> (\<forall>a \<in> S. \<forall>b \<in> S. cmp a b = 0 \<longrightarrow> a = b)"

lemma total_cmp_asym: "total_cmp cmp \<Longrightarrow> cmp a b < 0 \<longleftrightarrow> 0 < cmp b a"
  by (simp add: total_cmp_def)

lemma total_cmp_trans: "total_cmp cmp \<Longrightarrow> cmp a b < 0 \<Longrightarrow> cmp b c < 0 \<Longrightarrow> cmp a c < 0"
  by (auto simp: total_cmp_def)

lemma total_cmp_refl: "total_cmp cmp \<Longrightarrow> cmp a a = 0"
  by (metis linorder_neqE_linordered_idom order_less_asym total_cmp_def)

lemma strict_sort:
  assumes "total_cmp cmp" and "distinct xs" and "separates cmp (set xs)"
  shows "sorted_wrt (\<lambda>a b. cmp a b < 0) (js_sort cmp xs)"
proof -
  have ins: "sorted_wrt (\<lambda>a b. cmp a b < 0) (insort_cmp cmp x ys)"
    if "sorted_wrt (\<lambda>a b. cmp a b < 0) ys" "\<And>y. y \<in> set ys \<Longrightarrow> cmp x y \<noteq> 0" for x ys
    using that
  proof (induction ys)
    case (Cons y ys)
    show ?case
    proof (cases "cmp x y \<le> 0")
      case True
      then have lt: "cmp x y < 0" using Cons.prems(2)[of y] by auto
      moreover have "cmp x z < 0" if "z \<in> set ys" for z
        using Cons.prems(1) that lt total_cmp_trans[OF assms(1), of x y z] by simp
      ultimately show ?thesis using Cons.prems(1) True by auto
    next
      case False
      then have "cmp y x < 0" using total_cmp_asym[OF assms(1), of y x] by simp
      then show ?thesis using Cons False by auto
    qed
  qed simp
  show ?thesis
    using assms(2,3)
  proof (induction xs)
    case (Cons x xs)
    then have "cmp x y \<noteq> 0" if "y \<in> set (js_sort cmp xs)" for y
      using that by (auto simp: separates_def)
    with Cons show ?case by (auto intro!: ins simp: separates_def)
  qed simp
qed

lemma after_cursor:
  assumes "total_cmp cmp" and "sorted_wrt (\<lambda>a b. cmp a b < 0) (xs @ row # ys)"
  shows "drop 1 (dropWhile (\<lambda>r. cmp r row < 0) (xs @ row # ys)) = ys"
proof -
  have "\<forall>x \<in> set xs. cmp x row < 0" using assms(2) by (simp add: sorted_wrt_append)
  moreover have "\<not> cmp row row < 0" using total_cmp_refl[OF assms(1)] by simp
  ultimately show ?thesis by (simp add: dropWhile_append2)
qed

subsection \<open>A walk returns every row once, in order, and ends\<close>

lemma page_after:
  assumes "total_cmp cmp" and "sorted_wrt (\<lambda>a b. cmp a b < 0) (xs @ row # ys)"
    and "js_sort cmp (filter P rows) = xs @ row # ys" and "distinct (map rid rows)"
  shows "find_page cmp rid P n (Some (rid row)) rows = take n ys"
proof -
  have "row \<in> set (js_sort cmp (filter P rows))" using assms(3) by simp
  then have "row \<in> set rows" by simp
  then have "List.find (\<lambda>r. rid r = rid row) rows = Some row"
    using assms(4) by (intro find_unique)
  then show ?thesis
    using after_cursor[OF assms(1,2)] by (simp add: find_page_def Let_def assms(3))
qed

lemma walk_after:
  assumes "total_cmp cmp" and "0 < limit" and "distinct (map rid rows)"
    and "sorted_wrt (\<lambda>a b. cmp a b < 0) (js_sort cmp (filter P rows))"
    and "js_sort cmp (filter P rows) = xs @ row # ys" and "length ys < n"
  shows "cursor_walk cmp rid P limit n (Some (rid row)) rows = Some ys"
  using assms(5,6)
proof (induction n arbitrary: xs row ys)
  case (Suc n)
  have found: "find_page cmp rid P (limit + 1) (Some (rid row)) rows = take (limit + 1) ys"
    using assms(1,3,4) Suc.prems(1) by (intro page_after) simp_all
  show ?case
  proof (cases "limit < length ys")
    case True
    let ?r = "ys ! (limit - 1)"
    have split: "ys = take (limit - 1) ys @ ?r # drop limit ys"
      using True assms(2) by (metis Suc_pred' id_take_nth_drop less_imp_diff_less)
    have "cursor_walk cmp rid P limit n (Some (rid ?r)) rows = Some (drop limit ys)"
    proof (rule Suc.IH)
      show "js_sort cmp (filter P rows) = (xs @ row # take (limit - 1) ys) @ ?r # drop limit ys"
        using Suc.prems(1) split by (metis append_Cons append_assoc)
      show "length (drop limit ys) < n" using Suc.prems(2) True assms(2) by simp
    qed
    then show ?thesis
      using True assms(2) by (simp add: cursor_page_def found[unfolded Suc_eq_plus1[symmetric]] Let_def)
  next
    case False
    then show ?thesis by (simp add: cursor_page_def found[unfolded Suc_eq_plus1[symmetric]] Let_def)
  qed
qed simp

lemma walk_complete:
  assumes cmp: "total_cmp cmp" and limit: "0 < limit" and ids: "distinct (map rid rows)"
    and sep: "separates cmp (set rows)"
  shows "cursor_walk cmp rid P limit (Suc (length (filter P rows))) None rows =
           Some (js_sort cmp (filter P rows))"
proof -
  let ?s = "js_sort cmp (filter P rows)"
  have "distinct rows" using ids by (simp add: distinct_map)
  then have sorted: "sorted_wrt (\<lambda>a b. cmp a b < 0) ?s"
    using cmp sep by (intro strict_sort) (auto simp: separates_def)
  show ?thesis
  proof (cases "limit < length ?s")
    case True
    let ?r = "?s ! (limit - 1)"
    have split: "?s = take (limit - 1) ?s @ ?r # drop limit ?s"
      using True limit by (metis Suc_pred' id_take_nth_drop less_imp_diff_less)
    have "cursor_walk cmp rid P limit (length (filter P rows)) (Some (rid ?r)) rows = Some (drop limit ?s)"
    proof (rule walk_after[OF cmp limit ids sorted split])
      show "length (drop limit ?s) < length (filter P rows)" using True limit by simp
    qed
    then show ?thesis using True limit by (simp add: cursor_page_def find_page_def Let_def)
  next
    case False
    then show ?thesis by (simp add: cursor_page_def find_page_def Let_def)
  qed
qed

subsection \<open>The order of the list endpoints is total\<close>

definition collation :: "(string \<Rightarrow> string \<Rightarrow> int) \<Rightarrow> bool" where
  "collation collate \<longleftrightarrow> total_cmp collate \<and> separates collate UNIV"

lemma newest_first_total: "collation collate \<Longrightarrow> total_cmp (newest_first collate created rid)"
  unfolding collation_def total_cmp_def newest_first_def by (auto split: if_splits)

lemma newest_first_separates:
  assumes "collation collate" and "distinct (map rid rows)"
  shows "separates (newest_first collate created rid) (set rows)"
  unfolding separates_def newest_first_def
  using assms distinct_key_eq[OF assms(2)]
  by (auto simp: collation_def separates_def split: if_splits)

text \<open>Comparison by character codes, the collation of the \<^verbatim>\<open>C\<close> locale.\<close>

fun code_collation :: "string \<Rightarrow> string \<Rightarrow> int" where
  "code_collation [] [] = 0"
| "code_collation [] (d # ds) = - 1"
| "code_collation (c # cs) [] = 1"
| "code_collation (c # cs) (d # ds) =
     (if c = d then code_collation cs ds else int (of_char c) - int (of_char d))"

lemma code_collation_0: "code_collation s t = 0 \<longleftrightarrow> s = t"
  by (induction s t rule: code_collation.induct) auto

lemma code_collation_flip: "code_collation s t = - code_collation t s"
  by (induction s t rule: code_collation.induct) auto

lemma code_collation_trans:
  "code_collation s t < 0 \<Longrightarrow> code_collation t u < 0 \<Longrightarrow> code_collation s u < 0"
proof (induction s t arbitrary: u rule: code_collation.induct)
  case (2 d ds)
  then show ?case by (cases u) auto
next
  case (4 c cs d ds)
  then show ?case by (cases u) (auto split: if_splits)
qed auto

lemma code_collation: "collation code_collation"
  unfolding collation_def total_cmp_def separates_def
  using code_collation_0 code_collation_flip code_collation_trans by (metis neg_less_0_iff_less)

end
