(* ===== verification/Org_Membership.thy ===== *)
theory Org_Membership
  imports Org_Service Cursor_Pages
begin

section \<open>Organisation memberships\<close>

text \<open>
  The handlers of \<^verbatim>\<open>organisation.service.members.ts\<close>,
  \<^verbatim>\<open>organisation.service.lifecycle.ts\<close> and \<^verbatim>\<open>organisation.service.ownership.ts\<close>.
  Each is its checks, its transaction body (\<open>..._tx\<close>) and its audit row.
\<close>

subsection \<open>Reading the roster\<close>

definition member_status_filter :: "membership_status option option \<Rightarrow> org_member \<Rightarrow> bool" where
  "member_status_filter status m =
     (case status of
        None \<Rightarrow> om_status m = ACTIVE
      | Some None \<Rightarrow> True
      | Some (Some s) \<Rightarrow> om_status m = s)"

text \<open>The cursor parameter is trimmed; an empty one starts from the top.\<close>

definition cursor_param :: "string option \<Rightarrow> string option" where
  "cursor_param cursor =
     (case map_option js_trim cursor of Some (c # cs) \<Rightarrow> Some (c # cs) | _ \<Rightarrow> None)"

definition listOrganisationMembers ::
  "org_env \<Rightarrow> (string \<Rightarrow> string \<Rightarrow> int) \<Rightarrow> org_request \<Rightarrow> int option \<Rightarrow> string option \<Rightarrow>
     membership_status option option \<Rightarrow> org_db \<Rightarrow>
     (organisation_member_record list \<times> string option) checked" where
  "listOrganisationMembers env collate p limit cursor status db =
     and_then (assertDatabaseEnabled env) (\<lambda>_.
     and_then (if rq_actorUserId p \<noteq> None \<or> rq_actor p \<noteq> None then resolveOrgActor p else Inr None)
       (\<lambda>actorUserId.
     and_then (resolveOrganisation db (rq_orgId p)) (\<lambda>org.
     and_then (case actorUserId of
                 None \<Rightarrow> Inr ()
               | Some a \<Rightarrow>
                   check (getOrganisationMember db (o_id org) a True \<noteq> None) FORBIDDEN 403) (\<lambda>_.
     (case cursor_page (newest_first collate om_createdAt om_id) om_id
             (\<lambda>m. om_orgId m = o_id org \<and> member_status_filter status m)
             (toListLimit limit) (cursor_param cursor) (org_members db) of
        (data, nxt) \<Rightarrow>
          Inr (map (\<lambda>row. toMemberRecord env row (o_domain org)) data, nxt))))))"

subsection \<open>Adding a member\<close>

definition add_member_checks ::
  "org_env \<Rightarrow> org_request \<Rightarrow> string \<Rightarrow> string \<Rightarrow> org_db \<Rightarrow> (string option \<times> organisation) checked" where
  "add_member_checks env p userId role db =
     and_then (assertDatabaseEnabled env) (\<lambda>_.
     and_then (resolveOrgActor p) (\<lambda>actorUserId.
     and_then (check (userId \<noteq> []) BAD_REQUEST 400) (\<lambda>_.
     and_then (ensureOrgRole role (parseOrgFeatureRoles (rq_config p))) (\<lambda>_.
     and_then (resolveOrganisation db (rq_orgId p)) (\<lambda>org.
     and_then
       (case actorUserId of
          None \<Rightarrow> Inr ()
        | Some a \<Rightarrow>
            (let actorRole = map_option om_role (getOrganisationMember db (o_id org) a True)
             in and_then (requireOrgCapability (rq_config p) ''members.manage'' actorRole) (\<lambda>_.
                check (\<not> (role = ''owner'' \<and> actorRole \<noteq> Some ''owner'')) FORBIDDEN 403)))
       (\<lambda>_. Inr (actorUserId, org)))))))"

definition reactivate_default_team_membership ::
  "org_env \<Rightarrow> string \<Rightarrow> string \<Rightarrow> org_db \<Rightarrow> org_db checked" where
  "reactivate_default_team_membership env teamId userId db =
     (case findTeamMember db (\<lambda>m. tm_teamId m = teamId \<and> tm_userId m = userId) of
        Some tm \<Rightarrow> update_team_member (tm_id tm) (set_team_status ACTIVE (clock env)) db
      | None \<Rightarrow> create_team_member
                  (new_team_member (fresh_id env 1) teamId userId ''member'' (clock env)) db)"

definition add_member_tx ::
  "org_env \<Rightarrow> client_config \<Rightarrow> organisation \<Rightarrow> string \<Rightarrow> string \<Rightarrow> org_db \<Rightarrow>
     ((org_member \<times> bool) \<times> org_db) checked" where
  "add_member_tx env c org userId role db =
     (let now = clock env;
          existing = findMember db (\<lambda>m. om_orgId m = o_id org \<and> om_userId m = userId)
      in
     and_then (check (case existing of Some m \<Rightarrow> om_status m \<noteq> ACTIVE | None \<Rightarrow> True) BAD_REQUEST 400) (\<lambda>_.
     and_then (check (findMember db (\<lambda>m. om_userId m = userId \<and> om_status m = ACTIVE \<and>
                 org_domain db (om_orgId m) = Some (o_domain org)) = None) BAD_REQUEST 400) (\<lambda>_.
     and_then (check (count_where (\<lambda>m. om_orgId m = o_id org \<and> om_status m = ACTIVE) (org_members db)
                 < parseOrgLimit c) BAD_REQUEST 400) (\<lambda>_.
     (case List.find (\<lambda>u. u_id u = userId) (users db) of
        None \<Rightarrow> refuse BAD_REQUEST 400
      | Some targetUser \<Rightarrow>
     and_then (check (\<not> (truthy (u_domain targetUser) \<and> u_domain targetUser \<noteq> Some (o_domain org)))
                 BAD_REQUEST 400) (\<lambda>_.
     (case findTeam db (\<lambda>t. t_orgId t = o_id org \<and> t_isDefault t) of
        None \<Rightarrow> refuse_with INTERNAL 500 ''DEFAULT_TEAM_MISSING''
      | Some defaultTeam \<Rightarrow>
          (case existing of
             Some m \<Rightarrow>
               (let m' = set_status ACTIVE now (set_role role now m)
                in and_then (update_org_member (om_id m) (\<lambda>r. set_status ACTIVE now (set_role role now r)) db)
                     (\<lambda>db1. and_then (reactivate_default_team_membership env (t_id defaultTeam) userId db1)
                     (\<lambda>db2. Inr ((m', True), db2))))
           | None \<Rightarrow>
               (let m = new_member (fresh_id env 0) (o_id org) userId role now
                in and_then (create_org_member m db)
                     (\<lambda>db1. and_then (create_team_member
                        (new_team_member (fresh_id env 1) (t_id defaultTeam) userId ''member'' now) db1)
                     (\<lambda>db2. Inr ((m, False), db2))))))))))))"

definition addOrganisationMember ::
  "org_env \<Rightarrow> org_request \<Rightarrow> string \<Rightarrow> string \<Rightarrow> organisation_member_record org_step" where
  "addOrganisationMember env p rawUserId rawRole =
     (let userId = js_trim rawUserId; role = js_trim rawRole in
      checks_then (add_member_checks env p userId role) (\<lambda>(actorUserId, org).
        and_audit
          (\<lambda>(m, reactivated). auditOrg env (rq_actor p)
             (audit_entry (o_id org) actorUserId ''member.added'' ''org_member'' (om_id m)
                ([(''userId'', Text userId), (''role'', Text role)] @
                 (if reactivated then [(''reactivated'', Flag True)] else []))))
          (\<lambda>(m, _). toMemberRecord env m (o_domain org))
          (transact env (add_member_tx env (rq_config p) org userId role))))"

subsection \<open>Changing a role\<close>

definition change_role_checks ::
  "org_env \<Rightarrow> org_request \<Rightarrow> string \<Rightarrow> string \<Rightarrow> org_db \<Rightarrow>
     (string option \<times> organisation \<times> org_member) checked" where
  "change_role_checks env p userId role db =
     and_then (assertDatabaseEnabled env) (\<lambda>_.
     and_then (resolveOrgActor p) (\<lambda>actorUserId.
     and_then (check (userId \<noteq> []) BAD_REQUEST 400) (\<lambda>_.
     and_then (ensureOrgRole role (parseOrgFeatureRoles (rq_config p))) (\<lambda>_.
     and_then (resolveOrganisation db (rq_orgId p)) (\<lambda>org.
     and_then (check (actorUserId = None \<or> actorUserId = Some (o_ownerId org)) FORBIDDEN 403) (\<lambda>_.
     (case findMember db (active_member (o_id org) userId) of
        None \<Rightarrow> refuse NOT_FOUND 404
      | Some member \<Rightarrow>
          and_then (check (\<not> (om_userId member = o_ownerId org \<and> role \<noteq> ''owner'')) BAD_REQUEST 400)
            (\<lambda>_. Inr (actorUserId, org, member)))))))))"

text \<open>No transaction of its own: one update of the row that was read.\<close>

definition changeOrganisationMemberRole ::
  "org_env \<Rightarrow> org_request \<Rightarrow> string \<Rightarrow> string \<Rightarrow> organisation_member_record org_step" where
  "changeOrganisationMemberRole env p rawUserId rawRole =
     (let userId = js_trim rawUserId; role = js_trim rawRole in
      checks_then (change_role_checks env p userId role) (\<lambda>(actorUserId, org, member).
        and_audit
          (\<lambda>m. auditOrg env (rq_actor p)
             (audit_entry (o_id org) actorUserId ''member.role_changed'' ''org_member'' (om_id m)
                [(''userId'', Text userId), (''role'', Text role),
                 (''previousRole'', Text (om_role member))]))
          (\<lambda>m. toMemberRecord env m (o_domain org))
          (transact env (\<lambda>db.
             and_then (update_org_member (om_id member) (set_role role (clock env)) db) (\<lambda>db1.
               case findMember db1 (\<lambda>m. om_id m = om_id member) of
                 None \<Rightarrow> Inl (Db_Error ''P2025'')
               | Some m \<Rightarrow> Inr (m, db1))))))"

subsection \<open>Removing a member\<close>

definition active_owner_count :: "org_db \<Rightarrow> string \<Rightarrow> nat" where
  "active_owner_count db orgId =
     count_where (\<lambda>m. om_orgId m = orgId \<and> om_role m = ''owner'' \<and> om_status m = ACTIVE)
       (org_members db)"

definition remove_member_checks ::
  "org_env \<Rightarrow> org_request \<Rightarrow> string \<Rightarrow> org_db \<Rightarrow>
     (string option \<times> organisation \<times> org_member) checked" where
  "remove_member_checks env p userId db =
     and_then (assertDatabaseEnabled env) (\<lambda>_.
     and_then (resolveOrgActor p) (\<lambda>actorUserId.
     and_then (check (userId \<noteq> []) BAD_REQUEST 400) (\<lambda>_.
     and_then (resolveOrganisation db (rq_orgId p)) (\<lambda>org.
     (let actorMembership =
            (case actorUserId of
               None \<Rightarrow> None | Some a \<Rightarrow> getOrganisationMember db (o_id org) a True)
      in
     and_then (case actorUserId of
                 None \<Rightarrow> Inr ()
               | Some _ \<Rightarrow> requireOrgCapability (rq_config p) ''members.manage''
                             (map_option om_role actorMembership)) (\<lambda>_.
     (case getOrganisationMember db (o_id org) userId False of
        None \<Rightarrow> refuse NOT_FOUND 404
      | Some member \<Rightarrow>
          and_then (check (\<not> (om_role member = ''owner'' \<and> actorMembership \<noteq> None \<and>
                        map_option om_role actorMembership \<noteq> Some ''owner'')) FORBIDDEN 403) (\<lambda>_.
          and_then (check (\<not> (om_role member = ''owner'' \<and>
                        active_owner_count db (o_id org) \<le> 1)) BAD_REQUEST 400) (\<lambda>_.
          Inr (actorUserId, org, member))))))))))"

definition revoke_member_sessions :: "string \<Rightarrow> organisation \<Rightarrow> int \<Rightarrow> org_db \<Rightarrow> org_db" where
  "revoke_member_sessions userId org now db =
     db\<lparr>sessions :=
       snd (revokeRefreshTokensForUserDomain (userId, o_domain org) now
         (snd (revokeRefreshTokenFamiliesForUserOrganisation (userId, o_id org) now (sessions db))))\<rparr>"

text \<open>The other active owners; the first of them inherits the organisation.\<close>

definition other_owners :: "organisation \<Rightarrow> string \<Rightarrow> org_db \<Rightarrow> org_member list" where
  "other_owners org userId db =
     filter (\<lambda>m. om_orgId m = o_id org \<and> om_role m = ''owner'' \<and> om_status m = ACTIVE \<and>
       om_userId m \<noteq> userId) (org_members db)"

definition pass_ownership :: "organisation \<Rightarrow> org_member \<Rightarrow> int \<Rightarrow> org_db \<Rightarrow> org_db checked" where
  "pass_ownership org lockedMember now db =
     (let owners = (if om_userId lockedMember = o_ownerId org
                    then other_owners org (om_userId lockedMember) db else [])
      in if om_userId lockedMember = o_ownerId org \<and> owners \<noteq> []
         then update_organisation (o_id org) (set_owner (om_userId (hd owners)) now) db
         else Inr db)"

definition move_team_memberships ::
  "organisation \<Rightarrow> string \<Rightarrow> (membership_status \<Rightarrow> bool) \<Rightarrow> membership_status \<Rightarrow> int \<Rightarrow> org_db \<Rightarrow> org_db"
where
  "move_team_memberships org userId from to now db =
     update_team_members (\<lambda>m. tm_userId m = userId \<and> team_in_org db (o_id org) (tm_teamId m) \<and>
       from (tm_status m)) (set_team_status to now) db"

definition delete_group_memberships :: "organisation \<Rightarrow> string \<Rightarrow> org_db \<Rightarrow> org_db" where
  "delete_group_memberships org userId db =
     db\<lparr>group_members := filter (\<lambda>g. \<not> (gm_userId g = userId \<and>
       group_in_org db (o_id org) (gm_groupId g))) (group_members db)\<rparr>"

definition remove_member_tx ::
  "org_env \<Rightarrow> organisation \<Rightarrow> string \<Rightarrow> org_db \<Rightarrow> (unit \<times> org_db) checked" where
  "remove_member_tx env org userId db =
     (let now = clock env in
      case findMember db (\<lambda>m. om_orgId m = o_id org \<and> om_userId m = userId) of
        None \<Rightarrow> refuse NOT_FOUND 404
      | Some lockedMember \<Rightarrow>
     and_then (check (\<not> (om_role lockedMember = ''owner'' \<and> active_owner_count db (o_id org) \<le> 1))
                 BAD_REQUEST 400) (\<lambda>_.
     and_then (pass_ownership org lockedMember now db) (\<lambda>db1.
     (let db2 = move_team_memberships org userId (\<lambda>s. s \<noteq> REMOVED) REMOVED now db1;
          db3 = delete_group_memberships org userId db2
      in
     and_then (update_org_member (om_id lockedMember) (set_status REMOVED now) db3) (\<lambda>db4.
       Inr ((), revoke_member_sessions userId org now db4))))))"

definition removeOrganisationMember :: "org_env \<Rightarrow> org_request \<Rightarrow> string \<Rightarrow> bool org_step" where
  "removeOrganisationMember env p rawUserId =
     (let userId = js_trim rawUserId in
      checks_then (remove_member_checks env p userId) (\<lambda>(actorUserId, org, member).
        and_audit
          (\<lambda>_. auditOrg env (rq_actor p)
             (audit_entry (o_id org) actorUserId ''member.removed'' ''org_member'' (om_id member)
                [(''userId'', Text userId), (''role'', Text (om_role member))]))
          (\<lambda>_. True)
          (transact env (remove_member_tx env org userId))))"

end
