(* ===== verification/Org_Lifecycle.thy ===== *)
theory Org_Lifecycle
  imports Org_Membership
begin

section \<open>Membership lifecycle, ownership, and the organisation itself\<close>

text \<open>
  \<^verbatim>\<open>organisation.service.lifecycle.ts\<close> (deactivate, reactivate),
  \<^verbatim>\<open>organisation.service.ownership.ts\<close> (transfer) and
  \<^verbatim>\<open>organisation.service.organisation.ts\<close> (list, create, read, update, delete).
\<close>

subsection \<open>Deactivate and reactivate\<close>

definition lifecycle_checks ::
  "org_env \<Rightarrow> org_request \<Rightarrow> string \<Rightarrow> membership_status \<Rightarrow> org_db \<Rightarrow>
     (string option \<times> organisation \<times> org_member) checked" where
  "lifecycle_checks env p userId status db =
     and_then (assertDatabaseEnabled env) (\<lambda>_.
     and_then (resolveOrgActor p) (\<lambda>actorUserId.
     and_then (check (userId \<noteq> []) BAD_REQUEST 400) (\<lambda>_.
     and_then (resolveOrganisation db (rq_orgId p)) (\<lambda>org.
     and_then (requireOrgMemberManager db (o_id org) actorUserId (rq_config p)) (\<lambda>_.
     (case findMember db (\<lambda>m. om_orgId m = o_id org \<and> om_userId m = userId \<and> om_status m = status) of
        None \<Rightarrow> refuse NOT_FOUND 404
      | Some member \<Rightarrow> Inr (actorUserId, org, member)))))))"

definition deactivate_tx ::
  "org_env \<Rightarrow> organisation \<Rightarrow> string \<Rightarrow> org_db \<Rightarrow> (unit \<times> org_db) checked" where
  "deactivate_tx env org userId db =
     (let now = clock env in
      case findMember db (active_member (o_id org) userId) of
        None \<Rightarrow> refuse NOT_FOUND 404
      | Some lockedMember \<Rightarrow>
          and_then (check (om_role lockedMember \<noteq> ''owner'') BAD_REQUEST 400) (\<lambda>_.
          and_then (update_org_member (om_id lockedMember) (set_status DEACTIVATED now) db) (\<lambda>db1.
            Inr ((), revoke_member_sessions userId org now
                       (move_team_memberships org userId (\<lambda>s. s = ACTIVE) DEACTIVATED now db1)))))"

definition deactivateOrganisationMember :: "org_env \<Rightarrow> org_request \<Rightarrow> string \<Rightarrow> bool org_step" where
  "deactivateOrganisationMember env p rawUserId =
     (let userId = js_trim rawUserId in
      checks_then
        (\<lambda>db. and_then (lifecycle_checks env p userId ACTIVE db) (\<lambda>(actorUserId, org, member).
           and_then (check (om_role member \<noteq> ''owner'') BAD_REQUEST 400)
             (\<lambda>_. Inr (actorUserId, org, member))))
        (\<lambda>(actorUserId, org, member).
           and_audit
             (\<lambda>_. auditOrg env (rq_actor p)
                (audit_entry (o_id org) actorUserId ''member.deactivated'' ''org_member''
                   (om_id member) [(''userId'', Text userId)]))
             (\<lambda>_. True)
             (transact env (deactivate_tx env org userId))))"

definition reactivate_tx ::
  "org_env \<Rightarrow> organisation \<Rightarrow> string \<Rightarrow> org_db \<Rightarrow> (unit \<times> org_db) checked" where
  "reactivate_tx env org userId db =
     (let now = clock env in
      case findMember db (\<lambda>m. om_orgId m = o_id org \<and> om_userId m = userId \<and>
             om_status m = DEACTIVATED) of
        None \<Rightarrow> refuse NOT_FOUND 404
      | Some lockedMember \<Rightarrow>
          and_then (update_org_member (om_id lockedMember) (set_status ACTIVE now) db) (\<lambda>db1.
            Inr ((), move_team_memberships org userId (\<lambda>s. s = DEACTIVATED) ACTIVE now db1)))"

definition reactivateOrganisationMember :: "org_env \<Rightarrow> org_request \<Rightarrow> string \<Rightarrow> bool org_step" where
  "reactivateOrganisationMember env p rawUserId =
     (let userId = js_trim rawUserId in
      checks_then (lifecycle_checks env p userId DEACTIVATED)
        (\<lambda>(actorUserId, org, member).
           and_audit
             (\<lambda>_. auditOrg env (rq_actor p)
                (audit_entry (o_id org) actorUserId ''member.reactivated'' ''org_member''
                   (om_id member) [(''userId'', Text userId)]))
             (\<lambda>_. True)
             (transact env (reactivate_tx env org userId))))"

subsection \<open>Transferring ownership\<close>

definition resolveOutgoingOwnerRole :: "client_config \<Rightarrow> string option \<Rightarrow> string checked" where
  "resolveOutgoingOwnerRole c requested =
     (let role = map_option js_trim requested
      in if truthy role then
           and_then (ensureOrgRole (the role) (parseOrgFeatureRoles c)) (\<lambda>_.
             if the role = OWNER_ROLE then refuse_with BAD_REQUEST 400 ''INVALID_PREVIOUS_OWNER_ROLE''
             else Inr (the role))
         else (case resolveDemotedOwnerRole c of
                 Some (r # rs) \<Rightarrow> Inr (r # rs)
               | _ \<Rightarrow> refuse_with BAD_REQUEST 400 ''NO_DEMOTED_OWNER_ROLE''))"

definition transfer_checks ::
  "org_env \<Rightarrow> org_request \<Rightarrow> string \<Rightarrow> string option \<Rightarrow> org_db \<Rightarrow>
     (string option \<times> organisation \<times> string \<times> string \<times> org_member) checked" where
  "transfer_checks env p newOwnerId previousOwnerRole db =
     and_then (assertDatabaseEnabled env) (\<lambda>_.
     and_then (resolveOrgActor p) (\<lambda>actorUserId.
     and_then (check (newOwnerId \<noteq> []) BAD_REQUEST 400) (\<lambda>_.
     and_then (resolveOutgoingOwnerRole (rq_config p) previousOwnerRole) (\<lambda>outgoingOwnerRole.
     and_then (resolveOrganisation db (rq_orgId p)) (\<lambda>org.
     and_then (check (actorUserId = None \<or> actorUserId = Some (o_ownerId org)) FORBIDDEN 403) (\<lambda>_.
     (let outgoingOwnerId = (case actorUserId of Some a \<Rightarrow> a | None \<Rightarrow> o_ownerId org) in
     and_then (check (outgoingOwnerId \<noteq> newOwnerId) BAD_REQUEST 400) (\<lambda>_.
     (case getOrganisationMember db (o_id org) newOwnerId True of
        None \<Rightarrow> refuse NOT_FOUND 404
      | Some m \<Rightarrow> Inr (actorUserId, org, outgoingOwnerRole, outgoingOwnerId, m))))))))))"

definition transfer_tx ::
  "org_env \<Rightarrow> organisation \<Rightarrow> string \<Rightarrow> string \<Rightarrow> string \<Rightarrow> org_member \<Rightarrow> org_db \<Rightarrow>
     ((organisation \<times> bool) \<times> org_db) checked" where
  "transfer_tx env org newOwnerId outgoingOwnerRole outgoingOwnerId newOwnerMembership db =
     (let now = clock env in
     and_then (update_organisation (o_id org) (set_owner newOwnerId now) db) (\<lambda>db1.
     and_then (update_org_member (om_id newOwnerMembership) (set_role OWNER_ROLE now) db1) (\<lambda>db2.
     (let old = findMember db2 (\<lambda>m. om_orgId m = o_id org \<and> om_userId m = outgoingOwnerId) in
     and_then (case old of
                 Some m \<Rightarrow> update_org_member (om_id m) (set_role outgoingOwnerRole now) db2
               | None \<Rightarrow> Inr db2) (\<lambda>db3.
     (case findOrg db3 (o_id org) of
        None \<Rightarrow> Inl (Db_Error ''P2025'')
      | Some updated \<Rightarrow> Inr ((updated, old \<noteq> None), db3)))))))"

text \<open>The row is selected without its invite policy and icon, so the record carries defaults.\<close>

definition transferOrganisationOwnership ::
  "org_env \<Rightarrow> org_request \<Rightarrow> string \<Rightarrow> string option \<Rightarrow> organisation org_step" where
  "transferOrganisationOwnership env p rawNewOwnerId previousOwnerRole =
     (let newOwnerId = js_trim rawNewOwnerId in
      checks_then (transfer_checks env p newOwnerId previousOwnerRole)
        (\<lambda>(actorUserId, org, outgoingOwnerRole, outgoingOwnerId, newOwnerMembership).
           and_audit
             (\<lambda>(_, demoted). auditOrg env (rq_actor p)
                (audit_entry (o_id org) actorUserId ''org.ownership_transferred'' ''organisation''
                   (o_id org)
                   ([(''newOwnerId'', Text newOwnerId), (''previousOwnerId'', Text outgoingOwnerId)] @
                    (if demoted then [(''previousOwnerRole'', Text outgoingOwnerRole)] else []))))
             (\<lambda>(updated, _). toOrganisationRecord updated None None)
             (transact env (transfer_tx env org newOwnerId outgoingOwnerRole outgoingOwnerId
                newOwnerMembership))))"

subsection \<open>The organisation\<close>

definition listOrganisationsForDomain ::
  "org_env \<Rightarrow> (string \<Rightarrow> string \<Rightarrow> int) \<Rightarrow> string \<Rightarrow> int option \<Rightarrow> string option \<Rightarrow> org_db \<Rightarrow>
     (organisation list \<times> string option) checked" where
  "listOrganisationsForDomain env collate rawDomain limit cursor db =
     and_then (assertDatabaseEnabled env) (\<lambda>_.
     (let domain = normalizeDomain rawDomain in
     and_then (check (domain \<noteq> []) BAD_REQUEST 400) (\<lambda>_.
     (case cursor_page (newest_first collate o_createdAt o_id) o_id (\<lambda>r. o_domain r = domain)
             (toListLimit limit) (cursor_param cursor) (organisations db) of
        (data, nxt) \<Rightarrow> Inr (map full_organisation_record data, nxt)))))"

definition org_slug_taken :: "org_db \<Rightarrow> string \<Rightarrow> string \<Rightarrow> bool" where
  "org_slug_taken db domain slug \<longleftrightarrow>
     (\<exists>r \<in> set (organisations db). o_domain r = domain \<and> o_slug r = slug)"

definition team_slug_taken :: "org_db \<Rightarrow> string \<Rightarrow> string \<Rightarrow> bool" where
  "team_slug_taken db orgId slug \<longleftrightarrow> (\<exists>t \<in> set (teams db). t_orgId t = orgId \<and> t_slug t = slug)"

definition as_bad_request :: "string list \<Rightarrow> 'a checked \<Rightarrow> 'a checked" where
  "as_bad_request codes r =
     (case r of Inl (Db_Error e) \<Rightarrow> if e \<in> set codes then refuse BAD_REQUEST 400 else r | _ \<Rightarrow> r)"

definition new_team :: "string \<Rightarrow> string \<Rightarrow> string \<Rightarrow> string \<Rightarrow> int \<Rightarrow> team" where
  "new_team i orgId name slug now =
     \<lparr>t_id = i, t_orgId = orgId, t_groupId = None, t_name = name, t_slug = slug,
      t_description = None, t_isDefault = False, t_joinPolicy = INVITE_ONLY, t_iconUrl = None,
      t_createdAt = now, t_updatedAt = now\<rparr>"

definition create_organisation_tx ::
  "org_env \<Rightarrow> string option \<Rightarrow> string \<Rightarrow> string \<Rightarrow> string \<Rightarrow> team_join_policy option \<Rightarrow> org_db \<Rightarrow>
     (organisation \<times> org_db) checked" where
  "create_organisation_tx env actorUserId domain name ownerId policy db =
     (let now = clock env in
     and_then (check (findMember db (\<lambda>m. om_userId m = ownerId \<and> om_status m = ACTIVE \<and>
                 org_domain db (om_orgId m) = Some domain) = None) BAD_REQUEST 400) (\<lambda>_.
     and_then (check (user_exists db ownerId) BAD_REQUEST 400) (\<lambda>_.
     and_then (check (actorUserId \<noteq> None \<or> (domain, ownerId) \<in> set (domain_roles db))
                 BAD_REQUEST 400) (\<lambda>_.
     and_then (lift (deriveSlugWithValidation (org_slug_taken db domain) (random_bytes env) name None))
       (\<lambda>slug.
     (let org = \<lparr>o_id = fresh_id env 0, o_domain = domain, o_name = name, o_slug = slug,
                 o_ownerId = ownerId, o_memberInvites = Invites_Allowed, o_iconUrl = None,
                 o_createdAt = now, o_updatedAt = now\<rparr> in
     and_then (create_organisation org db) (\<lambda>db1.
     and_then (lift (deriveUniqueTeamSlug (team_slug_taken db1 (o_id org)) ''General'' None)) (\<lambda>teamSlug.
     (let general = (new_team (fresh_id env 1) (o_id org) ''General'' teamSlug now)
                      \<lparr>t_isDefault := True,
                       t_joinPolicy := (case policy of Some q \<Rightarrow> q | None \<Rightarrow> INVITE_ONLY)\<rparr> in
     and_then (create_team general db1) (\<lambda>db2.
     and_then (as_bad_request [''P2002'', ''P2003'']
                 (create_org_member (new_member (fresh_id env 2) (o_id org) ownerId ''owner'' now) db2))
       (\<lambda>db3.
     and_then (create_team_member
                 (new_team_member (fresh_id env 3) (t_id general) ownerId ''member'' now) db3)
       (\<lambda>db4. Inr (full_organisation_record org, db4)))))))))))))"

definition createOrganisation ::
  "org_env \<Rightarrow> org_request \<Rightarrow> string \<Rightarrow> string \<Rightarrow> string option \<Rightarrow> string \<Rightarrow> organisation org_step" where
  "createOrganisation env p rawDomain rawName rawPolicy rawOwnerId =
     (let domain = normalizeDomain rawDomain; ownerId = js_trim rawOwnerId in
      checks_then
        (\<lambda>db. and_then (assertDatabaseEnabled env) (\<lambda>_.
           and_then (resolveOrgActor p) (\<lambda>actorUserId.
           and_then (ensureOrgName rawName) (\<lambda>name.
           and_then (case rawPolicy of
                       None \<Rightarrow> Inr None
                     | Some q \<Rightarrow> and_then (normalizeTeamJoinPolicy q) (\<lambda>v. Inr (Some v))) (\<lambda>policy.
           and_then (check (ownerId \<noteq> [] \<and> domain \<noteq> []) BAD_REQUEST 400) (\<lambda>_.
             Inr (actorUserId, name, policy)))))))
        (\<lambda>(actorUserId, name, policy).
           and_audit
             (\<lambda>created. auditOrg env (rq_actor p)
                (audit_entry (o_id created) actorUserId ''org.created'' ''organisation'' (o_id created)
                   [(''name'', Text (o_name created)), (''slug'', Text (o_slug created)),
                    (''ownerId'', Text ownerId)]))
             id
             (transact env (create_organisation_tx env actorUserId domain name ownerId policy))))"

definition getOrganisation :: "org_env \<Rightarrow> org_request \<Rightarrow> org_db \<Rightarrow> organisation checked" where
  "getOrganisation env p db =
     and_then (assertDatabaseEnabled env) (\<lambda>_.
     and_then (resolveOrgActor p) (\<lambda>actorUserId.
     and_then (resolveOrganisation db (rq_orgId p)) (\<lambda>row.
     and_then (case actorUserId of
                 None \<Rightarrow> Inr ()
               | Some a \<Rightarrow>
                   check (getOrganisationMember db (o_id row) a True \<noteq> None) FORBIDDEN 403)
       (\<lambda>_. Inr (full_organisation_record row)))))"

definition apply_field :: "'a field \<Rightarrow> 'a option \<Rightarrow> 'a option" where
  "apply_field f old = (case f of Absent \<Rightarrow> old | Null \<Rightarrow> None | Value v \<Rightarrow> Some v)"

text \<open>The slug lookup and the two optional settings are computed before the update is sent.\<close>

definition update_organisation_checks ::
  "org_env \<Rightarrow> url_parser \<Rightarrow> org_request \<Rightarrow> string \<Rightarrow> string option \<Rightarrow> string field \<Rightarrow> org_db \<Rightarrow>
     (string option \<times> organisation \<times> string \<times> string \<times> org_member_invites option \<times> string field) checked"
where
  "update_organisation_checks env parse p rawName memberInvites iconUrl db =
     and_then (assertDatabaseEnabled env) (\<lambda>_.
     and_then (resolveOrgActor p) (\<lambda>actorUserId.
     and_then (ensureOrgName rawName) (\<lambda>name.
     and_then (resolveOrganisation db (rq_orgId p)) (\<lambda>org.
     and_then (case actorUserId of
                 None \<Rightarrow> Inr ()
               | Some a \<Rightarrow> requireOrgCapability (rq_config p) ''organisation.manage''
                             (map_option om_role (getOrganisationMember db (o_id org) a True))) (\<lambda>_.
     and_then (lift (deriveSlugWithValidation (org_slug_taken db (o_domain org)) (random_bytes env)
                 name (Some (o_slug org)))) (\<lambda>slug.
     and_then (case memberInvites of
                 None \<Rightarrow> Inr None
               | Some v \<Rightarrow> and_then (normalizeMemberInvitesSetting v) (\<lambda>w. Inr (Some w))) (\<lambda>invites.
     and_then (normalizeIconUrl parse iconUrl) (\<lambda>icon.
       Inr (actorUserId, org, name, slug, invites, icon)))))))))"

definition updateOrganisation ::
  "org_env \<Rightarrow> url_parser \<Rightarrow> org_request \<Rightarrow> string \<Rightarrow> string option \<Rightarrow> string field \<Rightarrow>
     organisation org_step" where
  "updateOrganisation env parse p rawName memberInvites iconUrl =
     checks_then (update_organisation_checks env parse p rawName memberInvites iconUrl)
       (\<lambda>(actorUserId, org, name, slug, invites, icon).
          and_audit
            (\<lambda>updated. auditOrg env (rq_actor p)
               (audit_entry (o_id org) actorUserId ''org.updated'' ''organisation'' (o_id org)
                  ([(''name'', Text (o_name updated)), (''slug'', Text (o_slug updated))] @
                   (if invites \<noteq> None then [(''memberInvites'',
                      Text (case o_memberInvites updated of Invites_Allowed \<Rightarrow> ''allowed''
                            | Admin_Approval \<Rightarrow> ''admin_approval''
                            | Invites_Disabled \<Rightarrow> ''disabled''))] else []) @
                   (if icon \<noteq> Absent then [(''iconUrlSet'', Flag (o_iconUrl updated \<noteq> None))] else []))))
            full_organisation_record
            (transact env (\<lambda>db.
               and_then (update_organisation (o_id org)
                   (\<lambda>r. r\<lparr>o_name := name, o_slug := slug,
                         o_memberInvites := (case invites of Some v \<Rightarrow> v | None \<Rightarrow> o_memberInvites r),
                         o_iconUrl := apply_field icon (o_iconUrl r), o_updatedAt := clock env\<rparr>) db)
                 (\<lambda>db1. case findOrg db1 (o_id org) of
                          None \<Rightarrow> Inl (Db_Error ''P2025'') | Some r \<Rightarrow> Inr (r, db1)))))"

text \<open>Deleting an organisation cascades to its members, teams and groups and theirs.\<close>

definition cascade_delete_organisation :: "string \<Rightarrow> org_db \<Rightarrow> org_db" where
  "cascade_delete_organisation orgId db =
     db\<lparr>organisations := filter (\<lambda>r. o_id r \<noteq> orgId) (organisations db),
        org_members := filter (\<lambda>m. om_orgId m \<noteq> orgId) (org_members db),
        teams := filter (\<lambda>t. t_orgId t \<noteq> orgId) (teams db),
        team_members := filter (\<lambda>m. \<not> team_in_org db orgId (tm_teamId m)) (team_members db),
        groups := filter (\<lambda>g. g_orgId g \<noteq> orgId) (groups db),
        group_members := filter (\<lambda>m. \<not> group_in_org db orgId (gm_groupId m)) (group_members db)\<rparr>"

definition delete_organisation_tx :: "org_env \<Rightarrow> organisation \<Rightarrow> org_db \<Rightarrow> (unit \<times> org_db) checked" where
  "delete_organisation_tx env org db =
     (if findOrg db (o_id org) = None then refuse NOT_FOUND 404
      else as_bad_request [''P2003'']
             (if referenced env (o_id org) then Inl (Db_Error ''P2003'')
              else Inr ((), cascade_delete_organisation (o_id org) db)))"

definition deleteOrganisation :: "org_env \<Rightarrow> org_request \<Rightarrow> bool org_step" where
  "deleteOrganisation env p =
     checks_then
       (\<lambda>db. and_then (assertDatabaseEnabled env) (\<lambda>_.
          and_then (resolveOrgActor p) (\<lambda>actorUserId.
          and_then (resolveOrganisation db (rq_orgId p)) (\<lambda>org.
          and_then (check (actorUserId = None \<or> actorUserId = Some (o_ownerId org)) FORBIDDEN 403) (\<lambda>_.
            Inr (actorUserId, org))))))
       (\<lambda>(actorUserId, org).
          and_audit
            (\<lambda>_. auditOrg env (rq_actor p)
               (audit_entry (o_id org) actorUserId ''org.deleted'' ''organisation'' (o_id org)
                  [(''name'', Text (o_name org)), (''slug'', Text (o_slug org)),
                   (''ownerId'', Text (o_ownerId org))]))
            (\<lambda>_. True)
            (transact env (delete_organisation_tx env org)))"

end
