(* ===== verification/Org_Teams.thy ===== *)
theory Org_Teams
  imports Org_Lifecycle
begin

section \<open>Teams and team memberships\<close>

text \<open>
  \<^verbatim>\<open>team.service.members.ts\<close> (add, change role, remove, self-join) and
  \<^verbatim>\<open>team.service.teams.ts\<close> (list, create, read, update, delete).
\<close>

definition AUDIT_VIA_MANAGER :: string where
  "AUDIT_VIA_MANAGER = ''manager''"

subsection \<open>Guards shared by the team handlers\<close>

definition team_manager ::
  "org_env \<Rightarrow> org_request \<Rightarrow> string option \<Rightarrow> string \<Rightarrow> string option \<Rightarrow> org_db \<Rightarrow> organisation checked" where
  "team_manager env p actorUserId capability teamId db =
     and_then (resolveAndAuthorizeTeamOrg db (rq_orgId p) actorUserId) (\<lambda>org.
     and_then (requireWorkspaceCapability db capability (o_id org) teamId actorUserId (rq_config p))
       (\<lambda>_. Inr org))"

definition find_team_of :: "org_db \<Rightarrow> organisation \<Rightarrow> string \<Rightarrow> team option" where
  "find_team_of db org teamId = findTeam db (\<lambda>t. t_id t = teamId \<and> t_orgId t = o_id org)"

definition require_team :: "org_db \<Rightarrow> organisation \<Rightarrow> string \<Rightarrow> team checked" where
  "require_team db org teamId =
     (case find_team_of db org teamId of None \<Rightarrow> refuse NOT_FOUND 404 | Some t \<Rightarrow> Inr t)"

definition active_team_count :: "org_db \<Rightarrow> string \<Rightarrow> nat" where
  "active_team_count db teamId =
     count_where (\<lambda>m. tm_teamId m = teamId \<and> tm_status m = ACTIVE) (team_members db)"

definition active_memberships :: "org_db \<Rightarrow> string \<Rightarrow> string \<Rightarrow> nat" where
  "active_memberships db orgId userId =
     count_where (\<lambda>m. tm_userId m = userId \<and> team_in_org db orgId (tm_teamId m) \<and>
       tm_status m = ACTIVE) (team_members db)"

subsection \<open>Adding and self-joining\<close>

definition add_team_member_checks ::
  "org_env \<Rightarrow> org_request \<Rightarrow> string \<Rightarrow> string \<Rightarrow> string option \<Rightarrow> org_db \<Rightarrow>
     (string option \<times> string \<times> organisation \<times> team) checked" where
  "add_team_member_checks env p teamId userId rawRole db =
     and_then (assertDatabaseEnabled env) (\<lambda>_.
     and_then (resolveOrgActor p) (\<lambda>actorUserId.
     and_then (normalizeTeamRole rawRole (rq_config p)) (\<lambda>teamRole.
     and_then (check (userId \<noteq> []) BAD_REQUEST 400) (\<lambda>_.
     and_then (team_manager env p actorUserId ''members.manage'' (Some teamId) db) (\<lambda>org.
     and_then (check (getOrganisationMember db (o_id org) userId False \<noteq> None) BAD_REQUEST 400) (\<lambda>_.
     and_then (require_team db org teamId) (\<lambda>team.
       Inr (actorUserId, teamRole, org, team))))))))"

text \<open>The two caps, then reactivate the tombstone or create the row. \<open>role\<close> is the role to
  write, \<open>None\<close> where the self-service path writes none.\<close>

definition join_team_tx ::
  "org_env \<Rightarrow> client_config \<Rightarrow> organisation \<Rightarrow> team \<Rightarrow> string \<Rightarrow> string option \<Rightarrow> org_db \<Rightarrow>
     ((team_member \<times> bool) \<times> org_db) checked" where
  "join_team_tx env c org team userId role db =
     (let now = clock env;
          existing = findTeamMember db (\<lambda>m. tm_teamId m = t_id team \<and> tm_userId m = userId)
      in
     and_then (check (active_team_count db (t_id team) < parseMaxMembersPerTeam c) BAD_REQUEST 400) (\<lambda>_.
     and_then (check (active_memberships db (o_id org) userId < parseMaxTeamMembershipsPerUser c)
                 BAD_REQUEST 400) (\<lambda>_.
     and_then (check (case existing of Some m \<Rightarrow> tm_status m \<noteq> ACTIVE | None \<Rightarrow> True) BAD_REQUEST 400) (\<lambda>_.
     as_bad_request [''P2002'']
       (case existing of
          Some m \<Rightarrow>
            (let f = (\<lambda>r. set_team_status ACTIVE now
                          (case role of Some q \<Rightarrow> set_team_role q now r | None \<Rightarrow> r))
             in and_then (update_team_member (tm_id m) f db) (\<lambda>db1. Inr ((f m, True), db1)))
        | None \<Rightarrow>
            (let m = new_team_member (fresh_id env 0) (t_id team) userId
                       (case role of Some q \<Rightarrow> q | None \<Rightarrow> ''member'') now
             in and_then (create_team_member m db) (\<lambda>db1. Inr ((m, False), db1))))))))"

definition addTeamMember ::
  "org_env \<Rightarrow> org_request \<Rightarrow> string \<Rightarrow> string \<Rightarrow> string option \<Rightarrow> team_member_record org_step" where
  "addTeamMember env p teamId rawUserId rawRole =
     (let userId = js_trim rawUserId in
      checks_then (add_team_member_checks env p teamId userId rawRole)
        (\<lambda>(actorUserId, teamRole, org, team).
           and_audit
             (\<lambda>(m, reactivated). auditOrg env (rq_actor p)
                (audit_entry (o_id org) actorUserId ''team_member.added'' ''team_member'' (tm_id m)
                   ([(''teamId'', Text (t_id team)), (''userId'', Text userId),
                     (''teamRole'', Text teamRole), (''via'', Text AUDIT_VIA_MANAGER)] @
                    (if reactivated then [(''reactivated'', Flag True)] else []))))
             (\<lambda>(m, _). toTeamMemberRecord env m (o_domain org))
             (transact env (join_team_tx env (rq_config p) org team userId (Some teamRole)))))"

definition self_join_checks ::
  "org_env \<Rightarrow> org_request \<Rightarrow> string \<Rightarrow> string \<Rightarrow> org_db \<Rightarrow> (organisation \<times> team) checked" where
  "self_join_checks env p teamId userId db =
     and_then (assertDatabaseEnabled env) (\<lambda>_.
     and_then (check (userId \<noteq> []) BAD_REQUEST 400) (\<lambda>_.
     and_then (resolveAndAuthorizeTeamOrg db (rq_orgId p) (Some userId)) (\<lambda>org.
     (case find_team_of db org teamId of
        None \<Rightarrow> refuse BAD_REQUEST 400
      | Some team \<Rightarrow>
          if t_joinPolicy team \<noteq> OPEN_TO_ORG then refuse BAD_REQUEST 400 else Inr (org, team)))))"

definition selfJoinTeam ::
  "org_env \<Rightarrow> org_request \<Rightarrow> string \<Rightarrow> string \<Rightarrow> team_member_record org_step" where
  "selfJoinTeam env p teamId rawActorUserId =
     (let userId = js_trim rawActorUserId in
      checks_then (self_join_checks env p teamId userId)
        (\<lambda>(org, team).
           and_audit
             (\<lambda>(m, _). auditOrg env (rq_actor p)
                (audit_entry (o_id org) (Some userId) ''team_member.added'' ''team_member'' (tm_id m)
                   [(''teamId'', Text (t_id team)), (''via'', Text ''self_join'')]))
             (\<lambda>(m, _). toTeamMemberRecord env m (o_domain org))
             (transact env (join_team_tx env (rq_config p) org team userId None))))"

subsection \<open>Changing a team role\<close>

definition change_team_role_checks ::
  "org_env \<Rightarrow> org_request \<Rightarrow> string \<Rightarrow> string \<Rightarrow> string \<Rightarrow> org_db \<Rightarrow>
     (string option \<times> string \<times> organisation \<times> team \<times> team_member) checked" where
  "change_team_role_checks env p teamId userId rawRole db =
     and_then (assertDatabaseEnabled env) (\<lambda>_.
     and_then (resolveOrgActor p) (\<lambda>actorUserId.
     and_then (normalizeTeamRole (Some rawRole) (rq_config p)) (\<lambda>teamRole.
     and_then (check (userId \<noteq> []) BAD_REQUEST 400) (\<lambda>_.
     and_then (team_manager env p actorUserId ''members.manage'' (Some teamId) db) (\<lambda>org.
     and_then (require_team db org teamId) (\<lambda>team.
     (case findTeamMember db (\<lambda>m. tm_teamId m = t_id team \<and> tm_userId m = userId \<and>
             tm_status m = ACTIVE) of
        None \<Rightarrow> refuse NOT_FOUND 404
      | Some member \<Rightarrow> Inr (actorUserId, teamRole, org, team, member))))))))"

definition changeTeamMemberRole ::
  "org_env \<Rightarrow> org_request \<Rightarrow> string \<Rightarrow> string \<Rightarrow> string \<Rightarrow> team_member_record org_step" where
  "changeTeamMemberRole env p teamId rawUserId rawRole =
     (let userId = js_trim rawUserId in
      checks_then (change_team_role_checks env p teamId userId rawRole)
        (\<lambda>(actorUserId, teamRole, org, team, member).
           and_audit
             (\<lambda>m. auditOrg env (rq_actor p)
                (audit_entry (o_id org) actorUserId ''team_member.role_changed'' ''team_member'' (tm_id m)
                   [(''teamId'', Text (t_id team)), (''userId'', Text userId),
                    (''teamRole'', Text teamRole), (''previousTeamRole'', Text (tm_teamRole member)),
                    (''via'', Text AUDIT_VIA_MANAGER)]))
             (\<lambda>m. toTeamMemberRecord env m (o_domain org))
             (transact env (\<lambda>db.
                and_then (update_team_member (tm_id member) (set_team_role teamRole (clock env)) db) (\<lambda>db1.
                  case findTeamMember db1 (\<lambda>m. tm_id m = tm_id member) of
                    None \<Rightarrow> Inl (Db_Error ''P2025'') | Some m \<Rightarrow> Inr (m, db1))))))"

subsection \<open>Removing from a team\<close>

definition remove_team_member_tx ::
  "org_env \<Rightarrow> organisation \<Rightarrow> team \<Rightarrow> string \<Rightarrow> org_db \<Rightarrow> (team_member \<times> org_db) checked" where
  "remove_team_member_tx env org team userId db =
     (let now = clock env in
      case findTeamMember db (\<lambda>m. tm_teamId m = t_id team \<and> tm_userId m = userId \<and>
             tm_status m = ACTIVE) of
        None \<Rightarrow> refuse NOT_FOUND 404
      | Some lockedMembership \<Rightarrow>
          and_then (check (1 < active_memberships db (o_id org) userId) BAD_REQUEST 400) (\<lambda>_.
          and_then (update_team_member (tm_id lockedMembership) (set_team_status REMOVED now) db) (\<lambda>db1.
            Inr (lockedMembership,
                 db1\<lparr>sessions := snd (revokeRefreshTokenFamiliesForUserTeam (userId, t_id team) now
                                    (sessions db1))\<rparr>))))"

definition removeTeamMember :: "org_env \<Rightarrow> org_request \<Rightarrow> string \<Rightarrow> string \<Rightarrow> bool org_step" where
  "removeTeamMember env p teamId rawUserId =
     (let userId = js_trim rawUserId in
      checks_then
        (\<lambda>db. and_then (assertDatabaseEnabled env) (\<lambda>_.
           and_then (resolveOrgActor p) (\<lambda>actorUserId.
           and_then (check (userId \<noteq> []) BAD_REQUEST 400) (\<lambda>_.
           and_then (team_manager env p actorUserId ''members.manage'' (Some teamId) db) (\<lambda>org.
           and_then (require_team db org teamId) (\<lambda>team. Inr (actorUserId, org, team)))))))
        (\<lambda>(actorUserId, org, team).
           and_audit
             (\<lambda>m. auditOrg env (rq_actor p)
                (audit_entry (o_id org) actorUserId ''team_member.removed'' ''team_member'' (tm_id m)
                   [(''teamId'', Text (t_id team)), (''userId'', Text userId),
                    (''teamRole'', Text (tm_teamRole m)), (''via'', Text AUDIT_VIA_MANAGER)]))
             (\<lambda>_. True)
             (transact env (remove_team_member_tx env org team userId))))"

subsection \<open>The teams of an organisation\<close>

text \<open>A hidden team is listed to its own active members and to the domain backend only.\<close>

definition team_visible :: "org_db \<Rightarrow> string option \<Rightarrow> team \<Rightarrow> bool" where
  "team_visible db actorUserId t =
     (case actorUserId of
        None \<Rightarrow> True
      | Some a \<Rightarrow>
          t_joinPolicy t \<noteq> HIDDEN \<or>
          (\<exists>m \<in> set (team_members db). tm_teamId m = t_id t \<and> tm_userId m = a \<and> tm_status m = ACTIVE))"

definition listTeams ::
  "org_env \<Rightarrow> (string \<Rightarrow> string \<Rightarrow> int) \<Rightarrow> org_request \<Rightarrow> int option \<Rightarrow> string option \<Rightarrow> org_db \<Rightarrow>
     (team_record list \<times> string option) checked" where
  "listTeams env collate p limit cursor db =
     and_then (assertDatabaseEnabled env) (\<lambda>_.
     and_then (resolveOrgActor p) (\<lambda>actorUserId.
     and_then (resolveAndAuthorizeTeamOrg db (rq_orgId p) actorUserId) (\<lambda>org.
     (case cursor_page (newest_first collate t_createdAt t_id) t_id
             (\<lambda>t. t_orgId t = o_id org \<and> team_visible db actorUserId t)
             (toListLimit limit) (cursor_param cursor) (teams db) of
        (data, nxt) \<Rightarrow> Inr (map (\<lambda>t. full_team_record env t (o_domain org)) data, nxt)))))"

definition create_team_tx ::
  "org_env \<Rightarrow> client_config \<Rightarrow> organisation \<Rightarrow> string \<Rightarrow> string option \<Rightarrow> string field \<Rightarrow>
     team_join_policy option \<Rightarrow> org_db \<Rightarrow> (team_record \<times> org_db) checked" where
  "create_team_tx env c org name rawSlug description policy db =
     and_then (check (count_where (\<lambda>t. t_orgId t = o_id org) (teams db) < parseMaxTeamsPerOrg c)
                 BAD_REQUEST 400) (\<lambda>_.
     and_then (lift (if truthy rawSlug
                     then ensureAvailableTeamSlug (team_slug_taken db (o_id org)) (the rawSlug) None
                     else deriveUniqueTeamSlug (team_slug_taken db (o_id org)) name None)) (\<lambda>slug.
     (let t = (new_team (fresh_id env 0) (o_id org) name slug (clock env))
                \<lparr>t_description := apply_field description None,
                 t_joinPolicy := (case policy of Some q \<Rightarrow> q | None \<Rightarrow> INVITE_ONLY)\<rparr>
      in as_bad_request [''P2002'']
           (and_then (create_team t db) (\<lambda>db1. Inr (full_team_record env t (o_domain org), db1))))))"

definition join_policy_text :: "team_join_policy \<Rightarrow> string" where
  "join_policy_text q =
     (case q of INVITE_ONLY \<Rightarrow> ''INVITE_ONLY'' | APPROVED_DOMAIN \<Rightarrow> ''APPROVED_DOMAIN''
      | REQUEST_TO_JOIN \<Rightarrow> ''REQUEST_TO_JOIN'' | OPEN_TO_ORG \<Rightarrow> ''OPEN_TO_ORG'' | HIDDEN \<Rightarrow> ''HIDDEN'')"

definition optional_policy :: "string option \<Rightarrow> team_join_policy option checked" where
  "optional_policy rawPolicy =
     (case rawPolicy of
        None \<Rightarrow> Inr None
      | Some q \<Rightarrow> and_then (normalizeTeamJoinPolicy q) (\<lambda>v. Inr (Some v)))"

definition createTeam ::
  "org_env \<Rightarrow> org_request \<Rightarrow> string \<Rightarrow> string option \<Rightarrow> string field \<Rightarrow> string option \<Rightarrow>
     team_record org_step" where
  "createTeam env p rawName rawSlug rawDescription rawPolicy =
     checks_then
       (\<lambda>db. and_then (assertDatabaseEnabled env) (\<lambda>_.
          and_then (resolveOrgActor p) (\<lambda>actorUserId.
          and_then (normalizeTeamName rawName) (\<lambda>name.
          and_then (normalizeTeamDescription rawDescription) (\<lambda>description.
          and_then (optional_policy rawPolicy) (\<lambda>policy.
          and_then (team_manager env p actorUserId ''teams.manage'' None db) (\<lambda>org.
            Inr (actorUserId, name, description, policy, org))))))))
       (\<lambda>(actorUserId, name, description, policy, org).
          and_audit
            (\<lambda>r. auditOrg env (rq_actor p)
               (audit_entry (o_id org) actorUserId ''team.created'' ''team'' (t_id (tr_team r))
                  [(''name'', Text (t_name (tr_team r))), (''slug'', Text (t_slug (tr_team r))),
                   (''joinPolicy'', Text (join_policy_text (t_joinPolicy (tr_team r))))]))
            id
            (transact env (create_team_tx env (rq_config p) org name rawSlug description policy)))"

text \<open>Without the invited entries, which the invite service supplies on request. The active
  members come newest first.\<close>

definition getTeam ::
  "org_env \<Rightarrow> org_request \<Rightarrow> string \<Rightarrow> org_db \<Rightarrow> (team_record \<times> team_member_record list) checked" where
  "getTeam env p teamId db =
     and_then (assertDatabaseEnabled env) (\<lambda>_.
     and_then (resolveOrgActor p) (\<lambda>actorUserId.
     and_then (resolveAndAuthorizeTeamOrg db (rq_orgId p) actorUserId) (\<lambda>org.
     and_then (require_team db org teamId) (\<lambda>row.
       Inr (full_team_record env row (o_domain org),
            map (\<lambda>m. toTeamMemberRecord env m (o_domain org))
              (js_sort (\<lambda>a b. tm_createdAt b - tm_createdAt a)
                (filter (\<lambda>m. tm_teamId m = t_id row \<and> tm_status m = ACTIVE) (team_members db))))))))"

record team_patch =
  tp_name :: "string option"
  tp_slug :: "string option"
  tp_description :: "string field"
  tp_joinPolicy :: "string option"
  tp_iconUrl :: "string field"

definition update_team_checks ::
  "org_env \<Rightarrow> url_parser \<Rightarrow> org_request \<Rightarrow> string \<Rightarrow> team_patch \<Rightarrow> org_db \<Rightarrow>
     (string option \<times> organisation \<times> team \<times> (team \<Rightarrow> team)) checked" where
  "update_team_checks env parse p teamId d db =
     and_then (assertDatabaseEnabled env) (\<lambda>_.
     and_then (resolveOrgActor p) (\<lambda>actorUserId.
     and_then (check (tp_name d \<noteq> None \<or> tp_slug d \<noteq> None \<or> tp_description d \<noteq> Absent \<or>
                 tp_joinPolicy d \<noteq> None \<or> tp_iconUrl d \<noteq> Absent) BAD_REQUEST 400) (\<lambda>_.
     and_then (case tp_name d of
                 None \<Rightarrow> Inr None | Some n \<Rightarrow> and_then (normalizeTeamName n) (\<lambda>v. Inr (Some v))) (\<lambda>name.
     and_then (normalizeTeamDescription (tp_description d)) (\<lambda>description.
     and_then (optional_policy (tp_joinPolicy d)) (\<lambda>policy.
     and_then (normalizeIconUrl parse (tp_iconUrl d)) (\<lambda>icon.
     and_then (team_manager env p actorUserId ''teams.manage'' (Some teamId) db) (\<lambda>org.
     and_then (require_team db org teamId) (\<lambda>existing.
     and_then (case tp_slug d of
                 None \<Rightarrow> Inr None
               | Some s \<Rightarrow> and_then (lift (ensureAvailableTeamSlug (team_slug_taken db (o_id org)) s
                             (Some (t_slug existing)))) (\<lambda>v. Inr (Some v))) (\<lambda>slug.
       Inr (actorUserId, org, existing, \<lambda>t.
         t\<lparr>t_name := (case name of Some v \<Rightarrow> v | None \<Rightarrow> t_name t),
           t_slug := (case slug of Some v \<Rightarrow> v | None \<Rightarrow> t_slug t),
           t_description := apply_field description (t_description t),
           t_joinPolicy := (case policy of Some v \<Rightarrow> v | None \<Rightarrow> t_joinPolicy t),
           t_iconUrl := apply_field icon (t_iconUrl t),
           t_updatedAt := clock env\<rparr>)))))))))))"

definition updateTeam ::
  "org_env \<Rightarrow> url_parser \<Rightarrow> org_request \<Rightarrow> string \<Rightarrow> team_patch \<Rightarrow> team_record org_step" where
  "updateTeam env parse p teamId d =
     checks_then (update_team_checks env parse p teamId d)
       (\<lambda>(actorUserId, org, existing, f).
          and_audit
            (\<lambda>t. auditOrg env (rq_actor p)
               (audit_entry (o_id org) actorUserId ''team.updated'' ''team'' (t_id t)
                  [(''name'', Text (t_name t)), (''slug'', Text (t_slug t))]))
            (\<lambda>t. full_team_record env t (o_domain org))
            (transact env (\<lambda>db.
               as_bad_request [''P2002''] (and_then (update_team (t_id existing) f db) (\<lambda>db1.
                 case findTeam db1 (\<lambda>t. t_id t = t_id existing) of
                   None \<Rightarrow> Inl (Db_Error ''P2025'') | Some t \<Rightarrow> Inr (t, db1))))))"

subsection \<open>Deleting a team\<close>

text \<open>Active members of the doomed team who have no other team move to the default team. The
  order of the loop only decides which fresh id goes to whom.\<close>

fun rehome :: "org_env \<Rightarrow> string \<Rightarrow> string \<Rightarrow> nat \<Rightarrow> team_member list \<Rightarrow> org_db \<Rightarrow> org_db checked" where
  "rehome env orgId defaultTeamId k [] db = Inr db"
| "rehome env orgId defaultTeamId k (m # ms) db =
     and_then (if active_memberships db orgId (tm_userId m) \<le> 1
               then create_team_member
                      (new_team_member (fresh_id env k) defaultTeamId (tm_userId m) ''member'' (clock env)) db
               else Inr db)
       (rehome env orgId defaultTeamId (k + 1) ms)"

definition cascade_delete_team :: "string \<Rightarrow> org_db \<Rightarrow> org_db" where
  "cascade_delete_team teamId db =
     db\<lparr>teams := filter (\<lambda>t. t_id t \<noteq> teamId) (teams db),
        team_members := filter (\<lambda>m. tm_teamId m \<noteq> teamId) (team_members db)\<rparr>"

definition delete_team_tx :: "org_env \<Rightarrow> organisation \<Rightarrow> string \<Rightarrow> org_db \<Rightarrow> (unit \<times> org_db) checked" where
  "delete_team_tx env org teamId db =
     (if findOrg db (o_id org) = None then refuse NOT_FOUND 404
      else and_then (require_team db org teamId) (\<lambda>team.
     and_then (check (\<not> t_isDefault team) BAD_REQUEST 400) (\<lambda>_.
     (case findTeam db (\<lambda>t. t_orgId t = o_id org \<and> t_isDefault t) of
        None \<Rightarrow> refuse_with INTERNAL 500 ''DEFAULT_TEAM_MISSING''
      | Some defaultTeam \<Rightarrow>
          and_then (rehome env (o_id org) (t_id defaultTeam) 0
              (filter (\<lambda>m. tm_teamId m = t_id team \<and> tm_status m = ACTIVE) (team_members db)) db) (\<lambda>db1.
          if referenced env (t_id team) then Inl (Db_Error ''P2003'')
          else Inr ((), cascade_delete_team (t_id team) db1))))))"

definition deleteTeam :: "org_env \<Rightarrow> org_request \<Rightarrow> string \<Rightarrow> bool org_step" where
  "deleteTeam env p teamId =
     checks_then
       (\<lambda>db. and_then (assertDatabaseEnabled env) (\<lambda>_.
          and_then (resolveOrgActor p) (\<lambda>actorUserId.
          and_then (team_manager env p actorUserId ''teams.manage'' (Some teamId) db) (\<lambda>org.
            Inr (actorUserId, org)))))
       (\<lambda>(actorUserId, org).
          and_audit
            (\<lambda>_. auditOrg env (rq_actor p)
               (audit_entry (o_id org) actorUserId ''team.deleted'' ''team'' teamId []))
            (\<lambda>_. True)
            (transact env (delete_team_tx env org teamId)))"

end
