(* ===== verification/Org_Invariants.thy ===== *)
theory Org_Invariants
  imports Org_Teams
begin

section \<open>What every history of organisation operations keeps\<close>

text \<open>
  The well-formedness of the store, the standing of the owner, and their preservation by every
  handler of the organisation and team services, other requests committing while it waits for its
  lock included. Each write primitive has its lemma; a handler's proof combines them.
\<close>

subsection \<open>The invariant\<close>

definition owner_row :: "organisation \<Rightarrow> org_member \<Rightarrow> bool" where
  "owner_row r m \<longleftrightarrow>
     om_orgId m = o_id r \<and> om_userId m = o_ownerId r \<and> om_role m = ''owner'' \<and> om_status m = ACTIVE"

definition owners_stand :: "org_db \<Rightarrow> bool" where
  "owners_stand db \<longleftrightarrow> (\<forall>r \<in> set (organisations db). \<exists>m \<in> set (org_members db). owner_row r m)"

definition default_team_of :: "string \<Rightarrow> team \<Rightarrow> bool" where
  "default_team_of orgId t \<longleftrightarrow> t_orgId t = orgId \<and> t_isDefault t"

definition default_teams :: "org_db \<Rightarrow> bool" where
  "default_teams db \<longleftrightarrow>
     (\<forall>r \<in> set (organisations db). count_where (default_team_of (o_id r)) (teams db) = 1)"

definition ids_distinct :: "org_db \<Rightarrow> bool" where
  "ids_distinct db \<longleftrightarrow>
     distinct (map o_id (organisations db)) \<and> distinct (map om_id (org_members db)) \<and>
     distinct (map t_id (teams db)) \<and> distinct (map tm_id (team_members db))"

definition references_ok :: "org_db \<Rightarrow> bool" where
  "references_ok db \<longleftrightarrow>
     (\<forall>m \<in> set (org_members db). om_orgId m \<in> o_id ` set (organisations db)) \<and>
     (\<forall>t \<in> set (teams db). t_orgId t \<in> o_id ` set (organisations db)) \<and>
     (\<forall>m \<in> set (team_members db). tm_teamId m \<in> t_id ` set (teams db))"

definition org_inv :: "org_db \<Rightarrow> bool" where
  "org_inv db \<longleftrightarrow>
     ids_distinct db \<and> references_ok db \<and> member_indexes_ok db \<and> team_member_index_ok db \<and>
     owners_stand db \<and> default_teams db"

definition all_ids :: "org_db \<Rightarrow> string set" where
  "all_ids db = o_id ` set (organisations db) \<union> om_id ` set (org_members db) \<union>
     t_id ` set (teams db) \<union> tm_id ` set (team_members db)"

text \<open>The identifiers the database will generate are new to the store the handler writes to.\<close>

definition new_ids :: "org_env \<Rightarrow> org_db \<Rightarrow> bool" where
  "new_ids env db \<longleftrightarrow> inj (fresh_id env) \<and> (\<forall>k. fresh_id env k \<notin> all_ids db)"

text \<open>A member row keeps its organisation and user for as long as it exists.\<close>

definition rows_stable :: "org_db \<Rightarrow> org_db \<Rightarrow> bool" where
  "rows_stable db db' \<longleftrightarrow>
     (\<forall>m \<in> set (org_members db). \<forall>n \<in> set (org_members db'). om_id n = om_id m \<longrightarrow>
        om_orgId n = om_orgId m \<and> om_userId n = om_userId m)"

text \<open>What two kinds of request rely on, because they do not read it again under their lock: the
  organisation has the owner it had, the incoming owner is still active.\<close>

definition same_owner :: "string \<Rightarrow> org_db \<Rightarrow> org_db \<Rightarrow> bool" where
  "same_owner orgId db db' \<longleftrightarrow>
     (\<forall>r \<in> set (organisations db'). o_id r = orgId \<longrightarrow>
        (\<exists>q \<in> set (organisations db). o_id q = orgId \<and> o_ownerId q = o_ownerId r))"

definition not_deactivated :: "string \<Rightarrow> string \<Rightarrow> org_db \<Rightarrow> bool" where
  "not_deactivated orgId u db \<longleftrightarrow>
     (\<forall>m \<in> set (org_members db). om_orgId m = orgId \<longrightarrow> om_userId m = u \<longrightarrow> om_status m = ACTIVE)"

lemma fresh_not:
  assumes "new_ids env db"
  shows "fresh_id env k \<notin> o_id ` set (organisations db)" "fresh_id env k \<notin> om_id ` set (org_members db)"
    "fresh_id env k \<notin> t_id ` set (teams db)" "fresh_id env k \<notin> tm_id ` set (team_members db)"
  using assms by (auto simp: new_ids_def all_ids_def)

subsection \<open>Lookups under the invariant\<close>

lemma findMember_Some: "findMember db P = Some m \<Longrightarrow> m \<in> set (org_members db) \<and> P m"
  unfolding findMember_def by (rule find_Some_set)

lemma findTeam_Some: "findTeam db P = Some t \<Longrightarrow> t \<in> set (teams db) \<and> P t"
  unfolding findTeam_def by (rule find_Some_set)

lemma findTeamMember_Some: "findTeamMember db P = Some m \<Longrightarrow> m \<in> set (team_members db) \<and> P m"
  unfolding findTeamMember_def by (rule find_Some_set)

lemma findOrg_Some: "findOrg db i = Some r \<Longrightarrow> r \<in> set (organisations db) \<and> o_id r = i"
  unfolding findOrg_def using find_Some_set by fastforce

lemma findMember_None: "findMember db P = None \<longleftrightarrow> (\<forall>m \<in> set (org_members db). \<not> P m)"
  by (auto simp: findMember_def find_None_iff)

lemma findOrg_unique:
  "distinct (map o_id (organisations db)) \<Longrightarrow> r \<in> set (organisations db) \<Longrightarrow> findOrg db (o_id r) = Some r"
  unfolding findOrg_def by (rule find_unique)

lemma findOrg_None: "findOrg db i = None \<longleftrightarrow> i \<notin> o_id ` set (organisations db)"
  by (auto simp: findOrg_def find_None_iff)

lemma constrained_Inr [simp]: "constrained ok db = Inr db' \<longleftrightarrow> ok db \<and> db' = db"
  by (auto simp: constrained_def)

lemma as_bad_request_Inr [simp]: "as_bad_request codes r = Inr x \<longleftrightarrow> r = Inr x"
  by (auto simp: as_bad_request_def split: sum.splits thrown.splits)

lemma member_key_unique:
  assumes "member_indexes_ok db" and "m \<in> set (org_members db)" and "m' \<in> set (org_members db)"
    and "om_orgId m = om_orgId m'" and "om_userId m = om_userId m'"
  shows "m = m'"
proof -
  have "distinct (map (\<lambda>m. (om_orgId m, om_userId m)) (org_members db))"
    using assms(1) by (simp add: member_indexes_ok_def)
  from distinct_key_eq[OF this assms(2,3)] assms(4,5) show ?thesis by simp
qed

subsection \<open>Writes that leave organisations and members alone\<close>

text \<open>The invariant reads only these columns; a store that agrees on them keeps it.\<close>

lemma org_inv_cong:
  assumes "organisations db' = organisations db" and "org_members db' = org_members db"
    and "teams db' = teams db" and "team_members db' = team_members db"
  shows "org_inv db' = org_inv db"
proof -
  have "org_domain db' = org_domain db"
    by (intro ext) (simp add: org_domain_def findOrg_def assms)
  then show ?thesis
    using assms
    by (simp add: org_inv_def ids_distinct_def references_ok_def member_indexes_ok_def
        team_member_index_ok_def owners_stand_def default_teams_def)
qed

lemma auditOrg_inv [simp]: "org_inv (auditOrg env a row db) = org_inv db"
  by (rule org_inv_cong) (simp_all add: auditOrg_def writeOrgAuditLog_def)

lemma sessions_inv [simp]: "org_inv (db\<lparr>sessions := s\<rparr>) = org_inv db"
  by (rule org_inv_cong) simp_all

lemma revoke_member_sessions_inv [simp]:
  "org_inv (revoke_member_sessions u org now db) = org_inv db"
  by (simp add: revoke_member_sessions_def)

lemma group_members_inv [simp]: "org_inv (db\<lparr>group_members := g\<rparr>) = org_inv db"
  by (rule org_inv_cong) simp_all

lemma org_domain_cong: "organisations db' = organisations db \<Longrightarrow> org_domain db' i = org_domain db i"
  by (simp add: org_domain_def findOrg_def)

lemma team_member_write_inv:
  assumes "org_inv db" and "organisations db' = organisations db" and "org_members db' = org_members db"
    and "teams db' = teams db" and "distinct (map tm_id (team_members db'))"
    and "team_member_index_ok db'"
    and "\<forall>m \<in> set (team_members db'). tm_teamId m \<in> t_id ` set (teams db)"
  shows "org_inv db'"
  using assms org_domain_cong[OF assms(2)]
  by (simp add: org_inv_def ids_distinct_def references_ok_def member_indexes_ok_def
      owners_stand_def default_teams_def)

definition keeps_team_key :: "(team_member \<Rightarrow> team_member) \<Rightarrow> bool" where
  "keeps_team_key f \<longleftrightarrow>
     (\<forall>m. tm_id (f m) = tm_id m \<and> tm_teamId (f m) = tm_teamId m \<and> tm_userId (f m) = tm_userId m)"

lemma keeps_team_key_writes [simp]:
  "keeps_team_key (set_team_status s now)" "keeps_team_key (set_team_role r now)"
  "keeps_team_key f \<Longrightarrow> keeps_team_key (\<lambda>m. set_team_status s now (f m))"
  "keeps_team_key (\<lambda>m. m)"
  by (simp_all add: keeps_team_key_def row_data)

lemma update_team_members_inv:
  assumes "org_inv db" and "keeps_team_key f"
  shows "org_inv (update_team_members P f db)"
proof (rule team_member_write_inv[OF assms(1)])
  show "distinct (map tm_id (team_members (update_team_members P f db)))"
    using assms map_update_where[of P tm_id f]
    by (simp add: update_team_members_def keeps_team_key_def org_inv_def ids_distinct_def)
  show "team_member_index_ok (update_team_members P f db)"
    using assms map_update_where[of P "\<lambda>m. (tm_teamId m, tm_userId m)" f]
    by (simp add: update_team_members_def keeps_team_key_def org_inv_def team_member_index_ok_def)
  show "\<forall>m \<in> set (team_members (update_team_members P f db)). tm_teamId m \<in> t_id ` set (teams db)"
    using assms by (auto simp: update_team_members_def keeps_team_key_def org_inv_def
        references_ok_def set_update_where)
qed (simp_all add: update_team_members_def)

lemma update_team_member_inv:
  "update_team_member i f db = Inr db' \<Longrightarrow> org_inv db \<Longrightarrow> keeps_team_key f \<Longrightarrow> org_inv db'"
  by (auto simp: update_team_member_def intro: update_team_members_inv split: if_splits)

lemma create_team_member_inv:
  assumes "create_team_member m db = Inr db'" and "org_inv db"
    and "tm_id m \<notin> tm_id ` set (team_members db)"
  shows "org_inv db'"
proof (rule team_member_write_inv[OF assms(2)])
  have db': "db' = db\<lparr>team_members := team_members db @ [m]\<rparr>" "team_member_index_ok db'"
    and "findTeam db (\<lambda>t. t_id t = tm_teamId m) \<noteq> None"
    using assms(1) by (auto simp: create_team_member_def split: if_splits)
  then obtain t where "findTeam db (\<lambda>t. t_id t = tm_teamId m) = Some t" by blast
  from findTeam_Some[OF this] have "tm_teamId m \<in> t_id ` set (teams db)"
    by (metis imageI)
  then show "\<forall>n \<in> set (team_members db'). tm_teamId n \<in> t_id ` set (teams db)"
    using assms(2) db' by (auto simp: org_inv_def references_ok_def)
  show "distinct (map tm_id (team_members db'))"
    using assms(2,3) db' by (auto simp: org_inv_def ids_distinct_def)
  show "team_member_index_ok db'" by (rule db')
qed (use assms(1) in \<open>auto simp: create_team_member_def split: if_splits\<close>)

subsection \<open>Writes to organisation members\<close>

definition keeps_member_key :: "(org_member \<Rightarrow> org_member) \<Rightarrow> bool" where
  "keeps_member_key f \<longleftrightarrow>
     (\<forall>m. om_id (f m) = om_id m \<and> om_orgId (f m) = om_orgId m \<and> om_userId (f m) = om_userId m)"

lemma keeps_member_key_writes [simp]:
  "keeps_member_key (set_status s now)" "keeps_member_key (set_role r now)"
  "keeps_member_key f \<Longrightarrow> keeps_member_key (\<lambda>m. set_status s now (f m))"
  by (simp_all add: keeps_member_key_def row_data)

text \<open>A member update is safe when it leaves every owner's row an active owner's row.\<close>

lemma update_org_member_inv:
  assumes upd: "update_org_member i f db = Inr db'" and inv: "org_inv db" and f: "keeps_member_key f"
    and safe: "\<And>r m. r \<in> set (organisations db) \<Longrightarrow> m \<in> set (org_members db) \<Longrightarrow> om_id m = i \<Longrightarrow>
      owner_row r m \<Longrightarrow> om_role (f m) = ''owner'' \<and> om_status (f m) = ACTIVE"
  shows "org_inv db'"
proof -
  have db': "db' = db\<lparr>org_members := update_where (\<lambda>m. om_id m = i) f (org_members db)\<rparr>"
    and idx: "member_indexes_ok db'"
    using upd by (auto simp: update_org_member_def split: if_splits)
  have "owners_stand db'"
    unfolding owners_stand_def
  proof
    fix r assume r: "r \<in> set (organisations db')"
    then obtain m where m: "m \<in> set (org_members db)" "owner_row r m"
      using inv db' by (auto simp: org_inv_def owners_stand_def)
    define m' where "m' = (if om_id m = i then f m else m)"
    have "m' \<in> set (org_members db')" using m by (auto simp: db' m'_def set_update_where)
    moreover have "owner_row r m'"
      using m safe[of r m] r f by (auto simp: m'_def db' owner_row_def keeps_member_key_def)
    ultimately show "\<exists>m \<in> set (org_members db'). owner_row r m" by blast
  qed
  moreover have "ids_distinct db'"
    using inv f map_update_where[of "\<lambda>m. om_id m = i" om_id f]
    by (simp add: db' org_inv_def ids_distinct_def keeps_member_key_def)
  moreover have "references_ok db'"
    using inv f by (auto simp: db' org_inv_def references_ok_def set_update_where keeps_member_key_def)
  ultimately show ?thesis
    using inv idx by (simp add: org_inv_def db' team_member_index_ok_def default_teams_def)
qed

lemma create_org_member_inv:
  assumes "create_org_member m db = Inr db'" and "org_inv db"
    and "om_id m \<notin> om_id ` set (org_members db)"
  shows "org_inv db'"
proof -
  have db': "db' = db\<lparr>org_members := org_members db @ [m]\<rparr>" and idx: "member_indexes_ok db'"
    and ref: "om_orgId m \<in> o_id ` set (organisations db)"
    using assms(1) by (auto simp: create_org_member_def findOrg_None split: if_splits)
  have "ids_distinct db'" using assms(2,3) by (simp add: db' org_inv_def ids_distinct_def)
  moreover have "references_ok db'" using assms(2) ref by (simp add: db' org_inv_def references_ok_def)
  moreover have "owners_stand db'" using assms(2) by (fastforce simp: db' org_inv_def owners_stand_def)
  ultimately show ?thesis
    using idx assms(2) by (simp add: db' org_inv_def team_member_index_ok_def default_teams_def)
qed

subsection \<open>Running a handler\<close>

lemma checks_then_keeps:
  assumes "Q db" and "\<And>x. checks db = Inr x \<Longrightarrow> Q (snd (k x db))"
  shows "Q (snd (checks_then checks k db))"
  using assms by (simp add: checks_then_def split: sum.splits)

lemma transact_keeps:
  assumes "Q db" and "\<And>y db'. body (awaitLock env db) = Inr (y, db') \<Longrightarrow> Q db'"
    and "Q (awaitLock env db)"
  shows "Q (snd (transact env body db))"
  using assms by (auto simp: transact_def Let_def split: sum.splits prod.splits)

lemma audit_keeps:
  assumes "Q (snd (step db))" and "\<And>x d. Q (w x d) = Q d"
  shows "Q (snd (and_audit w r step db))"
  using assms by (auto simp: and_audit_def split: sum.splits prod.splits)

text \<open>The checks read the store of the request's arrival; the body runs on what the others have
  left when the lock is granted.\<close>

lemma handler_keeps:
  assumes "org_inv db" and "org_inv (awaitLock env db)"
    and "\<And>x y db'. checks db = Inr x \<Longrightarrow> body x (awaitLock env db) = Inr (y, db') \<Longrightarrow> org_inv db'"
    and "\<And>x y d. org_inv (w x y d) = org_inv d"
  shows "org_inv (snd (checks_then checks (\<lambda>x. and_audit (w x) (r x) (transact env (body x))) db))"
proof (rule checks_then_keeps[where Q = org_inv, OF assms(1)])
  fix x assume x: "checks db = Inr x"
  have "org_inv (snd (transact env (body x) db))"
    by (rule transact_keeps[where Q = org_inv, OF assms(1)]) (use assms(2,3) x in auto)
  then show "org_inv (snd (and_audit (w x) (r x) (transact env (body x)) db))"
    by (rule audit_keeps[where Q = org_inv]) (rule assms(4))
qed

subsection \<open>Memberships\<close>

lemma inv_ids:
  assumes "org_inv db"
  shows "distinct (map o_id (organisations db))" "distinct (map om_id (org_members db))"
    "distinct (map t_id (teams db))" "distinct (map tm_id (team_members db))" "member_indexes_ok db"
    "team_member_index_ok db"
  using assms by (auto simp: org_inv_def ids_distinct_def)

lemma member_by_id:
  assumes "org_inv db" and "m \<in> set (org_members db)" and "m' \<in> set (org_members db)"
    and "om_id m' = om_id m"
  shows "m' = m"
  using distinct_key_eq[OF inv_ids(2)[OF assms(1)]] assms(2,3,4) by blast

lemma org_by_id:
  assumes "org_inv db" and "r \<in> set (organisations db)" and "r' \<in> set (organisations db)"
    and "o_id r' = o_id r"
  shows "r' = r"
  using distinct_key_eq[OF inv_ids(1)[OF assms(1)] assms(3,2,4)] .

lemma update_member_row_inv:
  assumes "update_org_member (om_id m) f db = Inr db'" and "org_inv db" and "m \<in> set (org_members db)"
    and "keeps_member_key f"
    and "\<And>r. r \<in> set (organisations db) \<Longrightarrow> owner_row r m \<Longrightarrow>
           om_role (f m) = ''owner'' \<and> om_status (f m) = ACTIVE"
  shows "org_inv db'"
  using assms(1,2,4)
proof (rule update_org_member_inv)
  fix r m' assume "r \<in> set (organisations db)" "m' \<in> set (org_members db)" "om_id m' = om_id m" "owner_row r m'"
  with member_by_id[OF assms(2,3)] assms(5)
  show "om_role (f m') = ''owner'' \<and> om_status (f m') = ACTIVE" by blast
qed

lemma team_members_of_write:
  "update_org_member i f db = Inr db' \<Longrightarrow> team_members db' = team_members db"
  "create_org_member m db = Inr db' \<Longrightarrow> team_members db' = team_members db"
  "update_organisation i g db = Inr db' \<Longrightarrow> team_members db' = team_members db"
  by (auto simp: update_org_member_def create_org_member_def update_organisation_def split: if_splits)

lemma reactivate_default_inv:
  assumes "reactivate_default_team_membership env t u db = Inr db'" and "org_inv db"
    and "fresh_id env 1 \<notin> tm_id ` set (team_members db)"
  shows "org_inv db'"
  using assms
  by (auto simp: reactivate_default_team_membership_def new_team_member_def split: option.splits
      intro: update_team_member_inv create_team_member_inv)

lemma add_member_tx_inv:
  assumes tx: "add_member_tx env c org u role db = Inr (y, db')" and inv: "org_inv db"
    and env: "new_ids env db"
  shows "org_inv db'"
proof (cases "findMember db (\<lambda>m. om_orgId m = o_id org \<and> om_userId m = u)")
  case (Some m)
  from findMember_Some[OF Some] have m: "m \<in> set (org_members db)" by blast
  from tx Some obtain db1 t where inactive: "om_status m \<noteq> ACTIVE"
    and upd: "update_org_member (om_id m)
        (\<lambda>r. set_status ACTIVE (clock env) (set_role role (clock env) r)) db = Inr db1"
    and re: "reactivate_default_team_membership env t u db1 = Inr db'"
    by (auto simp: add_member_tx_def Let_def step_simps)
  have "org_inv db1"
    by (rule update_member_row_inv[OF upd inv m]) (use inactive in \<open>simp_all add: owner_row_def\<close>)
  then show ?thesis
    using re fresh_not(4)[OF env] team_members_of_write(1)[OF upd] reactivate_default_inv by simp
next
  case None
  from tx None obtain db1 t where
    crt: "create_org_member (new_member (fresh_id env 0) (o_id org) u role (clock env)) db = Inr db1"
    and crt2: "create_team_member (new_team_member (fresh_id env 1) t u ''member'' (clock env)) db1 = Inr db'"
    by (auto simp: add_member_tx_def Let_def step_simps)
  have "org_inv db1"
    by (rule create_org_member_inv[OF crt inv]) (simp add: new_member_def fresh_not(2)[OF env])
  with crt2 show ?thesis
    by (rule create_team_member_inv)
      (simp add: new_team_member_def team_members_of_write(2)[OF crt] fresh_not(4)[OF env])
qed

lemma add_member_keeps:
  assumes "org_inv db" "org_inv (awaitLock env db)" and "new_ids env (awaitLock env db)"
  shows "org_inv (snd (addOrganisationMember env p u r db))"
  unfolding addOrganisationMember_def Let_def case_prod_beta'
  by (rule handler_keeps[OF assms(1,2)]) (use assms(2,3) add_member_tx_inv in auto)

lemma resolved_org_id:
  "resolveOrganisation db i = Inr org \<Longrightarrow> org \<in> set (organisations db) \<and> o_id org = js_trim i"
  by (auto simp: resolveOrganisation_def Let_def dest: findOrg_Some split: if_splits option.splits)

lemma resolved_org: "resolveOrganisation db i = Inr org \<Longrightarrow> org \<in> set (organisations db)"
  by (simp add: resolved_org_id)

lemma change_role_keeps:
  assumes inv: "org_inv db" "org_inv (awaitLock env db)"
    and rely: "rows_stable db (awaitLock env db)" "same_owner (js_trim (rq_orgId p)) db (awaitLock env db)"
  shows "org_inv (snd (changeOrganisationMemberRole env p u r db))"
  unfolding changeOrganisationMemberRole_def Let_def case_prod_beta'
proof (rule handler_keeps[OF inv], goal_cases)
  let ?w = "awaitLock env db"
  case (1 x y db')
  define member where "member = snd (snd x)"
  obtain a org where x: "x = (a, org, member)" by (cases x) (auto simp: member_def)
  from 1(1) have org: "org \<in> set (organisations db)" "o_id org = js_trim (rq_orgId p)"
    and m: "member \<in> set (org_members db)" "om_orgId member = o_id org"
    and safe: "om_userId member = o_ownerId org \<longrightarrow> js_trim r = ''owner''"
    by (auto simp: x change_role_checks_def step_simps dest!: findMember_Some resolved_org_id)
  from 1(2) have upd: "update_org_member (om_id member) (set_role (js_trim r) (clock env)) ?w = Inr db'"
    by (auto simp: x step_simps)
  show ?case
  proof (rule update_org_member_inv[OF upd inv(2)])
    fix r' m' assume r': "r' \<in> set (organisations ?w)" "owner_row r' m'"
      and m': "m' \<in> set (org_members ?w)" "om_id m' = om_id member"
    have key: "om_orgId m' = o_id org" "om_userId m' = om_userId member"
      using rely(1) m m' by (auto simp: rows_stable_def)
    then obtain q where q: "q \<in> set (organisations db)" "o_id q = o_id org" "o_ownerId q = o_ownerId r'"
      using rely(2) r' org(2) by (auto simp: same_owner_def owner_row_def)
    with org_by_id[OF inv(1) org(1) q(1,2)] key(2) r'(2) safe
    show "om_role (set_role (js_trim r) (clock env) m') = ''owner'' \<and>
        om_status (set_role (js_trim r) (clock env) m') = ACTIVE"
      by (simp add: owner_row_def set_role_def)
  qed simp
qed (simp add: case_prod_beta')

subsection \<open>Writes to organisations\<close>

definition keeps_org_key :: "(organisation \<Rightarrow> organisation) \<Rightarrow> bool" where
  "keeps_org_key f \<longleftrightarrow> (\<forall>r. o_id (f r) = o_id r \<and> o_domain (f r) = o_domain r)"

lemma find_update_where:
  "(\<And>r. key (f r) = key r) \<Longrightarrow>
     List.find (\<lambda>r. key r = k) (update_where P f rs) =
       map_option (\<lambda>r. if P r then f r else r) (List.find (\<lambda>r. key r = k) rs)"
  by (induction rs) auto

lemma org_domain_update:
  "keeps_org_key f \<Longrightarrow>
     org_domain (db\<lparr>organisations := update_where P f (organisations db)\<rparr>) i = org_domain db i"
  by (auto simp: org_domain_def findOrg_def keeps_org_key_def find_update_where option.map_comp
      intro!: option.map_cong)

lemma update_organisation_inv:
  assumes upd: "update_organisation i f db = Inr db'" and inv: "org_inv db" and f: "keeps_org_key f"
    and owner: "\<And>r. r \<in> set (organisations db) \<Longrightarrow> o_id r = i \<Longrightarrow>
      \<exists>m \<in> set (org_members db). owner_row (f r) m"
  shows "org_inv db'"
proof -
  have db': "db' = db\<lparr>organisations := update_where (\<lambda>r. o_id r = i) f (organisations db)\<rparr>"
    using upd by (auto simp: update_organisation_def split: if_splits)
  have dom: "org_domain db' j = org_domain db j" for j by (simp add: db' org_domain_update[OF f])
  have ids: "map o_id (organisations db') = map o_id (organisations db)"
    using f map_update_where[of "\<lambda>r. o_id r = i" o_id f] by (simp add: db' keeps_org_key_def)
  then have idset: "o_id ` set (organisations db') = o_id ` set (organisations db)"
    by (metis image_set)
  have "owners_stand db'"
    using inv owner by (auto simp: owners_stand_def db' set_update_where org_inv_def)
  moreover have "default_teams db'"
    using inv f by (auto simp: default_teams_def db' set_update_where org_inv_def keeps_org_key_def)
  moreover have "references_ok db'" using inv idset by (simp add: references_ok_def org_inv_def db')
  moreover have "ids_distinct db'" using inv ids by (simp add: ids_distinct_def org_inv_def db')
  moreover have "member_indexes_ok db'"
    using inv dom by (simp add: member_indexes_ok_def org_inv_def db')
  ultimately show ?thesis using inv by (simp add: org_inv_def team_member_index_ok_def db')
qed

lemma set_owner_key [simp]: "keeps_org_key (set_owner u now)"
  by (simp add: keeps_org_key_def set_owner_def)

lemma set_owner_inv:
  assumes "update_organisation i (set_owner u now) db = Inr db'" and "org_inv db"
    and "m \<in> set (org_members db)" and "om_orgId m = i" and "om_userId m = u"
    and "om_role m = ''owner''" and "om_status m = ACTIVE"
  shows "org_inv db'"
  by (rule update_organisation_inv[OF assms(1,2)])
    (use assms(3-) in \<open>auto simp: owner_row_def set_owner_def\<close>)

subsection \<open>Removing, deactivating, reactivating, transferring\<close>

lemma the_owner:
  assumes "org_inv db" and "org \<in> set (organisations db)" and "m \<in> set (org_members db)"
    and "om_orgId m = o_id org" and "om_userId m = o_ownerId org"
  shows "om_role m = ''owner''" "om_status m = ACTIVE"
proof -
  obtain n where "n \<in> set (org_members db)" "owner_row org n"
    using assms(1,2) by (auto simp: org_inv_def owners_stand_def)
  with member_key_unique[OF inv_ids(5)[OF assms(1)], of n m] assms(3-)
  have "owner_row org m" by (auto simp: owner_row_def)
  then show "om_role m = ''owner''" "om_status m = ACTIVE" by (simp_all add: owner_row_def)
qed

lemma count_where_ge_2:
  assumes "1 < count_where P xs" and "distinct xs"
  shows "\<exists>y \<in> set xs. P y \<and> y \<noteq> x"
proof (rule ccontr)
  assume "\<not> ?thesis"
  then have "set (filter P xs) \<subseteq> {x}" by auto
  then have "card (set (filter P xs)) \<le> 1" using card_mono[of "{x}"] by fastforce
  moreover have "card (set (filter P xs)) = length (filter P xs)"
    using assms(2) by (intro distinct_card) simp
  ultimately show False using assms(1) by (simp only: count_where_def)
qed

lemma another_owner:
  assumes inv: "org_inv db" and m: "m \<in> set (org_members db)" "om_orgId m = o_id org"
    and count: "1 < active_owner_count db (o_id org)"
  shows "other_owners org (om_userId m) db \<noteq> []"
proof -
  have "distinct (org_members db)" using inv_ids(2)[OF inv] by (simp add: distinct_map)
  from count_where_ge_2[OF count[unfolded active_owner_count_def] this, of m]
  obtain n where n: "n \<in> set (org_members db)" "om_orgId n = o_id org" "om_role n = ''owner''"
    "om_status n = ACTIVE" "n \<noteq> m" by auto
  with member_key_unique[OF inv_ids(5)[OF inv] n(1) m(1)] m(2) have "om_userId n \<noteq> om_userId m"
    by auto
  with n show ?thesis by (auto simp: filter_empty_conv other_owners_def)
qed

lemma other_owners_hd:
  "other_owners org u db \<noteq> [] \<Longrightarrow>
     (let w = hd (other_owners org u db)
      in w \<in> set (org_members db) \<and> om_orgId w = o_id org \<and> om_role w = ''owner'' \<and>
         om_status w = ACTIVE \<and> om_userId w \<noteq> u)"
  using hd_in_set[of "other_owners org u db"] by (auto simp: other_owners_def Let_def)

lemma not_owner_after:
  assumes "r \<in> set (update_where (\<lambda>r. o_id r = om_orgId lm) (set_owner wu now) rs)"
    and "wu \<noteq> om_userId lm"
  shows "\<not> owner_row r lm"
  using assms by (auto simp: set_update_where owner_row_def set_owner_def)

text \<open>After ownership has passed, the member being removed owns no organisation.\<close>

lemma pass_ownership_inv:
  assumes pass: "pass_ownership org lm now db = Inr db1" and inv: "org_inv db"
    and org: "cur \<in> set (organisations db)" "o_id cur = o_id org" "o_ownerId cur = o_ownerId org"
    and lm: "lm \<in> set (org_members db)" "om_orgId lm = o_id org"
    and count: "om_role lm = ''owner'' \<longrightarrow> 1 < active_owner_count db (o_id org)"
  shows "org_inv db1" and "org_members db1 = org_members db"
    and "r \<in> set (organisations db1) \<Longrightarrow> \<not> owner_row r lm"
proof -
  let ?w = "hd (other_owners org (om_userId lm) db)"
  have moves: "other_owners org (om_userId lm) db \<noteq> []" if "om_userId lm = o_ownerId org"
    using the_owner(1)[OF inv org(1) lm(1)] another_owner[OF inv lm] count that lm(2) org(2,3) by simp
  have *: "org_inv db1 \<and> org_members db1 = org_members db \<and>
      (\<forall>r \<in> set (organisations db1). \<not> owner_row r lm)"
  proof (cases "om_userId lm = o_ownerId org")
    case True
    have upd: "update_organisation (o_id org) (set_owner (om_userId ?w) now) db = Inr db1"
      using pass moves[OF True] True by (simp add: pass_ownership_def Let_def split: if_splits)
    have w: "?w \<in> set (org_members db)" "om_orgId ?w = o_id org" "om_role ?w = ''owner''"
      "om_status ?w = ACTIVE" "om_userId ?w \<noteq> om_userId lm"
      using other_owners_hd[OF moves[OF True]] by (simp_all add: Let_def)
    have i: "org_inv db1" using set_owner_inv[OF upd inv w(1,2) refl w(3,4)] .
    have orgs: "organisations db1 = update_where (\<lambda>r. o_id r = o_id org)
        (set_owner (om_userId ?w) now) (organisations db)" and m: "org_members db1 = org_members db"
      using upd by (auto simp: update_organisation_def split: if_splits)
    have "\<not> owner_row r lm" if "r \<in> set (organisations db1)" for r
      using that not_owner_after[OF _ w(5)] lm(2) unfolding orgs by metis
    with i m show ?thesis by blast
  next
    case False
    then have "db1 = db" using pass by (simp add: pass_ownership_def)
    moreover have "\<not> owner_row r lm" if "r \<in> set (organisations db)" for r
      using that False lm(2) org_by_id[OF inv org(1) that] org(2,3) by (auto simp: owner_row_def)
    ultimately show ?thesis using inv by simp
  qed
  show "org_inv db1" "org_members db1 = org_members db"
    "r \<in> set (organisations db1) \<Longrightarrow> \<not> owner_row r lm"
    using * by auto
qed

lemma move_team_memberships_inv [simp]:
  "org_inv db \<Longrightarrow> org_inv (move_team_memberships org u from to now db)"
  by (simp add: move_team_memberships_def update_team_members_inv)

lemma delete_group_memberships_inv [simp]:
  "org_inv (delete_group_memberships org u db) = org_inv db"
  by (simp add: delete_group_memberships_def)

lemma tombstone_frames [simp]:
  "org_members (move_team_memberships org u from to now db) = org_members db"
  "organisations (move_team_memberships org u from to now db) = organisations db"
  "org_members (delete_group_memberships org u db) = org_members db"
  "organisations (delete_group_memberships org u db) = organisations db"
  by (simp_all add: move_team_memberships_def update_team_members_def delete_group_memberships_def)

lemma remove_member_tx_inv:
  assumes tx: "remove_member_tx env org u db = Inr (y, db')" and inv: "org_inv db"
    and org: "cur \<in> set (organisations db)" "o_id cur = o_id org" "o_ownerId cur = o_ownerId org"
  shows "org_inv db'"
proof -
  from tx obtain lm db1 db4 where
    find: "findMember db (\<lambda>m. om_orgId m = o_id org \<and> om_userId m = u) = Some lm"
    and count: "om_role lm = ''owner'' \<longrightarrow> \<not> active_owner_count db (o_id org) \<le> Suc 0"
    and db1: "pass_ownership org lm (clock env) db = Inr db1"
    and db4: "update_org_member (om_id lm) (set_status REMOVED (clock env))
       (delete_group_memberships org u
         (move_team_memberships org u (\<lambda>s. s \<noteq> REMOVED) REMOVED (clock env) db1)) = Inr db4"
    and db': "db' = revoke_member_sessions u org (clock env) db4"
    unfolding remove_member_tx_def Let_def step_simps check_Inr by auto
  from findMember_Some[OF find] have lm: "lm \<in> set (org_members db)" "om_orgId lm = o_id org" by auto
  note pass = pass_ownership_inv[OF db1 inv org lm]
  have "org_inv db4"
    by (rule update_member_row_inv[OF db4]) (use pass count lm in \<open>auto\<close>)
  then show ?thesis by (simp add: db')
qed

lemma remove_member_keeps:
  assumes inv: "org_inv db" "org_inv (awaitLock env db)"
    and rely: "same_owner (js_trim (rq_orgId p)) db (awaitLock env db)"
  shows "org_inv (snd (removeOrganisationMember env p u db))"
  unfolding removeOrganisationMember_def Let_def case_prod_beta'
proof (rule handler_keeps[OF inv], goal_cases)
  let ?w = "awaitLock env db"
  case (1 x y db')
  let ?org = "fst (snd x)"
  from 1(1) have org: "?org \<in> set (organisations db)" "o_id ?org = js_trim (rq_orgId p)"
    by (auto simp: remove_member_checks_def Let_def step_simps dest!: resolved_org_id)
  from 1(2) obtain m where "m \<in> set (org_members ?w)" "om_orgId m = o_id ?org"
    by (auto simp: remove_member_tx_def Let_def dest!: findMember_Some split: option.splits)
  then obtain cur where cur: "cur \<in> set (organisations ?w)" "o_id cur = o_id ?org"
    using inv(2) by (fastforce simp: org_inv_def references_ok_def)
  then obtain q where q: "q \<in> set (organisations db)" "o_id q = o_id ?org" "o_ownerId q = o_ownerId cur"
    using rely org(2) by (auto simp: same_owner_def)
  have "o_ownerId cur = o_ownerId ?org"
    using org_by_id[OF inv(1) org(1) q(1,2)] q(3) by simp
  then show ?case using 1(2) by (cases y) (rule remove_member_tx_inv[OF _ inv(2) cur])
qed simp

lemma deactivate_keeps:
  assumes inv: "org_inv db" "org_inv (awaitLock env db)" and env: "new_ids env (awaitLock env db)"
  shows "org_inv (snd (deactivateOrganisationMember env p u db))"
  unfolding deactivateOrganisationMember_def Let_def case_prod_beta'
proof (rule handler_keeps[OF inv], goal_cases)
  let ?w = "awaitLock env db"
  case (1 x y db')
  from 1(2) obtain lm db1 where
    find: "findMember ?w (active_member (o_id (fst (snd x))) (js_trim u)) = Some lm"
    and role: "om_role lm \<noteq> ''owner''"
    and upd: "update_org_member (om_id lm) (set_status DEACTIVATED (clock env)) ?w = Inr db1"
    and db': "db' = revoke_member_sessions (js_trim u) (fst (snd x)) (clock env)
      (move_team_memberships (fst (snd x)) (js_trim u) (\<lambda>s. s = ACTIVE) DEACTIVATED (clock env) db1)"
    unfolding deactivate_tx_def Let_def step_simps check_Inr by auto
  have "org_inv db1"
    by (rule update_member_row_inv[OF upd inv(2)])
      (use findMember_Some[OF find] role in \<open>auto simp: owner_row_def\<close>)
  then show ?case by (simp add: db')
qed simp

lemma reactivate_keeps:
  assumes inv: "org_inv db" "org_inv (awaitLock env db)" and env: "new_ids env (awaitLock env db)"
  shows "org_inv (snd (reactivateOrganisationMember env p u db))"
  unfolding reactivateOrganisationMember_def Let_def case_prod_beta'
proof (rule handler_keeps[OF inv], goal_cases)
  let ?w = "awaitLock env db"
  case (1 x y db')
  from 1(2) obtain lm db1 where
    find: "findMember ?w (\<lambda>m. om_orgId m = o_id (fst (snd x)) \<and> om_userId m = js_trim u \<and>
      om_status m = DEACTIVATED) = Some lm"
    and upd: "update_org_member (om_id lm) (set_status ACTIVE (clock env)) ?w = Inr db1"
    and db': "db' = move_team_memberships (fst (snd x)) (js_trim u) (\<lambda>s. s = DEACTIVATED) ACTIVE (clock env) db1"
    unfolding reactivate_tx_def Let_def step_simps by auto
  have "org_inv db1"
    by (rule update_member_row_inv[OF upd inv(2)])
      (use findMember_Some[OF find] in \<open>auto simp: owner_row_def\<close>)
  then show ?case by (simp add: db')
qed simp

text \<open>A transfer breaks and restores the owner's standing: the new owner's row is active, the
  old owner's row belongs to another user.\<close>

lemma update_organisation_frames:
  assumes "update_organisation i f db = Inr db'"
  shows "organisations db' = update_where (\<lambda>r. o_id r = i) f (organisations db)"
    and "org_members db' = org_members db" "teams db' = teams db" "team_members db' = team_members db"
  using assms by (auto simp: update_organisation_def split: if_splits)

lemma update_org_member_frames:
  assumes "update_org_member i f db = Inr db'"
  shows "org_members db' = update_where (\<lambda>m. om_id m = i) f (org_members db)"
    and "organisations db' = organisations db" "teams db' = teams db" "team_members db' = team_members db"
    and "member_indexes_ok db'" "groups db' = groups db" "group_members db' = group_members db"
    and "sessions db' = sessions db"
  using assms by (auto simp: update_org_member_def split: if_splits)

lemma promote_then_set_owner:
  assumes own: "update_organisation (o_id org) (set_owner w now) db = Inr db1"
    and role: "update_org_member (om_id m) (set_role OWNER_ROLE now) db1 = Inr db2"
    and inv: "org_inv db" and m: "m \<in> set (org_members db)" "om_orgId m = o_id org" "om_userId m = w"
    "om_status m = ACTIVE"
  shows "org_inv db2"
proof -
  note f1 = update_organisation_frames[OF own] and f2 = update_org_member_frames[OF role]
  have orgs: "organisations db2 = update_where (\<lambda>r. o_id r = o_id org) (set_owner w now) (organisations db)"
    by (simp add: f1 f2)
  have mems: "org_members db2 = update_where (\<lambda>n. om_id n = om_id m) (set_role OWNER_ROLE now) (org_members db)"
    by (simp add: f1 f2)
  have ids: "map o_id (organisations db2) = map o_id (organisations db)"
    unfolding orgs by (rule map_update_where) (simp add: set_owner_def)
  then have idset: "o_id ` set (organisations db2) = o_id ` set (organisations db)" by (metis image_set)
  have "owners_stand db2"
    unfolding owners_stand_def
  proof
    fix r assume "r \<in> set (organisations db2)"
    then obtain r0 where r0: "r0 \<in> set (organisations db)"
      and r: "r = (if o_id r0 = o_id org then set_owner w now r0 else r0)"
      by (auto simp: orgs set_update_where)
    define up where "up = (\<lambda>n. if om_id n = om_id m then set_role OWNER_ROLE now n else n)"
    have up: "n \<in> set (org_members db) \<Longrightarrow> up n \<in> set (org_members db2)" for n
      by (auto simp: up_def mems set_update_where)
    show "\<exists>n \<in> set (org_members db2). owner_row r n"
    proof (cases "o_id r0 = o_id org")
      case True
      then have "owner_row r (up m)"
        using m by (simp add: owner_row_def r up_def set_owner_def set_role_def OWNER_ROLE_def)
      with up[OF m(1)] show ?thesis by blast
    next
      case False
      obtain n where n: "n \<in> set (org_members db)" "owner_row r0 n"
        using inv r0 by (auto simp: org_inv_def owners_stand_def)
      then have "owner_row r (up n)"
        using False by (simp add: owner_row_def r up_def set_role_def OWNER_ROLE_def)
      with up[OF n(1)] show ?thesis by blast
    qed
  qed
  moreover have "ids_distinct db2"
    using inv ids map_update_where[of "\<lambda>n. om_id n = om_id m" om_id "set_role OWNER_ROLE now"]
    by (simp add: org_inv_def ids_distinct_def mems f1 f2 set_role_def)
  moreover have "references_ok db2"
    using inv idset by (auto simp: org_inv_def references_ok_def mems f1(3,4) f2(3,4) set_update_where
        set_role_def)
  moreover have "default_teams db2"
    using inv by (auto simp: org_inv_def default_teams_def orgs f1(3) f2(3) set_update_where set_owner_def)
  ultimately show ?thesis
    using inv f2(5) by (simp add: org_inv_def team_member_index_ok_def f1(4) f2(4))
qed

lemma transfer_keeps:
  assumes inv: "org_inv db" "org_inv (awaitLock env db)"
    and rely: "rows_stable db (awaitLock env db)"
      "not_deactivated (js_trim (rq_orgId p)) (js_trim w) (awaitLock env db)"
  shows "org_inv (snd (transferOrganisationOwnership env p w rr db))"
  unfolding transferOrganisationOwnership_def Let_def case_prod_beta'
proof (rule handler_keeps[OF inv], goal_cases)
  let ?w = "awaitLock env db"
  case (1 x y db')
  obtain a org role out m where x: "x = (a, org, role, out, m)" by (cases x) auto
  from 1(1) have org: "o_id org = js_trim (rq_orgId p)" and neq: "out \<noteq> js_trim w"
    and m: "m \<in> set (org_members db)" "om_orgId m = o_id org" "om_userId m = js_trim w" "om_status m = ACTIVE"
    by (auto simp: x transfer_checks_def Let_def step_simps getOrganisationMember_def
        dest!: resolved_org_id findMember_Some)
  from 1(2) obtain db1 db2 db3 where
    own: "update_organisation (o_id org) (set_owner (js_trim w) (clock env)) ?w = Inr db1"
    and prom: "update_org_member (om_id m) (set_role OWNER_ROLE (clock env)) db1 = Inr db2"
    and old: "(case findMember db2 (\<lambda>m. om_orgId m = o_id org \<and> om_userId m = out) of
         Some m \<Rightarrow> update_org_member (om_id m) (set_role role (clock env)) db2 | None \<Rightarrow> Inr db2) = Inr db3"
    and db': "db' = db3"
    unfolding x transfer_tx_def Let_def step_simps fst_conv snd_conv by auto
  from prom obtain m' where m': "m' \<in> set (org_members ?w)" "om_id m' = om_id m"
    using update_organisation_frames(2)[OF own]
    by (auto simp: update_org_member_def dest!: findMember_Some split: if_splits)
  then have key: "om_orgId m' = o_id org" "om_userId m' = js_trim w"
    using rely(1) m by (auto simp: rows_stable_def)
  then have "om_status m' = ACTIVE" using rely(2) m'(1) org by (auto simp: not_deactivated_def)
  with promote_then_set_owner[OF own _ inv(2) m'(1) key] prom m'(2) have i2: "org_inv db2" by simp
  have orgs2: "organisations db2 = update_where (\<lambda>r. o_id r = o_id org)
      (set_owner (js_trim w) (clock env)) (organisations ?w)"
    using update_organisation_frames(1)[OF own] update_org_member_frames(2)[OF prom] by simp
  show ?case
  proof (cases "findMember db2 (\<lambda>m. om_orgId m = o_id org \<and> om_userId m = out)")
    case None
    then show ?thesis using old i2 by (simp add: db')
  next
    case (Some lm)
    from findMember_Some[OF Some] have lm: "lm \<in> set (org_members db2)" "om_orgId lm = o_id org" "om_userId lm = out"
      by auto
    have not: "\<not> owner_row r lm" if "r \<in> set (organisations db2)" for r
      using not_owner_after[of r lm "js_trim w"] that neq lm(2,3) unfolding orgs2 by auto
    have "update_org_member (om_id lm) (set_role role (clock env)) db2 = Inr db3"
      using old Some by simp
    from update_member_row_inv[OF this i2 lm(1)] not show ?thesis by (simp add: db')
  qed
qed simp

subsection \<open>Organisations and teams come and go\<close>

lemma owner_row_cong:
  "o_id r' = o_id r \<Longrightarrow> o_ownerId r' = o_ownerId r \<Longrightarrow> owner_row r' m = owner_row r m"
  by (simp add: owner_row_def)

lemma update_org_keeps:
  assumes inv: "org_inv db" "org_inv (awaitLock env db)" and env: "new_ids env (awaitLock env db)"
  shows "org_inv (snd (updateOrganisation env parse p n mi icon db))"
  unfolding updateOrganisation_def Let_def case_prod_beta'
proof (rule handler_keeps[OF inv], goal_cases)
  let ?w = "awaitLock env db"
  case (1 x y db')
  from 1(2) obtain f where upd: "update_organisation (o_id (fst (snd x))) f ?w = Inr db'"
    and f: "\<And>r. o_id (f r) = o_id r" "\<And>r. o_domain (f r) = o_domain r" "\<And>r. o_ownerId (f r) = o_ownerId r"
    by (auto simp: step_simps)
  show ?case
  proof (rule update_organisation_inv[OF upd inv(2)])
    show "\<exists>m \<in> set (org_members ?w). owner_row (f r) m" if "r \<in> set (organisations ?w)" for r
      using that inv(2) owner_row_cong[OF f(1,3)] by (simp add: org_inv_def owners_stand_def)
  qed (simp add: keeps_org_key_def f)
qed simp

lemma count_where_none: "(\<And>x. x \<in> set xs \<Longrightarrow> \<not> P x) \<Longrightarrow> count_where P xs = 0"
  by (simp add: count_where_0_iff)

lemma create_org_tx_inv:
  assumes tx: "create_organisation_tx env a d n u pol db = Inr (y, db')" and inv: "org_inv db"
    and env: "new_ids env db"
  shows "org_inv db'"
proof -
  let ?now = "clock env"
  from tx obtain slug ts db1 db2 db3 where
    c1: "create_organisation \<lparr>o_id = fresh_id env 0, o_domain = d, o_name = n, o_slug = slug,
      o_ownerId = u, o_memberInvites = Invites_Allowed, o_iconUrl = None,
      o_createdAt = ?now, o_updatedAt = ?now\<rparr> db = Inr db1"
    and c2: "create_team ((new_team (fresh_id env 1) (fresh_id env 0) ''General'' ts ?now)
      \<lparr>t_isDefault := True, t_joinPolicy := (case pol of Some q \<Rightarrow> q | None \<Rightarrow> INVITE_ONLY)\<rparr>) db1 = Inr db2"
    and c3: "create_org_member (new_member (fresh_id env 2) (fresh_id env 0) u ''owner'' ?now) db2 = Inr db3"
    and c4: "create_team_member (new_team_member (fresh_id env 3) (fresh_id env 1) u ''member'' ?now) db3 = Inr db'"
    unfolding create_organisation_tx_def Let_def step_simps
    by (auto simp: new_team_def)
  define r where "r = \<lparr>o_id = fresh_id env 0, o_domain = d, o_name = n, o_slug = slug,
      o_ownerId = u, o_memberInvites = Invites_Allowed, o_iconUrl = None,
      o_createdAt = ?now, o_updatedAt = ?now\<rparr>"
  define t where "t = (new_team (fresh_id env 1) (fresh_id env 0) ''General'' ts ?now)
      \<lparr>t_isDefault := True, t_joinPolicy := (case pol of Some q \<Rightarrow> q | None \<Rightarrow> INVITE_ONLY)\<rparr>"
  have r: "o_id r = fresh_id env 0" "o_ownerId r = u"
    and t: "t_id t = fresh_id env 1" "t_orgId t = o_id r" "t_isDefault t"
    by (simp_all add: r_def t_def new_team_def)
  note c1 = c1[folded r_def] and c2 = c2[folded t_def] and c3 = c3[folded r(1)] and c4 = c4[folded t(1)]
  have db': "organisations db' = organisations db @ [r]" "teams db' = teams db @ [t]"
    "org_members db' = org_members db @ [new_member (fresh_id env 2) (o_id r) u ''owner'' ?now]"
    "team_members db' = team_members db @ [new_team_member (fresh_id env 3) (t_id t) u ''member'' ?now]"
    and idx: "member_indexes_ok db3" "team_member_index_ok db'"
    and orgs3: "organisations db3 = organisations db @ [r]" "org_members db3 = org_members db'"
    using c1 c2 c3 c4
    by (auto simp: create_organisation_def create_team_def create_org_member_def
        create_team_member_def split: if_splits)
  note fresh = fresh_not[OF env]
  have "member_indexes_ok db'"
    using idx(1) org_domain_cong[of db' db3] db'(1) orgs3 by (simp add: member_indexes_ok_def)
  moreover have "ids_distinct db'"
    using inv fresh by (simp add: org_inv_def ids_distinct_def db' r t new_member_def new_team_member_def)
  moreover have "references_ok db'"
    using inv by (auto simp: org_inv_def references_ok_def db' r t new_member_def new_team_member_def)
  moreover have "owners_stand db'"
    using inv r(2)
    by (fastforce simp: org_inv_def owners_stand_def db' owner_row_def new_member_def)
  moreover have "default_teams db'"
  proof -
    have "count_where (default_team_of (o_id r)) (teams db) = 0"
      using inv fresh(1)[of 0]
      by (intro count_where_none) (metis default_team_of_def org_inv_def r(1) references_ok_def)
    moreover have "o_id q \<noteq> o_id r" if "q \<in> set (organisations db)" for q
      using fresh(1)[of 0] that by (metis image_eqI r(1))
    ultimately show ?thesis
      using inv t by (auto simp: org_inv_def default_teams_def db' default_team_of_def)
  qed
  ultimately show ?thesis using idx(2) by (simp add: org_inv_def)
qed

lemma create_org_keeps:
  assumes inv: "org_inv db" "org_inv (awaitLock env db)" and env: "new_ids env (awaitLock env db)"
  shows "org_inv (snd (createOrganisation env p d n pol u db))"
  unfolding createOrganisation_def Let_def case_prod_beta'
proof (rule handler_keeps[OF inv], goal_cases)
  case (1 x y db')
  from 1(2) inv(2) env show ?case by (rule create_org_tx_inv)
qed simp

lemma distinct_map_filter': "distinct (map f xs) \<Longrightarrow> distinct (map f (filter P xs))"
  by (simp add: distinct_map_filter)

lemma count_where_filter: "count_where P (filter Q xs) = count_where (\<lambda>x. Q x \<and> P x) xs"
  by (induction xs) auto

lemma cascade_delete_organisation_inv:
  assumes inv: "org_inv db"
  shows "org_inv (cascade_delete_organisation i db)"
proof -
  let ?d = "cascade_delete_organisation i db"
  have "references_ok ?d"
    using inv
    by (auto simp: cascade_delete_organisation_def org_inv_def references_ok_def team_in_org_def
        image_iff) metis
  moreover have "ids_distinct ?d"
    using inv by (simp add: cascade_delete_organisation_def org_inv_def ids_distinct_def distinct_map_filter')
  moreover have "owners_stand ?d"
    using inv by (fastforce simp: cascade_delete_organisation_def org_inv_def owners_stand_def owner_row_def)
  moreover have "default_teams ?d"
  proof -
    have "count_where (default_team_of (o_id r)) (filter (\<lambda>t. t_orgId t \<noteq> i) (teams db)) =
        count_where (default_team_of (o_id r)) (teams db)" if "o_id r \<noteq> i" for r :: organisation
      unfolding count_where_filter using that
      by (intro arg_cong2[where f = count_where]) (auto simp: default_team_of_def)
    then show ?thesis
      using inv by (auto simp: cascade_delete_organisation_def org_inv_def default_teams_def)
  qed
  moreover have "member_indexes_ok ?d"
  proof -
    have dom: "org_domain ?d j = org_domain db j" if "j \<noteq> i" for j
    proof -
      have "List.find (\<lambda>r. o_id r = j) (filter (\<lambda>r. o_id r \<noteq> i) rs) = List.find (\<lambda>r. o_id r = j) rs" for rs :: "organisation list"
        using that by (induction rs) auto
      then show ?thesis by (simp add: org_domain_def findOrg_def cascade_delete_organisation_def)
    qed
    let ?a = "filter (\<lambda>m. om_status m = ACTIVE) (org_members db)"
    have mems: "org_members ?d = filter (\<lambda>m. om_orgId m \<noteq> i) (org_members db)"
      by (simp add: cascade_delete_organisation_def)
    have act: "filter (\<lambda>m. om_status m = ACTIVE) (org_members ?d) = filter (\<lambda>m. om_orgId m \<noteq> i) ?a"
      by (simp add: mems conj_commute)
    have "map (\<lambda>m. (om_userId m, org_domain ?d (om_orgId m))) (filter (\<lambda>m. om_orgId m \<noteq> i) ?a) =
        map (\<lambda>m. (om_userId m, org_domain db (om_orgId m))) (filter (\<lambda>m. om_orgId m \<noteq> i) ?a)"
      using dom by auto
    moreover have "distinct (map (\<lambda>m. (om_userId m, org_domain db (om_orgId m))) ?a)"
      "distinct (map (\<lambda>m. (om_orgId m, om_userId m)) (org_members db))"
      using inv by (simp_all add: org_inv_def member_indexes_ok_def)
    ultimately have
      "distinct (map (\<lambda>m. (om_userId m, org_domain ?d (om_orgId m))) (filter (\<lambda>m. om_orgId m \<noteq> i) ?a))"
      "distinct (map (\<lambda>m. (om_orgId m, om_userId m)) (org_members ?d))"
      unfolding mems by (simp_all only: distinct_map_filter')
    then show ?thesis by (simp only: member_indexes_ok_def act)
  qed
  moreover have "team_member_index_ok ?d"
    using inv by (simp add: cascade_delete_organisation_def org_inv_def team_member_index_ok_def
        distinct_map_filter')
  ultimately show ?thesis by (simp add: org_inv_def)
qed

lemma delete_org_keeps:
  assumes inv: "org_inv db" "org_inv (awaitLock env db)" and env: "new_ids env (awaitLock env db)"
  shows "org_inv (snd (deleteOrganisation env p db))"
  unfolding deleteOrganisation_def Let_def case_prod_beta'
proof (rule handler_keeps[OF inv], goal_cases)
  let ?w = "awaitLock env db"
  case (1 x y db')
  then have "db' = cascade_delete_organisation (o_id (snd x)) ?w"
    by (auto simp: delete_organisation_tx_def split: if_splits)
  then show ?case by (simp add: cascade_delete_organisation_inv inv(2))
qed simp

subsection \<open>Team operations\<close>

lemma join_team_tx_inv:
  assumes tx: "join_team_tx env c org team u role db = Inr (y, db')" and inv: "org_inv db"
    and env: "new_ids env db"
  shows "org_inv db'"
proof (cases "findTeamMember db (\<lambda>m. tm_teamId m = t_id team \<and> tm_userId m = u)")
  case (Some m)
  with tx have "update_team_member (tm_id m) (\<lambda>r. set_team_status ACTIVE (clock env)
      (case role of Some q \<Rightarrow> set_team_role q (clock env) r | None \<Rightarrow> r)) db = Inr db'"
    by (auto simp: join_team_tx_def Let_def step_simps)
  then show ?thesis using inv
    by (rule update_team_member_inv) (cases role, simp_all)
next
  case None
  with tx obtain q where "create_team_member (new_team_member (fresh_id env 0) (t_id team) u q (clock env)) db = Inr db'"
    by (auto simp: join_team_tx_def Let_def step_simps)
  then show ?thesis using inv
    by (rule create_team_member_inv) (simp add: new_team_member_def fresh_not(4)[OF env])
qed

lemma add_team_member_keeps:
  assumes inv: "org_inv db" "org_inv (awaitLock env db)" and env: "new_ids env (awaitLock env db)"
  shows "org_inv (snd (addTeamMember env p t u r db))"
  unfolding addTeamMember_def Let_def case_prod_beta'
proof (rule handler_keeps[OF inv], goal_cases)
  case (1 x y db')
  from 1(2) inv(2) env show ?case by (cases y) (rule join_team_tx_inv)
qed simp

lemma self_join_keeps:
  assumes inv: "org_inv db" "org_inv (awaitLock env db)" and env: "new_ids env (awaitLock env db)"
  shows "org_inv (snd (selfJoinTeam env p t u db))"
  unfolding selfJoinTeam_def Let_def case_prod_beta'
proof (rule handler_keeps[OF inv], goal_cases)
  case (1 x y db')
  from 1(2) inv(2) env show ?case by (cases y) (rule join_team_tx_inv)
qed simp

lemma change_team_role_keeps:
  assumes inv: "org_inv db" "org_inv (awaitLock env db)" and env: "new_ids env (awaitLock env db)"
  shows "org_inv (snd (changeTeamMemberRole env p t u r db))"
  unfolding changeTeamMemberRole_def Let_def case_prod_beta'
proof (rule handler_keeps[OF inv], goal_cases)
  let ?w = "awaitLock env db"
  case (1 x y db')
  then obtain i q where "update_team_member i (set_team_role q (clock env)) ?w = Inr db'"
    by (auto simp: step_simps)
  then show ?case using inv(2) by (rule update_team_member_inv) simp
qed simp

lemma remove_team_member_keeps:
  assumes inv: "org_inv db" "org_inv (awaitLock env db)" and env: "new_ids env (awaitLock env db)"
  shows "org_inv (snd (removeTeamMember env p t u db))"
  unfolding removeTeamMember_def Let_def case_prod_beta'
proof (rule handler_keeps[OF inv], goal_cases)
  let ?w = "awaitLock env db"
  case (1 x y db')
  from 1(2) obtain i db1 s where upd: "update_team_member i (set_team_status REMOVED (clock env)) ?w = Inr db1"
    and db': "db' = db1\<lparr>sessions := s\<rparr>"
    by (auto simp: remove_team_member_tx_def Let_def step_simps)
  from update_team_member_inv[OF upd inv(2)] have "org_inv db1" by simp
  then show ?case by (simp add: db')
qed simp

lemma teams_write_inv:
  assumes "org_inv db" and "organisations db' = organisations db" and "org_members db' = org_members db"
    and "team_members db' = team_members db" and "distinct (map t_id (teams db'))"
    and "default_teams db'" and "\<forall>t \<in> set (teams db'). t_orgId t \<in> o_id ` set (organisations db)"
    and "t_id ` set (teams db) \<subseteq> t_id ` set (teams db')"
  shows "org_inv db'"
  using assms org_domain_cong[OF assms(2)]
  by (auto simp: org_inv_def ids_distinct_def references_ok_def member_indexes_ok_def
      team_member_index_ok_def owners_stand_def)

lemma create_team_keeps:
  assumes inv: "org_inv db" "org_inv (awaitLock env db)" and env: "new_ids env (awaitLock env db)"
  shows "org_inv (snd (createTeam env p n sl d pol db))"
  unfolding createTeam_def Let_def case_prod_beta'
proof (rule handler_keeps[OF inv], goal_cases)
  let ?w = "awaitLock env db"
  case (1 x y db')
  then obtain t where crt: "create_team t ?w = Inr db'"
    and t: "t_id t = fresh_id env 0" "\<not> t_isDefault t"
    by (auto simp: create_team_tx_def Let_def step_simps new_team_def)
  from crt have db': "db' = ?w\<lparr>teams := teams ?w @ [t]\<rparr>" and ref: "t_orgId t \<in> o_id ` set (organisations ?w)"
    by (auto simp: create_team_def findOrg_None split: if_splits)
  show ?case
    by (rule teams_write_inv[OF inv(2)])
      (use inv(2) t ref fresh_not(3)[OF env] in \<open>auto simp: db' org_inv_def ids_distinct_def
        default_teams_def default_team_of_def references_ok_def\<close>)
qed simp

lemma update_team_keeps:
  assumes inv: "org_inv db" "org_inv (awaitLock env db)" and env: "new_ids env (awaitLock env db)"
  shows "org_inv (snd (updateTeam env parse p t d db))"
  unfolding updateTeam_def Let_def case_prod_beta'
proof (rule handler_keeps[OF inv], goal_cases)
  let ?w = "awaitLock env db"
  case (1 x y db')
  define f where "f = snd (snd (snd x))"
  define i where "i = t_id (fst (snd (snd x)))"
  have upd: "update_team i f ?w = Inr db'"
    using 1(2) by (auto simp: step_simps f_def i_def)
  have f: "t_id (f q) = t_id q" "t_orgId (f q) = t_orgId q" "t_isDefault (f q) = t_isDefault q" for q
    using 1(1) by (auto simp: update_team_checks_def step_simps f_def)
  have db': "db' = ?w\<lparr>teams := update_where (\<lambda>t. t_id t = i) f (teams ?w)\<rparr>"
    using upd by (auto simp: update_team_def split: if_splits)
  have ids: "map t_id (teams db') = map t_id (teams ?w)"
    by (simp add: db' map_update_where f)
  have "count_where (default_team_of k) (teams db') = count_where (default_team_of k) (teams ?w)" for k
    by (simp add: db' count_where_update_eq default_team_of_def f)
  then have dt: "default_teams db'" using inv(2) by (simp add: org_inv_def default_teams_def db')
  have di: "distinct (map t_id (teams db'))" using inv_ids(3)[OF inv(2)] ids by simp
  have refs: "\<forall>t \<in> set (teams db'). t_orgId t \<in> o_id ` set (organisations ?w)"
    using inv(2) by (auto simp: db' org_inv_def references_ok_def set_update_where f)
  have "t_id ` set (teams ?w) = t_id ` set (teams db')" using ids by (metis image_set)
  then show ?case using teams_write_inv[OF inv(2) _ _ _ di dt refs] by (simp add: db')
qed simp

lemma rehome_inv:
  assumes "rehome env orgId dt k ms db = Inr db'" and "org_inv db" and "inj (fresh_id env)"
    and "\<And>j. k \<le> j \<Longrightarrow> fresh_id env j \<notin> tm_id ` set (team_members db)"
  shows "org_inv db' \<and> organisations db' = organisations db \<and> teams db' = teams db \<and>
    org_members db' = org_members db"
  using assms
proof (induction ms arbitrary: k db)
  case (Cons m ms)
  let ?new = "new_team_member (fresh_id env k) dt (tm_userId m) ''member'' (clock env)"
  from Cons.prems(1) obtain db1 where
    step: "(if active_memberships db orgId (tm_userId m) \<le> 1 then create_team_member ?new db else Inr db) = Inr db1"
    and rest: "rehome env orgId dt (k + 1) ms db1 = Inr db'"
    by (auto simp: step_simps)
  have *: "org_inv db1 \<and> organisations db1 = organisations db \<and> teams db1 = teams db \<and>
      org_members db1 = org_members db \<and>
      (\<forall>j. k + 1 \<le> j \<longrightarrow> fresh_id env j \<notin> tm_id ` set (team_members db1))"
  proof (cases "active_memberships db orgId (tm_userId m) \<le> 1")
    case True
    with step have crt: "create_team_member ?new db = Inr db1" by simp
    have "org_inv db1"
      using create_team_member_inv[OF crt Cons.prems(2)] Cons.prems(4)[of k] by (simp add: new_team_member_def)
    moreover have "fresh_id env j \<noteq> fresh_id env k" if "k + 1 \<le> j" for j
      using injD[OF Cons.prems(3), of j k] that by auto
    ultimately show ?thesis
      using crt Cons.prems(4) by (auto simp: create_team_member_def new_team_member_def split: if_splits)
  next
    case False
    with step Cons.prems show ?thesis by auto
  qed
  with Cons.IH[OF rest] Cons.prems(3) show ?case by auto
qed auto

lemma cascade_delete_team_inv:
  assumes inv: "org_inv db" and team: "team \<in> set (teams db)" "\<not> t_isDefault team"
  shows "org_inv (cascade_delete_team (t_id team) db)"
proof -
  let ?d = "cascade_delete_team (t_id team) db"
  have same: "q = team" if "q \<in> set (teams db)" "t_id q = t_id team" for q
    using distinct_key_eq[OF inv_ids(3)[OF inv] that(1) team(1) that(2)] .
  have "count_where (default_team_of k) (teams ?d) = count_where (default_team_of k) (teams db)" for k
  proof -
    have "filter (\<lambda>t. t_id t \<noteq> t_id team \<and> default_team_of k t) (teams db) =
        filter (default_team_of k) (teams db)"
      using same team(2) by (intro filter_cong) (auto simp: default_team_of_def)
    then show ?thesis by (simp add: cascade_delete_team_def count_where_def)
  qed
  then have "default_teams ?d" using inv by (simp add: org_inv_def default_teams_def cascade_delete_team_def)
  moreover have "member_indexes_ok ?d"
    using inv org_domain_cong[of ?d db]
    by (simp add: org_inv_def member_indexes_ok_def cascade_delete_team_def)
  moreover have "owners_stand ?d" using inv by (simp add: org_inv_def owners_stand_def cascade_delete_team_def)
  moreover have "references_ok ?d"
    using inv by (auto simp: org_inv_def references_ok_def cascade_delete_team_def image_iff) metis
  moreover have "ids_distinct ?d" "team_member_index_ok ?d"
    using inv by (simp_all add: org_inv_def ids_distinct_def cascade_delete_team_def
        team_member_index_ok_def distinct_map_filter')
  ultimately show ?thesis by (simp add: org_inv_def)
qed

lemma delete_team_keeps:
  assumes inv: "org_inv db" "org_inv (awaitLock env db)" and env: "new_ids env (awaitLock env db)"
  shows "org_inv (snd (deleteTeam env p t db))"
  unfolding deleteTeam_def Let_def case_prod_beta'
proof (rule handler_keeps[OF inv], goal_cases)
  let ?w = "awaitLock env db"
  case (1 x y db')
  from 1(2) obtain team dt db1 ms where team: "find_team_of ?w (snd x) t = Some team" "\<not> t_isDefault team"
    and re: "rehome env (o_id (snd x)) dt 0 ms ?w = Inr db1"
    and db': "db' = cascade_delete_team (t_id team) db1"
    by (auto simp: delete_team_tx_def require_team_def step_simps split: if_splits)
  have "inj (fresh_id env)" using env by (simp add: new_ids_def)
  from rehome_inv[OF re inv(2) this fresh_not(4)[OF env]]
  have db1: "org_inv db1" "teams db1 = teams ?w" by auto
  have "team \<in> set (teams db1)"
    using findTeam_Some[OF team(1)[unfolded find_team_of_def]] db1(2) by simp
  with db1(1) team(2) show ?case unfolding db' by (intro cascade_delete_team_inv)
qed simp

subsection \<open>Histories\<close>

text \<open>What a request leaves, whatever its outcome. Changing a role and removing a member compare
  with the owner read before the lock, a transfer does not look again at the incoming owner's
  membership: these three carry what they rely on.\<close>

inductive served :: "org_env \<Rightarrow> org_db \<Rightarrow> org_db \<Rightarrow> bool" where
  Create_Org: "served env db (snd (createOrganisation env p d n q u db))"
| Update_Org: "served env db (snd (updateOrganisation env parse p n i c db))"
| Delete_Org: "served env db (snd (deleteOrganisation env p db))"
| Add_Member: "served env db (snd (addOrganisationMember env p u r db))"
| Change_Role: "same_owner (js_trim (rq_orgId p)) db (awaitLock env db) \<Longrightarrow>
    served env db (snd (changeOrganisationMemberRole env p u r db))"
| Remove_Member: "same_owner (js_trim (rq_orgId p)) db (awaitLock env db) \<Longrightarrow>
    served env db (snd (removeOrganisationMember env p u db))"
| Deactivate: "served env db (snd (deactivateOrganisationMember env p u db))"
| Reactivate: "served env db (snd (reactivateOrganisationMember env p u db))"
| Transfer: "not_deactivated (js_trim (rq_orgId p)) (js_trim w) (awaitLock env db) \<Longrightarrow>
    served env db (snd (transferOrganisationOwnership env p w rr db))"
| Create_Team: "served env db (snd (createTeam env p n sl ds q db))"
| Update_Team: "served env db (snd (updateTeam env parse p t pat db))"
| Delete_Team: "served env db (snd (deleteTeam env p t db))"
| Add_Team_Member: "served env db (snd (addTeamMember env p t u tr db))"
| Self_Join: "served env db (snd (selfJoinTeam env p t u db))"
| Change_Team_Role: "served env db (snd (changeTeamMemberRole env p t u r db))"
| Remove_Team_Member: "served env db (snd (removeTeamMember env p t u db))"

lemma served_keeps:
  assumes "served env db d" and inv: "org_inv db" "org_inv (awaitLock env db)"
    and new: "new_ids env (awaitLock env db)" and stable: "rows_stable db (awaitLock env db)"
  shows "org_inv d"
  using assms(1)
proof cases
  case Create_Org then show ?thesis using create_org_keeps[OF inv new] by simp
next
  case Update_Org then show ?thesis using update_org_keeps[OF inv new] by simp
next
  case Delete_Org then show ?thesis using delete_org_keeps[OF inv new] by simp
next
  case Add_Member then show ?thesis using add_member_keeps[OF inv new] by simp
next
  case Change_Role then show ?thesis using change_role_keeps[OF inv stable] by simp
next
  case Remove_Member then show ?thesis using remove_member_keeps[OF inv] by simp
next
  case Deactivate then show ?thesis using deactivate_keeps[OF inv new] by simp
next
  case Reactivate then show ?thesis using reactivate_keeps[OF inv new] by simp
next
  case Transfer then show ?thesis using transfer_keeps[OF inv stable] by simp
next
  case Create_Team then show ?thesis using create_team_keeps[OF inv new] by simp
next
  case Update_Team then show ?thesis using update_team_keeps[OF inv new] by simp
next
  case Delete_Team then show ?thesis using delete_team_keeps[OF inv new] by simp
next
  case Add_Team_Member then show ?thesis using add_team_member_keeps[OF inv new] by simp
next
  case Self_Join then show ?thesis using self_join_keeps[OF inv new] by simp
next
  case Change_Team_Role then show ?thesis using change_team_role_keeps[OF inv new] by simp
next
  case Remove_Team_Member then show ?thesis using remove_team_member_keeps[OF inv new] by simp
qed

text \<open>One request. While it waits for its lock any number of the others may be served, and wait in
  turn: what it finds under the lock is any state they reach.\<close>

inductive org_transition :: "org_db \<Rightarrow> org_db \<Rightarrow> bool" where
  Request: "org_transition\<^sup>*\<^sup>* db (awaitLock env db) \<Longrightarrow> new_ids env (awaitLock env db) \<Longrightarrow>
    rows_stable db (awaitLock env db) \<Longrightarrow> served env db d \<Longrightarrow> org_transition db d"
| Session_Activity: "org_transition db (db\<lparr>sessions := s\<rparr>)"
| Sign_Up: "org_transition db (db\<lparr>users := us, domain_roles := rs\<rparr>)"

lemma users_inv [simp]: "org_inv (db\<lparr>users := us, domain_roles := rs\<rparr>) = org_inv db"
  by (rule org_inv_cong) simp_all

lemma run_of_keeping_steps:
  "(\<lambda>a b. org_transition a b \<and> (org_inv a \<longrightarrow> org_inv b))\<^sup>*\<^sup>* a b \<Longrightarrow> org_inv a \<Longrightarrow> org_inv b"
  by (induction rule: rtranclp_induct) auto

lemma transition_keeps: "org_transition a b \<Longrightarrow> org_inv a \<Longrightarrow> org_inv b"
proof (induction rule: org_transition.induct)
  case (Request db env d)
  have w: "org_inv (awaitLock env db)"
    by (rule run_of_keeping_steps[OF Request(1) Request.prems])
  show ?case by (rule served_keeps[OF Request(4) Request.prems w Request(2,3)])
qed simp_all

text \<open>A request that runs alone.\<close>

lemma rows_stable_refl: "distinct (map om_id (org_members db)) \<Longrightarrow> rows_stable db db"
  using distinct_key_eq[of om_id "org_members db"] by (fastforce simp: rows_stable_def)

lemma served_alone:
  assumes "awaitLock env db = db" and "new_ids env db" and "distinct (map om_id (org_members db))"
    and "served env db d"
  shows "org_transition db d"
  using org_transition.Request[of db env d] assms rows_stable_refl by simp

interpretation organisations: step_invariant org_transition org_inv
  by unfold_locales (rule transition_keeps)

end
