(* ===== verification/Org_Properties.thy ===== *)
theory Org_Properties
  imports Org_Invariants
begin

section \<open>Properties of the organisation and team services\<close>

text \<open>
  The claims about the handlers of the four organisation theories and their witnesses on
  a small concrete store: two users, one of them with a session, and the requests that found an
  organisation, extend its roster and shrink it again.
\<close>

subsection \<open>A concrete store\<close>

definition empty_sessions :: refresh_db where
  "empty_sessions = \<lparr>rt_rows = [], rt_versions = (\<lambda>_. None), rt_next = 0\<rparr>"

definition empty_org_db :: org_db where
  "empty_org_db =
     \<lparr>organisations = [], org_members = [], teams = [], team_members = [], groups = [],
      group_members = [], users = [], domain_roles = [], sessions = empty_sessions, audit_log = []\<rparr>"

definition demo_env :: "string \<Rightarrow> int \<Rightarrow> org_env" where
  "demo_env tag now =
     \<lparr>database_url = True, public_base_url = None, clock = now,
      fresh_id = (\<lambda>k. tag @ replicate k (CHR ''i'')), random_bytes = (\<lambda>_. [0, 1, 2, 3]),
      referenced = (\<lambda>_. False), audit_reachable = True, awaitLock = id\<rparr>"

definition demo_request :: "string option \<Rightarrow> org_request" where
  "demo_request actor =
     \<lparr>rq_orgId = ''a'', rq_actorUserId = actor, rq_actor = None,
      rq_config = default_config ''shop''\<rparr>"

definition demo_users :: org_db where
  "demo_users = empty_org_db\<lparr>users :=
     [plain_user ''ann'' None, plain_user ''bob'' None], domain_roles := []\<rparr>"

definition demo_founded :: org_db where
  "demo_founded = snd (createOrganisation (demo_env ''a'' 1) (demo_request (Some ''ann''))
     ''Shop.'' ''Acme Inc'' None '' ann '' demo_users)"

definition demo_grown :: org_db where
  "demo_grown = snd (addOrganisationMember (demo_env ''b'' 2) (demo_request (Some ''ann'')) ''bob''
     ''admin'' demo_founded)"






lemma demo_grown_rows:
  "map o_id (organisations demo_grown) = [''a'']"
  "map (\<lambda>m. (om_userId m, om_role m, om_status m)) (org_members demo_grown) =
     [(''ann'', ''owner'', ACTIVE), (''bob'', ''admin'', ACTIVE)]"
  by code_simp+







subsection \<open>The owner stands\<close>



subsection \<open>Leaving and coming back\<close>

lemma revoked_sessions:
  assumes "r \<in> set (rt_rows (sessions (revoke_member_sessions u org now db)))" and "rt_userId r = u"
    and "rt_orgId r = Some (o_id org) \<or> rt_domain r = o_domain org"
  shows "rt_revokedAt r \<noteq> None"
proof -
  let ?s = "snd (revokeRefreshTokenFamiliesForUserOrganisation (u, o_id org) now (sessions db))"
  have r: "r \<in> set (rt_rows (snd (revokeRefreshTokensForUserDomain (u, o_domain org) now ?s)))"
    using assms(1) by (simp add: revoke_member_sessions_def)
  show ?thesis
  proof (cases "rt_domain r = o_domain org")
    case True
    with r assms(2) show ?thesis by (intro user_domain.revoke_selected[OF r]) simp
  next
    case False
    with assms have "rt_userId r = fst (u, o_id org) \<and> rt_orgId r = Some (snd (u, o_id org))" by simp
    with user_organisation.stays_dead[OF user_domain.revoke_decays r] show ?thesis by blast
  qed
qed

lemma revoke_frames [simp]:
  "org_members (revoke_member_sessions u org now db) = org_members db"
  "team_members (revoke_member_sessions u org now db) = team_members db"
  "teams (revoke_member_sessions u org now db) = teams db"
  "groups (revoke_member_sessions u org now db) = groups db"
  "group_members (revoke_member_sessions u org now db) = group_members db"
  by (simp_all add: revoke_member_sessions_def)

lemma audit_frames [simp]:
  "organisations (auditOrg env a row db) = organisations db" "org_members (auditOrg env a row db) = org_members db"
  "team_members (auditOrg env a row db) = team_members db" "teams (auditOrg env a row db) = teams db"
  "groups (auditOrg env a row db) = groups db" "group_members (auditOrg env a row db) = group_members db"
  "sessions (auditOrg env a row db) = sessions db"
  by (simp_all add: auditOrg_def writeOrgAuditLog_def)

lemma move_frames [simp]:
  "teams (move_team_memberships org u from to now db) = teams db"
  "groups (move_team_memberships org u from to now db) = groups db"
  "group_members (move_team_memberships org u from to now db) = group_members db"
  "sessions (move_team_memberships org u from to now db) = sessions db"
  by (simp_all add: move_team_memberships_def update_team_members_def)

lemma moved:
  assumes "m \<in> set (team_members (move_team_memberships org u from to now db))"
    and "tm_userId m = u" and "team_in_org db (o_id org) (tm_teamId m)"
  shows "\<not> from (tm_status m) \<or> tm_status m = to"
proof -
  from assms(1) obtain n where n: "n \<in> set (team_members db)"
    and m: "m = (if tm_userId n = u \<and> team_in_org db (o_id org) (tm_teamId n) \<and> from (tm_status n)
                 then set_team_status to now n else n)"
    by (auto simp: move_team_memberships_def update_team_members_def set_update_where)
  then show ?thesis
    using assms(2,3) by (cases "from (tm_status n)") (auto simp: set_team_status_def split: if_splits)
qed

text \<open>After a removal the tables hold nothing of the user that is still in force.\<close>

definition out_of_organisation :: "organisation \<Rightarrow> string \<Rightarrow> org_db \<Rightarrow> bool" where
  "out_of_organisation org u db \<longleftrightarrow>
     (\<forall>m \<in> set (org_members db). om_orgId m = o_id org \<longrightarrow> om_userId m = u \<longrightarrow> om_status m = REMOVED) \<and>
     (\<forall>m \<in> set (team_members db). tm_userId m = u \<longrightarrow> team_in_org db (o_id org) (tm_teamId m) \<longrightarrow>
        tm_status m = REMOVED) \<and>
     (\<forall>g \<in> set (group_members db). \<not> (gm_userId g = u \<and> group_in_org db (o_id org) (gm_groupId g))) \<and>
     (\<forall>r \<in> set (rt_rows (sessions db)). rt_userId r = u \<longrightarrow>
        rt_orgId r = Some (o_id org) \<or> rt_domain r = o_domain org \<longrightarrow> rt_revokedAt r \<noteq> None)"

lemma status_written:
  assumes upd: "update_org_member (om_id lm) (set_status s now) db = Inr db'"
    and lm: "lm \<in> set (org_members db)"
    and m: "m \<in> set (org_members db')" "om_orgId m = om_orgId lm" "om_userId m = om_userId lm"
  shows "om_status m = s"
proof -
  note f = update_org_member_frames[OF upd]
  have "set_status s now lm \<in> set (org_members db')"
    using lm by (auto simp: f(1) set_update_where)
  from member_key_unique[OF f(5) m(1) this] m(2,3) show ?thesis by (simp add: set_status_def)
qed

lemma remove_member_tx_out:
  assumes tx: "remove_member_tx env org u db = Inr (y, db')"
  shows "out_of_organisation org u db'"
proof -
  from tx obtain lm db1 db4 where
    find: "findMember db (\<lambda>m. om_orgId m = o_id org \<and> om_userId m = u) = Some lm"
    and db1: "pass_ownership org lm (clock env) db = Inr db1"
    and db4: "update_org_member (om_id lm) (set_status REMOVED (clock env))
       (delete_group_memberships org u
         (move_team_memberships org u (\<lambda>s. s \<noteq> REMOVED) REMOVED (clock env) db1)) = Inr db4"
    and db': "db' = revoke_member_sessions u org (clock env) db4"
    unfolding remove_member_tx_def Let_def step_simps by auto
  from findMember_Some[OF find]
  have lm: "lm \<in> set (org_members db)" "om_orgId lm = o_id org" "om_userId lm = u" by auto
  have "org_members db1 = org_members db"
    using db1 by (auto simp: pass_ownership_def Let_def dest: update_organisation_frames split: if_splits)
  then have lm3: "lm \<in> set (org_members (delete_group_memberships org u
         (move_team_memberships org u (\<lambda>s. s \<noteq> REMOVED) REMOVED (clock env) db1)))"
    using lm(1) by simp
  have frames: "team_members db4 = team_members (move_team_memberships org u (\<lambda>s. s \<noteq> REMOVED) REMOVED (clock env) db1)"
    "teams db4 = teams db1" "groups db4 = groups db1"
    "group_members db4 = filter (\<lambda>g. \<not> (gm_userId g = u \<and> group_in_org db1 (o_id org) (gm_groupId g))) (group_members db1)"
    using update_org_member_frames(3,4)[OF db4] update_org_member_frames(6,7)[OF db4]
    by (simp_all add: delete_group_memberships_def group_in_org_def)
  show ?thesis
    unfolding out_of_organisation_def db' revoke_frames
  proof (intro conjI ballI impI, goal_cases)
    case (1 m)
    then show ?case using status_written[OF db4 lm3] lm by simp
  next
    case (2 m)
    then have "team_in_org db1 (o_id org) (tm_teamId m)" by (simp add: team_in_org_def frames)
    with 2 show ?case using moved[of m org u "\<lambda>s. s \<noteq> REMOVED" REMOVED] by (metis frames(1))
  next
    case (3 g)
    then show ?case by (simp add: frames group_in_org_def)
  next
    case (4 r)
    then show ?case using revoked_sessions by blast
  qed
qed

lemma out_of_organisation_audit [simp]:
  "out_of_organisation org u (auditOrg env a row db) = out_of_organisation org u db"
  by (simp add: out_of_organisation_def team_in_org_def group_in_org_def)

text \<open>
  C7: whatever else commits while the request waits for its locks, when a member has been removed
  the membership is a tombstone, no team membership of theirs in the organisation survives
  undeleted, no group membership is left, and every session of theirs that carries the
  organisation or belongs to its domain is revoked.
\<close>

theorem removal_leaves_nothing_in_force:
  assumes "removeOrganisationMember env p u db = (Inr ok, db')"
  shows "\<exists>org \<in> set (organisations db). o_id org = js_trim (rq_orgId p) \<and>
    (\<forall>m \<in> set (org_members db'). om_orgId m = o_id org \<longrightarrow> om_userId m = js_trim u \<longrightarrow> om_status m = REMOVED) \<and>
    (\<forall>m \<in> set (team_members db'). tm_userId m = js_trim u \<longrightarrow> team_in_org db' (o_id org) (tm_teamId m) \<longrightarrow>
       tm_status m = REMOVED) \<and>
    (\<forall>g \<in> set (group_members db'). \<not> (gm_userId g = js_trim u \<and> group_in_org db' (o_id org) (gm_groupId g))) \<and>
    (\<forall>r \<in> set (rt_rows (sessions db')). rt_userId r = js_trim u \<longrightarrow>
       rt_orgId r = Some (o_id org) \<or> rt_domain r = o_domain org \<longrightarrow> rt_revokedAt r \<noteq> None)"
proof -
  from assms obtain x d row where checks: "remove_member_checks env p (js_trim u) db = Inr x"
    and tx: "remove_member_tx env (fst (snd x)) (js_trim u) (awaitLock env db) = Inr ((), d)"
    and out: "db' = auditOrg env (rq_actor p) row d"
    unfolding removeOrganisationMember_def Let_def case_prod_beta' handler_Inr by auto
  define org where "org = fst (snd x)"
  from checks have "org \<in> set (organisations db)" "o_id org = js_trim (rq_orgId p)"
    by (auto simp: org_def remove_member_checks_def Let_def step_simps dest!: resolved_org_id)
  moreover have "out_of_organisation org (js_trim u) db'"
    using remove_member_tx_out[OF tx] by (simp add: out org_def)
  ultimately show ?thesis unfolding out_of_organisation_def by blast
qed

definition demo_session :: "string \<Rightarrow> string \<Rightarrow> refresh_row" where
  "demo_session u team =
     \<lparr>rt_id = 0, rt_tokenHash = ''h'', rt_familyId = ''f'', rt_parentTokenId = None, rt_userId = u,
      rt_domain = ''other'', rt_clientId = ''c'', rt_configUrl = ''url'', rt_createdAt = 0,
      rt_expiresAt = 1000, rt_revokedAt = None, rt_securityRevokedAt = None,
      rt_replacedByTokenId = None, rt_orgId = Some ''a'', rt_teamId = Some team,
      rt_twoFaCompleted = False, rt_lastUsedAt = None\<rparr>"

definition demo_org :: organisation where
  "demo_org = \<lparr>o_id = ''a'', o_domain = ''shop'', o_name = ''Acme'', o_slug = ''acme'', o_ownerId = ''ann'',
     o_memberInvites = Invites_Disabled, o_iconUrl = None, o_createdAt = 0, o_updatedAt = 0\<rparr>"

text \<open>Ann owns the organisation; Bob is its admin, in two teams, signed in from another product.\<close>

definition demo_db :: org_db where
  "demo_db = empty_org_db\<lparr>
     organisations := [demo_org],
     org_members := [new_member ''m1'' ''a'' ''ann'' ''owner'' 0, new_member ''m2'' ''a'' ''bob'' ''admin'' 0],
     teams := [(new_team ''g'' ''a'' ''General'' ''general'' 0)\<lparr>t_isDefault := True\<rparr>,
               new_team ''h'' ''a'' ''Hats'' ''hats'' 0],
     team_members := [new_team_member ''x1'' ''g'' ''ann'' ''member'' 0,
       new_team_member ''x2'' ''g'' ''bob'' ''member'' 0, new_team_member ''x3'' ''h'' ''bob'' ''admin'' 0],
     users := [plain_user ''ann'' None, plain_user ''bob'' None],
     sessions := empty_sessions\<lparr>rt_rows := [demo_session ''bob'' ''h'']\<rparr>\<rparr>"

abbreviation demo_removal :: "(thrown + bool) \<times> org_db" where
  "demo_removal \<equiv> removeOrganisationMember (demo_env ''z'' 5) (demo_request (Some ''ann'')) '' bob'' demo_db"

theorem removal_leaves_nothing_in_force_witness:
  "fst demo_removal = Inr True \<and> length (rt_rows (sessions (snd demo_removal))) = 1 \<and>
   rt_revokedAt (hd (rt_rows (sessions (snd demo_removal)))) \<noteq> None"
proof -
  have ok: "fst demo_removal = Inr True" by code_simp
  have rows: "map (\<lambda>r. (rt_userId r, rt_orgId r)) (rt_rows (sessions (snd demo_removal))) = [(''bob'', Some ''a'')]"
    by code_simp
  have trims: "js_trim '' bob'' = ''bob''" "js_trim (rq_orgId (demo_request (Some ''ann''))) = ''a''" by code_simp+
  from rows obtain r where r: "rt_rows (sessions (snd demo_removal)) = [r]" "rt_userId r = ''bob''" "rt_orgId r = Some ''a''"
    by (auto simp: map_eq_Cons_conv)
  from ok have "demo_removal = (Inr True, snd demo_removal)" by (metis prod.collapse)
  from removal_leaves_nothing_in_force[OF this] trims r
  have "rt_revokedAt r \<noteq> None" by auto
  with ok r show ?thesis by simp
qed

subsection \<open>Deactivation is a round trip\<close>

definition member_state :: "org_member \<Rightarrow> string \<times> string \<times> string \<times> string \<times> membership_status" where
  "member_state m = (om_id m, om_orgId m, om_userId m, om_role m, om_status m)"

definition team_member_state ::
  "team_member \<Rightarrow> string \<times> string \<times> string \<times> string \<times> membership_status" where
  "team_member_state m = (tm_id m, tm_teamId m, tm_userId m, tm_teamRole m, tm_status m)"

lemma status_round_trip:
  assumes inv: "org_inv db" and lm: "lm \<in> set (org_members db)" "om_status lm = ACTIVE"
    and u1: "update_org_member (om_id lm) (set_status DEACTIVATED t) db = Inr db1"
    and u2: "update_org_member (om_id lm) (set_status ACTIVE t') db1' = Inr db2"
    and same: "org_members db1' = org_members db1"
  shows "map member_state (org_members db2) = map member_state (org_members db)"
proof -
  have "org_members db2 = update_where (\<lambda>m. om_id m = om_id lm) (set_status ACTIVE t')
      (update_where (\<lambda>m. om_id m = om_id lm) (set_status DEACTIVATED t) (org_members db))"
    using update_org_member_frames(1)[OF u1] update_org_member_frames(1)[OF u2] same by simp
  moreover have "om_status m = ACTIVE" if "m \<in> set (org_members db)" "om_id m = om_id lm" for m
    using member_by_id[OF inv lm(1) that] lm(2) by simp
  ultimately show ?thesis
    by (auto simp: update_where_def member_state_def set_status_def)
qed

lemma team_status_round_trip:
  assumes none: "\<And>m. m \<in> set (team_members db) \<Longrightarrow> tm_userId m = u \<Longrightarrow> tm_status m \<noteq> DEACTIVATED"
    and same: "team_members db1 = team_members (move_team_memberships org u (\<lambda>s. s = ACTIVE) DEACTIVATED t db)"
      "teams db1 = teams db"
  shows "map team_member_state (team_members (move_team_memberships org u (\<lambda>s. s = DEACTIVATED) ACTIVE t' db1)) =
    map team_member_state (team_members db)"
  using none
  by (auto simp: move_team_memberships_def update_team_members_def update_where_def same
      team_in_org_def team_member_state_def set_team_status_def)

lemma deactivate_success:
  assumes "deactivateOrganisationMember env p u db = (Inr x, db')"
  obtains org lm d1 where "resolveOrganisation db (rq_orgId p) = Inr org"
    and "findMember (awaitLock env db) (active_member (o_id org) (js_trim u)) = Some lm"
    and "om_role lm \<noteq> ''owner''"
    and "update_org_member (om_id lm) (set_status DEACTIVATED (clock env)) (awaitLock env db) = Inr d1"
    and "\<exists>row. db' = auditOrg env (rq_actor p) row (revoke_member_sessions (js_trim u) org (clock env)
           (move_team_memberships org (js_trim u) (\<lambda>s. s = ACTIVE) DEACTIVATED (clock env) d1))"
  using assms
  unfolding deactivateOrganisationMember_def Let_def case_prod_beta' handler_Inr deactivate_tx_def
    lifecycle_checks_def step_simps check_Inr
  by auto

lemma reactivate_success:
  assumes "reactivateOrganisationMember env p u db = (Inr x, db')"
  obtains org lm d1 where "resolveOrganisation db (rq_orgId p) = Inr org"
    and "findMember (awaitLock env db) (\<lambda>m. om_orgId m = o_id org \<and> om_userId m = js_trim u \<and>
           om_status m = DEACTIVATED) = Some lm"
    and "update_org_member (om_id lm) (set_status ACTIVE (clock env)) (awaitLock env db) = Inr d1"
    and "\<exists>row. db' = auditOrg env (rq_actor p) row
           (move_team_memberships org (js_trim u) (\<lambda>s. s = DEACTIVATED) ACTIVE (clock env) d1)"
  using assms
  unfolding reactivateOrganisationMember_def Let_def case_prod_beta' handler_Inr reactivate_tx_def
    lifecycle_checks_def step_simps
  by auto

lemma move_audit_members:
  "team_members (move_team_memberships org u from to now db) =
   team_members (move_team_memberships org u from to now db')"
  if "team_members db = team_members db'" "teams db = teams db'"
  using that by (simp add: move_team_memberships_def update_team_members_def team_in_org_def)

text \<open>
  C33: deactivating a member and reactivating them, with nothing in between, gives every
  organisation and team membership back its state (the user having had no deactivated team
  membership before), while the sessions revoked by the deactivation stay revoked: the member
  holds no live session of the organisation or its domain and has to sign in again.
\<close>

theorem deactivation_round_trip:
  assumes "org_inv db" and "awaitLock env db = db" and "awaitLock env' db1 = db1"
    and "\<And>m. m \<in> set (team_members db) \<Longrightarrow> tm_userId m = js_trim u \<Longrightarrow> tm_status m \<noteq> DEACTIVATED"
    and "deactivateOrganisationMember env p u db = (Inr x, db1)"
    and "reactivateOrganisationMember env' p u db1 = (Inr y, db2)"
  shows "map member_state (org_members db2) = map member_state (org_members db) \<and>
    map team_member_state (team_members db2) = map team_member_state (team_members db) \<and>
    (\<exists>org \<in> set (organisations db). o_id org = js_trim (rq_orgId p) \<and>
       (\<forall>r \<in> set (rt_rows (sessions db2)). rt_userId r = js_trim u \<longrightarrow>
          rt_orgId r = Some (o_id org) \<or> rt_domain r = o_domain org \<longrightarrow> rt_revokedAt r \<noteq> None))"
proof -
  let ?u = "js_trim u"
  from assms(5) obtain org lm d1 row where org: "resolveOrganisation db (rq_orgId p) = Inr org"
    and f1: "findMember db (active_member (o_id org) ?u) = Some lm"
    and u1: "update_org_member (om_id lm) (set_status DEACTIVATED (clock env)) db = Inr d1"
    and db1: "db1 = auditOrg env (rq_actor p) row (revoke_member_sessions ?u org (clock env)
           (move_team_memberships org ?u (\<lambda>s. s = ACTIVE) DEACTIVATED (clock env) d1))"
    by (elim deactivate_success exE) (simp add: assms(2))
  from assms(6) obtain org' lm' d2 row' where org': "resolveOrganisation db1 (rq_orgId p) = Inr org'"
    and f2: "findMember db1 (\<lambda>m. om_orgId m = o_id org' \<and> om_userId m = ?u \<and>
           om_status m = DEACTIVATED) = Some lm'"
    and u2: "update_org_member (om_id lm') (set_status ACTIVE (clock env')) db1 = Inr d2"
    and db2: "db2 = auditOrg env' (rq_actor p) row'
           (move_team_memberships org' ?u (\<lambda>s. s = DEACTIVATED) ACTIVE (clock env') d2)"
    by (elim reactivate_success exE) (simp add: assms(3))
  note fr1 = update_org_member_frames[OF u1] and fr2 = update_org_member_frames[OF u2]
  have orgs: "organisations db1 = organisations db"
    by (simp add: db1 fr1 revoke_member_sessions_def)
  have found: "findOrg db1 = findOrg db" by (intro ext) (simp only: findOrg_def orgs)
  have "resolveOrganisation db1 j = resolveOrganisation db j" for j
    unfolding resolveOrganisation_def found ..
  with org org' have same_org: "org' = org" by simp
  have lm: "lm \<in> set (org_members db)" "om_orgId lm = o_id org" "om_userId lm = ?u" "om_status lm = ACTIVE"
    using findMember_Some[OF f1] by auto
  have mems1: "org_members db1 = org_members d1" by (simp add: db1)
  have "lm' \<in> set (org_members d1)" "om_orgId lm' = om_orgId lm" "om_userId lm' = om_userId lm"
    using findMember_Some[OF f2] lm by (auto simp: mems1 same_org)
  moreover have "set_status DEACTIVATED (clock env) lm \<in> set (org_members d1)"
    using lm(1) by (auto simp: fr1(1) set_update_where)
  ultimately have "lm' = set_status DEACTIVATED (clock env) lm"
    using member_key_unique[OF fr1(5)] by (simp add: set_status_def)
  then have id: "om_id lm' = om_id lm" by (simp add: set_status_def)
  have "map member_state (org_members db2) = map member_state (org_members db)"
    using status_round_trip[OF assms(1) lm(1,4) u1 u2[unfolded id] mems1] by (simp add: db2)
  moreover have "map team_member_state (team_members db2) = map team_member_state (team_members db)"
  proof -
    have "team_members d2 = team_members (move_team_memberships org ?u (\<lambda>s. s = ACTIVE) DEACTIVATED (clock env) db)"
      using move_audit_members[of d1 db] by (simp add: fr2 db1 fr1)
    from team_status_round_trip[OF assms(4) this] show ?thesis
      by (simp add: db2 same_org fr2 fr1 db1)
  qed
  moreover have "sessions db2 = sessions db1" by (simp add: db2 fr2)
  moreover have "sessions db1 = sessions (revoke_member_sessions ?u org (clock env)
      (move_team_memberships org ?u (\<lambda>s. s = ACTIVE) DEACTIVATED (clock env) d1))"
    by (simp add: db1)
  ultimately show ?thesis using resolved_org_id[OF org] revoked_sessions by metis
qed

abbreviation demo_deactivation :: "(thrown + bool) \<times> org_db" where
  "demo_deactivation \<equiv> deactivateOrganisationMember (demo_env ''z'' 5) (demo_request (Some ''ann'')) ''bob'' demo_db"

abbreviation demo_reactivation :: "(thrown + bool) \<times> org_db" where
  "demo_reactivation \<equiv>
     reactivateOrganisationMember (demo_env ''z'' 6) (demo_request (Some ''ann'')) ''bob'' (snd demo_deactivation)"

lemma demo_db_inv: "org_inv demo_db"
  unfolding org_inv_def by (intro conjI) code_simp+

theorem deactivation_round_trip_witness:
  "fst demo_deactivation = Inr True \<and> fst demo_reactivation = Inr True \<and>
   map member_state (org_members (snd demo_reactivation)) = map member_state (org_members demo_db)"
proof -
  have 1: "fst demo_deactivation = Inr True" and 2: "fst demo_reactivation = Inr True" by code_simp+
  have lock: "awaitLock (demo_env ''z'' n) d = d" for n d by (simp add: demo_env_def)
  have "list_all (\<lambda>m. tm_status m \<noteq> DEACTIVATED) (team_members demo_db)" by code_simp
  then have none: "tm_status m \<noteq> DEACTIVATED" if "m \<in> set (team_members demo_db)" for m
    using that by (simp add: list_all_iff)
  from 1 have d1: "demo_deactivation = (Inr True, snd demo_deactivation)" by (metis prod.collapse)
  from 2 have d2: "demo_reactivation = (Inr True, snd demo_reactivation)" by (metis prod.collapse)
  from deactivation_round_trip[OF demo_db_inv lock lock none d1 d2]
  have "map member_state (org_members (snd demo_reactivation)) = map member_state (org_members demo_db)"
    by blast
  with 1 2 show ?thesis by blast
qed

end
