(* ===== verification/Org_Authority.thy ===== *)
theory Org_Authority
  imports Org_Properties
begin

section \<open>Who may change a roster, and what an addition does\<close>

text \<open>
  Authority: the standing every successful request of a user rests on. Outcome: what adding a
  member checks and writes.
\<close>

subsection \<open>Authority\<close>

definition acting :: "org_db \<Rightarrow> org_request \<Rightarrow> string \<Rightarrow> organisation \<Rightarrow> org_member \<Rightarrow> bool" where
  "acting db p a org m \<longleftrightarrow>
     org \<in> set (organisations db) \<and> o_id org = js_trim (rq_orgId p) \<and> m \<in> set (org_members db) \<and>
     om_orgId m = o_id org \<and> om_userId m = js_trim a \<and> om_status m = ACTIVE"

lemma resolved_actor:
  "resolveOrgActor p = Inr x \<Longrightarrow> rq_actorUserId p = Some a \<Longrightarrow>
     x = Some (js_trim a) \<and> truthy (Some (js_trim a))"
  by (auto simp: resolveOrgActor_def Let_def truthy_def neq_Nil_conv split: if_splits)

lemma capability_needs_role:
  "requireOrgCapability c cap r = Inr u \<Longrightarrow> \<exists>q. r = Some q \<and> configRoleHoldsCapability c Org_Scope (Some q) cap"
  using domain_grants.absent_role[of c Org_Scope cap] by (cases r) (auto simp: requireOrgCapability_def)

lemma active_lookup:
  "getOrganisationMember db orgId a True = Some m \<Longrightarrow>
     m \<in> set (org_members db) \<and> om_orgId m = orgId \<and> om_userId m = a \<and> om_status m = ACTIVE"
  by (auto simp: getOrganisationMember_def dest!: findMember_Some)

lemma capability_of_actor:
  assumes "requireOrgCapability c cap (map_option om_role (getOrganisationMember db (o_id org) a True)) = Inr u"
  obtains m where "getOrganisationMember db (o_id org) a True = Some m"
    and "configRoleHoldsCapability c Org_Scope (Some (om_role m)) cap"
  using capability_needs_role[OF assms] that by auto

lemma add_authority:
  assumes "addOrganisationMember env p u r db = (Inr x, d)" and "rq_actorUserId p = Some a"
  shows "\<exists>org m. acting db p a org m \<and>
    configRoleHoldsCapability (rq_config p) Org_Scope (Some (om_role m)) ''members.manage'' \<and>
    (js_trim r = ''owner'' \<longrightarrow> om_role m = ''owner'')"
proof -
  from assms(1) obtain y where "add_member_checks env p (js_trim u) (js_trim r) db = Inr y"
    unfolding addOrganisationMember_def Let_def case_prod_beta' handler_Inr by auto
  then obtain org where org: "resolveOrganisation db (rq_orgId p) = Inr org"
    and cap: "requireOrgCapability (rq_config p) ''members.manage''
        (map_option om_role (getOrganisationMember db (o_id org) (js_trim a) True)) = Inr ()"
    and own: "js_trim r = ''owner'' \<longrightarrow>
        map_option om_role (getOrganisationMember db (o_id org) (js_trim a) True) = Some ''owner''"
    using resolved_actor[OF _ assms(2)] by (auto simp: add_member_checks_def Let_def step_simps)
  from cap obtain m where m: "getOrganisationMember db (o_id org) (js_trim a) True = Some m"
    "configRoleHoldsCapability (rq_config p) Org_Scope (Some (om_role m)) ''members.manage''"
    by (rule capability_of_actor)
  with resolved_org_id[OF org] active_lookup[OF m(1)] own show ?thesis
    unfolding acting_def by (intro exI[of _ org] exI[of _ m]) auto
qed

lemma remove_authority:
  assumes "removeOrganisationMember env p u db = (Inr x, d)" and "rq_actorUserId p = Some a"
  shows "\<exists>org m. acting db p a org m \<and>
    configRoleHoldsCapability (rq_config p) Org_Scope (Some (om_role m)) ''members.manage'' \<and>
    (\<exists>n \<in> set (org_members db). om_orgId n = o_id org \<and> om_userId n = js_trim u \<and>
       (om_role n = ''owner'' \<longrightarrow> om_role m = ''owner'' \<and> 1 < active_owner_count db (o_id org)))"
proof -
  from assms(1) obtain y where "remove_member_checks env p (js_trim u) db = Inr y"
    unfolding removeOrganisationMember_def Let_def case_prod_beta' handler_Inr by auto
  then obtain org n where org: "resolveOrganisation db (rq_orgId p) = Inr org"
    and cap: "requireOrgCapability (rq_config p) ''members.manage''
        (map_option om_role (getOrganisationMember db (o_id org) (js_trim a) True)) = Inr ()"
    and n: "getOrganisationMember db (o_id org) (js_trim u) False = Some n"
    and own: "om_role n = ''owner'' \<longrightarrow>
        getOrganisationMember db (o_id org) (js_trim a) True = None \<or>
        map_option om_role (getOrganisationMember db (o_id org) (js_trim a) True) = Some ''owner''"
      "om_role n = ''owner'' \<longrightarrow> \<not> active_owner_count db (o_id org) \<le> Suc 0"
    using resolved_actor[OF _ assms(2)] by (auto simp: remove_member_checks_def Let_def step_simps)
  from cap obtain m where m: "getOrganisationMember db (o_id org) (js_trim a) True = Some m"
    "configRoleHoldsCapability (rq_config p) Org_Scope (Some (om_role m)) ''members.manage''"
    by (rule capability_of_actor)
  have "n \<in> set (org_members db) \<and> om_orgId n = o_id org \<and> om_userId n = js_trim u"
    using n by (auto simp: getOrganisationMember_def dest!: findMember_Some)
  with resolved_org_id[OF org] active_lookup[OF m(1)] own m show ?thesis
    unfolding acting_def by (intro exI[of _ org] exI[of _ m]) auto
qed

lemma lifecycle_authority:
  assumes "lifecycle_checks env p u s db = Inr y" and "rq_actorUserId p = Some a"
  shows "\<exists>org m. acting db p a org m \<and>
    configRoleHoldsCapability (rq_config p) Org_Scope (Some (om_role m)) ''members.manage''"
proof -
  from assms(1) obtain org where org: "resolveOrganisation db (rq_orgId p) = Inr org"
    and cap: "requireOrgCapability (rq_config p) ''members.manage''
        (map_option om_role (getOrganisationMember db (o_id org) (js_trim a) True)) = Inr ()"
    using resolved_actor[OF _ assms(2)]
    by (auto simp: lifecycle_checks_def requireOrgMemberManager_def step_simps)
  from cap obtain m where m: "getOrganisationMember db (o_id org) (js_trim a) True = Some m"
    "configRoleHoldsCapability (rq_config p) Org_Scope (Some (om_role m)) ''members.manage''"
    by (rule capability_of_actor)
  with resolved_org_id[OF org] active_lookup[OF m(1)] show ?thesis
    unfolding acting_def by (intro exI[of _ org] exI[of _ m]) auto
qed

lemma owner_only:
  "changeOrganisationMemberRole env p u r db = (Inr x, d) \<Longrightarrow> rq_actorUserId p = Some a \<Longrightarrow>
     \<exists>org \<in> set (organisations db). o_id org = js_trim (rq_orgId p) \<and> o_ownerId org = js_trim a"
  "transferOrganisationOwnership env p w rr db = (Inr y, d) \<Longrightarrow> rq_actorUserId p = Some a \<Longrightarrow>
     \<exists>org \<in> set (organisations db). o_id org = js_trim (rq_orgId p) \<and> o_ownerId org = js_trim a"
  unfolding changeOrganisationMemberRole_def transferOrganisationOwnership_def Let_def case_prod_beta'
    handler_Inr
  by (auto simp: change_role_checks_def transfer_checks_def Let_def step_simps
      dest!: resolved_org_id resolved_actor)

text \<open>
  C31: a roster request of a user succeeds only for an active member of that organisation whose
  role holds \<open>members.manage\<close> - for adding, removing, deactivating and reactivating alike; granting
  or removing the role \<open>owner\<close> takes an active owner and, for a removal, a second one; changing
  roles and transferring the organisation take its owner.
\<close>

theorem roster_authority:
  assumes "rq_actorUserId p = Some a"
  shows "(addOrganisationMember env p u r db = (Inr x1, d) \<longrightarrow>
      (\<exists>org m. acting db p a org m \<and>
         configRoleHoldsCapability (rq_config p) Org_Scope (Some (om_role m)) ''members.manage'' \<and>
         (js_trim r = ''owner'' \<longrightarrow> om_role m = ''owner''))) \<and>
    (removeOrganisationMember env p u db = (Inr x2, d) \<longrightarrow>
      (\<exists>org m. acting db p a org m \<and>
         configRoleHoldsCapability (rq_config p) Org_Scope (Some (om_role m)) ''members.manage'' \<and>
         (\<exists>n \<in> set (org_members db). om_orgId n = o_id org \<and> om_userId n = js_trim u \<and>
            (om_role n = ''owner'' \<longrightarrow> om_role m = ''owner'' \<and> 1 < active_owner_count db (o_id org))))) \<and>
    (deactivateOrganisationMember env p u db = (Inr x3, d) \<or>
     reactivateOrganisationMember env p u db = (Inr x3, d) \<longrightarrow>
      (\<exists>org m. acting db p a org m \<and>
         configRoleHoldsCapability (rq_config p) Org_Scope (Some (om_role m)) ''members.manage'')) \<and>
    (changeOrganisationMemberRole env p u r db = (Inr x4, d) \<or>
     transferOrganisationOwnership env p u rr db = (Inr x5, d) \<longrightarrow>
      (\<exists>org \<in> set (organisations db). o_id org = js_trim (rq_orgId p) \<and> o_ownerId org = js_trim a))"
proof (intro conjI impI, goal_cases)
  case 1 then show ?case using add_authority assms by blast
next
  case 2 then show ?case using remove_authority assms by blast
next
  case 3
  then obtain s y where "lifecycle_checks env p (js_trim u) s db = Inr y"
    unfolding deactivateOrganisationMember_def reactivateOrganisationMember_def Let_def
      case_prod_beta' handler_Inr by (auto simp: step_simps)
  with lifecycle_authority assms show ?case by blast
next
  case 4 then show ?case using owner_only assms by blast
qed

theorem roster_authority_witness:
  "fst (addOrganisationMember (demo_env ''z'' 5) (demo_request (Some ''bob'')) ''ann'' ''owner'' demo_db)
     = refuse FORBIDDEN 403 \<and>
   (\<exists>org m. acting demo_db (demo_request (Some ''ann'')) ''ann'' org m)"
proof -
  have 1: "fst (addOrganisationMember (demo_env ''z'' 5) (demo_request (Some ''bob'')) ''ann'' ''owner'' demo_db)
     = refuse FORBIDDEN 403" by code_simp
  have "fst demo_removal = Inr True" by code_simp
  then have "demo_removal = (Inr True, snd demo_removal)" by (metis prod.collapse)
  moreover have "rq_actorUserId (demo_request (Some ''ann'')) = Some ''ann''" by (simp add: demo_request_def)
  ultimately have "\<exists>org m. acting demo_db (demo_request (Some ''ann'')) ''ann'' org m"
    using roster_authority[of "demo_request (Some ''ann'')" "''ann''" "demo_env ''z'' 5" "'' bob''" _ demo_db _
        "snd demo_removal" True] by blast
  with 1 show ?thesis by blast
qed

end
