(* ===== verification/Org_Outcomes.thy ===== *)
theory Org_Outcomes
  imports Org_Authority
begin

section \<open>Outcomes of roster and team requests\<close>

text \<open>
  What a successful addition has checked and written and what a team removal leaves.
\<close>

subsection \<open>Adding a member\<close>

abbreviation active_in :: "string \<Rightarrow> org_member \<Rightarrow> bool" where
  "active_in orgId m \<equiv> om_orgId m = orgId \<and> om_status m = ACTIVE"

lemma count_where_update_one:
  assumes "distinct (map om_id ms)" and "m \<in> set ms" and "\<not> P m" and "P (f m)"
  shows "count_where P (update_where (\<lambda>n. om_id n = om_id m) f ms) = Suc (count_where P ms)"
  using assms(1,2)
proof (induction ms)
  case (Cons n ms)
  show ?case
  proof (cases "om_id n = om_id m")
    case True
    then have "n = m" and rest: "m \<notin> set ms" "\<And>k. k \<in> set ms \<Longrightarrow> om_id k \<noteq> om_id m"
      using Cons.prems by (auto simp: image_iff)
    then have "update_where (\<lambda>n. om_id n = om_id m) f ms = ms" by (intro update_where_none)
    then show ?thesis using \<open>n = m\<close> assms(3,4) by simp
  qed (use Cons in auto)
qed simp

lemma org_members_of_team_writes:
  "create_team_member tm db = Inr db' \<Longrightarrow> org_members db' = org_members db"
  "reactivate_default_team_membership env t u db = Inr db' \<Longrightarrow> org_members db' = org_members db"
  by (auto simp: create_team_member_def reactivate_default_team_membership_def update_team_member_def
      update_team_members_def split: if_splits option.splits)

lemma default_membership_active:
  "create_team_member (new_team_member i t u q now) db = Inr db' \<Longrightarrow>
     \<exists>m \<in> set (team_members db'). tm_teamId m = t \<and> tm_userId m = u \<and> tm_status m = ACTIVE"
  by (auto simp: create_team_member_def new_team_member_def split: if_splits)

lemma reactivated_membership_active:
  assumes "reactivate_default_team_membership env t u db = Inr db'"
  shows "\<exists>m \<in> set (team_members db'). tm_teamId m = t \<and> tm_userId m = u \<and> tm_status m = ACTIVE"
proof (cases "findTeamMember db (\<lambda>m. tm_teamId m = t \<and> tm_userId m = u)")
  case None
  with assms default_membership_active show ?thesis
    by (simp add: reactivate_default_team_membership_def)
next
  case (Some m)
  from findTeamMember_Some[OF Some]
  have "set_team_status ACTIVE (clock env) m \<in> set (team_members db')"
    using assms Some
    by (auto simp: reactivate_default_team_membership_def update_team_member_def
        update_team_members_def set_update_where split: if_splits)
  with findTeamMember_Some[OF Some] show ?thesis
    by (intro bexI[of _ "set_team_status ACTIVE (clock env) m"]) (auto simp: set_team_status_def)
qed

lemma add_member_tx_outcome:
  assumes tx: "add_member_tx env c org u r db = Inr ((m, re), db')" and inv: "org_inv db"
  shows "om_orgId m = o_id org \<and> om_userId m = u \<and> om_role m = r \<and> om_status m = ACTIVE \<and>
      m \<in> set (org_members db')"
    and "\<forall>n \<in> set (org_members db). om_userId n = u \<longrightarrow> om_status n = ACTIVE \<longrightarrow>
      org_domain db (om_orgId n) \<noteq> Some (o_domain org) \<and> om_orgId n \<noteq> o_id org"
    and "count_where (active_in (o_id org)) (org_members db') =
      Suc (count_where (active_in (o_id org)) (org_members db))"
    and "count_where (active_in (o_id org)) (org_members db) < parseOrgLimit c"
    and "\<exists>t \<in> set (teams db). t_orgId t = o_id org \<and> t_isDefault t \<and>
      (\<exists>k \<in> set (team_members db'). tm_teamId k = t_id t \<and> tm_userId k = u \<and> tm_status k = ACTIVE)"
proof -
  let ?existing = "findMember db (\<lambda>m. om_orgId m = o_id org \<and> om_userId m = u)"
  from tx obtain t where t: "findTeam db (\<lambda>t. t_orgId t = o_id org \<and> t_isDefault t) = Some t"
    and elsewhere: "findMember db (\<lambda>m. om_userId m = u \<and> om_status m = ACTIVE \<and>
       org_domain db (om_orgId m) = Some (o_domain org)) = None"
    and cap: "count_where (active_in (o_id org)) (org_members db) < parseOrgLimit c"
    and inactive: "case ?existing of Some m \<Rightarrow> om_status m \<noteq> ACTIVE | None \<Rightarrow> True"
    unfolding add_member_tx_def Let_def step_simps check_Inr by auto
  show "count_where (active_in (o_id org)) (org_members db) < parseOrgLimit c" by (rule cap)
  have here: "om_status n \<noteq> ACTIVE"
    if "n \<in> set (org_members db)" "om_orgId n = o_id org" "om_userId n = u" for n
  proof (cases ?existing)
    case None
    with that show ?thesis by (auto simp: findMember_None)
  next
    case (Some k)
    from findMember_Some[OF this] have "k = n"
      using member_key_unique[OF inv_ids(5)[OF inv], of k n] that by simp
    with Some inactive show ?thesis by simp
  qed
  then show "\<forall>n \<in> set (org_members db). om_userId n = u \<longrightarrow> om_status n = ACTIVE \<longrightarrow>
      org_domain db (om_orgId n) \<noteq> Some (o_domain org) \<and> om_orgId n \<noteq> o_id org"
    using elsewhere by (auto simp: findMember_None)
  have team: "t \<in> set (teams db)" "t_orgId t = o_id org" "t_isDefault t" using findTeam_Some[OF t] by auto
  have "(om_orgId m = o_id org \<and> om_userId m = u \<and> om_role m = r \<and> om_status m = ACTIVE \<and>
        m \<in> set (org_members db')) \<and>
      count_where (active_in (o_id org)) (org_members db') =
        Suc (count_where (active_in (o_id org)) (org_members db)) \<and>
      (\<exists>k \<in> set (team_members db'). tm_teamId k = t_id t \<and> tm_userId k = u \<and> tm_status k = ACTIVE)"
  proof (cases ?existing)
    case None
    with tx t obtain db1 where m: "m = new_member (fresh_id env 0) (o_id org) u r (clock env)"
      and crt: "create_org_member m db = Inr db1"
      and tm: "create_team_member (new_team_member (fresh_id env 1) (t_id t) u ''member'' (clock env)) db1 = Inr db'"
      by (auto simp: add_member_tx_def Let_def step_simps)
    have "org_members db' = org_members db @ [m]"
      using crt org_members_of_team_writes(1)[OF tm] by (auto simp: create_org_member_def split: if_splits)
    then show ?thesis using default_membership_active[OF tm] m by (simp add: new_member_def)
  next
    case (Some e)
    let ?f = "\<lambda>q. set_status ACTIVE (clock env) (set_role r (clock env) q)"
    from tx t Some obtain db1 where m: "m = ?f e"
      and upd: "update_org_member (om_id e) ?f db = Inr db1"
      and tm: "reactivate_default_team_membership env (t_id t) u db1 = Inr db'"
      by (auto simp: add_member_tx_def Let_def step_simps)
    from findMember_Some[OF Some] have e: "e \<in> set (org_members db)" "om_orgId e = o_id org" "om_userId e = u"
      by auto
    have mems: "org_members db' = update_where (\<lambda>n. om_id n = om_id e) ?f (org_members db)"
      using update_org_member_frames(1)[OF upd] org_members_of_team_writes(2)[OF tm] by simp
    have "count_where (active_in (o_id org)) (org_members db') =
        Suc (count_where (active_in (o_id org)) (org_members db))"
      unfolding mems using inv_ids(2)[OF inv] e(1)
      by (rule count_where_update_one) (use e here[OF e] in \<open>simp_all add: set_status_def set_role_def\<close>)
    moreover have "m \<in> set (org_members db')" using e(1) by (auto simp: m mems set_update_where)
    ultimately show ?thesis
      using reactivated_membership_active[OF tm] m e by (simp add: set_status_def set_role_def)
  qed
  then show "om_orgId m = o_id org \<and> om_userId m = u \<and> om_role m = r \<and> om_status m = ACTIVE \<and>
      m \<in> set (org_members db')"
    "count_where (active_in (o_id org)) (org_members db') =
      Suc (count_where (active_in (o_id org)) (org_members db))"
    "\<exists>t \<in> set (teams db). t_orgId t = o_id org \<and> t_isDefault t \<and>
      (\<exists>k \<in> set (team_members db'). tm_teamId k = t_id t \<and> tm_userId k = u \<and> tm_status k = ACTIVE)"
    using team by blast+
qed

text \<open>
  C32: a successful addition makes the user an active member with the requested role, in the default
  team; before it the user was active in no organisation of the domain; and it raises the number
  of active members by exactly one, never above the configured cap.
\<close>

theorem add_member_outcome:
  assumes "addOrganisationMember env p u r db = (Inr x, db')" and "org_inv (awaitLock env db)"
  shows "\<exists>org \<in> set (organisations db). o_id org = js_trim (rq_orgId p) \<and>
    omr_userId x = js_trim u \<and> omr_role x = js_trim r \<and> omr_status x = ACTIVE \<and>
    (\<exists>m \<in> set (org_members db'). om_id m = omr_id x \<and> om_orgId m = o_id org \<and> om_userId m = js_trim u \<and>
       om_role m = js_trim r \<and> om_status m = ACTIVE) \<and>
    (\<exists>t \<in> set (teams (awaitLock env db)). t_orgId t = o_id org \<and> t_isDefault t \<and>
       (\<exists>k \<in> set (team_members db'). tm_teamId k = t_id t \<and> tm_userId k = js_trim u \<and> tm_status k = ACTIVE)) \<and>
    (\<forall>n \<in> set (org_members (awaitLock env db)). om_userId n = js_trim u \<longrightarrow> om_status n = ACTIVE \<longrightarrow>
       org_domain (awaitLock env db) (om_orgId n) \<noteq> Some (o_domain org)) \<and>
    count_where (active_in (o_id org)) (org_members db') =
      Suc (count_where (active_in (o_id org)) (org_members (awaitLock env db))) \<and>
    count_where (active_in (o_id org)) (org_members db') \<le> parseOrgLimit (rq_config p)"
proof -
  from assms(1) obtain y v d row where y: "add_member_checks env p (js_trim u) (js_trim r) db = Inr y"
    and tx: "add_member_tx env (rq_config p) (snd y) (js_trim u) (js_trim r) (awaitLock env db) = Inr (v, d)"
    and x: "x = toMemberRecord env (fst v) (o_domain (snd y))" and db': "db' = auditOrg env (rq_actor p) row d"
    unfolding addOrganisationMember_def Let_def case_prod_beta' handler_Inr by auto
  from y have org: "snd y \<in> set (organisations db)" "o_id (snd y) = js_trim (rq_orgId p)"
    by (auto simp: add_member_checks_def Let_def step_simps dest!: resolved_org_id)
  have tx': "add_member_tx env (rq_config p) (snd y) (js_trim u) (js_trim r) (awaitLock env db) =
      Inr ((fst v, snd v), d)" using tx by simp
  note out = add_member_tx_outcome[OF tx' assms(2)]
  show ?thesis
  proof (intro bexI[OF _ org(1)] conjI, goal_cases)
    case 5
    have "om_id (fst v) = omr_id x" by (simp add: x toMemberRecord_def)
    then show ?case using out(1) by (intro bexI[of _ "fst v"]) (simp_all add: db')
  next
    case 6 then show ?case using out(5) by (simp add: db')
  next
    case 7 then show ?case using out(2) by blast
  qed (use org out(1,3,4) in \<open>simp_all add: x toMemberRecord_def db'\<close>)
qed

definition demo_plus_cat :: org_db where
  "demo_plus_cat = demo_db\<lparr>users := users demo_db @ [plain_user ''cat'' (Some ''shop'')]\<rparr>"

abbreviation demo_addition :: "(thrown + organisation_member_record) \<times> org_db" where
  "demo_addition \<equiv>
     addOrganisationMember (demo_env ''z'' 5) (demo_request (Some ''bob'')) ''cat'' '' member '' demo_plus_cat"

theorem add_member_outcome_witness:
  "\<exists>m \<in> set (org_members (snd demo_addition)).
     om_userId m = ''cat'' \<and> om_role m = ''member'' \<and> om_status m = ACTIVE"
proof -
  have "map_sum id (\<lambda>_. ()) (fst demo_addition) = Inr ()" by code_simp
  then obtain x where "fst demo_addition = Inr x" by (cases "fst demo_addition") auto
  then have run: "demo_addition = (Inr x, snd demo_addition)" by (metis prod.collapse)
  have inv: "org_inv (awaitLock (demo_env ''z'' 5) demo_plus_cat)"
    unfolding org_inv_def by (intro conjI) code_simp+
  have "js_trim ''cat'' = ''cat''" "js_trim '' member '' = ''member''" by code_simp+
  with add_member_outcome[OF run inv] show ?thesis by auto
qed

subsection \<open>Leaving a team\<close>

lemma authorized_org: "resolveAndAuthorizeTeamOrg db i a = Inr org \<Longrightarrow> org \<in> set (organisations db)"
  by (auto simp: resolveAndAuthorizeTeamOrg_def step_simps dest!: resolved_org split: if_splits)

lemma managed_org: "team_manager env p a cap t db = Inr org \<Longrightarrow> org \<in> set (organisations db)"
  by (auto simp: team_manager_def step_simps dest!: authorized_org)

lemma remove_team_member_success:
  assumes "removeTeamMember env p t u db = (Inr x, db')"
  obtains org team m d where "org \<in> set (organisations db)" and "find_team_of db org t = Some team"
    and "findTeamMember (awaitLock env db) (\<lambda>m. tm_teamId m = t_id team \<and> tm_userId m = js_trim u \<and>
           tm_status m = ACTIVE) = Some m"
    and "1 < active_memberships (awaitLock env db) (o_id org) (js_trim u)"
    and "update_team_member (tm_id m) (set_team_status REMOVED (clock env)) (awaitLock env db) = Inr d"
    and "\<exists>row. db' = auditOrg env (rq_actor p) row (d\<lparr>sessions :=
           snd (revokeRefreshTokenFamiliesForUserTeam (js_trim u, t_id team) (clock env) (sessions d))\<rparr>)"
proof -
  from assms obtain y v d row where
    y: "and_then (assertDatabaseEnabled env) (\<lambda>_.
        and_then (resolveOrgActor p) (\<lambda>actorUserId.
        and_then (check (js_trim u \<noteq> []) BAD_REQUEST 400) (\<lambda>_.
        and_then (team_manager env p actorUserId ''members.manage'' (Some t) db) (\<lambda>org.
        and_then (require_team db org t) (\<lambda>team. Inr (actorUserId, org, team)))))) = Inr y"
    and tx: "remove_team_member_tx env (fst (snd y)) (snd (snd y)) (js_trim u) (awaitLock env db) = Inr (v, d)"
    and db': "db' = auditOrg env (rq_actor p) row d"
    unfolding removeTeamMember_def Let_def case_prod_beta' handler_Inr by auto
  from y have org: "fst (snd y) \<in> set (organisations db)"
    and team: "find_team_of db (fst (snd y)) t = Some (snd (snd y))"
    by (auto simp: step_simps require_team_def dest!: managed_org)
  from tx obtain m d1 where
    "findTeamMember (awaitLock env db) (\<lambda>m. tm_teamId m = t_id (snd (snd y)) \<and> tm_userId m = js_trim u \<and>
           tm_status m = ACTIVE) = Some m"
    "1 < active_memberships (awaitLock env db) (o_id (fst (snd y))) (js_trim u)"
    "update_team_member (tm_id m) (set_team_status REMOVED (clock env)) (awaitLock env db) = Inr d1"
    "d = d1\<lparr>sessions :=
        snd (revokeRefreshTokenFamiliesForUserTeam (js_trim u, t_id (snd (snd y))) (clock env) (sessions d1))\<rparr>"
    by (auto simp: remove_team_member_tx_def Let_def step_simps)
  with that[OF org team] db' show thesis by blast
qed

lemma count_where_drop_one:
  assumes "distinct (map tm_id ms)" and "m \<in> set ms" and "P m" and "\<not> P (f m)"
  shows "count_where P ms = Suc (count_where P (update_where (\<lambda>n. tm_id n = tm_id m) f ms))"
  using assms(1,2)
proof (induction ms)
  case (Cons n ms)
  show ?case
  proof (cases "tm_id n = tm_id m")
    case True
    then have "n = m" and rest: "\<And>k. k \<in> set ms \<Longrightarrow> tm_id k \<noteq> tm_id m"
      using Cons.prems by (auto simp: image_iff)
    then have "update_where (\<lambda>n. tm_id n = tm_id m) f ms = ms" by (intro update_where_none)
    then show ?thesis using \<open>n = m\<close> assms(3,4) by simp
  qed (use Cons in auto)
qed simp

text \<open>
  C34: a user removed from a team keeps at least one active team in the organisation, is no longer
  active in the team, and loses exactly the sessions scoped to it: every other session is the same
  row as before.
\<close>

theorem team_removal_is_scoped:
  assumes "removeTeamMember env p t u db = (Inr x, db')" and "org_inv (awaitLock env db)"
  shows "\<exists>org \<in> set (organisations db). \<exists>team \<in> set (teams db). t_id team = t \<and> t_orgId team = o_id org \<and>
    1 \<le> active_memberships db' (o_id org) (js_trim u) \<and>
    (\<forall>m \<in> set (team_members db'). tm_teamId m = t \<longrightarrow> tm_userId m = js_trim u \<longrightarrow> tm_status m = REMOVED) \<and>
    (\<forall>r \<in> set (rt_rows (sessions db')). rt_userId r = js_trim u \<longrightarrow> rt_teamId r = Some t \<longrightarrow> rt_revokedAt r \<noteq> None) \<and>
    (\<forall>r \<in> set (rt_rows (sessions (awaitLock env db))). rt_userId r \<noteq> js_trim u \<or> rt_teamId r \<noteq> Some t \<longrightarrow>
       r \<in> set (rt_rows (sessions db')))"
proof -
  let ?L = "awaitLock env db"
  from assms(1) obtain org team m d row where org: "org \<in> set (organisations db)"
    and team: "find_team_of db org t = Some team"
    and m: "findTeamMember ?L (\<lambda>m. tm_teamId m = t_id team \<and> tm_userId m = js_trim u \<and> tm_status m = ACTIVE) = Some m"
    and count: "1 < active_memberships ?L (o_id org) (js_trim u)"
    and upd: "update_team_member (tm_id m) (set_team_status REMOVED (clock env)) ?L = Inr d"
    and db': "db' = auditOrg env (rq_actor p) row (d\<lparr>sessions :=
           snd (revokeRefreshTokenFamiliesForUserTeam (js_trim u, t_id team) (clock env) (sessions d))\<rparr>)"
    by (elim remove_team_member_success exE)
  have t: "team \<in> set (teams db)" "t_id team = t" "t_orgId team = o_id org"
    using findTeam_Some[OF team[unfolded find_team_of_def]] by auto
  from findTeamMember_Some[OF m]
  have mm: "m \<in> set (team_members ?L)" "tm_teamId m = t" "tm_userId m = js_trim u" "tm_status m = ACTIVE"
    by (auto simp: t)
  have d: "team_members d = update_where (\<lambda>n. tm_id n = tm_id m) (set_team_status REMOVED (clock env)) (team_members ?L)"
    "teams d = teams ?L" "sessions d = sessions ?L"
    using upd by (auto simp: update_team_member_def update_team_members_def split: if_splits)
  have tio: "team_in_org db' = team_in_org ?L" by (intro ext) (simp add: team_in_org_def db' d)
  have ids: "distinct (map tm_id (team_members ?L))"
    and keys: "distinct (map (\<lambda>m. (tm_teamId m, tm_userId m)) (team_members ?L))"
    using inv_ids(4,6)[OF assms(2)] by (simp_all add: team_member_index_ok_def)
  show ?thesis
  proof (intro bexI[OF _ org] bexI[OF _ t(1)] conjI ballI impI, goal_cases)
    case 3
    have "active_memberships ?L (o_id org) (js_trim u) \<le> Suc (active_memberships db' (o_id org) (js_trim u))"
    proof (cases "team_in_org ?L (o_id org) t")
      case True
      have "active_memberships ?L (o_id org) (js_trim u) = Suc (active_memberships db' (o_id org) (js_trim u))"
        unfolding active_memberships_def tio
        using count_where_drop_one[OF ids mm(1), of "\<lambda>m. tm_userId m = js_trim u \<and>
            team_in_org ?L (o_id org) (tm_teamId m) \<and> tm_status m = ACTIVE"
            "set_team_status REMOVED (clock env)"] True mm
        by (simp add: db' d set_team_status_def)
      then show ?thesis by simp
    next
      case False
      have same: "k = m" if "k \<in> set (team_members ?L)" "tm_id k = tm_id m" for k
        using distinct_key_eq[OF ids that(1) mm(1) that(2)] .
      have "active_memberships db' (o_id org) (js_trim u) = active_memberships ?L (o_id org) (js_trim u)"
        unfolding active_memberships_def tio
        using False mm(2) by (simp add: db' d)
          (intro count_where_update_eq, auto simp: set_team_status_def dest!: same)
      then show ?thesis by simp
    qed
    with count show ?case by simp
  next
    case (4 n)
    then obtain k where k: "k \<in> set (team_members ?L)"
      "n = (if tm_id k = tm_id m then set_team_status REMOVED (clock env) k else k)"
      by (auto simp: db' d set_update_where)
    then have "tm_teamId k = tm_teamId m \<and> tm_userId k = tm_userId m"
      using 4 mm by (auto simp: set_team_status_def split: if_splits)
    then have "k = m" using distinct_key_eq[OF keys k(1) mm(1)] by simp
    with k show ?case by (simp add: set_team_status_def)
  next
    case (5 r)
    then show ?case using user_team.revoke_selected[of r "(js_trim u, t)"] by (simp add: db' t)
  next
    case (6 r)
    then show ?case using user_team.revoke_others[of r "sessions ?L" "(js_trim u, t)"] by (auto simp: db' d t)
  qed (use t in simp_all)
qed

abbreviation demo_leaving :: "(thrown + bool) \<times> org_db" where
  "demo_leaving \<equiv> removeTeamMember (demo_env ''z'' 5) (demo_request (Some ''ann'')) ''h'' '' bob'' demo_db"

theorem team_removal_is_scoped_witness:
  "1 \<le> active_memberships (snd demo_leaving) ''a'' ''bob''"
proof -
  have ok: "fst demo_leaving = Inr True" "map o_id (organisations demo_db) = [''a'']"
    "js_trim '' bob'' = ''bob''"
    by code_simp+
  have "org_inv (awaitLock (demo_env ''z'' 5) demo_db)"
    using demo_db_inv by (simp add: demo_env_def)
  from team_removal_is_scoped[OF surjective_pairing[of demo_leaving, unfolded ok(1)] this] ok
  show ?thesis by (auto simp: map_eq_Cons_conv)
qed

end
