(* ===== verification/Org_Findings.thy ===== *)
theory Org_Findings
  imports Org_Properties
begin

section \<open>Behaviours the model exposes\<close>

text \<open>
  Concrete histories in which the organisation and team services do something their comments or
  \<^verbatim>\<open>Docs/brief.md\<close> exclude. Each is evaluated on the store \<open>demo_db\<close> of
  \<^verbatim>\<open>Org_Properties\<close> or an extension of it.
\<close>

abbreviation ann :: org_request where
  "ann \<equiv> demo_request (Some ''ann'')"

definition capped :: "org_request \<Rightarrow> org_request" where
  "capped p = p\<lparr>rq_config := (default_config ''shop'')
     \<lparr>cfg_org_features := Some (empty_features\<lparr>max_members_per_org := Some 2\<rparr>)\<rparr>\<rparr>"

subsection \<open>Reactivation ignores the member cap\<close>

text \<open>With a cap of two: deactivate Bob, add Cat in his place, reactivate Bob - three active
  members.\<close>

definition cap_history :: "(thrown + bool) \<times> org_db" where
  "cap_history =
     (let d0 = demo_db\<lparr>users := users demo_db @ [plain_user ''cat'' None]\<rparr>;
          d1 = snd (deactivateOrganisationMember (demo_env ''p'' 1) (capped ann) ''bob'' d0);
          d2 = snd (addOrganisationMember (demo_env ''q'' 2) (capped ann) ''cat'' ''member'' d1)
      in reactivateOrganisationMember (demo_env ''r'' 3) (capped ann) ''bob'' d2)"

lemma reactivation_exceeds_cap:
  "fst cap_history = Inr True \<and>
   length (filter (\<lambda>m. om_orgId m = ''a'' \<and> om_status m = ACTIVE) (org_members (snd cap_history))) = 3 \<and>
   parseOrgLimit (rq_config (capped ann)) = 2"
  by code_simp

subsection \<open>A team cannot be deleted because of a tombstone in the default team\<close>

text \<open>Bob was removed from the default team; deleting his other team tries to create a second
  row for him there, which the unique index refuses.\<close>

definition tombstoned_default :: org_db where
  "tombstoned_default = snd (removeTeamMember (demo_env ''p'' 1) ann ''g'' ''bob'' demo_db)"

lemma delete_team_blocked_by_tombstone:
  "fst (deleteTeam (demo_env ''q'' 2) ann ''h'' tombstoned_default) = Inl (Db_Error ''P2002'')"
  by code_simp

subsection \<open>An active member of the organisation without any team\<close>

text \<open>Bob's only team is deleted while he is deactivated; his reactivation restores nothing.\<close>

definition teamless_history :: "(thrown + bool) \<times> org_db" where
  "teamless_history =
     (let d1 = snd (deactivateOrganisationMember (demo_env ''q'' 2) ann ''bob'' tombstoned_default);
          d2 = snd (deleteTeam (demo_env ''r'' 3) ann ''h'' d1)
      in reactivateOrganisationMember (demo_env ''s'' 4) ann ''bob'' d2)"

lemma reactivated_member_without_team:
  "fst teamless_history = Inr True \<and>
   map om_status (filter (\<lambda>m. om_userId m = ''bob'') (org_members (snd teamless_history))) = [ACTIVE] \<and>
   active_memberships (snd teamless_history) ''a'' ''bob'' = 0"
  by code_simp

subsection \<open>A removed member of the organisation becomes an active member of a team\<close>

definition readmitted_to_team :: "(thrown + team_member_record) \<times> org_db" where
  "readmitted_to_team =
     addTeamMember (demo_env ''q'' 6) ann ''h'' ''bob'' None (snd demo_removal)"

lemma removed_member_joins_team:
  "map om_status (filter (\<lambda>m. om_userId m = ''bob'') (org_members (snd readmitted_to_team))) = [REMOVED] \<and>
   map (\<lambda>m. (tm_teamId m, tm_status m))
     (filter (\<lambda>m. tm_userId m = ''bob'') (team_members (snd readmitted_to_team))) =
     [(''g'', REMOVED), (''h'', ACTIVE)]"
  by code_simp

subsection \<open>The transfer response misreports the settings\<close>

lemma transfer_reports_defaults:
  assumes "transferOrganisationOwnership env p w rr db = (Inr r, db')"
  shows "o_memberInvites r = Invites_Allowed \<and> o_iconUrl r = None"
  using assms
  unfolding transferOrganisationOwnership_def Let_def case_prod_beta' handler_Inr
  by (auto simp: toOrganisationRecord_def)

lemma transfer_misreports_policy:
  "map_sum id o_memberInvites (fst (transferOrganisationOwnership (demo_env ''q'' 6) ann ''bob'' None demo_db)) =
     Inr Invites_Allowed \<and>
   map o_memberInvites (organisations (snd (transferOrganisationOwnership (demo_env ''q'' 6) ann ''bob'' None demo_db))) =
     [Invites_Disabled]"
  by code_simp

subsection \<open>A removal that races with a transfer leaves a removed owner\<close>

text \<open>Three owners. While the removal of Bob waits for its lock, Ann transfers the organisation to
  Bob. The removal still compares with the owner it read before: it does not pass the
  organisation on.\<close>

definition three_owners :: org_db where
  "three_owners = demo_db\<lparr>
     org_members := [new_member ''m1'' ''a'' ''ann'' ''owner'' 0, new_member ''m2'' ''a'' ''bob'' ''owner'' 0,
       new_member ''m3'' ''a'' ''cat'' ''owner'' 0],
     users := users demo_db @ [plain_user ''cat'' None]\<rparr>"

definition raced_removal :: "(thrown + bool) \<times> org_db" where
  "raced_removal = removeOrganisationMember
     ((demo_env ''z'' 5)\<lparr>awaitLock :=
        (\<lambda>d. snd (transferOrganisationOwnership (demo_env ''y'' 4) ann ''bob'' None d))\<rparr>)
     ann ''bob'' three_owners"

lemma raced_removal_leaves_removed_owner:
  "fst raced_removal = Inr True \<and>
   map o_ownerId (organisations (snd raced_removal)) = [''bob''] \<and>
   map om_status (filter (\<lambda>m. om_userId m = ''bob'') (org_members (snd raced_removal))) = [REMOVED]"
  by code_simp

subsection \<open>The same for a role change and for a transfer\<close>

text \<open>Ann demotes Bob while her transfer to Bob commits: the role of the new owner is overwritten.
  Ann transfers to Bob while his deactivation commits: the new owner is not active.\<close>

definition raced_role_change :: "(thrown + organisation_member_record) \<times> org_db" where
  "raced_role_change = changeOrganisationMemberRole
     ((demo_env ''z'' 5)\<lparr>awaitLock :=
        (\<lambda>d. snd (transferOrganisationOwnership (demo_env ''y'' 4) ann ''bob'' None d))\<rparr>)
     ann ''bob'' ''member'' three_owners"

lemma raced_role_change_demotes_owner:
  "map o_ownerId (organisations (snd raced_role_change)) = [''bob''] \<and>
   map om_role (filter (\<lambda>m. om_userId m = ''bob'') (org_members (snd raced_role_change))) = [''member'']"
  by code_simp

definition raced_transfer :: "(thrown + organisation) \<times> org_db" where
  "raced_transfer = transferOrganisationOwnership
     ((demo_env ''z'' 5)\<lparr>awaitLock :=
        (\<lambda>d. snd (deactivateOrganisationMember (demo_env ''y'' 4) ann ''bob'' d))\<rparr>)
     ann ''bob'' None demo_db"

lemma raced_transfer_to_deactivated:
  "map o_ownerId (organisations (snd raced_transfer)) = [''bob''] \<and>
   map om_status (filter (\<lambda>m. om_userId m = ''bob'') (org_members (snd raced_transfer))) = [DEACTIVATED]"
  by code_simp

end
