(* ===== verification/Auth_Model.thy ===== *)
theory Auth_Model
  imports Org_Service Team_Invite
begin

section \<open>The store behind authentication\<close>

text \<open>
  The organisation tables of \<^verbatim>\<open>Org_Model\<close> together with the tables the login,
  invitation and token services add to them: team invitations, emailed tokens, client domains
  with their product keys, the two-factor policies, domain roles and authorization codes. Mail is
  not a table; what is handed to the mailer is appended to an outbox, so that the theorems can
  speak about who was written to.

  A service is a step: it returns a result or throws, and either way leaves a store. Most of the
  invitation services run outside a transaction, so a throw keeps the writes before it.
  \<open>await\<close> of the environment is what other transactions commit while a step waits for a lock.
\<close>

subsection \<open>Rows\<close>

datatype twofa_policy = OFF | OPTIONAL | REQUIRED

record client_domain =
  cd_id :: string
  cd_domain :: string
  cd_status :: string
  cd_twoFaPolicy :: twofa_policy

record billing_service =
  bs_id :: string
  bs_identifier :: string
  bs_active :: bool

record app_key =
  ak_actorIssuer :: string
  ak_purpose :: string
  ak_revokedAt :: "int option"
  ak_expiresAt :: "int option"
  ak_serviceId :: string

record team_invite = invite_row +
  ti_id :: string
  ti_orgId :: string
  ti_teamId :: string
  ti_email :: string
  ti_inviteName :: "string option"
  ti_teamRole :: string
  ti_redirectUrl :: "string option"
  ti_invitedByUserId :: "string option"
  ti_invitedByName :: "string option"
  ti_invitedByEmail :: "string option"
  ti_acceptedUserId :: "string option"
  ti_openedAt :: "int option"
  ti_openCount :: nat
  ti_lastSentAt :: int
  ti_requestedByUserId :: "string option"
  ti_createdAt :: int
  ti_updatedAt :: int

record verification_token =
  vt_type :: string
  vt_email :: string
  vt_userKey :: string
  vt_domain :: "string option"
  vt_configUrl :: string
  vt_tokenHash :: string
  vt_expiresAt :: int
  vt_usedAt :: "int option"
  vt_userId :: "string option"
  vt_tokenVersion :: "nat option"
  vt_teamInviteId :: "string option"

record auth_code =
  ac_id :: string
  ac_codeHash :: string
  ac_userId :: string
  ac_domain :: string
  ac_configUrl :: string
  ac_redirectUrl :: string
  ac_codeChallenge :: "string option"
  ac_codeChallengeMethod :: "string option"
  ac_rememberMe :: bool
  ac_twoFaCompleted :: bool
  ac_tokenVersion :: "nat option"
  ac_orgId :: "string option"
  ac_teamId :: "string option"
  ac_expiresAt :: int
  ac_usedAt :: "int option"

text \<open>What an invitation mail is built from: the link carries the token, the config URL and the
  redirect, the tracking pixel the invitation.\<close>

record invite_mail =
  ml_to :: string
  ml_token :: string
  ml_configUrl :: string
  ml_redirectUrl :: "string option"
  ml_inviteId :: string
  ml_organisationName :: string
  ml_teamName :: string
  ml_inviteeName :: "string option"

record auth_db =
  tenant :: org_db
  invites :: "team_invite list"
  email_tokens :: "verification_token list"
  outbox :: "invite_mail list"
  client_domains :: "client_domain list"
  app_keys :: "app_key list"
  billing_services :: "billing_service list"
  org_twofa :: "string \<rightharpoonup> twofa_policy"
  superusers :: "(string \<times> string) list"
  auth_codes :: "auth_code list"

record auth_env =
  tenant_env :: org_env
  hashes :: crypto
  sha256_hex :: "string \<Rightarrow> string"
  sha256_base64url :: "string \<Rightarrow> string"
  random_token :: "nat \<Rightarrow> string"
  secret :: string
  url_parse :: url_parser
  await :: "auth_db \<Rightarrow> auth_db"

abbreviation now :: "auth_env \<Rightarrow> int" where
  "now env \<equiv> clock (tenant_env env)"

subsection \<open>Steps\<close>

type_synonym 'a auth_step = "auth_db \<Rightarrow> (thrown + 'a) \<times> auth_db"

definition bind_step :: "('s \<Rightarrow> ('e + 'a) \<times> 's) \<Rightarrow> ('a \<Rightarrow> 's \<Rightarrow> ('e + 'b) \<times> 's) \<Rightarrow> 's \<Rightarrow> ('e + 'b) \<times> 's" where
  "bind_step m f s = (case m s of (Inl e, s') \<Rightarrow> (Inl e, s') | (Inr x, s') \<Rightarrow> f x s')"

definition return :: "'a \<Rightarrow> 's \<Rightarrow> ('e + 'a) \<times> 's" where
  "return x s = (Inr x, s)"

definition throw :: "'e \<Rightarrow> 's \<Rightarrow> ('e + 'a) \<times> 's" where
  "throw e s = (Inl e, s)"

definition reading :: "('s \<Rightarrow> 'e + 'a) \<Rightarrow> 's \<Rightarrow> ('e + 'a) \<times> 's" where
  "reading f s = (f s, s)"

definition writing :: "('s \<Rightarrow> 's) \<Rightarrow> 's \<Rightarrow> ('e + unit) \<times> 's" where
  "writing f s = (Inr (), f s)"

text \<open>A write that a constraint may refuse.\<close>

definition attempt :: "('s \<Rightarrow> 'e + 'a \<times> 's) \<Rightarrow> 's \<Rightarrow> ('e + 'a) \<times> 's" where
  "attempt f s = (case f s of Inl e \<Rightarrow> (Inl e, s) | Inr (x, s') \<Rightarrow> (Inr x, s'))"

lemma bind_step_Inr:
  "bind_step m f s = (Inr y, t) \<longleftrightarrow> (\<exists>x u. m s = (Inr x, u) \<and> f x u = (Inr y, t))"
  by (auto simp: bind_step_def split: prod.splits sum.splits)

lemma bind_step_Inl:
  "bind_step m f s = (Inl e, t) \<longleftrightarrow>
     m s = (Inl e, t) \<or> (\<exists>x u. m s = (Inr x, u) \<and> f x u = (Inl e, t))"
  by (auto simp: bind_step_def split: prod.splits sum.splits)

lemma return_value: "return x s = (r, t) \<longleftrightarrow> r = Inr x \<and> t = s"
  by (auto simp: return_def)

lemma throw_value: "throw e s = (r, t) \<longleftrightarrow> r = Inl e \<and> t = s"
  by (auto simp: throw_def)

lemma reading_value:
  "reading g s = (Inr x, t) \<longleftrightarrow> g s = Inr x \<and> t = s" "reading g s = (Inl e, t) \<longleftrightarrow> g s = Inl e \<and> t = s"
  by (auto simp: reading_def)

lemma writing_value:
  "writing w s = (Inr x, t) \<longleftrightarrow> t = w s" "writing w s \<noteq> (Inl e, t)"
  by (auto simp: writing_def)

lemma attempt_value:
  "attempt a s = (Inr x, t) \<longleftrightarrow> a s = Inr (x, t)" "attempt a s = (Inl e, t) \<longleftrightarrow> a s = Inl e \<and> t = s"
  by (auto simp: attempt_def split: sum.splits)

lemmas step_values = return_value throw_value reading_value writing_value attempt_value

lemmas auth_steps = bind_step_Inr bind_step_Inl step_values

text \<open>A relation between stores that every part of a step respects is respected by the step.\<close>

definition advances :: "('s \<Rightarrow> 's \<Rightarrow> bool) \<Rightarrow> ('s \<Rightarrow> ('e + 'a) \<times> 's) \<Rightarrow> bool" where
  "advances R m \<longleftrightarrow> (\<forall>s. R s (snd (m s)))"

lemma advancesD: "advances R m \<Longrightarrow> m s = (r, t) \<Longrightarrow> R s t"
  by (metis advances_def snd_conv)

locale store_order =
  fixes R :: "'s \<Rightarrow> 's \<Rightarrow> bool"
  assumes refl: "R s s" and trans: "R s t \<Longrightarrow> R t u \<Longrightarrow> R s u"
begin

lemma advances_pure: "advances R (return x)" "advances R (throw e)" "advances R (reading g)"
  by (simp_all add: advances_def return_def throw_def reading_def refl)

lemma advances_writing: "(\<And>s. R s (w s)) \<Longrightarrow> advances R (writing w)"
  by (simp add: advances_def writing_def)

lemma advances_attempt: "(\<And>s x t. a s = Inr (x, t) \<Longrightarrow> R s t) \<Longrightarrow> advances R (attempt a)"
  by (auto simp: advances_def attempt_def refl split: sum.splits)

lemma advances_bind:
  assumes "advances R m" and "\<And>x. advances R (f x)"
  shows "advances R (bind_step m f)"
  using assms by (auto simp: advances_def bind_step_def split: prod.splits sum.splits)
    (metis snd_conv trans)+

lemma advances_if: "advances R m \<Longrightarrow> advances R n \<Longrightarrow> advances R (if b then m else n)"
  by simp

lemma advances_option:
  "advances R m \<Longrightarrow> (\<And>x. advances R (f x)) \<Longrightarrow> advances R (case v of None \<Rightarrow> m | Some x \<Rightarrow> f x)"
  by (cases v) simp_all

end

subsection \<open>Lookups\<close>

definition findUserByKey :: "auth_db \<Rightarrow> string \<Rightarrow> app_user option" where
  "findUserByKey db k = List.find (\<lambda>u. u_userKey u = k) (users (tenant db))"

definition findUser :: "auth_db \<Rightarrow> string \<Rightarrow> app_user option" where
  "findUser db i = List.find (\<lambda>u. u_id u = i) (users (tenant db))"

definition tokenVersion :: "auth_db \<Rightarrow> string \<Rightarrow> nat option" where
  "tokenVersion db userId = rt_versions (sessions (tenant db)) userId"

definition in_tenant :: "(org_db \<Rightarrow> org_db) \<Rightarrow> auth_db \<Rightarrow> auth_db" where
  "in_tenant f db = db\<lparr>tenant := f (tenant db)\<rparr>"

text \<open>A write of the organisation tables that a constraint may refuse.\<close>

definition in_tenant_checked :: "(org_db \<Rightarrow> org_db checked) \<Rightarrow> auth_db \<Rightarrow> (unit \<times> auth_db) checked" where
  "in_tenant_checked f db =
     (case f (tenant db) of Inl e \<Rightarrow> Inl e | Inr t \<Rightarrow> Inr ((), db\<lparr>tenant := t\<rparr>))"

lemma in_tenant_sel [simp]:
  "tenant (in_tenant f db) = f (tenant db)" "invites (in_tenant f db) = invites db"
  "email_tokens (in_tenant f db) = email_tokens db" "outbox (in_tenant f db) = outbox db"
  "auth_codes (in_tenant f db) = auth_codes db"
  by (simp_all add: in_tenant_def)

lemma in_tenant_checked_Inr:
  "in_tenant_checked f db = Inr (x, db') \<longleftrightarrow> (\<exists>t. f (tenant db) = Inr t \<and> db' = db\<lparr>tenant := t\<rparr>)"
  by (auto simp: in_tenant_checked_def split: sum.splits)

end
