(* ===== verification/Workspace_Scope.thy ===== *)
theory Workspace_Scope
  imports Auth_Model
begin

section \<open>Workspace scope, product policy and two-factor policy\<close>

text \<open>
  What every token decision asks of the current store: \<^verbatim>\<open>workspace-scope.service.ts\<close> (is the
  selected organisation and team in force for this user), \<^verbatim>\<open>product-workspace-policy.service.ts\<close>
  (may a client domain see workspaces of other domains), \<^verbatim>\<open>twofactor-policy.service.ts\<close> with
  \<^verbatim>\<open>authorization-twofactor-proof.service.ts\<close>, and \<^verbatim>\<open>authentication-epoch.service.ts\<close>. The
  row and advisory locks read nothing; a step waits for them through \<open>await\<close>.
\<close>

abbreviation unauthenticated :: "'a checked" where
  "unauthenticated \<equiv> refuse_with UNAUTHORIZED 401 ''AUTHENTICATION_FAILED''"

subsection \<open>The product policy of a domain\<close>

datatype product_policy = Client_Domain_Scope | All_Active_Memberships string string

definition current_product_key :: "int \<Rightarrow> string \<Rightarrow> auth_db \<Rightarrow> app_key \<Rightarrow> bool" where
  "current_product_key t domain db k \<longleftrightarrow>
     ak_actorIssuer k = ''https://'' @ domain \<and> ak_purpose k = ''CUSTOMER_LIFECYCLE'' \<and>
     ak_revokedAt k = None \<and> (case ak_expiresAt k of None \<Rightarrow> True | Some e \<Rightarrow> t < e) \<and>
     (\<exists>s \<in> set (billing_services db). bs_id s = ak_serviceId k \<and> bs_active s)"

definition service_identifier :: "auth_db \<Rightarrow> string \<Rightarrow> string" where
  "service_identifier db i =
     (case List.find (\<lambda>s. bs_id s = i) (billing_services db) of Some s \<Rightarrow> bs_identifier s | None \<Rightarrow> [])"

definition resolveProductWorkspacePolicy :: "int \<Rightarrow> string \<Rightarrow> auth_db \<Rightarrow> product_policy" where
  "resolveProductWorkspacePolicy t rawDomain db =
     (let domain = normalizeDomain rawDomain in
      if domain = [] then Client_Domain_Scope
      else case List.find (\<lambda>d. cd_domain d = domain) (client_domains db) of
        None \<Rightarrow> Client_Domain_Scope
      | Some d \<Rightarrow>
          if cd_status d \<noteq> ''active'' then Client_Domain_Scope
          else (case remdups (map ak_serviceId (filter (current_product_key t domain db) (app_keys db))) of
                  [i] \<Rightarrow> All_Active_Memberships i (service_identifier db i)
                | _ \<Rightarrow> Client_Domain_Scope))"

definition all_active :: "product_policy \<Rightarrow> bool" where
  "all_active p = (case p of All_Active_Memberships _ _ \<Rightarrow> True | Client_Domain_Scope \<Rightarrow> False)"

subsection \<open>The scope of a session\<close>

record scope_request =
  sc_userId :: string
  sc_domain :: string
  sc_orgId :: "string option"
  sc_teamId :: "string option"

definition activeWorkspaceScopeExists :: "bool \<Rightarrow> scope_request \<Rightarrow> auth_db \<Rightarrow> bool" where
  "activeWorkspaceScopeExists allowCrossDomain sc db =
     (let org = tenant db;
          here = (\<lambda>i. allowCrossDomain \<or> org_domain org i = Some (sc_domain sc))
      in if \<not> truthy (sc_orgId sc) \<and> \<not> truthy (sc_teamId sc) then True
         else if \<not> truthy (sc_orgId sc) \<or> \<not> truthy (sc_teamId sc) then False
         else findMember org (\<lambda>m. active_member (the (sc_orgId sc)) (sc_userId sc) m \<and> here (om_orgId m)) \<noteq> None \<and>
              findTeamMember org (\<lambda>m. tm_teamId m = the (sc_teamId sc) \<and> tm_userId m = sc_userId sc \<and>
                tm_status m = ACTIVE \<and> team_in_org org (the (sc_orgId sc)) (tm_teamId m) \<and>
                here (the (sc_orgId sc))) \<noteq> None)"

definition assertActiveWorkspaceScope :: "scope_request \<Rightarrow> auth_db \<Rightarrow> unit checked" where
  "assertActiveWorkspaceScope sc db =
     (if activeWorkspaceScopeExists False sc db then Inr () else unauthenticated)"

definition assertActiveClientWorkspaceScope :: "auth_env \<Rightarrow> scope_request \<Rightarrow> auth_db \<Rightarrow> unit checked" where
  "assertActiveClientWorkspaceScope env sc db =
     (if activeWorkspaceScopeExists False sc db then Inr ()
      else if \<not> all_active (resolveProductWorkspacePolicy (now env) (sc_domain sc) db) \<or>
              \<not> activeWorkspaceScopeExists True sc db
        then unauthenticated
      else Inr ())"

definition lockAndAssertActiveWorkspaceScope :: "auth_env \<Rightarrow> scope_request \<Rightarrow> unit auth_step" where
  "lockAndAssertActiveWorkspaceScope env sc db =
     (if \<not> truthy (sc_orgId sc) \<and> \<not> truthy (sc_teamId sc) then (Inr (), db)
      else if \<not> truthy (sc_orgId sc) \<or> \<not> truthy (sc_teamId sc) then (unauthenticated, db)
      else (let db1 = await env db in (assertActiveWorkspaceScope sc db1, db1)))"

definition lockAndAssertActiveClientWorkspaceScope :: "auth_env \<Rightarrow> scope_request \<Rightarrow> unit auth_step" where
  "lockAndAssertActiveClientWorkspaceScope env sc db =
     (if \<not> truthy (sc_orgId sc) \<and> \<not> truthy (sc_teamId sc) then (Inr (), db)
      else if \<not> truthy (sc_orgId sc) \<or> \<not> truthy (sc_teamId sc) then (unauthenticated, db)
      else if activeWorkspaceScopeExists False sc db then
        (let db1 = await env db in (assertActiveWorkspaceScope sc db1, db1))
      else if \<not> all_active (resolveProductWorkspacePolicy (now env) (sc_domain sc) db) then
        (unauthenticated, db)
      else (let db1 = await env db in
            (if activeWorkspaceScopeExists True sc db1 then Inr () else unauthenticated, db1)))"

definition lockAndAssertRefreshWorkspaceScope :: "auth_env \<Rightarrow> scope_request \<Rightarrow> unit auth_step" where
  "lockAndAssertRefreshWorkspaceScope env sc db =
     (case lockAndAssertActiveClientWorkspaceScope env sc db of
        (Inl e, db1) \<Rightarrow>
          (if thrown_status e = Some 401 then (Inl invalid_refresh, db1) else (Inl e, db1))
      | (Inr u, db1) \<Rightarrow> (Inr u, db1))"

text \<open>What a passed check says: the user is an active member of the organisation and of a team
  of it, both in the store the locks exposed.\<close>

definition workspace_in_force :: "org_db \<Rightarrow> string \<Rightarrow> string \<Rightarrow> string \<Rightarrow> bool" where
  "workspace_in_force db u i t \<longleftrightarrow>
     (\<exists>m \<in> set (org_members db). active_member i u m) \<and>
     (\<exists>k \<in> set (team_members db). tm_teamId k = t \<and> tm_userId k = u \<and> tm_status k = ACTIVE) \<and>
     team_in_org db i t"

lemma find_not_None: "List.find P xs \<noteq> None \<longleftrightarrow> (\<exists>x \<in> set xs. P x)"
  by (metis find_None_iff2)

lemma scope_existsD:
  assumes "activeWorkspaceScopeExists cross sc db" and "sc_orgId sc = Some i" and "i \<noteq> []"
  shows "\<exists>t. sc_teamId sc = Some t \<and> t \<noteq> [] \<and> workspace_in_force (tenant db) (sc_userId sc) i t"
proof -
  from assms(2,3) have o: "truthy (sc_orgId sc)" by (cases i) simp_all
  with assms(1) have "truthy (sc_teamId sc)"
    by (auto simp: activeWorkspaceScopeExists_def Let_def split: if_splits)
  then obtain t where t: "sc_teamId sc = Some t" "t \<noteq> []" by (auto simp: truthy_def)
  from assms(1) o \<open>truthy (sc_teamId sc)\<close> show ?thesis
    using t assms(2)
    by (auto simp: activeWorkspaceScopeExists_def Let_def workspace_in_force_def findMember_def
        findTeamMember_def dest!: find_Some_set)
qed

lemma locked_scopeD:
  assumes "lockAndAssertActiveClientWorkspaceScope env sc db = (Inr u, db')"
    and "sc_orgId sc = Some i" and "i \<noteq> []"
  shows "db' = await env db"
    "\<exists>t. sc_teamId sc = Some t \<and> t \<noteq> [] \<and> workspace_in_force (tenant db') (sc_userId sc) i t"
proof -
  from assms(2,3) have o: "truthy (sc_orgId sc)" by (cases i) simp_all
  have "db' = await env db \<and> (\<exists>cross. activeWorkspaceScopeExists cross sc db')"
    using assms(1) o
    by (auto simp: lockAndAssertActiveClientWorkspaceScope_def Let_def assertActiveWorkspaceScope_def
        split: if_splits)
  then show "db' = await env db"
    "\<exists>t. sc_teamId sc = Some t \<and> t \<noteq> [] \<and> workspace_in_force (tenant db') (sc_userId sc) i t"
    using scope_existsD[OF _ assms(2,3)] by blast+
qed

lemma locked_scope_state:
  "lockAndAssertActiveClientWorkspaceScope env sc db = (r, db') \<Longrightarrow> db' = db \<or> db' = await env db"
  by (auto simp: lockAndAssertActiveClientWorkspaceScope_def Let_def split: if_splits)

subsection \<open>The two-factor policy\<close>

definition policyRank :: "twofa_policy \<Rightarrow> nat" where
  "policyRank p = (case p of OFF \<Rightarrow> 0 | OPTIONAL \<Rightarrow> 1 | REQUIRED \<Rightarrow> 2)"

instantiation twofa_policy :: linorder
begin

definition less_eq_twofa_policy :: "twofa_policy \<Rightarrow> twofa_policy \<Rightarrow> bool" where
  "p \<le> q \<longleftrightarrow> policyRank p \<le> policyRank q"

definition less_twofa_policy :: "twofa_policy \<Rightarrow> twofa_policy \<Rightarrow> bool" where
  "p < q \<longleftrightarrow> policyRank p < policyRank q"

instance
  by standard
    (auto simp: less_eq_twofa_policy_def less_twofa_policy_def policyRank_def split: twofa_policy.splits)

end

definition strongestTwoFaPolicy :: "twofa_policy \<Rightarrow> twofa_policy \<Rightarrow> twofa_policy" where
  "strongestTwoFaPolicy p q = (if policyRank q > policyRank p then q else p)"

lemma strongest_max [simp]: "strongestTwoFaPolicy p q = max p q"
  by (auto simp: strongestTwoFaPolicy_def max_def less_eq_twofa_policy_def policyRank_def
      split: twofa_policy.splits)

definition isTwoFaAuthenticationSufficient :: "twofa_policy \<Rightarrow> bool \<Rightarrow> bool \<Rightarrow> bool" where
  "isTwoFaAuthenticationSufficient policy twoFaEnabled twoFaCompleted =
     (if policy = OFF then True else if twoFaEnabled then twoFaCompleted else policy \<noteq> REQUIRED)"

definition toPublicTwoFaPolicy :: "twofa_policy \<Rightarrow> string" where
  "toPublicTwoFaPolicy p =
     (case p of OFF \<Rightarrow> ''off'' | OPTIONAL \<Rightarrow> ''optional'' | REQUIRED \<Rightarrow> ''required'')"

definition parseTwoFaPolicyInput :: "string \<Rightarrow> twofa_policy checked" where
  "parseTwoFaPolicyInput value =
     (if value = ''off'' then Inr OFF else if value = ''optional'' then Inr OPTIONAL
      else if value = ''required'' then Inr REQUIRED
      else refuse_with BAD_REQUEST 400 ''INVALID_TWOFA_POLICY'')"

definition parseOrganisationTwoFaPolicyInput :: "string \<Rightarrow> twofa_policy option checked" where
  "parseOrganisationTwoFaPolicyInput value =
     (if value = ''inherit'' then Inr None
      else and_then (parseTwoFaPolicyInput value) (\<lambda>p. Inr (Some p)))"

definition org_policy :: "auth_db \<Rightarrow> string \<Rightarrow> twofa_policy" where
  "org_policy db i = (case org_twofa db i of Some p \<Rightarrow> p | None \<Rightarrow> OFF)"

definition domain_policy :: "auth_db \<Rightarrow> string \<Rightarrow> twofa_policy" where
  "domain_policy db d =
     (case List.find (\<lambda>c. cd_domain c = d) (client_domains db) of
        Some c \<Rightarrow> cd_twoFaPolicy c | None \<Rightarrow> OPTIONAL)"

definition enforcing_orgs :: "auth_db \<Rightarrow> string \<Rightarrow> string option \<Rightarrow> organisation list" where
  "enforcing_orgs db d userId =
     (case userId of
        Some (c # cs) \<Rightarrow>
          filter (\<lambda>r. o_domain r = d \<and>
            findMember (tenant db) (active_member (o_id r) (c # cs)) \<noteq> None) (organisations (tenant db))
      | _ \<Rightarrow> [])"

definition resolveTwoFaPolicy :: "client_config \<Rightarrow> string option \<Rightarrow> string option \<Rightarrow> auth_db \<Rightarrow> twofa_policy"
  where
  "resolveTwoFaPolicy c userId orgId db =
     (if \<not> cfg_2fa_enabled c then OFF
      else (let effective = fold (\<lambda>r acc. strongestTwoFaPolicy acc (org_policy db (o_id r)))
                  (enforcing_orgs db (cfg_domain c) userId) (domain_policy db (cfg_domain c))
            in if truthy orgId \<and> findOrg (tenant db) (the orgId) \<noteq> None
               then strongestTwoFaPolicy effective (org_policy db (the orgId))
               else effective))"

definition assertAuthorizationTwoFaProof ::
  "client_config \<Rightarrow> string \<Rightarrow> string option \<Rightarrow> bool \<Rightarrow> auth_db \<Rightarrow> unit checked" where
  "assertAuthorizationTwoFaProof c userId orgId twoFaCompleted db =
     (let policy = resolveTwoFaPolicy c (Some userId) orgId db;
          user = findUser db userId;
          proofRequired = (policy = REQUIRED \<or>
            (policy \<noteq> OFF \<and> (case user of Some u \<Rightarrow> u_twoFaEnabled u | None \<Rightarrow> False)))
      in if user = None \<or> (proofRequired \<and> \<not> twoFaCompleted)
         then refuse_with UNAUTHORIZED 401 ''INVALID_AUTH_CODE'' else Inr ())"

subsection \<open>The authentication epoch\<close>

definition lockAndAssertAuthenticationEpoch :: "auth_env \<Rightarrow> string \<Rightarrow> nat \<Rightarrow> (nat \<times> bool) auth_step" where
  "lockAndAssertAuthenticationEpoch env userId credentialEpoch db =
     (let db1 = await env db in
      (case findUser db1 userId of
         None \<Rightarrow> unauthenticated
       | Some u \<Rightarrow>
           if tokenVersion db1 userId \<noteq> Some credentialEpoch then unauthenticated
           else Inr (credentialEpoch, u_twoFaEnabled u), db1))"

lemma epochD:
  assumes "lockAndAssertAuthenticationEpoch env u e db = (Inr r, db')"
  shows "db' = await env db" "tokenVersion db' u = Some e"
  using assms by (auto simp: lockAndAssertAuthenticationEpoch_def Let_def split: option.splits if_splits)

subsection \<open>Properties\<close>

lemma fold_max:
  "fold (\<lambda>r acc. max acc (f r)) xs (p :: twofa_policy) = Max (insert p (f ` set xs))"
proof (induction xs arbitrary: p)
  case (Cons x xs)
  have "insert p (f ` set (x # xs)) = insert p (insert (f x) (f ` set xs))" by simp
  moreover have "Max (insert (max p (f x)) (f ` set xs)) = Max (insert p (insert (f x) (f ` set xs)))"
    by (cases "set xs = {}") (simp_all add: max.assoc)
  ultimately show ?case using Cons.IH by simp
qed simp

text \<open>
  C37: the effective two-factor policy is the strongest one in force: the greatest, in the order
  off, optional, required, of the domain's, those of the organisations of the domain the user is
  active in, and the selected organisation's; nothing is in force where the client has
  two-factor switched off. The proof demanded at code exchange accepts everything the refresh
  check accepts, and differs from it in one case only: a completed proof of a user who is not
  enrolled while the policy is required.
\<close>

theorem twofa_policy_is_strongest:
  "resolveTwoFaPolicy c userId orgId db =
     (if cfg_2fa_enabled c then
        Max ({domain_policy db (cfg_domain c)} \<union>
             {org_policy db (o_id r) | r. r \<in> set (enforcing_orgs db (cfg_domain c) userId)} \<union>
             {org_policy db i | i. orgId = Some i \<and> i \<noteq> [] \<and> findOrg (tenant db) i \<noteq> None})
      else OFF) \<and>
   (assertAuthorizationTwoFaProof c u orgId proof_done db = Inr ()) =
     (\<exists>x. findUser db u = Some x \<and>
       (isTwoFaAuthenticationSufficient (resolveTwoFaPolicy c (Some u) orgId db) (u_twoFaEnabled x) proof_done \<or>
        resolveTwoFaPolicy c (Some u) orgId db = REQUIRED \<and> \<not> u_twoFaEnabled x \<and> proof_done))"
proof
  let ?p = "\<lambda>r. org_policy db (o_id r)" and ?d = "domain_policy db (cfg_domain c)"
  let ?os = "set (enforcing_orgs db (cfg_domain c) userId)"
  let ?sel = "{org_policy db i | i. orgId = Some i \<and> i \<noteq> [] \<and> findOrg (tenant db) i \<noteq> None}"
  have orgs: "{org_policy db (o_id r) | r. r \<in> ?os} = ?p ` ?os" by auto
  show "resolveTwoFaPolicy c userId orgId db =
     (if cfg_2fa_enabled c then Max ({?d} \<union> {org_policy db (o_id r) | r. r \<in> ?os} \<union> ?sel) else OFF)"
  proof (cases "truthy orgId \<and> findOrg (tenant db) (the orgId) \<noteq> None")
    case True
    then obtain a as where "orgId = Some (a # as)" by (auto simp: truthy_def)
    with True have sel: "?sel = {org_policy db (the orgId)}" by auto
    have "{?d} \<union> ?p ` ?os \<union> ?sel = insert (org_policy db (the orgId)) (insert ?d (?p ` ?os))"
      unfolding sel by auto
    moreover have "Max (insert (org_policy db (the orgId)) (insert ?d (?p ` ?os))) =
        max (org_policy db (the orgId)) (Max (insert ?d (?p ` ?os)))"
      by (rule Max_insert) simp_all
    ultimately show ?thesis
      using True
      by (simp add: resolveTwoFaPolicy_def orgs fold_max max.commute del: Max_insert Un_insert_left Un_insert_right)
  next
    case False
    then have sel: "?sel = {}" by (auto simp: truthy_def neq_Nil_conv)
    show ?thesis
      unfolding sel orgs resolveTwoFaPolicy_def Let_def
      using False by (auto simp: fold_max simp del: Max_insert)
  qed
next
  show "(assertAuthorizationTwoFaProof c u orgId proof_done db = Inr ()) =
     (\<exists>x. findUser db u = Some x \<and>
       (isTwoFaAuthenticationSufficient (resolveTwoFaPolicy c (Some u) orgId db) (u_twoFaEnabled x) proof_done \<or>
        resolveTwoFaPolicy c (Some u) orgId db = REQUIRED \<and> \<not> u_twoFaEnabled x \<and> proof_done))"
    by (cases "findUser db u"; cases "resolveTwoFaPolicy c (Some u) orgId db")
       (auto simp: assertAuthorizationTwoFaProof_def isTwoFaAuthenticationSufficient_def Let_def)
qed

end
