(* ===== verification/Invite_Base.thy ===== *)
theory Invite_Base
  imports Workspace_Scope
begin

section \<open>What the invitation services share\<close>

text \<open>
  \<^verbatim>\<open>team-invite.service.base.ts\<close> with \<^verbatim>\<open>user-scope.service.ts\<close>, the redirect selection of
  \<^verbatim>\<open>authorization-code.service.ts\<close> and the epoch check of \<^verbatim>\<open>verification-token-epoch.service.ts\<close>.
  The invitation table carries the constraints of its migration - at most one actionable row per
  team and lower-cased email, no row grants \<open>owner\<close>, the three ends of an invitation exclude each
  other, acceptance names its user and needs clearance - and its primary key; the token table has
  unique hashes. PostgreSQL checks them on every write, so a write may fail. The invite link is represented by what it is built from (\<open>invite_mail\<close>).
\<close>

subsection \<open>Normalisation\<close>

definition normalizeInviteGrantRole :: "string option \<Rightarrow> client_config \<Rightarrow> string checked" where
  "normalizeInviteGrantRole value c =
     and_then (normalizeTeamRole value c) (\<lambda>role.
       if role = OWNER_ROLE then refuse BAD_REQUEST 400 else Inr role)"

definition normalizeInviteName :: "string option \<Rightarrow> string option checked" where
  "normalizeInviteName value =
     (case map_option js_trim value of
        None \<Rightarrow> Inr None
      | Some trimmed \<Rightarrow>
          if trimmed = [] then Inr None
          else if length trimmed > 120 then refuse BAD_REQUEST 400
          else Inr (Some trimmed))"

definition normalizeEmail :: "string \<Rightarrow> string checked" where
  "normalizeEmail value =
     (let email = js_lower (js_trim value)
      in if email = [] \<or> CHR ''@'' \<notin> set email then refuse BAD_REQUEST 400 else Inr email)"

definition toApprovalStatusValue :: "string option \<Rightarrow> string" where
  "toApprovalStatusValue value =
     (case value of
        Some (c # cs) \<Rightarrow>
          (let normalized = js_lower (js_trim (c # cs))
           in if normalized \<in> {''not_required'', ''pending'', ''approved'', ''denied''}
              then normalized else ''not_required'')
      | _ \<Rightarrow> ''not_required'')"

definition INVITE_EXPIRY_MS :: int where
  "INVITE_EXPIRY_MS = 30 * 24 * 60 * 60 * 1000"

definition computeInviteExpiresAt :: "int \<Rightarrow> int" where
  "computeInviteExpiresAt t = t + INVITE_EXPIRY_MS"

definition EMAIL_TOKEN_TTL_MS :: int where
  "EMAIL_TOKEN_TTL_MS = 30 * 60 * 1000"

definition selectRedirectUrl :: "url_parser \<Rightarrow> string list \<Rightarrow> string option \<Rightarrow> string checked" where
  "selectRedirectUrl parse allowed requestedRedirectUrl =
     (let parseRedirectUrl = (\<lambda>s.
            if tryParseRedirectUrl parse s = None
            then refuse_with BAD_REQUEST 400 ''INVALID_REDIRECT_URL'' else Inr s)
      in case map_option js_trim requestedRedirectUrl of
           Some (c # cs) \<Rightarrow>
             if (c # cs) \<notin> set allowed then refuse_with BAD_REQUEST 400 ''REDIRECT_URL_NOT_ALLOWED''
             else parseRedirectUrl (c # cs)
         | _ \<Rightarrow>
             (let candidate = (case allowed of [] \<Rightarrow> [] | u # _ \<Rightarrow> js_trim u)
              in if candidate = [] then refuse_with BAD_REQUEST 400 ''MISSING_REDIRECT_URL''
                 else parseRedirectUrl candidate))"

text \<open>The optional redirect of an invitation request.\<close>

definition invite_redirect :: "auth_env \<Rightarrow> client_config \<Rightarrow> string option \<Rightarrow> string option checked" where
  "invite_redirect env c redirectUrl =
     (if truthy redirectUrl
      then and_then (selectRedirectUrl (url_parse env) (cfg_redirect_urls c) redirectUrl) (\<lambda>u. Inr (Some u))
      else Inr None)"

record user_identity =
  id_email :: string
  id_domain :: "string option"
  id_userKey :: string

definition buildUserIdentity :: "client_config \<Rightarrow> string \<Rightarrow> user_identity checked" where
  "buildUserIdentity c rawEmail =
     (let email = js_lower (js_trim rawEmail); domain = normalizeDomain (cfg_domain c) in
      if email = [] then refuse BAD_REQUEST 400
      else if cfg_user_scope_global c
        then Inr \<lparr>id_email = email, id_domain = None, id_userKey = email\<rparr>
      else if domain = [] then refuse BAD_REQUEST 400
      else Inr \<lparr>id_email = email, id_domain = Some domain, id_userKey = domain @ ''|'' @ email\<rparr>)"

subsection \<open>Rows read and written\<close>

record team_invite_record =
  ir_row :: team_invite
  ir_approvalStatus :: string
  ir_invitedByAvatarImageUrl :: "string option"
  ir_acceptedAvatarImageUrl :: "string option"
  ir_status :: team_invite_status

definition optional_avatar :: "auth_env \<Rightarrow> string \<Rightarrow> string option \<Rightarrow> string option" where
  "optional_avatar env domain userId =
     (if truthy userId then Some (memberAvatarImageUrl (tenant_env env) domain (the userId)) else None)"

definition toInviteRecord :: "auth_env \<Rightarrow> team_invite \<Rightarrow> string \<Rightarrow> team_invite_record" where
  "toInviteRecord env row domain =
     \<lparr>ir_row = row, ir_approvalStatus = toApprovalStatusValue (Some (approvalStatus row)),
      ir_invitedByAvatarImageUrl = optional_avatar env domain (ti_invitedByUserId row),
      ir_acceptedAvatarImageUrl = optional_avatar env domain (ti_acceptedUserId row),
      ir_status = deriveInviteStatus row (now env)\<rparr>"

definition resolveInviteTarget :: "auth_db \<Rightarrow> string \<Rightarrow> string \<Rightarrow> (organisation \<times> team) checked" where
  "resolveInviteTarget db orgId teamId =
     and_then (resolveOrganisation (tenant db) orgId) (\<lambda>org.
       case findTeam (tenant db) (\<lambda>t. t_id t = teamId \<and> t_orgId t = o_id org) of
         None \<Rightarrow> refuse NOT_FOUND 404
       | Some team \<Rightarrow> Inr (org, team))"

text \<open>\<open>ACTIONABLE_TEAM_INVITE_WHERE\<close> for one team and email, newest first.\<close>

definition live_invite :: "string \<Rightarrow> string \<Rightarrow> team_invite \<Rightarrow> bool" where
  "live_invite teamId email r \<longleftrightarrow> isActionable r \<and> ti_teamId r = teamId \<and> ti_email r = email"

definition newest :: "(team_invite \<Rightarrow> bool) \<Rightarrow> auth_db \<Rightarrow> team_invite list" where
  "newest P db = js_sort (\<lambda>a b. ti_createdAt b - ti_createdAt a) (filter P (invites db))"

definition existingInvite :: "string \<Rightarrow> string \<Rightarrow> auth_db \<Rightarrow> team_invite option" where
  "existingInvite teamId email db =
     (case newest (live_invite teamId email) db of [] \<Rightarrow> None | r # _ \<Rightarrow> Some r)"

definition findInvite :: "(team_invite \<Rightarrow> bool) \<Rightarrow> auth_db \<Rightarrow> team_invite option" where
  "findInvite P db = List.find P (invites db)"

definition live_key :: "team_invite \<Rightarrow> string \<times> string" where
  "live_key r = (ti_teamId r, js_lower (ti_email r))"

definition invite_index_ok :: "team_invite list \<Rightarrow> bool" where
  "invite_index_ok rows \<longleftrightarrow> distinct (map live_key (filter isActionable rows))"

text \<open>The CHECK constraints. They were added as NOT VALID: rows that were there before keep what
  they hold until they are written.\<close>

definition invite_checks_ok :: "team_invite \<Rightarrow> bool" where
  "invite_checks_ok r \<longleftrightarrow>
     ti_teamRole r \<noteq> OWNER_ROLE \<and>
     length (filter is_set [acceptedAt r, declinedAt r, revokedAt r]) \<le> 1 \<and>
     (is_set (acceptedAt r) \<longleftrightarrow> is_set (ti_acceptedUserId r)) \<and>
     (\<not> is_set (acceptedAt r) \<or> approvalStatus r \<notin> {''PENDING'', ''DENIED''})"

definition rewrite_invites :: "(team_invite \<Rightarrow> bool) \<Rightarrow> (team_invite \<Rightarrow> team_invite) \<Rightarrow> int \<Rightarrow> auth_db \<Rightarrow> auth_db"
  where
  "rewrite_invites P f t db =
     db\<lparr>invites := update_where P (\<lambda>r. (f r)\<lparr>ti_updatedAt := t\<rparr>) (invites db)\<rparr>"

text \<open>\<open>updateMany\<close>, and \<open>update\<close> by identifier, which fails when the row is gone.\<close>

definition update_invites ::
  "(team_invite \<Rightarrow> bool) \<Rightarrow> (team_invite \<Rightarrow> team_invite) \<Rightarrow> int \<Rightarrow> auth_db \<Rightarrow> (unit \<times> auth_db) checked" where
  "update_invites P f t db =
     (if \<exists>r \<in> set (invites db). P r \<and> \<not> invite_checks_ok (f r) then Inl (Db_Error ''23514'')
      else if \<not> invite_index_ok (invites (rewrite_invites P f t db)) then Inl (Db_Error ''P2002'')
      else Inr ((), rewrite_invites P f t db))"

definition update_invite ::
  "string \<Rightarrow> (team_invite \<Rightarrow> team_invite) \<Rightarrow> int \<Rightarrow> auth_db \<Rightarrow> (unit \<times> auth_db) checked" where
  "update_invite i f t db =
     (if findInvite (\<lambda>r. ti_id r = i) db = None then Inl (Db_Error ''P2025'')
      else update_invites (\<lambda>r. ti_id r = i) f t db)"

definition create_invite :: "team_invite \<Rightarrow> auth_db \<Rightarrow> (team_invite \<times> auth_db) checked" where
  "create_invite r db =
     (if \<not> invite_checks_ok r then Inl (Db_Error ''23514'')
      else if ti_id r \<in> ti_id ` set (invites db) \<or> \<not> invite_index_ok (invites db @ [r])
        then Inl (Db_Error ''P2002'')
      else if findOrg (tenant db) (ti_orgId r) = None \<or>
              findTeam (tenant db) (\<lambda>t. t_id t = ti_teamId r) = None
        then Inl (Db_Error ''P2003'')
      else Inr (r, db\<lparr>invites := invites db @ [r]\<rparr>))"

lemma update_invites_Inr:
  "update_invites P f t s = Inr (x, u) \<longleftrightarrow>
     (\<forall>r \<in> set (invites s). P r \<longrightarrow> invite_checks_ok (f r)) \<and>
     invite_index_ok (invites (rewrite_invites P f t s)) \<and> u = rewrite_invites P f t s"
  by (auto simp: update_invites_def)

lemma update_invite_Inr:
  "update_invite i f t s = Inr (x, u) \<longleftrightarrow>
     findInvite (\<lambda>r. ti_id r = i) s \<noteq> None \<and> update_invites (\<lambda>r. ti_id r = i) f t s = Inr (x, u)"
  by (auto simp: update_invite_def)

subsection \<open>Emailed tokens\<close>

definition hashEmailToken :: "auth_env \<Rightarrow> string \<Rightarrow> string" where
  "hashEmailToken env token = sha256_hex env (token @ ''.'' @ secret env)"

definition inviteTokenType :: "app_user option \<Rightarrow> client_config \<Rightarrow> string" where
  "inviteTokenType existingUser c =
     (if existingUser \<noteq> None then ''LOGIN_LINK''
      else if cfg_registration_mode c = ''passwordless'' then ''VERIFY_EMAIL''
      else ''VERIFY_EMAIL_SET_PASSWORD'')"

definition use_invite_tokens :: "string \<Rightarrow> int \<Rightarrow> auth_db \<Rightarrow> auth_db" where
  "use_invite_tokens inviteId t db =
     db\<lparr>email_tokens := update_where (\<lambda>v. vt_teamInviteId v = Some inviteId \<and> vt_usedAt v = None)
          (\<lambda>v. v\<lparr>vt_usedAt := Some t\<rparr>) (email_tokens db)\<rparr>"

definition create_token :: "verification_token \<Rightarrow> auth_db \<Rightarrow> (unit \<times> auth_db) checked" where
  "create_token v db =
     (if \<exists>w \<in> set (email_tokens db). vt_tokenHash w = vt_tokenHash v then Inl (Db_Error ''P2002'')
      else Inr ((), db\<lparr>email_tokens := email_tokens db @ [v]\<rparr>))"

text \<open>\<open>k\<close> numbers the random draws of one request.\<close>

definition issueInviteToken ::
  "auth_env \<Rightarrow> client_config \<Rightarrow> string \<Rightarrow> nat \<Rightarrow> string \<Rightarrow> app_user option \<Rightarrow> string \<Rightarrow> user_identity \<Rightarrow>
     string auth_step" where
  "issueInviteToken env c configUrl k inviteId existingUser email identity =
     (let token = random_token env k in
      bind_step (writing (use_invite_tokens inviteId (now env))) (\<lambda>_.
      bind_step (attempt (\<lambda>db. create_token
         \<lparr>vt_type = inviteTokenType existingUser c, vt_email = email, vt_userKey = id_userKey identity,
          vt_domain = id_domain identity, vt_configUrl = configUrl,
          vt_tokenHash = hashEmailToken env token, vt_expiresAt = now env + EMAIL_TOKEN_TTL_MS,
          vt_usedAt = None, vt_userId = map_option u_id existingUser,
          vt_tokenVersion = Option.bind existingUser (\<lambda>u. tokenVersion db (u_id u)),
          vt_teamInviteId = Some inviteId\<rparr> db)) (\<lambda>_.
      return token)))"

definition send_mail :: "invite_mail \<Rightarrow> auth_db \<Rightarrow> auth_db" where
  "send_mail m db = db\<lparr>outbox := outbox db @ [m]\<rparr>"

text \<open>Issue a token for an invitation and mail it: the common tail of create, resend and approve.\<close>

definition mail_invite ::
  "auth_env \<Rightarrow> client_config \<Rightarrow> string \<Rightarrow> nat \<Rightarrow> team_invite \<Rightarrow> app_user option \<Rightarrow> user_identity \<Rightarrow>
     string \<Rightarrow> string \<Rightarrow> unit auth_step" where
  "mail_invite env c configUrl k r existingUser identity orgName teamName =
     bind_step (issueInviteToken env c configUrl k (ti_id r) existingUser (ti_email r) identity) (\<lambda>token.
       writing (send_mail \<lparr>ml_to = ti_email r, ml_token = token, ml_configUrl = configUrl,
         ml_redirectUrl = ti_redirectUrl r, ml_inviteId = ti_id r, ml_organisationName = orgName,
         ml_teamName = teamName, ml_inviteeName = ti_inviteName r\<rparr>))"

subsection \<open>The epoch of an emailed token\<close>

datatype token_epoch = Registration | Existing_Account nat string

definition resolveVerificationTokenEpoch :: "auth_db \<Rightarrow> verification_token \<Rightarrow> token_epoch option" where
  "resolveVerificationTokenEpoch db v =
     (case (vt_userId v, vt_tokenVersion v) of
        (None, None) \<Rightarrow> (if findUserByKey db (vt_userKey v) \<noteq> None then None else Some Registration)
      | (Some i, Some e) \<Rightarrow>
          (case findUser db i of
             None \<Rightarrow> None
           | Some u \<Rightarrow>
               if u_userKey u \<noteq> vt_userKey v \<or> tokenVersion db i \<noteq> Some e then None
               else Some (Existing_Account e i))
      | _ \<Rightarrow> None)"

definition lockAndReadVerificationTokenEpoch :: "auth_env \<Rightarrow> verification_token \<Rightarrow> token_epoch option auth_step"
  where
  "lockAndReadVerificationTokenEpoch env v db =
     (let db1 = (if vt_userId v \<noteq> None then await env db else db)
      in (Inr (resolveVerificationTokenEpoch db1 v), db1))"

end
