(* ===== verification/Invite_Service.thy ===== *)
theory Invite_Service
  imports Invite_Base
begin

section \<open>The team-invitation services\<close>

text \<open>
  The handlers of \<^verbatim>\<open>team-invite.service.management.ts\<close>, \<^verbatim>\<open>...resend.ts\<close>, \<^verbatim>\<open>...member.ts\<close>,
  \<^verbatim>\<open>...revoke.ts\<close>, \<^verbatim>\<open>...acceptance.ts\<close>, \<^verbatim>\<open>...token.ts\<close> and \<^verbatim>\<open>...invited.ts\<close>. Only the decline
  by token opens a transaction of its own; acceptance and the decline from the chooser run inside
  the transaction of their caller (\<open>in_transaction\<close>), everything else writes as it goes.
\<close>

record invite_request =
  iq_orgId :: string
  iq_teamId :: string
  iq_config :: client_config
  iq_configUrl :: string
  iq_redirectUrl :: "string option"
  iq_actorUserId :: "string option"
  iq_actor :: "org_actor_provenance option"

record invite_input =
  in_email :: string
  in_name :: "string option"
  in_teamRole :: "string option"

record inviter =
  by_userId :: "string option"
  by_name :: "string option"
  by_email :: "string option"

abbreviation db_enabled :: "auth_env \<Rightarrow> unit checked" where
  "db_enabled env \<equiv> assertDatabaseEnabled (tenant_env env)"

text \<open>Losing a transaction undoes its own writes, not those of others.\<close>

definition in_transaction :: "auth_env \<Rightarrow> 'a auth_step \<Rightarrow> 'a auth_step" where
  "in_transaction env m db = (case m db of (Inl e, _) \<Rightarrow> (Inl e, await env db) | r \<Rightarrow> r)"

lemma in_transaction_Inr: "in_transaction env m s = (Inr v, t) \<longleftrightarrow> m s = (Inr v, t)"
  by (auto simp: in_transaction_def split: prod.splits sum.splits)

definition audit_invite ::
  "auth_env \<Rightarrow> org_actor_provenance option \<Rightarrow> string \<Rightarrow> string option \<Rightarrow> string \<Rightarrow> string \<Rightarrow>
     (string \<times> audit_value) list \<Rightarrow> unit auth_step" where
  "audit_invite env actor orgId actorUserId action inviteId metadata =
     writing (in_tenant (auditOrg (tenant_env env) actor
       (audit_entry orgId actorUserId action ''invite'' inviteId metadata)))"

subsection \<open>Who may be invited\<close>

datatype account_verdict = Invite_Them | Is_Member | Other_Organisation | Sign_In_Instead

definition account_verdict ::
  "client_config \<Rightarrow> organisation \<Rightarrow> team \<Rightarrow> app_user option \<Rightarrow> auth_db \<Rightarrow> account_verdict" where
  "account_verdict c org team existingUser db =
     (case existingUser of
        None \<Rightarrow> Invite_Them
      | Some u \<Rightarrow>
          if findTeamMember (tenant db) (\<lambda>m. tm_teamId m = t_id team \<and> tm_userId m = u_id u) \<noteq> None
            then Is_Member
          else if (case findMember (tenant db) (\<lambda>m. om_userId m = u_id u \<and>
                          org_domain (tenant db) (om_orgId m) = Some (o_domain org)) of
                     Some m \<Rightarrow> om_orgId m \<noteq> o_id org | None \<Rightarrow> False)
            then Other_Organisation
          else if cfg_existing_user_behavior c = ''inline_sign_in'' then Sign_In_Instead
          else Invite_Them)"

text \<open>An actionable row for the same team and email is stamped as replaced before the new row is
  created.\<close>

definition replaces_existing :: "int \<Rightarrow> string \<Rightarrow> string \<Rightarrow> auth_db \<Rightarrow> bool" where
  "replaces_existing t teamId email db =
     (case decideTeamInviteTransition Create (existingInvite teamId email db) t of
        Inr (No_Op _) \<Rightarrow> True | _ \<Rightarrow> False)"

definition replace_live :: "int \<Rightarrow> string \<Rightarrow> string \<Rightarrow> auth_db \<Rightarrow> (unit \<times> auth_db) checked" where
  "replace_live t teamId email db = update_invites (live_invite teamId email) (write_replaced t) t db"

definition replace_and_create :: "auth_env \<Rightarrow> team_invite \<Rightarrow> (team_invite \<times> bool) auth_step" where
  "replace_and_create env r db =
     (let replaces = replaces_existing (now env) (ti_teamId r) (ti_email r) db in
      bind_step (if replaces then attempt (replace_live (now env) (ti_teamId r) (ti_email r)) else return ())
        (\<lambda>_. bind_step (attempt (create_invite r)) (\<lambda>row. return (row, replaces))) db)"

definition new_invite ::
  "auth_env \<Rightarrow> nat \<Rightarrow> string \<Rightarrow> string \<Rightarrow> string \<Rightarrow> string option \<Rightarrow> string \<Rightarrow> string option \<Rightarrow> team_invite" where
  "new_invite env k orgId teamId email inviteName teamRole redirectUrl =
     \<lparr>approvalStatus = ''NOT_REQUIRED'', acceptedAt = None, declinedAt = None, revokedAt = None,
      expiresAt = Some (computeInviteExpiresAt (now env)), revokedReason = None,
      ti_id = fresh_id (tenant_env env) k, ti_orgId = orgId, ti_teamId = teamId, ti_email = email,
      ti_inviteName = inviteName, ti_teamRole = teamRole, ti_redirectUrl = redirectUrl,
      ti_invitedByUserId = None, ti_invitedByName = None, ti_invitedByEmail = None,
      ti_acceptedUserId = None, ti_openedAt = None, ti_openCount = 0, ti_lastSentAt = now env,
      ti_requestedByUserId = None, ti_createdAt = now env, ti_updatedAt = now env\<rparr>"

subsection \<open>Bulk creation\<close>

datatype create_result =
  Invited_Now string team_invite_record
| Resent_Existing string team_invite_record
| Already_A_Member string
| Existing_User string
| In_Conflict string

definition read_input ::
  "client_config \<Rightarrow> invite_input \<Rightarrow> (string \<times> string option \<times> string \<times> user_identity) checked" where
  "read_input c input =
     and_then (normalizeEmail (in_email input)) (\<lambda>email.
     and_then (normalizeInviteName (in_name input)) (\<lambda>inviteName.
     and_then (normalizeInviteGrantRole (in_teamRole input) c) (\<lambda>teamRole.
     and_then (buildUserIdentity c email) (\<lambda>identity.
     Inr (email, inviteName, teamRole, identity)))))"

definition invite_one ::
  "auth_env \<Rightarrow> invite_request \<Rightarrow> organisation \<Rightarrow> team \<Rightarrow> string option \<Rightarrow> inviter \<Rightarrow> nat \<Rightarrow> invite_input \<Rightarrow>
     create_result auth_step" where
  "invite_one env p org team redirectUrl invitedBy k input =
     bind_step (reading (\<lambda>_. read_input (iq_config p) input)) (\<lambda>(email, inviteName, teamRole, identity) db.
       (let existingUser = findUserByKey db (id_userKey identity) in
        case account_verdict (iq_config p) org team existingUser db of
          Is_Member \<Rightarrow> return (Already_A_Member email) db
        | Other_Organisation \<Rightarrow> return (In_Conflict email) db
        | Sign_In_Instead \<Rightarrow> return (Existing_User email) db
        | Invite_Them \<Rightarrow>
            bind_step (replace_and_create env
               ((new_invite env k (o_id org) (t_id team) email inviteName teamRole redirectUrl)
                  \<lparr>ti_invitedByUserId := by_userId invitedBy, ti_invitedByName := by_name invitedBy,
                   ti_invitedByEmail := by_email invitedBy\<rparr>)) (\<lambda>(invite, replaced).
            bind_step (mail_invite env (iq_config p) (iq_configUrl p) k invite existingUser identity
               (o_name org) (t_name team)) (\<lambda>_.
            return (if replaced then Resent_Existing email (toInviteRecord env invite (o_domain org))
                    else Invited_Now email (toInviteRecord env invite (o_domain org))))) db))"

fun invite_each ::
  "auth_env \<Rightarrow> invite_request \<Rightarrow> organisation \<Rightarrow> team \<Rightarrow> string option \<Rightarrow> inviter \<Rightarrow> nat \<Rightarrow> invite_input list \<Rightarrow>
     create_result list auth_step" where
  "invite_each env p org team redirectUrl invitedBy k [] = return []"
| "invite_each env p org team redirectUrl invitedBy k (i # is) =
     bind_step (invite_one env p org team redirectUrl invitedBy k i) (\<lambda>r.
     bind_step (invite_each env p org team redirectUrl invitedBy (Suc k) is) (\<lambda>rs.
     return (r # rs)))"

definition normalize_inviter :: "inviter \<Rightarrow> inviter checked" where
  "normalize_inviter b =
     and_then (normalizeInviteName (by_name b)) (\<lambda>n.
     and_then (if truthy (by_email b) then and_then (normalizeEmail (the (by_email b))) (\<lambda>e. Inr (Some e))
               else Inr None) (\<lambda>e.
     Inr \<lparr>by_userId = (case map_option js_trim (by_userId b) of Some (c # cs) \<Rightarrow> Some (c # cs) | _ \<Rightarrow> None),
          by_name = n, by_email = e\<rparr>))"

definition createTeamInvites ::
  "auth_env \<Rightarrow> invite_request \<Rightarrow> inviter \<Rightarrow> invite_input list \<Rightarrow> create_result list auth_step" where
  "createTeamInvites env p invitedBy inputs =
     bind_step (reading (\<lambda>db.
       and_then (db_enabled env) (\<lambda>_.
       and_then (resolveInviteTarget db (iq_orgId p) (iq_teamId p)) (\<lambda>(org, team).
       and_then (invite_redirect env (iq_config p) (iq_redirectUrl p)) (\<lambda>redirectUrl.
       and_then (normalize_inviter invitedBy) (\<lambda>b.
       Inr (org, team, redirectUrl, b))))))) (\<lambda>(org, team, redirectUrl, b).
     invite_each env p org team redirectUrl b 0 inputs)"

subsection \<open>Reading\<close>

definition listTeamInvites :: "auth_env \<Rightarrow> invite_request \<Rightarrow> auth_db \<Rightarrow> team_invite_record list checked" where
  "listTeamInvites env p db =
     and_then (db_enabled env) (\<lambda>_.
     and_then (resolveInviteTarget db (iq_orgId p) (iq_teamId p)) (\<lambda>(org, team).
     Inr (map (\<lambda>r. toInviteRecord env r (o_domain org))
       (newest (\<lambda>r. ti_orgId r = o_id org \<and> ti_teamId r = t_id team) db))))"

definition getTeamInvite :: "auth_env \<Rightarrow> invite_request \<Rightarrow> string \<Rightarrow> auth_db \<Rightarrow> team_invite_record checked" where
  "getTeamInvite env p inviteId db =
     and_then (db_enabled env) (\<lambda>_.
     and_then (resolveInviteTarget db (iq_orgId p) (iq_teamId p)) (\<lambda>(org, team).
     case findInvite (\<lambda>r. ti_id r = inviteId \<and> ti_orgId r = o_id org \<and> ti_teamId r = t_id team) db of
       None \<Rightarrow> refuse NOT_FOUND 404
     | Some r \<Rightarrow> Inr (toInviteRecord env r (o_domain org))))"

definition pendingInviteStatusWhere :: "int \<Rightarrow> bool \<Rightarrow> team_invite \<Rightarrow> bool" where
  "pendingInviteStatusWhere t includePendingApproval r \<longleftrightarrow>
     acceptedAt r = None \<and> declinedAt r = None \<and> revokedAt r = None \<and>
     approvalStatus r \<in> (if includePendingApproval then {''NOT_REQUIRED'', ''APPROVED'', ''PENDING''}
                         else {''NOT_REQUIRED'', ''APPROVED''}) \<and>
     (case expiresAt r of None \<Rightarrow> True | Some e \<Rightarrow> t < e)"

definition getTeamInvitedEntries ::
  "auth_env \<Rightarrow> client_config \<Rightarrow> string \<Rightarrow> string \<Rightarrow> string \<Rightarrow> string option \<Rightarrow> auth_db \<Rightarrow> team_invite_record list" where
  "getTeamInvitedEntries env c orgId teamId domain actorUserId db =
     (if \<not> database_url (tenant_env env) then []
      else if \<not> hasWorkspaceCapability (tenant db) ''members.manage'' orgId (Some teamId) actorUserId c then []
      else map (\<lambda>r. toInviteRecord env r domain)
        (newest (\<lambda>r. ti_orgId r = orgId \<and> ti_teamId r = teamId \<and>
          pendingInviteStatusWhere (now env) True r) db))"

definition listPendingApprovalInvites ::
  "auth_env \<Rightarrow> string \<Rightarrow> auth_db \<Rightarrow> team_invite_record list checked" where
  "listPendingApprovalInvites env orgId db =
     and_then (db_enabled env) (\<lambda>_.
     and_then (resolveOrganisation (tenant db) orgId) (\<lambda>org.
     Inr (map (\<lambda>r. toInviteRecord env r (o_domain org))
       (newest (\<lambda>r. acceptedAt r = None \<and> declinedAt r = None \<and> revokedAt r = None \<and>
          ti_orgId r = o_id org \<and> approvalStatus r = ''PENDING'' \<and>
          (case expiresAt r of None \<Rightarrow> True | Some e \<Rightarrow> now env < e)) db))))"

definition trackTeamInviteOpen :: "auth_env \<Rightarrow> string \<Rightarrow> unit auth_step" where
  "trackTeamInviteOpen env inviteId =
     (if \<not> database_url (tenant_env env) then return ()
      else bind_step (attempt (update_invites (\<lambda>r. isActionable r \<and> ti_id r = inviteId \<and> ti_openedAt r = None)
                 (\<lambda>r. r\<lparr>ti_openedAt := Some (now env)\<rparr>) (now env))) (\<lambda>_.
           attempt (update_invites (\<lambda>r. isActionable r \<and> ti_id r = inviteId)
                 (\<lambda>r. r\<lparr>ti_openCount := Suc (ti_openCount r)\<rparr>) (now env))))"

subsection \<open>Resending\<close>

definition resend_checks ::
  "auth_env \<Rightarrow> invite_request \<Rightarrow> string \<Rightarrow> auth_db \<Rightarrow>
     (organisation \<times> team \<times> team_invite \<times> string \<times> user_identity \<times> app_user option) checked" where
  "resend_checks env p inviteId db =
     and_then (db_enabled env) (\<lambda>_.
     and_then (resolveInviteTarget db (iq_orgId p) (iq_teamId p)) (\<lambda>(org, team).
     (case findInvite (\<lambda>r. ti_id r = inviteId \<and> ti_orgId r = o_id org \<and> ti_teamId r = t_id team) db of
        None \<Rightarrow> refuse NOT_FOUND 404
      | Some invite \<Rightarrow>
          and_then (lift (assertTeamInviteTransition Resend (Some invite) (now env))) (\<lambda>_.
          and_then (normalizeInviteGrantRole (Some (ti_teamRole invite)) (iq_config p)) (\<lambda>teamRole.
          and_then (buildUserIdentity (iq_config p) (ti_email invite)) (\<lambda>identity.
          (let existingUser = findUserByKey db (id_userKey identity) in
           and_then (if existingUser \<noteq> None \<and> cfg_existing_user_behavior (iq_config p) = ''inline_sign_in''
                     then refuse_with BAD_REQUEST 409 ''EMAIL_ALREADY_REGISTERED'' else Inr ()) (\<lambda>_.
           Inr (org, team, invite, teamRole, identity, existingUser)))))))))"

definition resendTeamInvite :: "auth_env \<Rightarrow> invite_request \<Rightarrow> string \<Rightarrow> team_invite_record auth_step" where
  "resendTeamInvite env p inviteId =
     bind_step (reading (resend_checks env p inviteId))
       (\<lambda>(org, team, invite, teamRole, identity, existingUser).
     bind_step (attempt (replace_live (now env) (t_id team) (ti_email invite))) (\<lambda>_.
     bind_step (attempt (create_invite
        ((new_invite env 0 (ti_orgId invite) (ti_teamId invite) (ti_email invite) (ti_inviteName invite)
            teamRole (ti_redirectUrl invite))
           \<lparr>ti_invitedByUserId := ti_invitedByUserId invite, ti_invitedByName := ti_invitedByName invite,
            ti_invitedByEmail := ti_invitedByEmail invite\<rparr>))) (\<lambda>resent.
     bind_step (mail_invite env (iq_config p) (iq_configUrl p) 0 resent existingUser identity
        (o_name org) (t_name team)) (\<lambda>_.
     return (toInviteRecord env resent (o_domain org))))))"

subsection \<open>Revocation\<close>

definition canRevokeInvite ::
  "auth_db \<Rightarrow> string \<Rightarrow> string \<Rightarrow> string option \<Rightarrow> string option \<Rightarrow> client_config \<Rightarrow> bool" where
  "canRevokeInvite db orgId teamId actorUserId invitedByUserId c =
     (if \<not> truthy actorUserId then True
      else if hasWorkspaceCapability (tenant db) ''members.manage'' orgId (Some teamId) actorUserId c then True
      else truthy invitedByUserId \<and> invitedByUserId = actorUserId \<and>
           getOrganisationMember (tenant db) orgId (the actorUserId) True \<noteq> None)"

definition org_actor_of :: "invite_request \<Rightarrow> string option checked" where
  "org_actor_of p = resolveOrgActor \<lparr>rq_orgId = iq_orgId p, rq_actorUserId = iq_actorUserId p,
     rq_actor = iq_actor p, rq_config = iq_config p\<rparr>"

definition revoke_checks ::
  "auth_env \<Rightarrow> invite_request \<Rightarrow> string \<Rightarrow> auth_db \<Rightarrow>
     (string option \<times> organisation \<times> team \<times> team_invite \<times> bool) checked" where
  "revoke_checks env p inviteId db =
     and_then (db_enabled env) (\<lambda>_.
     and_then (org_actor_of p) (\<lambda>actorUserId.
     and_then (resolveInviteTarget db (iq_orgId p) (iq_teamId p)) (\<lambda>(org, team).
     (case findInvite (\<lambda>r. ti_id r = inviteId \<and> ti_orgId r = o_id org \<and> ti_teamId r = t_id team) db of
        None \<Rightarrow> refuse NOT_FOUND 404
      | Some invite \<Rightarrow>
          and_then (check (canRevokeInvite db (o_id org) (t_id team) actorUserId (ti_invitedByUserId invite)
                      (iq_config p)) FORBIDDEN 403) (\<lambda>_.
          (case decideTeamInviteTransition Revoke (Some invite) (now env) of
             Inl e \<Rightarrow> Inl (App e)
           | Inr (Refuse _) \<Rightarrow> refuse_with BAD_REQUEST 409 ''INVITATION_ALREADY_ACCEPTED''
           | Inr (No_Op _) \<Rightarrow> Inr (actorUserId, org, team, invite, False)
           | Inr Proceed \<Rightarrow> Inr (actorUserId, org, team, invite, True)))))))"

definition revokeTeamInvite :: "auth_env \<Rightarrow> invite_request \<Rightarrow> string \<Rightarrow> unit auth_step" where
  "revokeTeamInvite env p inviteId =
     bind_step (reading (revoke_checks env p inviteId)) (\<lambda>(actorUserId, org, team, invite, proceed).
     (if \<not> proceed then return ()
      else bind_step (attempt (update_invite (ti_id invite) (write_revoke (now env)) (now env))) (\<lambda>_.
           bind_step (writing (use_invite_tokens (ti_id invite) (now env))) (\<lambda>_.
           audit_invite env (iq_actor p) (o_id org) actorUserId ''invite.revoked'' (ti_id invite)
             [(''teamId'', Text (t_id team))]))))"

subsection \<open>Member-initiated invitations and their approval\<close>

definition member_invite_checks ::
  "auth_env \<Rightarrow> invite_request \<Rightarrow> string \<Rightarrow> invite_input \<Rightarrow> auth_db \<Rightarrow>
     (organisation \<times> team \<times> string option \<times> string \<times> (string \<times> string option \<times> string \<times> user_identity)) checked"
  where
  "member_invite_checks env p a input db =
     and_then (db_enabled env) (\<lambda>_.
     and_then (resolveInviteTarget db (iq_orgId p) (iq_teamId p)) (\<lambda>(org, team).
     and_then (invite_redirect env (iq_config p) (iq_redirectUrl p)) (\<lambda>redirectUrl.
     and_then (check (getOrganisationMember (tenant db) (o_id org) a True \<noteq> None) FORBIDDEN 403) (\<lambda>_.
     and_then
       (if hasWorkspaceCapability (tenant db) ''members.manage'' (o_id org) (Some (t_id team)) (Some a)
             (iq_config p) then Inr ''NOT_REQUIRED''
        else if findTeamMember (tenant db) (\<lambda>m. tm_teamId m = t_id team \<and> tm_userId m = a \<and>
             tm_status m = ACTIVE) = None then refuse FORBIDDEN 403
        else (case o_memberInvites org of
                Invites_Disabled \<Rightarrow> refuse FORBIDDEN 403
              | Admin_Approval \<Rightarrow> Inr ''PENDING''
              | Invites_Allowed \<Rightarrow> Inr ''NOT_REQUIRED'')) (\<lambda>approval.
     and_then (read_input (iq_config p) input) (\<lambda>inp.
     Inr (org, team, redirectUrl, approval, inp)))))))"

definition createMemberInvite :: "auth_env \<Rightarrow> invite_request \<Rightarrow> string \<Rightarrow> invite_input \<Rightarrow> unit auth_step" where
  "createMemberInvite env p a input =
     bind_step (reading (member_invite_checks env p a input))
       (\<lambda>(org, team, redirectUrl, approval, email, inviteName, teamRole, identity) db.
       (let existingUser = findUserByKey db (id_userKey identity) in
        if account_verdict (iq_config p) org team existingUser db \<noteq> Invite_Them then return () db
        else
          bind_step (replace_and_create env
             ((new_invite env 0 (o_id org) (t_id team) email inviteName teamRole redirectUrl)
                \<lparr>approvalStatus := approval, ti_invitedByUserId := Some a,
                 ti_requestedByUserId := (if approval = ''PENDING'' then Some a else None)\<rparr>))
            (\<lambda>(invite, _).
          bind_step (if approval = ''NOT_REQUIRED''
             then mail_invite env (iq_config p) (iq_configUrl p) 0 invite existingUser identity
                    (o_name org) (t_name team)
             else return ()) (\<lambda>_.
          audit_invite env (iq_actor p) (o_id org) (Some a) ''invite.created'' (ti_id invite)
            [(''teamId'', Text (t_id team)), (''approvalStatus'', Text approval)])) db))"

definition review_checks ::
  "auth_env \<Rightarrow> invite_request \<Rightarrow> string \<Rightarrow> team_invite_transition \<Rightarrow> auth_db \<Rightarrow>
     (string option \<times> organisation \<times> team_invite) checked" where
  "review_checks env p inviteId transition db =
     and_then (db_enabled env) (\<lambda>_.
     and_then (org_actor_of p) (\<lambda>reviewerUserId.
     and_then (resolveOrganisation (tenant db) (iq_orgId p)) (\<lambda>org.
     (case findInvite (\<lambda>r. ti_id r = inviteId \<and> ti_orgId r = o_id org) db of
        None \<Rightarrow> refuse NOT_FOUND 404
      | Some invite \<Rightarrow>
          and_then (lift (assertTeamInviteTransition transition (Some invite) (now env))) (\<lambda>_.
          Inr (reviewerUserId, org, invite))))))"

definition approveInvite :: "auth_env \<Rightarrow> invite_request \<Rightarrow> string \<Rightarrow> team_invite_record auth_step" where
  "approveInvite env p inviteId =
     bind_step (reading (\<lambda>db.
       and_then (review_checks env p inviteId Approve db) (\<lambda>(reviewerUserId, org, invite).
       and_then (buildUserIdentity (iq_config p) (ti_email invite)) (\<lambda>identity.
       Inr (reviewerUserId, org, invite, identity, findUserByKey db (id_userKey identity),
            (case findTeam (tenant db) (\<lambda>t. t_id t = ti_teamId invite) of Some t \<Rightarrow> t_name t | None \<Rightarrow> []))))))
       (\<lambda>(reviewerUserId, org, invite, identity, existingUser, teamName).
     (let updated = (write_approval ''APPROVED'' invite)\<lparr>ti_updatedAt := now env\<rparr> in
     bind_step (attempt (update_invite (ti_id invite) (write_approval ''APPROVED'') (now env))) (\<lambda>_.
     bind_step (mail_invite env (iq_config p) (iq_configUrl p) 0 updated existingUser identity
        (o_name org) teamName) (\<lambda>_.
     bind_step (audit_invite env (iq_actor p) (o_id org) reviewerUserId ''invite.approved'' (ti_id invite)
        [(''teamId'', Text (ti_teamId invite))]) (\<lambda>_.
     return (toInviteRecord env updated (o_domain org)))))))"

definition denyInvite :: "auth_env \<Rightarrow> invite_request \<Rightarrow> string \<Rightarrow> team_invite_record auth_step" where
  "denyInvite env p inviteId =
     bind_step (reading (review_checks env p inviteId Deny)) (\<lambda>(reviewerUserId, org, invite).
     (let updated = (write_approval ''DENIED'' invite)\<lparr>ti_updatedAt := now env\<rparr> in
     bind_step (attempt (update_invite (ti_id invite) (write_approval ''DENIED'') (now env))) (\<lambda>_.
     bind_step (audit_invite env (iq_actor p) (o_id org) reviewerUserId ''invite.denied'' (ti_id invite)
        [(''teamId'', Text (ti_teamId invite))]) (\<lambda>_.
     return (toInviteRecord env updated (o_domain org))))))"

subsection \<open>Acceptance\<close>

definition join_organisation :: "auth_env \<Rightarrow> client_config \<Rightarrow> team_invite \<Rightarrow> string option \<Rightarrow> string \<Rightarrow> unit auth_step"
  where
  "join_organisation env c invite orgDomain userId =
     attempt (\<lambda>db.
       case findMember (tenant db) (\<lambda>m. om_userId m = userId \<and>
              org_domain (tenant db) (om_orgId m) = orgDomain) of
         Some m \<Rightarrow> (if om_orgId m \<noteq> ti_orgId invite then refuse BAD_REQUEST 400 else Inr ((), db))
       | None \<Rightarrow>
           if parseOrgLimit c \<le> count_where (\<lambda>m. om_orgId m = ti_orgId invite) (org_members (tenant db))
           then refuse BAD_REQUEST 400
           else in_tenant_checked (create_org_member (new_member (fresh_id (tenant_env env) 0)
                  (ti_orgId invite) userId ''member'' (now env))) db)"

definition join_invited_team :: "auth_env \<Rightarrow> client_config \<Rightarrow> team_invite \<Rightarrow> string \<Rightarrow> unit auth_step" where
  "join_invited_team env c invite userId =
     attempt (\<lambda>db.
       if findTeamMember (tenant db) (\<lambda>m. tm_teamId m = ti_teamId invite \<and> tm_userId m = userId) \<noteq> None
       then Inr ((), db)
       else if parseMaxMembersPerTeam c \<le>
                 count_where (\<lambda>m. tm_teamId m = ti_teamId invite) (team_members (tenant db))
         then refuse BAD_REQUEST 400
       else if parseMaxTeamMembershipsPerUser c \<le>
                 count_where (\<lambda>m. tm_userId m = userId \<and>
                   team_in_org (tenant db) (ti_orgId invite) (tm_teamId m)) (team_members (tenant db))
         then refuse BAD_REQUEST 400
       else and_then (normalizeTeamRole (Some (ti_teamRole invite)) c) (\<lambda>role.
              in_tenant_checked (create_team_member (new_team_member (fresh_id (tenant_env env) 1)
                (ti_teamId invite) userId role (now env))) db))"

definition set_user_name :: "string \<Rightarrow> string option \<Rightarrow> org_db \<Rightarrow> org_db" where
  "set_user_name userId n db =
     db\<lparr>users := update_where (\<lambda>u. u_id u = userId) (\<lambda>u. u\<lparr>u_name := n\<rparr>) (users db)\<rparr>"

definition invitee_checks :: "team_invite \<Rightarrow> string \<Rightarrow> auth_db \<Rightarrow> app_user checked" where
  "invitee_checks invite userId db =
     (case findUser db userId of
        None \<Rightarrow> refuse BAD_REQUEST 400
      | Some u \<Rightarrow>
          if js_lower (u_email u) \<noteq> js_lower (ti_email invite) then refuse BAD_REQUEST 400 else Inr u)"

definition acceptTeamInviteWithinTransaction ::
  "auth_env \<Rightarrow> client_config \<Rightarrow> string \<Rightarrow> string \<Rightarrow> (string \<times> string) auth_step" where
  "acceptTeamInviteWithinTransaction env c teamInviteId userId db =
     (case findInvite (\<lambda>r. ti_id r = teamInviteId) db of
        None \<Rightarrow> (refuse BAD_REQUEST 400, db)
      | Some invite \<Rightarrow>
          (let sc = \<lparr>sc_userId = userId, sc_domain = cfg_domain c, sc_orgId = Some (ti_orgId invite),
                     sc_teamId = Some (ti_teamId invite)\<rparr>;
               placed = (ti_orgId invite, ti_teamId invite);
               orgDomain = org_domain (tenant db) (ti_orgId invite) in
           if is_set (revokedAt invite) then (refuse_with BAD_REQUEST 400 ''INVITE_REVOKED'', db)
           else if is_set (acceptedAt invite) then
             (if ti_acceptedUserId invite = Some userId
              then bind_step (lockAndAssertActiveWorkspaceScope env sc) (\<lambda>_. return placed) db
              else (refuse BAD_REQUEST 400, db))
           else
             bind_step (reading (\<lambda>_. lift (assertTeamInviteTransition Accept (Some invite) (now env)))) (\<lambda>_.
             bind_step (reading (invitee_checks invite userId)) (\<lambda>user.
             bind_step (if \<not> truthy (u_name user) \<and> truthy (ti_inviteName invite)
                then writing (in_tenant (set_user_name userId (ti_inviteName invite))) else return ()) (\<lambda>_.
             bind_step (reading (\<lambda>_. ensureOrgRole ''member'' (parseOrgFeatureRoles c))) (\<lambda>_.
             bind_step (writing (await env)) (\<lambda>_.
             bind_step (join_organisation env c invite orgDomain userId) (\<lambda>_.
             bind_step (join_invited_team env c invite userId) (\<lambda>_.
             bind_step (reading (assertActiveWorkspaceScope sc)) (\<lambda>_.
             bind_step (attempt (update_invite teamInviteId
                (\<lambda>r. (write_accept (now env) r)\<lparr>ti_acceptedUserId := Some userId\<rparr>) (now env))) (\<lambda>_.
             return placed))))))))) db))"

subsection \<open>Declining\<close>

definition declineTeamInviteForUser :: "auth_env \<Rightarrow> string \<Rightarrow> string \<Rightarrow> unit auth_step" where
  "declineTeamInviteForUser env teamInviteId userId db =
     (case findInvite (\<lambda>r. ti_id r = teamInviteId) db of
        None \<Rightarrow> (refuse BAD_REQUEST 400, db)
      | Some invite \<Rightarrow>
          if is_set (revokedAt invite) \<or> is_set (acceptedAt invite) then (refuse BAD_REQUEST 400, db)
          else
            bind_step (reading (invitee_checks invite userId)) (\<lambda>_.
            (if is_set (declinedAt invite) then return ()
             else bind_step (reading (\<lambda>_. lift (assertTeamInviteTransition Decline (Some invite) (now env)))) (\<lambda>_.
                  attempt (update_invite teamInviteId (write_decline (now env)) (now env))))) db)"

definition invite_token_types :: "string list" where
  "invite_token_types = [''LOGIN_LINK'', ''VERIFY_EMAIL'', ''VERIFY_EMAIL_SET_PASSWORD'']"

definition assertInviteTokenValid ::
  "verification_token \<Rightarrow> team_invite option \<Rightarrow> string \<Rightarrow> int \<Rightarrow> string checked" where
  "assertInviteTokenValid v invite configUrl t =
     (if vt_configUrl v \<noteq> configUrl then refuse BAD_REQUEST 400
      else if is_set (vt_usedAt v) \<or> vt_expiresAt v \<le> t then refuse BAD_REQUEST 400
      else case invite of
        None \<Rightarrow> refuse BAD_REQUEST 400
      | Some i \<Rightarrow>
          if is_set (revokedAt i) then refuse_with BAD_REQUEST 400 ''INVITE_REVOKED''
          else if is_set (acceptedAt i) \<or> is_set (declinedAt i) then refuse BAD_REQUEST 400
          else if approvalStatus i = ''DENIED'' then refuse BAD_REQUEST 400
          else if vt_type v \<notin> set invite_token_types then refuse BAD_REQUEST 400
          else Inr (vt_type v))"

definition findInviteToken :: "auth_env \<Rightarrow> string \<Rightarrow> auth_db \<Rightarrow> (verification_token \<times> team_invite option) option"
  where
  "findInviteToken env token db =
     (case List.find (\<lambda>v. vt_tokenHash v = hashEmailToken env token) (email_tokens db) of
        None \<Rightarrow> None
      | Some v \<Rightarrow> Some (v, Option.bind (vt_teamInviteId v) (\<lambda>i. findInvite (\<lambda>r. ti_id r = i) db)))"

definition getTeamInviteLandingData ::
  "auth_env \<Rightarrow> string \<Rightarrow> string \<Rightarrow> auth_db \<Rightarrow> (string \<times> team_invite) checked" where
  "getTeamInviteLandingData env token configUrl db =
     (if \<not> database_url (tenant_env env) then refuse BAD_REQUEST 400
      else case findInviteToken env token db of
        None \<Rightarrow> refuse BAD_REQUEST 400
      | Some (v, invite) \<Rightarrow>
          and_then (assertInviteTokenValid v invite configUrl (now env)) (\<lambda>tokenType.
          if resolveVerificationTokenEpoch db v = None then refuse BAD_REQUEST 400
          else (case invite of None \<Rightarrow> refuse BAD_REQUEST 400 | Some i \<Rightarrow> Inr (tokenType, i))))"

text \<open>The rows are read before the lock and judged after it.\<close>

definition declineTeamInviteByToken :: "auth_env \<Rightarrow> string \<Rightarrow> string \<Rightarrow> team_invite auth_step" where
  "declineTeamInviteByToken env token configUrl =
     (if \<not> database_url (tenant_env env) then throw (App (AppError BAD_REQUEST 400 None))
      else in_transaction env (\<lambda>db.
        case findInviteToken env token db of
          None \<Rightarrow> (refuse BAD_REQUEST 400, db)
        | Some (v, invite) \<Rightarrow>
            bind_step (lockAndReadVerificationTokenEpoch env v) (\<lambda>epoch.
            bind_step (reading (\<lambda>_. check (epoch \<noteq> None) BAD_REQUEST 400)) (\<lambda>_.
            bind_step (reading (\<lambda>_. assertInviteTokenValid v invite configUrl (now env))) (\<lambda>_.
            (case invite of
               None \<Rightarrow> reading (\<lambda>_. refuse BAD_REQUEST 400)
             | Some i \<Rightarrow>
                 bind_step (attempt (update_invite (ti_id i) (write_decline (now env)) (now env))) (\<lambda>_.
                 bind_step (writing (use_invite_tokens (ti_id i) (now env))) (\<lambda>_.
                 return i)))))) db))"

end
