(* ===== verification/Invite_Refinement.thy ===== *)
theory Invite_Refinement
  imports Invite_Service
begin

section \<open>The invitation services refine the invitation state machine\<close>

text \<open>
  The abstract specification is the state machine of \<^verbatim>\<open>Team_Invite\<close>: a ledger of rows, each of
  which lives through the steps of \<open>invite_step\<close>. Every service, whatever it returns, moves the
  table of invitations along that ledger: old rows take steps of the machine and keep their
  identity, new rows are fresh. The services that wait for locks between reading and writing an
  invitation do so as long as nothing else writes that table meanwhile; \<^verbatim>\<open>Invite_Findings\<close> shows
  what happens when something does.
\<close>

subsection \<open>The ledger\<close>

abbreviation life :: "team_invite \<Rightarrow> invite_row" where
  "life r \<equiv> invite_row.truncate r"

definition identity_of :: "team_invite \<Rightarrow> string \<times> string \<times> string \<times> string \<times> string" where
  "identity_of r = (ti_id r, ti_orgId r, ti_teamId r, ti_email r, ti_teamRole r)"

definition evolves :: "team_invite \<Rightarrow> team_invite \<Rightarrow> bool" where
  "evolves r r' \<longleftrightarrow> invite_run (life r) (life r') \<and> identity_of r' = identity_of r"

definition born :: "team_invite \<Rightarrow> bool" where
  "born r \<longleftrightarrow> (\<exists>a e. a \<in> {''NOT_REQUIRED'', ''PENDING''} \<and> invite_run (fresh_invite a (Some e)) (life r)) \<and>
     ti_teamRole r \<noteq> OWNER_ROLE"

definition ledger_step :: "team_invite list \<Rightarrow> team_invite list \<Rightarrow> bool" where
  "ledger_step rows rows' \<longleftrightarrow>
     (\<exists>old fresh. rows' = old @ fresh \<and> list_all2 evolves rows old \<and> (\<forall>r \<in> set fresh. born r))"

definition ledger_ok :: "team_invite list \<Rightarrow> bool" where
  "ledger_ok rows \<longleftrightarrow> distinct (map ti_id rows) \<and> invite_index_ok rows"

text \<open>Mail is only ever sent about an invitation that needs no approval or has it.\<close>

definition mailable :: "team_invite list \<Rightarrow> string \<Rightarrow> string \<Rightarrow> bool" where
  "mailable rows i e \<longleftrightarrow>
     (\<exists>r \<in> set rows. ti_id r = i \<and> ti_email r = e \<and> approvalStatus r \<in> {''NOT_REQUIRED'', ''APPROVED''})"

definition mails_ok :: "auth_db \<Rightarrow> bool" where
  "mails_ok s \<longleftrightarrow> (\<forall>m \<in> set (outbox s). mailable (invites s) (ml_inviteId m) (ml_to m))"

definition along_ledger :: "auth_db \<Rightarrow> auth_db \<Rightarrow> bool" where
  "along_ledger s t \<longleftrightarrow>
     (ledger_ok (invites s) \<and> mails_ok s \<longrightarrow>
        ledger_ok (invites t) \<and> mails_ok t \<and> ledger_step (invites s) (invites t))"

lemma life_sel:
  "life r = \<lparr>approvalStatus = approvalStatus r, acceptedAt = acceptedAt r, declinedAt = declinedAt r,
     revokedAt = revokedAt r, expiresAt = expiresAt r, revokedReason = revokedReason r\<rparr>"
  by (simp add: invite_row.truncate_def)

lemma life_decides: "decideTeamInviteTransition t (Some (life r)) n = decideTeamInviteTransition t (Some r) n"
  by (simp add: life_sel policy_defs invite_predicates split: team_invite_transition.splits)

lemma invite_run_trans: "invite_run a b \<Longrightarrow> invite_run b c \<Longrightarrow> invite_run a c"
  by (rotate_tac, induction rule: invite_run.induct) (auto intro: invite_run.intros)

lemma invite_run_one: "invite_step t i j \<Longrightarrow> invite_run i j"
  by (blast intro: invite_run.intros)

lemma evolves_refl [simp]: "evolves r r"
  by (simp add: evolves_def invite_run.refl)

lemma evolves_trans: "evolves a b \<Longrightarrow> evolves b c \<Longrightarrow> evolves a c"
  by (auto simp: evolves_def intro: invite_run_trans)

lemma born_evolves: "born r \<Longrightarrow> evolves r r' \<Longrightarrow> born r'"
  by (auto simp: born_def evolves_def identity_of_def intro: invite_run_trans)

lemma ledger_step_refl [simp]: "ledger_step rows rows"
  unfolding ledger_step_def by (rule exI[of _ rows]) (auto intro: list_all2_refl)

lemma all_born: "list_all2 evolves rows rows' \<Longrightarrow> \<forall>r \<in> set rows. born r \<Longrightarrow> \<forall>r \<in> set rows'. born r"
  by (induction rule: list_all2_induct) (auto intro: born_evolves)

lemma ledger_step_trans:
  assumes "ledger_step a b" and "ledger_step b c"
  shows "ledger_step a c"
proof -
  from assms obtain old1 new1 old2 new2 where
    b: "b = old1 @ new1" "list_all2 evolves a old1" "\<forall>r \<in> set new1. born r" and
    c: "c = old2 @ new2" "list_all2 evolves b old2" "\<forall>r \<in> set new2. born r"
    by (auto simp: ledger_step_def)
  from c(2)[unfolded b(1)] obtain o2 n2 where
    o2: "old2 = o2 @ n2" "list_all2 evolves old1 o2" "list_all2 evolves new1 n2"
    by (auto simp: list_all2_append1)
  have "\<forall>r \<in> set n2. born r" by (rule all_born[OF o2(3) b(3)])
  moreover have "list_all2 evolves a o2"
    by (rule list_all2_trans[OF evolves_trans b(2) o2(2)])
  ultimately show ?thesis
    unfolding ledger_step_def using c(1,3) o2(1) by (intro exI[of _ o2] exI[of _ "n2 @ new2"]) auto
qed

interpretation invite_ledger: store_order along_ledger
  by unfold_locales (auto simp: along_ledger_def intro: ledger_step_trans)

lemma approval_settled:
  "invite_step t i j \<Longrightarrow> approvalStatus i \<in> {''NOT_REQUIRED'', ''APPROVED''} \<Longrightarrow>
     approvalStatus j \<in> {''NOT_REQUIRED'', ''APPROVED''}"
  by (erule invite_stepE) (auto simp: policy_defs invite_writes split: if_splits)

lemma approval_stays_settled:
  "invite_run i j \<Longrightarrow> approvalStatus i \<in> {''NOT_REQUIRED'', ''APPROVED''} \<Longrightarrow>
     approvalStatus j \<in> {''NOT_REQUIRED'', ''APPROVED''}"
  by (induction rule: invite_run.induct) (auto dest: approval_settled)

lemma evolves_mailable:
  "list_all2 evolves rows old \<Longrightarrow> mailable rows i e \<Longrightarrow> mailable old i e"
proof (induction rule: list_all2_induct)
  case (Cons r rows r' old)
  have "approvalStatus r' \<in> {''NOT_REQUIRED'', ''APPROVED''}"
    if "approvalStatus r \<in> {''NOT_REQUIRED'', ''APPROVED''}"
    using approval_stays_settled[of "life r" "life r'"] Cons.hyps(1) that
    by (simp add: evolves_def life_sel)
  with Cons show ?case by (auto simp: mailable_def evolves_def identity_of_def)
qed (simp add: mailable_def)

lemma step_mailable: "ledger_step rows rows' \<Longrightarrow> mailable rows i e \<Longrightarrow> mailable rows' i e"
  by (auto simp: ledger_step_def mailable_def dest!: evolves_mailable[unfolded mailable_def])

lemma along_write:
  assumes "ledger_ok (invites s) \<Longrightarrow> ledger_ok (invites t) \<and> ledger_step (invites s) (invites t)"
    and "outbox t = outbox s"
  shows "along_ledger s t"
  using assms by (auto simp: along_ledger_def mails_ok_def intro: step_mailable)

subsection \<open>The writes\<close>

text \<open>A write that leaves the invitations alone.\<close>

lemma along_same [simp]: "invites t = invites s \<Longrightarrow> outbox t = outbox s \<Longrightarrow> along_ledger s t"
  by (simp add: along_write)

lemma index_after_update:
  assumes "invite_index_ok rows"
    and "\<And>r. r \<in> set rows \<Longrightarrow> P r \<Longrightarrow> isActionable (f r) \<Longrightarrow> isActionable r \<and> live_key (f r) = live_key r"
  shows "invite_index_ok (update_where P f rows) \<and>
    live_key ` set (filter isActionable (update_where P f rows)) \<subseteq> live_key ` set (filter isActionable rows)"
  using assms
proof (induction rows)
  case (Cons r rows)
  then have "invite_index_ok (update_where P f rows) \<and>
    live_key ` set (filter isActionable (update_where P f rows)) \<subseteq> live_key ` set (filter isActionable rows)"
    by (auto simp: invite_index_ok_def split: if_splits)
  moreover have "isActionable r \<and> live_key (f r) = live_key r" if "P r" "isActionable (f r)"
    using Cons.prems(2)[of r] that by simp
  ultimately show ?case
    using Cons.prems(1) by (auto simp: invite_index_ok_def split: if_splits)
qed (simp add: invite_index_ok_def)

text \<open>An update that takes each row it touches one step of the machine, or only touches columns
  outside the life cycle.\<close>

lemma along_update:
  assumes "\<And>r. r \<in> set (invites s) \<Longrightarrow> ledger_ok (invites s) \<Longrightarrow> P r \<Longrightarrow>
      evolves r (f r) \<and> (isActionable (f r) \<longrightarrow> isActionable r)"
  shows "along_ledger s (rewrite_invites P f t s)"
proof (rule along_write)
  assume ok: "ledger_ok (invites s)"
  let ?g = "\<lambda>r. (f r)\<lparr>ti_updatedAt := t\<rparr>"
  have touch: "life (x\<lparr>ti_updatedAt := t\<rparr>) = life x" "identity_of (x\<lparr>ti_updatedAt := t\<rparr>) = identity_of x"
    "isActionable (x\<lparr>ti_updatedAt := t\<rparr>) = isActionable x" "live_key (x\<lparr>ti_updatedAt := t\<rparr>) = live_key x"
    "ti_id (x\<lparr>ti_updatedAt := t\<rparr>) = ti_id x" for x
    by (simp_all add: life_sel identity_of_def invite_predicates live_key_def)
  have same: "ti_id (f r) = ti_id r" "live_key (f r) = live_key r" if "r \<in> set (invites s)" "P r" for r
    using assms[OF that(1) ok that(2)] by (simp_all add: evolves_def identity_of_def live_key_def)
  have rows: "invites (rewrite_invites P f t s) = update_where P ?g (invites s)"
    by (simp add: rewrite_invites_def)
  have "map ti_id (update_where P ?g (invites s)) = map ti_id (invites s)"
    using same(1) by (auto simp: update_where_def touch)
  moreover have "invite_index_ok (update_where P ?g (invites s))"
    by (rule index_after_update[THEN conjunct1]) (use ok assms same in \<open>auto simp: ledger_ok_def touch\<close>)
  moreover have "list_all2 evolves (invites s) (update_where P ?g (invites s))"
    using assms ok
    by (auto simp: update_where_def list_all2_map2 list_all2_same evolves_def touch invite_run.refl)
  ultimately show "ledger_ok (invites (rewrite_invites P f t s)) \<and>
      ledger_step (invites s) (invites (rewrite_invites P f t s))"
    using ok unfolding rows ledger_step_def ledger_ok_def by (metis append_Nil2 empty_iff list.set(1))
qed (simp add: rewrite_invites_def)


lemma along_updates:
  assumes "\<And>r. P r \<Longrightarrow> evolves r (f r) \<and> (isActionable (f r) \<longrightarrow> isActionable r)"
  shows "advances along_ledger (attempt (update_invites P f t))"
proof (rule invite_ledger.advances_attempt)
  fix s x u assume "update_invites P f t s = Inr (x, u)"
  then have "u = rewrite_invites P f t s" by (simp add: update_invites_Inr)
  then show "along_ledger s u" using along_update[of s P f t] assms by simp
qed

lemma along_create:
  assumes "create_invite r s = Inr (x, t)" and "born r"
  shows "along_ledger s t"
proof -
  from assms(1) have t: "invites t = invites s @ [r]" "ti_id r \<notin> ti_id ` set (invites s)"
    "invite_index_ok (invites s @ [r])"
    by (auto simp: create_invite_def split: if_splits)
  have "ledger_step (invites s) (invites s @ [r])"
    unfolding ledger_step_def using assms(2) by (intro exI[of _ "invites s"] exI[of _ "[r]"])
      (auto intro: list_all2_refl)
  moreover have "outbox t = outbox s" using assms(1) by (auto simp: create_invite_def split: if_splits)
  ultimately show ?thesis using t by (auto intro!: along_write simp: ledger_ok_def)
qed

lemma life_writes:
  "life (write_replaced t r) = write_replaced t (life r)" "life (write_accept t r) = write_accept t (life r)"
  "life (write_decline t r) = write_decline t (life r)" "life (write_revoke t r) = write_revoke t (life r)"
  "life (write_approval a r) = write_approval a (life r)" "life (r\<lparr>ti_acceptedUserId := u\<rparr>) = life r"
  by (simp_all add: life_sel invite_writes)

lemma identity_writes:
  "identity_of (write_replaced t r) = identity_of r" "identity_of (write_accept t r) = identity_of r"
  "identity_of (write_decline t r) = identity_of r" "identity_of (write_revoke t r) = identity_of r"
  "identity_of (write_approval a r) = identity_of r" "identity_of (r\<lparr>ti_acceptedUserId := u\<rparr>) = identity_of r"
  by (simp_all add: identity_of_def invite_writes)

lemma evolves_step:
  "invite_step t (life r) (life r') \<Longrightarrow> identity_of r' = identity_of r \<Longrightarrow> evolves r r'"
  by (simp add: evolves_def invite_run_one)

lemma decision_steps:
  assumes "decideTeamInviteTransition d (Some r) t = Inr Proceed"
  shows "d = Accept \<Longrightarrow> evolves r ((write_accept t r)\<lparr>ti_acceptedUserId := u\<rparr>)"
    "d = Decline \<Longrightarrow> evolves r (write_decline t r)" "d = Revoke \<Longrightarrow> evolves r (write_revoke t r)"
    "d = Approve \<Longrightarrow> evolves r (write_approval ''APPROVED'' r)"
    "d = Deny \<Longrightarrow> evolves r (write_approval ''DENIED'' r)"
  using assms
  by (auto intro!: evolves_step[of t] invite_step.intros[where now = t]
      simp: life_writes identity_writes life_decides)

lemma life_actionable [simp]: "isActionable (life r) = isActionable r"
  by (simp add: life_sel invite_predicates)

lemma replaced_step: "isActionable r \<Longrightarrow> evolves r (write_replaced t r)"
  by (rule evolves_step[of t])
    (auto simp: life_writes identity_writes policy_defs intro!: invite_step.replace)

lemma born_fresh:
  "life r = fresh_invite a (Some e) \<Longrightarrow> a \<in> {''NOT_REQUIRED'', ''PENDING''} \<Longrightarrow>
     ti_teamRole r \<noteq> OWNER_ROLE \<Longrightarrow> born r"
  unfolding born_def by (metis invite_run.refl)

lemma new_invite_born:
  assumes "role \<noteq> OWNER_ROLE"
  shows "a \<in> {''NOT_REQUIRED'', ''PENDING''} \<Longrightarrow>
      born ((new_invite env k i j m n role red)\<lparr>approvalStatus := a, ti_invitedByUserId := x,
        ti_requestedByUserId := y\<rparr>)"
    "born ((new_invite env k i j m n role red)\<lparr>ti_invitedByUserId := x, ti_invitedByName := y',
       ti_invitedByEmail := z\<rparr>)"
  using assms
  by (auto intro!: born_fresh[where e = "computeInviteExpiresAt (now env)"]
      simp: new_invite_def life_sel fresh_invite_def)

lemma grant_role_not_owner: "normalizeInviteGrantRole v c = Inr r \<Longrightarrow> r \<noteq> OWNER_ROLE"
  by (auto simp: normalizeInviteGrantRole_def and_then_Inr_iff split: if_splits)

subsection \<open>Steps that read the table once\<close>

text \<open>\<open>along_from P m\<close>: started on a store with \<open>P\<close>, the step \<open>m\<close> moves along the ledger.\<close>

definition along_from :: "(auth_db \<Rightarrow> bool) \<Rightarrow> 'a auth_step \<Rightarrow> bool" where
  "along_from P m \<longleftrightarrow> (\<forall>s. P s \<longrightarrow> along_ledger s (snd (m s)))"

definition keeps_invites :: "'a auth_step \<Rightarrow> bool" where
  "keeps_invites m \<longleftrightarrow> (\<forall>s. invites (snd (m s)) = invites s \<and> outbox (snd (m s)) = outbox s)"

lemma along_from_top: "advances along_ledger m = along_from (\<lambda>_. True) m"
  by (simp add: along_from_def advances_def)

lemma along_from_weaken: "along_from P m \<Longrightarrow> (\<And>s. Q s \<Longrightarrow> P s) \<Longrightarrow> along_from Q m"
  by (simp add: along_from_def)

lemma along_any: "advances along_ledger m \<Longrightarrow> along_from P m"
  by (simp add: along_from_def advances_def)

lemma keepsD: "keeps_invites m \<Longrightarrow> m s = (r, u) \<Longrightarrow> invites u = invites s \<and> outbox u = outbox s"
  by (metis keeps_invites_def snd_conv)

lemma along_bind:
  assumes "along_from P m"
    and "\<And>s x u. P s \<Longrightarrow> m s = (Inr x, u) \<Longrightarrow> Q x u"
    and "\<And>x. along_from (Q x) (f x)"
  shows "along_from P (bind_step m f)"
  unfolding along_from_def
proof (intro allI impI)
  fix s assume s: "P s"
  obtain r u where m: "m s = (r, u)" by (cases "m s")
  with assms(1) s have su: "along_ledger s u" by (metis along_from_def snd_conv)
  show "along_ledger s (snd (bind_step m f s))"
  proof (cases r)
    case (Inl e)
    with m su show ?thesis by (simp add: bind_step_def)
  next
    case (Inr x)
    with assms(2,3) s m have "along_ledger u (snd (f x u))" by (simp add: along_from_def)
    with su m Inr show ?thesis by (auto simp: bind_step_def intro: invite_ledger.trans)
  qed
qed

lemma along_read:
  assumes "\<And>s x. P s \<Longrightarrow> g s = Inr x \<Longrightarrow> along_from P (f x)"
  shows "along_from P (bind_step (reading g) f)"
  using assms by (auto simp: along_from_def bind_step_def reading_def split: sum.splits)

lemma along_keeps:
  assumes "keeps_invites m" and "\<And>s u. P s \<Longrightarrow> invites u = invites s \<Longrightarrow> P u" and "\<And>x. along_from P (f x)"
  shows "along_from P (bind_step m f)"
proof (rule along_bind[where Q = "\<lambda>_. P"])
  show "along_from P m" using assms(1) by (simp add: along_from_def keeps_invites_def)
  show "P u" if "P s" "m s = (Inr x, u)" for s x u
    using keepsD[OF assms(1) that(2)] assms(2) that(1) by blast
qed (rule assms(3))

lemma along_last:
  assumes "along_from P m" and "\<And>x. advances along_ledger (f x)"
  shows "along_from P (bind_step m f)"
  by (rule along_bind[where Q = "\<lambda>_ _. True", OF assms(1)]) (simp_all add: along_any assms(2))

lemma along_state: "(\<And>db. P db \<Longrightarrow> along_from P (h db)) \<Longrightarrow> along_from P (\<lambda>db. h db db)"
  by (simp add: along_from_def)

lemma along_attempt: "(\<And>s x t. P s \<Longrightarrow> g s = Inr (x, t) \<Longrightarrow> along_ledger s t) \<Longrightarrow> along_from P (attempt g)"
  by (auto simp: along_from_def attempt_def split: sum.splits)

lemma along_writing: "(\<And>s. P s \<Longrightarrow> along_ledger s (w s)) \<Longrightarrow> along_from P (writing w)"
  by (simp add: along_from_def writing_def)

lemma along_pure: "along_from P (return x)" "along_from P (throw e)" "along_from P (reading g)"
  by (simp_all add: along_any invite_ledger.advances_pure)

lemma along_if: "(b \<Longrightarrow> along_from P m) \<Longrightarrow> (\<not> b \<Longrightarrow> along_from P n) \<Longrightarrow> along_from P (if b then m else n)"
  by simp

lemma keeps_basic:
  "keeps_invites (return x)" "keeps_invites (throw e)" "keeps_invites (reading g)"
  "(\<And>s. invites (w s) = invites s \<and> outbox (w s) = outbox s) \<Longrightarrow> keeps_invites (writing w)"
  "(\<And>s y t. a s = Inr (y, t) \<Longrightarrow> invites t = invites s \<and> outbox t = outbox s) \<Longrightarrow> keeps_invites (attempt a)"
  by (auto simp: keeps_invites_def return_def throw_def reading_def writing_def attempt_def split: sum.splits)

lemma keeps_bind:
  assumes "keeps_invites m" and "\<And>x. keeps_invites (f x)"
  shows "keeps_invites (bind_step m f)"
  unfolding keeps_invites_def
proof
  fix s
  obtain r u where m: "m s = (r, u)" by (cases "m s")
  with keepsD[OF assms(1) m] assms(2)
  show "invites (snd (bind_step m f s)) = invites s \<and> outbox (snd (bind_step m f s)) = outbox s"
    by (cases r) (simp_all add: bind_step_def keeps_invites_def)
qed

lemma keeps_advances: "keeps_invites m \<Longrightarrow> advances along_ledger m"
  by (simp add: advances_def keeps_invites_def)

lemma keeps_writes:
  "keeps_invites (audit_invite env a oi ua ac ii md)" "keeps_invites (writing (use_invite_tokens ii t))"
  "keeps_invites (issueInviteToken env c u k i x e idt)"
  unfolding audit_invite_def issueInviteToken_def Let_def
  by (intro keeps_bind keeps_basic; auto simp: use_invite_tokens_def create_token_def split: if_splits)+

lemma mail_along:
  "along_from (\<lambda>s. mailable (invites s) (ti_id r) (ti_email r)) (mail_invite env c u k r x idt onm tnm)"
  unfolding mail_invite_def
  by (rule along_keeps[OF keeps_writes(3)])
    (auto intro!: along_writing simp: along_ledger_def send_mail_def mails_ok_def mailable_def)

text \<open>One row, found by the filter of a service and written by its identifier.\<close>

lemma along_update_found:
  assumes found: "List.find P (invites s) = Some i" and "\<And>r. P r \<Longrightarrow> ti_id r = j"
    and "evolves i (f i)" and "isActionable (f i) \<Longrightarrow> isActionable i"
  shows "along_ledger s (rewrite_invites (\<lambda>r. ti_id r = j) f t s)"
proof (rule along_update)
  fix r assume r: "r \<in> set (invites s)" "ledger_ok (invites s)" "ti_id r = j"
  from find_Some_set[OF found] assms(2) have "i \<in> set (invites s)" "ti_id i = j" by auto
  with r have "r = i" by (metis distinct_key_eq ledger_ok_def)
  with assms(3,4) show "evolves r (f r) \<and> (isActionable (f r) \<longrightarrow> isActionable r)" by simp
qed

lemma proceeds: "assertTeamInviteTransition d i t = Inr u \<Longrightarrow> decideTeamInviteTransition d i t = Inr Proceed"
  by (auto simp: assertTeamInviteTransition_def split: sum.splits if_splits)

subsection \<open>The handlers\<close>

lemma replaced_dead: "\<not> isActionable (write_replaced t r)"
  by (simp add: invite_predicates write_replaced_def)

lemma replace_live_along: "advances along_ledger (attempt (replace_live t teamId email))"
  unfolding replace_live_def
  by (rule along_updates) (simp add: live_invite_def replaced_step replaced_dead)

lemma create_along: "born r \<Longrightarrow> advances along_ledger (attempt (create_invite r))"
  by (rule invite_ledger.advances_attempt) (rule along_create)

lemma create_mailable:
  "attempt (create_invite r) s = (Inr x, t) \<Longrightarrow> approvalStatus r \<in> {''NOT_REQUIRED'', ''APPROVED''} \<Longrightarrow>
     x = r \<and> mailable (invites t) (ti_id x) (ti_email x)"
  by (auto simp: attempt_def create_invite_def mailable_def split: sum.splits if_splits)

lemma replace_and_create_along: "born r \<Longrightarrow> advances along_ledger (replace_and_create env r)"
  unfolding along_from_top replace_and_create_def Let_def
  by (rule along_state)
    (simp add: along_from_top[symmetric] replace_live_along create_along
      invite_ledger.advances_bind invite_ledger.advances_pure)

lemma replace_and_create_mailable:
  "replace_and_create env r s = (Inr (x, b), t) \<Longrightarrow> approvalStatus r \<in> {''NOT_REQUIRED'', ''APPROVED''} \<Longrightarrow>
     x = r \<and> mailable (invites t) (ti_id x) (ti_email x)"
  by (auto simp: replace_and_create_def Let_def auth_steps dest!: create_mailable[unfolded attempt_value]
      split: if_splits)

lemma new_invite_sel [simp]:
  "approvalStatus (new_invite env k i j m n role red) = ''NOT_REQUIRED''"
  by (simp add: new_invite_def)

lemma read_input_role: "read_input c i = Inr (e, n, role, idt) \<Longrightarrow> role \<noteq> OWNER_ROLE"
  by (auto simp: read_input_def and_then_Inr_iff dest: grant_role_not_owner)

lemma snd_along: "advances along_ledger m \<Longrightarrow> along_ledger s (snd (m s))"
  by (simp add: advances_def)

lemma create_then:
  assumes "born r"
    and "\<And>x b. along_from (\<lambda>s. approvalStatus r \<in> {''NOT_REQUIRED'', ''APPROVED''} \<longrightarrow>
      mailable (invites s) (ti_id x) (ti_email x)) (f x b)"
  shows "advances along_ledger (bind_step (replace_and_create env r) (\<lambda>(x, b). f x b))"
  unfolding along_from_top
proof (rule along_bind[where Q = "\<lambda>(x, _) s. approvalStatus r \<in> {''NOT_REQUIRED'', ''APPROVED''} \<longrightarrow>
      mailable (invites s) (ti_id x) (ti_email x)"])
  show "along_from (\<lambda>_. True) (replace_and_create env r)"
    by (rule along_any, rule replace_and_create_along, rule assms(1))
  show "(case y of (x, _) \<Rightarrow> \<lambda>s. approvalStatus r \<in> {''NOT_REQUIRED'', ''APPROVED''} \<longrightarrow>
      mailable (invites s) (ti_id x) (ti_email x)) t"
    if "replace_and_create env r s = (Inr y, t)" for s y t
    using replace_and_create_mailable that by (cases y) fastforce
  show "along_from ((case y of (x, _) \<Rightarrow> \<lambda>s. approvalStatus r \<in> {''NOT_REQUIRED'', ''APPROVED''} \<longrightarrow>
      mailable (invites s) (ti_id x) (ti_email x))) (case y of (x, b) \<Rightarrow> f x b)" for y
    using assms(2) by (cases y) simp
qed

lemma create_and_mail_along:
  assumes "born r" and "approvalStatus r \<in> {''NOT_REQUIRED'', ''APPROVED''}"
    and "\<And>x b. advances along_ledger (f x b)"
  shows "advances along_ledger (bind_step (replace_and_create env r) (\<lambda>(x, b).
     bind_step (mail_invite env c u k x ex idt onm tnm) (\<lambda>_. f x b)))"
  by (rule create_then[OF assms(1)], rule along_last)
    (use assms(2,3) in \<open>auto intro!: along_from_weaken[OF mail_along]\<close>)

lemma invite_one_along: "advances along_ledger (invite_one env p org team red b k i)"
  unfolding invite_one_def along_from_top
proof (rule along_read, clarify, unfold along_from_def, intro allI impI)
  fix email n role idt s assume "read_input (iq_config p) i = Inr (email, n, role, idt)"
  then have role: "role \<noteq> OWNER_ROLE" by (rule read_input_role)
  have mail: "along_ledger s (snd (bind_step (replace_and_create env
      ((new_invite env k (o_id org) (t_id team) email n role red)
        \<lparr>ti_invitedByUserId := by_userId b, ti_invitedByName := by_name b,
         ti_invitedByEmail := by_email b\<rparr>)) (\<lambda>(x, r).
      bind_step (mail_invite env (iq_config p) (iq_configUrl p) k x ex idt (o_name org) (t_name team))
        (\<lambda>_. return (f x r))) s))" for ex f
    by (rule snd_along, rule create_and_mail_along)
      (simp_all add: new_invite_born role invite_ledger.advances_pure)
  show "along_ledger s (snd (let existingUser = findUserByKey s (id_userKey idt) in
      case account_verdict (iq_config p) org team existingUser s of
        Invite_Them \<Rightarrow> bind_step (replace_and_create env
          ((new_invite env k (o_id org) (t_id team) email n role red)
            \<lparr>ti_invitedByUserId := by_userId b, ti_invitedByName := by_name b,
             ti_invitedByEmail := by_email b\<rparr>)) (\<lambda>(invite, replaced).
          bind_step (mail_invite env (iq_config p) (iq_configUrl p) k invite existingUser idt
            (o_name org) (t_name team)) (\<lambda>_.
          return (if replaced then Resent_Existing email (toInviteRecord env invite (o_domain org))
                  else Invited_Now email (toInviteRecord env invite (o_domain org))))) s
      | Is_Member \<Rightarrow> return (Already_A_Member email) s
      | Other_Organisation \<Rightarrow> return (In_Conflict email) s
      | Sign_In_Instead \<Rightarrow> return (Existing_User email) s))"
    unfolding Let_def by (split account_verdict.split) (auto intro: mail simp: snd_along invite_ledger.advances_pure)
qed

lemma invite_each_along: "advances along_ledger (invite_each env p org team red b k inputs)"
  by (induction inputs arbitrary: k)
    (auto intro!: invite_ledger.advances_bind invite_ledger.advances_pure invite_one_along)

lemma createTeamInvites_along: "advances along_ledger (createTeamInvites env p b inputs)"
  unfolding createTeamInvites_def
  by (rule invite_ledger.advances_bind[OF invite_ledger.advances_pure(3)]) (auto intro: invite_each_along)

lemma trackTeamInviteOpen_along: "advances along_ledger (trackTeamInviteOpen env i)"
  unfolding trackTeamInviteOpen_def
  by (intro invite_ledger.advances_if invite_ledger.advances_bind along_updates
      invite_ledger.advances_pure)
    (auto simp: evolves_def life_sel identity_of_def invite_run.refl invite_predicates)

lemma resendTeamInvite_along: "advances along_ledger (resendTeamInvite env p i)"
  unfolding resendTeamInvite_def along_from_top
proof (rule along_read, clarify)
  fix s org team invite teamRole idt ex
  assume "resend_checks env p i s = Inr (org, team, invite, teamRole, idt, ex)"
  then have role: "teamRole \<noteq> OWNER_ROLE"
    by (auto simp: resend_checks_def and_then_Inr_iff Let_def dest!: grant_role_not_owner
        split: option.splits if_splits)
  let ?row = "(new_invite env 0 (ti_orgId invite) (ti_teamId invite) (ti_email invite) (ti_inviteName invite)
      teamRole (ti_redirectUrl invite))\<lparr>ti_invitedByUserId := ti_invitedByUserId invite,
      ti_invitedByName := ti_invitedByName invite, ti_invitedByEmail := ti_invitedByEmail invite\<rparr>"
  have "along_from (\<lambda>_. True) (bind_step (attempt (create_invite ?row)) (\<lambda>resent.
      bind_step (mail_invite env (iq_config p) (iq_configUrl p) 0 resent ex idt (o_name org) (t_name team))
        (\<lambda>_. return (toInviteRecord env resent (o_domain org)))))"
  proof (rule along_bind[where Q = "\<lambda>x s. mailable (invites s) (ti_id x) (ti_email x)"])
    show "along_from (\<lambda>_. True) (attempt (create_invite ?row))"
      by (rule along_any, rule create_along, rule new_invite_born, rule role)
    show "mailable (invites u) (ti_id x) (ti_email x)" if "attempt (create_invite ?row) s' = (Inr x, u)" for s' x u
      by (rule create_mailable[OF that, THEN conjunct2]) simp
  qed (intro along_last mail_along invite_ledger.advances_pure)
  then show "along_from (\<lambda>_. True) (bind_step
      (attempt (replace_live (now env) (t_id team) (ti_email invite))) (\<lambda>_.
      bind_step (attempt (create_invite ?row)) (\<lambda>resent.
      bind_step (mail_invite env (iq_config p) (iq_configUrl p) 0 resent ex idt (o_name org) (t_name team))
        (\<lambda>_. return (toInviteRecord env resent (o_domain org))))))"
    by (intro along_last along_any replace_live_along) (simp add: along_from_top)
qed

text \<open>Writes guided by a decision.\<close>

lemma decided_write:
  assumes "findInvite P s = Some i" and "\<And>r. P r \<Longrightarrow> ti_id r = j"
    and "evolves i (f i)" and "isActionable (f i) \<Longrightarrow> isActionable i"
  shows "along_from (\<lambda>u. invites u = invites s) (attempt (update_invite j f t))"
proof (rule along_attempt)
  fix u v :: auth_db and x assume "invites u = invites s" and upd: "update_invite j f t u = Inr (x, v)"
  with assms(1) have "List.find P (invites u) = Some i" by (simp add: findInvite_def)
  then show "along_ledger u v"
    using upd along_update_found assms(2-4) by (auto simp: update_invite_Inr update_invites_Inr)
qed

lemma still_actionable:
  "isActionable (write_revoke t r) = False" "isActionable (write_decline t r) = False"
  "isActionable ((write_accept t r)\<lparr>ti_acceptedUserId := u\<rparr>) = False"
  "isActionable (write_approval ''DENIED'' r) = False"
  "isActionable (write_approval ''APPROVED'' r) \<Longrightarrow> decideTeamInviteTransition Approve (Some r) t' = Inr Proceed \<Longrightarrow>
     isActionable r"
  by (auto simp: invite_predicates invite_writes policy_defs split: if_splits)

lemma read_rows:
  assumes "\<And>s x. g s = Inr x \<Longrightarrow> along_from (\<lambda>u. invites u = invites s) (f x)"
  shows "advances along_ledger (bind_step (reading g) f)"
  unfolding along_from_top
  using assms by (auto simp: along_from_def bind_step_def reading_def split: sum.splits)

lemma revoke_decides:
  assumes "revoke_checks env p i s = Inr (a, org, team, invite, proceed)"
  shows "findInvite (\<lambda>r. ti_id r = i \<and> ti_orgId r = o_id org \<and> ti_teamId r = t_id team) s = Some invite"
    "proceed = (decideTeamInviteTransition Revoke (Some invite) (now env) = Inr Proceed)"
  using assms unfolding revoke_checks_def
  by (auto elim!: and_thenE split: option.splits sum.splits transition_decision.splits)

lemma review_decides:
  "review_checks env p i d s = Inr (a, org, invite) \<Longrightarrow>
     findInvite (\<lambda>r. ti_id r = i \<and> ti_orgId r = o_id org) s = Some invite \<and>
     decideTeamInviteTransition d (Some invite) (now env) = Inr Proceed"
  by (auto simp: review_checks_def and_then_Inr_iff dest!: proceeds split: option.split_asm)

lemma found_id: "findInvite P s = Some i \<Longrightarrow> P i"
  by (auto simp: findInvite_def dest: find_Some_set)

lemma revokeTeamInvite_along: "advances along_ledger (revokeTeamInvite env p i)"
  unfolding revokeTeamInvite_def
proof (rule read_rows, clarify)
  fix s a org team invite proceed assume "revoke_checks env p i s = Inr (a, org, team, invite, proceed)"
  note found = revoke_decides[OF this] and at_i = found_id[OF revoke_decides(1)[OF this]]
  have "along_from (\<lambda>u. invites u = invites s)
      (attempt (update_invite (ti_id invite) (write_revoke (now env)) (now env)))" if proceed
    by (rule decided_write[OF found(1)])
      (use found(2) that at_i in \<open>auto simp: still_actionable intro: decision_steps(3)\<close>)
  then show "along_from (\<lambda>u. invites u = invites s) (if \<not> proceed then return ()
      else bind_step (attempt (update_invite (ti_id invite) (write_revoke (now env)) (now env))) (\<lambda>_.
           bind_step (writing (use_invite_tokens (ti_id invite) (now env))) (\<lambda>_.
           audit_invite env (iq_actor p) (o_id org) a ''invite.revoked'' (ti_id invite)
             [(''teamId'', Text (t_id team))])))"
    by (auto intro!: along_last along_pure keeps_advances keeps_bind keeps_writes)
qed

lemma review_write:
  assumes "review_checks env p i d s = Inr (a, org, invite)"
  shows "d = Approve \<Longrightarrow> along_from (\<lambda>u. invites u = invites s)
      (attempt (update_invite (ti_id invite) (write_approval ''APPROVED'') (now env)))"
    "d = Deny \<Longrightarrow> along_from (\<lambda>u. invites u = invites s)
      (attempt (update_invite (ti_id invite) (write_approval ''DENIED'') (now env)))"
proof -
  note found = review_decides[OF assms]
  show "d = Approve \<Longrightarrow> along_from (\<lambda>u. invites u = invites s)
      (attempt (update_invite (ti_id invite) (write_approval ''APPROVED'') (now env)))"
    by (rule decided_write[OF found[THEN conjunct1]])
      (use found found_id[OF found[THEN conjunct1]] in
        \<open>auto intro: decision_steps(4) still_actionable(5)\<close>)
  show "d = Deny \<Longrightarrow> along_from (\<lambda>u. invites u = invites s)
      (attempt (update_invite (ti_id invite) (write_approval ''DENIED'') (now env)))"
    by (rule decided_write[OF found[THEN conjunct1]])
      (use found found_id[OF found[THEN conjunct1]] in
        \<open>auto simp: still_actionable intro: decision_steps(5)\<close>)
qed

lemma denyInvite_along: "advances along_ledger (denyInvite env p i)"
  unfolding denyInvite_def Let_def
  by (rule read_rows, clarify)
    (intro along_last review_write(2)[OF _ HOL.refl] keeps_advances keeps_bind keeps_writes keeps_basic)

lemma member_checked:
  assumes "member_invite_checks env p a i s = Inr (org, team, red, approval, email, n, role, idt)"
  shows "role \<noteq> OWNER_ROLE" "approval \<in> {''NOT_REQUIRED'', ''PENDING''}"
  using assms unfolding member_invite_checks_def
  by (auto elim!: and_thenE dest!: read_input_role split: org_member_invites.splits if_splits)

lemma createMemberInvite_along: "advances along_ledger (createMemberInvite env p a i)"
  unfolding createMemberInvite_def along_from_top
proof (rule along_read, clarify, unfold along_from_def, intro allI impI)
  fix s org team red approval email n role idt s'
  assume "member_invite_checks env p a i s = Inr (org, team, red, approval, email, n, role, idt)"
  note ok = member_checked[OF this]
  have "along_ledger s' (snd (bind_step (replace_and_create env
      ((new_invite env 0 (o_id org) (t_id team) email n role red)\<lparr>approvalStatus := approval,
         ti_invitedByUserId := Some a, ti_requestedByUserId := (if approval = ''PENDING'' then Some a else None)\<rparr>))
      (\<lambda>(invite, _). bind_step (if approval = ''NOT_REQUIRED''
           then mail_invite env (iq_config p) (iq_configUrl p) 0 invite ex idt (o_name org) (t_name team)
           else return ())
        (\<lambda>_. audit_invite env (iq_actor p) (o_id org) (Some a) ''invite.created'' (ti_id invite)
               [(''teamId'', Text (t_id team)), (''approvalStatus'', Text approval)])) s'))" for ex
    by (rule snd_along, rule create_then, rule new_invite_born(1)[OF ok], rule along_last, rule along_if)
      (auto intro!: along_from_weaken[OF mail_along] along_pure keeps_advances keeps_writes)
  then show "along_ledger s' (snd (let existingUser = findUserByKey s' (id_userKey idt) in
      if account_verdict (iq_config p) org team existingUser s' \<noteq> Invite_Them then return () s'
      else bind_step (replace_and_create env
        ((new_invite env 0 (o_id org) (t_id team) email n role red)\<lparr>approvalStatus := approval,
         ti_invitedByUserId := Some a, ti_requestedByUserId := (if approval = ''PENDING'' then Some a else None)\<rparr>))
      (\<lambda>(invite, _). bind_step (if approval = ''NOT_REQUIRED''
           then mail_invite env (iq_config p) (iq_configUrl p) 0 invite existingUser idt (o_name org) (t_name team)
           else return ())
        (\<lambda>_. audit_invite env (iq_actor p) (o_id org) (Some a) ''invite.created'' (ti_id invite)
               [(''teamId'', Text (t_id team)), (''approvalStatus'', Text approval)])) s'))"
    unfolding Let_def by (simp add: snd_along invite_ledger.advances_pure)
qed

lemma approved_mailable:
  assumes "findInvite P s = Some i" and "invites u = invites s"
    and "update_invite (ti_id i) (write_approval ''APPROVED'') t u = Inr (x, v)"
  shows "mailable (invites v) (ti_id i) (ti_email i)"
proof -
  from assms(1) have "i \<in> set (invites s)" by (auto simp: findInvite_def dest: find_Some_set)
  then have "(write_approval ''APPROVED'' i)\<lparr>ti_updatedAt := t\<rparr> \<in> set (invites v)" (is "?j \<in> _")
    using assms(2,3)
    by (auto simp: update_invite_Inr update_invites_Inr rewrite_invites_def update_where_def
        intro!: image_eqI[of _ _ i])
  then show ?thesis unfolding mailable_def by (rule bexI[rotated]) (simp add: write_approval_def)
qed

lemma approveInvite_along: "advances along_ledger (approveInvite env p i)"
  unfolding approveInvite_def Let_def
proof (rule read_rows, clarify)
  fix s a org invite idt ex teamName
  assume "and_then (review_checks env p i Approve s) (\<lambda>(a, org, invite).
      and_then (buildUserIdentity (iq_config p) (ti_email invite)) (\<lambda>identity.
      Inr (a, org, invite, identity, findUserByKey s (id_userKey identity),
        (case findTeam (tenant s) (\<lambda>t. t_id t = ti_teamId invite) of Some t \<Rightarrow> t_name t | None \<Rightarrow> [])))) =
    Inr (a, org, invite, idt, ex, teamName)"
  then have ok: "review_checks env p i Approve s = Inr (a, org, invite)" by (auto elim!: and_thenE)
  note found = review_decides[OF ok, THEN conjunct1]
  let ?upd = "(write_approval ''APPROVED'' invite)\<lparr>ti_updatedAt := now env\<rparr>"
  show "along_from (\<lambda>u. invites u = invites s)
    (bind_step (attempt (update_invite (ti_id invite) (write_approval ''APPROVED'') (now env))) (\<lambda>_.
     bind_step (mail_invite env (iq_config p) (iq_configUrl p) 0 ?upd ex idt (o_name org) teamName) (\<lambda>_.
     bind_step (audit_invite env (iq_actor p) (o_id org) a ''invite.approved'' (ti_id invite)
        [(''teamId'', Text (ti_teamId invite))]) (\<lambda>_.
     return (toInviteRecord env ?upd (o_domain org))))))"
  proof (rule along_bind[where Q = "\<lambda>_ s. mailable (invites s) (ti_id ?upd) (ti_email ?upd)"])
    show "mailable (invites v) (ti_id ?upd) (ti_email ?upd)"
      if "invites u = invites s"
        "attempt (update_invite (ti_id invite) (write_approval ''APPROVED'') (now env)) u = (Inr x, v)" for u x v
      using approved_mailable[OF found that(1), of "now env"] that(2)
      by (auto simp: attempt_value write_approval_def)
  qed (intro along_last mail_along review_write(1)[OF ok HOL.refl] keeps_advances keeps_bind keeps_writes
      keeps_basic)+
qed

subsection \<open>Handlers that wait for locks\<close>

definition quiet_locks :: "auth_env \<Rightarrow> bool" where
  "quiet_locks env \<longleftrightarrow> (\<forall>s. invites (await env s) = invites s \<and> outbox (await env s) = outbox s)"

lemma quiet_locksD: "quiet_locks env \<Longrightarrow> invites (await env s) = invites s \<and> outbox (await env s) = outbox s"
  by (simp add: quiet_locks_def)

lemma in_transaction_along:
  "quiet_locks env \<Longrightarrow> advances along_ledger m \<Longrightarrow> advances along_ledger (in_transaction env m)"
  by (auto simp: advances_def in_transaction_def quiet_locksD split: prod.splits sum.splits)
    (metis snd_conv)

lemma keeps_joins:
  "keeps_invites (join_organisation env c i d u)" "keeps_invites (join_invited_team env c i u)"
  unfolding join_organisation_def join_invited_team_def
  by (auto intro!: keeps_basic(5) simp: in_tenant_checked_Inr and_then_Inr_iff split: option.splits if_splits)

lemma keeps_locks:
  assumes "quiet_locks env"
  shows "keeps_invites (lockAndAssertActiveWorkspaceScope env sc)"
    "keeps_invites (lockAndReadVerificationTokenEpoch env v)" "keeps_invites (writing (await env))"
  by (auto simp: keeps_invites_def lockAndAssertActiveWorkspaceScope_def Let_def writing_def
      lockAndReadVerificationTokenEpoch_def quiet_locksD[OF assms])

lemma keeps_naming:
  "keeps_invites (if b then writing (in_tenant w) else return ())"
  by (auto intro: keeps_basic)

lemma keep_rows:
  assumes "keeps_invites m" and "\<And>x. along_from (\<lambda>u. invites u = rows) (f x)"
  shows "along_from (\<lambda>u. invites u = rows) (bind_step m f)"
  by (rule along_keeps[OF assms(1)]) (simp_all add: assms(2))

lemma from_now: "along_from (\<lambda>u. invites u = invites s) m \<Longrightarrow> along_ledger s (snd (m s))"
  by (simp add: along_from_def)

lemma decided_at:
  assumes "findInvite (\<lambda>r. ti_id r = j) s = Some i" and "evolves i (f i)" and "isActionable (f i) \<Longrightarrow> isActionable i"
  shows "along_from (\<lambda>u. invites u = invites s) (attempt (update_invite j f t))"
  by (rule decided_write[OF assms(1)]) (use assms(2,3) in auto)

lemma read_decision:
  assumes "decideTeamInviteTransition d i t = Inr Proceed \<Longrightarrow> along_from P m"
  shows "along_from P (bind_step (reading (\<lambda>_. lift (assertTeamInviteTransition d i t))) (\<lambda>_. m))"
  by (rule along_read) (auto intro: assms dest: proceeds)

lemma accept_along:
  assumes "quiet_locks env"
  shows "advances along_ledger (acceptTeamInviteWithinTransaction env c i u)"
  unfolding advances_def
proof
  fix s
  show "along_ledger s (snd (acceptTeamInviteWithinTransaction env c i u s))"
  proof (cases "findInvite (\<lambda>r. ti_id r = i) s")
    case None
    then show ?thesis by (simp add: acceptTeamInviteWithinTransaction_def)
  next
    case (Some inv)
    let ?mark = "\<lambda>r. (write_accept (now env) r)\<lparr>ti_acceptedUserId := Some u\<rparr>"
    have again: "along_ledger s (snd (bind_step (lockAndAssertActiveWorkspaceScope env sc) (\<lambda>_. return x) s))"
      for sc and x :: "string \<times> string"
      by (intro snd_along keeps_advances keeps_bind keeps_locks(1)[OF assms] keeps_basic)
    have joins: "along_ledger s (snd (bind_step
        (reading (\<lambda>_. lift (assertTeamInviteTransition Accept (Some inv) (now env)))) (\<lambda>_.
         bind_step (reading (invitee_checks inv u)) (\<lambda>user.
         bind_step (if b user then writing (in_tenant w) else return ()) (\<lambda>_.
         bind_step (reading g) (\<lambda>_.
         bind_step (writing (await env)) (\<lambda>_.
         bind_step (join_organisation env c inv od u) (\<lambda>_.
         bind_step (join_invited_team env c inv u) (\<lambda>_.
         bind_step (reading h) (\<lambda>_.
         bind_step (attempt (update_invite i ?mark (now env))) (\<lambda>_. return x))))))))) s))"
      for b w g od h and x :: "string \<times> string"
      by (rule from_now, rule read_decision, rule keep_rows[OF keeps_basic(3)], rule keep_rows[OF keeps_naming],
          rule keep_rows[OF keeps_basic(3)], rule keep_rows[OF keeps_locks(3)[OF assms]],
          rule keep_rows[OF keeps_joins(1)], rule keep_rows[OF keeps_joins(2)],
          rule keep_rows[OF keeps_basic(3)], rule along_last[OF decided_at[OF Some]])
        (auto simp: still_actionable invite_ledger.advances_pure intro: decision_steps(1))
    show ?thesis
      unfolding acceptTeamInviteWithinTransaction_def Let_def using Some
      by (simp add: again joins)
  qed
qed

lemma declineTeamInviteForUser_along: "advances along_ledger (declineTeamInviteForUser env i u)"
  unfolding advances_def
proof
  fix s
  show "along_ledger s (snd (declineTeamInviteForUser env i u s))"
  proof (cases "findInvite (\<lambda>r. ti_id r = i) s")
    case None
    then show ?thesis by (simp add: declineTeamInviteForUser_def)
  next
    case (Some inv)
    have "along_ledger s (snd (bind_step (reading (invitee_checks inv u)) (\<lambda>_.
        if is_set (declinedAt inv) then return ()
        else bind_step (reading (\<lambda>_. lift (assertTeamInviteTransition Decline (Some inv) (now env)))) (\<lambda>_.
             attempt (update_invite i (write_decline (now env)) (now env)))) s))"
      by (rule from_now, rule keep_rows[OF keeps_basic(3)], rule along_if, rule along_pure, rule read_decision,
          rule decided_at[OF Some])
        (auto simp: still_actionable intro: decision_steps(2))
    with Some show ?thesis by (simp add: declineTeamInviteForUser_def)
  qed
qed

lemma token_decides:
  "assertInviteTokenValid v (Some i) url t = Inr x \<Longrightarrow>
     decideTeamInviteTransition Decline (Some i) t = Inr Proceed"
  by (auto simp: assertInviteTokenValid_def policy_defs invite_predicates split: if_splits)

lemma declineTeamInviteByToken_along:
  assumes "quiet_locks env"
  shows "advances along_ledger (declineTeamInviteByToken env token url)"
  unfolding declineTeamInviteByToken_def
proof (intro invite_ledger.advances_if invite_ledger.advances_pure in_transaction_along[OF assms],
    unfold advances_def, rule allI)
  fix s
  let ?tail = "\<lambda>i. bind_step (attempt (update_invite (ti_id i) (write_decline (now env)) (now env))) (\<lambda>_.
     bind_step (writing (use_invite_tokens (ti_id i) (now env))) (\<lambda>_. return i))"
  have "along_ledger s (snd (bind_step (lockAndReadVerificationTokenEpoch env v) (\<lambda>epoch.
      bind_step (reading (\<lambda>_. check (epoch \<noteq> None) BAD_REQUEST 400)) (\<lambda>_.
      bind_step (reading (\<lambda>_. assertInviteTokenValid v invite url (now env))) (\<lambda>_.
      (case invite of None \<Rightarrow> reading (\<lambda>_. refuse BAD_REQUEST 400) | Some i \<Rightarrow> ?tail i)))) s))"
    if "findInviteToken env token s = Some (v, invite)" for v invite
  proof (rule from_now, rule keep_rows[OF keeps_locks(2)[OF assms]], rule keep_rows[OF keeps_basic(3)],
      rule along_read, cases invite)
    fix x t assume "assertInviteTokenValid v invite url (now env) = Inr x"
    show "along_from (\<lambda>u. invites u = invites s)
        (case invite of None \<Rightarrow> reading (\<lambda>_. refuse BAD_REQUEST 400) | Some i \<Rightarrow> ?tail i)" if "invite = None"
      using that by (simp add: along_pure)
    fix i assume i: "invite = Some i"
    with that obtain j where j: "findInvite (\<lambda>r. ti_id r = j) s = Some i"
      by (auto simp: findInviteToken_def Option.bind_eq_Some_conv split: option.splits)
    then have [simp]: "j = ti_id i" by (auto dest: found_id)
    have "decideTeamInviteTransition Decline (Some i) (now env) = Inr Proceed"
      using \<open>assertInviteTokenValid v invite url (now env) = Inr x\<close> i token_decides by blast
    then have "along_from (\<lambda>u. invites u = invites s) (?tail i)"
      by (intro along_last[OF decided_at] keeps_advances keeps_bind keeps_writes keeps_basic) (use j in \<open>auto simp: still_actionable intro: decision_steps(2)\<close>)
    with i show "along_from (\<lambda>u. invites u = invites s)
        (case invite of None \<Rightarrow> reading (\<lambda>_. refuse BAD_REQUEST 400) | Some i \<Rightarrow> ?tail i)" by simp
  qed
  then show "along_ledger s (snd (case findInviteToken env token s of
      None \<Rightarrow> (refuse BAD_REQUEST 400, s)
    | Some (v, invite) \<Rightarrow> bind_step (lockAndReadVerificationTokenEpoch env v) (\<lambda>epoch.
      bind_step (reading (\<lambda>_. check (epoch \<noteq> None) BAD_REQUEST 400)) (\<lambda>_.
      bind_step (reading (\<lambda>_. assertInviteTokenValid v invite url (now env))) (\<lambda>_.
      (case invite of None \<Rightarrow> reading (\<lambda>_. refuse BAD_REQUEST 400) | Some i \<Rightarrow> ?tail i)))) s))"
    by (auto split: option.split)
qed

end
