(* ===== verification/Auth_Demo.thy ===== *)
theory Auth_Demo
  imports Org_Properties Refresh_Properties Invite_Service
begin

section \<open>A small tenant for the witnesses\<close>

text \<open>
  The organisation of \<^verbatim>\<open>Org_Properties\<close> with two more people: Cat is a plain member of the
  default team, Dan has an account and no membership. Members' invitations need approval. Hashing
  is injective, nothing else runs while a lock is awaited.
\<close>

definition demo_tenant :: org_db where
  "demo_tenant = demo_db\<lparr>
     organisations := [demo_org\<lparr>o_memberInvites := Admin_Approval\<rparr>],
     org_members := org_members demo_db @ [new_member ''m3'' ''a'' ''cat'' ''member'' 0],
     team_members := team_members demo_db @ [new_team_member ''x4'' ''g'' ''cat'' ''member'' 0],
     users := users demo_db @ [plain_user ''cat'' None, plain_user ''dan'' None],
     sessions := sessions demo_db\<lparr>rt_versions := (\<lambda>_. Some 0), rt_next := 1\<rparr>\<rparr>"

definition demo_auth :: auth_db where
  "demo_auth =
     \<lparr>tenant = demo_tenant, invites = [], email_tokens = [], outbox = [],
      client_domains = [\<lparr>cd_id = ''d'', cd_domain = ''shop'', cd_status = ''active'', cd_twoFaPolicy = OPTIONAL\<rparr>],
      app_keys = [], billing_services = [], org_twofa = (\<lambda>_. None), superusers = [], auth_codes = []\<rparr>"

definition demo_auth_env :: "string \<Rightarrow> int \<Rightarrow> auth_env" where
  "demo_auth_env tag t =
     \<lparr>tenant_env = demo_env tag t, hashes = toy_crypto, sha256_hex = (\<lambda>s. CHR ''#'' # s),
      sha256_base64url = (\<lambda>s. CHR ''%'' # s), random_token = (\<lambda>k. tag @ replicate k (CHR ''t'')),
      secret = ''pep'', url_parse = (\<lambda>s. Some \<lparr>protocol = ''https:'', hostname = ''shop'', href = s\<rparr>),
      await = id\<rparr>"

definition demo_invite_request :: "string option \<Rightarrow> invite_request" where
  "demo_invite_request actor =
     \<lparr>iq_orgId = ''a'', iq_teamId = ''g'', iq_config = default_config ''shop'', iq_configUrl = ''cfg'',
      iq_redirectUrl = None, iq_actorUserId = actor, iq_actor = None\<rparr>"

definition demo_dan :: invite_input where
  "demo_dan = \<lparr>in_email = '' Dan@mail.test'', in_name = Some ''Dan'', in_teamRole = None\<rparr>"

text \<open>Cat proposes Dan, Ann approves, Dan accepts.\<close>

definition demo_proposed :: auth_db where
  "demo_proposed = snd (createMemberInvite (demo_auth_env ''i'' 10) (demo_invite_request (Some ''cat''))
     ''cat'' demo_dan demo_auth)"

definition demo_approved :: auth_db where
  "demo_approved = snd (approveInvite (demo_auth_env ''j'' 20) (demo_invite_request (Some ''ann'')) ''i'' demo_proposed)"

definition demo_accepted :: "(thrown + string \<times> string) \<times> auth_db" where
  "demo_accepted = acceptTeamInviteWithinTransaction (demo_auth_env ''k'' 30) (default_config ''shop'') ''i'' ''dan''
     demo_approved"

end
