(* ===== verification/Invite_Properties.thy ===== *)
theory Invite_Properties
  imports Invite_Refinement Auth_Demo
begin

section \<open>What the invitation services guarantee\<close>

text \<open>
  The services composed in any order, as a step relation; the refinement of the state machine, the
  mail invariant and the outcome of acceptance.
\<close>

subsection \<open>Histories of the services\<close>

inductive invite_service :: "auth_db \<Rightarrow> auth_db \<Rightarrow> bool" where
  bulk: "createTeamInvites env p b inputs s = (r, t) \<Longrightarrow> invite_service s t"
| open_pixel: "trackTeamInviteOpen env i s = (r, t) \<Longrightarrow> invite_service s t"
| resend: "resendTeamInvite env p i s = (r, t) \<Longrightarrow> invite_service s t"
| revoke: "revokeTeamInvite env p i s = (r, t) \<Longrightarrow> invite_service s t"
| propose: "createMemberInvite env p a input s = (r, t) \<Longrightarrow> invite_service s t"
| approve: "approveInvite env p i s = (r, t) \<Longrightarrow> invite_service s t"
| deny: "denyInvite env p i s = (r, t) \<Longrightarrow> invite_service s t"
| accept: "acceptTeamInviteWithinTransaction env c i u s = (r, t) \<Longrightarrow> quiet_locks env \<Longrightarrow> invite_service s t"
| decline_user: "declineTeamInviteForUser env i u s = (r, t) \<Longrightarrow> invite_service s t"
| decline_token: "declineTeamInviteByToken env token url s = (r, t) \<Longrightarrow> quiet_locks env \<Longrightarrow> invite_service s t"
| elsewhere: "invites t = invites s \<Longrightarrow> outbox t = outbox s \<Longrightarrow> invite_service s t"

inductive invite_services :: "auth_db \<Rightarrow> auth_db \<Rightarrow> bool" where
  none: "invite_services s s"
| more: "invite_services s t \<Longrightarrow> invite_service t u \<Longrightarrow> invite_services s u"

lemma service_along: "invite_service s t \<Longrightarrow> along_ledger s t"
  by (induction rule: invite_service.induct)
    (auto intro: advancesD[OF createTeamInvites_along] advancesD[OF trackTeamInviteOpen_along]
      advancesD[OF resendTeamInvite_along] advancesD[OF revokeTeamInvite_along]
      advancesD[OF createMemberInvite_along] advancesD[OF approveInvite_along]
      advancesD[OF denyInvite_along] advancesD[OF accept_along] advancesD[OF declineTeamInviteForUser_along]
      advancesD[OF declineTeamInviteByToken_along])

lemma services_along: "invite_services s t \<Longrightarrow> along_ledger s t"
  by (induction rule: invite_services.induct)
    (auto intro: invite_ledger.refl invite_ledger.trans service_along)

lemma from_empty:
  assumes "invite_services s0 s" and "invites s0 = []" and "outbox s0 = []"
  shows "ledger_ok (invites s)" "mails_ok s" "\<forall>r \<in> set (invites s). born r"
proof -
  have "ledger_ok (invites s0) \<and> mails_ok s0"
    using assms(2,3) by (simp add: ledger_ok_def mails_ok_def invite_index_ok_def)
  with services_along[OF assms(1)]
  have "ledger_ok (invites s) \<and> mails_ok s \<and> ledger_step (invites s0) (invites s)"
    by (simp add: along_ledger_def)
  then show "ledger_ok (invites s)" "mails_ok s" "\<forall>r \<in> set (invites s). born r"
    using assms(2) by (auto simp: ledger_step_def)
qed

lemma services_between:
  assumes "invite_services s0 s" and "invites s0 = []" and "outbox s0 = []" and "invite_services s t"
  shows "ledger_step (invites s) (invites t)"
  using services_along[OF assms(4)] from_empty[OF assms(1-3)] by (simp add: along_ledger_def)

lemma services_trans: "invite_services s t \<Longrightarrow> invite_services t u \<Longrightarrow> invite_services s u"
  by (rotate_tac, induction rule: invite_services.induct) (auto intro: invite_services.intros)

lemma service_run: "invite_service s t \<Longrightarrow> invite_services s t"
  by (blast intro: invite_services.intros)

lemma demo_history:
  "invite_services demo_auth demo_proposed" "invite_services demo_proposed demo_approved"
  "invite_services demo_approved (snd demo_accepted)"
  unfolding demo_proposed_def demo_approved_def demo_accepted_def
  by (rule service_run, rule invite_service.propose[OF surjective_pairing])
     (rule service_run, rule invite_service.approve[OF surjective_pairing],
      rule service_run, rule invite_service.accept[OF surjective_pairing],
      simp add: quiet_locks_def demo_auth_env_def)

subsection \<open>Properties\<close>

text \<open>
  C5: the invitation services refine the invitation state machine. Whatever sequence of requests
  is served, successful or failing, from a store without invitations: identifiers stay distinct,
  no two actionable invitations share team and (lower-cased) email, every row descends from a
  fresh one - pending or in no need of approval, with an expiry, granting a role other than
  owner - through steps of the machine, and from any point on each row keeps its place and its
  identity (id, organisation, team, email, role) and only takes steps of the machine.
\<close>

theorem invite_services_refine_machine:
  assumes "invite_services s0 s" and "invites s0 = []" and "outbox s0 = []" and "invite_services s t"
  shows "distinct (map ti_id (invites t)) \<and>
    distinct (map (\<lambda>r. (ti_teamId r, js_lower (ti_email r))) (filter isActionable (invites t))) \<and>
    (\<forall>r \<in> set (invites t). ti_teamRole r \<noteq> ''owner'' \<and>
       (\<exists>e. invite_run (fresh_invite ''NOT_REQUIRED'' (Some e)) (invite_row.truncate r) \<or>
            invite_run (fresh_invite ''PENDING'' (Some e)) (invite_row.truncate r))) \<and>
    length (invites s) \<le> length (invites t) \<and>
    (\<forall>k < length (invites s).
       invite_run (invite_row.truncate (invites s ! k)) (invite_row.truncate (invites t ! k)) \<and>
       identity_of (invites t ! k) = identity_of (invites s ! k))"
proof -
  have t: "invite_services s0 t" by (rule services_trans[OF assms(1,4)])
  have "distinct (map ti_id (invites t))"
    "distinct (map (\<lambda>r. (ti_teamId r, js_lower (ti_email r))) (filter isActionable (invites t)))"
    using from_empty(1)[OF t assms(2,3)] by (simp_all add: ledger_ok_def invite_index_ok_def live_key_def[abs_def])
  moreover have "\<forall>r \<in> set (invites t). ti_teamRole r \<noteq> ''owner'' \<and>
       (\<exists>e. invite_run (fresh_invite ''NOT_REQUIRED'' (Some e)) (invite_row.truncate r) \<or>
            invite_run (fresh_invite ''PENDING'' (Some e)) (invite_row.truncate r))"
    using from_empty(3)[OF t assms(2,3)] by (auto simp: born_def OWNER_ROLE_def)
  moreover obtain old new where "invites t = old @ new" "list_all2 evolves (invites s) old"
    using services_between[OF assms] by (auto simp: ledger_step_def)
  then have "length (invites s) \<le> length (invites t)"
    "\<forall>k < length (invites s). invite_run (life (invites s ! k)) (life (invites t ! k)) \<and>
       identity_of (invites t ! k) = identity_of (invites s ! k)"
    by (auto simp: list_all2_conv_all_nth nth_append evolves_def)
  ultimately show ?thesis by blast
qed

lemma demo_rows:
  "map (\<lambda>r. (ti_id r, ti_email r, approvalStatus r, acceptedAt r)) (invites demo_proposed) =
     [(''i'', ''dan@mail.test'', ''PENDING'', None)]"
  "map (\<lambda>r. (ti_id r, ti_email r, approvalStatus r, acceptedAt r)) (invites (snd demo_accepted)) =
     [(''i'', ''dan@mail.test'', ''APPROVED'', Some 30)]"
  "map (\<lambda>m. (ml_inviteId m, ml_to m)) (outbox (snd demo_accepted)) = [(''i'', ''dan@mail.test'')]"
  "fst demo_accepted = Inr (''a'', ''g'')"
  by code_simp+

lemma demo_start: "invites demo_auth = []" "outbox demo_auth = []"
  by (simp_all add: demo_auth_def)

theorem invite_services_refine_machine_witness:
  "length (invites demo_proposed) = 1 \<and> approvalStatus (invites demo_proposed ! 0) = ''PENDING'' \<and>
   acceptedAt (invites (snd demo_accepted) ! 0) = Some 30 \<and>
   invite_run (invite_row.truncate (invites demo_proposed ! 0)) (invite_row.truncate (invites (snd demo_accepted) ! 0))"
proof -
  have "invite_services demo_proposed (snd demo_accepted)"
    by (rule services_trans[OF demo_history(2,3)])
  from invite_services_refine_machine[OF demo_history(1) demo_start this] demo_rows(1,2)
  show ?thesis by (auto simp: map_eq_Cons_conv)
qed

text \<open>
  C19: nobody is written to about an invitation that was not cleared. Whatever sequence of
  requests is served from an empty store, every mail ever handed to the mailer names an
  invitation of the table, goes to that invitation's email address, and the invitation needed no
  approval or has it - also after later requests; an invitation that is still pending approval or
  was denied has never been mailed.
\<close>

theorem invite_mail_only_when_cleared:
  assumes "invite_services s0 s" and "invites s0 = []" and "outbox s0 = []" and "m \<in> set (outbox s)"
  shows "(\<exists>r \<in> set (invites s). ti_id r = ml_inviteId m) \<and>
    (\<forall>r \<in> set (invites s). ti_id r = ml_inviteId m \<longrightarrow>
       ti_email r = ml_to m \<and> approvalStatus r \<in> {''NOT_REQUIRED'', ''APPROVED''})"
proof -
  from from_empty(2)[OF assms(1-3)] assms(4) obtain r where
    r: "r \<in> set (invites s)" "ti_id r = ml_inviteId m" "ti_email r = ml_to m"
      "approvalStatus r \<in> {''NOT_REQUIRED'', ''APPROVED''}"
    by (auto simp: mails_ok_def mailable_def)
  from from_empty(1)[OF assms(1-3)] have "distinct (map ti_id (invites s))" by (simp add: ledger_ok_def)
  then have "q = r" if "q \<in> set (invites s)" "ti_id q = ml_inviteId m" for q
    using that r distinct_key_eq by metis
  with r show ?thesis by blast
qed

theorem invite_mail_only_when_cleared_witness:
  "outbox demo_proposed = [] \<and> length (outbox demo_approved) = 1 \<and>
   approvalStatus (hd (invites demo_approved)) \<in> {''NOT_REQUIRED'', ''APPROVED''}"
proof -
  have "map ml_inviteId (outbox demo_approved) = [''i'']" "map ti_id (invites demo_approved) = [''i'']"
    "outbox demo_proposed = []" by code_simp+
  then obtain m r where m: "outbox demo_approved = [m]" "ml_inviteId m = ''i''"
    and r: "invites demo_approved = [r]" "ti_id r = ''i''" by (auto simp: map_eq_Cons_conv)
  from m have "m \<in> set (outbox demo_approved)" by simp
  from invite_mail_only_when_cleared[OF services_trans[OF demo_history(1,2)] demo_start this] m r
  show ?thesis using \<open>outbox demo_proposed = []\<close> by simp
qed

subsection \<open>Acceptance\<close>

lemma here_existsD:
  assumes "assertActiveWorkspaceScope sc db = Inr x" and "sc_orgId sc = Some i" and "i \<noteq> []"
    and "sc_teamId sc = Some t"
  shows "workspace_in_force (tenant db) (sc_userId sc) i t" "org_domain (tenant db) i = Some (sc_domain sc)"
proof -
  have scope: "activeWorkspaceScopeExists False sc db"
    using assms(1) by (simp add: assertActiveWorkspaceScope_def split: if_splits)
  from scope_existsD[OF this assms(2,3)] assms(4)
  show "workspace_in_force (tenant db) (sc_userId sc) i t" by auto
  from scope assms(2,3) show "org_domain (tenant db) i = Some (sc_domain sc)"
    by (auto simp: activeWorkspaceScopeExists_def Let_def findMember_def truthy_def neq_Nil_conv
        dest!: find_Some_set split: if_splits)
qed

lemma joined:
  assumes "join_organisation env c row od u s = (Inr x, t)"
  shows "invites t = invites s" "team_members (tenant t) = team_members (tenant s)"
    "org_members (tenant t) = org_members (tenant s) \<or>
       count_where (\<lambda>m. om_orgId m = ti_orgId row) (org_members (tenant t)) \<le> parseOrgLimit c"
  using assms
  by (auto simp: join_organisation_def attempt_value in_tenant_checked_Inr create_org_member_def
      constrained_def new_member_def count_where_def split: option.splits if_splits)

lemma joined_team:
  assumes "join_invited_team env c row u s = (Inr x, t)"
  shows "invites t = invites s" "org_members (tenant t) = org_members (tenant s)"
    "team_members (tenant t) = team_members (tenant s) \<or>
       count_where (\<lambda>m. tm_teamId m = ti_teamId row) (team_members (tenant t)) \<le> parseMaxMembersPerTeam c"
  using assms
  by (auto simp: join_invited_team_def attempt_value in_tenant_checked_Inr create_team_member_def
      constrained_def new_team_member_def count_where_def and_then_Inr_iff split: option.splits if_splits)

lemma rewritten_row:
  assumes "r \<in> set (invites (rewrite_invites (\<lambda>r. ti_id r = i) f n s))" and "ti_id r = i"
    and "\<And>x. ti_id (f x) = ti_id x"
  shows "\<exists>x \<in> set (invites s). ti_id x = i \<and> r = (f x)\<lparr>ti_updatedAt := n\<rparr>"
  using assms by (auto simp: rewrite_invites_def update_where_def split: if_splits)

text \<open>What the database leaves of an invitation it let become accepted.\<close>

lemma accepted_row:
  assumes "update_invite i (\<lambda>r. (write_accept n r)\<lparr>ti_acceptedUserId := Some u\<rparr>) n' s = Inr (x, t)"
  shows "tenant t = tenant s" "\<exists>r \<in> set (invites t). ti_id r = i"
    "\<forall>r \<in> set (invites t). ti_id r = i \<longrightarrow> acceptedAt r = Some n \<and> ti_acceptedUserId r = Some u \<and>
       declinedAt r = None \<and> revokedAt r = None"
proof -
  let ?mark = "\<lambda>r. (write_accept n r)\<lparr>ti_acceptedUserId := Some u\<rparr>"
  from assms have t: "t = rewrite_invites (\<lambda>r. ti_id r = i) ?mark n' s"
    and ok: "\<forall>r \<in> set (invites s). ti_id r = i \<longrightarrow> invite_checks_ok (?mark r)"
    and found: "findInvite (\<lambda>r. ti_id r = i) s \<noteq> None"
    by (auto simp: update_invite_Inr update_invites_Inr)
  show "tenant t = tenant s" by (simp add: t rewrite_invites_def)
  from found obtain r where "r \<in> set (invites s)" "ti_id r = i"
    by (auto simp: findInvite_def dest: find_Some_set)
  then have "(?mark r)\<lparr>ti_updatedAt := n'\<rparr> \<in> set (invites t)"
    by (auto simp: t rewrite_invites_def update_where_def intro!: image_eqI[of _ _ r])
  then show "\<exists>r \<in> set (invites t). ti_id r = i"
    by (rule bexI[rotated]) (simp add: write_accept_def \<open>ti_id r = i\<close>)
  show "\<forall>r \<in> set (invites t). ti_id r = i \<longrightarrow> acceptedAt r = Some n \<and> ti_acceptedUserId r = Some u \<and>
      declinedAt r = None \<and> revokedAt r = None"
  proof (intro ballI impI)
    fix r assume r: "r \<in> set (invites t)" "ti_id r = i"
    have "ti_id (?mark y) = ti_id y" for y by (simp add: write_accept_def)
    from rewritten_row[OF r(1)[unfolded t] r(2) this] obtain y where
      y: "y \<in> set (invites s)" "ti_id y = i" "r = (?mark y)\<lparr>ti_updatedAt := n'\<rparr>" by blast
    then have "invite_checks_ok (?mark y)" using ok by blast
    then show "acceptedAt r = Some n \<and> ti_acceptedUserId r = Some u \<and> declinedAt r = None \<and> revokedAt r = None"
      by (simp add: y(3) invite_checks_ok_def write_accept_def split: if_splits)
  qed
qed

lemma naming_value:
  "(if b then writing w else return ()) s = (Inr x, t) \<longleftrightarrow> t = (if b then w s else s)"
  by (auto simp: step_values)

text \<open>
  C13: what a successful acceptance has done. The invitation was not revoked; the account that
  accepted is, in the store left behind, an active member of the organisation and of the team the
  answer names, and the organisation belongs to the domain of the client - although a comment in
  the source says that a product may accept for an organisation created by another one. Either the
  same account had accepted before, or the invitation was neither accepted, declined, denied nor
  awaiting approval nor expired, its email is the account's (up to case), the table holds it,
  marked as accepted by that account and - whatever others did while the request waited for its
  locks - neither declined nor revoked, and the rosters either did not grow or are within the
  configured caps.
\<close>

theorem acceptance_outcome:
  assumes "acceptTeamInviteWithinTransaction env c i u s = (Inr (org, tm), t)" and "org \<noteq> []"
  shows "\<exists>row. findInvite (\<lambda>r. ti_id r = i) s = Some row \<and> org = ti_orgId row \<and> tm = ti_teamId row \<and>
    revokedAt row = None \<and>
    workspace_in_force (tenant t) u org tm \<and> org_domain (tenant t) org = Some (cfg_domain c) \<and>
    (if acceptedAt row \<noteq> None then ti_acceptedUserId row = Some u
     else declinedAt row = None \<and> \<not> isExpired row (now env) \<and>
       approvalStatus row \<in> {''NOT_REQUIRED'', ''APPROVED''} \<and>
       (\<exists>x. findUser s u = Some x \<and> js_lower (u_email x) = js_lower (ti_email row)) \<and>
       (\<exists>r \<in> set (invites t). ti_id r = i) \<and>
       (\<forall>r \<in> set (invites t). ti_id r = i \<longrightarrow> acceptedAt r = Some (now env) \<and> ti_acceptedUserId r = Some u \<and>
          declinedAt r = None \<and> revokedAt r = None) \<and>
       (\<exists>w \<in> {await env s, await env (in_tenant (set_user_name u (ti_inviteName row)) s)}.
         (org_members (tenant t) = org_members (tenant w) \<or>
          count_where (\<lambda>m. om_orgId m = org) (org_members (tenant t)) \<le> parseOrgLimit c) \<and>
         (team_members (tenant t) = team_members (tenant w) \<or>
          count_where (\<lambda>m. tm_teamId m = tm) (team_members (tenant t)) \<le> parseMaxMembersPerTeam c)))"
proof -
  from assms(1) obtain row where row: "findInvite (\<lambda>r. ti_id r = i) s = Some row"
    by (auto simp: acceptTeamInviteWithinTransaction_def split: option.splits)
  let ?sc = "\<lparr>sc_userId = u, sc_domain = cfg_domain c, sc_orgId = Some (ti_orgId row),
    sc_teamId = Some (ti_teamId row)\<rparr>"
  let ?named = "in_tenant (set_user_name u (ti_inviteName row)) s"
  let ?mark = "\<lambda>r. (write_accept (now env) r)\<lparr>ti_acceptedUserId := Some u\<rparr>"
  from assms(1) row have placed: "org = ti_orgId row" "tm = ti_teamId row" and fresh: "revokedAt row = None"
    by (auto simp: acceptTeamInviteWithinTransaction_def Let_def bind_step_Inr return_value split: if_splits)
  have scope: "workspace_in_force (tenant v) u org tm \<and> org_domain (tenant v) org = Some (cfg_domain c)"
    if "assertActiveWorkspaceScope ?sc v = Inr x" for v x
    using here_existsD[OF that] placed assms(2) by simp
  show ?thesis
  proof (cases "acceptedAt row")
    case (Some at)
    with assms row fresh have "ti_acceptedUserId row = Some u" and
      lock: "lockAndAssertActiveWorkspaceScope env ?sc s = (Inr (), t)"
      by (auto simp: acceptTeamInviteWithinTransaction_def Let_def bind_step_Inr return_value split: if_splits)
    moreover from lock placed assms(2) have "assertActiveWorkspaceScope ?sc t = Inr ()"
      by (auto simp: lockAndAssertActiveWorkspaceScope_def Let_def truthy_def neq_Nil_conv split: if_splits)
    ultimately show ?thesis using row placed fresh scope Some by auto
  next
    case None
    let ?od = "org_domain (tenant s) (ti_orgId row)"
    from assms(1) row fresh None obtain user s1 s2 s3 where
      decision: "decideTeamInviteTransition Accept (Some row) (now env) = Inr Proceed" and
      user: "invitee_checks row u s = Inr user" and
      named: "s1 = (if \<not> truthy (u_name user) \<and> truthy (ti_inviteName row) then ?named else s)" and
      org: "join_organisation env c row ?od u (await env s1) = (Inr (), s2)" and
      team: "join_invited_team env c row u s2 = (Inr (), s3)" and
      scoped: "assertActiveWorkspaceScope ?sc s3 = Inr ()" and
      t: "update_invite i ?mark (now env) s3 = Inr ((), t)"
      by (auto simp: acceptTeamInviteWithinTransaction_def Let_def bind_step_Inr naming_value step_values
          dest!: proceeds)
    note same = accepted_row(1)[OF t] and written = accepted_row(2,3)[OF t]
    have "\<exists>w \<in> {await env s, await env ?named}.
         (org_members (tenant t) = org_members (tenant w) \<or>
          count_where (\<lambda>m. om_orgId m = org) (org_members (tenant t)) \<le> parseOrgLimit c) \<and>
         (team_members (tenant t) = team_members (tenant w) \<or>
          count_where (\<lambda>m. tm_teamId m = tm) (team_members (tenant t)) \<le> parseMaxMembersPerTeam c)"
    proof (rule bexI[of _ "await env s1"])
      show "(org_members (tenant t) = org_members (tenant (await env s1)) \<or>
          count_where (\<lambda>m. om_orgId m = org) (org_members (tenant t)) \<le> parseOrgLimit c) \<and>
         (team_members (tenant t) = team_members (tenant (await env s1)) \<or>
          count_where (\<lambda>m. tm_teamId m = tm) (team_members (tenant t)) \<le> parseMaxMembersPerTeam c)"
        using joined(2,3)[OF org] joined_team(2,3)[OF team] unfolding same placed by simp
    qed (simp add: named)
    moreover have "declinedAt row = None" "\<not> isExpired row (now env)"
      "approvalStatus row \<in> {''NOT_REQUIRED'', ''APPROVED''}"
      using decision by (auto simp: policy_defs isTerminal_def isResolved_def split: if_splits)
    moreover have "\<exists>x. findUser s u = Some x \<and> js_lower (u_email x) = js_lower (ti_email row)"
      using user by (auto simp: invitee_checks_def split: option.splits if_splits)
    ultimately show ?thesis using row placed fresh None written scope[OF scoped] same by auto
  qed
qed

theorem acceptance_outcome_witness:
  "fst demo_accepted = Inr (''a'', ''g'') \<and> workspace_in_force (tenant (snd demo_accepted)) ''dan'' ''a'' ''g''"
proof -
  have "acceptTeamInviteWithinTransaction (demo_auth_env ''k'' 30) (default_config ''shop'') ''i'' ''dan'' demo_approved =
      (Inr (''a'', ''g''), snd demo_accepted)"
    using demo_rows(4) unfolding demo_accepted_def by (metis prod.collapse)
  from acceptance_outcome[OF this] demo_rows(4) show ?thesis by auto
qed

end
