(* ===== verification/Invite_Findings.thy ===== *)
theory Invite_Findings
  imports Invite_Properties
begin

section \<open>Overlapping invitation requests\<close>

text \<open>
  The refinement of \<^verbatim>\<open>Invite_Properties\<close> needs that nothing else writes the invitation while a
  request waits for its locks. Here something does: \<open>await\<close> performs another request. The services
  judge the row they read before the locks; it is the CHECK constraint on the three ends of an
  invitation that refuses the write, so the person gets an internal error where the same request a
  moment later gets the reason. The histories start from Dan's approved invitation of
  \<^verbatim>\<open>Auth_Demo\<close>, and acceptance runs in the transaction its callers open.
\<close>

definition while_waiting :: "(auth_db \<Rightarrow> auth_db) \<Rightarrow> auth_env \<Rightarrow> auth_env" where
  "while_waiting f env = env\<lparr>await := f\<rparr>"

definition demo_revoked :: "auth_db \<Rightarrow> auth_db" where
  "demo_revoked d = snd (revokeTeamInvite (demo_auth_env ''r'' 29) (demo_invite_request (Some ''ann'')) ''i'' d)"

definition demo_acceptance :: "auth_env \<Rightarrow> (string \<times> string) auth_step" where
  "demo_acceptance env = acceptTeamInviteWithinTransaction env (default_config ''shop'') ''i'' ''dan''"

text \<open>Ann revokes while Dan's acceptance waits for the membership locks; and before it.\<close>

definition accepted_after_revocation :: "(thrown + string \<times> string) \<times> auth_db" where
  "accepted_after_revocation =
     (let env = while_waiting demo_revoked (demo_auth_env ''k'' 30)
      in in_transaction env (demo_acceptance env) demo_approved)"

lemma acceptance_meets_revocation:
  "fst accepted_after_revocation = Inl (Db_Error ''23514'')"
  "map (\<lambda>r. (acceptedAt r, revokedAt r)) (invites (snd accepted_after_revocation)) = [(None, Some 29)]"
  "filter (\<lambda>m. om_userId m = ''dan'') (org_members (tenant (snd accepted_after_revocation))) = []"
  "fst (demo_acceptance (demo_auth_env ''k'' 30) (demo_revoked demo_approved)) =
     refuse_with BAD_REQUEST 400 ''INVITE_REVOKED''"
  by code_simp+

text \<open>Dan accepts on one device while his decline by token waits for the lock on his account; and
  before it.\<close>

definition demo_decline :: "auth_env \<Rightarrow> team_invite auth_step" where
  "demo_decline env = declineTeamInviteByToken env ''j'' ''cfg''"

definition declined_after_acceptance :: "(thrown + team_invite) \<times> auth_db" where
  "declined_after_acceptance = demo_decline
     (while_waiting (\<lambda>d. snd (demo_acceptance (demo_auth_env ''k'' 30) d)) (demo_auth_env ''l'' 31)) demo_approved"

lemma decline_meets_acceptance:
  "map_sum id ti_id (fst declined_after_acceptance) = Inl (Db_Error ''23514'')"
  "map_sum id ti_id (fst (demo_decline (demo_auth_env ''l'' 31)
     (snd (demo_acceptance (demo_auth_env ''k'' 30) demo_approved)))) = refuse BAD_REQUEST 400"
  by code_simp+

text \<open>The same invitation presented by another product: the final scope check compares the
  domain of the organisation with that of the client.\<close>

lemma foreign_product_cannot_accept:
  "fst (acceptTeamInviteWithinTransaction (demo_auth_env ''k'' 30) (default_config ''other'') ''i'' ''dan''
     demo_approved) = unauthenticated"
  by code_simp

end
