(* ===== verification/First_Login.thy ===== *)
theory First_Login
  imports Invite_Service
begin

section \<open>What a user may enter after signing in\<close>

text \<open>
  \<^verbatim>\<open>first-login.service.ts\<close>: the block returned with the first token pair, the workspace
  chooser and the rule that skips it. The tenant client and the client that sees every domain read
  the same store here; row-level security is not modelled.
\<close>

subsection \<open>Rows with their joins\<close>

text \<open>\<open>[...new Map(rows.map(row => [key(row), row])).values()]\<close>: the last row of a key, at the
  place of its first.\<close>

definition last_by :: "('r \<Rightarrow> string) \<Rightarrow> 'r list \<Rightarrow> 'r list" where
  "last_by key rows = map snd (fold (\<lambda>r m. AList.update (key r) r m) rows [])"

definition active_org_rows :: "org_db \<Rightarrow> string \<Rightarrow> (string \<Rightarrow> bool) \<Rightarrow> org_member list" where
  "active_org_rows db userId here =
     filter (\<lambda>m. om_userId m = userId \<and> om_status m = ACTIVE \<and> here (om_orgId m)) (org_members db)"

definition active_team_rows :: "org_db \<Rightarrow> string \<Rightarrow> (team \<Rightarrow> bool) \<Rightarrow> (team_member \<times> team) list" where
  "active_team_rows db userId P =
     concat (map (\<lambda>m. map (Pair m) (filter (\<lambda>t. t_id t = tm_teamId m \<and> P t) (teams db)))
       (filter (\<lambda>m. tm_userId m = userId \<and> tm_status m = ACTIVE) (team_members db)))"

definition in_domain :: "org_db \<Rightarrow> string \<Rightarrow> string \<Rightarrow> bool" where
  "in_domain db domain orgId \<longleftrightarrow> org_domain db orgId = Some domain"

definition org_with_member :: "org_db \<Rightarrow> string \<Rightarrow> string \<Rightarrow> bool" where
  "org_with_member db userId orgId \<longleftrightarrow> (\<exists>m \<in> set (org_members db). active_member orgId userId m)"

definition invites_for :: "auth_env \<Rightarrow> string \<Rightarrow> string \<Rightarrow> auth_db \<Rightarrow> team_invite list" where
  "invites_for env email domain db =
     filter (\<lambda>r. ti_email r = email \<and> in_domain (tenant db) domain (ti_orgId r) \<and>
       pendingInviteStatusWhere (now env) False r) (invites db)"

definition team_name :: "org_db \<Rightarrow> string \<Rightarrow> string" where
  "team_name db i = (case findTeam db (\<lambda>t. t_id t = i) of Some t \<Rightarrow> t_name t | None \<Rightarrow> [])"

definition policy_for :: "auth_env \<Rightarrow> product_policy option \<Rightarrow> string \<Rightarrow> auth_db \<Rightarrow> product_policy" where
  "policy_for env given domain db =
     (case given of Some p \<Rightarrow> p | None \<Rightarrow> resolveProductWorkspacePolicy (now env) domain db)"

subsection \<open>The first-login block\<close>

record first_login_team =
  ft_teamId :: string
  ft_orgId :: string
  ft_role :: string
  ft_iconUrl :: "string option"

record first_login_invite =
  fi_inviteId :: string
  fi_orgId :: string
  fi_teamId :: string
  fi_teamName :: string

record first_login_block =
  fl_orgs :: "(string \<times> string) list"
  fl_teams :: "first_login_team list"
  fl_pending_invites :: "first_login_invite list"
  fl_can_create_org :: bool
  fl_can_accept_invite :: bool

definition flag :: "(org_features \<Rightarrow> bool) \<Rightarrow> client_config \<Rightarrow> bool" where
  "flag f c = (case cfg_org_features c of None \<Rightarrow> False | Some o1 \<Rightarrow> f o1)"

definition buildFirstLoginBlock ::
  "auth_env \<Rightarrow> product_policy option \<Rightarrow> client_config \<Rightarrow> string \<Rightarrow> auth_db \<Rightarrow> first_login_block option" where
  "buildFirstLoginBlock env given c userId db =
     (if \<not> flag orgs_enabled c then None
      else case findUser db userId of
        None \<Rightarrow> None
      | Some user \<Rightarrow>
          (let domain = normalizeDomain (cfg_domain c); org = tenant db;
               product = all_active (policy_for env given domain db);
               orgRows = last_by om_orgId
                 (active_org_rows org userId (in_domain org domain) @
                  (if product then active_org_rows org userId (\<lambda>_. True) else []));
               teamRows = last_by (\<lambda>(m, t). tm_teamId m)
                 (active_team_rows org userId (\<lambda>t. in_domain org domain (t_orgId t)) @
                  (if product then active_team_rows org userId (\<lambda>t. org_with_member org userId (t_orgId t))
                   else []));
               pending = map (\<lambda>r. \<lparr>fi_inviteId = ti_id r, fi_orgId = ti_orgId r, fi_teamId = ti_teamId r,
                   fi_teamName = team_name org (ti_teamId r)\<rparr>) (invites_for env (u_email user) domain db)
           in Some
             \<lparr>fl_orgs = map (\<lambda>m. (om_orgId m, om_role m)) orgRows,
              fl_teams = map (\<lambda>(m, t). \<lparr>ft_teamId = tm_teamId m, ft_orgId = t_orgId t,
                ft_role = tm_teamRole m, ft_iconUrl = t_iconUrl t\<rparr>) teamRows,
              fl_pending_invites = pending, fl_can_create_org = flag allow_user_create_org c,
              fl_can_accept_invite = (length pending > 0)\<rparr>))"

subsection \<open>The workspace chooser\<close>

record workspace_choice_team =
  wt_teamId :: string
  wt_orgId :: string
  wt_name :: string
  wt_role :: string
  wt_iconUrl :: "string option"
  wt_avatarImageUrl :: string
  wt_orgName :: "string option"
  wt_slug :: string

record workspace_choice_invite =
  wi_inviteId :: string
  wi_teamName :: string
  wi_invitedBy :: "string option"

record workspace_choices =
  wc_teams :: "workspace_choice_team list"
  wc_pending_invites :: "workspace_choice_invite list"
  wc_can_create_org :: bool
  wc_creatable_orgs :: "(string \<times> string) list"

definition org_name :: "org_db \<Rightarrow> string \<Rightarrow> string option" where
  "org_name db i = map_option o_name (findOrg db i)"

definition toChoiceTeam :: "auth_env \<Rightarrow> org_db \<Rightarrow> team_member \<times> team \<Rightarrow> workspace_choice_team" where
  "toChoiceTeam env org row =
     (case row of (m, t) \<Rightarrow>
       \<lparr>wt_teamId = tm_teamId m, wt_orgId = t_orgId t, wt_name = t_name t, wt_role = tm_teamRole m,
        wt_iconUrl = t_iconUrl t,
        wt_avatarImageUrl = publicTeamAvatarImageUrl
          (Some (avatarImageBaseUrl (public_base_url (tenant_env env)))) (tm_teamId m),
        wt_orgName = org_name org (t_orgId t), wt_slug = t_slug t\<rparr>)"

definition creatable_orgs :: "client_config \<Rightarrow> string \<Rightarrow> string \<Rightarrow> org_db \<Rightarrow> (string \<times> string) list" where
  "creatable_orgs c userId domain org =
     (if flag orgs_enabled c \<and> flag allow_user_create_team c
      then map (\<lambda>m. (om_orgId m, case org_name org (om_orgId m) of Some n \<Rightarrow> n | None \<Rightarrow> []))
        (filter (\<lambda>m. configRoleHoldsCapability c Org_Scope (Some (om_role m)) ''teams.manage'')
          (active_org_rows org userId (in_domain org domain)))
      else [])"

definition buildWorkspaceChoices ::
  "auth_env \<Rightarrow> product_policy option \<Rightarrow> client_config \<Rightarrow> string \<Rightarrow> auth_db \<Rightarrow> workspace_choices" where
  "buildWorkspaceChoices env given c userId db =
     (case findUser db userId of
        None \<Rightarrow> \<lparr>wc_teams = [], wc_pending_invites = [], wc_can_create_org = False, wc_creatable_orgs = []\<rparr>
      | Some user \<Rightarrow>
          (let domain = normalizeDomain (cfg_domain c); org = tenant db;
               product = all_active (policy_for env given domain db);
               teamRows = last_by (\<lambda>(m, t). tm_teamId m)
                 (active_team_rows org userId (\<lambda>t. in_domain org domain (t_orgId t)) @
                  (if product then active_team_rows org userId (\<lambda>t. org_with_member org userId (t_orgId t))
                   else []))
           in \<lparr>wc_teams = map (toChoiceTeam env org) teamRows,
               wc_pending_invites = map (\<lambda>r. \<lparr>wi_inviteId = ti_id r,
                   wi_teamName = team_name org (ti_teamId r),
                   wi_invitedBy = (case ti_invitedByName r of Some n \<Rightarrow> Some n | None \<Rightarrow> ti_invitedByEmail r)\<rparr>)
                 (invites_for env (u_email user) domain db),
               wc_can_create_org = flag allow_user_create_org c,
               wc_creatable_orgs = creatable_orgs c userId domain org\<rparr>))"

definition resolveAutoSelectedWorkspace :: "workspace_choices \<Rightarrow> (string \<times> string) option" where
  "resolveAutoSelectedWorkspace choices =
     (case (wc_teams choices, wc_pending_invites choices) of
        ([t], []) \<Rightarrow> Some (wt_orgId t, wt_teamId t) | _ \<Rightarrow> None)"

definition shouldPresentWorkspaceChooser :: "workspace_choices \<Rightarrow> (string \<times> string) option \<Rightarrow> bool" where
  "shouldPresentWorkspaceChooser choices autoSelected \<longleftrightarrow>
     autoSelected = None \<and>
     (length (wc_teams choices) \<ge> 2 \<or> wc_pending_invites choices \<noteq> [] \<or> wc_can_create_org choices)"

subsection \<open>Lemmas\<close>

lemma last_by_set:
  assumes "r \<in> set (last_by key rows)"
  shows "r \<in> set rows"
proof -
  have "snd ` set (fold (\<lambda>r m. AList.update (key r) r m) rows m) \<subseteq> set rows \<union> snd ` set m" for m
  proof (induction rows arbitrary: m)
    case (Cons x xs)
    have "snd ` set (AList.update (key x) x m) \<subseteq> insert x (snd ` set m)"
      by (induction m) auto
    with Cons[of "AList.update (key x) x m"] show ?case by auto
  qed simp
  from this[of "[]"] assms show ?thesis by (auto simp: last_by_def)
qed

lemma active_team_rows_set:
  "(m, t) \<in> set (active_team_rows db u P) \<longleftrightarrow>
     m \<in> set (team_members db) \<and> tm_userId m = u \<and> tm_status m = ACTIVE \<and>
     t \<in> set (teams db) \<and> t_id t = tm_teamId m \<and> P t"
  by (auto simp: active_team_rows_def)

text \<open>What the chooser offers is an active membership of the user in a team of the named
  organisation.\<close>

lemma offered_team:
  assumes "w \<in> set (wc_teams (buildWorkspaceChoices env given c u db))"
  shows "\<exists>m \<in> set (team_members (tenant db)). tm_userId m = u \<and> tm_teamId m = wt_teamId w \<and>
    tm_status m = ACTIVE \<and> team_in_org (tenant db) (wt_orgId w) (wt_teamId w)"
proof -
  from assms obtain m t where "(m, t) \<in> set (active_team_rows (tenant db) u (\<lambda>_. True))"
    and "w = toChoiceTeam env (tenant db) (m, t)"
    by (auto simp: buildWorkspaceChoices_def Let_def active_team_rows_set dest!: last_by_set
        split: option.splits if_splits)
  then show ?thesis
    by (intro bexI[of _ m]) (auto simp: toChoiceTeam_def active_team_rows_set team_in_org_def)
qed

lemma auto_selected:
  "resolveAutoSelectedWorkspace choices = Some (i, t) \<longleftrightarrow>
     wc_pending_invites choices = [] \<and> (\<exists>w. wc_teams choices = [w] \<and> wt_orgId w = i \<and> wt_teamId w = t)"
  by (auto simp: resolveAutoSelectedWorkspace_def split: list.splits)

end
