(* ===== verification/Required_Placement.thy ===== *)
theory Required_Placement
  imports First_Login Org_Lifecycle
begin

section \<open>Placing a user who must have a team\<close>

text \<open>
  \<^verbatim>\<open>user-team-requirement.service.ts\<close> and \<^verbatim>\<open>required-workspace-placement.service.ts\<close>: an
  authorization code without a workspace is given one - the only choice there is, or, where the
  client asks for it, a new personal organisation or team. Everything runs in the transaction of
  the token exchange.
\<close>

definition tenant_step :: "(org_db \<Rightarrow> ('a \<times> org_db) checked) \<Rightarrow> 'a auth_step" where
  "tenant_step f db =
     (case f (tenant db) of Inl e \<Rightarrow> (Inl e, db) | Inr (x, t) \<Rightarrow> (Inr x, db\<lparr>tenant := t\<rparr>))"

subsection \<open>Names\<close>

definition deriveDisplayName :: "app_user \<Rightarrow> string" where
  "deriveDisplayName user =
     (let fromName = (case u_name user of None \<Rightarrow> [] | Some n \<Rightarrow> js_trim n);
          localPart = js_trim (hd (split_on (CHR ''@'') (u_email user)));
          normalized = js_trim (replace_runs (\<lambda>c. c \<in> set ''._-'') (CHR '' '') False localPart)
      in if fromName \<noteq> [] then take 80 fromName
         else if normalized \<noteq> [] then take 80 normalized else ''User'')"

definition buildPersonalOrgName :: "app_user \<Rightarrow> string" where
  "buildPersonalOrgName user = take 100 (deriveDisplayName user)"

definition personal_team_suffix :: string where
  "personal_team_suffix = CHR 0x27 # ''s team''"

definition buildPersonalTeamName :: "app_user \<Rightarrow> string" where
  "buildPersonalTeamName user =
     js_trim (take (max 1 (100 - length personal_team_suffix)) (deriveDisplayName user)) @ personal_team_suffix"

subsection \<open>Creating the workspace\<close>

definition createPersonalOrgAndTeam :: "org_env \<Rightarrow> string \<Rightarrow> app_user \<Rightarrow> org_db \<Rightarrow> ((string \<times> string) \<times> org_db) checked"
  where
  "createPersonalOrgAndTeam env domain user db =
     (let t = clock env; teamName = buildPersonalTeamName user in
     and_then (lift (deriveSlugWithValidation (org_slug_taken db domain) (random_bytes env)
                 (buildPersonalOrgName user) None)) (\<lambda>slug.
     (let org = \<lparr>o_id = fresh_id env 0, o_domain = domain, o_name = buildPersonalOrgName user, o_slug = slug,
                 o_ownerId = u_id user, o_memberInvites = Invites_Allowed, o_iconUrl = None,
                 o_createdAt = t, o_updatedAt = t\<rparr> in
     and_then (create_organisation org db) (\<lambda>db1.
     and_then (lift (deriveUniqueTeamSlug (team_slug_taken db1 (o_id org)) teamName None)) (\<lambda>teamSlug.
     and_then (create_team ((new_team (fresh_id env 1) (o_id org) teamName teamSlug t)\<lparr>t_isDefault := True\<rparr>) db1)
       (\<lambda>db2.
     and_then (create_org_member (new_member (fresh_id env 2) (o_id org) (u_id user) ''owner'' t) db2) (\<lambda>db3.
     and_then (create_team_member (new_team_member (fresh_id env 3) (fresh_id env 1) (u_id user) ''admin'' t) db3)
       (\<lambda>db4. Inr ((o_id org, fresh_id env 1), db4)))))))))"

definition promoted_to_admin :: "client_config \<Rightarrow> org_member \<Rightarrow> bool" where
  "promoted_to_admin c m \<longleftrightarrow> om_role m = ''member'' \<and>
     (case feature org_roles c of Some rs \<Rightarrow> ''admin'' \<in> set rs | None \<Rightarrow> False)"

definition createPersonalTeamForExistingOrg ::
  "org_env \<Rightarrow> client_config \<Rightarrow> app_user \<Rightarrow> org_member \<Rightarrow> org_db \<Rightarrow> ((string \<times> string) \<times> org_db) checked" where
  "createPersonalTeamForExistingOrg env c user m db =
     (let t = clock env; teamName = buildPersonalTeamName user in
     and_then (if parseMaxTeamsPerOrg c \<le> count_where (\<lambda>t. t_orgId t = om_orgId m) (teams db)
               then refuse_with INTERNAL 500 ''USER_NEEDS_TEAM_TEAM_LIMIT_REACHED'' else Inr ()) (\<lambda>_.
     and_then (lift (deriveUniqueTeamSlug (team_slug_taken db (om_orgId m)) teamName None)) (\<lambda>teamSlug.
     and_then (create_team (new_team (fresh_id env 1) (om_orgId m) teamName teamSlug t) db) (\<lambda>db1.
     and_then (create_team_member (new_team_member (fresh_id env 3) (fresh_id env 1) (u_id user) ''admin'' t) db1)
       (\<lambda>db2.
     and_then (if promoted_to_admin c m then update_org_member (om_id m) (set_role ''admin'' t) db2 else Inr db2)
       (\<lambda>db3. Inr ((om_orgId m, fresh_id env 1), db3)))))))"

definition isUserNeedsTeamEnabled :: "client_config \<Rightarrow> bool" where
  "isUserNeedsTeamEnabled c \<longleftrightarrow> flag orgs_enabled c \<and> flag user_needs_team c"

definition some_placement :: "((string \<times> string) \<times> org_db) checked \<Rightarrow> ((string \<times> string) option \<times> org_db) checked" where
  "some_placement r = and_then r (\<lambda>(p, db). Inr (Some p, db))"

definition place_user :: "org_env \<Rightarrow> client_config \<Rightarrow> string \<Rightarrow> string \<Rightarrow> org_db \<Rightarrow> ((string \<times> string) option \<times> org_db) checked"
  where
  "place_user env c userId domain db =
     (case List.find (\<lambda>u. u_id u = userId) (users db) of
        None \<Rightarrow> Inr (None, db)
      | Some user \<Rightarrow>
          (case findMember db (\<lambda>m. om_userId m = userId \<and> org_domain db (om_orgId m) = Some domain) of
             None \<Rightarrow> some_placement (createPersonalOrgAndTeam env domain user db)
           | Some m \<Rightarrow>
               if om_status m \<noteq> ACTIVE then Inr (None, db)
               else if count_where (\<lambda>k. tm_userId k = userId \<and> team_in_org db (om_orgId m) (tm_teamId k))
                      (team_members db) > 0 then Inr (None, db)
               else some_placement (createPersonalTeamForExistingOrg env c user m db)))"

definition ensureUserHasRequiredTeam :: "auth_env \<Rightarrow> client_config \<Rightarrow> string \<Rightarrow> (string \<times> string) option auth_step" where
  "ensureUserHasRequiredTeam env c rawUserId =
     (let userId = js_trim rawUserId; domain = normalizeDomain (cfg_domain c) in
      if \<not> isUserNeedsTeamEnabled c then return None
      else bind_step (reading (\<lambda>_. db_enabled env)) (\<lambda>_.
           if userId = [] \<or> domain = [] then return None
           else bind_step (writing (await env)) (\<lambda>_.
                tenant_step (place_user (tenant_env env) c userId domain))))"

subsection \<open>Resolving the workspace of a code\<close>

definition requiresExactAuthorizationWorkspace :: "client_config \<Rightarrow> product_policy \<Rightarrow> bool" where
  "requiresExactAuthorizationWorkspace c policy \<longleftrightarrow>
     all_active policy \<or>
     (flag orgs_enabled c \<and> flag user_needs_team c \<and> cfg_workspace_selection c = Some ''auto'')"

abbreviation invalid_code :: "'a checked" where
  "invalid_code \<equiv> refuse_with UNAUTHORIZED 401 ''INVALID_AUTH_CODE''"

definition validateWorkspace :: "auth_env \<Rightarrow> client_config \<Rightarrow> string \<Rightarrow> string \<times> string \<Rightarrow> unit auth_step" where
  "validateWorkspace env c userId active =
     lockAndAssertActiveClientWorkspaceScope env
       \<lparr>sc_userId = userId, sc_domain = cfg_domain c, sc_orgId = Some (fst active), sc_teamId = Some (snd active)\<rparr>"

definition place_or_refuse :: "auth_env \<Rightarrow> client_config \<Rightarrow> string \<Rightarrow> bool \<Rightarrow> bool \<Rightarrow> (string \<times> string) option auth_step" where
  "place_or_refuse env c userId placementAllowed exact =
     (if \<not> placementAllowed then reading (\<lambda>_. invalid_code)
      else bind_step (ensureUserHasRequiredTeam env c userId) (\<lambda>created.
        case created of
          None \<Rightarrow> (if exact then reading (\<lambda>_. invalid_code) else return None)
        | Some w \<Rightarrow> bind_step (validateWorkspace env c userId w) (\<lambda>_. return (Some w))))"

definition resolveRequiredAuthorizationWorkspace :: "auth_env \<Rightarrow> client_config \<Rightarrow> string \<Rightarrow> (string \<times> string) option auth_step"
  where
  "resolveRequiredAuthorizationWorkspace env c userId =
     bind_step (writing (await env)) (\<lambda>_ db.
       (let policy = resolveProductWorkspacePolicy (now env) (cfg_domain c) db;
            autoSelection = (cfg_workspace_selection c = Some ''auto'');
            exact = requiresExactAuthorizationWorkspace c policy;
            placementAllowed = (flag orgs_enabled c \<and> flag user_needs_team c);
            choices = buildWorkspaceChoices env (Some policy) c userId db
        in if \<not> placementAllowed \<and> \<not> exact then return None db
           else if autoSelection \<or> all_active policy then
             (case resolveAutoSelectedWorkspace choices of
                Some w \<Rightarrow> bind_step (validateWorkspace env c userId w) (\<lambda>_. return (Some w)) db
              | None \<Rightarrow>
                  if wc_teams choices \<noteq> [] \<or> wc_pending_invites choices \<noteq> [] then (invalid_code, db)
                  else place_or_refuse env c userId placementAllowed exact db)
           else place_or_refuse env c userId placementAllowed exact db))"

definition resolveProductWorkspaceBeforeTwoFa :: "auth_env \<Rightarrow> client_config \<Rightarrow> string \<Rightarrow> (string \<times> string) option auth_step"
  where
  "resolveProductWorkspaceBeforeTwoFa env c userId db =
     (if \<not> all_active (resolveProductWorkspacePolicy (now env) (cfg_domain c) db) then return None db
      else resolveRequiredAuthorizationWorkspace env c userId db)"

definition resolveAuthorizationCodeWorkspace ::
  "auth_env \<Rightarrow> client_config \<Rightarrow> string \<Rightarrow> string option \<times> string option \<Rightarrow> (string \<times> string) option auth_step" where
  "resolveAuthorizationCodeWorkspace env c userId stored db =
     (if truthy (fst stored) \<and> truthy (snd stored) then return (Some (the (fst stored), the (snd stored))) db
      else if all_active (resolveProductWorkspacePolicy (now env) (cfg_domain c) db) then (invalid_code, db)
      else resolveRequiredAuthorizationWorkspace env c userId db)"

end
