(* ===== verification/Authorization_Code.thy ===== *)
theory Authorization_Code
  imports Required_Placement
begin

section \<open>Authorization codes\<close>

text \<open>
  \<^verbatim>\<open>authorization-code.service.ts\<close> with \<^verbatim>\<open>utils/pkce.ts\<close>. A code is issued and consumed
  inside a transaction that takes the policy lock, the user's locks and the locks of the selected
  workspace, in that order; waiting for a lock is \<open>await\<close>. The hash of a code and the PKCE digest
  are parameters of the environment.
\<close>

subsection \<open>PKCE\<close>

definition is_alnum :: "char \<Rightarrow> bool" where
  "is_alnum c \<longleftrightarrow> is_digit c \<or> is_upper c \<or> is_lower c"

definition CODE_VERIFIER_PATTERN :: "string \<Rightarrow> bool" where
  "CODE_VERIFIER_PATTERN s \<longleftrightarrow>
     43 \<le> length s \<and> length s \<le> 128 \<and> (\<forall>c \<in> set s. is_alnum c \<or> c \<in> set ''._~-'')"

definition CODE_CHALLENGE_PATTERN :: "string \<Rightarrow> bool" where
  "CODE_CHALLENGE_PATTERN s \<longleftrightarrow> length s = 43 \<and> (\<forall>c \<in> set s. is_alnum c \<or> c \<in> set ''_-'')"

definition trimmed_or_empty :: "string option \<Rightarrow> string" where
  "trimmed_or_empty s = (case s of None \<Rightarrow> [] | Some t \<Rightarrow> js_trim t)"

definition parsePkceChallenge :: "string option \<Rightarrow> string option \<Rightarrow> string option checked" where
  "parsePkceChallenge challenge challengeMethod =
     (let codeChallenge = trimmed_or_empty challenge; codeChallengeMethod = trimmed_or_empty challengeMethod in
      if codeChallenge = [] \<and> codeChallengeMethod = [] then Inr None
      else if codeChallenge = [] \<or> codeChallengeMethod \<noteq> ''S256'' \<or> \<not> CODE_CHALLENGE_PATTERN codeChallenge
        then refuse_with BAD_REQUEST 400 ''INVALID_PKCE_CHALLENGE''
      else Inr (Some codeChallenge))"

definition parseRequiredPkceChallenge :: "string option \<Rightarrow> string option \<Rightarrow> string checked" where
  "parseRequiredPkceChallenge challenge challengeMethod =
     and_then (parsePkceChallenge challenge challengeMethod) (\<lambda>c.
       case c of None \<Rightarrow> refuse_with BAD_REQUEST 400 ''INVALID_PKCE_CHALLENGE'' | Some x \<Rightarrow> Inr x)"

definition verifyPkceCodeVerifier :: "auth_env \<Rightarrow> string option \<Rightarrow> string \<Rightarrow> unit checked" where
  "verifyPkceCodeVerifier env codeVerifier codeChallenge =
     (let verifier = trimmed_or_empty codeVerifier in
      if verifier = [] \<or> \<not> CODE_VERIFIER_PATTERN verifier then invalid_code
      else if sha256_base64url env verifier \<noteq> codeChallenge then invalid_code
      else Inr ())"

subsection \<open>Issuing\<close>

definition AUTHORIZATION_CODE_TTL_MS :: int where
  "AUTHORIZATION_CODE_TTL_MS = 5 * 60 * 1000"

definition hashAuthorizationCode :: "auth_env \<Rightarrow> string \<Rightarrow> string" where
  "hashAuthorizationCode env code = hmac_hex (hashes env) (secret env) code"

record code_request =
  cq_userId :: string
  cq_domain :: string
  cq_configUrl :: string
  cq_redirectUrl :: string
  cq_codeChallenge :: "string option"
  cq_codeChallengeMethod :: "string option"
  cq_rememberMe :: bool
  cq_twoFaCompleted :: bool
  cq_credentialEpoch :: nat
  cq_orgId :: "string option"
  cq_teamId :: "string option"

definition create_auth_code :: "auth_code \<Rightarrow> auth_db \<Rightarrow> (unit \<times> auth_db) checked" where
  "create_auth_code r db =
     (if \<exists>c \<in> set (auth_codes db). ac_codeHash c = ac_codeHash r \<or> ac_id c = ac_id r
      then Inl (Db_Error ''P2002'')
      else Inr ((), db\<lparr>auth_codes := auth_codes db @ [r]\<rparr>))"

definition new_code :: "auth_env \<Rightarrow> code_request \<Rightarrow> nat \<Rightarrow> auth_code" where
  "new_code env p k =
     \<lparr>ac_id = fresh_id (tenant_env env) k, ac_codeHash = hashAuthorizationCode env (random_token env k),
      ac_userId = cq_userId p, ac_domain = cq_domain p, ac_configUrl = cq_configUrl p,
      ac_redirectUrl = cq_redirectUrl p, ac_codeChallenge = cq_codeChallenge p,
      ac_codeChallengeMethod = cq_codeChallengeMethod p, ac_rememberMe = cq_rememberMe p,
      ac_twoFaCompleted = cq_twoFaCompleted p, ac_tokenVersion = Some (cq_credentialEpoch p),
      ac_orgId = cq_orgId p, ac_teamId = cq_teamId p, ac_expiresAt = now env + AUTHORIZATION_CODE_TTL_MS,
      ac_usedAt = None\<rparr>"

text \<open>
  At most three draws; only a clash of a unique index is tried again. The code relies on the
  transaction taking statements after the failed insert, and so does the model; PostgreSQL
  aborts the transaction instead, so there a clash ends the request.
\<close>

fun draw_code :: "auth_env \<Rightarrow> code_request \<Rightarrow> nat \<Rightarrow> nat \<Rightarrow> string auth_step" where
  "draw_code env p k 0 = reading (\<lambda>_. refuse_with INTERNAL 500 ''AUTH_CODE_COLLISION'')"
| "draw_code env p k (Suc left) = (\<lambda>db.
     case attempt (create_auth_code (new_code env p k)) db of
       (Inr _, db1) \<Rightarrow> (Inr (random_token env k), db1)
     | (Inl e, db1) \<Rightarrow> (if e = Db_Error ''P2002'' then draw_code env p (Suc k) left db1 else (Inl e, db1)))"

definition code_scope :: "code_request \<Rightarrow> scope_request" where
  "code_scope p = \<lparr>sc_userId = cq_userId p, sc_domain = cq_domain p, sc_orgId = cq_orgId p, sc_teamId = cq_teamId p\<rparr>"

definition issueAuthorizationCode :: "auth_env \<Rightarrow> code_request \<Rightarrow> string auth_step" where
  "issueAuthorizationCode env p =
     bind_step (reading (\<lambda>_.
       if \<not> database_url (tenant_env env) then refuse_with INTERNAL 500 ''DATABASE_DISABLED''
       else if tryParseRedirectUrl (url_parse env) (cq_redirectUrl p) = None
         then refuse_with BAD_REQUEST 400 ''INVALID_REDIRECT_URL''
       else if \<not> truthy (cq_codeChallenge p) \<or> cq_codeChallengeMethod p \<noteq> Some ''S256''
         then refuse_with BAD_REQUEST 400 ''PKCE_REQUIRED''
       else Inr ())) (\<lambda>_.
     in_transaction env
       (bind_step (writing (await env)) (\<lambda>_.
        bind_step (lockAndAssertAuthenticationEpoch env (cq_userId p) (cq_credentialEpoch p)) (\<lambda>_.
        bind_step (lockAndAssertActiveClientWorkspaceScope env (code_scope p)) (\<lambda>_.
        draw_code env p 0 3)))))"

subsection \<open>Consuming\<close>

record code_presented =
  cp_code :: string
  cp_configUrl :: string
  cp_domain :: string
  cp_redirectUrl :: string
  cp_codeVerifier :: "string option"

record code_grant =
  cg_userId :: string
  cg_rememberMe :: bool
  cg_twoFaCompleted :: bool
  cg_orgId :: "string option"
  cg_teamId :: "string option"

definition MAX_SAFE_INTEGER :: int where
  "MAX_SAFE_INTEGER = 9007199254740991"

definition code_checks :: "auth_env \<Rightarrow> code_presented \<Rightarrow> auth_db \<Rightarrow> (auth_code \<times> nat) checked" where
  "code_checks env q db =
     (case List.find (\<lambda>c. ac_codeHash c = hashAuthorizationCode env (cp_code q)) (auth_codes db) of
        None \<Rightarrow> invalid_code
      | Some row \<Rightarrow>
          if ac_domain row \<noteq> cp_domain q \<or> ac_configUrl row \<noteq> cp_configUrl q \<or>
             ac_redirectUrl row \<noteq> cp_redirectUrl q then invalid_code
          else if \<not> (truthy (ac_codeChallenge row) \<and> ac_codeChallengeMethod row = Some ''S256'') then invalid_code
          else if verifyPkceCodeVerifier env (cp_codeVerifier q) (the (ac_codeChallenge row)) \<noteq> Inr ()
            then invalid_code
          else if is_set (ac_usedAt row) \<or> ac_expiresAt row \<le> now env then invalid_code
          else case ac_tokenVersion row of
            None \<Rightarrow> invalid_code
          | Some e \<Rightarrow> if int e > MAX_SAFE_INTEGER then invalid_code else Inr (row, e))"

text \<open>Whatever the epoch or scope check throws, the client sees the same rejection.\<close>

definition opaque :: "'a auth_step \<Rightarrow> 'a auth_step" where
  "opaque m db = (case m db of (Inl e, db1) \<Rightarrow> (invalid_code, db1) | (Inr x, db1) \<Rightarrow> (Inr x, db1))"

definition still_open :: "auth_env \<Rightarrow> auth_code \<Rightarrow> auth_code \<Rightarrow> bool" where
  "still_open env row c \<longleftrightarrow> ac_id c = ac_id row \<and> ac_usedAt c = None \<and> now env < ac_expiresAt c"

definition claim_code :: "auth_env \<Rightarrow> auth_code \<Rightarrow> unit auth_step" where
  "claim_code env row db =
     (let db1 = db\<lparr>auth_codes := update_where (still_open env row) (\<lambda>c. c\<lparr>ac_usedAt := Some (now env)\<rparr>)
                     (auth_codes db)\<rparr>
      in if count_where (still_open env row) (auth_codes db) \<noteq> 1 then (invalid_code, db1) else (Inr (), db1))"

definition consumeAuthorizationCode :: "auth_env \<Rightarrow> code_presented \<Rightarrow> code_grant auth_step" where
  "consumeAuthorizationCode env q =
     bind_step (reading (code_checks env q)) (\<lambda>(row, credentialEpoch).
     bind_step (opaque (lockAndAssertAuthenticationEpoch env (ac_userId row) credentialEpoch)) (\<lambda>_.
     bind_step (opaque (lockAndAssertActiveClientWorkspaceScope env
        \<lparr>sc_userId = ac_userId row, sc_domain = ac_domain row, sc_orgId = ac_orgId row,
         sc_teamId = ac_teamId row\<rparr>)) (\<lambda>_.
     bind_step (claim_code env row) (\<lambda>_.
     return \<lparr>cg_userId = ac_userId row, cg_rememberMe = ac_rememberMe row,
             cg_twoFaCompleted = ac_twoFaCompleted row, cg_orgId = ac_orgId row, cg_teamId = ac_teamId row\<rparr>))))"

subsection \<open>Lemmas\<close>

lemma opaque_Inr: "opaque m s = (Inr x, t) \<longleftrightarrow> m s = (Inr x, t)"
  by (auto simp: opaque_def split: prod.splits sum.splits)

lemma code_checksD:
  assumes "code_checks env q db = Inr (row, e)"
  shows "row \<in> set (auth_codes db)" "ac_codeHash row = hashAuthorizationCode env (cp_code q)"
    "ac_domain row = cp_domain q" "ac_configUrl row = cp_configUrl q" "ac_redirectUrl row = cp_redirectUrl q"
    "\<exists>ch. ac_codeChallenge row = Some ch \<and> verifyPkceCodeVerifier env (cp_codeVerifier q) ch = Inr ()"
    "ac_usedAt row = None" "now env < ac_expiresAt row" "ac_tokenVersion row = Some e"
  using assms
  by (auto simp: code_checks_def truthy_def dest!: find_Some_set split: option.splits if_splits)

lemma claim_codeD:
  assumes "claim_code env row s = (Inr x, t)"
  shows "count_where (still_open env row) (auth_codes s) = 1"
    "t = s\<lparr>auth_codes := update_where (still_open env row) (\<lambda>c. c\<lparr>ac_usedAt := Some (now env)\<rparr>) (auth_codes s)\<rparr>"
  using assms by (auto simp: claim_code_def Let_def split: if_splits)

lemma claimed_all:
  assumes "claim_code env row s = (Inr x, t)" and "c \<in> set (auth_codes t)" and "ac_id c = ac_id row"
    and "now env < ac_expiresAt c"
  shows "ac_usedAt c \<noteq> None"
  using assms(2-4) unfolding claim_codeD(2)[OF assms(1)]
  by (auto simp: update_where_def still_open_def)

lemma verifier_ok:
  "verifyPkceCodeVerifier env v ch = Inr () \<longleftrightarrow>
     (\<exists>s. v = Some s \<and> CODE_VERIFIER_PATTERN (js_trim s) \<and> sha256_base64url env (js_trim s) = ch)"
  by (auto simp: verifyPkceCodeVerifier_def trimmed_or_empty_def CODE_VERIFIER_PATTERN_def Let_def
      split: option.splits)

end
