(* ===== verification/Code_Properties.thy ===== *)
theory Code_Properties
  imports Authorization_Code Auth_Demo
begin

section \<open>Codes are bound, used once and redeemable\<close>

text \<open>
  How stored authorization codes age, the histories they live in, and the two properties over them:
  a code is bound and used once, and an issued code redeems within its lifetime.
\<close>

subsection \<open>The order in which codes age\<close>

definition code_binding where
  "code_binding c = (ac_id c, ac_codeHash c, ac_userId c, ac_domain c, ac_configUrl c, ac_redirectUrl c,
     ac_codeChallenge c, ac_codeChallengeMethod c, ac_tokenVersion c, ac_orgId c, ac_teamId c, ac_expiresAt c)"

definition code_ages :: "auth_code \<Rightarrow> auth_code \<Rightarrow> bool" where
  "code_ages c d \<longleftrightarrow> code_binding d = code_binding c \<and> (ac_usedAt c \<noteq> None \<longrightarrow> ac_usedAt d = ac_usedAt c)"

definition codes_ok :: "auth_db \<Rightarrow> bool" where
  "codes_ok s \<longleftrightarrow> distinct (map ac_codeHash (auth_codes s)) \<and> distinct (map ac_id (auth_codes s))"

definition along_codes :: "auth_db \<Rightarrow> auth_db \<Rightarrow> bool" where
  "along_codes s t \<longleftrightarrow> (codes_ok s \<longrightarrow> codes_ok t) \<and>
     (\<forall>c \<in> set (auth_codes s). \<exists>d \<in> set (auth_codes t). code_ages c d)"

lemma code_ages_trans: "code_ages c d \<Longrightarrow> code_ages d e \<Longrightarrow> code_ages c e"
  by (auto simp: code_ages_def)

interpretation code_order: store_order along_codes
proof
  show "along_codes s s" for s by (auto simp: along_codes_def code_ages_def)
  show "along_codes s u" if "along_codes s t" "along_codes t u" for s t u
    using that unfolding along_codes_def by (meson code_ages_trans)
qed

lemma along_codes_same: "auth_codes t = auth_codes s \<Longrightarrow> along_codes s t"
  using code_order.refl[of s] by (simp add: along_codes_def codes_ok_def)

lemma create_code_along: "create_auth_code r s = Inr (x, t) \<Longrightarrow> along_codes s t"
  by (force simp: create_auth_code_def along_codes_def codes_ok_def code_ages_def split: if_splits)

lemma draw_code_along: "advances along_codes (draw_code env p k n)"
proof (induction n arbitrary: k)
  case (Suc n)
  have "along_codes s (snd (draw_code env p k (Suc n) s))" for s
  proof (cases "create_auth_code (new_code env p k) s")
    case (Inl e)
    then show ?thesis using Suc.IH[of "Suc k"]
      by (simp add: attempt_def advances_def code_order.refl)
  next
    case (Inr y)
    then show ?thesis by (cases y) (simp add: attempt_def create_code_along)
  qed
  then show ?case by (simp add: advances_def)
qed (simp add: code_order.advances_pure)

lemma claim_along: "advances along_codes (claim_code env row)"
proof -
  have "along_codes s (s\<lparr>auth_codes := update_where (still_open env row) (\<lambda>c. c\<lparr>ac_usedAt := Some n\<rparr>)
      (auth_codes s)\<rparr>)" (is "along_codes s ?t") for s n
  proof -
    have "map ac_codeHash (auth_codes ?t) = map ac_codeHash (auth_codes s)"
      "map ac_id (auth_codes ?t) = map ac_id (auth_codes s)"
      by (auto simp: update_where_def)
    moreover have "\<exists>d \<in> set (auth_codes ?t). code_ages c d" if "c \<in> set (auth_codes s)" for c
      using that
      by (intro bexI[of _ "if still_open env row c then c\<lparr>ac_usedAt := Some n\<rparr> else c"])
        (auto simp: update_where_def code_ages_def code_binding_def still_open_def)
    ultimately show ?thesis by (simp add: along_codes_def codes_ok_def)
  qed
  then show ?thesis by (auto simp: advances_def claim_code_def Let_def)
qed

definition ages_while_waiting :: "auth_env \<Rightarrow> bool" where
  "ages_while_waiting env \<longleftrightarrow> (\<forall>s. along_codes s (await env s))"

lemma waiting_along:
  assumes "ages_while_waiting env"
  shows "advances along_codes (writing (await env))"
    "advances along_codes (lockAndAssertAuthenticationEpoch env u e)"
    "advances along_codes (lockAndAssertActiveClientWorkspaceScope env sc)"
  using assms
  by (auto simp: advances_def writing_def ages_while_waiting_def lockAndAssertAuthenticationEpoch_def
      lockAndAssertActiveClientWorkspaceScope_def Let_def code_order.refl)

lemma opaque_along: "advances R m \<Longrightarrow> advances R (opaque m)"
  by (auto simp: advances_def opaque_def split: prod.splits sum.splits) (metis snd_conv)+

lemma transaction_along:
  "ages_while_waiting env \<Longrightarrow> advances along_codes m \<Longrightarrow> advances along_codes (in_transaction env m)"
  by (auto simp: advances_def in_transaction_def ages_while_waiting_def split: prod.splits sum.splits)
    (metis snd_conv)

lemma issue_along: "ages_while_waiting env \<Longrightarrow> advances along_codes (issueAuthorizationCode env p)"
  unfolding issueAuthorizationCode_def
  by (intro code_order.advances_bind code_order.advances_pure transaction_along waiting_along draw_code_along)

lemma consume_along: "ages_while_waiting env \<Longrightarrow> advances along_codes (consumeAuthorizationCode env q)"
  unfolding consumeAuthorizationCode_def
  by (intro code_order.advances_bind code_order.advances_pure)
    (auto intro!: code_order.advances_bind code_order.advances_pure opaque_along waiting_along claim_along)

subsection \<open>Histories\<close>

text \<open>Requests about codes, other writes in between, and requests that run while another waits for
  its locks.\<close>

inductive code_history :: "auth_db \<Rightarrow> auth_db \<Rightarrow> bool" where
  start: "code_history s s"
| issue: "code_history s t \<Longrightarrow> issueAuthorizationCode env p t = (r, u) \<Longrightarrow>
     (\<forall>x. code_history x (await env x)) \<Longrightarrow> code_history s u"
| consume: "code_history s t \<Longrightarrow> consumeAuthorizationCode env q t = (r, u) \<Longrightarrow>
     (\<forall>x. code_history x (await env x)) \<Longrightarrow> code_history s u"
| other: "code_history s t \<Longrightarrow> auth_codes u = auth_codes t \<Longrightarrow> code_history s u"

lemma history_along: "code_history s t \<Longrightarrow> along_codes s t"
proof (induction rule: code_history.induct)
  case (issue s t env p r u)
  then have "ages_while_waiting env" by (simp add: ages_while_waiting_def)
  from code_order.trans[OF issue.IH(1) advancesD[OF issue_along[OF this] issue.hyps(2)]] show ?case .
next
  case (consume s t env q r u)
  then have "ages_while_waiting env" by (simp add: ages_while_waiting_def)
  from code_order.trans[OF consume.IH(1) advancesD[OF consume_along[OF this] consume.hyps(2)]] show ?case .
qed (auto intro: code_order.refl code_order.trans along_codes_same)

lemma codes_distinct: "code_history s0 s \<Longrightarrow> auth_codes s0 = [] \<Longrightarrow> codes_ok s"
  using history_along by (auto simp: along_codes_def codes_ok_def)

subsection \<open>Consumption\<close>

lemma consumeD:
  assumes "consumeAuthorizationCode env q s = (Inr g, t)"
  obtains row e w where "code_checks env q s = Inr (row, e)" "claim_code env row w = (Inr (), t)"
    "tokenVersion (await env s) (ac_userId row) = Some e"
    "\<And>i. ac_orgId row = Some i \<Longrightarrow> i \<noteq> [] \<Longrightarrow>
       \<exists>tm. ac_teamId row = Some tm \<and> workspace_in_force (tenant w) (ac_userId row) i tm"
    "g = \<lparr>cg_userId = ac_userId row, cg_rememberMe = ac_rememberMe row,
           cg_twoFaCompleted = ac_twoFaCompleted row, cg_orgId = ac_orgId row, cg_teamId = ac_teamId row\<rparr>"
    "w = await env s \<or> w = await env (await env s)"
proof -
  from assms obtain row e s1 x w y where
    checks: "code_checks env q s = Inr (row, e)" and
    epoch: "lockAndAssertAuthenticationEpoch env (ac_userId row) e s = (Inr x, s1)" and
    scope: "lockAndAssertActiveClientWorkspaceScope env
        \<lparr>sc_userId = ac_userId row, sc_domain = ac_domain row, sc_orgId = ac_orgId row,
         sc_teamId = ac_teamId row\<rparr> s1 = (Inr y, w)" and
    claim: "claim_code env row w = (Inr (), t)" and
    g: "g = \<lparr>cg_userId = ac_userId row, cg_rememberMe = ac_rememberMe row,
           cg_twoFaCompleted = ac_twoFaCompleted row, cg_orgId = ac_orgId row, cg_teamId = ac_teamId row\<rparr>"
    by (auto simp: consumeAuthorizationCode_def bind_step_Inr reading_value return_value opaque_Inr)
  show thesis
    using that[OF checks claim _ _ g] epochD[OF epoch] locked_scope_state[OF scope] locked_scopeD(2)[OF scope]
    by auto
qed

text \<open>
  C3: an authorization code is a bound, short-lived, single-use capability. A consumption that
  succeeds presented the hash of a stored, unused, unexpired code together with the domain, config
  URL and redirect URL it was issued for and a well-formed verifier whose digest is the stored
  challenge; the user's credential epoch was still that of issuance once the user lock was held;
  and the workspace it carries was in force. From then on no history of requests - issuing, other
  consumptions, requests running while another waits for its locks, writes of other services -
  makes the same code succeed again.
\<close>

theorem authorization_code_single_use:
  assumes "code_history s0 s" and "auth_codes s0 = []"
    and "\<forall>x. code_history x (await env x)"
    and "consumeAuthorizationCode env q s = (Inr g, t)"
  shows "(\<exists>row v ch. row \<in> set (auth_codes s) \<and> ac_codeHash row = hashAuthorizationCode env (cp_code q) \<and>
      ac_domain row = cp_domain q \<and> ac_configUrl row = cp_configUrl q \<and> ac_redirectUrl row = cp_redirectUrl q \<and>
      ac_usedAt row = None \<and> now env < ac_expiresAt row \<and>
      cp_codeVerifier q = Some v \<and> CODE_VERIFIER_PATTERN (js_trim v) \<and>
      ac_codeChallenge row = Some ch \<and> sha256_base64url env (js_trim v) = ch \<and>
      tokenVersion (await env s) (ac_userId row) = ac_tokenVersion row \<and>
      cg_userId g = ac_userId row \<and> cg_orgId g = ac_orgId row \<and> cg_teamId g = ac_teamId row \<and>
      cg_twoFaCompleted g = ac_twoFaCompleted row) \<and>
    (\<forall>i. cg_orgId g = Some i \<longrightarrow> i \<noteq> [] \<longrightarrow>
      (\<exists>tm. cg_teamId g = Some tm \<and> workspace_in_force (tenant t) (cg_userId g) i tm)) \<and>
    (\<forall>s2 env2 q2. code_history t s2 \<longrightarrow>
      hashAuthorizationCode env2 (cp_code q2) = hashAuthorizationCode env (cp_code q) \<longrightarrow>
      fst (consumeAuthorizationCode env2 q2 s2) = invalid_code)"
proof (intro conjI allI impI)
  obtain row e w where
    checks: "code_checks env q s = Inr (row, e)" and claim: "claim_code env row w = (Inr (), t)" and
    epoch: "tokenVersion (await env s) (ac_userId row) = Some e" and
    scope: "\<And>i. ac_orgId row = Some i \<Longrightarrow> i \<noteq> [] \<Longrightarrow>
       \<exists>tm. ac_teamId row = Some tm \<and> workspace_in_force (tenant w) (ac_userId row) i tm" and
    g: "g = \<lparr>cg_userId = ac_userId row, cg_rememberMe = ac_rememberMe row,
           cg_twoFaCompleted = ac_twoFaCompleted row, cg_orgId = ac_orgId row, cg_teamId = ac_teamId row\<rparr>" and
    w: "w = await env s \<or> w = await env (await env s)"
    by (rule consumeD[OF assms(4)]) (rule that)
  note row = code_checksD[OF checks]
  from row epoch g show "\<exists>row v ch. row \<in> set (auth_codes s) \<and>
      ac_codeHash row = hashAuthorizationCode env (cp_code q) \<and>
      ac_domain row = cp_domain q \<and> ac_configUrl row = cp_configUrl q \<and> ac_redirectUrl row = cp_redirectUrl q \<and>
      ac_usedAt row = None \<and> now env < ac_expiresAt row \<and>
      cp_codeVerifier q = Some v \<and> CODE_VERIFIER_PATTERN (js_trim v) \<and>
      ac_codeChallenge row = Some ch \<and> sha256_base64url env (js_trim v) = ch \<and>
      tokenVersion (await env s) (ac_userId row) = ac_tokenVersion row \<and>
      cg_userId g = ac_userId row \<and> cg_orgId g = ac_orgId row \<and> cg_teamId g = ac_teamId row \<and>
      cg_twoFaCompleted g = ac_twoFaCompleted row"
    by (intro exI[of _ row]) (auto simp: verifier_ok)
  have same: "tenant t = tenant w" by (simp add: claim_codeD(2)[OF claim])
  then show "\<exists>tm. cg_teamId g = Some tm \<and> workspace_in_force (tenant t) (cg_userId g) i tm"
    if "cg_orgId g = Some i" "i \<noteq> []" for i
    using scope that g by simp
  have waits: "along_codes x (await env x)" for x using assms(3) history_along by blast
  then have sw: "along_codes s w" using w code_order.trans by blast
  from sw row(1) obtain c where c: "c \<in> set (auth_codes w)" "code_ages row c"
    unfolding along_codes_def by blast
  then have c_used: "\<exists>d \<in> set (auth_codes t). code_binding d = code_binding row \<and> ac_usedAt d \<noteq> None"
    using claim row(8)
    by (intro bexI[of _ "if still_open env row c then c\<lparr>ac_usedAt := Some (now env)\<rparr> else c"])
      (auto simp: claim_codeD(2)[OF claim] update_where_def code_ages_def code_binding_def still_open_def)
  have wt: "along_codes w t" using advancesD[OF claim_along claim] .
  have ok: "codes_ok t"
    using codes_distinct[OF assms(1,2)] sw wt by (simp add: along_codes_def)
  fix s2 and env2 :: auth_env and q2 :: code_presented
  assume later: "code_history t s2" and
    code: "hashAuthorizationCode env2 (cp_code q2) = hashAuthorizationCode env (cp_code q)"
  from c_used history_along[OF later] obtain d where
    d: "d \<in> set (auth_codes s2)" "ac_codeHash d = ac_codeHash row" "ac_usedAt d \<noteq> None"
    unfolding along_codes_def code_ages_def code_binding_def by fastforce
  from ok history_along[OF later] have "distinct (map ac_codeHash (auth_codes s2))"
    by (simp add: along_codes_def codes_ok_def)
  then have "List.find (\<lambda>c. ac_codeHash c = hashAuthorizationCode env2 (cp_code q2)) (auth_codes s2) = Some d"
    using d(1,2) row(2) code by (auto simp: find_key_Some_iff)
  then have "code_checks env2 q2 s2 = invalid_code"
    using d(3) by (simp add: code_checks_def)
  then show "fst (consumeAuthorizationCode env2 q2 s2) = invalid_code"
    by (simp add: consumeAuthorizationCode_def bind_step_def reading_def)
qed

definition demo_verifier :: string where
  "demo_verifier = replicate 43 (CHR ''v'')"

definition demo_code_request :: code_request where
  "demo_code_request =
     \<lparr>cq_userId = ''bob'', cq_domain = ''shop'', cq_configUrl = ''cfg'', cq_redirectUrl = ''https://shop/cb'',
      cq_codeChallenge = Some (CHR ''%'' # demo_verifier), cq_codeChallengeMethod = Some ''S256'',
      cq_rememberMe = True, cq_twoFaCompleted = False, cq_credentialEpoch = 0, cq_orgId = Some ''a'',
      cq_teamId = Some ''g''\<rparr>"

definition demo_presented :: code_presented where
  "demo_presented = \<lparr>cp_code = ''c'', cp_configUrl = ''cfg'', cp_domain = ''shop'',
     cp_redirectUrl = ''https://shop/cb'', cp_codeVerifier = Some demo_verifier\<rparr>"

definition demo_issued :: "(thrown + string) \<times> auth_db" where
  "demo_issued = issueAuthorizationCode (demo_auth_env ''c'' 100) demo_code_request demo_auth"

definition demo_consumed :: "(thrown + code_grant) \<times> auth_db" where
  "demo_consumed = consumeAuthorizationCode (demo_auth_env ''e'' 200) demo_presented (snd demo_issued)"

definition demo_grant :: code_grant where
  "demo_grant = \<lparr>cg_userId = ''bob'', cg_rememberMe = True, cg_twoFaCompleted = False, cg_orgId = Some ''a'',
     cg_teamId = Some ''g''\<rparr>"

lemma demo_code_results: "fst demo_issued = Inr ''c''" "fst demo_consumed = Inr demo_grant"
  by code_simp+

lemma demo_waits: "\<forall>x. code_history x (await (demo_auth_env k n) x)"
  by (simp add: demo_auth_env_def code_history.start)

lemma demo_code_history: "code_history demo_auth (snd demo_issued)"
  unfolding demo_issued_def
  by (rule code_history.issue[OF code_history.start surjective_pairing demo_waits])

theorem authorization_code_single_use_witness:
  "fst demo_consumed = Inr demo_grant \<and>
   fst (consumeAuthorizationCode (demo_auth_env ''f'' 201) demo_presented (snd demo_consumed)) = invalid_code"
proof -
  have consumed: "consumeAuthorizationCode (demo_auth_env ''e'' 200) demo_presented (snd demo_issued) =
      (Inr demo_grant, snd demo_consumed)"
    using demo_code_results(2) unfolding demo_consumed_def by (metis prod.collapse)
  have start: "auth_codes demo_auth = []" by (simp add: demo_auth_def)
  have hash: "hashAuthorizationCode (demo_auth_env ''f'' 201) (cp_code demo_presented) =
      hashAuthorizationCode (demo_auth_env ''e'' 200) (cp_code demo_presented)"
    by (simp add: hashAuthorizationCode_def demo_auth_env_def)
  from authorization_code_single_use[OF demo_code_history start demo_waits consumed] hash
  show ?thesis using demo_code_results(2) code_history.start by blast
qed

subsection \<open>Redemption\<close>

lemma draw_codeD:
  "draw_code env p k n s = (Inr code, t) \<Longrightarrow>
     \<exists>j. code = random_token env j \<and> create_auth_code (new_code env p j) s = Inr ((), t)"
proof (induction n arbitrary: k)
  case (Suc n)
  show ?case
  proof (cases "create_auth_code (new_code env p k) s")
    case (Inl e)
    with Suc show ?thesis by (auto simp: attempt_def split: if_splits)
  next
    case (Inr y)
    with Suc.prems show ?thesis by (cases y) (auto simp: attempt_def)
  qed
qed (simp add: reading_def)

lemma issueD:
  assumes "issueAuthorizationCode env p s = (Inr code, t)" and "await env = id"
  obtains j u where "code = random_token env j" "create_auth_code (new_code env p j) s = Inr ((), t)"
    "findUser s (cq_userId p) = Some u" "tokenVersion s (cq_userId p) = Some (cq_credentialEpoch p)"
    "truthy (cq_codeChallenge p)" "cq_codeChallengeMethod p = Some ''S256''"
proof -
  from assms have
    checks: "truthy (cq_codeChallenge p)" "cq_codeChallengeMethod p = Some ''S256''" and
    tx: "\<exists>x y s1 s2. lockAndAssertAuthenticationEpoch env (cq_userId p) (cq_credentialEpoch p) s = (Inr x, s1) \<and>
      lockAndAssertActiveClientWorkspaceScope env (code_scope p) s1 = (Inr y, s2) \<and>
      draw_code env p 0 3 s2 = (Inr code, t)"
    by (auto simp: issueAuthorizationCode_def bind_step_Inr reading_value in_transaction_def writing_value
        split: if_splits prod.splits sum.splits simp del: draw_code.simps)
  then obtain x y s1 s2 where
    epoch: "lockAndAssertAuthenticationEpoch env (cq_userId p) (cq_credentialEpoch p) s = (Inr x, s1)" and
    scope: "lockAndAssertActiveClientWorkspaceScope env (code_scope p) s1 = (Inr y, s2)" and
    draw: "draw_code env p 0 3 s2 = (Inr code, t)" by blast
  from epoch assms(2) obtain u where u: "s1 = s" "findUser s (cq_userId p) = Some u"
      "tokenVersion s (cq_userId p) = Some (cq_credentialEpoch p)"
    by (auto simp: lockAndAssertAuthenticationEpoch_def Let_def split: option.splits if_splits)
  moreover from locked_scope_state[OF scope] assms(2) u(1) have "s2 = s" by auto
  ultimately show thesis using that draw_codeD[OF draw] checks by blast
qed

text \<open>
  C21: an issued code redeems. A code issued while nothing else runs is exchanged, within its five
  minutes, by whoever presents it with the domain, config URL and redirect URL of the request and
  the verifier whose digest was the challenge, for exactly the user, workspace, remember-me choice
  and two-factor proof of the request - for codes without a workspace and for those whose
  workspace belongs to the domain of the client.
\<close>

theorem issued_code_redeems:
  assumes "code_history s0 s" and "auth_codes s0 = []"
    and "issueAuthorizationCode env p s = (Inr code, t)" and "await env = id" and "await env2 = id"
    and "hashes env2 = hashes env" and "secret env2 = secret env"
    and "now env2 < now env + 5 * 60 * 1000" and "int (cq_credentialEpoch p) < 2 ^ 53"
    and "activeWorkspaceScopeExists False (code_scope p) s"
    and "CODE_VERIFIER_PATTERN (js_trim v)" and "cq_codeChallenge p = Some (sha256_base64url env2 (js_trim v))"
  shows "fst (consumeAuthorizationCode env2
      \<lparr>cp_code = code, cp_configUrl = cq_configUrl p, cp_domain = cq_domain p,
       cp_redirectUrl = cq_redirectUrl p, cp_codeVerifier = Some v\<rparr> t) =
    Inr \<lparr>cg_userId = cq_userId p, cg_rememberMe = cq_rememberMe p, cg_twoFaCompleted = cq_twoFaCompleted p,
         cg_orgId = cq_orgId p, cg_teamId = cq_teamId p\<rparr>"
proof -
  obtain j u where code: "code = random_token env j"
    and created: "create_auth_code (new_code env p j) s = Inr ((), t)"
    and user: "findUser s (cq_userId p) = Some u" "tokenVersion s (cq_userId p) = Some (cq_credentialEpoch p)"
    and pkce: "truthy (cq_codeChallenge p)" "cq_codeChallengeMethod p = Some ''S256''"
    by (rule issueD[OF assms(3,4)]) (rule that)
  let ?row = "new_code env p j"
  let ?q = "\<lparr>cp_code = code, cp_configUrl = cq_configUrl p, cp_domain = cq_domain p,
       cp_redirectUrl = cq_redirectUrl p, cp_codeVerifier = Some v\<rparr>"
  from created have t: "t = s\<lparr>auth_codes := auth_codes s @ [?row]\<rparr>"
    by (auto simp: create_auth_code_def split: if_splits)
  have ok: "distinct (map ac_codeHash (auth_codes t))" "distinct (map ac_id (auth_codes t))"
    using create_code_along[OF created] codes_distinct[OF assms(1,2)] by (auto simp: along_codes_def codes_ok_def)
  have hash: "hashAuthorizationCode env2 code = ac_codeHash ?row"
    using assms(6,7) code by (simp add: new_code_def hashAuthorizationCode_def)
  have row: "?row \<in> set (auth_codes t)" by (simp add: t)
  have fields: "ac_domain ?row = cq_domain p" "ac_configUrl ?row = cq_configUrl p"
    "ac_redirectUrl ?row = cq_redirectUrl p" "ac_codeChallenge ?row = cq_codeChallenge p"
    "ac_codeChallengeMethod ?row = cq_codeChallengeMethod p" "ac_usedAt ?row = None"
    "ac_expiresAt ?row = now env + 5 * 60 * 1000" "ac_tokenVersion ?row = Some (cq_credentialEpoch p)"
    "ac_userId ?row = cq_userId p" "ac_orgId ?row = cq_orgId p" "ac_teamId ?row = cq_teamId p"
    "ac_rememberMe ?row = cq_rememberMe p" "ac_twoFaCompleted ?row = cq_twoFaCompleted p"
    by (simp_all add: new_code_def AUTHORIZATION_CODE_TTL_MS_def)
  have "verifyPkceCodeVerifier env2 (Some v) (sha256_base64url env2 (js_trim v)) = Inr ()"
    using assms(11) by (simp add: verifier_ok)
  moreover have "List.find (\<lambda>c. ac_codeHash c = ac_codeHash ?row) (auth_codes t) = Some ?row"
    using row by (simp add: find_key_Some_iff[OF ok(1)])
  ultimately have checks: "code_checks env2 ?q t = Inr (?row, cq_credentialEpoch p)"
    using pkce assms(8,9,12) by (simp add: code_checks_def hash fields MAX_SAFE_INTEGER_def)
  have epoch: "lockAndAssertAuthenticationEpoch env2 (cq_userId p) (cq_credentialEpoch p) t =
      (Inr (cq_credentialEpoch p, u_twoFaEnabled u), t)"
    using user assms(5) by (simp add: lockAndAssertAuthenticationEpoch_def Let_def t findUser_def tokenVersion_def)
  have here: "activeWorkspaceScopeExists False (code_scope p) t"
    using assms(10) by (simp add: activeWorkspaceScopeExists_def t)
  then have "fst (lockAndAssertActiveClientWorkspaceScope env2 (code_scope p) t) = Inr () \<and>
      snd (lockAndAssertActiveClientWorkspaceScope env2 (code_scope p) t) = t"
    using assms(5) by (auto simp: lockAndAssertActiveClientWorkspaceScope_def assertActiveWorkspaceScope_def
        Let_def activeWorkspaceScopeExists_def split: if_splits)
  then have scope: "lockAndAssertActiveClientWorkspaceScope env2 (code_scope p) t = (Inr (), t)"
    by (metis prod.collapse)
  have "count_where (still_open env2 ?row) (auth_codes t) \<le> 1"
    unfolding still_open_def by (rule count_where_key[OF ok(2)])
  moreover have "still_open env2 ?row ?row" using assms(8) by (simp add: still_open_def fields)
  with row have "count_where (still_open env2 ?row) (auth_codes t) \<noteq> 0" by (auto simp: count_where_0_iff)
  ultimately have "count_where (still_open env2 ?row) (auth_codes t) = 1" by linarith
  then obtain t' where claim: "claim_code env2 ?row t = (Inr (), t')" by (simp add: claim_code_def)
  show ?thesis
    by (simp add: consumeAuthorizationCode_def bind_step_def reading_def checks opaque_def fields epoch
        scope[unfolded code_scope_def] return_def claim)
qed

theorem issued_code_redeems_witness:
  "fst demo_issued = Inr ''c'' \<and> fst demo_consumed = Inr demo_grant"
proof -
  have issued: "issueAuthorizationCode (demo_auth_env ''c'' 100) demo_code_request demo_auth =
      (Inr ''c'', snd demo_issued)"
    using demo_code_results(1) unfolding demo_issued_def by (metis prod.collapse)
  let ?e1 = "demo_auth_env ''c'' 100" and ?e2 = "demo_auth_env ''e'' 200"
  have env: "await ?e1 = id" "await ?e2 = id" "hashes ?e2 = hashes ?e1" "secret ?e2 = secret ?e1"
    "now ?e2 < now ?e1 + 5 * 60 * 1000"
    by (simp_all add: demo_auth_env_def demo_env_def)
  have request: "int (cq_credentialEpoch demo_code_request) < 2 ^ 53"
    "activeWorkspaceScopeExists False (code_scope demo_code_request) demo_auth"
    "CODE_VERIFIER_PATTERN (js_trim demo_verifier)"
    "cq_codeChallenge demo_code_request = Some (sha256_base64url ?e2 (js_trim demo_verifier))"
    by code_simp+
  have start: "auth_codes demo_auth = []" by (simp add: demo_auth_def)
  from issued_code_redeems[OF code_history.start start issued env request]
  have "fst demo_consumed = Inr demo_grant"
    by (simp add: demo_consumed_def demo_presented_def demo_code_request_def demo_grant_def)
  then show ?thesis using demo_code_results(1) by simp
qed

end
