(* ===== verification/Org_Groups.thy ===== *)
theory Org_Groups
  imports Org_Teams
begin

section \<open>Groups\<close>

text \<open>
  \<^verbatim>\<open>group.service.base.ts\<close>, \<^verbatim>\<open>group.service.groups.ts\<close> and
  \<^verbatim>\<open>group.service.members.ts\<close>: the groups of an organisation, their members and the teams
  filed under them. The handlers have no acting user: their routes admit the domain backend. What
  commits between the checks of a handler and its write is \<open>awaitLock\<close>.
\<close>

subsection \<open>Writes\<close>

definition group_indexes_ok :: "org_db \<Rightarrow> bool" where
  "group_indexes_ok db \<longleftrightarrow> distinct (map g_id (groups db)) \<and>
     distinct (map (\<lambda>g. (g_orgId g, g_name g)) (groups db))"

definition group_member_index_ok :: "org_db \<Rightarrow> bool" where
  "group_member_index_ok db \<longleftrightarrow> distinct (map (\<lambda>m. (gm_groupId m, gm_userId m)) (group_members db))"

definition findGroup :: "org_db \<Rightarrow> (org_group \<Rightarrow> bool) \<Rightarrow> org_group option" where
  "findGroup db P = List.find P (groups db)"

definition findGroupMember :: "org_db \<Rightarrow> (group_member \<Rightarrow> bool) \<Rightarrow> group_member option" where
  "findGroupMember db P = List.find P (group_members db)"

definition create_group :: "org_group \<Rightarrow> org_db \<Rightarrow> org_db checked" where
  "create_group g db =
     (if findOrg db (g_orgId g) = None then Inl (Db_Error ''P2003'')
      else constrained group_indexes_ok (db\<lparr>groups := groups db @ [g]\<rparr>))"

definition update_group :: "string \<Rightarrow> (org_group \<Rightarrow> org_group) \<Rightarrow> org_db \<Rightarrow> org_db checked" where
  "update_group i f db =
     (if findGroup db (\<lambda>g. g_id g = i) = None then Inl (Db_Error ''P2025'')
      else constrained group_indexes_ok (db\<lparr>groups := update_where (\<lambda>g. g_id g = i) f (groups db)\<rparr>))"

text \<open>Deleting a group deletes its memberships and takes its teams out of it.\<close>

definition delete_group :: "string \<Rightarrow> org_db \<Rightarrow> org_db checked" where
  "delete_group i db =
     (if findGroup db (\<lambda>g. g_id g = i) = None then Inl (Db_Error ''P2025'')
      else Inr (db\<lparr>groups := filter (\<lambda>g. g_id g \<noteq> i) (groups db),
        group_members := filter (\<lambda>m. gm_groupId m \<noteq> i) (group_members db),
        teams := update_where (\<lambda>t. t_groupId t = Some i) (\<lambda>t. t\<lparr>t_groupId := None\<rparr>) (teams db)\<rparr>))"

definition create_group_member :: "group_member \<Rightarrow> org_db \<Rightarrow> org_db checked" where
  "create_group_member m db =
     (if \<not> user_exists db (gm_userId m) \<or> findGroup db (\<lambda>g. g_id g = gm_groupId m) = None
      then Inl (Db_Error ''P2003'')
      else constrained group_member_index_ok (db\<lparr>group_members := group_members db @ [m]\<rparr>))"

definition update_group_member :: "string \<Rightarrow> (group_member \<Rightarrow> group_member) \<Rightarrow> org_db \<Rightarrow> org_db checked" where
  "update_group_member i f db =
     (if findGroupMember db (\<lambda>m. gm_id m = i) = None then Inl (Db_Error ''P2025'')
      else Inr (db\<lparr>group_members := update_where (\<lambda>m. gm_id m = i) f (group_members db)\<rparr>))"

definition delete_group_member :: "string \<Rightarrow> org_db \<Rightarrow> org_db checked" where
  "delete_group_member i db =
     (if findGroupMember db (\<lambda>m. gm_id m = i) = None then Inl (Db_Error ''P2025'')
      else Inr (db\<lparr>group_members := filter (\<lambda>m. gm_id m \<noteq> i) (group_members db)\<rparr>))"

text \<open>Filing a team: the column is a foreign key.\<close>

definition file_team :: "string \<Rightarrow> string option \<Rightarrow> int \<Rightarrow> org_db \<Rightarrow> org_db checked" where
  "file_team i groupId now db =
     (if (case groupId of None \<Rightarrow> False | Some j \<Rightarrow> findGroup db (\<lambda>g. g_id g = j) = None)
      then Inl (Db_Error ''P2003'')
      else update_team i (\<lambda>t. t\<lparr>t_groupId := groupId, t_updatedAt := now\<rparr>) db)"

subsection \<open>The shared base\<close>

definition parseMaxGroupsPerOrg :: "client_config \<Rightarrow> nat" where
  "parseMaxGroupsPerOrg c = (case feature max_groups_per_org c of Some n \<Rightarrow> n | None \<Rightarrow> 20)"

definition parseMaxMembersPerGroup :: "client_config \<Rightarrow> nat" where
  "parseMaxMembersPerGroup c = (case feature max_members_per_group c of Some n \<Rightarrow> n | None \<Rightarrow> 500)"

definition parseBooleanFlag :: "bool option \<Rightarrow> bool" where
  "parseBooleanFlag v \<longleftrightarrow> v = Some True"

definition normalizeGroupName :: "string \<Rightarrow> string checked" where
  "normalizeGroupName value =
     (let trimmed = js_trim value
      in if trimmed = [] \<or> length trimmed > 100 then refuse BAD_REQUEST 400 else Inr trimmed)"

definition normalizeGroupDescription :: "string field \<Rightarrow> string field checked" where
  "normalizeGroupDescription value =
     (case value of
        Absent \<Rightarrow> Inr Absent
      | Null \<Rightarrow> Inr Null
      | Value v \<Rightarrow>
          (let trimmed = js_trim v
           in if length trimmed > 500 then refuse BAD_REQUEST 400
              else if trimmed = [] then Inr Null else Inr (Value trimmed)))"

definition assertGroupFeaturesEnabled :: "client_config \<Rightarrow> unit checked" where
  "assertGroupFeaturesEnabled c =
     (case cfg_org_features c of
        None \<Rightarrow> refuse NOT_FOUND 404
      | Some f \<Rightarrow> if \<not> orgs_enabled f \<or> \<not> groups_enabled f then refuse NOT_FOUND 404 else Inr ())"

text \<open>A group record is the row itself.\<close>

record group_member_record =
  gr_member :: group_member
  gr_avatarImageUrl :: string

definition toGroupMemberRecord :: "org_env \<Rightarrow> group_member \<Rightarrow> string \<Rightarrow> group_member_record" where
  "toGroupMemberRecord env row domain =
     \<lparr>gr_member = row, gr_avatarImageUrl = memberAvatarImageUrl env domain (gm_userId row)\<rparr>"

definition groups_open :: "org_env \<Rightarrow> org_request \<Rightarrow> unit checked" where
  "groups_open env p =
     and_then (assertDatabaseEnabled env) (\<lambda>_. assertGroupFeaturesEnabled (rq_config p))"

definition find_group_of :: "org_db \<Rightarrow> organisation \<Rightarrow> string \<Rightarrow> org_group option" where
  "find_group_of db org i = findGroup db (\<lambda>g. g_id g = i \<and> g_orgId g = o_id org)"

text \<open>The organisation and the group of a request, by their trimmed identifiers.\<close>

definition require_group :: "org_request \<Rightarrow> string \<Rightarrow> org_db \<Rightarrow> (organisation \<times> org_group) checked" where
  "require_group p rawGroupId db =
     and_then (resolveOrganisation db (rq_orgId p)) (\<lambda>org.
     and_then (check (js_trim rawGroupId \<noteq> []) BAD_REQUEST 400) (\<lambda>_.
       case find_group_of db org (js_trim rawGroupId) of
         None \<Rightarrow> refuse NOT_FOUND 404 | Some g \<Rightarrow> Inr (org, g)))"

subsection \<open>The groups of an organisation\<close>

definition listGroups ::
  "org_env \<Rightarrow> (string \<Rightarrow> string \<Rightarrow> int) \<Rightarrow> org_request \<Rightarrow> int option \<Rightarrow> string option \<Rightarrow> org_db \<Rightarrow>
     (org_group list \<times> string option) checked" where
  "listGroups env collate p limit cursor db =
     and_then (groups_open env p) (\<lambda>_.
     and_then (resolveOrganisation db (rq_orgId p)) (\<lambda>org.
       Inr (cursor_page (newest_first collate g_createdAt g_id) g_id (\<lambda>g. g_orgId g = o_id org)
              (toListLimit limit) (cursor_param cursor) (groups db))))"

definition create_group_checks ::
  "org_env \<Rightarrow> org_request \<Rightarrow> string \<Rightarrow> string field \<Rightarrow> org_db \<Rightarrow> (organisation \<times> string \<times> string field) checked"
where
  "create_group_checks env p rawName rawDescription db =
     and_then (groups_open env p) (\<lambda>_.
     and_then (normalizeGroupName rawName) (\<lambda>name.
     and_then (normalizeGroupDescription rawDescription) (\<lambda>description.
     and_then (resolveOrganisation db (rq_orgId p)) (\<lambda>org.
     and_then (check (count_where (\<lambda>g. g_orgId g = o_id org) (groups db) < parseMaxGroupsPerOrg (rq_config p))
                 BAD_REQUEST 400) (\<lambda>_.
       Inr (org, name, description))))))"

definition createGroup :: "org_env \<Rightarrow> org_request \<Rightarrow> string \<Rightarrow> string field \<Rightarrow> org_group org_step" where
  "createGroup env p rawName rawDescription =
     checks_then (create_group_checks env p rawName rawDescription) (\<lambda>(org, name, description).
       transact env (\<lambda>db.
         (let g = \<lparr>g_id = fresh_id env 0, g_orgId = o_id org, g_name = name,
                   g_description = apply_field description None, g_createdAt = clock env,
                   g_updatedAt = clock env\<rparr>
          in as_bad_request [''P2002''] (and_then (create_group g db) (\<lambda>db1. Inr (g, db1))))))"

definition getGroup ::
  "org_env \<Rightarrow> org_request \<Rightarrow> string \<Rightarrow> org_db \<Rightarrow>
     (org_group \<times> team_record list \<times> group_member_record list) checked" where
  "getGroup env p groupId db =
     and_then (groups_open env p) (\<lambda>_.
     and_then (resolveOrganisation db (rq_orgId p)) (\<lambda>org.
       case find_group_of db org (js_trim groupId) of
         None \<Rightarrow> refuse NOT_FOUND 404
       | Some row \<Rightarrow> Inr (row,
           map (\<lambda>t. toTeamRecord env t None None (o_domain org))
             (js_sort (\<lambda>a b. t_createdAt b - t_createdAt a)
               (filter (\<lambda>t. t_groupId t = Some (g_id row)) (teams db))),
           map (\<lambda>m. toGroupMemberRecord env m (o_domain org))
             (js_sort (\<lambda>a b. gm_createdAt b - gm_createdAt a)
               (filter (\<lambda>m. gm_groupId m = g_id row) (group_members db))))))"

definition update_group_checks ::
  "org_env \<Rightarrow> org_request \<Rightarrow> string \<Rightarrow> string option \<Rightarrow> string field \<Rightarrow> org_db \<Rightarrow>
     (org_group \<times> (org_group \<Rightarrow> org_group)) checked" where
  "update_group_checks env p groupId rawName rawDescription db =
     and_then (groups_open env p) (\<lambda>_.
     and_then (check (rawName \<noteq> None \<or> rawDescription \<noteq> Absent) BAD_REQUEST 400) (\<lambda>_.
     and_then (case rawName of
                 None \<Rightarrow> Inr None | Some n \<Rightarrow> and_then (normalizeGroupName n) (\<lambda>v. Inr (Some v))) (\<lambda>name.
     and_then (normalizeGroupDescription rawDescription) (\<lambda>description.
     and_then (require_group p groupId db) (\<lambda>(org, g).
       Inr (g, \<lambda>r. r\<lparr>g_name := (case name of Some v \<Rightarrow> v | None \<Rightarrow> g_name r),
                    g_description := apply_field description (g_description r),
                    g_updatedAt := clock env\<rparr>))))))"

definition updateGroup ::
  "org_env \<Rightarrow> org_request \<Rightarrow> string \<Rightarrow> string option \<Rightarrow> string field \<Rightarrow> org_group org_step" where
  "updateGroup env p groupId rawName rawDescription =
     checks_then (update_group_checks env p groupId rawName rawDescription) (\<lambda>(g, f).
       transact env (\<lambda>db. as_bad_request [''P2002''] (and_then (update_group (g_id g) f db) (\<lambda>db1.
         case findGroup db1 (\<lambda>r. g_id r = g_id g) of
           None \<Rightarrow> Inl (Db_Error ''P2025'') | Some r \<Rightarrow> Inr (r, db1)))))"

definition deleteGroup :: "org_env \<Rightarrow> org_request \<Rightarrow> string \<Rightarrow> bool org_step" where
  "deleteGroup env p groupId =
     checks_then (\<lambda>db. and_then (groups_open env p) (\<lambda>_. require_group p groupId db)) (\<lambda>(org, g).
       transact env (\<lambda>db. and_then (delete_group (g_id g) db) (\<lambda>db1. Inr (True, db1))))"

subsection \<open>The members of a group\<close>

definition add_group_member_checks ::
  "org_env \<Rightarrow> org_request \<Rightarrow> string \<Rightarrow> string \<Rightarrow> org_db \<Rightarrow> (organisation \<times> org_group) checked" where
  "add_group_member_checks env p groupId userId db =
     and_then (groups_open env p) (\<lambda>_.
     and_then (check (userId \<noteq> []) BAD_REQUEST 400) (\<lambda>_.
     and_then (require_group p groupId db) (\<lambda>(org, g).
     and_then (check (getOrganisationMember db (o_id org) userId False \<noteq> None) BAD_REQUEST 400) (\<lambda>_.
       Inr (org, g)))))"

definition new_group_member :: "org_env \<Rightarrow> string \<Rightarrow> string \<Rightarrow> bool option \<Rightarrow> group_member" where
  "new_group_member env groupId userId isAdmin =
     \<lparr>gm_id = fresh_id env 0, gm_groupId = groupId, gm_userId = userId, gm_isAdmin = parseBooleanFlag isAdmin,
      gm_createdAt = clock env, gm_updatedAt = clock env\<rparr>"

definition addGroupMember ::
  "org_env \<Rightarrow> org_request \<Rightarrow> string \<Rightarrow> string \<Rightarrow> bool option \<Rightarrow> group_member_record org_step" where
  "addGroupMember env p groupId rawUserId isAdmin =
     (let userId = js_trim rawUserId in
      checks_then (add_group_member_checks env p groupId userId) (\<lambda>(org, g).
        transact env (\<lambda>db.
          and_then (check (count_where (\<lambda>m. gm_groupId m = g_id g) (group_members db)
                       < parseMaxMembersPerGroup (rq_config p)) BAD_REQUEST 400) (\<lambda>_.
          (let m = new_group_member env (g_id g) userId isAdmin
           in as_bad_request [''P2002''] (and_then (create_group_member m db) (\<lambda>db1.
                Inr (toGroupMemberRecord env m (o_domain org), db1))))))))"

definition find_membership_checks ::
  "org_env \<Rightarrow> org_request \<Rightarrow> string \<Rightarrow> string \<Rightarrow> org_db \<Rightarrow> (organisation \<times> group_member) checked" where
  "find_membership_checks env p groupId userId db =
     and_then (groups_open env p) (\<lambda>_.
     and_then (check (userId \<noteq> []) BAD_REQUEST 400) (\<lambda>_.
     and_then (require_group p groupId db) (\<lambda>(org, g).
       case findGroupMember db (\<lambda>m. gm_groupId m = g_id g \<and> gm_userId m = userId) of
         None \<Rightarrow> refuse NOT_FOUND 404 | Some m \<Rightarrow> Inr (org, m))))"

definition removeGroupMember :: "org_env \<Rightarrow> org_request \<Rightarrow> string \<Rightarrow> string \<Rightarrow> bool org_step" where
  "removeGroupMember env p groupId rawUserId =
     checks_then (find_membership_checks env p groupId (js_trim rawUserId)) (\<lambda>(org, m).
       transact env (\<lambda>db. and_then (delete_group_member (gm_id m) db) (\<lambda>db1. Inr (True, db1))))"

definition updateGroupMemberAdmin ::
  "org_env \<Rightarrow> org_request \<Rightarrow> string \<Rightarrow> string \<Rightarrow> bool \<Rightarrow> group_member_record org_step" where
  "updateGroupMemberAdmin env p groupId rawUserId isAdmin =
     checks_then (find_membership_checks env p groupId (js_trim rawUserId)) (\<lambda>(org, m).
       transact env (\<lambda>db.
         and_then (update_group_member (gm_id m)
             (\<lambda>r. r\<lparr>gm_isAdmin := isAdmin, gm_updatedAt := clock env\<rparr>) db) (\<lambda>db1.
           case findGroupMember db1 (\<lambda>r. gm_id r = gm_id m) of
             None \<Rightarrow> Inl (Db_Error ''P2025'')
           | Some r \<Rightarrow> Inr (toGroupMemberRecord env r (o_domain org), db1))))"

subsection \<open>Filing a team under a group\<close>

definition assign_team_checks ::
  "org_env \<Rightarrow> org_request \<Rightarrow> string \<Rightarrow> string option \<Rightarrow> org_db \<Rightarrow> (organisation \<times> team) checked" where
  "assign_team_checks env p rawTeamId groupId db =
     and_then (groups_open env p) (\<lambda>_.
     and_then (check (js_trim rawTeamId \<noteq> []) BAD_REQUEST 400) (\<lambda>_.
     and_then (check (groupId \<noteq> Some []) BAD_REQUEST 400) (\<lambda>_.
     and_then (resolveOrganisation db (rq_orgId p)) (\<lambda>org.
     and_then (require_team db org (js_trim rawTeamId)) (\<lambda>t.
       case groupId of
         None \<Rightarrow> Inr (org, t)
       | Some i \<Rightarrow> (case find_group_of db org i of None \<Rightarrow> refuse NOT_FOUND 404 | Some _ \<Rightarrow> Inr (org, t)))))))"

definition assignTeamToGroup ::
  "org_env \<Rightarrow> org_request \<Rightarrow> string \<Rightarrow> string option \<Rightarrow> team_record org_step" where
  "assignTeamToGroup env p teamId rawGroupId =
     (let groupId = map_option js_trim rawGroupId in
      checks_then (assign_team_checks env p teamId groupId) (\<lambda>(org, t).
        transact env (\<lambda>db.
          and_then (file_team (t_id t) groupId (clock env) db) (\<lambda>db1.
            case findTeam db1 (\<lambda>r. t_id r = t_id t) of
              None \<Rightarrow> Inl (Db_Error ''P2025'')
            | Some r \<Rightarrow> Inr (toTeamRecord env r None None (o_domain org), db1)))))"

end
