(* ===== verification/Group_Properties.thy ===== *)
theory Group_Properties
  imports Org_Groups Org_Properties
begin

section \<open>Groups stay within their organisation\<close>

text \<open>
  The keys are unique, a group membership is of a group that exists, and a team is filed only
  under a group of its own organisation.
\<close>

definition groups_ok :: "org_db \<Rightarrow> bool" where
  "groups_ok db \<longleftrightarrow> group_indexes_ok db \<and> group_member_index_ok db \<and>
     (\<forall>m \<in> set (group_members db). \<exists>g \<in> set (groups db). g_id g = gm_groupId m) \<and>
     (\<forall>t \<in> set (teams db). \<forall>i. t_groupId t = Some i \<longrightarrow> group_in_org db (t_orgId t) i)"

text \<open>What may commit while a request waits: anything that keeps the invariant and gives no group
  or team another organisation.\<close>

definition settles :: "org_db \<Rightarrow> org_db \<Rightarrow> bool" where
  "settles s t \<longleftrightarrow> (groups_ok s \<longrightarrow> groups_ok t) \<and>
     (\<forall>g \<in> set (groups s). \<forall>h \<in> set (groups t). g_id g = g_id h \<longrightarrow> g_orgId g = g_orgId h) \<and>
     (\<forall>a \<in> set (teams s). \<forall>b \<in> set (teams t). t_id a = t_id b \<longrightarrow> t_orgId a = t_orgId b)"

lemma settlesD:
  assumes "settles s t"
  shows "groups_ok s \<Longrightarrow> groups_ok t"
    "g \<in> set (groups s) \<Longrightarrow> h \<in> set (groups t) \<Longrightarrow> g_id g = g_id h \<Longrightarrow> g_orgId h = g_orgId g"
    "a \<in> set (teams s) \<Longrightarrow> b \<in> set (teams t) \<Longrightarrow> t_id a = t_id b \<Longrightarrow> t_orgId b = t_orgId a"
  using assms unfolding settles_def by metis+

subsection \<open>The writes keep it\<close>

lemma groups_ok_cong:
  assumes "groups t = groups s" "group_members t = group_members s"
    and "\<And>b i. b \<in> set (teams t) \<Longrightarrow> t_groupId b = Some i \<Longrightarrow> group_in_org s (t_orgId b) i"
    and "groups_ok s"
  shows "groups_ok t"
  using assms by (simp add: groups_ok_def group_indexes_ok_def group_member_index_ok_def group_in_org_def)

lemma create_group_keeps:
  "create_group g s = Inr t \<Longrightarrow> groups_ok s \<Longrightarrow> groups_ok t"
  by (auto simp: create_group_def constrained_def groups_ok_def group_in_org_def group_member_index_ok_def
      split: if_splits)

definition group_key :: "org_group \<Rightarrow> string \<times> string" where
  "group_key g = (g_id g, g_orgId g)"

lemma group_in_org_keys: "group_in_org db x k \<longleftrightarrow> (k, x) \<in> group_key ` set (groups db)"
  by (auto simp: group_in_org_def group_key_def image_iff)

lemma group_exists_keys: "(\<exists>g \<in> set (groups db). g_id g = k) \<longleftrightarrow> k \<in> fst ` group_key ` set (groups db)"
  by (auto simp: group_key_def image_iff)

lemma update_group_keeps:
  assumes "update_group i f s = Inr t" "\<And>g. g_id (f g) = g_id g \<and> g_orgId (f g) = g_orgId g" "groups_ok s"
  shows "groups_ok t"
proof -
  from assms(1) have t: "t = s\<lparr>groups := update_where (\<lambda>g. g_id g = i) f (groups s)\<rparr>" "group_indexes_ok t"
    by (auto simp: update_group_def constrained_def split: if_splits)
  have "map group_key (groups t) = map group_key (groups s)"
    using assms(2) by (simp add: t(1) map_update_where group_key_def)
  then have keys: "group_key ` set (groups t) = group_key ` set (groups s)" by (metis set_map)
  then have "group_in_org t x k = group_in_org s x k" for x k by (simp add: group_in_org_keys)
  moreover from keys have "(\<exists>g \<in> set (groups t). g_id g = k) = (\<exists>g \<in> set (groups s). g_id g = k)" for k
    by (simp add: group_exists_keys)
  ultimately show ?thesis
    using assms(3) t by (simp add: groups_ok_def group_member_index_ok_def)
qed

lemma delete_group_keeps:
  assumes "delete_group i s = Inr t" "groups_ok s"
  shows "groups_ok t"
proof -
  from assms(1) have t: "groups t = filter (\<lambda>g. g_id g \<noteq> i) (groups s)"
    "group_members t = filter (\<lambda>m. gm_groupId m \<noteq> i) (group_members s)"
    "teams t = update_where (\<lambda>b. t_groupId b = Some i) (\<lambda>b. b\<lparr>t_groupId := None\<rparr>) (teams s)"
    by (auto simp: delete_group_def split: if_splits)
  have "group_in_org t (t_orgId b) k" if "b \<in> set (teams t)" "t_groupId b = Some k" for b k
  proof -
    from that have "b \<in> set (teams s)" "k \<noteq> i" by (auto simp: t(3) set_update_where split: if_splits)
    with assms(2) that(2) have "group_in_org s (t_orgId b) k" by (simp add: groups_ok_def)
    with \<open>k \<noteq> i\<close> show ?thesis by (auto simp: group_in_org_def t(1))
  qed
  moreover have "\<exists>g \<in> set (groups t). g_id g = gm_groupId m" if "m \<in> set (group_members t)" for m
  proof -
    from that have m: "m \<in> set (group_members s)" "gm_groupId m \<noteq> i" by (simp_all add: t(2))
    with assms(2) obtain g where "g \<in> set (groups s)" "g_id g = gm_groupId m"
      unfolding groups_ok_def by blast
    with m(2) show ?thesis by (auto simp: t(1))
  qed
  ultimately show ?thesis
    using assms(2) by (simp add: groups_ok_def group_indexes_ok_def group_member_index_ok_def t(1,2) distinct_map_filter)
qed

lemma create_group_member_keeps: "create_group_member m s = Inr t \<Longrightarrow> groups_ok s \<Longrightarrow> groups_ok t"
  by (auto simp: create_group_member_def constrained_def groups_ok_def group_in_org_def group_indexes_ok_def
      findGroup_def dest!: find_Some_set split: if_splits)

lemma update_group_member_keeps:
  "update_group_member i f s = Inr t \<Longrightarrow> (\<And>m. gm_groupId (f m) = gm_groupId m \<and> gm_userId (f m) = gm_userId m) \<Longrightarrow>
     groups_ok s \<Longrightarrow> groups_ok t"
  by (auto simp: update_group_member_def groups_ok_def group_in_org_def group_indexes_ok_def
      group_member_index_ok_def set_update_where map_update_where split: if_splits)

lemma delete_group_member_keeps: "delete_group_member i s = Inr t \<Longrightarrow> groups_ok s \<Longrightarrow> groups_ok t"
  by (auto simp: delete_group_member_def groups_ok_def group_in_org_def group_indexes_ok_def
      group_member_index_ok_def intro!: distinct_map_filter split: if_splits)

lemma file_team_keeps:
  assumes "file_team i j now s = Inr t" "groups_ok s"
    and "\<And>k b. j = Some k \<Longrightarrow> b \<in> set (teams s) \<Longrightarrow> t_id b = i \<Longrightarrow> group_in_org s (t_orgId b) k"
  shows "groups_ok t"
proof (rule groups_ok_cong[OF _ _ _ assms(2)])
  from assms(1) have t: "t = s\<lparr>teams := update_where (\<lambda>b. t_id b = i)
      (\<lambda>b. b\<lparr>t_groupId := j, t_updatedAt := now\<rparr>) (teams s)\<rparr>"
    by (auto simp: file_team_def update_team_def constrained_def split: if_splits option.splits)
  then show "groups t = groups s" "group_members t = group_members s" by simp_all
  fix b k assume "b \<in> set (teams t)" "t_groupId b = Some k"
  then show "group_in_org s (t_orgId b) k"
    using assms(2,3) by (auto simp: t set_update_where groups_ok_def split: if_splits)
qed

subsection \<open>The requests keep it\<close>

lemma group_handler_keeps:
  assumes "settles s (awaitLock env s)" "groups_ok s"
    and "\<And>x r t. checks s = Inr x \<Longrightarrow> groups_ok (awaitLock env s) \<Longrightarrow> body x (awaitLock env s) = Inr (r, t) \<Longrightarrow>
      groups_ok t"
  shows "groups_ok (snd (checks_then checks (\<lambda>x. transact env (body x)) s))"
  using assms settlesD(1)[OF assms(1,2)]
  by (auto simp: checks_then_def transact_def Let_def split: sum.splits prod.splits)

lemma bad_request_Inr: "as_bad_request cs r = Inr x \<longleftrightarrow> r = Inr x"
  by (auto simp: as_bad_request_def split: sum.splits thrown.splits)

lemmas group_request_rules = and_then_Inr_iff bad_request_Inr

lemma create_group_request_keeps:
  assumes "settles s (awaitLock env s)" "groups_ok s"
  shows "groups_ok (snd (createGroup env p n d s))"
  unfolding createGroup_def case_prod_beta Let_def
  by (rule group_handler_keeps[OF assms])
    (auto simp: group_request_rules intro: create_group_keeps)

lemma update_group_request_keeps:
  assumes "settles s (awaitLock env s)" "groups_ok s"
  shows "groups_ok (snd (updateGroup env p i n d s))"
  unfolding updateGroup_def case_prod_beta
proof (rule group_handler_keeps[OF assms], goal_cases)
  case (1 x r t)
  then have "\<And>g. g_id (snd x g) = g_id g \<and> g_orgId (snd x g) = g_orgId g"
    by (auto simp: update_group_checks_def and_then_Inr_iff)
  with 1 show ?case
    by (auto simp: group_request_rules split: option.splits intro: update_group_keeps)
qed

lemma delete_group_request_keeps:
  assumes "settles s (awaitLock env s)" "groups_ok s"
  shows "groups_ok (snd (deleteGroup env p i s))"
  unfolding deleteGroup_def case_prod_beta
  by (rule group_handler_keeps[OF assms]) (auto simp: group_request_rules intro: delete_group_keeps)

lemma add_group_member_keeps:
  assumes "settles s (awaitLock env s)" "groups_ok s"
  shows "groups_ok (snd (addGroupMember env p i u a s))"
  unfolding addGroupMember_def case_prod_beta Let_def
  by (rule group_handler_keeps[OF assms]) (auto simp: group_request_rules intro: create_group_member_keeps)

lemma remove_group_member_keeps:
  assumes "settles s (awaitLock env s)" "groups_ok s"
  shows "groups_ok (snd (removeGroupMember env p i u s))"
  unfolding removeGroupMember_def case_prod_beta
  by (rule group_handler_keeps[OF assms]) (auto simp: group_request_rules intro: delete_group_member_keeps)

lemma update_group_admin_keeps:
  assumes "settles s (awaitLock env s)" "groups_ok s"
  shows "groups_ok (snd (updateGroupMemberAdmin env p i u a s))"
  unfolding updateGroupMemberAdmin_def case_prod_beta
  by (rule group_handler_keeps[OF assms])
    (auto simp: group_request_rules split: option.splits intro: update_group_member_keeps)

lemma assign_team_checksD:
  assumes "assign_team_checks env p i j s = Inr (org, b)"
  shows "b \<in> set (teams s)" "t_orgId b = o_id org"
    "\<And>k. j = Some k \<Longrightarrow> \<exists>g \<in> set (groups s). g_id g = k \<and> g_orgId g = o_id org"
  using assms
  by (auto simp: assign_team_checks_def require_team_def find_team_of_def findTeam_def
      find_group_of_def findGroup_def dest!: find_Some_set split: option.splits elim!: and_thenE)

lemma assign_team_keeps:
  assumes "settles s (awaitLock env s)" "groups_ok s"
  shows "groups_ok (snd (assignTeamToGroup env p i j s))"
  unfolding assignTeamToGroup_def case_prod_beta Let_def
proof (rule group_handler_keeps[OF assms], goal_cases)
  case (1 x r t)
  let ?w = "awaitLock env s" and ?j = "map_option js_trim j"
  obtain org a where x: "x = (org, a)" by (cases x)
  note checks = assign_team_checksD[OF 1(1)[unfolded x]]
  from 1(3) obtain u where filed: "file_team (t_id a) ?j (clock env) ?w = Inr u" and t: "t = u"
    by (auto simp: x and_then_Inr_iff split: option.splits)
  show ?case unfolding t
  proof (rule file_team_keeps[OF filed 1(2)])
    fix k b assume k: "?j = Some k" and b: "b \<in> set (teams ?w)" "t_id b = t_id a"
    from filed k obtain h where h: "h \<in> set (groups ?w)" "g_id h = k"
      by (auto simp: file_team_def findGroup_def dest!: find_Some_set split: if_splits option.splits)
    from checks(3)[OF k] obtain g where g: "g \<in> set (groups s)" "g_id g = k" "g_orgId g = o_id org" by blast
    from settlesD(2)[OF assms(1) g(1) h(1)] g h have "g_orgId h = o_id org" by simp
    moreover from settlesD(3)[OF assms(1) checks(1) b(1)] b(2) checks(2) have "t_orgId b = o_id org" by simp
    ultimately show "group_in_org ?w (t_orgId b) k" using h by (auto simp: group_in_org_def)
  qed
qed

subsection \<open>Organisation requests that touch groups\<close>

lemma audited_keeps:
  assumes "\<And>x db. groups_ok (write x db) = groups_ok db"
  shows "groups_ok (snd (and_audit write result m s)) = groups_ok (snd (m s))"
  using assms by (auto simp: and_audit_def split: prod.splits sum.splits)

lemma audit_keeps_groups [simp]: "groups_ok (auditOrg env a e db) = groups_ok db"
  by (simp add: auditOrg_def writeOrgAuditLog_def groups_ok_def group_indexes_ok_def
      group_member_index_ok_def group_in_org_def)

lemma audited_handler_keeps:
  assumes "settles s (awaitLock env s)" "groups_ok s"
    and "\<And>x y db. groups_ok (write x y db) = groups_ok db"
    and "\<And>x r t. groups_ok (awaitLock env s) \<Longrightarrow> body x (awaitLock env s) = Inr (r, t) \<Longrightarrow> groups_ok t"
  shows "groups_ok (snd (checks_then checks (\<lambda>x. and_audit (write x) (result x) (transact env (body x))) s))"
proof (cases "checks s")
  case (Inr x)
  have waited: "groups_ok (awaitLock env s)" by (rule settlesD(1)[OF assms(1,2)])
  have "groups_ok (snd (transact env (body x) s))"
  proof (cases "body x (awaitLock env s)")
    case (Inr y)
    then show ?thesis using assms(4)[OF waited] by (cases y) (simp add: transact_def)
  qed (simp add: transact_def waited)
  with Inr show ?thesis
    by (simp add: checks_then_def audited_keeps[of "write x", OF assms(3)])
qed (simp add: checks_then_def assms(2))

lemma groups_okD:
  assumes "groups_ok s"
  shows "group_indexes_ok s" "group_member_index_ok s"
    "m \<in> set (group_members s) \<Longrightarrow> \<exists>g \<in> set (groups s). g_id g = gm_groupId m"
    "b \<in> set (teams s) \<Longrightarrow> t_groupId b = Some i \<Longrightarrow> group_in_org s (t_orgId b) i"
  using assms unfolding groups_ok_def by blast+

lemma cascade_keeps:
  assumes "groups_ok s"
  shows "groups_ok (cascade_delete_organisation i s)" (is "groups_ok ?t")
proof -
  note ok = groups_okD[OF assms]
  have t: "groups ?t = filter (\<lambda>g. g_orgId g \<noteq> i) (groups s)"
    "group_members ?t = filter (\<lambda>m. \<not> group_in_org s i (gm_groupId m)) (group_members s)"
    "teams ?t = filter (\<lambda>b. t_orgId b \<noteq> i) (teams s)"
    by (simp_all add: cascade_delete_organisation_def)
  have "\<exists>g \<in> set (groups ?t). g_id g = gm_groupId m" if "m \<in> set (group_members ?t)" for m
  proof -
    from that have m: "m \<in> set (group_members s)" "\<not> group_in_org s i (gm_groupId m)" by (simp_all add: t)
    from ok(3)[OF m(1)] obtain g where "g \<in> set (groups s)" "g_id g = gm_groupId m" by blast
    with m(2) show ?thesis unfolding t by (intro bexI[of _ g]) (auto simp: group_in_org_def)
  qed
  moreover have "group_in_org ?t (t_orgId b) k" if "b \<in> set (teams ?t)" "t_groupId b = Some k" for b k
    using that ok(4)[of b k] by (auto simp: t group_in_org_def)
  moreover have "group_indexes_ok ?t" "group_member_index_ok ?t"
    using ok(1,2) by (simp_all add: group_indexes_ok_def group_member_index_ok_def t distinct_map_filter)
  ultimately show ?thesis unfolding groups_ok_def by blast
qed

lemma delete_organisation_keeps_groups:
  assumes "settles s (awaitLock env s)" "groups_ok s"
  shows "groups_ok (snd (deleteOrganisation env p s))"
  unfolding deleteOrganisation_def case_prod_beta
  by (rule audited_handler_keeps[OF assms])
    (auto simp: delete_organisation_tx_def bad_request_Inr cascade_keeps split: if_splits)

lemma removed_groups:
  assumes "remove_member_tx env org u s = Inr (r, t)"
  shows "groups t = groups s \<and> teams t = teams s \<and>
     (\<exists>P. group_members t = filter P (group_members s))"
proof -
  from assms obtain lm s1 s4 where
    pass: "pass_ownership org lm (clock env) s = Inr s1" and
    upd: "update_org_member (om_id lm) (set_status REMOVED (clock env))
       (delete_group_memberships org u
         (move_team_memberships org u (\<lambda>x. x \<noteq> REMOVED) REMOVED (clock env) s1)) = Inr s4" and
    t: "t = revoke_member_sessions u org (clock env) s4"
    unfolding remove_member_tx_def Let_def step_simps check_Inr by auto
  from pass have "groups s1 = groups s \<and> teams s1 = teams s \<and> group_members s1 = group_members s"
    by (auto simp: pass_ownership_def update_organisation_def update_org_member_def constrained_def
        and_then_Inr_iff Let_def split: if_splits option.splits)
  with update_org_member_frames[OF upd] show ?thesis
    by (auto simp: t revoke_member_sessions_def delete_group_memberships_def move_team_memberships_def
        update_team_members_def)
qed

lemma remove_member_keeps_groups:
  assumes "settles s (awaitLock env s)" "groups_ok s"
  shows "groups_ok (snd (removeOrganisationMember env p u s))"
  unfolding removeOrganisationMember_def case_prod_beta Let_def
proof (rule audited_handler_keeps[OF assms], goal_cases)
  case (2 x r t)
  from removed_groups[OF 2(2)] obtain P where
    "groups t = groups (awaitLock env s)" "teams t = teams (awaitLock env s)"
    "group_members t = filter P (group_members (awaitLock env s))" by blast
  with 2(1) show ?case
    by (auto simp: groups_ok_def group_indexes_ok_def group_member_index_ok_def group_in_org_def
        intro!: distinct_map_filter)
qed simp

subsection \<open>Histories\<close>

text \<open>
  The requests about groups, the two organisation requests that delete groups or memberships, and
  every write that leaves the groups, their members and the filing of the teams as they are.
\<close>

inductive group_transition :: "org_db \<Rightarrow> org_db \<Rightarrow> bool" where
  Create_Group: "settles s (awaitLock env s) \<Longrightarrow> group_transition s (snd (createGroup env p n d s))"
| Update_Group: "settles s (awaitLock env s) \<Longrightarrow> group_transition s (snd (updateGroup env p i nn d s))"
| Delete_Group: "settles s (awaitLock env s) \<Longrightarrow> group_transition s (snd (deleteGroup env p i s))"
| Add_Group_Member: "settles s (awaitLock env s) \<Longrightarrow> group_transition s (snd (addGroupMember env p i u a s))"
| Remove_Group_Member: "settles s (awaitLock env s) \<Longrightarrow> group_transition s (snd (removeGroupMember env p i u s))"
| Set_Group_Admin: "settles s (awaitLock env s) \<Longrightarrow> group_transition s (snd (updateGroupMemberAdmin env p i u b s))"
| Assign_Team: "settles s (awaitLock env s) \<Longrightarrow> group_transition s (snd (assignTeamToGroup env p i j s))"
| Delete_Organisation: "settles s (awaitLock env s) \<Longrightarrow> group_transition s (snd (deleteOrganisation env p s))"
| Remove_Organisation_Member:
    "settles s (awaitLock env s) \<Longrightarrow> group_transition s (snd (removeOrganisationMember env p u s))"
| Elsewhere: "groups t = groups s \<Longrightarrow> group_members t = group_members s \<Longrightarrow>
     (\<forall>b \<in> set (teams t). t_groupId b = None \<or>
        (\<exists>a \<in> set (teams s). t_orgId a = t_orgId b \<and> t_groupId a = t_groupId b)) \<Longrightarrow> group_transition s t"

lemma group_transition_keeps: "group_transition s t \<Longrightarrow> groups_ok s \<Longrightarrow> groups_ok t"
proof (induction rule: group_transition.induct)
  case (Elsewhere t s)
  show ?case
  proof (rule groups_ok_cong[OF Elsewhere(1,2) _ Elsewhere(4)])
    fix b i assume "b \<in> set (teams t)" "t_groupId b = Some i"
    with Elsewhere(3) obtain a where "a \<in> set (teams s)" "t_orgId a = t_orgId b" "t_groupId a = Some i"
      by fastforce
    with Elsewhere(4) show "group_in_org s (t_orgId b) i" unfolding groups_ok_def by metis
  qed
qed (simp_all add: create_group_request_keeps update_group_request_keeps delete_group_request_keeps
    add_group_member_keeps remove_group_member_keeps update_group_admin_keeps assign_team_keeps
    delete_organisation_keeps_groups remove_member_keeps_groups)

interpretation group_histories: step_invariant group_transition groups_ok
  by unfold_locales (rule group_transition_keeps)

text \<open>
  C15: groups stay within their organisation. After any history of group requests, removals of
  members, deletions of organisations and writes elsewhere, whatever commits while a request
  waits, group names are unique within an organisation, every group membership is the only one of
  its user in a group that exists, and every team filed under a group is a team of the group's
  organisation.
\<close>

theorem groups_stay_home:
  assumes "group_transition\<^sup>*\<^sup>* empty_org_db s"
  shows "distinct (map (\<lambda>g. (g_orgId g, g_name g)) (groups s)) \<and>
    (\<forall>m \<in> set (group_members s). count_where (\<lambda>g. g_id g = gm_groupId m) (groups s) = 1 \<and>
       count_where (\<lambda>n. gm_groupId n = gm_groupId m \<and> gm_userId n = gm_userId m) (group_members s) = 1) \<and>
    (\<forall>t \<in> set (teams s). \<forall>i. t_groupId t = Some i \<longrightarrow>
       (\<exists>g \<in> set (groups s). g_id g = i \<and> g_orgId g = t_orgId t))"
proof -
  have "groups_ok empty_org_db"
    by (simp add: groups_ok_def empty_org_db_def group_indexes_ok_def group_member_index_ok_def)
  from group_histories.run_preserved[OF assms this] have ok: "groups_ok s" .
  have "count_where (\<lambda>g. g_id g = gm_groupId m) (groups s) = 1 \<and>
       count_where (\<lambda>n. gm_groupId n = gm_groupId m \<and> gm_userId n = gm_userId m) (group_members s) = 1"
    if m: "m \<in> set (group_members s)" for m
  proof -
    from ok m obtain g where "g \<in> set (groups s)" "g_id g = gm_groupId m"
      unfolding groups_ok_def by blast
    with m have "count_where (\<lambda>g. g_id g = gm_groupId m) (groups s) \<noteq> 0"
      "count_where (\<lambda>n. gm_groupId n = gm_groupId m \<and> gm_userId n = gm_userId m) (group_members s) \<noteq> 0"
      by (auto simp: count_where_0_iff)
    moreover have "count_where (\<lambda>g. g_id g = gm_groupId m \<and> True) (groups s) \<le> 1"
      using groups_okD(1)[OF ok] by (intro count_where_key) (simp add: group_indexes_ok_def)
    moreover have "count_where (\<lambda>n. (gm_groupId n, gm_userId n) = (gm_groupId m, gm_userId m) \<and> True)
        (group_members s) \<le> 1"
      using groups_okD(2)[OF ok] by (intro count_where_key) (simp add: group_member_index_ok_def)
    ultimately show ?thesis by simp
  qed
  with ok show ?thesis
    by (auto simp: groups_ok_def group_indexes_ok_def group_in_org_def)
qed

subsection \<open>A concrete history\<close>

definition group_request :: org_request where
  "group_request = (demo_request None)\<lparr>rq_config := (default_config ''shop'')
     \<lparr>cfg_org_features := Some (empty_features\<lparr>orgs_enabled := True, groups_enabled := True\<rparr>)\<rparr>\<rparr>"

text \<open>The founded organisation gets a group, its default team is filed there, Bob joins the group.\<close>

definition demo_grouped :: org_db where
  "demo_grouped = snd (createGroup (demo_env ''c'' 3) group_request '' Design '' Absent demo_grown)"

definition demo_filed :: org_db where
  "demo_filed = snd (assignTeamToGroup (demo_env ''d'' 4) group_request ''ai'' (Some ''c'') demo_grouped)"

definition demo_group_joined :: org_db where
  "demo_group_joined = snd (addGroupMember (demo_env ''e'' 5) group_request ''c'' ''bob'' (Some True) demo_filed)"

lemma demo_group_rows:
  "groups demo_grown = []" "group_members demo_grown = []" "map t_groupId (teams demo_grown) = [None]"
  "map (\<lambda>g. (g_id g, g_orgId g, g_name g)) (groups demo_group_joined) = [(''c'', ''a'', ''Design'')]"
  "map (\<lambda>t. (t_id t, t_orgId t, t_groupId t)) (teams demo_group_joined) = [(''ai'', ''a'', Some ''c'')]"
  "map (\<lambda>m. (gm_groupId m, gm_userId m, gm_isAdmin m)) (group_members demo_group_joined) = [(''c'', ''bob'', True)]"
  by code_simp+

lemma one_team_settles:
  assumes "group_transition\<^sup>*\<^sup>* empty_org_db s" "length (teams s) = 1"
  shows "settles s (awaitLock (demo_env tag n) s)"
proof -
  have "groups_ok empty_org_db"
    by (simp add: groups_ok_def empty_org_db_def group_indexes_ok_def group_member_index_ok_def)
  from group_histories.run_preserved[OF assms(1) this] have "distinct (map g_id (groups s))"
    by (simp add: groups_ok_def group_indexes_ok_def)
  then have "g_orgId g = g_orgId h" if "g \<in> set (groups s)" "h \<in> set (groups s)" "g_id g = g_id h" for g h
    using distinct_key_eq[of g_id "groups s" g h] that by simp
  moreover obtain t where "teams s = [t]" using assms(2) by (cases "teams s") auto
  ultimately have "settles s s" unfolding settles_def by (metis empty_iff empty_set set_ConsD)
  then show ?thesis by (simp add: demo_env_def)
qed

lemma demo_group_history: "group_transition\<^sup>*\<^sup>* empty_org_db demo_group_joined"
proof -
  have none: "\<forall>b \<in> set (teams demo_grown). t_groupId b = None"
    using demo_group_rows(3) by (cases "teams demo_grown") auto
  have one: "length (teams demo_grown) = 1" "length (teams demo_grouped) = 1" "length (teams demo_filed) = 1"
    by code_simp+
  have "group_transition empty_org_db demo_grown"
    by (rule group_transition.Elsewhere) (simp_all add: demo_group_rows none, simp_all add: empty_org_db_def)
  then have 1: "group_transition\<^sup>*\<^sup>* empty_org_db demo_grown" by blast
  have "group_transition demo_grown demo_grouped"
    unfolding demo_grouped_def by (rule group_transition.Create_Group[OF one_team_settles[OF 1 one(1)]])
  with 1 have 2: "group_transition\<^sup>*\<^sup>* empty_org_db demo_grouped" by simp
  have "group_transition demo_grouped demo_filed"
    unfolding demo_filed_def by (rule group_transition.Assign_Team[OF one_team_settles[OF 2 one(2)]])
  with 2 have 3: "group_transition\<^sup>*\<^sup>* empty_org_db demo_filed" by simp
  have "group_transition demo_filed demo_group_joined"
    unfolding demo_group_joined_def
    by (rule group_transition.Add_Group_Member[OF one_team_settles[OF 3 one(3)]])
  with 3 show ?thesis by simp
qed

theorem groups_stay_home_witness:
  "map t_groupId (teams demo_group_joined) = [Some ''c''] \<and>
   (\<exists>g \<in> set (groups demo_group_joined). g_id g = ''c'' \<and> g_orgId g = ''a'')"
proof -
  obtain t where t: "teams demo_group_joined = [t]" "t_groupId t = Some ''c''" "t_orgId t = ''a''"
    using demo_group_rows(5) by (cases "teams demo_group_joined") auto
  with groups_stay_home[OF demo_group_history] show ?thesis by simp
qed

subsection \<open>Behaviours the model exposes\<close>

text \<open>A removed member of the organisation can be made a member, even an admin, of a group.\<close>

definition ghost_in_group :: "(thrown + group_member_record) \<times> org_db" where
  "ghost_in_group =
     (let d = snd (removeOrganisationMember (demo_env ''k'' 6) (demo_request (Some ''ann'')) ''bob'' demo_filed)
      in addGroupMember (demo_env ''e'' 7) group_request ''c'' ''bob'' (Some True) d)"

lemma removed_member_joins_group:
  "map om_status (filter (\<lambda>m. om_userId m = ''bob'') (org_members (snd ghost_in_group))) = [REMOVED] \<and>
   map (\<lambda>m. (gm_userId m, gm_isAdmin m)) (group_members (snd ghost_in_group)) = [(''bob'', True)]"
  by code_simp

text \<open>The answers of the group service show every team as invite-only without an icon.\<close>

lemma filed_team_misreported:
  assumes "assignTeamToGroup env p i j db = (Inr r, db')"
  shows "t_joinPolicy (tr_team r) = INVITE_ONLY \<and> t_iconUrl (tr_team r) = None"
  using assms
  by (auto simp: assignTeamToGroup_def Let_def checks_then_Inr transact_Inr and_then_Inr_iff toTeamRecord_def
      split: option.splits)

end
