(* ===== verification/Token_Endpoint.thy ===== *)
theory Token_Endpoint
  imports Authorization_Code Refresh_Exchange
begin

section \<open>The token endpoint\<close>

text \<open>
  \<^verbatim>\<open>token.service.ts\<close> with what it composes: \<^verbatim>\<open>org-context.service.ts\<close>,
  \<^verbatim>\<open>domain-role.service.ts\<close>, \<^verbatim>\<open>token-session-ttl.service.ts\<close>,
  \<^verbatim>\<open>refresh-token-rotation-policy.service.ts\<close> and \<^verbatim>\<open>product-workspace-policy-lock.service.ts\<close>,
  over the authorization codes of \<^verbatim>\<open>Authorization_Code\<close> and the refresh sessions of
  \<^verbatim>\<open>Refresh_Exchange\<close>. A signed access token is the record of what is signed and with which key;
  whether all signature requests of a user are complete is a parameter.
\<close>

record token_settings =
  ts_adminDomain :: string
  ts_adminSecret :: "string option"
  ts_accessTtl :: string
  ts_issuer :: string
  ts_rs256 :: bool
  ts_refreshToken :: string
  ts_familyId :: string
  ts_signaturesComplete :: "string \<Rightarrow> string \<Rightarrow> auth_db \<Rightarrow> bool"

subsection \<open>Lifetimes\<close>

text \<open>\<open>Number(...)\<close> of the digits before the \<open>m\<close>; the settings are validated to that form.\<close>

definition accessTokenExpiresInSeconds :: "string \<Rightarrow> int checked" where
  "accessTokenExpiresInSeconds ttl =
     (let digits = (if ttl \<noteq> [] \<and> last ttl = CHR ''m'' then butlast ttl else ttl) in
      if digits = [] \<or> \<not> all_digits digits \<or> dec_nat digits = 0
      then refuse_with INTERNAL 500 ''INVALID_ACCESS_TOKEN_TTL''
      else Inr (int (dec_nat digits) * 60))"

definition session_value :: "(session_config \<Rightarrow> int option) \<Rightarrow> client_config \<Rightarrow> int option" where
  "session_value f c = Option.bind (cfg_session c) f"

definition resolveAccessTokenTtl :: "client_config \<Rightarrow> string \<Rightarrow> string" where
  "resolveAccessTokenTtl c envTtl =
     (case session_value access_token_ttl_minutes c of
        None \<Rightarrow> envTtl | Some m \<Rightarrow> digits_of (nat m) @ ''m'')"

definition resolveRefreshTokenTtlSeconds :: "client_config \<Rightarrow> bool \<Rightarrow> int" where
  "resolveRefreshTokenTtlSeconds c rememberMe =
     (if rememberMe
      then (case session_value long_refresh_token_ttl_days c of Some d \<Rightarrow> d | None \<Rightarrow> 30) * 24 * 60 * 60
      else (case session_value short_refresh_token_ttl_hours c of Some h \<Rightarrow> h | None \<Rightarrow> 1) * 60 * 60)"

subsection \<open>Domain roles\<close>

definition isPlatformSuperuser :: "token_settings \<Rightarrow> string \<Rightarrow> auth_db \<Rightarrow> bool" where
  "isPlatformSuperuser ts userId db =
     (let adminDomain = normalizeDomain (ts_adminDomain ts) in
      userId \<noteq> [] \<and> adminDomain \<noteq> [] \<and> (adminDomain, userId) \<in> set (superusers db))"

definition ensureDomainRoleForUser :: "string \<Rightarrow> string \<Rightarrow> bool auth_step" where
  "ensureDomainRoleForUser rawDomain userId db =
     (let domain = normalizeDomain rawDomain in
      if domain = [] \<or> userId = [] then (refuse BAD_REQUEST 400, db)
      else if (domain, userId) \<in> set (domain_roles (tenant db)) then
        (Inr ((domain, userId) \<in> set (superusers db)), db)
      else if \<not> user_exists (tenant db) userId then (Inl (Db_Error ''P2003''), db)
      else (let first = (\<forall>r \<in> set (superusers db). fst r \<noteq> domain);
                db1 = in_tenant (\<lambda>o1. o1\<lparr>domain_roles := domain_roles o1 @ [(domain, userId)]\<rparr>) db
            in (Inr first, if first then db1\<lparr>superusers := superusers db1 @ [(domain, userId)]\<rparr> else db1)))"

subsection \<open>The organisation context\<close>

record org_context =
  oc_org_id :: string
  oc_tenant_slug :: string
  oc_org_role :: string
  oc_teams :: "string list"
  oc_team_roles :: "(string \<times> string) list"
  oc_groups :: "string list option"
  oc_group_admin :: "string list option"

definition non_empty :: "'a list \<Rightarrow> 'a list option" where
  "non_empty xs = (if xs = [] then None else Some xs)"

definition org_slug :: "org_db \<Rightarrow> string \<Rightarrow> string" where
  "org_slug db i = (case findOrg db i of Some r \<Rightarrow> o_slug r | None \<Rightarrow> [])"

definition getActiveUserOrgContext ::
  "auth_env \<Rightarrow> string \<Rightarrow> string \<Rightarrow> string option \<Rightarrow> bool \<Rightarrow> bool \<Rightarrow> auth_db \<Rightarrow> org_context option checked" where
  "getActiveUserOrgContext env rawUserId rawDomain rawOrgId groupsEnabled allowCrossDomain db =
     (let userId = js_trim rawUserId; domain = normalizeDomain rawDomain;
          orgId = map_option js_trim rawOrgId; org = tenant db in
     and_then (db_enabled env) (\<lambda>_.
     if userId = [] \<or> domain = [] \<or> orgId = Some [] then refuse BAD_REQUEST 400
     else case findMember org (\<lambda>m. om_userId m = userId \<and> (\<forall>i \<in> set_option orgId. om_orgId m = i) \<and>
               om_status m = ACTIVE \<and> (allowCrossDomain \<or> org_domain org (om_orgId m) = Some domain)) of
       None \<Rightarrow> Inr None
     | Some m \<Rightarrow>
         (let rows = js_sort (\<lambda>a b. code_collation (tm_teamId a) (tm_teamId b))
                (filter (\<lambda>k. tm_userId k = userId \<and> tm_status k = ACTIVE \<and>
                   team_in_org org (om_orgId m) (tm_teamId k)) (team_members org));
              groupRows = js_sort (\<lambda>a b. code_collation (gm_groupId a) (gm_groupId b))
                (filter (\<lambda>g. gm_userId g = userId \<and> group_in_org org (om_orgId m) (gm_groupId g))
                   (group_members org))
          in Inr (Some
            \<lparr>oc_org_id = om_orgId m, oc_tenant_slug = org_slug org (om_orgId m), oc_org_role = om_role m,
             oc_teams = map tm_teamId rows, oc_team_roles = map (\<lambda>k. (tm_teamId k, tm_teamRole k)) rows,
             oc_groups = (if groupsEnabled then non_empty (map gm_groupId groupRows) else None),
             oc_group_admin = (if groupsEnabled then non_empty (map gm_groupId (filter gm_isAdmin groupRows))
                               else None)\<rparr>))))"

definition getActiveClientOrgContext ::
  "auth_env \<Rightarrow> string \<Rightarrow> string \<Rightarrow> string \<Rightarrow> bool \<Rightarrow> auth_db \<Rightarrow> org_context option checked" where
  "getActiveClientOrgContext env userId domain orgId groupsEnabled db =
     and_then (getActiveUserOrgContext env userId domain (Some orgId) groupsEnabled False db) (\<lambda>sameDomain.
       case sameDomain of
         Some ctx \<Rightarrow> Inr (Some ctx)
       | None \<Rightarrow>
           if \<not> all_active (resolveProductWorkspacePolicy (now env) domain db) then Inr None
           else getActiveUserOrgContext env userId domain (Some orgId) groupsEnabled True db)"

definition getUserOrgContext :: "auth_env \<Rightarrow> client_config \<Rightarrow> string \<Rightarrow> auth_db \<Rightarrow> org_context option checked" where
  "getUserOrgContext env c userId db =
     (if \<not> flag orgs_enabled c then refuse NOT_FOUND 404
      else getActiveUserOrgContext env userId (cfg_domain c) None (flag groups_enabled c) False db)"

subsection \<open>Signing\<close>

record access_token =
  at_userId :: string
  at_email :: string
  at_domain :: string
  at_clientId :: string
  at_superuser :: bool
  at_tv :: nat
  at_org :: "org_context option"
  at_active :: "(string \<times> string \<times> string) option"
  at_issuer :: string
  at_ttl :: string
  at_rs256 :: bool
  at_secret :: string

record token_pair =
  tp_accessToken :: access_token
  tp_expiresInSeconds :: int
  tp_refreshToken :: string
  tp_refreshTokenExpiresInSeconds :: int
  tp_firstLogin :: "first_login_block option"

definition resolveAccessTokenContext ::
  "auth_env \<Rightarrow> token_settings \<Rightarrow> string \<Rightarrow> string option \<Rightarrow> (string \<times> string \<times> bool) checked" where
  "resolveAccessTokenContext env ts domain clientId =
     (let adminDomain = normalizeDomain (ts_adminDomain ts) in
      if normalizeDomain domain \<noteq> adminDomain then
        (if \<not> truthy clientId then refuse_with INTERNAL 500 ''CLIENT_ID_REQUIRED''
         else Inr (the clientId, secret env, True))
      else case ts_adminSecret ts of
        Some (k # ks) \<Rightarrow> Inr (''admin:'' @ adminDomain, k # ks, False)
      | _ \<Rightarrow> refuse_with INTERNAL 500 ''ADMIN_ACCESS_TOKEN_SECRET_REQUIRED'')"

record pair_request =
  pq_config :: client_config
  pq_clientId :: "string option"
  pq_refreshToken :: string
  pq_refreshTokenExpiresInSeconds :: int
  pq_userId :: string
  pq_includeFirstLogin :: bool
  pq_active :: "(string \<times> string) option"
  pq_ttl :: string

definition active_context ::
  "auth_env \<Rightarrow> client_config \<Rightarrow> string \<Rightarrow> (string \<times> string) option \<Rightarrow> auth_db \<Rightarrow> org_context option checked" where
  "active_context env c userId active db =
     (case active of
        None \<Rightarrow> Inr None
      | Some (orgId, teamId) \<Rightarrow>
          and_then (getActiveClientOrgContext env userId (cfg_domain c) orgId (flag groups_enabled c) db) (\<lambda>ctx.
            case ctx of
              None \<Rightarrow> unauthenticated
            | Some x \<Rightarrow> if oc_org_id x \<noteq> orgId \<or> teamId \<notin> set (oc_teams x) then unauthenticated
                        else Inr (Some x)))"

definition signed_pair :: "auth_env \<Rightarrow> token_settings \<Rightarrow> pair_request \<Rightarrow> bool \<Rightarrow> auth_db \<Rightarrow> token_pair checked" where
  "signed_pair env ts p domainSuperuser db =
     (let c = pq_config p; u = pq_userId p in
     (case findUser db u of
        None \<Rightarrow> refuse_with INTERNAL 500 ''MISSING_USER''
      | Some user \<Rightarrow>
          and_then (resolveAccessTokenContext env ts (cfg_domain c) (pq_clientId p)) (\<lambda>(clientId, key, relying).
          and_then (active_context env c u (pq_active p) db) (\<lambda>activeOrg.
          and_then (case activeOrg of
                      Some x \<Rightarrow> Inr (Some x)
                    | None \<Rightarrow> if flag orgs_enabled c then getUserOrgContext env c u db else Inr None) (\<lambda>org.
          and_then (accessTokenExpiresInSeconds (pq_ttl p)) (\<lambda>seconds.
          Inr
           \<lparr>tp_accessToken =
              \<lparr>at_userId = u, at_email = u_email user, at_domain = cfg_domain c, at_clientId = clientId,
               at_superuser = (domainSuperuser \<or> isPlatformSuperuser ts u db),
               at_tv = (case tokenVersion db u of Some v \<Rightarrow> v | None \<Rightarrow> 0), at_org = org,
               at_active = (case (pq_active p, activeOrg) of
                  (Some (i, t), Some x) \<Rightarrow> Some (i, t, oc_tenant_slug x) | _ \<Rightarrow> None),
               at_issuer = ts_issuer ts, at_ttl = pq_ttl p, at_rs256 = (relying \<and> ts_rs256 ts), at_secret = key\<rparr>,
            tp_expiresInSeconds = seconds, tp_refreshToken = pq_refreshToken p,
            tp_refreshTokenExpiresInSeconds = pq_refreshTokenExpiresInSeconds p,
            tp_firstLogin = (if pq_includeFirstLogin p then buildFirstLoginBlock env None c u db else None)\<rparr>))))))"

definition issueTokenPairForUser :: "auth_env \<Rightarrow> token_settings \<Rightarrow> pair_request \<Rightarrow> token_pair auth_step" where
  "issueTokenPairForUser env ts p =
     bind_step (ensureDomainRoleForUser (cfg_domain (pq_config p)) (pq_userId p)) (\<lambda>superuser.
       reading (signed_pair env ts p superuser))"

subsection \<open>The authorization-code grant\<close>

definition lockTokenIssuanceProductPolicy :: "auth_env \<Rightarrow> string option \<Rightarrow> string \<Rightarrow> unit auth_step" where
  "lockTokenIssuanceProductPolicy env clientDomainId domain =
     bind_step (writing (await env)) (\<lambda>_. reading (\<lambda>db.
       if \<not> truthy clientDomainId then Inr ()
       else case List.find (\<lambda>d. Some (cd_id d) = clientDomainId) (client_domains db) of
         None \<Rightarrow> refuse UNAUTHORIZED 401
       | Some d \<Rightarrow>
           if cd_status d \<noteq> ''active'' \<or> normalizeDomain (cd_domain d) \<noteq> normalizeDomain domain
           then refuse UNAUTHORIZED 401 else Inr ()))"

text \<open>The store with its sessions opened, for operations on the sessions whose hooks read it whole.\<close>

record open_store = refresh_db +
  whole :: auth_db

definition opened :: "auth_db \<Rightarrow> open_store" where
  "opened db = (let s = sessions (tenant db) in
     \<lparr>rt_rows = rt_rows s, rt_versions = rt_versions s, rt_next = rt_next s, whole = db\<rparr>)"

definition closed :: "open_store \<Rightarrow> auth_db" where
  "closed w = in_tenant (\<lambda>o1. o1\<lparr>sessions :=
     \<lparr>rt_rows = rt_rows w, rt_versions = rt_versions w, rt_next = rt_next w\<rparr>\<rparr>) (whole w)"

definition on_sessions :: "(open_store \<Rightarrow> (thrown + 'a) \<times> open_store) \<Rightarrow> 'a auth_step" where
  "on_sessions f db = (case f (opened db) of (r, w) \<Rightarrow> (r, closed w))"

definition on_store :: "'a auth_step \<Rightarrow> open_store \<Rightarrow> (thrown + 'a) \<times> open_store" where
  "on_store m w = (case m (closed w) of (r, db) \<Rightarrow> (r, opened db))"

record token_request =
  tq_config :: client_config
  tq_configUrl :: string
  tq_clientId :: "string option"
  tq_clientDomainId :: "string option"

definition client_of :: "auth_env \<Rightarrow> token_settings \<Rightarrow> token_request \<Rightarrow> string checked" where
  "client_of env ts p =
     (case tq_clientId p of
        Some i \<Rightarrow> Inr i
      | None \<Rightarrow> and_then (resolveAccessTokenContext env ts (cfg_domain (tq_config p)) None) (\<lambda>(i, _). Inr i))"

definition token_start :: "auth_env \<Rightarrow> token_settings \<Rightarrow> token_request \<Rightarrow> string checked" where
  "token_start env ts p =
     (if \<not> database_url (tenant_env env) then refuse_with INTERNAL 500 ''DATABASE_DISABLED''
      else client_of env ts p)"

definition exchangeAuthorizationCodeForTokens ::
  "auth_env \<Rightarrow> token_settings \<Rightarrow> token_request \<Rightarrow> string \<Rightarrow> string \<Rightarrow> string option \<Rightarrow> token_pair auth_step" where
  "exchangeAuthorizationCodeForTokens env ts p code redirectUrl codeVerifier =
     (let c = tq_config p in
     bind_step (reading (\<lambda>_. token_start env ts p)) (\<lambda>clientId.
     in_transaction env
       (bind_step (lockTokenIssuanceProductPolicy env (tq_clientDomainId p) (cfg_domain c)) (\<lambda>_.
        bind_step (consumeAuthorizationCode env
           \<lparr>cp_code = code, cp_configUrl = tq_configUrl p, cp_domain = cfg_domain c,
            cp_redirectUrl = redirectUrl, cp_codeVerifier = codeVerifier\<rparr>) (\<lambda>g.
        bind_step (resolveAuthorizationCodeWorkspace env c (cg_userId g) (cg_orgId g, cg_teamId g)) (\<lambda>active.
        bind_step (reading (assertAuthorizationTwoFaProof c (cg_userId g) (map_option fst active)
           (cg_twoFaCompleted g))) (\<lambda>_.
        bind_step (on_sessions (issueRefreshToken (hashes env) (secret env)
           \<lparr>ns_familyId = None, ns_parentTokenId = None, ns_userId = cg_userId g,
            ns_context = \<lparr>ctx_clientId = clientId, ctx_configUrl = tq_configUrl p, ctx_domain = cfg_domain c\<rparr>,
            ns_orgId = map_option fst active, ns_teamId = map_option snd active,
            ns_twoFaCompleted = cg_twoFaCompleted g\<rparr>
           (ts_refreshToken ts) (ts_familyId ts) (now env)
           (resolveRefreshTokenTtlSeconds c (cg_rememberMe g)))) (\<lambda>(refreshToken, _, seconds).
        issueTokenPairForUser env ts
          \<lparr>pq_config = c, pq_clientId = Some clientId, pq_refreshToken = refreshToken,
           pq_refreshTokenExpiresInSeconds = seconds, pq_userId = cg_userId g, pq_includeFirstLogin = True,
           pq_active = active, pq_ttl = resolveAccessTokenTtl c (ts_accessTtl ts)\<rparr>))))))))"

subsection \<open>The refresh grant\<close>

record rotation_policy =
  rp_validateSource :: bool
  rp_target :: "(string \<times> string) option"
  rp_hideTarget :: bool
  rp_twoFa :: "client_config option"

definition row_scope :: "policy_row \<Rightarrow> scope_request" where
  "row_scope r = \<lparr>sc_userId = pr_userId r, sc_domain = pr_domain r, sc_orgId = pr_orgId r, sc_teamId = pr_teamId r\<rparr>"

definition target_scope :: "auth_env \<Rightarrow> rotation_policy \<Rightarrow> policy_row \<Rightarrow> unit auth_step" where
  "target_scope env rp r db =
     (case rp_target rp of
        None \<Rightarrow> (Inr (), db)
      | Some (i, t) \<Rightarrow>
          (case lockAndAssertRefreshWorkspaceScope env ((row_scope r)\<lparr>sc_orgId := Some i, sc_teamId := Some t\<rparr>) db of
             (Inl e, db1) \<Rightarrow>
               (if rp_hideTarget rp \<and> thrown_status e = Some 401
                then (refuse_with FORBIDDEN 403 ''WORKSPACE_NOT_AVAILABLE'', db1) else (Inl e, db1))
           | (Inr u, db1) \<Rightarrow> (Inr u, db1)))"

definition rotation_twofa :: "rotation_policy \<Rightarrow> policy_row \<Rightarrow> auth_db \<Rightarrow> unit checked" where
  "rotation_twofa rp r db =
     (case rp_twoFa rp of
        None \<Rightarrow> Inr ()
      | Some c \<Rightarrow>
          (case findUser db (pr_userId r) of
             None \<Rightarrow> Inl invalid_refresh
           | Some u \<Rightarrow>
               if isTwoFaAuthenticationSufficient
                    (resolveTwoFaPolicy c (Some (pr_userId r))
                      (case rp_target rp of Some (i, _) \<Rightarrow> Some i | None \<Rightarrow> pr_orgId r) db)
                    (u_twoFaEnabled u) (pr_twoFaCompleted r)
               then Inr () else refuse_with FORBIDDEN 403 ''INTERACTION_REQUIRED''))"

definition rotationPolicyGuard :: "auth_env \<Rightarrow> token_settings \<Rightarrow> rotation_policy \<Rightarrow> policy_row \<Rightarrow> unit auth_step" where
  "rotationPolicyGuard env ts rp r =
     bind_step (if rp_validateSource rp then lockAndAssertRefreshWorkspaceScope env (row_scope r) else return ()) (\<lambda>_.
     bind_step (target_scope env rp r) (\<lambda>_.
     bind_step (reading (rotation_twofa rp r)) (\<lambda>_.
     bind_step (writing (await env)) (\<lambda>_.
     reading (\<lambda>db. if ts_signaturesComplete ts (pr_domain r) (pr_userId r) db then Inr ()
                   else Inl invalid_refresh)))))"

definition plain_rotation :: rotation_policy where
  "plain_rotation = \<lparr>rp_validateSource = True, rp_target = None, rp_hideTarget = False, rp_twoFa = None\<rparr>"

text \<open>
  The exchange of \<^verbatim>\<open>Refresh_Exchange\<close> with the hooks of the callers: the family decision waits
  for its lock, a rotation and a replay are guarded by the policy of the caller.
\<close>

definition guarded :: "auth_env \<Rightarrow> token_settings \<Rightarrow> rotation_policy \<Rightarrow> policy_row \<Rightarrow> open_store \<Rightarrow> (thrown + unit) \<times> open_store" where
  "guarded env ts rp r = on_store (rotationPolicyGuard env ts rp r)"

definition exchange_in_store ::
  "auth_env \<Rightarrow> token_settings \<Rightarrow> rotation_policy \<Rightarrow> rotation_policy option \<Rightarrow> refresh_context \<Rightarrow> string \<Rightarrow>
     (string \<times> string) option \<Rightarrow> exchange_result auth_step" where
  "exchange_in_store env ts onRotate onReplay ctx refreshToken workspace =
     on_sessions (exchangeRefreshToken (hashes env) (secret env) ctx refreshToken workspace
       \<lparr>beforeFamilyDecision = Some (\<lambda>r. on_store (writing (await env))),
        beforeRotate = Some (guarded env ts onRotate), beforeReplay = map_option (guarded env ts) onReplay,
        at1 = now env, at2 = now env\<rparr>)"

definition run_refresh_tx :: "auth_env \<Rightarrow> 'a auth_step \<Rightarrow> 'a auth_step" where
  "run_refresh_tx env m db =
     (case m db of
        (Inr v, db1) \<Rightarrow> (Inr v, db1)
      | (Inl Reuse_Detected, db1) \<Rightarrow> (Inl invalid_refresh, db1)
      | (Inl e, _) \<Rightarrow> (Inl e, await env db))"

definition refreshed_workspace :: "auth_env \<Rightarrow> client_config \<Rightarrow> exchange_result \<Rightarrow> auth_db \<Rightarrow> (string \<times> string) option checked"
  where
  "refreshed_workspace env c e db =
     (let stored = (truthy (er_orgId e) \<or> truthy (er_teamId e)) in
      if \<not> stored then
        (if requiresExactAuthorizationWorkspace c (resolveProductWorkspacePolicy (now env) (cfg_domain c) db)
         then Inl invalid_refresh else Inr None)
      else if \<not> (truthy (er_orgId e) \<and> truthy (er_teamId e)) then Inl invalid_refresh
      else (let i = the (er_orgId e); t = the (er_teamId e) in
        and_then (getActiveClientOrgContext env (er_userId e) (cfg_domain c) i (flag groups_enabled c) db) (\<lambda>ctx.
          case ctx of
            None \<Rightarrow> Inl invalid_refresh
          | Some x \<Rightarrow> if oc_org_id x \<noteq> i \<or> t \<notin> set (oc_teams x) then Inl invalid_refresh
                      else Inr (Some (i, t)))))"

definition exchangeRefreshTokenForTokens ::
  "auth_env \<Rightarrow> token_settings \<Rightarrow> token_request \<Rightarrow> string \<Rightarrow> token_pair auth_step" where
  "exchangeRefreshTokenForTokens env ts p refreshToken =
     (let c = tq_config p in
     bind_step (reading (\<lambda>_. token_start env ts p)) (\<lambda>clientId.
     run_refresh_tx env
       (bind_step (lockTokenIssuanceProductPolicy env (tq_clientDomainId p) (cfg_domain c)) (\<lambda>_.
        bind_step (exchange_in_store env ts plain_rotation None
           \<lparr>ctx_clientId = clientId, ctx_configUrl = tq_configUrl p, ctx_domain = cfg_domain c\<rparr>
           refreshToken None) (\<lambda>e.
        bind_step (reading (refreshed_workspace env c e)) (\<lambda>active.
        issueTokenPairForUser env ts
          \<lparr>pq_config = c, pq_clientId = Some clientId, pq_refreshToken = er_refreshToken e,
           pq_refreshTokenExpiresInSeconds = er_expiresInSeconds e, pq_userId = er_userId e,
           pq_includeFirstLogin = False, pq_active = active,
           pq_ttl = resolveAccessTokenTtl c (ts_accessTtl ts)\<rparr>))))))"

subsection \<open>The workspace-switch grant\<close>

definition switch_rotation :: "client_config \<Rightarrow> string \<times> string \<Rightarrow> rotation_policy" where
  "switch_rotation c target =
     \<lparr>rp_validateSource = True, rp_target = Some target, rp_hideTarget = True, rp_twoFa = Some c\<rparr>"

definition exchangeWorkspaceSwitchForTokens ::
  "auth_env \<Rightarrow> token_settings \<Rightarrow> token_request \<Rightarrow> string \<Rightarrow> string \<Rightarrow> string \<times> string \<Rightarrow> token_pair auth_step" where
  "exchangeWorkspaceSwitchForTokens env ts p clientId refreshToken target =
     (let c = tq_config p; policy = switch_rotation c target in
      if \<not> database_url (tenant_env env) then reading (\<lambda>_. refuse_with INTERNAL 500 ''DATABASE_DISABLED'') else
     run_refresh_tx env
       (bind_step (lockTokenIssuanceProductPolicy env (tq_clientDomainId p) (cfg_domain c)) (\<lambda>_.
        bind_step (exchange_in_store env ts policy (Some (policy\<lparr>rp_validateSource := False\<rparr>))
           \<lparr>ctx_clientId = clientId, ctx_configUrl = tq_configUrl p, ctx_domain = cfg_domain c\<rparr>
           refreshToken (Some target)) (\<lambda>e.
        if (er_orgId e, er_teamId e) \<noteq> (Some (fst target), Some (snd target))
        then reading (\<lambda>_. refuse_with BAD_REQUEST 409 ''WORKSPACE_SWITCH_CONFLICT'') else
        issueTokenPairForUser env ts
          \<lparr>pq_config = c, pq_clientId = Some clientId, pq_refreshToken = er_refreshToken e,
           pq_refreshTokenExpiresInSeconds = er_expiresInSeconds e, pq_userId = er_userId e,
           pq_includeFirstLogin = False, pq_active = Some target,
           pq_ttl = resolveAccessTokenTtl c (ts_accessTtl ts)\<rparr>))))"

subsection \<open>The endpoint\<close>

text \<open>The three grants for people, dispatched as the route does, with its clients' authentication done.\<close>

datatype token_grant =
    Authorization_Code string string "string option"
  | Refresh_Token string
  | Workspace_Switch string string string

definition token_endpoint ::
  "auth_env \<Rightarrow> token_settings \<Rightarrow> token_request \<Rightarrow> token_grant \<Rightarrow> token_pair auth_step" where
  "token_endpoint env ts p grant =
     (case grant of
        Workspace_Switch refreshToken orgId teamId \<Rightarrow>
          (if \<not> truthy (tq_clientId p) \<or> \<not> truthy (tq_clientDomainId p)
           then reading (\<lambda>_. refuse UNAUTHORIZED 401)
           else exchangeWorkspaceSwitchForTokens env ts p (the (tq_clientId p)) refreshToken (orgId, teamId))
      | Refresh_Token refreshToken \<Rightarrow> exchangeRefreshTokenForTokens env ts p refreshToken
      | Authorization_Code code redirectUrl codeVerifier \<Rightarrow>
          exchangeAuthorizationCodeForTokens env ts p code redirectUrl codeVerifier)"

end
