(* ===== verification/Access_Tokens.thy ===== *)
theory Access_Tokens
  imports Token_Endpoint "HOL-Library.Monad_Syntax"
begin

section \<open>Verifying access tokens\<close>

text \<open>
  \<^verbatim>\<open>access-token.service.ts\<close> and the payload \<^verbatim>\<open>signAccessToken\<close> of
  \<^verbatim>\<open>token.service.ts\<close> signs. What \<^verbatim>\<open>jose\<close> says of a token - its protected
  header, and the payload when signature, issuer, audience and, up to a tolerance in seconds, lifetime
  are right - is a parameter.
  In a payload a required text that is missing or not a text is the empty text, which the schema
  refuses alike.
\<close>

record raw_org =
  rg_org_id :: string
  rg_tenant_slug :: "string option"
  rg_org_role :: string
  rg_teams :: "string list"
  rg_team_roles :: "(string \<times> string) list"
  rg_groups :: "string list option"
  rg_group_admin :: "string list option"

record raw_payload =
  pl_sub :: string
  pl_email :: string
  pl_domain :: string
  pl_clientId :: string
  pl_role :: string
  pl_tv :: "int option"
  pl_org :: "raw_org option"
  pl_active :: "(string \<times> string \<times> string option) option"

record access_token_claims =
  cl_userId :: string
  cl_tokenVersion :: nat
  cl_email :: string
  cl_domain :: string
  cl_clientId :: string
  cl_superuser :: bool
  cl_org :: "raw_org option"
  cl_active :: "(string \<times> string \<times> string option) option"

record token_verifier =
  vf_alg :: "string \<Rightarrow> string option"
  vf_rs256_enabled :: bool
  vf_rs256 :: "int \<Rightarrow> string \<Rightarrow> raw_payload option"
  vf_hs256 :: "int \<Rightarrow> string \<Rightarrow> string \<Rightarrow> raw_payload option"

subsection \<open>The schema\<close>

text \<open>\<open>z.string().trim().min(1)\<close> and its lifts to optional values, lists and records.\<close>

definition word :: "string \<Rightarrow> string option" where
  "word s = (let t = js_trim s in if t = [] then None else Some t)"

definition optionally :: "('a \<Rightarrow> 'b option) \<Rightarrow> 'a option \<Rightarrow> 'b option option" where
  "optionally f v = (case v of None \<Rightarrow> Some None | Some x \<Rightarrow> map_option Some (f x))"

definition words :: "string list \<Rightarrow> string list option" where
  "words xs = those (map word xs)"

definition word_pair :: "string \<times> string \<Rightarrow> (string \<times> string) option" where
  "word_pair p = do { a \<leftarrow> word (fst p); b \<leftarrow> word (snd p); Some (a, b) }"

definition parse_org :: "raw_org \<Rightarrow> raw_org option" where
  "parse_org r = do {
     i \<leftarrow> word (rg_org_id r); slug \<leftarrow> optionally word (rg_tenant_slug r); role \<leftarrow> word (rg_org_role r);
     ts \<leftarrow> words (rg_teams r); rs \<leftarrow> those (map word_pair (rg_team_roles r));
     gs \<leftarrow> optionally words (rg_groups r); as \<leftarrow> optionally words (rg_group_admin r);
     Some \<lparr>rg_org_id = i, rg_tenant_slug = slug, rg_org_role = role, rg_teams = ts, rg_team_roles = rs,
           rg_groups = gs, rg_group_admin = as\<rparr> }"

definition parse_active :: "string \<times> string \<times> string option \<Rightarrow> (string \<times> string \<times> string option) option" where
  "parse_active v = (case v of (i, t, slug) \<Rightarrow>
     do { j \<leftarrow> word i; u \<leftarrow> word t; s \<leftarrow> optionally word slug; Some (j, u, s) })"

definition role_of :: "string \<Rightarrow> bool option" where
  "role_of s = (if s = ''superuser'' then Some True else if s = ''user'' then Some False else None)"

text \<open>The parsed claims and the epoch claim, which may be missing.\<close>

definition parse_claims :: "raw_payload \<Rightarrow> (access_token_claims \<times> nat option) option" where
  "parse_claims p = do {
     email \<leftarrow> word (pl_email p); domain \<leftarrow> word (pl_domain p); client \<leftarrow> word (pl_clientId p);
     superuser \<leftarrow> role_of (pl_role p);
     tv \<leftarrow> optionally (\<lambda>n. if n < 0 then None else Some (nat n)) (pl_tv p);
     org \<leftarrow> optionally parse_org (pl_org p); active \<leftarrow> optionally parse_active (pl_active p);
     if pl_sub p = [] then None else
     Some (\<lparr>cl_userId = pl_sub p, cl_tokenVersion = (case tv of Some n \<Rightarrow> n | None \<Rightarrow> 0), cl_email = email,
            cl_domain = domain, cl_clientId = client, cl_superuser = superuser, cl_org = org,
            cl_active = active\<rparr>, tv) }"

subsection \<open>Signature and revocation\<close>

definition ACCESS_TOKEN_CLOCK_TOLERANCE_SECONDS :: int where
  "ACCESS_TOKEN_CLOCK_TOLERANCE_SECONDS = 30"

text \<open>The protected header picks the branch, each with its own key.\<close>

definition verifySignature :: "token_verifier \<Rightarrow> string \<Rightarrow> string \<Rightarrow> raw_payload option" where
  "verifySignature vf sharedSecret token =
     (case vf_alg vf token of
        None \<Rightarrow> None
      | Some alg \<Rightarrow>
          if alg = ''RS256'' then (if vf_rs256_enabled vf then vf_rs256 vf ACCESS_TOKEN_CLOCK_TOLERANCE_SECONDS token else None)
          else vf_hs256 vf ACCESS_TOKEN_CLOCK_TOLERANCE_SECONDS sharedSecret token)"

abbreviation invalid_access_token :: "'a checked" where
  "invalid_access_token \<equiv> refuse_with UNAUTHORIZED 401 ''INVALID_ACCESS_TOKEN''"

definition verifyAccessToken ::
  "token_verifier \<Rightarrow> string \<Rightarrow> bool \<Rightarrow> auth_db \<Rightarrow> string \<Rightarrow> access_token_claims checked" where
  "verifyAccessToken vf sharedSecret database db token =
     (case Option.bind (verifySignature vf sharedSecret token) parse_claims of
        None \<Rightarrow> invalid_access_token
      | Some (claims, tv) \<Rightarrow>
          if database then
            (if findUser db (cl_userId claims) \<noteq> None \<and>
                tokenVersion db (cl_userId claims) = Some (cl_tokenVersion claims)
             then Inr claims else invalid_access_token)
          else if tv = None then invalid_access_token else Inr claims)"

subsection \<open>The payload that is signed\<close>

definition signed_org :: "org_context \<Rightarrow> raw_org" where
  "signed_org x = \<lparr>rg_org_id = oc_org_id x, rg_tenant_slug = Some (oc_tenant_slug x), rg_org_role = oc_org_role x,
     rg_teams = oc_teams x, rg_team_roles = oc_team_roles x, rg_groups = oc_groups x,
     rg_group_admin = oc_group_admin x\<rparr>"

definition signed_payload :: "access_token \<Rightarrow> raw_payload" where
  "signed_payload a = \<lparr>pl_sub = at_userId a, pl_email = at_email a, pl_domain = at_domain a,
     pl_clientId = at_clientId a, pl_role = (if at_superuser a then ''superuser'' else ''user''),
     pl_tv = Some (int (at_tv a)), pl_org = map_option signed_org (at_org a),
     pl_active = map_option (\<lambda>(i, t, slug). (i, t, Some slug)) (at_active a)\<rparr>"

definition claims_of :: "access_token \<Rightarrow> access_token_claims" where
  "claims_of a = \<lparr>cl_userId = at_userId a, cl_tokenVersion = at_tv a, cl_email = at_email a,
     cl_domain = at_domain a, cl_clientId = at_clientId a, cl_superuser = at_superuser a,
     cl_org = map_option signed_org (at_org a),
     cl_active = map_option (\<lambda>(i, t, slug). (i, t, Some slug)) (at_active a)\<rparr>"

text \<open>Values the schema leaves as they are.\<close>

definition clean :: "string \<Rightarrow> bool" where
  "clean s \<longleftrightarrow> s \<noteq> [] \<and> js_trim s = s"

definition clean_org :: "org_context \<Rightarrow> bool" where
  "clean_org x \<longleftrightarrow> clean (oc_org_id x) \<and> clean (oc_tenant_slug x) \<and> clean (oc_org_role x) \<and>
     list_all clean (oc_teams x) \<and> list_all (\<lambda>(t, r). clean t \<and> clean r) (oc_team_roles x) \<and>
     case_option True (list_all clean) (oc_groups x) \<and> case_option True (list_all clean) (oc_group_admin x)"

definition clean_token :: "access_token \<Rightarrow> bool" where
  "clean_token a \<longleftrightarrow> at_userId a \<noteq> [] \<and> clean (at_email a) \<and> clean (at_domain a) \<and> clean (at_clientId a) \<and>
     case_option True clean_org (at_org a) \<and>
     case_option True (\<lambda>(i, t, slug). clean i \<and> clean t \<and> clean slug) (at_active a)"

lemma word_clean: "clean s \<Longrightarrow> word s = Some s"
  by (simp add: clean_def word_def)

lemma those_map_Some: "(\<And>x. x \<in> set xs \<Longrightarrow> f x = Some x) \<Longrightarrow> those (map f xs) = Some xs"
  by (induction xs) auto

lemma words_clean: "list_all clean xs \<Longrightarrow> words xs = Some xs"
  unfolding words_def list_all_iff by (rule those_map_Some) (auto simp: word_clean)

lemma optionally_same: "case_option True P v \<Longrightarrow> (\<And>x. P x \<Longrightarrow> f x = Some x) \<Longrightarrow> optionally f v = Some v"
  by (cases v) (auto simp: optionally_def)

lemma parse_org_clean: "clean_org x \<Longrightarrow> parse_org (signed_org x) = Some (signed_org x)"
proof -
  assume x: "clean_org x"
  have "those (map word_pair (oc_team_roles x)) = Some (oc_team_roles x)"
    using x by (intro those_map_Some) (auto simp: clean_org_def list_all_iff word_pair_def word_clean)
  moreover have "optionally words (oc_groups x) = Some (oc_groups x)"
    "optionally words (oc_group_admin x) = Some (oc_group_admin x)"
    using x by (auto simp: clean_org_def intro: optionally_same words_clean)
  ultimately show ?thesis
    using x by (simp add: parse_org_def signed_org_def clean_org_def word_clean words_clean optionally_def)
qed

lemma parse_clean_token: "clean_token a \<Longrightarrow> parse_claims (signed_payload a) = Some (claims_of a, Some (at_tv a))"
proof -
  assume a: "clean_token a"
  have "optionally parse_org (map_option signed_org (at_org a)) = Some (map_option signed_org (at_org a))"
    using a by (cases "at_org a") (simp_all add: clean_token_def optionally_def parse_org_clean)
  moreover have "optionally parse_active (map_option (\<lambda>(i, t, slug). (i, t, Some slug)) (at_active a)) =
      Some (map_option (\<lambda>(i, t, slug). (i, t, Some slug)) (at_active a))"
    using a by (cases "at_active a")
      (auto simp: clean_token_def optionally_def parse_active_def word_clean)
  moreover have "role_of (if at_superuser a then ''superuser'' else ''user'') = Some (at_superuser a)"
    by (simp add: role_of_def)
  ultimately show ?thesis
    using a by (simp add: parse_claims_def signed_payload_def claims_of_def clean_token_def word_clean
        optionally_def)
qed

end
