(* ===== verification/Request_Guards.thy ===== *)
theory Request_Guards
  imports Access_Tokens
begin

section \<open>Guards of the routes\<close>

text \<open>
  The middleware that decides who calls: \<^verbatim>\<open>domain-hash-auth.ts\<close> with
  \<^verbatim>\<open>verifyDomainAuthToken\<close> of \<^verbatim>\<open>domain-secret.service.ts\<close>,
  \<^verbatim>\<open>org-role-guard.ts\<close>, \<^verbatim>\<open>user-access-token.ts\<close>,
  \<^verbatim>\<open>superuser-access-token.ts\<close>, \<^verbatim>\<open>admin-superuser.ts\<close>,
  \<^verbatim>\<open>admin-access.ts\<close>, \<^verbatim>\<open>org-features.ts\<close> and \<^verbatim>\<open>groups-enabled.ts\<close>.
  A guard maps a request to what it attaches to it, or refuses.
\<close>

datatype header_value = Single string | Several "string list"

record http_request =
  hq_query_domain :: "string option"
  hq_config :: "client_config option"
  hq_access_token :: "header_value option"
  hq_authorization :: "header_value option"
  hq_api_key :: "header_value option"
  hq_orgId :: "string option"
  hq_clientDomainId :: "string option"

record guard_env =
  ge_verifier :: token_verifier
  ge_sharedSecret :: string
  ge_adminSecret :: "string option"
  ge_adminDomain :: string
  ge_database :: bool
  ge_hashes :: crypto
  ge_secrets :: "(string \<times> string) list"
  ge_now :: int
  ge_touches :: bool

subsection \<open>Tokens in headers\<close>

definition has_bearer :: "string \<Rightarrow> bool" where
  "has_bearer s \<longleftrightarrow> take 7 (js_lower s) = ''bearer ''"

definition parseBearerOrRawToken :: "header_value option \<Rightarrow> string option" where
  "parseBearerOrRawToken value =
     (case value of
        Some (Single v) \<Rightarrow>
          (let trimmed = js_trim v in
           if trimmed = [] then None
           else if has_bearer trimmed then
             (let token = js_trim (drop 7 trimmed) in if token \<noteq> [] then Some token else None)
           else Some trimmed)
      | _ \<Rightarrow> None)"

definition parseBearerToken :: "header_value option \<Rightarrow> string option" where
  "parseBearerToken value =
     (case value of
        Some (Single v) \<Rightarrow>
          (let trimmed = js_trim v in
           if \<not> has_bearer trimmed then None
           else (let token = js_trim (drop 7 trimmed) in if token \<noteq> [] then Some token else None))
      | _ \<Rightarrow> None)"

subsection \<open>The domain-hash guard\<close>

definition normalizeDomainInput :: "string option \<Rightarrow> string option" where
  "normalizeDomainInput raw =
     (case raw of
        None \<Rightarrow> None
      | Some d \<Rightarrow> (let v = normalizeDomain d in if v = [] then None else Some v))"

definition resolveDomain :: "http_request \<Rightarrow> string option" where
  "resolveDomain r =
     (case normalizeDomainInput (hq_query_domain r) of
        Some d \<Rightarrow> Some d | None \<Rightarrow> normalizeDomainInput (map_option cfg_domain (hq_config r)))"

definition resolveVerifiedConfigDomain :: "http_request \<Rightarrow> string option checked" where
  "resolveVerifiedConfigDomain r =
     (let configDomain = normalizeDomainInput (map_option cfg_domain (hq_config r));
          queryDomain = normalizeDomainInput (hq_query_domain r)
      in if configDomain \<noteq> None \<and> queryDomain \<noteq> None \<and> queryDomain \<noteq> configDomain
         then refuse UNAUTHORIZED 401 else Inr configDomain)"

definition parseAuthHeader :: "header_value option \<Rightarrow> string option" where
  "parseAuthHeader value =
     (case (case value of Some (Single v) \<Rightarrow> Some v | Some (Several (v # _)) \<Rightarrow> Some v | _ \<Rightarrow> None) of
        None \<Rightarrow> None
      | Some v \<Rightarrow>
          (let token = js_trim v in
           if token = [] then None
           else Some (if has_bearer token then js_trim (drop 7 token) else token)))"

definition hex_char :: "char \<Rightarrow> bool" where
  "hex_char c \<longleftrightarrow> c \<in> set ''0123456789abcdef''"

definition assertClientHash :: "string \<Rightarrow> string checked" where
  "assertClientHash value =
     (let token = js_lower (js_trim value) in
      if length token = 64 \<and> list_all hex_char token then Inr token else refuse UNAUTHORIZED 401)"

text \<open>\<open>Buffer.from\<close> of a hexadecimal text stops at the first pair that is not one.\<close>

fun hex_bytes :: "string \<Rightarrow> (char \<times> char) list" where
  "hex_bytes (a # b # s) =
     (let x = lower_char a; y = lower_char b in if hex_char x \<and> hex_char y then (x, y) # hex_bytes s else [])"
| "hex_bytes _ = []"

definition secureEqualHex :: "string \<Rightarrow> string \<Rightarrow> bool" where
  "secureEqualHex a b \<longleftrightarrow> length a = length b \<and> hex_bytes a = hex_bytes b"

definition digestDomainClientHash :: "guard_env \<Rightarrow> string \<Rightarrow> string" where
  "digestDomainClientHash ge clientHash = hmac_hex (ge_hashes ge) (ge_sharedSecret ge) clientHash"

text \<open>The credential and the identifier of the row it belongs to. \<open>ge_secrets\<close> are the active
  secrets: the domain row and the digest of each.\<close>

definition verifyDomainAuthToken :: "guard_env \<Rightarrow> string \<Rightarrow> string \<Rightarrow> auth_db \<Rightarrow> (string \<times> string) checked" where
  "verifyDomainAuthToken ge rawDomain token db =
     (let domain = normalizeDomain rawDomain in
     and_then (assertClientHash token) (\<lambda>clientHash.
     if \<not> ge_database ge then refuse_with INTERNAL 500 ''DOMAIN_SECRETS_DATABASE_REQUIRED''
     else case List.find (\<lambda>d. cd_domain d = domain) (client_domains db) of
       None \<Rightarrow> refuse UNAUTHORIZED 401
     | Some row \<Rightarrow>
         if cd_status row = ''disabled'' \<or>
            (\<forall>x \<in> set (ge_secrets ge). fst x = cd_id row \<longrightarrow>
               \<not> secureEqualHex (digestDomainClientHash ge clientHash) (snd x))
         then refuse UNAUTHORIZED 401 else Inr (clientHash, cd_id row)))"

definition verifyDomainHashAuth :: "guard_env \<Rightarrow> http_request \<Rightarrow> string \<Rightarrow> auth_db \<Rightarrow> (string \<times> string) checked" where
  "verifyDomainHashAuth ge r domain db =
     (case parseAuthHeader (hq_authorization r) of
        Some (c # cs) \<Rightarrow> verifyDomainAuthToken ge domain (c # cs) db
      | _ \<Rightarrow> refuse UNAUTHORIZED 401)"

definition domainHashAuth :: "guard_env \<Rightarrow> http_request \<Rightarrow> auth_db \<Rightarrow> (string \<times> string) checked" where
  "domainHashAuth ge r db =
     (case resolveDomain r of
        None \<Rightarrow> refuse BAD_REQUEST 400 | Some d \<Rightarrow> verifyDomainHashAuth ge r d db)"

definition domainHashAuthForVerifiedConfig :: "guard_env \<Rightarrow> http_request \<Rightarrow> auth_db \<Rightarrow> (string \<times> string) checked" where
  "domainHashAuthForVerifiedConfig ge r db =
     and_then (resolveVerifiedConfigDomain r) (\<lambda>d.
       case d of None \<Rightarrow> refuse BAD_REQUEST 400 | Some d1 \<Rightarrow> verifyDomainHashAuth ge r d1 db)"

subsection \<open>Feature guards\<close>

definition requireOrgFeatures :: "http_request \<Rightarrow> unit checked" where
  "requireOrgFeatures r =
     (if (case hq_config r of None \<Rightarrow> False | Some c \<Rightarrow> flag orgs_enabled c) then Inr ()
      else refuse_with NOT_FOUND 404 ''ORG_FEATURES_DISABLED'')"

definition requireGroupsEnabled :: "http_request \<Rightarrow> unit checked" where
  "requireGroupsEnabled r =
     (if (case hq_config r of None \<Rightarrow> False | Some c \<Rightarrow> flag groups_enabled c) then Inr ()
      else refuse NOT_FOUND 404)"

subsection \<open>The organisation guard\<close>

text \<open>Who acts on an organisation route: a user, or the backend of a domain.\<close>

datatype org_caller = Acting_User access_token_claims | Domain_Backend string

definition resolveDomainFromRequest :: "http_request \<Rightarrow> string" where
  "resolveDomainFromRequest r =
     (case resolveDomain r of Some d \<Rightarrow> d | None \<Rightarrow> [])"

definition resolveOrgIdFromParams :: "http_request \<Rightarrow> string option" where
  "resolveOrgIdFromParams r =
     (case hq_orgId r of
        None \<Rightarrow> None | Some i \<Rightarrow> (let orgId = js_trim i in if orgId = [] then None else Some orgId))"

definition resolveOrgAccessTokenHeader :: "http_request \<Rightarrow> string option checked" where
  "resolveOrgAccessTokenHeader r =
     (if hq_access_token r = None then Inr None
      else case parseBearerOrRawToken (hq_access_token r) of
        None \<Rightarrow> refuse_with UNAUTHORIZED 401 ''MISSING_ACCESS_TOKEN'' | Some t \<Rightarrow> Inr (Some t))"

definition acceptDomainBackendCaller :: "guard_env \<Rightarrow> http_request \<Rightarrow> string \<Rightarrow> auth_db \<Rightarrow> org_caller checked" where
  "acceptDomainBackendCaller ge r queryDomain db =
     (let verifiedDomain = normalizeDomain (case hq_config r of None \<Rightarrow> [] | Some c \<Rightarrow> cfg_domain c) in
      if \<not> truthy (hq_clientDomainId r) then refuse_with UNAUTHORIZED 401 ''MISSING_ACCESS_TOKEN''
      else if verifiedDomain = [] then refuse_with INTERNAL 500 ''CONFIG_NOT_VERIFIED''
      else if queryDomain \<noteq> [] \<and> queryDomain \<noteq> verifiedDomain then refuse_with BAD_REQUEST 400 ''DOMAIN_MISMATCH''
      else if Option.bind (hq_config r) (feature backend_org_management) \<noteq> Some True
        then refuse_with UNAUTHORIZED 401 ''MISSING_ACCESS_TOKEN''
      else (case resolveOrgIdFromParams r of
          None \<Rightarrow> Inr (Domain_Backend verifiedDomain)
        | Some i \<Rightarrow>
            if ge_database ge \<and>
               List.find (\<lambda>o1. o_id o1 = i \<and> o_domain o1 = verifiedDomain) (organisations (tenant db)) = None
            then refuse NOT_FOUND 404 else Inr (Domain_Backend verifiedDomain)))"

definition requireOrgBackendOnly :: "guard_env \<Rightarrow> http_request \<Rightarrow> auth_db \<Rightarrow> org_caller checked" where
  "requireOrgBackendOnly ge r db =
     (if hq_access_token r \<noteq> None then refuse_with UNAUTHORIZED 401 ''ACCESS_TOKEN_NOT_ALLOWED''
      else acceptDomainBackendCaller ge r (resolveDomainFromRequest r) db)"

text \<open>The organisation and role checks on the claims; \<open>claims.org?.org_id ?? ''\<close> trimmed.\<close>

definition claimed_org :: "access_token_claims \<Rightarrow> string" where
  "claimed_org c = (case cl_org c of None \<Rightarrow> [] | Some x \<Rightarrow> js_trim (rg_org_id x))"

definition claimed_role :: "access_token_claims \<Rightarrow> string" where
  "claimed_role c = (case cl_org c of None \<Rightarrow> [] | Some x \<Rightarrow> rg_org_role x)"

definition org_claims_admitted :: "string list \<Rightarrow> string option \<Rightarrow> access_token_claims \<Rightarrow> bool" where
  "org_claims_admitted requiredRoles orgId c \<longleftrightarrow>
     (if requiredRoles \<noteq> [] then
        \<not> (claimed_org c = [] \<or> claimed_role c = []) \<and>
        \<not> (orgId \<noteq> None \<and> orgId \<noteq> Some (claimed_org c)) \<and> claimed_role c \<in> set requiredRoles
      else if orgId \<noteq> None then \<not> (claimed_org c = [] \<or> Some (claimed_org c) \<noteq> orgId) else True)"

definition requireOrgRole :: "string list \<Rightarrow> guard_env \<Rightarrow> http_request \<Rightarrow> auth_db \<Rightarrow> org_caller checked" where
  "requireOrgRole requiredRoles ge r db =
     (let domain = resolveDomainFromRequest r in
     and_then (resolveOrgAccessTokenHeader r) (\<lambda>token.
       case token of
         None \<Rightarrow> acceptDomainBackendCaller ge r domain db
       | Some tok \<Rightarrow>
           and_then (verifyAccessToken (ge_verifier ge) (ge_sharedSecret ge) (ge_database ge) db tok) (\<lambda>claims.
             if normalizeDomain (cl_domain claims) \<noteq> domain
             then refuse_with FORBIDDEN 403 ''ACCESS_TOKEN_DOMAIN_MISMATCH''
             else if \<not> org_claims_admitted requiredRoles (resolveOrgIdFromParams r) claims
             then refuse_with FORBIDDEN 403 ''INSUFFICIENT_ORG_ROLE''
             else Inr (Acting_User claims))))"

subsection \<open>User and administrator guards\<close>

definition requireUserAccessTokenForDomainQuery :: "guard_env \<Rightarrow> http_request \<Rightarrow> auth_db \<Rightarrow> access_token_claims checked" where
  "requireUserAccessTokenForDomainQuery ge r db =
     (case parseBearerOrRawToken (hq_access_token r) of
        None \<Rightarrow> refuse_with UNAUTHORIZED 401 ''MISSING_ACCESS_TOKEN''
      | Some tok \<Rightarrow>
          and_then (verifyAccessToken (ge_verifier ge) (ge_sharedSecret ge) (ge_database ge) db tok) (\<lambda>claims.
            case hq_query_domain r of
              None \<Rightarrow> refuse_with BAD_REQUEST 400 ''MISSING_DOMAIN''
            | Some d \<Rightarrow>
                if js_trim d = [] then refuse_with BAD_REQUEST 400 ''MISSING_DOMAIN''
                else if normalizeDomain (cl_domain claims) \<noteq> normalizeDomain d
                then refuse_with FORBIDDEN 403 ''ACCESS_TOKEN_DOMAIN_MISMATCH'' else Inr claims))"

definition requireSuperuserAccessTokenForDomainQuery ::
  "guard_env \<Rightarrow> http_request \<Rightarrow> auth_db \<Rightarrow> access_token_claims checked" where
  "requireSuperuserAccessTokenForDomainQuery ge r db =
     and_then (requireUserAccessTokenForDomainQuery ge r db) (\<lambda>claims.
       if \<not> cl_superuser claims then refuse_with FORBIDDEN 403 ''NOT_SUPERUSER'' else Inr claims)"

definition requireAdminSuperuser :: "guard_env \<Rightarrow> http_request \<Rightarrow> auth_db \<Rightarrow> access_token_claims checked" where
  "requireAdminSuperuser ge r db =
     (case parseBearerToken (hq_authorization r) of
        None \<Rightarrow> refuse_with UNAUTHORIZED 401 ''MISSING_ACCESS_TOKEN''
      | Some tok \<Rightarrow>
          if \<not> truthy (ge_adminSecret ge) then refuse_with INTERNAL 500 ''ADMIN_ACCESS_TOKEN_SECRET_REQUIRED''
          else
          and_then (verifyAccessToken (ge_verifier ge) (the (ge_adminSecret ge)) (ge_database ge) db tok) (\<lambda>claims.
            if \<not> cl_superuser claims then refuse_with FORBIDDEN 403 ''NOT_SUPERUSER''
            else (let adminDomain = normalizeDomain (ge_adminDomain ge) in
              if normalizeDomain (cl_domain claims) \<noteq> adminDomain
              then refuse_with FORBIDDEN 403 ''ADMIN_DOMAIN_MISMATCH''
              else if ge_database ge \<and> (adminDomain, cl_userId claims) \<notin> set (superusers db)
              then refuse_with FORBIDDEN 403 ''ADMIN_ROLE_NOT_GRANTED'' else Inr claims)))"

subsection \<open>Administrators' keys\<close>

text \<open>\<^verbatim>\<open>admin-api-key.service.ts\<close>: the table is a list of rows, only the digest of a key
  is stored. \<open>ge_touches\<close> says whether the write of \<open>lastUsedAt\<close>, whose failure is
  ignored, goes through.\<close>

record admin_api_key =
  ak_id :: string
  ak_name :: string
  ak_keyPrefix :: string
  ak_secretDigest :: string
  ak_lastUsedAt :: "int option"
  ak_expiresAt :: "int option"
  ak_revokedAt :: "int option"
  ak_createdByEmail :: "string option"
  ak_createdAt :: int

definition API_KEY_PREFIX :: string where
  "API_KEY_PREFIX = ''uoa_ak_''"

definition digestApiKey :: "guard_env \<Rightarrow> string \<Rightarrow> string" where
  "digestApiKey ge rawKey = hmac_hex (ge_hashes ge) (ge_sharedSecret ge) rawKey"

definition createAdminApiKey ::
  "guard_env \<Rightarrow> string \<Rightarrow> string \<Rightarrow> int option \<Rightarrow> string option \<Rightarrow> string \<Rightarrow> admin_api_key list \<Rightarrow>
     (thrown + admin_api_key \<times> string) \<times> admin_api_key list" where
  "createAdminApiKey ge i randomPart expiry email rawName rows =
     (let name = js_trim rawName; plaintext = API_KEY_PREFIX @ randomPart;
          row = \<lparr>ak_id = i, ak_name = name, ak_keyPrefix = take 14 plaintext,
            ak_secretDigest = digestApiKey ge plaintext, ak_lastUsedAt = None, ak_expiresAt = expiry,
            ak_revokedAt = None, ak_createdByEmail = email, ak_createdAt = ge_now ge\<rparr>
      in if name = [] \<or> length name > 120 then (refuse_with BAD_REQUEST 400 ''INVALID_API_KEY_NAME'', rows)
         else if \<exists>k \<in> set rows. ak_secretDigest k = ak_secretDigest row \<or> ak_id k = i
         then (Inl (Db_Error ''P2002''), rows) else (Inr (row, plaintext), rows @ [row]))"

definition listAdminApiKeys :: "admin_api_key list \<Rightarrow> admin_api_key list" where
  "listAdminApiKeys rows = js_sort (\<lambda>a b. ak_createdAt b - ak_createdAt a) rows"

definition revokeAdminApiKey ::
  "guard_env \<Rightarrow> string \<Rightarrow> admin_api_key list \<Rightarrow> (thrown + unit) \<times> admin_api_key list" where
  "revokeAdminApiKey ge i rows =
     (if \<forall>k \<in> set rows. ak_id k \<noteq> i then (refuse_with NOT_FOUND 404 ''API_KEY_NOT_FOUND'', rows)
      else (Inr (), update_where (\<lambda>k. ak_id k = i) (\<lambda>k. k\<lparr>ak_revokedAt := Some (ge_now ge)\<rparr>) rows))"

definition verifyAdminApiKey ::
  "guard_env \<Rightarrow> string \<Rightarrow> admin_api_key list \<Rightarrow> (thrown + string) \<times> admin_api_key list" where
  "verifyAdminApiKey ge rawKey rows =
     (if \<not> ge_database ge then (refuse UNAUTHORIZED 401, rows)
      else case List.find (\<lambda>k. ak_secretDigest k = digestApiKey ge rawKey) rows of
        None \<Rightarrow> (refuse UNAUTHORIZED 401, rows)
      | Some row \<Rightarrow>
          if ak_revokedAt row \<noteq> None \<or> (case ak_expiresAt row of None \<Rightarrow> False | Some e \<Rightarrow> e < ge_now ge)
          then (refuse UNAUTHORIZED 401, rows)
          else (Inr (ak_id row),
                if ge_touches ge
                then update_where (\<lambda>k. ak_id k = ak_id row) (\<lambda>k. k\<lparr>ak_lastUsedAt := Some (ge_now ge)\<rparr>) rows
                else rows))"

definition assertSingleHeader :: "header_value \<Rightarrow> string checked" where
  "assertSingleHeader v =
     (case v of Several _ \<Rightarrow> refuse UNAUTHORIZED 401
      | Single s \<Rightarrow> if CHR '','' \<in> set s then refuse UNAUTHORIZED 401 else Inr s)"

definition readApiKeyCredential :: "http_request \<Rightarrow> string option checked" where
  "readApiKeyCredential r =
     (case hq_api_key r of
        Some h \<Rightarrow>
          and_then (assertSingleHeader h) (\<lambda>s.
            if js_trim s = [] then refuse UNAUTHORIZED 401 else Inr (Some (js_trim s)))
      | None \<Rightarrow>
          (case hq_authorization r of
             None \<Rightarrow> Inr None
           | Some h \<Rightarrow>
               and_then (assertSingleHeader h) (\<lambda>s.
                 let trimmed = js_trim s; token = js_trim (drop 7 trimmed) in
                 Inr (if has_bearer trimmed \<and> take (length API_KEY_PREFIX) token = API_KEY_PREFIX
                      then Some token else None))))"

datatype admin_caller = Api_Key string | Superuser access_token_claims

definition requireAdminApiKeyOrSuperuser ::
  "guard_env \<Rightarrow> http_request \<Rightarrow> auth_db \<Rightarrow> admin_api_key list \<Rightarrow> (thrown + admin_caller) \<times> admin_api_key list"
where
  "requireAdminApiKeyOrSuperuser ge r db rows =
     (case readApiKeyCredential r of
        Inl e \<Rightarrow> (Inl e, rows)
      | Inr None \<Rightarrow> (and_then (requireAdminSuperuser ge r db) (\<lambda>c. Inr (Superuser c)), rows)
      | Inr (Some k) \<Rightarrow>
          (case verifyAdminApiKey ge k rows of
             (Inl e, rows1) \<Rightarrow> (Inl e, rows1) | (Inr i, rows1) \<Rightarrow> (Inr (Api_Key i), rows1)))"

end
