(* ===== verification/Token_Properties.thy ===== *)
theory Token_Properties
  imports Token_Endpoint Code_Properties
begin

section \<open>What a token can say\<close>

text \<open>
  The organisation context, the workspace and the claims of an issued token are statements about the
  store at the end of the exchange; they are compared with the memberships in force there.
\<close>

subsection \<open>The organisation context tells the truth\<close>

text \<open>
  The context is in force in a tenant for a user: the membership it names is ACTIVE with the role
  it names, and every team it lists is a team of that organisation with an ACTIVE membership of
  the role it lists.
\<close>

definition context_in_force :: "org_db \<Rightarrow> string \<Rightarrow> org_context \<Rightarrow> bool" where
  "context_in_force org u x \<longleftrightarrow>
     (\<exists>m \<in> set (org_members org). active_member (oc_org_id x) u m \<and> om_role m = oc_org_role x) \<and>
     oc_teams x = map fst (oc_team_roles x) \<and>
     (\<forall>(t, r) \<in> set (oc_team_roles x). team_in_org org (oc_org_id x) t \<and>
        (\<exists>k \<in> set (team_members org). tm_teamId k = t \<and> tm_userId k = u \<and> tm_status k = ACTIVE \<and>
           tm_teamRole k = r))"

lemma context_teams:
  "context_in_force org u x \<Longrightarrow> t \<in> set (oc_teams x) \<Longrightarrow> workspace_in_force org u (oc_org_id x) t"
  by (fastforce simp: context_in_force_def workspace_in_force_def)

definition domain_admits :: "auth_env \<Rightarrow> string \<Rightarrow> string \<Rightarrow> auth_db \<Rightarrow> bool" where
  "domain_admits env d i db \<longleftrightarrow> org_domain (tenant db) i = Some (normalizeDomain d) \<or>
     all_active (resolveProductWorkspacePolicy (now env) d db)"

lemma user_contextD:
  assumes "getActiveUserOrgContext env u d i g cross db = Inr (Some x)"
  shows "context_in_force (tenant db) (js_trim u) x"
    "\<And>j. i = Some j \<Longrightarrow> oc_org_id x = js_trim j"
    "cross \<or> org_domain (tenant db) (oc_org_id x) = Some (normalizeDomain d)"
proof -
  let ?P = "\<lambda>m. om_userId m = js_trim u \<and> (\<forall>j \<in> set_option (map_option js_trim i). om_orgId m = j) \<and>
     om_status m = ACTIVE \<and> (cross \<or> org_domain (tenant db) (om_orgId m) = Some (normalizeDomain d))"
  from assms obtain m where m: "findMember (tenant db) ?P = Some m" and
    x: "oc_org_id x = om_orgId m" "oc_org_role x = om_role m" "oc_teams x = map fst (oc_team_roles x)"
      "set (oc_team_roles x) = (\<lambda>k. (tm_teamId k, tm_teamRole k)) `
         {k \<in> set (team_members (tenant db)). tm_userId k = js_trim u \<and> tm_status k = ACTIVE \<and>
            team_in_org (tenant db) (om_orgId m) (tm_teamId k)}"
    by (auto simp: getActiveUserOrgContext_def Let_def and_then_Inr_iff split: if_splits option.splits)
  from m have row: "m \<in> set (org_members (tenant db))" "?P m"
    unfolding findMember_def by (auto dest!: find_Some_set)
  with x show "context_in_force (tenant db) (js_trim u) x"
    by (auto simp: context_in_force_def)
  from row(2) x(1) show "\<And>j. i = Some j \<Longrightarrow> oc_org_id x = js_trim j"
    "cross \<or> org_domain (tenant db) (oc_org_id x) = Some (normalizeDomain d)" by auto
qed

lemma client_contextD:
  assumes "getActiveClientOrgContext env u d i g db = Inr (Some x)"
  shows "context_in_force (tenant db) (js_trim u) x" "domain_admits env d (oc_org_id x) db"
proof -
  from assms obtain cross where "getActiveUserOrgContext env u d (Some i) g cross db = Inr (Some x)"
    "cross \<longrightarrow> all_active (resolveProductWorkspacePolicy (now env) d db)"
    by (fastforce simp: getActiveClientOrgContext_def and_then_Inr_iff split: option.splits if_splits)
  with user_contextD[OF this(1)] show "context_in_force (tenant db) (js_trim u) x"
    "domain_admits env d (oc_org_id x) db" by (auto simp: domain_admits_def)
qed

lemma own_contextD:
  assumes "getUserOrgContext env c u db = Inr (Some x)"
  shows "context_in_force (tenant db) (js_trim u) x" "domain_admits env (cfg_domain c) (oc_org_id x) db"
  using assms user_contextD[where cross = False]
  by (fastforce simp: getUserOrgContext_def domain_admits_def split: if_splits)+

lemma active_contextD:
  assumes "active_context env c u (Some (i, t)) db = Inr y"
  obtains x where "y = Some x" "context_in_force (tenant db) (js_trim u) x"
    "domain_admits env (cfg_domain c) i db" "oc_org_id x = i" "t \<in> set (oc_teams x)"
proof -
  let ?r = "getActiveClientOrgContext env u (cfg_domain c) i (flag groups_enabled c) db"
  obtain ctx where r: "?r = Inr ctx" using assms by (cases ?r) (simp_all add: active_context_def)
  then obtain x where x: "ctx = Some x" using assms by (cases ctx) (simp_all add: active_context_def)
  with r assms have "oc_org_id x = i" "t \<in> set (oc_teams x)" "y = Some x"
    by (simp_all add: active_context_def split: if_splits)
  with client_contextD[OF r[unfolded x]] show thesis using that by simp
qed

subsection \<open>Signed pairs\<close>

text \<open>What an access token may say of a store.\<close>

definition token_truthful :: "auth_env \<Rightarrow> token_settings \<Rightarrow> auth_db \<Rightarrow> access_token \<Rightarrow> bool" where
  "token_truthful env ts db a \<longleftrightarrow>
     (\<exists>user. findUser db (at_userId a) = Some user \<and> at_email a = u_email user) \<and>
     at_tv a = (case tokenVersion db (at_userId a) of Some v \<Rightarrow> v | None \<Rightarrow> 0) \<and>
     (\<forall>x. at_org a = Some x \<longrightarrow> context_in_force (tenant db) (js_trim (at_userId a)) x \<and>
        domain_admits env (at_domain a) (oc_org_id x) db) \<and>
     (\<forall>i t slug. at_active a = Some (i, t, slug) \<longrightarrow>
        workspace_in_force (tenant db) (js_trim (at_userId a)) i t \<and>
        (\<exists>x. at_org a = Some x \<and> oc_org_id x = i))"

text \<open>Which key signs: the one of the relying parties for every domain but the administrators'.\<close>

definition key_of_domain :: "auth_env \<Rightarrow> token_settings \<Rightarrow> access_token \<Rightarrow> bool" where
  "key_of_domain env ts a \<longleftrightarrow>
     (if normalizeDomain (at_domain a) = normalizeDomain (ts_adminDomain ts)
      then ts_adminSecret ts = Some (at_secret a) \<and> at_secret a \<noteq> [] \<and> \<not> at_rs256 a
      else at_secret a = secret env \<and> at_rs256 a = ts_rs256 ts)"

lemma token_keyD:
  assumes "resolveAccessTokenContext env ts d c = Inr (i, key, relying)"
  shows "if normalizeDomain d = normalizeDomain (ts_adminDomain ts)
         then ts_adminSecret ts = Some key \<and> key \<noteq> [] \<and> \<not> relying else key = secret env \<and> relying"
  using assms by (auto simp: resolveAccessTokenContext_def Let_def split: if_splits option.splits list.splits)

lemma signed_pairD:
  assumes "signed_pair env ts p su db = Inr pair"
  shows "token_truthful env ts db (tp_accessToken pair)" "key_of_domain env ts (tp_accessToken pair)"
    "at_userId (tp_accessToken pair) = pq_userId p" "at_domain (tp_accessToken pair) = cfg_domain (pq_config p)"
    "map_option (\<lambda>(i, t, _). (i, t)) (at_active (tp_accessToken pair)) = pq_active p"
proof -
  let ?c = "pq_config p" and ?u = "pq_userId p" and ?a = "tp_accessToken pair"
  from assms obtain user i key relying activeOrg org where
    user: "findUser db ?u = Some user" and
    key: "resolveAccessTokenContext env ts (cfg_domain ?c) (pq_clientId p) = Inr (i, key, relying)" and
    active: "active_context env ?c ?u (pq_active p) db = Inr activeOrg" and
    org: "(case activeOrg of Some x \<Rightarrow> Inr (Some x)
       | None \<Rightarrow> if flag orgs_enabled ?c then getUserOrgContext env ?c ?u db else Inr None) = Inr org" and
    a: "at_userId ?a = ?u" "at_email ?a = u_email user" "at_domain ?a = cfg_domain ?c" "at_org ?a = org"
      "at_active ?a = (case (pq_active p, activeOrg) of
         (Some (i, t), Some x) \<Rightarrow> Some (i, t, oc_tenant_slug x) | _ \<Rightarrow> None)"
      "at_rs256 ?a = (relying \<and> ts_rs256 ts)" "at_secret ?a = key"
      "at_tv ?a = (case tokenVersion db ?u of Some v \<Rightarrow> v | None \<Rightarrow> 0)"
    by (auto simp: signed_pair_def Let_def split: option.splits elim!: and_thenE)
  from a show "at_userId ?a = ?u" "at_domain ?a = cfg_domain ?c" by simp_all
  show "key_of_domain env ts ?a"
    using token_keyD[OF key] a by (auto simp: key_of_domain_def split: if_splits)
  show "map_option (\<lambda>(i, t, _). (i, t)) (at_active ?a) = pq_active p"
  proof (cases "pq_active p")
    case (Some it)
    then obtain j t where "pq_active p = Some (j, t)" by (cases it) auto
    then show ?thesis using active a(5) by (auto elim!: active_contextD)
  qed (simp add: a)
  have none: "activeOrg = None" if "pq_active p = None" using active that by (simp add: active_context_def)
  have "context_in_force (tenant db) (js_trim ?u) x \<and> domain_admits env (cfg_domain ?c) (oc_org_id x) db"
    if "org = Some x" for x
  proof (cases "pq_active p")
    case None
    with none org that show ?thesis using own_contextD by (auto split: if_splits)
  next
    case (Some it)
    then obtain j t where "pq_active p = Some (j, t)" by (cases it) auto
    then show ?thesis using active org that by (auto elim!: active_contextD)
  qed
  moreover have "workspace_in_force (tenant db) (js_trim ?u) j t \<and> (\<exists>x. org = Some x \<and> oc_org_id x = j)"
    if at: "at_active ?a = Some (j, t, slug)" for j t slug
  proof -
    from at a(5) have p: "pq_active p = Some (j, t)" by (auto split: option.splits prod.splits)
    from active_contextD[OF active[unfolded p]] obtain x where
      "activeOrg = Some x" "context_in_force (tenant db) (js_trim ?u) x" "oc_org_id x = j" "t \<in> set (oc_teams x)"
      by metis
    then show ?thesis using org context_teams by auto
  qed
  ultimately show "token_truthful env ts db ?a"
    using a user by (auto simp: token_truthful_def)
qed

lemma issue_pairD:
  assumes "issueTokenPairForUser env ts p s = (Inr pair, t)"
  obtains su where "signed_pair env ts p su t = Inr pair"
  using assms by (auto simp: issueTokenPairForUser_def bind_step_Inr reading_value)

lemma run_refresh_tx_Inr: "run_refresh_tx env m s = (Inr v, t) \<longleftrightarrow> m s = (Inr v, t)"
  by (auto simp: run_refresh_tx_def split: prod.splits sum.splits thrown.splits)

text \<open>Every grant of the endpoint ends in signing a pair on the store it leaves.\<close>

lemma endpointD:
  assumes "token_endpoint env ts p grant s = (Inr pair, t)"
  obtains q su where "signed_pair env ts q su t = Inr pair" "pq_config q = tq_config p"
    "\<And>r i tm. grant = Workspace_Switch r i tm \<Longrightarrow> pq_active q = Some (i, tm)"
proof (cases grant)
  case Authorization_Code
  with assms that show thesis
    by (auto simp: token_endpoint_def exchangeAuthorizationCodeForTokens_def Let_def bind_step_Inr
        in_transaction_Inr split: prod.splits elim!: issue_pairD)
next
  case Refresh_Token
  with assms that show thesis
    by (auto simp: token_endpoint_def exchangeRefreshTokenForTokens_def Let_def bind_step_Inr run_refresh_tx_Inr
        elim!: issue_pairD)
next
  case Workspace_Switch
  with assms that show thesis
    by (auto simp: token_endpoint_def exchangeWorkspaceSwitchForTokens_def Let_def bind_step_Inr reading_value
        run_refresh_tx_Inr split: if_splits elim!: issue_pairD)
qed

text \<open>
  C2: a token says nothing that is not so. Whichever grant issues it - a code, a refresh or a
  workspace switch - and whatever other transactions did while it waited for its locks, an access
  token is for the domain of the client, carries the address and the credential epoch the user has
  in the store at the end of the exchange, names only an organisation the user is an ACTIVE member
  of with the role stated, only ACTIVE memberships of teams of that organisation with the roles
  stated, and an active workspace only when it is one of them; the organisation belongs to the
  domain of the client unless the policy of the product admits every active membership. A switch
  yields the workspace that was asked for. It is signed with the administrators' secret exactly
  for the administrators' domain.
\<close>

theorem tokens_tell_the_truth:
  assumes "token_endpoint env ts p grant s = (Inr pair, t)"
  shows "token_truthful env ts t (tp_accessToken pair) \<and> key_of_domain env ts (tp_accessToken pair) \<and>
    at_domain (tp_accessToken pair) = cfg_domain (tq_config p) \<and>
    (\<forall>r i tm. grant = Workspace_Switch r i tm \<longrightarrow>
       (\<exists>slug. at_active (tp_accessToken pair) = Some (i, tm, slug)))"
proof -
  obtain q su where q: "signed_pair env ts q su t = Inr pair" "pq_config q = tq_config p"
    "\<And>r i tm. grant = Workspace_Switch r i tm \<Longrightarrow> pq_active q = Some (i, tm)"
    by (rule endpointD[OF assms]) (rule that)
  from signed_pairD[OF q(1)] q(2,3) show ?thesis
    by (auto split: option.splits simp: map_option_case)
qed

definition demo_settings :: "string \<Rightarrow> token_settings" where
  "demo_settings tok =
     \<lparr>ts_adminDomain = ''admin.test'', ts_adminSecret = Some ''top'', ts_accessTtl = ''15m'',
      ts_issuer = ''uoa'', ts_rs256 = False, ts_refreshToken = tok, ts_familyId = ''fam'',
      ts_signaturesComplete = (\<lambda>_ _ _. True)\<rparr>"

definition demo_token_request :: token_request where
  "demo_token_request = \<lparr>tq_config = default_config ''shop'', tq_configUrl = ''cfg'', tq_clientId = Some ''web'',
     tq_clientDomainId = Some ''d''\<rparr>"

definition demo_tokens :: "(thrown + token_pair) \<times> auth_db" where
  "demo_tokens = token_endpoint (demo_auth_env ''e'' 200) (demo_settings ''r1'') demo_token_request
     (Authorization_Code ''c'' ''https://shop/cb'' (Some demo_verifier)) (snd demo_issued)"

definition demo_refreshed :: "(thrown + token_pair) \<times> auth_db" where
  "demo_refreshed = token_endpoint (demo_auth_env ''f'' 300) (demo_settings ''r2'') demo_token_request
     (Refresh_Token ''r1'') (snd demo_tokens)"

definition demo_switched :: "(thrown + token_pair) \<times> auth_db" where
  "demo_switched = token_endpoint (demo_auth_env ''g'' 400) (demo_settings ''r3'') demo_token_request
     (Workspace_Switch (deriveRefreshTokenSuccessor toy_crypto ''r1'' ''pep'') ''a'' ''h'') (snd demo_refreshed)"

definition issued_with where
  "issued_with r = (case r of Inl e \<Rightarrow> None | Inr p \<Rightarrow>
     Some (at_active (tp_accessToken p), map_option oc_teams (at_org (tp_accessToken p))))"

lemma demo_tokens_results:
  "issued_with (fst demo_tokens) = Some (Some (''a'', ''g'', ''acme''), Some [''g'', ''h''])"
  "issued_with (fst demo_refreshed) = Some (Some (''a'', ''g'', ''acme''), Some [''g'', ''h''])"
  "issued_with (fst demo_switched) = Some (Some (''a'', ''h'', ''acme''), Some [''g'', ''h''])"
  by code_simp+

theorem tokens_tell_the_truth_witness:
  "\<exists>pair t. demo_switched = (Inr pair, t) \<and> token_truthful (demo_auth_env ''g'' 400) (demo_settings ''r3'') t
     (tp_accessToken pair) \<and> (\<exists>slug. at_active (tp_accessToken pair) = Some (''a'', ''h'', slug))"
proof -
  obtain pair where "fst demo_switched = Inr pair"
    using demo_tokens_results(3) by (cases "fst demo_switched") (simp_all add: issued_with_def)
  then have run: "demo_switched = (Inr pair, snd demo_switched)" by (metis prod.collapse)
  from tokens_tell_the_truth[OF run[unfolded demo_switched_def]] run[unfolded demo_switched_def]
  show ?thesis unfolding demo_switched_def by blast
qed

end
