(* ===== verification/Access_Properties.thy ===== *)
theory Access_Properties
  imports Request_Guards Token_Properties
begin

section \<open>Who is let in\<close>

text \<open>
  An access token from its issuance to its verification, and who the organisation guard admits: the
  lifecycle of the token over a JWT library that opens what it signed for as long as it lives, and
  the exact condition of \<open>requireOrgRole\<close> for users, for the domain backend and for neither.
\<close>

subsection \<open>From issuance to verification\<close>

lemma verified_epoch:
  assumes "verifyAccessToken vf key True db tok = Inr c"
  shows "tokenVersion db (cl_userId c) = Some (cl_tokenVersion c)"
proof (cases "Option.bind (verifySignature vf key tok) parse_claims")
  case (Some x)
  with assms show ?thesis by (cases x) (simp add: verifyAccessToken_def split: if_splits)
qed (use assms in \<open>simp add: verifyAccessToken_def\<close>)

text \<open>What is relied on of the JWT library: a lifetime of so many minutes counts from the second of
  issuance, and a token opens under the key it was signed with, with the payload that was signed, as
  long as the current second less the tolerance is before its expiry.\<close>

definition span_seconds :: "string \<Rightarrow> int" where
  "span_seconds ttl = 60 * int (dec_nat (butlast ttl))"

definition live :: "access_token \<Rightarrow> int \<Rightarrow> int \<Rightarrow> int \<Rightarrow> bool" where
  "live a issued tolerance nowMs \<longleftrightarrow>
     nowMs div 1000 - tolerance < issued div 1000 + span_seconds (at_ttl a)"

definition jwt_of :: "(int \<Rightarrow> token_verifier) \<Rightarrow> string \<Rightarrow> access_token \<Rightarrow> int \<Rightarrow> bool" where
  "jwt_of vf tok a issued \<longleftrightarrow>
     (\<forall>nowMs tolerance.
        let opened = (if live a issued tolerance nowMs then Some (signed_payload a) else None) in
        if at_rs256 a then vf_alg (vf nowMs) tok = Some ''RS256'' \<and> vf_rs256_enabled (vf nowMs) \<and>
          vf_rs256 (vf nowMs) tolerance tok = opened
        else vf_alg (vf nowMs) tok = Some ''HS256'' \<and> vf_hs256 (vf nowMs) tolerance (at_secret a) tok = opened)"

lemma opened_signature:
  "jwt_of vf tok a issued \<Longrightarrow> verifySignature (vf nowMs) (at_secret a) tok =
     (if live a issued ACCESS_TOKEN_CLOCK_TOLERANCE_SECONDS nowMs then Some (signed_payload a) else None)"
  unfolding jwt_of_def Let_def verifySignature_def
  by (drule spec[of _ nowMs], drule spec[of _ ACCESS_TOKEN_CLOCK_TOLERANCE_SECONDS]) (cases "at_rs256 a", simp_all)

lemma verify_jwt:
  assumes "jwt_of vf tok a issued" "clean_token a"
  shows "verifyAccessToken (vf nowMs) (at_secret a) True db tok =
    (if live a issued ACCESS_TOKEN_CLOCK_TOLERANCE_SECONDS nowMs \<and> findUser db (at_userId a) \<noteq> None \<and>
        tokenVersion db (at_userId a) = Some (at_tv a)
     then Inr (claims_of a) else invalid_access_token)"
  by (simp add: verifyAccessToken_def opened_signature[OF assms(1)] parse_clean_token[OF assms(2)])
    (simp add: claims_of_def)

lemma advertised_lifetime:
  assumes "signed_pair env ts p su db = Inr pair" and "last (at_ttl (tp_accessToken pair)) = CHR ''m''"
  shows "span_seconds (at_ttl (tp_accessToken pair)) = tp_expiresInSeconds pair"
proof -
  let ?ttl = "at_ttl (tp_accessToken pair)"
  have "accessTokenExpiresInSeconds ?ttl = Inr (tp_expiresInSeconds pair)"
    using assms(1) by (auto simp: signed_pair_def Let_def split: option.splits elim!: and_thenE)
  then show ?thesis
    using assms(2) by (auto simp: accessTokenExpiresInSeconds_def Let_def span_seconds_def split: if_splits)
qed

text \<open>
  C14: an access token lives for the lifetime that was answered with it and within the credential
  epoch it was issued in. Presented at any time to any later store, the token of an issued pair
  yields under its own key exactly the claims that were signed, if fewer seconds have passed than
  the advertised lifetime and the thirty seconds of clock tolerance, the user still exists and the
  user's epoch is that of the store the token was issued from; in every other case the answer is
  the one generic 401 error.
\<close>

theorem access_token_lifecycle:
  assumes "token_endpoint env ts p grant s = (Inr pair, t)" and "a = tp_accessToken pair"
    and "jwt_of vf tok a issued" and "last (at_ttl a) = CHR ''m''"
    and "clean_token a" and "tokenVersion t (at_userId a) = Some epoch"
  shows "verifyAccessToken (vf nowMs) (at_secret a) True later tok =
    (if nowMs div 1000 < issued div 1000 + tp_expiresInSeconds pair + ACCESS_TOKEN_CLOCK_TOLERANCE_SECONDS \<and>
        findUser later (at_userId a) \<noteq> None \<and> tokenVersion later (at_userId a) = Some epoch
     then Inr (claims_of a) else invalid_access_token)"
proof -
  obtain q su where q: "signed_pair env ts q su t = Inr pair" by (rule endpointD[OF assms(1)])
  have "at_tv a = epoch"
    using signed_pairD(1)[OF q] assms(2,6) by (simp add: token_truthful_def)
  moreover have "live a issued tol nowMs \<longleftrightarrow> nowMs div 1000 < issued div 1000 + tp_expiresInSeconds pair + tol" for tol
    using advertised_lifetime[OF q] assms(2,4) by (auto simp: live_def)
  ultimately show ?thesis by (simp add: verify_jwt[OF assms(3,5)])
qed

definition demo_token :: access_token where
  "demo_token = (case fst demo_tokens of Inr pair \<Rightarrow> tp_accessToken pair)"

definition demo_verifier_of :: "access_token \<Rightarrow> int \<Rightarrow> token_verifier" where
  "demo_verifier_of a nowMs = \<lparr>vf_alg = (\<lambda>_. Some ''HS256''), vf_rs256_enabled = False, vf_rs256 = (\<lambda>_ _. None),
     vf_hs256 = (\<lambda>tolerance key tok.
       if key = at_secret a \<and> live a 200 tolerance nowMs then Some (signed_payload a) else None)\<rparr>"

lemma demo_jwt: "\<not> at_rs256 a \<Longrightarrow> jwt_of (demo_verifier_of a) tok a 200"
  by (simp add: jwt_of_def demo_verifier_of_def)

text \<open>Bob's token of a quarter of an hour verifies for half a minute more, and no longer once he logs
  out everywhere.\<close>

definition demo_signed_out :: auth_db where
  "demo_signed_out = in_tenant (\<lambda>o1. o1\<lparr>sessions :=
     (sessions o1)\<lparr>rt_versions := (\<lambda>_. Some 1)\<rparr>\<rparr>) (snd demo_tokens)"

lemma demo_token_facts:
  "isl (fst demo_tokens) = False" "clean_token demo_token" "at_rs256 demo_token = False"
  "at_secret demo_token = ''pep''" "at_userId demo_token = ''bob''"
  "tokenVersion (snd demo_tokens) ''bob'' = Some 0" "(findUser (snd demo_tokens) ''bob'' = None) = False"
  "tokenVersion demo_signed_out ''bob'' = Some 1" "last (at_ttl demo_token) = CHR ''m''"
  "map_sum id tp_expiresInSeconds (fst demo_tokens) = Inr 900"
  by code_simp+

theorem access_token_lifecycle_witness:
  "verifyAccessToken (demo_verifier_of demo_token 929999) ''pep'' True (snd demo_tokens) ''jwt'' =
     Inr (claims_of demo_token) \<and>
   verifyAccessToken (demo_verifier_of demo_token 930000) ''pep'' True (snd demo_tokens) ''jwt'' =
     invalid_access_token \<and>
   verifyAccessToken (demo_verifier_of demo_token 300) ''pep'' True demo_signed_out ''jwt'' = invalid_access_token"
proof -
  obtain pair where pair: "fst demo_tokens = Inr pair"
    using demo_token_facts(1) by (cases "fst demo_tokens") simp_all
  then have run: "token_endpoint (demo_auth_env ''e'' 200) (demo_settings ''r1'') demo_token_request
      (Authorization_Code ''c'' ''https://shop/cb'' (Some demo_verifier)) (snd demo_issued) = (Inr pair, snd demo_tokens)"
    unfolding demo_tokens_def by (metis prod.collapse)
  have token: "demo_token = tp_accessToken pair" by (simp add: demo_token_def pair)
  have lifetime: "tp_expiresInSeconds pair = 900" using demo_token_facts(10) by (simp add: pair)
  have jwt: "jwt_of (demo_verifier_of demo_token) ''jwt'' demo_token 200"
    by (rule demo_jwt) (simp add: demo_token_facts)
  note life = access_token_lifecycle[OF run token jwt demo_token_facts(9,2), unfolded demo_token_facts(4,5),
      OF demo_token_facts(6), unfolded lifetime]
  show ?thesis
    unfolding life[of 929999 "snd demo_tokens"] life[of 930000 "snd demo_tokens"] life[of 300 demo_signed_out]
    by (simp add: demo_token_facts ACCESS_TOKEN_CLOCK_TOLERANCE_SECONDS_def)
qed

subsection \<open>The organisation guard\<close>

text \<open>Both halves of the domain pairing, the opt-in, and the organisation of the route.\<close>

definition backend_paired :: "guard_env \<Rightarrow> http_request \<Rightarrow> auth_db \<Rightarrow> string \<Rightarrow> bool" where
  "backend_paired ge r db d \<longleftrightarrow> truthy (hq_clientDomainId r) \<and>
     (\<exists>c. hq_config r = Some c \<and> normalizeDomain (cfg_domain c) = d \<and> d \<noteq> [] \<and>
        feature backend_org_management c = Some True) \<and>
     resolveDomainFromRequest r = d \<and>
     (\<forall>i. resolveOrgIdFromParams r = Some i \<longrightarrow> ge_database ge \<longrightarrow>
        (\<exists>o1 \<in> set (organisations (tenant db)). o_id o1 = i \<and> o_domain o1 = d))"

lemma resolved_domain:
  "hq_config r = Some c \<Longrightarrow> normalizeDomain (cfg_domain c) \<noteq> [] \<Longrightarrow> resolveDomainFromRequest r \<noteq> []"
  by (auto simp: resolveDomainFromRequest_def resolveDomain_def normalizeDomainInput_def Let_def
      split: option.splits if_splits)

lemma normalizeDomain_Nil: "normalizeDomain [] = []"
  by code_simp

lemma backend_accepted:
  "acceptDomainBackendCaller ge r (resolveDomainFromRequest r) db = Inr x \<longleftrightarrow>
     (\<exists>d. x = Domain_Backend d \<and> backend_paired ge r db d)"
proof (cases "hq_config r")
  case None
  then show ?thesis
    by (auto simp: acceptDomainBackendCaller_def backend_paired_def normalizeDomain_Nil)
next
  case (Some c)
  let ?d = "normalizeDomain (cfg_domain c)"
  have found: "(List.find (\<lambda>o1. o_id o1 = i \<and> o_domain o1 = ?d) (organisations (tenant db)) = None) \<longleftrightarrow>
      \<not> (\<exists>o1 \<in> set (organisations (tenant db)). o_id o1 = i \<and> o_domain o1 = ?d)" for i
    using find_not_None[of "\<lambda>o1. o_id o1 = i \<and> o_domain o1 = ?d" "organisations (tenant db)"] by blast
  show ?thesis
    unfolding acceptDomainBackendCaller_def backend_paired_def Let_def Some
    using resolved_domain[OF Some] by (auto simp: found split: option.splits)
qed

text \<open>
  C11: the organisation guard admits exactly two callers. The backend of a domain gets in only when
  the access-token header is absent, the domain-hash guard ran, the verified config names the
  domain - which is the one the request asks for - and opts in, and an organisation named by the
  route was created on that domain. A user gets in only with a header that is there and carries a
  token that verifies at the user's current credential epoch, is for the request's domain, names
  the organisation of the route, and a required role if there is one. A header that is there but
  blank, or repeated, is refused: it never selects the backend.
\<close>

theorem org_guard_exact:
  "(requireOrgRole roles ge r db = Inr (Domain_Backend d) \<longleftrightarrow> hq_access_token r = None \<and> backend_paired ge r db d) \<and>
   (requireOrgBackendOnly ge r db = Inr x \<longleftrightarrow>
      hq_access_token r = None \<and> (\<exists>d. x = Domain_Backend d \<and> backend_paired ge r db d)) \<and>
   (requireOrgRole roles ge r db = Inr (Acting_User c) \<longleftrightarrow>
      (\<exists>v tok. hq_access_token r = Some (Single v) \<and> parseBearerOrRawToken (Some (Single v)) = Some tok \<and>
         verifyAccessToken (ge_verifier ge) (ge_sharedSecret ge) (ge_database ge) db tok = Inr c \<and>
         normalizeDomain (cl_domain c) = resolveDomainFromRequest r \<and>
         (\<forall>i. resolveOrgIdFromParams r = Some i \<longrightarrow> claimed_org c = i \<and> i \<noteq> []) \<and>
         (roles \<noteq> [] \<longrightarrow> claimed_org c \<noteq> [] \<and> claimed_role c \<noteq> [] \<and> claimed_role c \<in> set roles))) \<and>
   (requireOrgRole roles ge r db = Inr (Acting_User c) \<longrightarrow> ge_database ge \<longrightarrow>
      tokenVersion db (cl_userId c) = Some (cl_tokenVersion c)) \<and>
   (\<forall>h. hq_access_token r = Some h \<longrightarrow> parseBearerOrRawToken (Some h) = None \<longrightarrow>
      requireOrgRole roles ge r db = refuse_with UNAUTHORIZED 401 ''MISSING_ACCESS_TOKEN'')"
proof (intro conjI)
  show "requireOrgRole roles ge r db = Inr (Domain_Backend d) \<longleftrightarrow>
      hq_access_token r = None \<and> backend_paired ge r db d"
    by (auto simp: requireOrgRole_def Let_def and_then_Inr_iff resolveOrgAccessTokenHeader_def backend_accepted
        split: option.splits if_splits)
  show "requireOrgBackendOnly ge r db = Inr x \<longleftrightarrow>
      hq_access_token r = None \<and> (\<exists>d. x = Domain_Backend d \<and> backend_paired ge r db d)"
    by (auto simp: requireOrgBackendOnly_def backend_accepted)
  have admitted: "org_claims_admitted roles orgId x \<longleftrightarrow>
      (\<forall>i. orgId = Some i \<longrightarrow> claimed_org x = i \<and> i \<noteq> []) \<and>
      (roles \<noteq> [] \<longrightarrow> claimed_org x \<noteq> [] \<and> claimed_role x \<noteq> [] \<and> claimed_role x \<in> set roles)" for orgId x
    by (cases orgId) (auto simp: org_claims_admitted_def)
  show user: "requireOrgRole roles ge r db = Inr (Acting_User c) \<longleftrightarrow>
      (\<exists>v tok. hq_access_token r = Some (Single v) \<and> parseBearerOrRawToken (Some (Single v)) = Some tok \<and>
         verifyAccessToken (ge_verifier ge) (ge_sharedSecret ge) (ge_database ge) db tok = Inr c \<and>
         normalizeDomain (cl_domain c) = resolveDomainFromRequest r \<and>
         (\<forall>i. resolveOrgIdFromParams r = Some i \<longrightarrow> claimed_org c = i \<and> i \<noteq> []) \<and>
         (roles \<noteq> [] \<longrightarrow> claimed_org c \<noteq> [] \<and> claimed_role c \<noteq> [] \<and> claimed_role c \<in> set roles))"
  proof (cases "hq_access_token r")
    case None
    then show ?thesis
      by (simp add: requireOrgRole_def resolveOrgAccessTokenHeader_def backend_accepted)
  next
    case (Some h)
    then show ?thesis
    proof (cases h)
      case (Several vs)
      with Some show ?thesis
        by (simp add: requireOrgRole_def resolveOrgAccessTokenHeader_def parseBearerOrRawToken_def)
    next
      case (Single v)
      with Some show ?thesis
        by (auto simp: requireOrgRole_def Let_def resolveOrgAccessTokenHeader_def and_then_Inr_iff
            admitted split: option.splits if_splits)
    qed
  qed
  show "requireOrgRole roles ge r db = Inr (Acting_User c) \<longrightarrow> ge_database ge \<longrightarrow>
      tokenVersion db (cl_userId c) = Some (cl_tokenVersion c)"
    unfolding user using verified_epoch by auto
  show "\<forall>h. hq_access_token r = Some h \<longrightarrow> parseBearerOrRawToken (Some h) = None \<longrightarrow>
      requireOrgRole roles ge r db = refuse_with UNAUTHORIZED 401 ''MISSING_ACCESS_TOKEN''"
    by (simp add: requireOrgRole_def resolveOrgAccessTokenHeader_def)
qed

definition demo_guard :: guard_env where
  "demo_guard = \<lparr>ge_verifier = demo_verifier_of demo_token 300, ge_sharedSecret = ''pep'', ge_adminSecret = Some ''top'',
     ge_adminDomain = ''admin.test'', ge_database = True, ge_hashes = toy_crypto, ge_secrets = [], ge_now = 0,
     ge_touches = True\<rparr>"

definition demo_http :: "header_value option \<Rightarrow> http_request" where
  "demo_http h = \<lparr>hq_query_domain = Some '' Shop.'', hq_config = Some ((default_config ''shop'')
       \<lparr>cfg_org_features := Some (empty_features\<lparr>backend_org_management := Some True\<rparr>)\<rparr>),
     hq_access_token = h, hq_authorization = None, hq_api_key = None, hq_orgId = Some '' a'',
     hq_clientDomainId = Some ''d''\<rparr>"

text \<open>The backend of the shop is let in; with a blank header it is not.\<close>

theorem org_guard_exact_witness:
  "requireOrgRole [''owner''] demo_guard (demo_http None) demo_auth = Inr (Domain_Backend ''shop'') \<and>
   requireOrgRole [''owner''] demo_guard (demo_http (Some (Single '' ''))) demo_auth =
     refuse_with UNAUTHORIZED 401 ''MISSING_ACCESS_TOKEN''"
proof -
  have "backend_paired demo_guard (demo_http None) demo_auth ''shop''"
    unfolding backend_paired_def
  proof (intro conjI allI impI)
    show "\<exists>c. hq_config (demo_http None) = Some c \<and> normalizeDomain (cfg_domain c) = ''shop'' \<and> ''shop'' \<noteq> [] \<and>
        feature backend_org_management c = Some True"
      by (rule exI[of _ "the (hq_config (demo_http None))"]) code_simp
    have "resolveOrgIdFromParams (demo_http None) = Some ''a''"
      "map (\<lambda>o1. (o_id o1, o_domain o1)) (organisations (tenant demo_auth)) = [(''a'', ''shop'')]"
      by code_simp+
    then show "\<exists>o1 \<in> set (organisations (tenant demo_auth)). o_id o1 = i \<and> o_domain o1 = ''shop''"
      if "resolveOrgIdFromParams (demo_http None) = Some i" for i
      using that by auto
    show "truthy (hq_clientDomainId (demo_http None))" by (simp add: demo_http_def truthy_def)
    show "resolveDomainFromRequest (demo_http None) = ''shop''" by code_simp
  qed
  moreover have "parseBearerOrRawToken (Some (Single '' '')) = None" by code_simp
  ultimately show ?thesis
    using org_guard_exact[of "[''owner'']" demo_guard "demo_http None" demo_auth "''shop''"]
      org_guard_exact[of "[''owner'']" demo_guard "demo_http (Some (Single '' ''))" demo_auth]
    by (simp add: demo_http_def)
qed

end
