(* ===== verification/Login_Codes.thy ===== *)
theory Login_Codes
  imports Invite_Service Decimal_Digits
begin

section \<open>Emailed sign-in codes and the chooser session\<close>

text \<open>
  \<^verbatim>\<open>login-code.service.ts\<close>: a six-digit code is drawn, hashed together with the user key, stored
  as a row of the token table and mailed; presenting it back proves the mailbox. And
  \<^verbatim>\<open>login-session-use.service.ts\<close>: the bridge token between identity and workspace choice is
  claimed once, by an insert under a unique index.

  A service is handed either the full database client, whose transactions roll back when their
  body throws, or the client of a transaction already open, whose statements stay with the caller
  (\<open>runInTransaction\<close> of \<^verbatim>\<open>tenant-context.ts\<close>). The model keeps the two apart; \<open>settle\<close>
  is what others have committed by the time a transaction is rolled back.
\<close>

subsection \<open>Rows\<close>

record login_code = verification_token +
  lc_id :: string
  lc_attemptCount :: nat
  lc_createdAt :: int

record session_use =
  su_domain :: string
  su_jtiHash :: string
  su_expiresAt :: int

record login_db =
  ld_auth :: auth_db
  ld_codes :: "login_code list"
  ld_mail :: "(string \<times> string) list"
  ld_session_uses :: "session_use list"

record login_env =
  le_auth :: auth_env
  le_draw :: "nat \<Rightarrow> nat"
  le_await :: "login_db \<Rightarrow> login_db"

type_synonym 'a login_step = "login_db \<Rightarrow> (thrown + 'a) \<times> login_db"

datatype db_client = Full_Client | Transaction_Client

definition runInTransaction ::
  "db_client \<Rightarrow> ('s \<Rightarrow> 's) \<Rightarrow> ('s \<Rightarrow> (thrown + 'a) \<times> 's) \<Rightarrow> 's \<Rightarrow> (thrown + 'a) \<times> 's" where
  "runInTransaction client settle body db =
     (case client of
        Full_Client \<Rightarrow> (case body db of (Inl e, _) \<Rightarrow> (Inl e, settle db) | (Inr x, db1) \<Rightarrow> (Inr x, db1))
      | Transaction_Client \<Rightarrow> body db)"

subsection \<open>Issuing\<close>

definition LOGIN_CODE_TTL_MS :: int where
  "LOGIN_CODE_TTL_MS = 10 * 60 * 1000"

definition LOGIN_CODE_MAX_ATTEMPTS :: nat where
  "LOGIN_CODE_MAX_ATTEMPTS = 5"

definition generateSixDigitCode :: "login_env \<Rightarrow> nat \<Rightarrow> string" where
  "generateSixDigitCode env k = pad_start 6 (CHR ''0'') (digits_of (le_draw env k))"

definition hashLoginCode :: "login_env \<Rightarrow> string \<Rightarrow> string \<Rightarrow> string" where
  "hashLoginCode env code userKey = hashEmailToken (le_auth env) (code @ '':'' @ userKey)"

definition unused_code :: "string \<Rightarrow> login_code \<Rightarrow> bool" where
  "unused_code userKey c \<longleftrightarrow> vt_userKey c = userKey \<and> vt_type c = ''LOGIN_CODE'' \<and> vt_usedAt c = None"

definition update_codes :: "(login_code \<Rightarrow> bool) \<Rightarrow> (login_code \<Rightarrow> login_code) \<Rightarrow> login_db \<Rightarrow> login_db" where
  "update_codes P f db = db\<lparr>ld_codes := update_where P f (ld_codes db)\<rparr>"

definition supersede_codes :: "string \<Rightarrow> int \<Rightarrow> login_db \<Rightarrow> login_db" where
  "supersede_codes userKey t = update_codes (unused_code userKey) (\<lambda>c. c\<lparr>vt_usedAt := Some t\<rparr>)"

text \<open>Hashes are unique over the whole token table.\<close>

definition create_login_code :: "login_code \<Rightarrow> login_db \<Rightarrow> (unit \<times> login_db) checked" where
  "create_login_code r db =
     (if (\<exists>c \<in> set (ld_codes db). vt_tokenHash c = vt_tokenHash r \<or> lc_id c = lc_id r) \<or>
         (\<exists>v \<in> set (email_tokens (ld_auth db)). vt_tokenHash v = vt_tokenHash r)
      then Inl (Db_Error ''P2002'')
      else Inr ((), db\<lparr>ld_codes := ld_codes db @ [r]\<rparr>))"

definition new_login_code ::
  "login_env \<Rightarrow> user_identity \<Rightarrow> string \<Rightarrow> string \<Rightarrow> nat option \<Rightarrow> nat \<Rightarrow> login_code" where
  "new_login_code env identity configUrl userId epoch k =
     \<lparr>vt_type = ''LOGIN_CODE'', vt_email = id_email identity, vt_userKey = id_userKey identity,
      vt_domain = id_domain identity, vt_configUrl = configUrl,
      vt_tokenHash = hashLoginCode env (generateSixDigitCode env k) (id_userKey identity),
      vt_expiresAt = now (le_auth env) + LOGIN_CODE_TTL_MS, vt_usedAt = None, vt_userId = Some userId,
      vt_tokenVersion = epoch, vt_teamInviteId = None, lc_id = fresh_id (tenant_env (le_auth env)) k,
      lc_attemptCount = 0, lc_createdAt = now (le_auth env)\<rparr>"

text \<open>At most three draws; only a clash of a unique index is tried again, outside any transaction.\<close>

fun draw_login_code :: "login_env \<Rightarrow> (nat \<Rightarrow> login_code) \<Rightarrow> nat \<Rightarrow> nat \<Rightarrow> string login_step" where
  "draw_login_code env row k 0 = reading (\<lambda>_. refuse_with INTERNAL 500 ''LOGIN_CODE_COLLISION'')"
| "draw_login_code env row k (Suc left) = (\<lambda>db.
     case attempt (create_login_code (row k)) db of
       (Inr _, db1) \<Rightarrow> (Inr (generateSixDigitCode env k), db1)
     | (Inl e, db1) \<Rightarrow>
         (if e = Db_Error ''P2002'' then draw_login_code env row (Suc k) left db1 else (Inl e, db1)))"

text \<open>No account, no mail, and no error either: the caller must not learn which addresses exist.\<close>

definition issueLoginCode :: "login_env \<Rightarrow> client_config \<Rightarrow> string \<Rightarrow> string \<Rightarrow> unit login_step" where
  "issueLoginCode env c configUrl rawEmail =
     (if \<not> database_url (tenant_env (le_auth env)) then return () else
      bind_step (reading (\<lambda>_. buildUserIdentity c rawEmail)) (\<lambda>identity.
      bind_step (reading (\<lambda>db. Inr (findUserByKey (ld_auth db) (id_userKey identity)))) (\<lambda>found.
      case found of
        None \<Rightarrow> return ()
      | Some user \<Rightarrow>
          bind_step (reading (\<lambda>db. Inr (tokenVersion (ld_auth db) (u_id user)))) (\<lambda>epoch.
          bind_step (writing (supersede_codes (id_userKey identity) (now (le_auth env)))) (\<lambda>_.
          bind_step (draw_login_code env (new_login_code env identity configUrl (u_id user) epoch) 0 3) (\<lambda>code.
          writing (\<lambda>db. db\<lparr>ld_mail := ld_mail db @ [(id_email identity, code)]\<rparr>)))))))"

subsection \<open>Verifying\<close>

abbreviation authentication_failed :: "'a checked" where
  "authentication_failed \<equiv> refuse_with UNAUTHORIZED 401 ''AUTHENTICATION_FAILED''"

definition live_code :: "string \<Rightarrow> login_code \<Rightarrow> bool" where
  "live_code userKey c \<longleftrightarrow> unused_code userKey c \<and> lc_attemptCount c < LOGIN_CODE_MAX_ATTEMPTS"

definition newest_code :: "string \<Rightarrow> login_db \<Rightarrow> login_code option" where
  "newest_code userKey db =
     (case js_sort (\<lambda>a b. lc_createdAt b - lc_createdAt a) (filter (live_code userKey) (ld_codes db)) of
        [] \<Rightarrow> None | c # _ \<Rightarrow> Some c)"

definition lock_code_epoch :: "login_env \<Rightarrow> login_code \<Rightarrow> token_epoch option login_step" where
  "lock_code_epoch env c db =
     (let db1 = (if vt_userId c \<noteq> None then le_await env db else db)
      in (Inr (resolveVerificationTokenEpoch (ld_auth db1) (verification_token.truncate c)), db1))"

text \<open>The condition both conditional updates share: the row as it was read, still unused and unexpired.\<close>

definition same_open_code :: "login_env \<Rightarrow> login_code \<Rightarrow> nat \<Rightarrow> string \<Rightarrow> login_code \<Rightarrow> bool" where
  "same_open_code env token credentialEpoch userId c \<longleftrightarrow>
     lc_id c = lc_id token \<and> vt_tokenVersion c = Some credentialEpoch \<and> vt_userId c = Some userId \<and>
     vt_usedAt c = None \<and> now (le_auth env) < vt_expiresAt c"

definition count_attempt :: "login_env \<Rightarrow> login_code \<Rightarrow> nat \<Rightarrow> string \<Rightarrow> login_db \<Rightarrow> login_db" where
  "count_attempt env token credentialEpoch userId =
     update_codes (same_open_code env token credentialEpoch userId)
       (\<lambda>c. c\<lparr>lc_attemptCount := lc_attemptCount c + 1\<rparr>)"

definition claim_login_code :: "login_env \<Rightarrow> login_code \<Rightarrow> nat \<Rightarrow> string \<Rightarrow> unit login_step" where
  "claim_login_code env token credentialEpoch userId db =
     (let open_row = same_open_code env token credentialEpoch userId;
          db1 = update_codes open_row (\<lambda>c. c\<lparr>vt_usedAt := Some (now (le_auth env))\<rparr>) db
      in if count_where open_row (ld_codes db) \<noteq> 1 then (authentication_failed, db1) else (Inr (), db1))"

definition present_code :: "login_env \<Rightarrow> string \<Rightarrow> string \<Rightarrow> (string \<times> nat) login_step" where
  "present_code env userKey code =
     bind_step (reading (\<lambda>db. case newest_code userKey db of
        None \<Rightarrow> authentication_failed | Some token \<Rightarrow> Inr token)) (\<lambda>token.
     bind_step (lock_code_epoch env token) (\<lambda>epoch.
     case epoch of
       Some (Existing_Account credentialEpoch userId) \<Rightarrow>
         if vt_expiresAt token \<le> now (le_auth env) then reading (\<lambda>_. authentication_failed)
         else if hashLoginCode env code userKey \<noteq> vt_tokenHash token then
           bind_step (writing (count_attempt env token credentialEpoch userId)) (\<lambda>_.
           reading (\<lambda>_. authentication_failed))
         else
           bind_step (claim_login_code env token credentialEpoch userId) (\<lambda>_.
           return (userId, credentialEpoch))
     | _ \<Rightarrow> reading (\<lambda>_. authentication_failed)))"

definition verifyLoginCode ::
  "db_client \<Rightarrow> login_env \<Rightarrow> client_config \<Rightarrow> string \<Rightarrow> string \<Rightarrow> (string \<times> nat) login_step" where
  "verifyLoginCode client env c rawEmail code =
     (if \<not> database_url (tenant_env (le_auth env)) then reading (\<lambda>_. authentication_failed) else
      bind_step (reading (\<lambda>_. buildUserIdentity c rawEmail)) (\<lambda>identity.
      runInTransaction client (le_await env) (present_code env (id_userKey identity) code)))"

subsection \<open>Claiming the chooser session\<close>

definition hashLoginSessionJti :: "login_env \<Rightarrow> string \<Rightarrow> string \<Rightarrow> string" where
  "hashLoginSessionJti env domain jti = sha256_hex (le_auth env) (domain @ CHR 0x00 # jti)"

definition MAX_DATE_MS :: int where
  "MAX_DATE_MS = 8640000000000000"

definition consumeLoginSession :: "login_env \<Rightarrow> string \<Rightarrow> string \<Rightarrow> int \<Rightarrow> unit login_step" where
  "consumeLoginSession env domain jti expiresAtEpochSeconds =
     (let expiry = expiresAtEpochSeconds * 1000; jtiHash = hashLoginSessionJti env domain jti in
      bind_step (reading (\<lambda>_.
        if domain = [] \<or> jti = [] \<or> \<bar>expiresAtEpochSeconds\<bar> > 9007199254740991 \<or>
           \<bar>expiry\<bar> > MAX_DATE_MS \<or> expiry \<le> now (le_auth env)
        then authentication_failed else Inr ())) (\<lambda>_.
      attempt (\<lambda>db.
        if \<exists>u \<in> set (ld_session_uses db). su_domain u = domain \<and> su_jtiHash u = jtiHash
        then authentication_failed
        else Inr ((), db\<lparr>ld_session_uses := ld_session_uses db @
          [\<lparr>su_domain = domain, su_jtiHash = jtiHash, su_expiresAt = expiry\<rparr>]\<rparr>))))"

end
