(* ===== verification/Login_Properties.thy ===== *)
theory Login_Properties
  imports Login_Codes Auth_Demo
begin

section \<open>Sign-in codes: bound, used once, and how their attempts are counted\<close>

text \<open>
  How sign-in codes age, the histories they live in, single use, the round trip from the mailed code
  to the account, the count of wrong attempts under either kind of database client, and the single
  claim of a chooser session.
\<close>

subsection \<open>How codes age\<close>

definition login_binding where
  "login_binding c = (lc_id c, vt_tokenHash c, vt_userKey c, vt_type c, vt_expiresAt c, vt_userId c,
     vt_tokenVersion c, lc_createdAt c)"

definition login_code_ages :: "login_code \<Rightarrow> login_code \<Rightarrow> bool" where
  "login_code_ages c d \<longleftrightarrow> login_binding d = login_binding c \<and>
     (vt_usedAt c \<noteq> None \<longrightarrow> vt_usedAt d = vt_usedAt c) \<and> lc_attemptCount c \<le> lc_attemptCount d"

definition login_codes_ok :: "login_db \<Rightarrow> bool" where
  "login_codes_ok s \<longleftrightarrow> distinct (map vt_tokenHash (ld_codes s)) \<and> distinct (map lc_id (ld_codes s))"

definition along_logins :: "login_db \<Rightarrow> login_db \<Rightarrow> bool" where
  "along_logins s t \<longleftrightarrow> (login_codes_ok s \<longrightarrow> login_codes_ok t) \<and>
     (\<forall>c \<in> set (ld_codes s). \<exists>d \<in> set (ld_codes t). login_code_ages c d)"

lemma login_code_ages_refl [simp]: "login_code_ages c c"
  by (simp add: login_code_ages_def)

lemma login_code_ages_trans: "login_code_ages c d \<Longrightarrow> login_code_ages d e \<Longrightarrow> login_code_ages c e"
  by (auto simp: login_code_ages_def)

interpretation login_order: store_order along_logins
proof
  show "along_logins s s" for s unfolding along_logins_def using login_code_ages_refl by blast
  show "along_logins s u" if "along_logins s t" "along_logins t u" for s t u
    using that unfolding along_logins_def by (meson login_code_ages_trans)
qed

lemma along_logins_same: "ld_codes t = ld_codes s \<Longrightarrow> along_logins s t"
  using login_order.refl[of s] by (simp add: along_logins_def login_codes_ok_def)

lemma update_codes_along:
  assumes "\<And>c. P c \<Longrightarrow> login_code_ages c (f c)"
  shows "along_logins s (update_codes P f s)"
proof -
  have "map vt_tokenHash (update_where P f (ld_codes s)) = map vt_tokenHash (ld_codes s)"
    "map lc_id (update_where P f (ld_codes s)) = map lc_id (ld_codes s)"
    using assms by (auto simp: map_update_where login_code_ages_def login_binding_def)
  moreover have "\<exists>d \<in> set (update_where P f (ld_codes s)). login_code_ages c d" if "c \<in> set (ld_codes s)" for c
    using that assms by (intro bexI[of _ "if P c then f c else c"]) (auto simp: set_update_where)
  ultimately show ?thesis by (simp add: along_logins_def login_codes_ok_def update_codes_def)
qed

lemma code_writes_along:
  "along_logins s (supersede_codes key n s)"
  "along_logins s (count_attempt env token e u s)"
  "along_logins s (update_codes (same_open_code env token e u) (\<lambda>c. c\<lparr>vt_usedAt := Some n\<rparr>) s)"
  unfolding supersede_codes_def count_attempt_def
  by (rule update_codes_along; simp add: login_code_ages_def login_binding_def unused_code_def same_open_code_def)+

lemma create_login_code_along: "create_login_code r s = Inr (x, t) \<Longrightarrow> along_logins s t"
  by (force simp: create_login_code_def along_logins_def login_codes_ok_def split: if_splits)

lemma draw_login_code_along: "advances along_logins (draw_login_code env row k n)"
proof (induction n arbitrary: k)
  case (Suc n)
  have "along_logins s (snd (draw_login_code env row k (Suc n) s))" for s
  proof (cases "create_login_code (row k) s")
    case (Inl e)
    then show ?thesis using Suc.IH[of "Suc k"]
      by (simp add: attempt_def advances_def login_order.refl)
  next
    case (Inr y)
    then show ?thesis by (cases y) (simp add: attempt_def create_login_code_along)
  qed
  then show ?case by (simp add: advances_def)
qed (simp add: login_order.advances_pure)

lemma login_issue_along: "advances along_logins (issueLoginCode env c url email)"
  unfolding issueLoginCode_def
  by (intro login_order.advances_if login_order.advances_option login_order.advances_bind
      login_order.advances_pure login_order.advances_writing draw_login_code_along code_writes_along
      along_logins_same) simp

definition logins_wait :: "login_env \<Rightarrow> bool" where
  "logins_wait env \<longleftrightarrow> (\<forall>x. along_logins x (le_await env x))"

lemma claim_login_along: "advances along_logins (claim_login_code env token e u)"
  by (simp add: advances_def claim_login_code_def Let_def code_writes_along)

lemma present_along:
  assumes "logins_wait env"
  shows "advances along_logins (present_code env key code)"
proof -
  have lock: "advances along_logins (lock_code_epoch env token)" for token
    using assms by (simp add: advances_def lock_code_epoch_def Let_def logins_wait_def login_order.refl)
  have "advances along_logins (case epoch of
       Some (Existing_Account credentialEpoch userId) \<Rightarrow>
         if vt_expiresAt token \<le> now (le_auth env) then reading (\<lambda>_. authentication_failed)
         else if hashLoginCode env code key \<noteq> vt_tokenHash token then
           bind_step (writing (count_attempt env token credentialEpoch userId)) (\<lambda>_.
           reading (\<lambda>_. authentication_failed))
         else
           bind_step (claim_login_code env token credentialEpoch userId) (\<lambda>_.
           return (userId, credentialEpoch))
     | _ \<Rightarrow> reading (\<lambda>_. authentication_failed))" for epoch and token :: login_code
    by (auto split: option.split token_epoch.split
        intro!: login_order.advances_bind login_order.advances_pure login_order.advances_writing
          code_writes_along claim_login_along)
  then show ?thesis unfolding present_code_def
    by (intro login_order.advances_bind login_order.advances_pure lock)
qed

lemma verify_along:
  assumes "logins_wait env"
  shows "advances along_logins (verifyLoginCode client env c email code)"
proof -
  have "advances along_logins (runInTransaction client (le_await env) (present_code env key code))" for key
    using present_along[OF assms, of key code] assms
    by (auto simp: advances_def runInTransaction_def logins_wait_def split: db_client.split prod.split sum.split)
      (metis snd_conv)+
  then show ?thesis unfolding verifyLoginCode_def
    by (intro login_order.advances_if login_order.advances_bind login_order.advances_pure)
qed

subsection \<open>Reading a successful presentation\<close>

lemma resolve_existing:
  assumes "resolveVerificationTokenEpoch db (verification_token.truncate c) = Some (Existing_Account e i)"
  shows "vt_userId c = Some i" "vt_tokenVersion c = Some e" "tokenVersion db i = Some e"
    "\<exists>u. findUser db i = Some u \<and> u_userKey u = vt_userKey c"
  using assms
  by (auto simp: resolveVerificationTokenEpoch_def verification_token.truncate_def split: option.splits if_splits)

lemma newest_codeD: "newest_code key s = Some c \<Longrightarrow> c \<in> set (ld_codes s) \<and> live_code key c"
proof -
  let ?live = "js_sort (\<lambda>a b. lc_createdAt b - lc_createdAt a) (filter (live_code key) (ld_codes s))"
  assume "newest_code key s = Some c"
  then obtain cs where "?live = c # cs" by (auto simp: newest_code_def split: list.splits)
  then have "c \<in> set ?live" by (metis list.set_intros(1))
  then show ?thesis by simp
qed

lemma presentD:
  assumes "present_code env key code s = (Inr g, t)"
  obtains token e u w where "newest_code key s = Some token" "g = (u, e)"
    "w = (if vt_userId token \<noteq> None then le_await env s else s)"
    "resolveVerificationTokenEpoch (ld_auth w) (verification_token.truncate token) = Some (Existing_Account e u)"
    "now (le_auth env) < vt_expiresAt token" "hashLoginCode env code key = vt_tokenHash token"
    "claim_login_code env token e u w = (Inr (), t)"
  using assms
  by (auto simp: present_code_def bind_step_Inr reading_value return_value lock_code_epoch_def Let_def
      split: option.splits token_epoch.splits if_splits)

lemma run_login_Inr: "runInTransaction client settle body s = (Inr x, t) \<longleftrightarrow> body s = (Inr x, t)"
  by (auto simp: runInTransaction_def split: db_client.splits prod.splits sum.splits)

lemma run_login_Inl: "runInTransaction client settle body s = (Inl e, t) \<Longrightarrow> \<exists>u. body s = (Inl e, u)"
  by (auto simp: runInTransaction_def split: db_client.splits prod.splits sum.splits)

lemma verifyD:
  assumes "verifyLoginCode client env c email code s = (Inr g, t)"
  obtains identity where "buildUserIdentity c email = Inr identity"
    "present_code env (id_userKey identity) code s = (Inr g, t)"
  using assms
  by (auto simp: verifyLoginCode_def bind_step_Inr reading_value run_login_Inr split: if_splits)

lemma claim_loginD:
  assumes "claim_login_code env token e u s = (Inr (), t)"
  shows "count_where (same_open_code env token e u) (ld_codes s) = 1"
    "t = update_codes (same_open_code env token e u) (\<lambda>c. c\<lparr>vt_usedAt := Some (now (le_auth env))\<rparr>) s"
  using assms by (auto simp: claim_login_code_def Let_def split: if_splits)

text \<open>Every refusal after the identity is built is the same one.\<close>

lemma present_fails: "present_code env key code s = (Inl e, t) \<Longrightarrow> (Inl e :: unit checked) = authentication_failed"
  by (auto simp: present_code_def bind_step_Inl reading_value return_value writing_value lock_code_epoch_def
      claim_login_code_def Let_def split: option.splits token_epoch.splits if_splits)

lemma verify_fails:
  assumes "buildUserIdentity c email = Inr identity"
    and "\<And>g t. verifyLoginCode client env c email code s \<noteq> (Inr g, t)"
  shows "fst (verifyLoginCode client env c email code s) = authentication_failed"
proof (cases "verifyLoginCode client env c email code s")
  case (Pair r t)
  with assms(2) obtain e where e: "r = Inl e" by (cases r) auto
  with Pair assms(1) have "(\<exists>t. present_code env (id_userKey identity) code s = (Inl e, t)) \<or>
      (Inl e :: unit checked) = authentication_failed"
    by (auto simp: verifyLoginCode_def bind_step_Inl reading_value dest!: run_login_Inl split: if_splits)
  then have "(Inl e :: unit checked) = authentication_failed" using present_fails by blast
  with Pair e show ?thesis by simp
qed

subsection \<open>Histories\<close>

text \<open>Anything else the system does may age the codes; it does not delete them or reopen one.\<close>

inductive login_history :: "login_db \<Rightarrow> login_db \<Rightarrow> bool" where
  start: "login_history s s"
| issue: "login_history s0 s \<Longrightarrow> issueLoginCode env c url email s = (r, t) \<Longrightarrow> login_history s0 t"
| verify: "login_history s0 s \<Longrightarrow> logins_wait env \<Longrightarrow>
    verifyLoginCode client env c email code s = (r, t) \<Longrightarrow> login_history s0 t"
| others: "login_history s0 s \<Longrightarrow> along_logins s t \<Longrightarrow> login_history s0 t"

lemma login_history_along: "login_history s t \<Longrightarrow> along_logins s t"
proof (induction rule: login_history.induct)
  case (start s)
  show ?case by (rule login_order.refl)
next
  case (issue s0 s env c url email r t)
  show ?case using login_order.trans[OF issue.IH advancesD[OF login_issue_along issue.hyps(2)]] .
next
  case (verify s0 s env client c email code r t)
  show ?case using login_order.trans[OF verify.IH advancesD[OF verify_along[OF verify.hyps(2)] verify.hyps(3)]] .
next
  case (others s0 s t)
  show ?case using login_order.trans[OF others.IH others.hyps(2)] .
qed

text \<open>
  C6: A sign-in code works once, and only for the mailbox it was sent to. From an empty code table, over any
  history of issued and presented codes and of other logins, a presentation that succeeds has found a stored code of the
  account the address names, with the right hash, never used, within its attempts and its ten minutes, and it
  answers with that account and the credential epoch the account has at this moment. Whatever is issued, presented or
  changed afterwards, presenting the same code for the address again is refused: the used row keeps its hash, hashes are
  unique, so not even a later draw of the same six digits revives it. Other parts of the program may change the
  accounts and add rows, not reopen a code; a history lies between two runs of the retention job, which deletes
  expired rows and with them the hash that blocks a second draw.
\<close>

theorem login_code_single_use:
  assumes "login_history s0 s" and "ld_codes s0 = []" and "logins_wait env"
    and "verifyLoginCode client env c email code s = (Inr (userId, epoch), t)"
  shows "(\<exists>identity row u. buildUserIdentity c email = Inr identity \<and> row \<in> set (ld_codes s) \<and>
      vt_userKey row = id_userKey identity \<and> vt_tokenHash row = hashLoginCode env code (id_userKey identity) \<and>
      vt_usedAt row = None \<and> lc_attemptCount row < LOGIN_CODE_MAX_ATTEMPTS \<and>
      now (le_auth env) < vt_expiresAt row \<and> vt_userId row = Some userId \<and> vt_tokenVersion row = Some epoch \<and>
      findUser (ld_auth t) userId = Some u \<and> u_userKey u = id_userKey identity \<and>
      tokenVersion (ld_auth t) userId = Some epoch) \<and>
    (\<forall>s2 env2 client2. login_history t s2 \<longrightarrow> (\<forall>k. hashLoginCode env2 code k = hashLoginCode env code k) \<longrightarrow>
      fst (verifyLoginCode client2 env2 c email code s2) = authentication_failed)"
proof (intro conjI allI impI)
  obtain identity where identity: "buildUserIdentity c email = Inr identity" and
    present: "present_code env (id_userKey identity) code s = (Inr (userId, epoch), t)"
    using assms(4) by (rule verifyD)
  then obtain token w where token: "newest_code (id_userKey identity) s = Some token" and
    w: "w = (if vt_userId token \<noteq> None then le_await env s else s)" and
    acct: "resolveVerificationTokenEpoch (ld_auth w) (verification_token.truncate token) = Some (Existing_Account epoch userId)" and
    fresh: "now (le_auth env) < vt_expiresAt token" and
    hash: "hashLoginCode env code (id_userKey identity) = vt_tokenHash token" and
    claim: "claim_login_code env token epoch userId w = (Inr (), t)"
    by (elim presentD) simp
  note row = newest_codeD[OF token] and own = resolve_existing[OF acct] and marked = claim_loginD[OF claim]
  have auth: "ld_auth t = ld_auth w" by (simp add: marked(2) update_codes_def)
  show "\<exists>identity row u. buildUserIdentity c email = Inr identity \<and> row \<in> set (ld_codes s) \<and>
      vt_userKey row = id_userKey identity \<and> vt_tokenHash row = hashLoginCode env code (id_userKey identity) \<and>
      vt_usedAt row = None \<and> lc_attemptCount row < LOGIN_CODE_MAX_ATTEMPTS \<and>
      now (le_auth env) < vt_expiresAt row \<and> vt_userId row = Some userId \<and> vt_tokenVersion row = Some epoch \<and>
      findUser (ld_auth t) userId = Some u \<and> u_userKey u = id_userKey identity \<and>
      tokenVersion (ld_auth t) userId = Some epoch"
    using identity row own fresh hash
    by (intro exI[of _ identity] exI[of _ token]) (auto simp: auth live_code_def unused_code_def)
  have sw: "along_logins s w"
    using assms(3) w login_order.refl by (simp add: logins_wait_def)
  then obtain d where d: "d \<in> set (ld_codes w)" "login_code_ages token d"
    using row unfolding along_logins_def by blast
  have used: "\<exists>d \<in> set (ld_codes t). vt_tokenHash d = vt_tokenHash token \<and> vt_usedAt d \<noteq> None"
    using d own(1,2) fresh
    by (intro bexI[of _ "if same_open_code env token epoch userId d
          then d\<lparr>vt_usedAt := Some (now (le_auth env))\<rparr> else d"])
      (auto simp: marked(2) update_codes_def set_update_where login_code_ages_def login_binding_def
        same_open_code_def)
  have "along_logins s0 t"
    using login_history_along[OF assms(1)] sw advancesD[OF claim_login_along claim] login_order.trans by blast
  then have ok: "login_codes_ok t" using assms(2) by (simp add: along_logins_def login_codes_ok_def)
  fix s2 :: login_db and env2 client2
  assume later: "login_history t s2" and same: "\<forall>k. hashLoginCode env2 code k = hashLoginCode env code k"
  note age = login_history_along[OF later]
  from used age obtain d2 where d2: "d2 \<in> set (ld_codes s2)" "vt_tokenHash d2 = vt_tokenHash token" "vt_usedAt d2 \<noteq> None"
    unfolding along_logins_def login_code_ages_def login_binding_def by fastforce
  have unique: "distinct (map vt_tokenHash (ld_codes s2))"
    using ok age by (simp add: along_logins_def login_codes_ok_def)
  show "fst (verifyLoginCode client2 env2 c email code s2) = authentication_failed"
  proof (rule verify_fails[OF identity])
    fix g and t2 :: login_db
    show "verifyLoginCode client2 env2 c email code s2 \<noteq> (Inr g, t2)"
    proof
      assume "verifyLoginCode client2 env2 c email code s2 = (Inr g, t2)"
      then obtain token2 where "newest_code (id_userKey identity) s2 = Some token2"
        "hashLoginCode env2 code (id_userKey identity) = vt_tokenHash token2"
        using identity by (auto elim!: verifyD presentD)
      with hash same have "token2 \<in> set (ld_codes s2)" "vt_tokenHash token2 = vt_tokenHash d2" "vt_usedAt token2 = None"
        using newest_codeD[of "id_userKey identity" s2 token2] d2(2) by (auto simp: live_code_def unused_code_def)
      moreover from this have "token2 = d2" using unique d2(1) by (auto simp: distinct_map inj_on_def)
      ultimately show False using d2(3) by simp
    qed
  qed
qed

definition demo_login_env :: "string \<Rightarrow> int \<Rightarrow> login_env" where
  "demo_login_env tag t = \<lparr>le_auth = demo_auth_env tag t, le_draw = (\<lambda>_. 7), le_await = id\<rparr>"

definition demo_login :: login_db where
  "demo_login = \<lparr>ld_auth = demo_auth, ld_codes = [], ld_mail = [], ld_session_uses = []\<rparr>"

definition demo_mailed :: "(thrown + unit) \<times> login_db" where
  "demo_mailed = issueLoginCode (demo_login_env ''c'' 100) (default_config ''shop'') ''cfg'' '' Bob@Mail.test'' demo_login"

definition demo_signed_in :: "(thrown + string \<times> nat) \<times> login_db" where
  "demo_signed_in = verifyLoginCode Full_Client (demo_login_env ''d'' 200) (default_config ''shop'') ''bob@mail.test''
     ''000007'' (snd demo_mailed)"

lemma demo_login_results:
  "ld_mail (snd demo_mailed) = [(''bob@mail.test'', ''000007'')]" "fst demo_signed_in = Inr (''bob'', 0)"
  by code_simp+

lemma demo_mailed_ok: "fst demo_mailed = Inr ()"
  by code_simp

lemma demo_login_history: "login_history demo_login (snd demo_mailed)"
  unfolding demo_mailed_def by (rule login_history.issue[OF login_history.start surjective_pairing])

lemma demo_logins_wait: "logins_wait (demo_login_env tag n)"
  by (simp add: logins_wait_def demo_login_env_def login_order.refl)

theorem login_code_single_use_witness:
  "fst demo_signed_in = Inr (''bob'', 0) \<and> fst (verifyLoginCode Full_Client (demo_login_env ''e'' 201)
     (default_config ''shop'') ''bob@mail.test'' ''000007'' (snd demo_signed_in)) = authentication_failed"
proof -
  have signed: "verifyLoginCode Full_Client (demo_login_env ''d'' 200) (default_config ''shop'') ''bob@mail.test''
     ''000007'' (snd demo_mailed) = (Inr (''bob'', 0), snd demo_signed_in)"
    using demo_login_results(2) unfolding demo_signed_in_def by (metis prod.collapse)
  have start: "ld_codes demo_login = []" by (simp add: demo_login_def)
  have hash: "hashLoginCode (demo_login_env ''e'' 201) x k = hashLoginCode (demo_login_env ''d'' 200) x k" for x k
    by (simp add: hashLoginCode_def hashEmailToken_def demo_login_env_def demo_auth_env_def)
  from login_code_single_use[OF demo_login_history start demo_logins_wait signed] hash
  show ?thesis using demo_login_results(2) login_history.start by blast
qed

subsection \<open>Redemption\<close>

lemma draw_login_codeD:
  "draw_login_code env row k n s = (Inr code, t) \<Longrightarrow>
     \<exists>j. code = generateSixDigitCode env j \<and> create_login_code (row j) s = Inr ((), t)"
proof (induction n arbitrary: k)
  case (Suc n)
  show ?case
  proof (cases "create_login_code (row k) s")
    case (Inl e)
    with Suc show ?thesis by (auto simp: attempt_def split: if_splits)
  next
    case (Inr y)
    with Suc.prems show ?thesis by (cases y) (auto simp: attempt_def)
  qed
qed (simp add: reading_def)

lemma six_digits:
  assumes "le_draw env k < 10 ^ 6"
  shows "length (generateSixDigitCode env k) = 6" "all_digits (generateSixDigitCode env k)"
    "dec_nat (generateSixDigitCode env k) = le_draw env k"
proof -
  have "length (digits_of (le_draw env k)) \<le> 6"
  proof (cases "le_draw env k")
    case 0
    then show ?thesis by (simp add: digits_of.simps)
  next
    case (Suc n)
    then show ?thesis using dec_nat_less_length[of "le_draw env k" 6] assms by simp
  qed
  then show "length (generateSixDigitCode env k) = 6" by (simp add: generateSixDigitCode_def)
  show "all_digits (generateSixDigitCode env k)" "dec_nat (generateSixDigitCode env k) = le_draw env k"
    by (simp_all add: generateSixDigitCode_def)
qed

lemma supersede_leaves_none: "filter (live_code key) (ld_codes (supersede_codes key n s)) = []"
proof -
  have "\<not> live_code key (if unused_code key r then r\<lparr>vt_usedAt := Some n\<rparr> else r)" for r
    by (simp add: live_code_def unused_code_def)
  then show ?thesis by (simp add: supersede_codes_def update_codes_def update_where_def filter_map o_def)
qed

lemma login_issueD:
  assumes "issueLoginCode env c url email s = (Inr (), t)" and "database_url (tenant_env (le_auth env))"
    and "buildUserIdentity c email = Inr identity"
    and "findUserByKey (ld_auth s) (id_userKey identity) = Some user"
  obtains j where
    "create_login_code (new_login_code env identity url (u_id user) (tokenVersion (ld_auth s) (u_id user)) j)
       (supersede_codes (id_userKey identity) (now (le_auth env)) s) =
       Inr ((), t\<lparr>ld_mail := ld_mail s\<rparr>)"
    "ld_mail t = ld_mail s @ [(id_email identity, generateSixDigitCode env j)]"
proof -
  let ?row = "new_login_code env identity url (u_id user) (tokenVersion (ld_auth s) (u_id user))"
  let ?s = "supersede_codes (id_userKey identity) (now (le_auth env)) s"
  from assms obtain code w where draw: "draw_login_code env ?row 0 3 ?s = (Inr code, w)" and
    t: "t = w\<lparr>ld_mail := ld_mail w @ [(id_email identity, code)]\<rparr>"
    by (auto simp: issueLoginCode_def bind_step_Inr reading_value writing_value simp del: draw_login_code.simps)
  from draw_login_codeD[OF draw] obtain j where j: "code = generateSixDigitCode env j"
    "create_login_code (?row j) ?s = Inr ((), w)" by blast
  then have "ld_mail w = ld_mail s"
    by (auto simp: create_login_code_def supersede_codes_def update_codes_def split: if_splits)
  with j t show ?thesis by (intro that[of j]) auto
qed

text \<open>
  C24: A mailed code signs in. Issuing a code for an address with an account mails exactly one code of six digits to the
  normalised address, and presenting this code within its ten minutes, through either kind of database client and
  undisturbed, answers with this account and the epoch it had at issuance. Drawing at most three candidates, the
  service may also fail; the statement is about an issuance that succeeded.
\<close>

theorem issued_login_code_verifies:
  assumes "issueLoginCode env c url email s = (Inr (), t)" and "database_url (tenant_env (le_auth env))"
    and "buildUserIdentity c email = Inr identity"
    and "findUserByKey (ld_auth s) (id_userKey identity) = Some user"
    and "tokenVersion (ld_auth s) (u_id user) = Some epoch"
    and "distinct (map u_id (users (tenant (ld_auth s))))" and "\<forall>k. le_draw env k < 10 ^ 6"
  shows "\<exists>code. ld_mail t = ld_mail s @ [(id_email identity, code)] \<and> length code = 6 \<and> all_digits code \<and>
    (\<forall>client env2. le_await env2 = id \<longrightarrow> database_url (tenant_env (le_auth env2)) \<longrightarrow>
       now (le_auth env2) < now (le_auth env) + LOGIN_CODE_TTL_MS \<longrightarrow>
       hashLoginCode env2 code (id_userKey identity) = hashLoginCode env code (id_userKey identity) \<longrightarrow>
       fst (verifyLoginCode client env2 c email code t) = Inr (u_id user, epoch))"
proof -
  let ?key = "id_userKey identity"
  let ?row = "new_login_code env identity url (u_id user) (Some epoch)"
  let ?s = "supersede_codes ?key (now (le_auth env)) s"
  obtain j where create: "create_login_code (?row j) ?s = Inr ((), t\<lparr>ld_mail := ld_mail s\<rparr>)" and
    mail: "ld_mail t = ld_mail s @ [(id_email identity, generateSixDigitCode env j)]"
    using assms(5) by (auto intro: login_issueD[OF assms(1-4)])
  let ?code = "generateSixDigitCode env j"
  from create have t: "t\<lparr>ld_mail := ld_mail s\<rparr> = ?s\<lparr>ld_codes := ld_codes ?s @ [?row j]\<rparr>" and
    new: "\<forall>r \<in> set (ld_codes ?s). lc_id r \<noteq> lc_id (?row j)"
    by (simp_all add: create_login_code_def split: if_splits)
  have codes: "ld_codes t = ld_codes ?s @ [?row j]" using arg_cong[OF t, of ld_codes] by simp
  have auth: "ld_auth t = ld_auth s"
    using arg_cong[OF t, of ld_auth] by (simp add: supersede_codes_def update_codes_def)
  have live: "filter (live_code ?key) (ld_codes t) = [?row j]"
    using supersede_leaves_none[of ?key "now (le_auth env)" s]
    by (simp add: codes new_login_code_def live_code_def unused_code_def LOGIN_CODE_MAX_ATTEMPTS_def)
  then have newest: "newest_code ?key t = Some (?row j)" by (simp add: newest_code_def)
  from assms(4) have user: "user \<in> set (users (tenant (ld_auth s)))" "u_userKey user = ?key"
    by (auto simp: findUserByKey_def dest!: find_Some_set)
  then have found: "findUser (ld_auth s) (u_id user) = Some user"
    using assms(6) by (simp add: findUser_def find_key_Some_iff)
  have acct: "resolveVerificationTokenEpoch (ld_auth t) (verification_token.truncate (?row j)) =
      Some (Existing_Account epoch (u_id user))"
    using found user(2) assms(5)
    by (simp add: auth resolveVerificationTokenEpoch_def verification_token.truncate_def new_login_code_def)
  have "fst (verifyLoginCode client env2 c email ?code t) = Inr (u_id user, epoch)"
    if env2: "le_await env2 = id" "database_url (tenant_env (le_auth env2))"
      "now (le_auth env2) < now (le_auth env) + LOGIN_CODE_TTL_MS"
      "hashLoginCode env2 ?code ?key = hashLoginCode env ?code ?key" for client env2
  proof -
    have open_row: "same_open_code env2 (?row j) epoch (u_id user) r \<longleftrightarrow> lc_id r = lc_id (?row j)"
      if "r = ?row j" for r
      using env2(3) that by (simp add: same_open_code_def new_login_code_def)
    have "count_where (same_open_code env2 (?row j) epoch (u_id user)) (ld_codes ?s) = 0"
      using new by (auto simp: count_where_0_iff same_open_code_def)
    then have one: "count_where (same_open_code env2 (?row j) epoch (u_id user)) (ld_codes t) = 1"
      by (simp add: codes open_row)
    have lock: "lock_code_epoch env2 (?row j) t = (Inr (Some (Existing_Account epoch (u_id user))), t)"
      using acct env2(1) by (simp add: lock_code_epoch_def)
    have bind: "vt_expiresAt (?row j) = now (le_auth env) + LOGIN_CODE_TTL_MS"
      "vt_tokenHash (?row j) = hashLoginCode env ?code ?key"
      by (simp_all add: new_login_code_def)
    have "\<exists>t2. present_code env2 ?key ?code t = (Inr (u_id user, epoch), t2)"
      using env2(3,4) one
      by (simp add: present_code_def bind_step_def reading_def newest lock bind claim_login_code_def return_def)
    then show ?thesis using env2(2) assms(3)
      by (auto simp: verifyLoginCode_def bind_step_def reading_def runInTransaction_def split: db_client.split)
  qed
  then show ?thesis using mail six_digits assms(7) by blast
qed

lemma demo_user: "findUserByKey (ld_auth demo_login) ''bob@mail.test'' = Some (plain_user ''bob'' None)"
  "buildUserIdentity (default_config ''shop'') '' Bob@Mail.test'' =
     Inr \<lparr>id_email = ''bob@mail.test'', id_domain = None, id_userKey = ''bob@mail.test''\<rparr>"
  "tokenVersion (ld_auth demo_login) ''bob'' = Some 0"
  "distinct (map u_id (users (tenant (ld_auth demo_login))))"
  by code_simp+

theorem issued_login_code_verifies_witness:
  "ld_mail (snd demo_mailed) = [(''bob@mail.test'', ''000007'')] \<and>
   fst (verifyLoginCode Transaction_Client (demo_login_env ''d'' 599999) (default_config ''shop'') '' Bob@Mail.test''
     ''000007'' (snd demo_mailed)) = Inr (''bob'', 0)"
proof -
  have issued: "issueLoginCode (demo_login_env ''c'' 100) (default_config ''shop'') ''cfg'' '' Bob@Mail.test'' demo_login =
      (Inr (), snd demo_mailed)"
    by (cases demo_mailed) (use demo_mailed_ok in \<open>simp add: demo_mailed_def\<close>)
  have env: "database_url (tenant_env (le_auth (demo_login_env tag n)))" "le_await (demo_login_env tag n) = id"
    "now (le_auth (demo_login_env tag n)) = n" for tag n
    by (simp_all add: demo_login_env_def demo_auth_env_def demo_env_def)
  have draws: "\<forall>k. le_draw (demo_login_env ''c'' 100) k < 10 ^ 6"
    by (simp add: demo_login_env_def)
  have hash: "hashLoginCode (demo_login_env tag n) x k = hashLoginCode (demo_login_env tag2 m) x k" for x k tag n tag2 m
    by (simp add: hashLoginCode_def hashEmailToken_def demo_login_env_def demo_auth_env_def)
  from issued_login_code_verifies[OF issued env(1) demo_user(2) _ _ demo_user(4) draws] demo_user demo_login_results(1)
  show ?thesis using env hash by (auto simp: plain_user_def LOGIN_CODE_TTL_MS_def demo_login_def)
qed

subsection \<open>Attempts\<close>

text \<open>A series of presentations for one address.\<close>

fun guess :: "db_client \<Rightarrow> client_config \<Rightarrow> string \<Rightarrow> (login_env \<times> string) list \<Rightarrow> login_db \<Rightarrow> login_db" where
  "guess client c email [] s = s"
| "guess client c email ((env, code) # gs) s = guess client c email gs (snd (verifyLoginCode client env c email code s))"

text \<open>A wrong code, presented in time to an account in good standing, while nothing else happens.\<close>

definition wrong_guess :: "string \<Rightarrow> login_code \<Rightarrow> login_env \<times> string \<Rightarrow> bool" where
  "wrong_guess key row g \<longleftrightarrow> le_await (fst g) = id \<and> database_url (tenant_env (le_auth (fst g))) \<and>
     now (le_auth (fst g)) < vt_expiresAt row \<and> hashLoginCode (fst g) (snd g) key \<noteq> vt_tokenHash row"

lemma wrong_guess_counts:
  assumes live: "filter (live_code key) (ld_codes s) = [row]"
    and acct: "resolveVerificationTokenEpoch (ld_auth s) (verification_token.truncate row) = Some (Existing_Account e u)"
    and "wrong_guess key row (env, code)"
  shows "present_code env key code s = (authentication_failed, count_attempt env row e u s)"
proof -
  have "newest_code key s = Some row" by (simp add: newest_code_def live)
  moreover have "lock_code_epoch env row s = (Inr (Some (Existing_Account e u)), s)"
    using assms(3) acct by (simp add: lock_code_epoch_def wrong_guess_def)
  ultimately show ?thesis using assms(3)
    by (simp add: present_code_def bind_step_def reading_def writing_def wrong_guess_def)
qed

lemma attempt_counted:
  assumes live: "filter (live_code key) (ld_codes s) = [row]" and ids: "distinct (map lc_id (ld_codes s))"
    and mine: "\<And>c. c \<in> set (ld_codes s) \<Longrightarrow> same_open_code env row e u c \<longleftrightarrow> c = row"
  shows "filter (live_code key) (ld_codes (count_attempt env row e u s)) =
    (if Suc (lc_attemptCount row) < LOGIN_CODE_MAX_ATTEMPTS
     then [row\<lparr>lc_attemptCount := Suc (lc_attemptCount row)\<rparr>] else [])"
proof -
  let ?bump = "\<lambda>c. if c = row then row\<lparr>lc_attemptCount := Suc (lc_attemptCount row)\<rparr> else c"
  let ?room = "Suc (lc_attemptCount row) < LOGIN_CODE_MAX_ATTEMPTS"
  have "row \<in> set (filter (live_code key) (ld_codes s))" by (simp only: live list.set_intros)
  then have row: "live_code key row" by simp
  have "update_where (same_open_code env row e u) (\<lambda>c. c\<lparr>lc_attemptCount := lc_attemptCount c + 1\<rparr>) (ld_codes s) =
      map ?bump (ld_codes s)"
    unfolding update_where_def using mine by (intro map_cong) simp_all
  then have codes: "ld_codes (count_attempt env row e u s) = map ?bump (ld_codes s)"
    by (simp add: count_attempt_def update_codes_def)
  have "live_code key (?bump c) \<longleftrightarrow> live_code key c \<and> (c = row \<longrightarrow> ?room)" for c
    using row by (simp add: live_code_def unused_code_def)
  then have "filter (live_code key) (map ?bump (ld_codes s)) =
      map ?bump (filter (\<lambda>c. c = row \<longrightarrow> ?room) (filter (live_code key) (ld_codes s)))"
    by (simp add: filter_map o_def conj_commute)
  then show ?thesis by (simp add: codes live)
qed

lemma wrong_guesses_kill:
  assumes "buildUserIdentity c email = Inr identity"
    and "filter (live_code (id_userKey identity)) (ld_codes s) = [row]" and "distinct (map lc_id (ld_codes s))"
    and "resolveVerificationTokenEpoch (ld_auth s) (verification_token.truncate row) = Some (Existing_Account e u)"
    and "list_all (wrong_guess (id_userKey identity) row) gs"
    and "LOGIN_CODE_MAX_ATTEMPTS \<le> lc_attemptCount row + length gs"
  shows "newest_code (id_userKey identity) (guess Transaction_Client c email gs s) = None"
  using assms(2-)
proof (induction gs arbitrary: s row)
  case Nil
  then have "row \<in> set (filter (live_code (id_userKey identity)) (ld_codes s))" by (simp only: list.set_intros)
  then show ?case using Nil.prems(5) by (simp add: live_code_def)
next
  case (Cons g gs)
  obtain env code where g: "g = (env, code)" by (cases g)
  let ?key = "id_userKey identity" and ?t = "count_attempt env row e u s"
  let ?row = "row\<lparr>lc_attemptCount := Suc (lc_attemptCount row)\<rparr>"
  from Cons.prems g have wrong: "wrong_guess ?key row (env, code)" by simp
  from wrong have "verifyLoginCode Transaction_Client env c email code s = (authentication_failed, ?t)"
    using wrong_guess_counts[OF Cons.prems(1,3) wrong] assms(1)
    by (simp add: verifyLoginCode_def bind_step_def reading_def runInTransaction_def wrong_guess_def)
  then have step: "guess Transaction_Client c email (g # gs) s = guess Transaction_Client c email gs ?t"
    by (simp add: g)
  have "row \<in> set (filter (live_code ?key) (ld_codes s))" by (simp only: Cons.prems(1) list.set_intros)
  then have row: "row \<in> set (ld_codes s)" "vt_usedAt row = None" by (auto simp: live_code_def unused_code_def)
  have "same_open_code env row e u r \<longleftrightarrow> r = row" if "r \<in> set (ld_codes s)" for r
    using that row Cons.prems(2) resolve_existing(1,2)[OF Cons.prems(3)] wrong
    by (auto simp: same_open_code_def wrong_guess_def distinct_map inj_on_def)
  note counted = attempt_counted[OF Cons.prems(1,2) this]
  have auth: "ld_auth ?t = ld_auth s" by (simp add: count_attempt_def update_codes_def)
  have ids: "distinct (map lc_id (ld_codes ?t))"
    using Cons.prems(2) by (simp add: count_attempt_def update_codes_def map_update_where)
  show ?case
  proof (cases "Suc (lc_attemptCount row) < LOGIN_CODE_MAX_ATTEMPTS")
    case True
    have "newest_code ?key (guess Transaction_Client c email gs ?t) = None"
    proof (rule Cons.IH)
      show "filter (live_code ?key) (ld_codes ?t) = [?row]" using counted True by simp
      show "distinct (map lc_id (ld_codes ?t))" by (rule ids)
      show "resolveVerificationTokenEpoch (ld_auth ?t) (verification_token.truncate ?row) = Some (Existing_Account e u)"
        using Cons.prems(3) by (simp add: auth verification_token.truncate_def)
      show "list_all (wrong_guess ?key ?row) gs" using Cons.prems(4) by (auto simp: wrong_guess_def list_all_iff)
      show "LOGIN_CODE_MAX_ATTEMPTS \<le> lc_attemptCount ?row + length gs" using Cons.prems(5) by simp
    qed
    then show ?thesis by (simp add: step)
  next
    case False
    have "newest_code ?key ?t = None" using counted False by (simp add: newest_code_def)
    then have "guess Transaction_Client c email gs ?t = ?t"
    proof (induction gs)
      case (Cons g gs)
      then show ?case using assms(1)
        by (cases g) (simp add: verifyLoginCode_def bind_step_def reading_def runInTransaction_def present_code_def)
    qed simp
    with \<open>newest_code ?key ?t = None\<close> show ?thesis by (simp add: step)
  qed
qed

text \<open>
  C22: The cap on guesses holds only inside a transaction of the caller. Let one live code be open and present wrong codes
  until five are counted. If the statements share the transaction of the caller, the code is dead: every later
  presentation fails, the right one included. If the service opens the transaction itself, as it does for the client the
  route hands it, each refusal rolls the count back, and the outcome of every later presentation is what it
  would have been without any guess.
\<close>

theorem attempt_cap_follows_the_client:
  assumes "buildUserIdentity c email = Inr identity"
    and "filter (live_code (id_userKey identity)) (ld_codes s) = [row]" and "distinct (map lc_id (ld_codes s))"
    and "resolveVerificationTokenEpoch (ld_auth s) (verification_token.truncate row) = Some (Existing_Account e u)"
    and "list_all (wrong_guess (id_userKey identity) row) gs"
    and "LOGIN_CODE_MAX_ATTEMPTS \<le> lc_attemptCount row + length gs"
  shows "fst (verifyLoginCode Transaction_Client env c email code (guess Transaction_Client c email gs s)) =
      authentication_failed \<and>
    verifyLoginCode Full_Client env c email code (guess Full_Client c email gs s) =
      verifyLoginCode Full_Client env c email code s"
proof
  show "fst (verifyLoginCode Transaction_Client env c email code (guess Transaction_Client c email gs s)) =
      authentication_failed"
    using wrong_guesses_kill[OF assms] assms(1)
    by (simp add: verifyLoginCode_def bind_step_def reading_def runInTransaction_def present_code_def)
  have "guess Full_Client c email gs s = s"
    using assms(5)
  proof (induction gs)
    case (Cons g gs)
    obtain env code where g: "g = (env, code)" by (cases g)
    with Cons.prems have wrong: "wrong_guess (id_userKey identity) row (env, code)" by simp
    from wrong_guess_counts[OF assms(2,4) this] wrong assms(1)
    have "snd (verifyLoginCode Full_Client env c email code s) = s"
      by (simp add: verifyLoginCode_def bind_step_def reading_def runInTransaction_def wrong_guess_def)
    then show ?case using Cons by (simp add: g)
  qed simp
  then show "verifyLoginCode Full_Client env c email code (guess Full_Client c email gs s) =
      verifyLoginCode Full_Client env c email code s" by simp
qed

definition demo_guesses :: "(login_env \<times> string) list" where
  "demo_guesses = replicate 5 (demo_login_env ''g'' 150, ''000008'')"

definition demo_code :: login_code where
  "demo_code = new_login_code (demo_login_env ''c'' 100) \<lparr>id_email = ''bob@mail.test'', id_domain = None,
     id_userKey = ''bob@mail.test''\<rparr> ''cfg'' ''bob'' (Some 0) 0"

lemma demo_guess_facts:
  "filter (live_code ''bob@mail.test'') (ld_codes (snd demo_mailed)) = [demo_code]"
  "map lc_id (ld_codes (snd demo_mailed)) = [''c'']"
  "resolveVerificationTokenEpoch (ld_auth (snd demo_mailed)) (verification_token.truncate demo_code) =
     Some (Existing_Account 0 ''bob'')"
  "buildUserIdentity (default_config ''shop'') ''bob@mail.test'' =
     Inr \<lparr>id_email = ''bob@mail.test'', id_domain = None, id_userKey = ''bob@mail.test''\<rparr>"
  "vt_expiresAt demo_code = 600100" "lc_attemptCount demo_code = 0"
  "vt_tokenHash demo_code = ''#000007:bob@mail.test.pep''"
  "hashLoginCode (demo_login_env ''g'' 150) ''000008'' ''bob@mail.test'' = ''#000008:bob@mail.test.pep''"
  by code_simp+

text \<open>Five wrong codes, then the right one: the shared transaction refuses it, the full client does not.\<close>

theorem attempt_cap_follows_the_client_witness:
  "fst (verifyLoginCode Transaction_Client (demo_login_env ''d'' 200) (default_config ''shop'') ''bob@mail.test''
     ''000007'' (guess Transaction_Client (default_config ''shop'') ''bob@mail.test'' demo_guesses (snd demo_mailed))) =
     authentication_failed \<and>
   fst (verifyLoginCode Full_Client (demo_login_env ''d'' 200) (default_config ''shop'') ''bob@mail.test''
     ''000007'' (guess Full_Client (default_config ''shop'') ''bob@mail.test'' demo_guesses (snd demo_mailed))) =
     Inr (''bob'', 0)"
proof -
  have wrong: "list_all (wrong_guess ''bob@mail.test'' demo_code) demo_guesses"
    using demo_guess_facts(5,7,8)
    by (simp add: demo_guesses_def list_all_iff wrong_guess_def)
      (simp add: demo_login_env_def demo_auth_env_def demo_env_def)
  from attempt_cap_follows_the_client[OF demo_guess_facts(4), of "snd demo_mailed" demo_code 0 "''bob''" demo_guesses]
  show ?thesis using demo_guess_facts(1-3,6) wrong demo_login_results(2)
    by (simp add: demo_signed_in_def demo_guesses_def LOGIN_CODE_MAX_ATTEMPTS_def)
qed

subsection \<open>The chooser session\<close>

lemma login_session_claimed_once:
  assumes "consumeLoginSession env domain jti exp s = (Inr (), t)"
    and "set (ld_session_uses t) \<subseteq> set (ld_session_uses t2)"
    and "sha256_hex (le_auth env2) = sha256_hex (le_auth env)"
  shows "consumeLoginSession env2 domain jti exp2 t2 = (authentication_failed, t2)"
proof -
  let ?use = "\<lparr>su_domain = domain, su_jtiHash = hashLoginSessionJti env domain jti, su_expiresAt = exp * 1000\<rparr>"
  have "?use \<in> set (ld_session_uses t)"
    using assms(1)
    by (auto simp: consumeLoginSession_def Let_def bind_step_Inr reading_value attempt_value split: if_splits)
  with assms(2) have "?use \<in> set (ld_session_uses t2)" by blast
  moreover have "hashLoginSessionJti env2 domain jti = hashLoginSessionJti env domain jti"
    using assms(3) by (simp add: hashLoginSessionJti_def)
  ultimately have "\<exists>u \<in> set (ld_session_uses t2). su_domain u = domain \<and> su_jtiHash u = hashLoginSessionJti env2 domain jti"
    by force
  then show ?thesis
    by (auto simp: consumeLoginSession_def Let_def bind_step_def reading_def attempt_def split: if_splits)
qed

end
