(* ===== verification/Ip_Text.thy ===== *)
theory Ip_Text
  imports Decimal_Digits
begin

section \<open>Addresses as text\<close>

text \<open>
  What the address parsers of \<^verbatim>\<open>utils/ssrf.ts\<close> and \<^verbatim>\<open>ban-policy.service.ts\<close> share:
  joining and splitting at a separator, one decimal octet (the pattern of one to three digits, at
  most 255), hexadecimal groups, and the number a sequence of groups denotes.
\<close>

subsection \<open>Joining and splitting\<close>

fun joined :: "char \<Rightarrow> string list \<Rightarrow> string" where
  "joined sep [] = []"
| "joined sep [p] = p"
| "joined sep (p # q # ps) = p @ sep # joined sep (q # ps)"

lemma split_joined:
  "ps \<noteq> [] \<Longrightarrow> \<forall>p \<in> set ps. sep \<notin> set p \<Longrightarrow> split_on sep (joined sep ps) = ps"
  by (induction sep ps rule: joined.induct) (simp_all add: split_on_no_sep split_on_append)

lemma joined_eq_Nil: "\<forall>p \<in> set ps. p \<noteq> [] \<Longrightarrow> joined sep ps = [] \<longleftrightarrow> ps = []"
  by (induction sep ps rule: joined.induct) auto

lemma set_joined: "set (joined sep ps) \<subseteq> insert sep (\<Union> (set ` set ps))"
  by (induction sep ps rule: joined.induct) auto

text \<open>\<open>s.split('::')\<close>.\<close>

fun split_pairs :: "char \<Rightarrow> string \<Rightarrow> string list" where
  "split_pairs c (a # b # s) =
     (if a = c \<and> b = c then [] # split_pairs c s
      else (case split_pairs c (b # s) of [] \<Rightarrow> [[a]] | p # ps \<Rightarrow> (a # p) # ps))"
| "split_pairs c s = [s]"

lemma split_pairs_nonempty [simp]: "split_pairs c s \<noteq> []"
  by (induction c s rule: split_pairs.induct) (auto split: list.splits)

text \<open>A text without two separators in a row that does not end in one.\<close>

fun unpaired :: "char \<Rightarrow> string \<Rightarrow> bool" where
  "unpaired c [] = True"
| "unpaired c [a] = (a \<noteq> c)"
| "unpaired c (a # b # s) = (\<not> (a = c \<and> b = c) \<and> unpaired c (b # s))"

lemma split_pairs_unpaired: "unpaired c s \<Longrightarrow> split_pairs c s = [s]"
  by (induction c s rule: unpaired.induct) auto

lemma split_pairs_append: "unpaired c s \<Longrightarrow> split_pairs c (s @ c # c # t) = s # split_pairs c t"
  by (induction c s rule: unpaired.induct) auto

lemma unpaired_free: "c \<notin> set s \<Longrightarrow> unpaired c s"
  by (induction c s rule: unpaired.induct) auto

lemma unpaired_join: "c \<notin> set p \<Longrightarrow> p \<noteq> [] \<Longrightarrow> s \<noteq> [] \<Longrightarrow> hd s \<noteq> c \<Longrightarrow> unpaired c s \<Longrightarrow> unpaired c (p @ c # s)"
proof (induction p)
  case (Cons a p)
  then show ?case by (cases p; cases s) auto
qed simp

lemma unpaired_joined: "\<forall>p \<in> set ps. p \<noteq> [] \<and> c \<notin> set p \<Longrightarrow> unpaired c (joined c ps)"
proof (induction c ps rule: joined.induct)
  case (3 c p q ps)
  have "joined c (q # ps) \<noteq> []" using 3(2) joined_eq_Nil[of "q # ps" c] by simp
  moreover have "hd (joined c (q # ps)) \<noteq> c"
    using 3(2) by (cases ps) (auto simp: neq_Nil_conv)
  ultimately show ?case using 3 by (simp add: unpaired_join)
qed (simp_all add: unpaired_free)

subsection \<open>Octets\<close>

definition ipv4_octet :: "string \<Rightarrow> nat option" where
  "ipv4_octet p =
     (if p \<noteq> [] \<and> length p \<le> 3 \<and> all_digits p \<and> dec_nat p \<le> 255 then Some (dec_nat p) else None)"

fun all_some :: "'a option list \<Rightarrow> 'a list option" where
  "all_some [] = Some []"
| "all_some (x # xs) = (case x of None \<Rightarrow> None | Some y \<Rightarrow> map_option (Cons y) (all_some xs))"

lemma all_some_map: "(\<And>x. x \<in> set xs \<Longrightarrow> f x = Some (g x)) \<Longrightarrow> all_some (map f xs) = Some (map g xs)"
  by (induction xs) simp_all

definition ipv4_octets :: "string \<Rightarrow> nat list option" where
  "ipv4_octets s =
     (let parts = split_on (CHR ''.'') s in if length parts \<noteq> 4 then None else all_some (map ipv4_octet parts))"

definition dotted :: "nat list \<Rightarrow> string" where
  "dotted ns = joined (CHR ''.'') (map digits_of ns)"

lemma digits_no_char: "\<not> is_digit c \<Longrightarrow> c \<notin> set (digits_of n)"
  using all_digits_of[of n] by (auto simp: all_digits_def list_all_iff)

lemma octet_digits: "n \<le> 255 \<Longrightarrow> ipv4_octet (digits_of n) = Some n"
proof -
  assume n: "n \<le> 255"
  have "length (digits_of n) \<le> 3"
  proof (cases "n = 0")
    case True
    then show ?thesis by (simp add: digits_of.simps)
  next
    case False
    then show ?thesis using dec_nat_less_length[of n 3] n by simp
  qed
  with n show ?thesis by (simp add: ipv4_octet_def)
qed

lemma octets_dotted:
  assumes "length ns = 4" and "\<forall>n \<in> set ns. n \<le> 255"
  shows "ipv4_octets (dotted ns) = Some ns"
proof -
  have "split_on (CHR ''.'') (dotted ns) = map digits_of ns"
    unfolding dotted_def using assms(1) by (intro split_joined) (auto simp: digits_no_char)
  moreover have "all_some (map ipv4_octet (map digits_of ns)) = Some ns"
    using all_some_map[of ns "ipv4_octet \<circ> digits_of" id] assms(2) by (simp add: octet_digits)
  ultimately show ?thesis using assms(1) by (simp add: ipv4_octets_def)
qed

lemma ipv4_octetsD: "ipv4_octets s = Some ns \<Longrightarrow> length ns = 4 \<and> (\<forall>n \<in> set ns. n \<le> 255)"
proof -
  have "all_some xs = Some ys \<Longrightarrow> length ys = length xs \<and> (\<forall>y \<in> set ys. Some y \<in> set xs)" for xs :: "nat option list" and ys
    by (induction xs arbitrary: ys) (auto split: option.splits)
  then show "ipv4_octets s = Some ns \<Longrightarrow> length ns = 4 \<and> (\<forall>n \<in> set ns. n \<le> 255)"
    by (fastforce simp: ipv4_octets_def Let_def ipv4_octet_def split: if_splits)
qed

subsection \<open>Groups and the numbers they denote\<close>

definition number_in :: "nat \<Rightarrow> nat list \<Rightarrow> nat" where
  "number_in base ns = foldl (\<lambda>a n. a * base + n) 0 ns"

definition hex_value :: "char \<Rightarrow> nat option" where
  "hex_value c =
     (let n = (of_char c :: nat) in
      if is_digit c then Some (n - 48)
      else if 97 \<le> n \<and> n \<le> 102 then Some (n - 87)
      else if 65 \<le> n \<and> n \<le> 70 then Some (n - 55)
      else None)"

definition hex_group :: "string \<Rightarrow> nat option" where
  "hex_group s =
     (if s = [] \<or> 4 < length s then None else map_option (number_in 16) (all_some (map hex_value s)))"

definition lower_hex :: "nat \<Rightarrow> char" where
  "lower_hex n = (if n < 10 then char_of (48 + n) else char_of (87 + n))"

fun hex_text :: "nat \<Rightarrow> string" where
  "hex_text n = (if n < 16 then [lower_hex n] else hex_text (n div 16) @ [lower_hex (n mod 16)])"

declare hex_text.simps [simp del]

lemma number_in_snoc: "number_in b (ns @ [n]) = number_in b ns * b + n"
  by (simp add: number_in_def)

lemma number_in_append: "number_in b (ns @ ms) = number_in b ns * b ^ length ms + number_in b ms"
proof (induction ms rule: rev_induct)
  case (snoc m ms)
  have "number_in b (ns @ ms @ [m]) = number_in b (ns @ ms) * b + m"
    using number_in_snoc[of b "ns @ ms" m] by simp
  then show ?case by (simp add: snoc number_in_snoc algebra_simps)
qed (simp add: number_in_def)

lemma number_in_bound: "\<forall>n \<in> set ns. n < b \<Longrightarrow> number_in b ns < b ^ length ns"
proof (induction ns rule: rev_induct)
  case (snoc n ns)
  then have "number_in b ns + 1 \<le> b ^ length ns" by simp
  then have "(number_in b ns + 1) * b \<le> b ^ length ns * b" by (rule mult_le_mono1)
  then have "number_in b ns * b + b \<le> b ^ length ns * b" by (simp add: algebra_simps)
  moreover have "n < b" using snoc.prems by simp
  ultimately show ?case by (simp add: number_in_snoc algebra_simps)
qed (simp add: number_in_def)

lemma number_prefix:
  assumes "\<forall>n \<in> set ns. n < b"
  shows "number_in b ns div b ^ (length ns - k) = number_in b (take k ns)"
proof -
  have "number_in b ns = number_in b (take k ns) * b ^ length (drop k ns) + number_in b (drop k ns)"
    using number_in_append[of b "take k ns" "drop k ns"] by simp
  moreover have "number_in b (drop k ns) < b ^ length (drop k ns)"
    using assms by (intro number_in_bound) (auto dest: in_set_dropD)
  moreover from this have "b ^ length (drop k ns) \<noteq> 0" by linarith
  ultimately show ?thesis by simp
qed

lemma number_in_inj:
  "\<forall>n \<in> set ns. n < b \<Longrightarrow> \<forall>m \<in> set ms. m < b \<Longrightarrow> length ns = length ms \<Longrightarrow>
     number_in b ns = number_in b ms \<longleftrightarrow> ns = ms"
proof (induction ns arbitrary: ms rule: rev_induct)
  case (snoc n ns)
  obtain m ms' where ms: "ms = ms' @ [m]" using snoc.prems(3) by (cases ms rule: rev_cases) auto
  have small: "n < b" "m < b" using snoc.prems(1,2) ms by auto
  have "number_in b ns * b + n = number_in b ms' * b + m \<longleftrightarrow> number_in b ns = number_in b ms' \<and> n = m"
    using small by (metis add_right_cancel div_mult_self3 div_less less_nat_zero_code mod_less mod_mult_self3
        add.left_neutral add.commute gr_implies_not_zero)
  then show ?case using snoc ms by (simp add: number_in_snoc)
qed simp

lemma number_in_zeros [simp]: "number_in b (ns @ replicate k 0) = number_in b ns * b ^ k"
proof -
  have "number_in b (replicate k 0) = 0" by (induction k) (simp_all add: number_in_def)
  then show ?thesis by (simp add: number_in_append)
qed

lemma number_suffix:
  assumes "\<forall>n \<in> set ns. n < b" and "k \<le> length ns"
  shows "number_in b ns mod b ^ (length ns - k) = number_in b (drop k ns)"
proof -
  have "number_in b ns = number_in b (take k ns) * b ^ length (drop k ns) + number_in b (drop k ns)"
    using number_in_append[of b "take k ns" "drop k ns"] by simp
  moreover have "number_in b (drop k ns) < b ^ length (drop k ns)"
    using assms by (intro number_in_bound) (auto dest: in_set_dropD)
  ultimately show ?thesis by simp
qed

lemma hex_value_lower: "n < 16 \<Longrightarrow> hex_value (lower_hex n) = Some n"
  by (auto simp: hex_value_def lower_hex_def is_digit_def of_char_of Let_def)

lemma lower_hex_plain: "n < 16 \<Longrightarrow> lower_hex n \<noteq> CHR '':'' \<and> lower_hex n \<noteq> CHR ''.'' \<and> lower_char (lower_hex n) = lower_hex n"
proof -
  assume n: "n < 16"
  have "(of_char (lower_hex n) :: nat) = (if n < 10 then 48 + n else 87 + n)"
    using n by (simp add: lower_hex_def of_char_of)
  moreover have "(of_char (CHR '':'') :: nat) = 58" "(of_char (CHR ''.'') :: nat) = 46" by simp_all
  ultimately show ?thesis using n by (auto simp: lower_char_def Let_def split: if_splits)
qed

lemma hex_text_props:
  "hex_text n \<noteq> [] \<and> (\<forall>c \<in> set (hex_text n). c \<noteq> CHR '':'' \<and> c \<noteq> CHR ''.'' \<and> lower_char c = c) \<and>
   (\<exists>ds. all_some (map hex_value (hex_text n)) = Some ds \<and> number_in 16 ds = n)"
proof (induction n rule: less_induct)
  case (less n)
  have all_some_snoc: "all_some xs = Some ys \<Longrightarrow> all_some (xs @ [Some y]) = Some (ys @ [y])" for xs ys and y :: nat
    by (induction xs arbitrary: ys) (auto split: option.splits)
  show ?case
  proof (cases "n < 16")
    case True
    then show ?thesis by (simp add: hex_text.simps[of n] lower_hex_plain hex_value_lower number_in_def)
  next
    case False
    then have "n div 16 < n" by simp
    from less.IH[OF this] obtain ds where ds: "all_some (map hex_value (hex_text (n div 16))) = Some ds"
      "number_in 16 ds = n div 16" by blast
    from False have t: "hex_text n = hex_text (n div 16) @ [lower_hex (n mod 16)]" by (subst hex_text.simps) simp
    have "all_some (map hex_value (hex_text n)) = Some (ds @ [n mod 16])"
      using all_some_snoc[OF ds(1)] by (simp add: t hex_value_lower)
    moreover have "number_in 16 (ds @ [n mod 16]) = n" by (simp add: number_in_snoc ds(2))
    ultimately show ?thesis using less.IH[OF \<open>n div 16 < n\<close>] lower_hex_plain[of "n mod 16"]
      by (auto simp: t)
  qed
qed

lemma hex_text_length: "n < 16 ^ k \<Longrightarrow> 0 < k \<Longrightarrow> length (hex_text n) \<le> k"
proof (induction k arbitrary: n)
  case (Suc k)
  show ?case
  proof (cases "n < 16")
    case False
    then have "0 < k" using Suc.prems by (cases k) auto
    moreover have "n div 16 < 16 ^ k" using Suc.prems(1) by (simp add: less_mult_imp_div_less mult.commute)
    ultimately show ?thesis using Suc.IH[of "n div 16"] False by (subst hex_text.simps) simp
  qed (simp add: hex_text.simps)
qed simp

lemma hex_group_text: "n < 65536 \<Longrightarrow> hex_group (hex_text n) = Some n"
  using hex_text_props[of n] hex_text_length[of n 4] by (auto simp: hex_group_def)

end
