(* ===== verification/Net_Policy.thy ===== *)
theory Net_Policy
  imports Ip_Text Uoa_Prelude
begin

section \<open>Where the server may connect to\<close>

text \<open>
  \<^verbatim>\<open>utils/ssrf.ts\<close>: every fetch of a caller-supplied URL first resolves its host and refuses it
  unless all addresses are public. The runtime's address classifier \<open>isIP\<close> and the name
  resolver are parameters. Groups of an IPv6 address are below \<open>2^16\<close>, so the 32-bit operations
  of the source neither overflow nor change sign on them; the model uses the bit operations of
  \<^typ>\<open>nat\<close>.

  The reference is the list of address blocks, each the range of numbers from its base on.
\<close>

unbundle bit_operations_syntax

record net_env =
  isIP :: "string \<Rightarrow> nat"
  lookup_host :: "string \<Rightarrow> (string \<times> nat) list option"

subsection \<open>IPv4\<close>

definition parseIpv4 :: "string \<Rightarrow> nat list option" where
  "parseIpv4 s = ipv4_octets s"

fun blocked_octets :: "nat list \<Rightarrow> bool" where
  "blocked_octets [a, b, c, d] \<longleftrightarrow>
     a = 0 \<or> a = 10 \<or> a = 127 \<or> a = 100 \<and> 64 \<le> b \<and> b \<le> 127 \<or> a = 169 \<and> b = 254 \<or>
     a = 172 \<and> 16 \<le> b \<and> b \<le> 31 \<or> a = 192 \<and> b = 0 \<or> a = 192 \<and> b = 168 \<or>
     a = 198 \<and> (b = 18 \<or> b = 19) \<or> a = 198 \<and> b = 51 \<and> c = 100 \<or> a = 203 \<and> b = 0 \<and> c = 113 \<or>
     224 \<le> a"
| "blocked_octets _ \<longleftrightarrow> True"

definition isBlockedIpv4 :: "string \<Rightarrow> bool" where
  "isBlockedIpv4 address = (case parseIpv4 address of None \<Rightarrow> True | Some parts \<Rightarrow> blocked_octets parts)"

subsection \<open>IPv6\<close>

definition ipv4PartsToHextets :: "nat list \<Rightarrow> nat list" where
  "ipv4PartsToHextets p = [push_bit 8 (p ! 0) OR p ! 1, push_bit 8 (p ! 2) OR p ! 3]"

definition parseIpv6Part :: "string \<Rightarrow> nat list option" where
  "parseIpv6Part part =
     (if CHR ''.'' \<in> set part then map_option ipv4PartsToHextets (parseIpv4 part)
      else map_option (\<lambda>n. [n]) (hex_group part))"

definition parseIpv6Parts :: "string list \<Rightarrow> nat list option" where
  "parseIpv6Parts parts = map_option concat (all_some (map parseIpv6Part parts))"

definition groups_of :: "string \<Rightarrow> string list" where
  "groups_of s = (if s = [] then [] else split_on (CHR '':'') s)"

definition expandIpv6 :: "net_env \<Rightarrow> string \<Rightarrow> nat list option" where
  "expandIpv6 env address =
     (if isIP env address \<noteq> 6 then None
      else case split_pairs (CHR '':'') (js_lower address) of
        [s] \<Rightarrow>
          (case parseIpv6Parts (groups_of s) of
             None \<Rightarrow> None | Some hextets \<Rightarrow> if length hextets = 8 then Some hextets else None)
      | [l, r] \<Rightarrow>
          (case (parseIpv6Parts (groups_of l), parseIpv6Parts (groups_of r)) of
             (Some left, Some right) \<Rightarrow>
               if length left + length right < 8
               then Some (left @ replicate (8 - length left - length right) 0 @ right) else None
           | _ \<Rightarrow> None)
      | _ \<Rightarrow> None)"

definition decodeTrailingIpv4 :: "nat list \<Rightarrow> string" where
  "decodeTrailingIpv4 h =
     dotted [drop_bit 8 (h ! 6), h ! 6 AND 0xff, drop_bit 8 (h ! 7), h ! 7 AND 0xff]"

definition isIpv4MappedIpv6 :: "nat list \<Rightarrow> bool" where
  "isIpv4MappedIpv6 h \<longleftrightarrow> list_all (\<lambda>x. x = 0) (take 5 h) \<and> h ! 5 = 0xffff"

definition isNat64WellKnownPrefix :: "nat list \<Rightarrow> bool" where
  "isNat64WellKnownPrefix h \<longleftrightarrow> h ! 0 = 0x64 \<and> h ! 1 = 0xff9b \<and> list_all (\<lambda>x. x = 0) (take 4 (drop 2 h))"

definition isNat64LocalUsePrefix :: "nat list \<Rightarrow> bool" where
  "isNat64LocalUsePrefix h \<longleftrightarrow> h ! 0 = 0x64 \<and> h ! 1 = 0xff9b \<and> h ! 2 = 1"

definition blocked_hextets :: "nat list \<Rightarrow> bool" where
  "blocked_hextets h \<longleftrightarrow>
     (if isIpv4MappedIpv6 h then isBlockedIpv4 (decodeTrailingIpv4 h)
      else isNat64WellKnownPrefix h \<or> isNat64LocalUsePrefix h \<or>
        list_all (\<lambda>x. x = 0) h \<or>
        list_all (\<lambda>x. x = 0) (take 7 h) \<and> h ! 7 = 1 \<or>
        h ! 0 AND 0xffc0 = 0xfe80 \<or> h ! 0 AND 0xfe00 = 0xfc00 \<or> 0xff00 \<le> h ! 0)"

definition isBlockedIpv6 :: "net_env \<Rightarrow> string \<Rightarrow> bool" where
  "isBlockedIpv6 env address = (case expandIpv6 env address of None \<Rightarrow> True | Some h \<Rightarrow> blocked_hextets h)"

subsection \<open>Destinations\<close>

definition stripIpv6Brackets :: "string \<Rightarrow> string" where
  "stripIpv6Brackets s =
     (if s \<noteq> [] \<and> hd s = CHR ''['' \<and> last s = CHR '']'' then butlast (tl s) else s)"

definition isBlockedIpAddress :: "net_env \<Rightarrow> string \<Rightarrow> bool" where
  "isBlockedIpAddress env address =
     (let s = stripIpv6Brackets address; family = isIP env s in
      if family = 4 then isBlockedIpv4 s else if family = 6 then isBlockedIpv6 env s else True)"

definition resolvePublicDestinations :: "net_env \<Rightarrow> string \<Rightarrow> (string \<times> nat) list outcome" where
  "resolvePublicDestinations env hostname =
     (let host = stripIpv6Brackets hostname; family = isIP env host in
      if family = 4 \<or> family = 6 then
        (if isBlockedIpAddress env host then fail BAD_REQUEST 400 else Inr [(host, family)])
      else case lookup_host env hostname of
        None \<Rightarrow> fail BAD_REQUEST 400
      | Some addresses \<Rightarrow>
          if \<not> list_all (\<lambda>(_, f). f = 4 \<or> f = 6) addresses then fail BAD_REQUEST 400
          else if addresses = [] \<or> list_ex (\<lambda>(a, _). isBlockedIpAddress env a) addresses
            then fail BAD_REQUEST 400
          else Inr addresses)"

subsection \<open>The reference: blocks of addresses\<close>

text \<open>A block of \<open>width\<close>-bit addresses is its base and the length of its prefix.\<close>

definition in_block :: "nat \<Rightarrow> nat \<Rightarrow> nat \<times> nat \<Rightarrow> bool" where
  "in_block width n block \<longleftrightarrow> fst block \<le> n \<and> n < fst block + 2 ^ (width - snd block)"

definition RESERVED_IPV4 :: "(nat list \<times> nat) list" where
  "RESERVED_IPV4 =
     [([0, 0, 0, 0], 8), ([10, 0, 0, 0], 8), ([127, 0, 0, 0], 8), ([100, 64, 0, 0], 10), ([169, 254, 0, 0], 16),
      ([172, 16, 0, 0], 12), ([192, 0, 0, 0], 16), ([192, 168, 0, 0], 16), ([198, 18, 0, 0], 15),
      ([198, 51, 100, 0], 24), ([203, 0, 113, 0], 24), ([224, 0, 0, 0], 3)]"

definition RESERVED_IPV6 :: "(nat list \<times> nat) list" where
  "RESERVED_IPV6 =
     [([0, 0, 0, 0, 0, 0, 0, 0], 128), ([0, 0, 0, 0, 0, 0, 0, 1], 128), ([0x64, 0xff9b, 0, 0, 0, 0, 0, 0], 96),
      ([0x64, 0xff9b, 1, 0, 0, 0, 0, 0], 48), ([0xfe80, 0, 0, 0, 0, 0, 0, 0], 10),
      ([0xfc00, 0, 0, 0, 0, 0, 0, 0], 7), ([0xff00, 0, 0, 0, 0, 0, 0, 0], 8)]"

definition reserved_v4 :: "nat \<Rightarrow> bool" where
  "reserved_v4 n \<longleftrightarrow> list_ex (\<lambda>(net, len). in_block 32 n (number_in 256 net, len)) RESERVED_IPV4"

text \<open>An IPv4-mapped address stands for its last 32 bits.\<close>

definition reserved_v6 :: "nat \<Rightarrow> bool" where
  "reserved_v6 n \<longleftrightarrow>
     list_ex (\<lambda>(net, len). in_block 128 n (number_in 65536 net, len)) RESERVED_IPV6 \<or>
     in_block 128 n (number_in 65536 [0, 0, 0, 0, 0, 0xffff, 0, 0], 96) \<and> reserved_v4 (n mod 2 ^ 32)"

text \<open>Canonical texts: groups in lower-case hexadecimal, at most one gap.\<close>

definition v6_full :: "nat list \<Rightarrow> string" where
  "v6_full h = joined (CHR '':'') (map hex_text h)"

definition v6_gap :: "nat list \<Rightarrow> nat list \<Rightarrow> string" where
  "v6_gap l r = v6_full l @ '':'' @ '':'' @ v6_full r"

definition groups :: "nat list \<Rightarrow> bool" where
  "groups h \<longleftrightarrow> (\<forall>x \<in> set h. x < 65536)"

subsection \<open>IPv4 against the blocks\<close>

lemma aligned_block:
  assumes "net = q * 2 ^ (width - len)"
  shows "in_block width n (net, len) \<longleftrightarrow> n div 2 ^ (width - len) = q"
proof -
  let ?m = "2 ^ (width - len) :: nat"
  have "n div ?m = q \<longleftrightarrow> q * ?m \<le> n \<and> n < Suc q * ?m"
    by (metis div_nat_eqI dividend_less_times_div less_mult_imp_div_less mult.commute mult_Suc_right
        div_times_less_eq_dividend zero_less_numeral zero_less_power add.commute)
  then show ?thesis using assms by (simp add: in_block_def add.commute)
qed

lemma two_digits: "x < m \<Longrightarrow> y < m \<Longrightarrow> p * m + x = q * m + y \<longleftrightarrow> p = q \<and> x = y" for x y m p q :: nat
  by (metis add.commute div_less div_mult_self1 add.right_neutral gr_implies_not_zero mod_less mod_mult_self1)

lemma reserved_v4_octets:
  assumes "a \<le> 255" "b \<le> 255" "c \<le> 255" "d \<le> 255"
  shows "reserved_v4 (number_in 256 [a, b, c, d]) \<longleftrightarrow> blocked_octets [a, b, c, d]"
proof -
  define n where "n = number_in 256 [a, b, c, d]"
  then have n: "n = ((a * 256 + b) * 256 + c) * 256 + d" by (simp add: number_in_def)
  have d8: "n div 256 = (a * 256 + b) * 256 + c" using assms by (simp add: n)
  have d16: "n div 65536 = a * 256 + b"
    using assms div_mult2_eq[of n 256 256] by (simp add: d8)
  have d17: "n div 131072 = a * 128 + b div 2"
    using div_mult2_eq[of n 65536 2] by (simp add: d16)
  have d20: "n div 1048576 = a * 16 + b div 16"
    using div_mult2_eq[of n 65536 16] by (simp add: d16)
  have d22: "n div 4194304 = a * 4 + b div 64"
    using div_mult2_eq[of n 65536 64] by (simp add: d16)
  have d24: "n div 16777216 = a"
    using assms div_mult2_eq[of n 65536 256] by (simp add: d16)
  have d29: "n div 536870912 = a div 32"
    using div_mult2_eq[of n 16777216 32] by (simp add: d24)
  have block: "in_block 32 n (net, len) \<longleftrightarrow> n div 2 ^ (32 - len) = net div 2 ^ (32 - len)"
    if "net mod 2 ^ (32 - len) = 0" for net len
    using aligned_block[of net "net div 2 ^ (32 - len)" 32 len n] that
    by (metis add.right_neutral div_mult_mod_eq)
  have "in_block 32 n (number_in 256 [0, 0, 0, 0], 8) \<longleftrightarrow> a = 0"
    "in_block 32 n (number_in 256 [10, 0, 0, 0], 8) \<longleftrightarrow> a = 10"
    "in_block 32 n (number_in 256 [127, 0, 0, 0], 8) \<longleftrightarrow> a = 127"
    "in_block 32 n (number_in 256 [100, 64, 0, 0], 10) \<longleftrightarrow> a * 4 + b div 64 = 401"
    "in_block 32 n (number_in 256 [169, 254, 0, 0], 16) \<longleftrightarrow> a * 256 + b = 43518"
    "in_block 32 n (number_in 256 [172, 16, 0, 0], 12) \<longleftrightarrow> a * 16 + b div 16 = 2753"
    "in_block 32 n (number_in 256 [192, 0, 0, 0], 16) \<longleftrightarrow> a * 256 + b = 49152"
    "in_block 32 n (number_in 256 [192, 168, 0, 0], 16) \<longleftrightarrow> a * 256 + b = 49320"
    "in_block 32 n (number_in 256 [198, 18, 0, 0], 15) \<longleftrightarrow> a * 128 + b div 2 = 25353"
    "in_block 32 n (number_in 256 [198, 51, 100, 0], 24) \<longleftrightarrow> (a * 256 + b) * 256 + c = 12989284"
    "in_block 32 n (number_in 256 [203, 0, 113, 0], 24) \<longleftrightarrow> (a * 256 + b) * 256 + c = 13303921"
    "in_block 32 n (number_in 256 [224, 0, 0, 0], 3) \<longleftrightarrow> a div 32 = 7"
    by (simp_all add: block number_in_def d8 d16 d17 d20 d22 d24 d29)
  moreover have quotients: "b div 64 = 1 \<longleftrightarrow> 64 \<le> b \<and> b \<le> 127" "b div 16 = 1 \<longleftrightarrow> 16 \<le> b \<and> b \<le> 31"
    "b div 2 = 9 \<longleftrightarrow> b = 18 \<or> b = 19" "a div 32 = 7 \<longleftrightarrow> 224 \<le> a" "b div 64 < 4" "b div 16 < 16" "b div 2 < 128"
    using assms by linarith+
  moreover have "a * 4 + b div 64 = 401 \<longleftrightarrow> a = 100 \<and> 64 \<le> b \<and> b \<le> 127"
    "a * 256 + b = 43518 \<longleftrightarrow> a = 169 \<and> b = 254"
    "a * 16 + b div 16 = 2753 \<longleftrightarrow> a = 172 \<and> 16 \<le> b \<and> b \<le> 31"
    "a * 256 + b = 49152 \<longleftrightarrow> a = 192 \<and> b = 0"
    "a * 256 + b = 49320 \<longleftrightarrow> a = 192 \<and> b = 168"
    "a * 128 + b div 2 = 25353 \<longleftrightarrow> a = 198 \<and> (b = 18 \<or> b = 19)"
    "(a * 256 + b) * 256 + c = 12989284 \<longleftrightarrow> a = 198 \<and> b = 51 \<and> c = 100"
    "(a * 256 + b) * 256 + c = 13303921 \<longleftrightarrow> a = 203 \<and> b = 0 \<and> c = 113"
    "a div 32 = 7 \<longleftrightarrow> 224 \<le> a"
    using two_digits[of "b div 64" 4 1 a 100] two_digits[of b 256 254 a 169] two_digits[of "b div 16" 16 1 a 172]
      two_digits[of b 256 0 a 192] two_digits[of b 256 168 a 192] two_digits[of "b div 2" 128 9 a 198]
      two_digits[of c 256 100 "a * 256 + b" 50739] two_digits[of b 256 51 a 198]
      two_digits[of c 256 113 "a * 256 + b" 51968] two_digits[of b 256 0 a 203] quotients assms
    by simp_all
  ultimately show ?thesis unfolding reserved_v4_def RESERVED_IPV4_def n_def[symmetric] by simp
qed

subsection \<open>IPv6 against the blocks\<close>

lemma group_block:
  assumes "length h = 8" "groups h" "groups p" "length p \<le> 8"
  shows "in_block 128 (number_in 65536 h) (number_in 65536 (p @ replicate (8 - length p) 0), 16 * length p) \<longleftrightarrow>
    take (length p) h = p"
proof -
  have width: "(2::nat) ^ (128 - 16 * length p) = 65536 ^ (8 - length p)"
    using assms(4) power_mult[of "2::nat" 16 "8 - length p"] by (simp add: algebra_simps)
  have "in_block 128 (number_in 65536 h) (number_in 65536 p * 65536 ^ (8 - length p), 16 * length p) \<longleftrightarrow>
      number_in 65536 h div 65536 ^ (8 - length p) = number_in 65536 p"
    using aligned_block[of _ "number_in 65536 p" 128 "16 * length p"] by (simp add: width)
  also have "number_in 65536 h div 65536 ^ (8 - length p) = number_in 65536 (take (length p) h)"
    using number_prefix[of h 65536 "length p"] assms(1,2) by (simp add: groups_def)
  also have "number_in 65536 (take (length p) h) = number_in 65536 p \<longleftrightarrow> take (length p) h = p"
    using assms by (intro number_in_inj) (auto simp: groups_def dest: in_set_takeD)
  finally show ?thesis by simp
qed

lemma group_block_at:
  assumes "length h = 8" "groups h" "groups p" "list_all (\<lambda>x. x = 0) z" "length p = m" "m + length z = 8" "bits = 16 * m"
  shows "in_block 128 (number_in 65536 h) (number_in 65536 (p @ z), bits) \<longleftrightarrow> take m h = p"
proof -
  have z: "z = replicate (8 - length p) 0"
  proof -
    have "length z = 8 - length p" using assms(5,6) by simp
    then show ?thesis using assms(4) replicate_length_same[of z 0] by (simp add: list_all_iff)
  qed
  show ?thesis using group_block[OF assms(1-3)] assms(5-7) unfolding z by simp
qed

text \<open>Blocks that end inside the first group.\<close>

lemma first_group_block:
  assumes "length h = 8" "groups h" "k \<le> 16"
  shows "in_block 128 (number_in 65536 h) (q * 2 ^ (128 - k), k) \<longleftrightarrow> h ! 0 div 2 ^ (16 - k) = q"
proof -
  have "number_in 65536 h div 65536 ^ 7 = h ! 0"
    using number_prefix[of h 65536 1] assms(1,2) by (cases h) (simp_all add: groups_def number_in_def)
  moreover have "(2::nat) ^ (128 - k) = 65536 ^ 7 * 2 ^ (16 - k)"
  proof -
    have "128 - k = 112 + (16 - k)" using assms(3) by simp
    then have "(2::nat) ^ (128 - k) = 2 ^ 112 * 2 ^ (16 - k)" by (simp only: power_add)
    then show ?thesis by simp
  qed
  ultimately have "number_in 65536 h div 2 ^ (128 - k) = h ! 0 div 2 ^ (16 - k)"
    by (simp only: div_mult2_eq)
  then show ?thesis by (simp add: aligned_block)
qed

lemma masked_group:
  fixes x q :: nat
  assumes "x < 2 ^ 16" and "k \<le> 16" and "q < 2 ^ (16 - k)"
  shows "x AND push_bit k (mask (16 - k)) = push_bit k q \<longleftrightarrow> x div 2 ^ k = q"
proof -
  have "x AND push_bit k (mask (16 - k)) = push_bit k (take_bit (16 - k) (drop_bit k x))"
    by (rule bit_eqI) (auto simp: bit_simps)
  also have "take_bit (16 - k) (drop_bit k x) = x div 2 ^ k"
  proof -
    have "x div 2 ^ k < 2 ^ (16 - k)"
      using assms(1,2) by (simp add: less_mult_imp_div_less flip: power_add)
    then show ?thesis by (simp add: drop_bit_eq_div take_bit_nat_eq_self)
  qed
  finally show ?thesis by (simp add: push_bit_eq_mult)
qed

lemma four_octets:
  assumes "length ns = 4"
  obtains a b c d where "ns = [a, b, c, d]"
proof -
  have "length ns = Suc (Suc (Suc (Suc 0)))" using assms by simp
  then show ?thesis using that unfolding length_Suc_conv length_0_conv by blast
qed

lemma eight_groups:
  assumes "length h = 8"
  obtains a b c d e f g k where "h = [a, b, c, d, e, f, g, k]"
proof -
  have "length h = Suc (Suc (Suc (Suc (Suc (Suc (Suc (Suc 0)))))))" using assms by simp
  then show ?thesis using that unfolding length_Suc_conv length_0_conv by blast
qed

lemma trailing_ipv4:
  assumes "x < 65536" "y < 65536"
  shows "isBlockedIpv4 (decodeTrailingIpv4 [0, 0, 0, 0, 0, 65535, x, y]) \<longleftrightarrow> reserved_v4 (number_in 65536 [x, y])"
proof -
  let ?ns = "[x div 256, x mod 256, y div 256, y mod 256]"
  have low: "z AND 255 = z mod 256" for z :: nat
    using take_bit_eq_mask[of 8 z] by (simp add: take_bit_eq_mod mask_eq_exp_minus_1 and.commute)
  have "decodeTrailingIpv4 [0, 0, 0, 0, 0, 65535, x, y] = dotted ?ns"
    by (simp add: decodeTrailingIpv4_def low drop_bit_eq_div)
  moreover have "parseIpv4 (dotted ?ns) = Some ?ns"
    unfolding parseIpv4_def using assms by (intro octets_dotted) auto
  ultimately have "isBlockedIpv4 (decodeTrailingIpv4 [0, 0, 0, 0, 0, 65535, x, y]) \<longleftrightarrow> blocked_octets ?ns"
    by (simp add: isBlockedIpv4_def)
  also have "\<dots> \<longleftrightarrow> reserved_v4 (number_in 256 ?ns)"
    using assms by (intro reserved_v4_octets[symmetric]) auto
  also have "number_in 256 ?ns = number_in 65536 [x, y]"
    by (simp add: number_in_def algebra_simps)
  finally show ?thesis .
qed

lemma reserved_v6_groups:
  assumes "length h = 8" "groups h"
  shows "reserved_v6 (number_in 65536 h) \<longleftrightarrow> blocked_hextets h"
proof -
  obtain a b c d e f g k where h: "h = [a, b, c, d, e, f, g, k]" by (rule eight_groups[OF assms(1)])
  with assms(2) have small: "a < 65536" "g < 65536" "k < 65536" by (simp_all add: groups_def)
  let ?n = "number_in 65536 h"
  note block = group_block_at[OF assms]
  have unspecified: "in_block 128 ?n (number_in 65536 [0, 0, 0, 0, 0, 0, 0, 0], 128) \<longleftrightarrow> h = [0, 0, 0, 0, 0, 0, 0, 0]"
    using block[of "[0, 0, 0, 0, 0, 0, 0, 0]" "[]" 8 128] by (simp add: groups_def assms(1))
  have loopback: "in_block 128 ?n (number_in 65536 [0, 0, 0, 0, 0, 0, 0, 1], 128) \<longleftrightarrow> h = [0, 0, 0, 0, 0, 0, 0, 1]"
    using block[of "[0, 0, 0, 0, 0, 0, 0, 1]" "[]" 8 128] by (simp add: groups_def assms(1))
  have nat64: "in_block 128 ?n (number_in 65536 [0x64, 0xff9b, 0, 0, 0, 0, 0, 0], 96) \<longleftrightarrow> take 6 h = [0x64, 0xff9b, 0, 0, 0, 0]"
    using block[of "[0x64, 0xff9b, 0, 0, 0, 0]" "[0, 0]" 6 96] by (simp add: groups_def)
  have local_use: "in_block 128 ?n (number_in 65536 [0x64, 0xff9b, 1, 0, 0, 0, 0, 0], 48) \<longleftrightarrow> take 3 h = [0x64, 0xff9b, 1]"
    using block[of "[0x64, 0xff9b, 1]" "[0, 0, 0, 0, 0]" 3 48] by (simp add: groups_def)
  have mapped: "in_block 128 ?n (number_in 65536 [0, 0, 0, 0, 0, 0xffff, 0, 0], 96) \<longleftrightarrow> take 6 h = [0, 0, 0, 0, 0, 0xffff]"
    using block[of "[0, 0, 0, 0, 0, 0xffff]" "[0, 0]" 6 96] by (simp add: groups_def)
  note blocks = unspecified loopback nat64 local_use mapped
  have heads:
    "in_block 128 ?n (number_in 65536 [0xfe80, 0, 0, 0, 0, 0, 0, 0], 10) \<longleftrightarrow> a div 64 = 1018"
    "in_block 128 ?n (number_in 65536 [0xfc00, 0, 0, 0, 0, 0, 0, 0], 7) \<longleftrightarrow> a div 512 = 126"
    "in_block 128 ?n (number_in 65536 [0xff00, 0, 0, 0, 0, 0, 0, 0], 8) \<longleftrightarrow> a div 256 = 255"
    using first_group_block[OF assms, of 10 1018] first_group_block[OF assms, of 7 126]
      first_group_block[OF assms, of 8 255] by (simp_all add: number_in_def h)
  have masks: "a AND 0xffc0 = 0xfe80 \<longleftrightarrow> a div 64 = 1018" "a AND 0xfe00 = 0xfc00 \<longleftrightarrow> a div 512 = 126"
    "0xff00 \<le> a \<longleftrightarrow> a div 256 = 255"
    using masked_group[of a 6 1018] masked_group[of a 9 126] small(1)
    by (simp_all add: push_bit_eq_mult mask_eq_exp_minus_1) linarith
  have "?n mod 2 ^ 32 = number_in 65536 [g, k]"
    using number_suffix[of h 65536 6] assms by (simp add: groups_def h)
  then have tail: "reserved_v4 (?n mod 2 ^ 32) \<longleftrightarrow> isBlockedIpv4 (decodeTrailingIpv4 [0, 0, 0, 0, 0, 65535, g, k])"
    using trailing_ipv4 small by simp
  have "reserved_v6 ?n \<longleftrightarrow> h = [0, 0, 0, 0, 0, 0, 0, 0] \<or> h = [0, 0, 0, 0, 0, 0, 0, 1] \<or>
      take 6 h = [0x64, 0xff9b, 0, 0, 0, 0] \<or> take 3 h = [0x64, 0xff9b, 1] \<or>
      a div 64 = 1018 \<or> a div 512 = 126 \<or> a div 256 = 255 \<or>
      take 6 h = [0, 0, 0, 0, 0, 0xffff] \<and> isBlockedIpv4 (decodeTrailingIpv4 [0, 0, 0, 0, 0, 65535, g, k])"
    by (simp only: reserved_v6_def RESERVED_IPV6_def list_ex_Nil_iff list_ex_Cons_iff prod.case blocks heads tail simp_thms disj_assoc)
  also have "\<dots> \<longleftrightarrow> blocked_hextets h"
    unfolding h blocked_hextets_def isIpv4MappedIpv6_def isNat64WellKnownPrefix_def isNat64LocalUsePrefix_def
    by (simp add: masks) blast
  finally show ?thesis .
qed

subsection \<open>Reading addresses\<close>

lemma v6_text_plain: "c \<in> set (v6_full h) \<Longrightarrow> lower_char c = c \<and> c \<noteq> CHR ''.''"
proof -
  assume "c \<in> set (v6_full h)"
  then have "c = CHR '':'' \<or> (\<exists>n. c \<in> set (hex_text n))"
    using set_joined[of "CHR '':''" "map hex_text h"] by (auto simp: v6_full_def)
  moreover have "lower_char (CHR '':'') = CHR '':''" by (simp add: lower_char_def)
  ultimately show ?thesis using hex_text_props by auto
qed

lemma unpaired_v6: "unpaired (CHR '':'') (v6_full h)"
  unfolding v6_full_def using hex_text_props by (intro unpaired_joined) auto

lemma groups_of_v6: "groups_of (v6_full h) = map hex_text h"
proof (cases "h = []")
  case False
  then have "v6_full h \<noteq> []"
    using joined_eq_Nil[of "map hex_text h" "CHR '':''"] hex_text_props by (auto simp: v6_full_def)
  moreover have "split_on (CHR '':'') (v6_full h) = map hex_text h"
    unfolding v6_full_def using False hex_text_props by (intro split_joined) auto
  ultimately show ?thesis by (simp add: groups_of_def)
qed (simp add: groups_of_def v6_full_def)

lemma parse_groups: "groups h \<Longrightarrow> parseIpv6Parts (map hex_text h) = Some h"
proof -
  assume h: "groups h"
  have "parseIpv6Part (hex_text n) = Some [n]" if "n < 65536" for n
    using that hex_text_props[of n] by (auto simp: parseIpv6Part_def hex_group_text)
  then have "all_some (map (parseIpv6Part \<circ> hex_text) h) = Some (map (\<lambda>n. [n]) h)"
    using h by (intro all_some_map) (auto simp: groups_def)
  then show ?thesis by (simp add: parseIpv6Parts_def)
qed

lemma expand_full:
  assumes "groups h" "length h = 8" "isIP env (v6_full h) = 6"
  shows "expandIpv6 env (v6_full h) = Some h"
proof -
  have "js_lower (v6_full h) = v6_full h"
    using v6_text_plain by (simp add: js_lower_def map_idI)
  then show ?thesis using assms
    by (simp add: expandIpv6_def split_pairs_unpaired[OF unpaired_v6] groups_of_v6 parse_groups)
qed

lemma expand_gap:
  assumes "parseIpv6Parts (groups_of s) = Some r" "unpaired (CHR '':'') s" "\<forall>c \<in> set s. lower_char c = c"
    and "groups l" "length l + length r < 8" "isIP env (v6_full l @ '':'' @ '':'' @ s) = 6"
  shows "expandIpv6 env (v6_full l @ '':'' @ '':'' @ s) = Some (l @ replicate (8 - length l - length r) 0 @ r)"
proof -
  have "lower_char (CHR '':'') = CHR '':''" by (simp add: lower_char_def)
  then have "js_lower (v6_full l @ '':'' @ '':'' @ s) = v6_full l @ '':'' @ '':'' @ s"
    using v6_text_plain assms(3) by (simp add: js_lower_def map_idI)
  moreover have "split_pairs (CHR '':'') (v6_full l @ '':'' @ '':'' @ s) = [v6_full l, s]"
    using split_pairs_append[OF unpaired_v6, of l s] split_pairs_unpaired[OF assms(2)] by simp
  ultimately show ?thesis using assms by (simp add: expandIpv6_def groups_of_v6 parse_groups)
qed

text \<open>The mapped form in mixed notation.\<close>

definition v6_mapped :: "nat list \<Rightarrow> string" where
  "v6_mapped ns = v6_full [] @ '':'' @ '':'' @ ''ffff'' @ '':'' @ dotted ns"

lemma octets_to_groups:
  assumes "length ns = 4" "\<forall>n \<in> set ns. n \<le> 255"
  shows "ipv4PartsToHextets ns = [ns ! 0 * 256 + ns ! 1, ns ! 2 * 256 + ns ! 3]"
proof -
  have join: "push_bit 8 x OR y = x * 256 + y" if "y \<le> 255" for x y :: nat
  proof -
    have "push_bit 8 x AND take_bit 8 y = 0"
      by (rule bit_eqI) (auto simp: bit_simps)
    moreover have "take_bit 8 y = y" using that by (simp add: take_bit_nat_eq_self)
    ultimately have "push_bit 8 x AND y = 0" by simp
    then show ?thesis by (simp add: push_bit_eq_mult flip: disjunctive_add_eq_or)
  qed
  from assms show ?thesis by (simp add: ipv4PartsToHextets_def join)
qed

lemma expand_mapped:
  assumes "length ns = 4" "\<forall>n \<in> set ns. n \<le> 255" "isIP env (v6_mapped ns) = 6"
  shows "expandIpv6 env (v6_mapped ns) =
    Some ([0, 0, 0, 0, 0, 0xffff] @ [ns ! 0 * 256 + ns ! 1, ns ! 2 * 256 + ns ! 3])"
proof -
  let ?r = "[0xffff, ns ! 0 * 256 + ns ! 1, ns ! 2 * 256 + ns ! 3]"
  let ?s = "joined (CHR '':'') [''ffff'', dotted ns]"
  have five: "replicate 5 (0 :: nat) = [0, 0, 0, 0, 0]" by (simp add: eval_nat_numeral)
  have chars: "c = CHR ''.'' \<or> is_digit c" if "c \<in> set (dotted ns)" for c
    using that set_joined[of "CHR ''.''" "map digits_of ns"] all_digits_of
    by (fastforce simp: dotted_def all_digits_def list_all_iff)
  moreover have "c \<noteq> CHR '':'' \<and> lower_char c = c" if "c = CHR ''.'' \<or> is_digit c" for c
    using that by (auto simp: is_digit_def lower_char_def Let_def)
  ultimately have plain: "CHR '':'' \<notin> set (dotted ns)" "\<forall>c \<in> set (dotted ns). lower_char c = c"
    by blast+
  have dot: "CHR ''.'' \<in> set (dotted ns)"
    using assms(1) by (cases ns rule: list.exhaust; cases "tl ns") (auto simp: dotted_def)
  then have nonempty: "dotted ns \<noteq> []" by auto
  have "split_on (CHR '':'') ?s = [''ffff'', dotted ns]" using plain(1) by (intro split_joined) auto
  then have parts: "groups_of ?s = [''ffff'', dotted ns]" by (simp add: groups_of_def)
  have "hex_group ''ffff'' = Some 0xffff"
    by (simp add: hex_group_def hex_value_def is_digit_def number_in_def)
  then have "parseIpv6Parts (groups_of ?s) = Some ?r"
    using dot octets_dotted[OF assms(1,2)] octets_to_groups[OF assms(1,2)]
    unfolding parts by (simp add: parseIpv6Parts_def parseIpv6Part_def parseIpv4_def)
  moreover have "unpaired (CHR '':'') ?s"
    using plain(1) nonempty by (intro unpaired_joined) auto
  moreover have "\<forall>c \<in> set ?s. lower_char c = c"
    using plain(2) by (simp add: lower_char_def)
  moreover have "v6_mapped ns = v6_full [] @ '':'' @ '':'' @ ?s" by (simp add: v6_mapped_def)
  ultimately show ?thesis
    using expand_gap[of ?s ?r "[]" env] assms(3) five by (simp add: groups_def)
qed

subsection \<open>What is refused\<close>

text \<open>The texts of an address: dotted, full, with a gap, IPv4-mapped in mixed notation.\<close>

inductive spells :: "string \<Rightarrow> nat \<Rightarrow> nat \<Rightarrow> bool" where
  v4: "length ns = 4 \<Longrightarrow> \<forall>n \<in> set ns. n \<le> 255 \<Longrightarrow> spells (dotted ns) 4 (number_in 256 ns)"
| full: "groups h \<Longrightarrow> length h = 8 \<Longrightarrow> spells (v6_full h) 6 (number_in 65536 h)"
| gap: "groups (l @ r) \<Longrightarrow> length l + length r < 8 \<Longrightarrow>
    spells (v6_gap l r) 6 (number_in 65536 (l @ replicate (8 - length l - length r) 0 @ r))"
| mapped: "length ns = 4 \<Longrightarrow> \<forall>n \<in> set ns. n \<le> 255 \<Longrightarrow>
    spells (v6_mapped ns) 6 (0xffff * 2 ^ 32 + number_in 256 ns)"

definition reserved :: "nat \<Rightarrow> nat \<Rightarrow> bool" where
  "reserved family n \<longleftrightarrow> (if family = 4 then reserved_v4 n else reserved_v6 n)"

text \<open>What the runtime promises of its classifier.\<close>

definition classifies :: "net_env \<Rightarrow> bool" where
  "classifies env \<longleftrightarrow> (\<forall>t f n. spells t f n \<longrightarrow> isIP env t = f)"

lemma groups_zeros: "groups (l @ r) \<Longrightarrow> groups (l @ replicate k 0 @ r)"
  by (auto simp: groups_def)

lemma mapped_number:
  assumes "length ns = 4" "\<forall>n \<in> set ns. n \<le> 255"
  shows "number_in 65536 ([0, 0, 0, 0, 0, 0xffff] @ [ns ! 0 * 256 + ns ! 1, ns ! 2 * 256 + ns ! 3]) =
      0xffff * 2 ^ 32 + number_in 256 ns"
    "groups ([0, 0, 0, 0, 0, 0xffff] @ [ns ! 0 * 256 + ns ! 1, ns ! 2 * 256 + ns ! 3])"
proof -
  obtain a b c d where ns: "ns = [a, b, c, d]" by (rule four_octets[OF assms(1)])
  then show "number_in 65536 ([0, 0, 0, 0, 0, 0xffff] @ [ns ! 0 * 256 + ns ! 1, ns ! 2 * 256 + ns ! 3]) =
      0xffff * 2 ^ 32 + number_in 256 ns"
    by (simp add: number_in_def)
  from ns assms(2) have "a \<le> 255" "b \<le> 255" "c \<le> 255" "d \<le> 255" by auto
  then show "groups ([0, 0, 0, 0, 0, 0xffff] @ [ns ! 0 * 256 + ns ! 1, ns ! 2 * 256 + ns ! 3])"
    by (simp add: groups_def ns)
qed

lemma spelled_not_bracketed:
  assumes "spells t f n"
  shows "stripIpv6Brackets t = t"
proof -
  have "CHR ''['' \<notin> set t"
  proof
    assume bracket: "CHR ''['' \<in> set t"
    have digits: "CHR ''['' \<notin> set (dotted ns)" for ns
      using set_joined[of "CHR ''.''" "map digits_of ns"] digits_no_char[of "CHR ''[''"]
      by (auto simp: dotted_def is_digit_def)
    have hex: "CHR ''['' \<notin> set (v6_full h)" for h
    proof
      assume "CHR ''['' \<in> set (v6_full h)"
      then obtain k where "CHR ''['' \<in> set (hex_text k)"
        using set_joined[of "CHR '':''" "map hex_text h"] by (auto simp: v6_full_def)
      moreover obtain ds where "all_some (map hex_value (hex_text k)) = Some ds"
        using hex_text_props[of k] by blast
      moreover have "all_some (map hex_value s) = None" if "CHR ''['' \<in> set s" for s
        using that by (induction s) (auto simp: hex_value_def is_digit_def split: option.splits)
      ultimately show False by simp
    qed
    show False using assms bracket digits hex
      by cases (auto simp: v6_gap_def v6_mapped_def)
  qed
  then show ?thesis by (auto simp: stripIpv6Brackets_def dest: hd_in_set)
qed

lemma spelled_verdict:
  assumes "classifies env" and "spells t f n"
  shows "isBlockedIpAddress env t \<longleftrightarrow> reserved f n"
proof -
  have family: "isIP env t = f" using assms unfolding classifies_def by blast
  have verdict: "isBlockedIpAddress env t \<longleftrightarrow>
      (if f = 4 then isBlockedIpv4 t else if f = 6 then isBlockedIpv6 env t else True)"
    by (simp add: isBlockedIpAddress_def spelled_not_bracketed[OF assms(2)] family)
  from assms(2) show ?thesis
  proof cases
    case (v4 ns)
    obtain a b c d where ns: "ns = [a, b, c, d]" by (rule four_octets[OF v4(4)])
    then show ?thesis unfolding verdict using v4 octets_dotted[OF v4(4,5)] reserved_v4_octets[of a b c d]
      by (simp add: isBlockedIpv4_def parseIpv4_def reserved_def)
  next
    case (full h)
    then show ?thesis unfolding verdict using family expand_full[of h env] reserved_v6_groups[of h]
      by (simp add: isBlockedIpv6_def reserved_def)
  next
    case (gap l r)
    let ?h = "l @ replicate (8 - length l - length r) 0 @ r"
    have "expandIpv6 env t = Some ?h"
      using gap family expand_gap[of "v6_full r" r l env]
      by (simp add: v6_gap_def groups_of_v6 parse_groups groups_def unpaired_v6 v6_text_plain)
    moreover have "reserved_v6 (number_in 65536 ?h) \<longleftrightarrow> blocked_hextets ?h"
      using gap by (intro reserved_v6_groups groups_zeros) auto
    ultimately show ?thesis unfolding verdict using gap
      by (simp add: isBlockedIpv6_def reserved_def)
  next
    case (mapped ns)
    let ?h = "[0, 0, 0, 0, 0, 0xffff] @ [ns ! 0 * 256 + ns ! 1, ns ! 2 * 256 + ns ! 3]"
    have "expandIpv6 env t = Some ?h" using mapped family expand_mapped[of ns env] by simp
    moreover have "reserved_v6 (number_in 65536 ?h) \<longleftrightarrow> blocked_hextets ?h"
      using mapped mapped_number(2) by (intro reserved_v6_groups) auto
    ultimately show ?thesis unfolding verdict using mapped mapped_number(1)[of ns]
      by (simp add: isBlockedIpv6_def reserved_def)
  qed
qed

text \<open>
  C10: Given a runtime that classifies addresses as it documents, a host
  is fetched from exactly when everything it denotes lies outside the reserved blocks: an address
  literal, in brackets or not, is refused just if it is reserved, and a name is refused as soon
  as one of the addresses it resolves to is, or when it resolves to none.
\<close>

theorem public_destinations_only:
  assumes "classifies env"
  shows "(\<forall>t f n. spells t f n \<longrightarrow>
      resolvePublicDestinations env t = (if reserved f n then fail BAD_REQUEST 400 else Inr [(t, f)]) \<and>
      resolvePublicDestinations env (CHR ''['' # t @ '']'') = resolvePublicDestinations env t) \<and>
    (\<forall>host answers ns. isIP env (stripIpv6Brackets host) = 0 \<longrightarrow> lookup_host env host = Some answers \<longrightarrow>
      list_all2 (\<lambda>(t, f) n. spells t f n) answers ns \<longrightarrow>
      resolvePublicDestinations env host =
        (if answers = [] \<or> list_ex (\<lambda>((t, f), n). reserved f n) (zip answers ns)
         then fail BAD_REQUEST 400 else Inr answers))"
proof (intro conjI allI impI)
  have family: "isIP env t = f \<and> (f = 4 \<or> f = 6)" if "spells t f n" for t f n
    using assms that unfolding classifies_def by (blast elim: spells.cases)
  show "resolvePublicDestinations env t = (if reserved f n then fail BAD_REQUEST 400 else Inr [(t, f)])"
    if "spells t f n" for t f n
    using family[OF that] spelled_verdict[OF assms that] spelled_not_bracketed[OF that]
    by (auto simp: resolvePublicDestinations_def)
  show "resolvePublicDestinations env (CHR ''['' # t @ '']'') = resolvePublicDestinations env t"
    if "spells t f n" for t f n
  proof -
    have "stripIpv6Brackets (CHR ''['' # t @ '']'') = t" by (simp add: stripIpv6Brackets_def)
    then show ?thesis using family[OF that] spelled_not_bracketed[OF that]
      by (auto simp: resolvePublicDestinations_def)
  qed
  show "resolvePublicDestinations env host = (if answers = [] \<or> list_ex (\<lambda>((t, f), n). reserved f n) (zip answers ns)
         then fail BAD_REQUEST 400 else Inr answers)"
    if host: "isIP env (stripIpv6Brackets host) = 0" "lookup_host env host = Some answers"
      "list_all2 (\<lambda>(t, f) n. spells t f n) answers ns" for host answers ns
  proof -
    from host(3) have "list_all (\<lambda>(_, f). f = 4 \<or> f = 6) answers"
    proof (induction rule: list_all2_induct)
      case (Cons x xs y ys)
      then show ?case using family by auto
    qed simp
    moreover from host(3) have "list_ex (\<lambda>(a, _). isBlockedIpAddress env a) answers \<longleftrightarrow>
        list_ex (\<lambda>((t, f), n). reserved f n) (zip answers ns)"
    proof (induction rule: list_all2_induct)
      case (Cons x xs y ys)
      then show ?case using spelled_verdict[OF assms] by (cases x) auto
    qed simp
    ultimately show ?thesis using host(1,2) by (simp add: resolvePublicDestinations_def Let_def)
  qed
qed

definition demo_net :: net_env where
  "demo_net =
     \<lparr>isIP = (\<lambda>t. if CHR '':'' \<in> set t then 6 else if ipv4_octets t \<noteq> None then 4 else 0),
      lookup_host = (\<lambda>h. if h = ''shop.test'' then Some [(''8.8.8.8'', 4), (''10.0.0.7'', 4)] else None)\<rparr>"

lemma demo_net_classifies: "classifies demo_net"
  unfolding classifies_def
proof (intro allI impI)
  fix t f n assume "spells t f n"
  moreover have "CHR '':'' \<notin> set (dotted ns)" for ns
    using set_joined[of "CHR ''.''" "map digits_of ns"] digits_no_char[of "CHR '':''"]
    by (auto simp: dotted_def is_digit_def)
  moreover have "CHR '':'' \<in> set (v6_full h)" if "length h = 8" for h
    by (rule eight_groups[OF that]) (simp add: v6_full_def)
  ultimately show "isIP demo_net t = f"
    by (cases rule: spells.cases) (simp_all add: demo_net_def octets_dotted v6_gap_def v6_mapped_def)
qed

text \<open>One private answer is enough to refuse a name; the mapped loopback address is refused too.\<close>

theorem public_destinations_only_witness:
  "resolvePublicDestinations demo_net ''shop.test'' = fail BAD_REQUEST 400 \<and>
   resolvePublicDestinations demo_net ''[::ffff:127.0.0.2]'' = fail BAD_REQUEST 400 \<and>
   resolvePublicDestinations demo_net ''8.8.8.8'' = Inr [(''8.8.8.8'', 4)]"
proof -
  have texts: "dotted [8, 8, 8, 8] = ''8.8.8.8''" "dotted [10, 0, 0, 7] = ''10.0.0.7''" "dotted [127, 0, 0, 2] = ''127.0.0.2''"
    by (simp_all add: dotted_def digits_of.simps digit_chars)
  have google: "spells ''8.8.8.8'' 4 (number_in 256 [8, 8, 8, 8])"
    and inner: "spells ''10.0.0.7'' 4 (number_in 256 [10, 0, 0, 7])"
    using spells.v4[of "[8, 8, 8, 8]"] spells.v4[of "[10, 0, 0, 7]"] by (simp_all add: texts)
  have mapped: "spells ''::ffff:127.0.0.2'' 6 (0xffff * 2 ^ 32 + number_in 256 [127, 0, 0, 2])"
    using spells.mapped[of "[127, 0, 0, 2]"] by (simp add: v6_mapped_def v6_full_def texts)
  have verdicts: "\<not> reserved_v4 (number_in 256 [8, 8, 8, 8])" "reserved_v4 (number_in 256 [10, 0, 0, 7])"
    "reserved_v6 (0xffff * 2 ^ 32 + number_in 256 [127, 0, 0, 2])"
  proof -
    have m: "number_in 256 [127, 0, 0, 2] = 2130706434" by (simp add: number_in_def)
    have "reserved_v4 2130706434" using reserved_v4_octets[of 127 0 0 2] unfolding m by simp
    then show "reserved_v6 (0xffff * 2 ^ 32 + number_in 256 [127, 0, 0, 2])"
      unfolding m by (simp add: reserved_v6_def in_block_def number_in_def)
    show "\<not> reserved_v4 (number_in 256 [8, 8, 8, 8])" using reserved_v4_octets[of 8 8 8 8] by simp
    show "reserved_v4 (number_in 256 [10, 0, 0, 7])" using reserved_v4_octets[of 10 0 0 7] by simp
  qed
  have answers: "list_all2 (\<lambda>(t, f) n. spells t f n) [(''8.8.8.8'', 4), (''10.0.0.7'', 4)]
      [number_in 256 [8, 8, 8, 8], number_in 256 [10, 0, 0, 7]]"
    using google inner by simp
  have name: "isIP demo_net (stripIpv6Brackets ''shop.test'') = 0"
    "lookup_host demo_net ''shop.test'' = Some [(''8.8.8.8'', 4), (''10.0.0.7'', 4)]"
    by code_simp+
  note all = public_destinations_only[OF demo_net_classifies]
  have literal: "resolvePublicDestinations demo_net ''8.8.8.8'' = Inr [(''8.8.8.8'', 4)]"
    using conjunct1[OF all] google verdicts(1) by (auto simp: reserved_def)
  have bracketed: "resolvePublicDestinations demo_net ''[::ffff:127.0.0.2]'' = fail BAD_REQUEST 400"
    using conjunct1[OF all, rule_format, OF mapped] verdicts(3) by (simp add: reserved_def)
  have "resolvePublicDestinations demo_net ''shop.test'' = fail BAD_REQUEST 400"
    using conjunct2[OF all, rule_format, OF name answers] verdicts(2) by (simp add: reserved_def)
  with literal bracketed show ?thesis by simp
qed

end
