(* ===== verification/Login_Policy.thy ===== *)
theory Login_Policy
  imports Invite_Service Ip_Text "HOL-Library.Word"
begin

section \<open>Allow-lists and bans\<close>

text \<open>
  \<^verbatim>\<open>login-domain-policy.service.ts\<close>, \<^verbatim>\<open>ban-policy.service.ts\<close> and
  \<^verbatim>\<open>internal-admin-bans.service.ts\<close>: who may finish a login on a client domain, and the
  administrators' ban list. The restrictions of organisations and teams are columns of their rows
  that no other modelled service touches; here they are maps from the row's id. The conversion of
  an international domain name to ASCII is a parameter of the runtime.
\<close>

unbundle bit_operations_syntax

datatype ban_type = EMAIL | PATTERN | USER | IP

record ban =
  bn_id :: string
  bn_domain :: string
  bn_orgId :: "string option"
  bn_teamId :: "string option"
  bn_type :: ban_type
  bn_value :: string
  bn_reason :: "string option"
  bn_createdByEmail :: "string option"
  bn_createdAt :: int

record allow_list =
  al_domains :: "string list"
  al_emails :: "string list"

record login_policy_db =
  lp_auth :: auth_db
  lp_clientAllow :: "string \<rightharpoonup> allow_list"
  lp_orgAllow :: "string \<Rightarrow> allow_list"
  lp_teamAllow :: "string \<Rightarrow> allow_list"
  lp_bans :: "ban list"

record policy_env =
  pe_auth :: auth_env
  domain_to_ascii :: "string \<Rightarrow> string"

subsection \<open>Patterns\<close>

text \<open>The anchored expression a glob is translated to, atom by atom, and the language of it: the
  dot of a regular expression is any character but a line terminator.\<close>

datatype regex_atom = Lit char | Any_Char | Any_Run

definition MAX_PATTERN_LENGTH :: nat where
  "MAX_PATTERN_LENGTH = 320"

definition glob_atoms :: "string \<Rightarrow> regex_atom list" where
  "glob_atoms s = map (\<lambda>c. if c = CHR ''*'' then Any_Run else if c = CHR ''?'' then Any_Char else Lit c) s"

definition regex_dot :: "char \<Rightarrow> bool" where
  "regex_dot c \<longleftrightarrow> (of_char c :: nat) \<notin> {10, 13}"

function regex_test :: "regex_atom list \<Rightarrow> string \<Rightarrow> bool" where
  "regex_test [] s \<longleftrightarrow> s = []"
| "regex_test (Lit c # r) s \<longleftrightarrow> (case s of [] \<Rightarrow> False | x # xs \<Rightarrow> x = c \<and> regex_test r xs)"
| "regex_test (Any_Char # r) s \<longleftrightarrow> (case s of [] \<Rightarrow> False | x # xs \<Rightarrow> regex_dot x \<and> regex_test r xs)"
| "regex_test (Any_Run # r) s \<longleftrightarrow>
     (case s of [] \<Rightarrow> False | x # xs \<Rightarrow> regex_dot x \<and> regex_test (Any_Run # r) xs) \<or> regex_test r s"
  by pat_completeness auto
termination
  by (relation "measure (\<lambda>(r, s). length r + length s)") auto

definition globMatches :: "string \<Rightarrow> string \<Rightarrow> bool" where
  "globMatches pattern value =
     (let trimmed = js_lower (js_trim pattern) in
      if trimmed = [] \<or> MAX_PATTERN_LENGTH < length trimmed then False
      else regex_test (glob_atoms trimmed) value)"

subsection \<open>Addresses\<close>

text \<open>
  \<open>Number(text)\<close> where its value is an integer: blank text is zero, a radix prefix or an optional
  sign with a decimal literal. A fraction counts as an integer when it is one exactly; the double
  the runtime compares could round a fraction of more than fifteen digits to an integer.
\<close>

definition radix_number :: "nat \<Rightarrow> string \<Rightarrow> int option" where
  "radix_number b s =
     (case all_some (map hex_value s) of
        Some ds \<Rightarrow> if s \<noteq> [] \<and> list_all (\<lambda>d. d < b) ds then Some (int (number_in b ds)) else None
      | None \<Rightarrow> None)"

definition signed_digits :: "string \<Rightarrow> int option" where
  "signed_digits s =
     (case s of
        [] \<Rightarrow> None
      | c # cs \<Rightarrow>
          if c = CHR ''-'' then (if cs \<noteq> [] \<and> all_digits cs then Some (- int (dec_nat cs)) else None)
          else if c = CHR ''+'' then (if cs \<noteq> [] \<and> all_digits cs then Some (int (dec_nat cs)) else None)
          else if all_digits s then Some (int (dec_nat s)) else None)"

definition scaled_integer :: "string \<Rightarrow> string \<Rightarrow> int \<Rightarrow> int option" where
  "scaled_integer whole fraction e =
     (let m = dec_nat (whole @ fraction); scale = e - int (length fraction) in
      if whole @ fraction = [] \<or> \<not> all_digits (whole @ fraction) then None
      else if 0 \<le> scale then Some (int m * 10 ^ nat scale)
      else if m mod 10 ^ nat (- scale) = 0 then Some (int (m div 10 ^ nat (- scale)))
      else None)"

definition decimal_integer :: "string \<Rightarrow> int option" where
  "decimal_integer s =
     (let parts = split_on (CHR ''e'') s; mantissa = split_on (CHR ''.'') (hd parts);
          e = (case parts of [_] \<Rightarrow> Some 0 | [_, x] \<Rightarrow> signed_digits x | _ \<Rightarrow> None)
      in case (mantissa, e) of
           ([w], Some n) \<Rightarrow> scaled_integer w [] n
         | ([w, f], Some n) \<Rightarrow> scaled_integer w f n
         | _ \<Rightarrow> None)"

definition js_integer :: "string \<Rightarrow> int option" where
  "js_integer text =
     (let s = js_trim text in
      if s = [] then Some 0
      else if take 2 s = ''0x'' then radix_number 16 (drop 2 s)
      else if take 2 s = ''0o'' then radix_number 8 (drop 2 s)
      else if take 2 s = ''0b'' then radix_number 2 (drop 2 s)
      else if hd s = CHR ''-'' then map_option uminus (decimal_integer (tl s))
      else if hd s = CHR ''+'' then decimal_integer (tl s)
      else decimal_integer s)"

definition ipv4ToInt :: "string \<Rightarrow> 32 word option" where
  "ipv4ToInt ip = map_option (foldl (\<lambda>acc n. acc * 256 + of_nat n) 0) (ipv4_octets ip)"

definition cidr_mask :: "nat \<Rightarrow> 32 word" where
  "cidr_mask bits = (if bits = 32 then 0xffffffff else NOT (push_bit (32 - bits) 1 - 1))"

definition ipMatches :: "string \<Rightarrow> string \<Rightarrow> bool" where
  "ipMatches banValue ip =
     (let ban = js_lower (js_trim banValue); candidate = js_lower (js_trim ip) in
      if ban = [] then False
      else if CHR ''/'' \<notin> set ban then ban = candidate
      else case split_on (CHR ''/'') ban of
        network # bitsRaw # _ \<Rightarrow>
          (case js_integer bitsRaw of
             None \<Rightarrow> False
           | Some bits \<Rightarrow>
               if bits < 0 \<or> bits > 32 then False
               else (case (ipv4ToInt network, ipv4ToInt candidate) of
                 (Some net, Some target) \<Rightarrow>
                   bits = 0 \<or> net AND cidr_mask (nat bits) = target AND cidr_mask (nat bits)
               | _ \<Rightarrow> False))
      | _ \<Rightarrow> False)"

subsection \<open>Rules\<close>

record principal =
  pr_email :: string
  pr_userId :: "string option"
  pr_ip :: "string option"

definition matchesRule :: "ban_type \<Rightarrow> string \<Rightarrow> principal \<Rightarrow> bool" where
  "matchesRule ty value p =
     (case ty of
        EMAIL \<Rightarrow> js_lower (js_trim value) = pr_email p
      | PATTERN \<Rightarrow> globMatches value (pr_email p)
      | USER \<Rightarrow> pr_userId p = Some value
      | IP \<Rightarrow> (case pr_ip p of None \<Rightarrow> False | Some ip \<Rightarrow> ipMatches value ip))"

text \<open>The organisations and teams of a user on the login domain, whatever the state of the
  membership.\<close>

definition login_orgs :: "org_db \<Rightarrow> string \<Rightarrow> string \<Rightarrow> string list" where
  "login_orgs t loginDomain userId =
     map om_orgId (filter (\<lambda>m. om_userId m = userId \<and> org_domain t (om_orgId m) = Some loginDomain) (org_members t))"

definition team_domain :: "org_db \<Rightarrow> string \<Rightarrow> string option" where
  "team_domain t teamId = Option.bind (findTeam t (\<lambda>r. t_id r = teamId)) (\<lambda>r. org_domain t (t_orgId r))"

definition login_teams :: "org_db \<Rightarrow> string \<Rightarrow> string \<Rightarrow> string list" where
  "login_teams t loginDomain userId =
     map tm_teamId (filter (\<lambda>m. tm_userId m = userId \<and> team_domain t (tm_teamId m) = Some loginDomain) (team_members t))"

definition ban_applies :: "string \<Rightarrow> string list \<Rightarrow> string list \<Rightarrow> ban \<Rightarrow> bool" where
  "ban_applies loginDomain orgIds teamIds b \<longleftrightarrow>
     bn_domain b = loginDomain \<and> bn_orgId b = None \<and> bn_teamId b = None \<or>
     (case bn_orgId b of None \<Rightarrow> False | Some i \<Rightarrow> i \<in> set orgIds) \<or>
     (case bn_teamId b of None \<Rightarrow> False | Some i \<Rightarrow> i \<in> set teamIds)"

definition is_login_superuser :: "auth_db \<Rightarrow> string \<Rightarrow> string \<Rightarrow> bool" where
  "is_login_superuser db loginDomain userId \<longleftrightarrow> (loginDomain, userId) \<in> set (superusers db)"

definition assertNotBannedAtLogin ::
  "policy_env \<Rightarrow> string \<Rightarrow> string \<Rightarrow> string option \<Rightarrow> 'z login_policy_db_scheme \<Rightarrow> unit checked" where
  "assertNotBannedAtLogin env userId rawDomain ip db =
     (if \<not> database_url (tenant_env (pe_auth env)) then Inr () else
      let loginDomain = normalizeDomain rawDomain; auth = lp_auth db in
      case findUser auth userId of
        None \<Rightarrow> Inr ()
      | Some user \<Rightarrow>
          if is_login_superuser auth loginDomain userId then Inr ()
          else (let orgIds = login_orgs (tenant auth) loginDomain userId;
                    teamIds = login_teams (tenant auth) loginDomain userId;
                    bans = filter (ban_applies loginDomain orgIds teamIds) (lp_bans db);
                    p = \<lparr>pr_email = js_lower (js_trim (u_email user)), pr_userId = Some userId, pr_ip = ip\<rparr>
                in if list_ex (\<lambda>b. matchesRule (bn_type b) (bn_value b) p) bans
                   then refuse_with FORBIDDEN 403 ''ACCESS_DENIED'' else Inr ()))"

definition isPrincipalBannedForRegistration ::
  "policy_env \<Rightarrow> string \<Rightarrow> string \<Rightarrow> string option \<Rightarrow> 'z login_policy_db_scheme \<Rightarrow> bool" where
  "isPrincipalBannedForRegistration env rawDomain email ip db =
     (if \<not> database_url (tenant_env (pe_auth env)) then False else
      let domain = normalizeDomain rawDomain;
          bans = filter (\<lambda>b. bn_domain b = domain \<and> bn_orgId b = None \<and> bn_teamId b = None \<and>
            bn_type b \<in> {EMAIL, PATTERN, IP}) (lp_bans db);
          p = \<lparr>pr_email = js_lower (js_trim email), pr_userId = None, pr_ip = ip\<rparr>
      in list_ex (\<lambda>b. matchesRule (bn_type b) (bn_value b) p) bans)"

subsection \<open>Allow-lists\<close>

definition lowerList :: "string list \<Rightarrow> string list" where
  "lowerList values = filter (\<lambda>v. v \<noteq> []) (map (\<lambda>v. js_lower (js_trim v)) values)"

definition strip_dot :: "string \<Rightarrow> string" where
  "strip_dot s = (if s \<noteq> [] \<and> last s = CHR ''.'' then butlast s else s)"

text \<open>What follows the last \<open>@\<close>.\<close>

definition extractEmailDomain :: "policy_env \<Rightarrow> string \<Rightarrow> string option" where
  "extractEmailDomain env email =
     (if CHR ''@'' \<notin> set email \<or> last email = CHR ''@'' then None
      else (let domain = domain_to_ascii env (strip_dot (js_trim (rev (takeWhile (\<lambda>c. c \<noteq> CHR ''@'') (rev email)))))
            in if domain = [] then None else Some (js_lower domain)))"

definition no_restriction :: allow_list where
  "no_restriction = \<lparr>al_domains = [], al_emails = []\<rparr>"

definition lower_restriction :: "allow_list \<Rightarrow> allow_list" where
  "lower_restriction a = \<lparr>al_domains = lowerList (al_domains a), al_emails = lowerList (al_emails a)\<rparr>"

definition restriction_lists :: "'z login_policy_db_scheme \<Rightarrow> string \<Rightarrow> string \<Rightarrow> allow_list list" where
  "restriction_lists db loginDomain userId =
     filter (\<lambda>a. al_domains a \<noteq> [] \<or> al_emails a \<noteq> [])
       (map lower_restriction
         ((case lp_clientAllow db loginDomain of None \<Rightarrow> no_restriction | Some a \<Rightarrow> a) #
          map (lp_orgAllow db) (login_orgs (tenant (lp_auth db)) loginDomain userId) @
          map (lp_teamAllow db) (login_teams (tenant (lp_auth db)) loginDomain userId)))"

definition listed :: "string \<Rightarrow> string option \<Rightarrow> allow_list \<Rightarrow> bool" where
  "listed email emailDomain a \<longleftrightarrow>
     (case emailDomain of None \<Rightarrow> False | Some d \<Rightarrow> d \<in> set (al_domains a)) \<or> email \<in> set (al_emails a)"

definition assertEmailDomainAllowedForLogin ::
  "policy_env \<Rightarrow> string \<Rightarrow> string \<Rightarrow> 'z login_policy_db_scheme \<Rightarrow> unit checked" where
  "assertEmailDomainAllowedForLogin env userId rawDomain db =
     (if \<not> database_url (tenant_env (pe_auth env)) then Inr () else
      let loginDomain = normalizeDomain rawDomain; auth = lp_auth db in
      case findUser auth userId of
        None \<Rightarrow> Inr ()
      | Some user \<Rightarrow>
          if is_login_superuser auth loginDomain userId then Inr ()
          else if list_all (listed (js_lower (js_trim (u_email user))) (extractEmailDomain env (u_email user)))
                    (restriction_lists db loginDomain userId)
            then Inr ()
          else refuse_with FORBIDDEN 403 ''EMAIL_DOMAIN_NOT_ALLOWED'')"

definition isEmailAdminAllowedForRegistration ::
  "policy_env \<Rightarrow> string \<Rightarrow> string \<Rightarrow> 'z login_policy_db_scheme \<Rightarrow> bool" where
  "isEmailAdminAllowedForRegistration env domain email db =
     (if \<not> database_url (tenant_env (pe_auth env)) then False else
      case lp_clientAllow db (normalizeDomain domain) of
        None \<Rightarrow> False
      | Some a \<Rightarrow> listed (js_lower (js_trim email)) (extractEmailDomain env email) (lower_restriction a))"

subsection \<open>The administrators' list\<close>

record ban_input =
  bi_type :: ban_type
  bi_value :: string
  bi_domain :: string
  bi_orgId :: "string option"
  bi_teamId :: "string option"
  bi_reason :: "string option"
  bi_createdByEmail :: "string option"

record admin_ban_record =
  ab_id :: string
  ab_value :: string
  ab_label :: string
  ab_bannedAt :: int
  ab_reason :: "string option"

record admin_bans =
  ab_emails :: "admin_ban_record list"
  ab_patterns :: "admin_ban_record list"
  ab_ips :: "admin_ban_record list"
  ab_users :: "admin_ban_record list"

definition scopeLabel :: "org_db \<Rightarrow> ban \<Rightarrow> string" where
  "scopeLabel t b =
     (case Option.bind (bn_teamId b) (\<lambda>i. findTeam t (\<lambda>r. t_id r = i)) of
        Some team \<Rightarrow> bn_domain b @ '' '' @ [CHR 0xB7] @ '' team '' @ t_name team
      | None \<Rightarrow>
          (case Option.bind (bn_orgId b) (findOrg t) of
             Some org \<Rightarrow> bn_domain b @ '' '' @ [CHR 0xB7] @ '' org '' @ o_name org
           | None \<Rightarrow> bn_domain b))"

definition toRecord :: "org_db \<Rightarrow> ban \<Rightarrow> admin_ban_record" where
  "toRecord t b =
     \<lparr>ab_id = bn_id b, ab_value = bn_value b, ab_label = scopeLabel t b, ab_bannedAt = bn_createdAt b,
      ab_reason = (if truthy (bn_reason b) then bn_reason b else None)\<rparr>"

definition listAdminBans :: "policy_env \<Rightarrow> 'z login_policy_db_scheme \<Rightarrow> admin_bans" where
  "listAdminBans env db =
     (let rows = (if database_url (tenant_env (pe_auth env))
                  then js_sort (\<lambda>a b. bn_createdAt b - bn_createdAt a) (lp_bans db) else []);
          bucket = (\<lambda>ty. map (toRecord (tenant (lp_auth db))) (filter (\<lambda>b. bn_type b = ty) rows))
      in \<lparr>ab_emails = bucket EMAIL, ab_patterns = bucket PATTERN, ab_ips = bucket IP, ab_users = bucket USER\<rparr>)"

definition ban_value :: "ban_input \<Rightarrow> string" where
  "ban_value input =
     (if bi_type input = EMAIL then js_lower (js_trim (bi_value input)) else js_trim (bi_value input))"

definition ban_scope :: "org_db \<Rightarrow> ban_input \<Rightarrow> (string option \<times> string option) checked" where
  "ban_scope t input =
     (let on_domain = (\<lambda>d. map_option normalizeDomain d = Some (normalizeDomain (bi_domain input))) in
      if truthy (bi_teamId input) then
        (if on_domain (team_domain t (the (bi_teamId input))) then Inr (None, bi_teamId input)
         else refuse_with BAD_REQUEST 400 ''BAN_SCOPE_INVALID'')
      else if truthy (bi_orgId input) then
        (if on_domain (org_domain t (the (bi_orgId input))) then Inr (bi_orgId input, None)
         else refuse_with BAD_REQUEST 400 ''BAN_SCOPE_INVALID'')
      else Inr (None, None))"

definition same_ban :: "ban_input \<Rightarrow> string option \<times> string option \<Rightarrow> ban \<Rightarrow> bool" where
  "same_ban input scope b \<longleftrightarrow>
     bn_domain b = normalizeDomain (bi_domain input) \<and> bn_orgId b = fst scope \<and> bn_teamId b = snd scope \<and>
     bn_type b = bi_type input \<and> bn_value b = ban_value input"

definition blank_to_none :: "string option \<Rightarrow> string option" where
  "blank_to_none s = (case map_option js_trim s of Some (c # cs) \<Rightarrow> Some (c # cs) | _ \<Rightarrow> None)"

definition new_ban :: "policy_env \<Rightarrow> ban_input \<Rightarrow> string option \<times> string option \<Rightarrow> ban" where
  "new_ban env input scope =
     \<lparr>bn_id = fresh_id (tenant_env (pe_auth env)) 0, bn_domain = normalizeDomain (bi_domain input),
      bn_orgId = fst scope, bn_teamId = snd scope, bn_type = bi_type input, bn_value = ban_value input,
      bn_reason = blank_to_none (bi_reason input), bn_createdByEmail = bi_createdByEmail input,
      bn_createdAt = now (pe_auth env)\<rparr>"

definition createAdminBan ::
  "policy_env \<Rightarrow> ban_input \<Rightarrow> 'z login_policy_db_scheme \<Rightarrow> (thrown + admin_ban_record) \<times> 'z login_policy_db_scheme"
  where
  "createAdminBan env input db =
     (let t = tenant (lp_auth db) in
      if \<not> database_url (tenant_env (pe_auth env)) then (refuse_with INTERNAL 500 ''DATABASE_DISABLED'', db)
      else if ban_value input = [] then (refuse_with BAD_REQUEST 400 ''INVALID_BAN_VALUE'', db)
      else case ban_scope t input of
        Inl e \<Rightarrow> (Inl e, db)
      | Inr scope \<Rightarrow>
          (case List.find (same_ban input scope) (lp_bans db) of
             Some b \<Rightarrow> (Inr (toRecord t b), db)
           | None \<Rightarrow>
               (let b = new_ban env input scope in
                if bn_id b \<in> bn_id ` set (lp_bans db) then (Inl (Db_Error ''P2002''), db)
                else (Inr (toRecord t b), db\<lparr>lp_bans := lp_bans db @ [b]\<rparr>))))"

definition deleteAdminBan ::
  "policy_env \<Rightarrow> string \<Rightarrow> 'z login_policy_db_scheme \<Rightarrow> (thrown + string) \<times> 'z login_policy_db_scheme" where
  "deleteAdminBan env i db =
     (if \<not> database_url (tenant_env (pe_auth env)) then (refuse_with INTERNAL 500 ''DATABASE_DISABLED'', db)
      else if \<not> list_ex (\<lambda>b. bn_id b = i) (lp_bans db) then (refuse_with NOT_FOUND 404 ''BAN_NOT_FOUND'', db)
      else (Inr i, db\<lparr>lp_bans := filter (\<lambda>b. bn_id b \<noteq> i) (lp_bans db)\<rparr>))"

end
