(* ===== verification/Login_Policy_Properties.thy ===== *)
theory Login_Policy_Properties
  imports Login_Policy Auth_Demo
begin

section \<open>What a ban covers\<close>

text \<open>
  Globs against the shell reading of a pattern, CIDR rules against the leading bits of the address,
  and the life of a ban from its entry over the logins it refuses to its deletion.
\<close>

subsection \<open>Patterns\<close>

text \<open>The shell reading of a pattern: its characters stand for consecutive pieces of the text.\<close>

definition piece :: "char \<Rightarrow> string \<Rightarrow> bool" where
  "piece c w \<longleftrightarrow>
     (if c = CHR ''*'' then list_all regex_dot w
      else if c = CHR ''?'' then length w = 1 \<and> list_all regex_dot w
      else w = [c])"

definition shell_matches :: "string \<Rightarrow> string \<Rightarrow> bool" where
  "shell_matches pattern s \<longleftrightarrow> (\<exists>ws. s = concat ws \<and> list_all2 piece pattern ws)"

lemma shell_Nil: "shell_matches [] s \<longleftrightarrow> s = []"
  by (auto simp: shell_matches_def)

lemma shell_Cons: "shell_matches (c # p) s \<longleftrightarrow> (\<exists>w r. s = w @ r \<and> piece c w \<and> shell_matches p r)"
proof
  assume "shell_matches (c # p) s"
  then obtain w ws where "s = w @ concat ws" "piece c w" "list_all2 piece p ws"
    by (auto simp: shell_matches_def list_all2_Cons1)
  then show "\<exists>w r. s = w @ r \<and> piece c w \<and> shell_matches p r" by (auto simp: shell_matches_def)
next
  assume "\<exists>w r. s = w @ r \<and> piece c w \<and> shell_matches p r"
  then obtain w ws where "s = w @ concat ws" "piece c w" "list_all2 piece p ws" by (auto simp: shell_matches_def)
  then show "shell_matches (c # p) s" unfolding shell_matches_def by (intro exI[of _ "w # ws"]) simp
qed

lemma shell_any: "shell_matches (CHR ''?'' # p) s \<longleftrightarrow> (\<exists>x xs. s = x # xs \<and> regex_dot x \<and> shell_matches p xs)"
proof -
  have "piece (CHR ''?'') w \<longleftrightarrow> (\<exists>x. w = [x] \<and> regex_dot x)" for w
    by (cases w) (auto simp: piece_def)
  moreover have "(\<exists>w r. s = w @ r \<and> (\<exists>x. w = [x] \<and> regex_dot x) \<and> shell_matches p r) \<longleftrightarrow>
      (\<exists>x xs. s = x # xs \<and> regex_dot x \<and> shell_matches p xs)"
    by (auto intro: exI[of _ "[_]"])
  ultimately show ?thesis unfolding shell_Cons by simp
qed

lemma shell_literal:
  "c \<noteq> CHR ''*'' \<Longrightarrow> c \<noteq> CHR ''?'' \<Longrightarrow> shell_matches (c # p) s \<longleftrightarrow> (\<exists>xs. s = c # xs \<and> shell_matches p xs)"
  unfolding shell_Cons by (simp add: piece_def)

lemma shell_star:
  "shell_matches (CHR ''*'' # p) s \<longleftrightarrow>
     shell_matches p s \<or> (\<exists>x xs. s = x # xs \<and> regex_dot x \<and> shell_matches (CHR ''*'' # p) xs)"
proof
  assume "shell_matches (CHR ''*'' # p) s"
  then obtain w r where w: "s = w @ r" "piece (CHR ''*'') w" "shell_matches p r" by (auto simp: shell_Cons)
  show "shell_matches p s \<or> (\<exists>x xs. s = x # xs \<and> regex_dot x \<and> shell_matches (CHR ''*'' # p) xs)"
  proof (cases w)
    case Nil
    then show ?thesis using w by simp
  next
    case (Cons x xs)
    then have "shell_matches (CHR ''*'' # p) (xs @ r)"
      using w unfolding shell_Cons by (intro exI[of _ xs] exI[of _ r]) (simp add: piece_def)
    then show ?thesis using w Cons by (simp add: piece_def)
  qed
next
  assume "shell_matches p s \<or> (\<exists>x xs. s = x # xs \<and> regex_dot x \<and> shell_matches (CHR ''*'' # p) xs)"
  then show "shell_matches (CHR ''*'' # p) s"
  proof (elim disjE exE conjE)
    assume "shell_matches p s"
    then show ?thesis unfolding shell_Cons by (intro exI[of _ "[]"] exI[of _ s]) (simp add: piece_def)
  next
    fix x xs assume "s = x # xs" "regex_dot x" "shell_matches (CHR ''*'' # p) xs"
    moreover from this obtain w r where "xs = w @ r" "piece (CHR ''*'') w" "shell_matches p r"
      by (auto simp: shell_Cons)
    ultimately show ?thesis
      unfolding shell_Cons by (intro exI[of _ "x # w"] exI[of _ r]) (simp add: piece_def)
  qed
qed

lemma regex_test_shell: "regex_test (glob_atoms p) s \<longleftrightarrow> shell_matches p s"
proof (induction "length p + length s" arbitrary: p s rule: less_induct)
  case less
  show ?case
  proof (cases p)
    case Nil
    then show ?thesis by (simp add: glob_atoms_def shell_Nil)
  next
    case (Cons c q)
    have shorter: "regex_test (glob_atoms q) t \<longleftrightarrow> shell_matches q t" if "length t \<le> length s" for t
      using less[of q t] that Cons by simp
    have again: "regex_test (glob_atoms p) xs \<longleftrightarrow> shell_matches p xs" if "s = x # xs" for x xs
      using less[of p xs] that by simp
    have atoms: "glob_atoms p = (if c = CHR ''*'' then Any_Run else if c = CHR ''?'' then Any_Char else Lit c) # glob_atoms q"
      by (simp add: glob_atoms_def Cons)
    consider "c = CHR ''*''" | "c = CHR ''?''" | "c \<noteq> CHR ''*''" "c \<noteq> CHR ''?''" by blast
    then show ?thesis
    proof cases
      case 1
      with atoms have run: "glob_atoms p = Any_Run # glob_atoms q" by simp
      have star: "shell_matches p s \<longleftrightarrow>
          shell_matches q s \<or> (\<exists>x xs. s = x # xs \<and> regex_dot x \<and> shell_matches p xs)"
        using shell_star[of q s] Cons 1 by simp
      have "regex_test (Any_Run # glob_atoms q) s \<longleftrightarrow>
          regex_test (glob_atoms q) s \<or> (\<exists>x xs. s = x # xs \<and> regex_dot x \<and> regex_test (Any_Run # glob_atoms q) xs)"
        by (cases s) auto
      moreover have "regex_test (Any_Run # glob_atoms q) xs \<longleftrightarrow> shell_matches p xs" if "s = x # xs" for x xs
        using again[OF that] run by simp
      ultimately show ?thesis using star shorter[of s] run by auto
    next
      case 2
      with atoms have "glob_atoms p = Any_Char # glob_atoms q" by simp
      then show ?thesis using shorter[of "tl s"] shell_any[of q s] Cons 2 by (cases s) simp_all
    next
      case 3
      with atoms have "glob_atoms p = Lit c # glob_atoms q" by simp
      then show ?thesis using shorter[of "tl s"] shell_literal[OF 3, of q s] Cons by (cases s) auto
    qed
  qed
qed

subsection \<open>Address blocks\<close>

lemma word_of_octets: "foldl (\<lambda>acc n. acc * 256 + of_nat n) (of_nat a) ns = (of_nat (foldl (\<lambda>a n. a * 256 + n) a ns) :: 32 word)"
proof (induction ns arbitrary: a)
  case (Cons n ns)
  show ?case using Cons[of "a * 256 + n"] by simp
qed simp

lemma ipv4ToInt_dotted:
  assumes "length ns = 4" "\<forall>n \<in> set ns. n \<le> 255"
  shows "ipv4ToInt (dotted ns) = Some (of_nat (number_in 256 ns))" "number_in 256 ns < 2 ^ 32"
proof -
  show "ipv4ToInt (dotted ns) = Some (of_nat (number_in 256 ns))"
    using word_of_octets[of 0 ns] octets_dotted[OF assms] by (simp add: ipv4ToInt_def number_in_def)
  have "\<forall>n \<in> set ns. n < 256" using assms(2) by auto
  then show "number_in 256 ns < 2 ^ 32" using number_in_bound[of ns 256] assms(1) by simp
qed

lemma cidr_mask_prefix:
  assumes "k \<le> 32"
  shows "x AND cidr_mask k = y AND cidr_mask k \<longleftrightarrow> drop_bit (32 - k) x = drop_bit (32 - k) y"
proof -
  have mask: "cidr_mask k = NOT (mask (32 - k))"
    by (auto simp: cidr_mask_def mask_eq_exp_minus_1 push_bit_of_1)
  have cut: "z AND NOT (mask n) = push_bit n (drop_bit n z)" for z :: "32 word" and n
    by (rule bit_eqI) (auto simp: bit_simps)
  have "drop_bit n (push_bit n (drop_bit n z)) = drop_bit n z" for z :: "32 word" and n
    by (rule bit_eqI) (auto simp: bit_simps dest: bit_imp_le_length)
  then show ?thesis unfolding mask cut by metis
qed

lemma drop_bit_number:
  "m < 2 ^ 32 \<Longrightarrow> n < 2 ^ 32 \<Longrightarrow>
     drop_bit k (of_nat m :: 32 word) = drop_bit k (of_nat n) \<longleftrightarrow> m div 2 ^ k = n div 2 ^ k"
proof -
  assume small: "m < 2 ^ 32" "n < 2 ^ 32"
  have "unat (drop_bit k (of_nat z :: 32 word)) = z div 2 ^ k" if "z < 2 ^ 32" for z
    using that by (simp only: unat_drop_bit_eq unat_of_nat) (simp add: drop_bit_eq_div)
  with small show ?thesis by (metis word_unat_eq_iff)
qed

subsection \<open>Rules on texts\<close>

definition octets :: "nat list \<Rightarrow> bool" where
  "octets ns \<longleftrightarrow> length ns = 4 \<and> (\<forall>n \<in> set ns. n \<le> 255)"

lemma trim_spaceless: "\<forall>c \<in> set s. \<not> js_space c \<Longrightarrow> js_trim s = s"
proof -
  assume s: "\<forall>c \<in> set s. \<not> js_space c"
  have keep: "dropWhile js_space t = t" if "\<forall>c \<in> set t. \<not> js_space c" for t
    using that by (cases t) auto
  show ?thesis using s keep[of s] keep[of "rev s"] by (simp add: js_trim_def)
qed

lemma digit_plain: "is_digit c \<Longrightarrow> \<not> js_space c \<and> lower_char c = c"
  by (auto simp: is_digit_def js_space_def lower_char_def Let_def)

lemma dotted_chars: "c \<in> set (dotted ns) \<Longrightarrow> c = CHR ''.'' \<or> is_digit c"
  using set_joined[of "CHR ''.''" "map digits_of ns"] all_digits_of
  by (fastforce simp: dotted_def all_digits_def list_all_iff)

text \<open>A text of digits, dots and slashes is left alone by trimming and lower-casing.\<close>

lemma address_text:
  assumes "\<forall>c \<in> set s. c = CHR ''.'' \<or> c = CHR ''/'' \<or> is_digit c"
  shows "js_trim s = s" "js_lower s = s"
proof -
  have "\<not> js_space c \<and> lower_char c = c" if "c \<in> set s" for c
  proof -
    have "\<not> js_space (CHR ''.'') \<and> lower_char (CHR ''.'') = CHR ''.''"
      "\<not> js_space (CHR ''/'') \<and> lower_char (CHR ''/'') = CHR ''/''"
      by (simp_all add: js_space_def lower_char_def)
    then show ?thesis using assms[rule_format, OF that] digit_plain[of c] by (elim disjE) simp_all
  qed
  then show "js_trim s = s" "js_lower s = s"
    unfolding js_lower_def using trim_spaceless[of s] map_idI[of s lower_char] by blast+
qed

lemma dotted_plain: "js_trim (dotted ns) = dotted ns" "js_lower (dotted ns) = dotted ns"
  using address_text[of "dotted ns"] dotted_chars[of _ ns] by blast+

lemma js_integer_digits: "js_integer (digits_of k) = Some (int k)"
proof -
  let ?s = "digits_of k"
  have absent: "c \<notin> set ?s" if "\<not> is_digit c" for c using digits_no_char[OF that] .
  have plain: "js_trim ?s = ?s"
    using all_digits_of[of k] digit_plain by (intro trim_spaceless) (auto simp: all_digits_def list_all_iff)
  have not_radix: "take 2 ?s \<noteq> [CHR ''0'', c]" if "\<not> is_digit c" for c
    using absent[OF that] by (metis in_set_takeD list.set_intros(1) list.set_intros(2))
  have not_sign: "hd ?s \<noteq> c" if "\<not> is_digit c" for c
    using absent[OF that] hd_in_set[OF digits_of_nonempty[of k]] by auto
  have letters: "\<not> is_digit (CHR ''x'')" "\<not> is_digit (CHR ''o'')" "\<not> is_digit (CHR ''b'')" "\<not> is_digit (CHR ''e'')"
    "\<not> is_digit (CHR ''+'')" "\<not> is_digit (CHR ''-'')" "\<not> is_digit (CHR ''.'')"
    by (simp_all add: is_digit_def)
  have "decimal_integer ?s = Some (int k)"
    by (simp add: decimal_integer_def split_on_no_sep absent letters scaled_integer_def)
  then show ?thesis by (simp add: js_integer_def plain not_radix not_sign letters)
qed

lemma slash_split: "split_on (CHR ''/'') (dotted ns @ CHR ''/'' # s) = dotted ns # split_on (CHR ''/'') s"
proof -
  have "CHR ''/'' \<notin> set (dotted ns)" using dotted_chars[of "CHR ''/''" ns] by (auto simp: is_digit_def)
  then show ?thesis by (rule split_on_append)
qed

lemma ip_rule_text:
  assumes "octets ns" "octets ms" "all_digits s" "js_integer s = Some (int k)" "k \<le> 32"
  shows "ipMatches (dotted ns @ CHR ''/'' # s) (dotted ms) \<longleftrightarrow>
    number_in 256 ns div 2 ^ (32 - k) = number_in 256 ms div 2 ^ (32 - k)"
proof -
  let ?v = "dotted ns @ CHR ''/'' # s"
  have v: "js_trim ?v = ?v" "js_lower ?v = ?v"
  proof -
    have "\<forall>c \<in> set ?v. c = CHR ''.'' \<or> c = CHR ''/'' \<or> is_digit c"
      using dotted_chars[of _ ns] assms(3) by (auto simp: all_digits_def list_all_iff)
    then show "js_trim ?v = ?v" "js_lower ?v = ?v" by (rule address_text)+
  qed
  have "CHR ''/'' \<notin> set s" using assms(3) by (auto simp: all_digits_def list_all_iff is_digit_def)
  then have parts: "split_on (CHR ''/'') ?v = [dotted ns, s]" by (simp add: slash_split split_on_no_sep)
  note nets = ipv4ToInt_dotted[of ns] ipv4ToInt_dotted[of ms]
  have "ipMatches ?v (dotted ms) \<longleftrightarrow> k = 0 \<or>
      (of_nat (number_in 256 ns) :: 32 word) AND cidr_mask k = of_nat (number_in 256 ms) AND cidr_mask k"
    using nets assms(1,2,4,5) by (simp add: ipMatches_def v dotted_plain parts octets_def)
  also have "\<dots> \<longleftrightarrow> number_in 256 ns div 2 ^ (32 - k) = number_in 256 ms div 2 ^ (32 - k)"
    using nets assms(1,2,5) by (auto simp: cidr_mask_prefix drop_bit_number octets_def)
  finally show ?thesis .
qed

text \<open>
  C23: A pattern bans an address just when the shell reading of it covers the whole
  address: a star stands for any run of characters, a question mark for one, everything else,
  special characters of regular expressions included, for itself; a pattern that is blank or too
  long bans nobody. A rule \<open>a.b.c.d/n\<close> bans the IPv4 addresses that share the first \<open>n\<close> bits,
  an address without a slash bans itself alone, and a rule that stops at the slash bans every
  IPv4 address.
\<close>

theorem ban_rules_exact:
  "(\<forall>pattern p. matchesRule PATTERN pattern p \<longleftrightarrow>
      js_lower (js_trim pattern) \<noteq> [] \<and> length (js_trim pattern) \<le> MAX_PATTERN_LENGTH \<and>
      shell_matches (js_lower (js_trim pattern)) (pr_email p)) \<and>
   (\<forall>ns ms k p. octets ns \<longrightarrow> octets ms \<longrightarrow> k \<le> 32 \<longrightarrow> pr_ip p = Some (dotted ms) \<longrightarrow>
      (matchesRule IP (dotted ns @ CHR ''/'' # digits_of k) p \<longleftrightarrow>
         number_in 256 ns div 2 ^ (32 - k) = number_in 256 ms div 2 ^ (32 - k))) \<and>
   (\<forall>ns ms p. octets ns \<longrightarrow> octets ms \<longrightarrow> pr_ip p = Some (dotted ms) \<longrightarrow>
      (matchesRule IP (dotted ns) p \<longleftrightarrow> ns = ms) \<and> matchesRule IP (dotted ns @ ''/'') p)"
proof (intro conjI allI impI)
  show "matchesRule PATTERN pattern p \<longleftrightarrow>
      js_lower (js_trim pattern) \<noteq> [] \<and> length (js_trim pattern) \<le> MAX_PATTERN_LENGTH \<and>
      shell_matches (js_lower (js_trim pattern)) (pr_email p)" for pattern p
    by (simp add: matchesRule_def globMatches_def regex_test_shell not_less Let_def)
  fix ns ms k and p :: principal
  assume ns: "octets ns" and ms: "octets ms" and ip: "pr_ip p = Some (dotted ms)"
  show "matchesRule IP (dotted ns @ CHR ''/'' # digits_of k) p \<longleftrightarrow>
         number_in 256 ns div 2 ^ (32 - k) = number_in 256 ms div 2 ^ (32 - k)" if "k \<le> 32"
    using ip_rule_text[OF ns ms all_digits_of js_integer_digits that] ip by (simp add: matchesRule_def)
  have blank: "js_integer [] = Some (int 0)" by (simp add: js_integer_def js_trim_def)
  have small: "number_in 256 ks < 2 ^ 32" if "octets ks" for ks
    using ipv4ToInt_dotted(2)[of ks] that by (simp add: octets_def)
  show "matchesRule IP (dotted ns @ ''/'') p"
    using ip_rule_text[OF ns ms _ blank] ip small[OF ns] small[OF ms] by (simp add: matchesRule_def)
  have slashless: "CHR ''/'' \<notin> set (dotted ns)" using dotted_chars[of "CHR ''/''" ns] by (auto simp: is_digit_def)
  have nonempty: "dotted ns \<noteq> []"
    using ns joined_eq_Nil[of "map digits_of ns" "CHR ''.''"] by (auto simp: dotted_def octets_def)
  have "ipMatches (dotted ns) (dotted ms) \<longleftrightarrow> dotted ns = dotted ms"
    using slashless nonempty by (simp add: ipMatches_def dotted_plain)
  also have "\<dots> \<longleftrightarrow> ns = ms"
    using ns ms by (metis octets_def octets_dotted option.inject)
  finally show "matchesRule IP (dotted ns) p \<longleftrightarrow> ns = ms" using ip by (simp add: matchesRule_def)
qed

definition demo_principal :: "nat list \<Rightarrow> principal" where
  "demo_principal ip = \<lparr>pr_email = ''eve@spam.test'', pr_userId = None, pr_ip = Some (dotted ip)\<rparr>"

theorem ban_rules_exact_witness:
  "matchesRule PATTERN '' *@SPAM.* '' (demo_principal []) \<and>
   matchesRule IP (dotted [10, 16, 0, 0] @ CHR ''/'' # digits_of 12) (demo_principal [10, 31, 255, 9]) \<and>
   \<not> matchesRule IP (dotted [10, 16, 0, 0] @ CHR ''/'' # digits_of 12) (demo_principal [10, 32, 0, 0]) \<and>
   matchesRule IP (dotted [10, 16, 0, 0] @ ''/'') (demo_principal [8, 8, 8, 8])"
proof -
  have some: "octets [10, 16, 0, 0]" "octets [10, 31, 255, 9]" "octets [10, 32, 0, 0]" "octets [8, 8, 8, 8]"
    by (simp_all add: octets_def)
  have ip: "pr_ip (demo_principal ns) = Some (dotted ns)" for ns by (simp add: demo_principal_def)
  have pattern: "js_lower (js_trim '' *@SPAM.* '') = ''*@spam.*''" "length (js_trim '' *@SPAM.* '') = 8"
    by code_simp+
  have "shell_matches ''*@spam.*'' ''eve@spam.test''"
    unfolding shell_matches_def
    by (rule exI[of _ "[''eve'', ''@'', ''s'', ''p'', ''a'', ''m'', ''.'', ''test'']"])
      (simp add: piece_def regex_dot_def)
  note all = ban_rules_exact
  have "matchesRule PATTERN '' *@SPAM.* '' (demo_principal [])"
    using conjunct1[OF all, rule_format, of "'' *@SPAM.* ''" "demo_principal []"] pattern
      \<open>shell_matches ''*@spam.*'' ''eve@spam.test''\<close>
    by (simp add: demo_principal_def MAX_PATTERN_LENGTH_def)
  then show ?thesis
    using all some ip
    by (simp add: number_in_def)
qed

subsection \<open>The life of a ban\<close>

text \<open>A ban input reaches a user of a login domain when it is entered for that domain and for no
  narrower scope, or for an organisation or team of the user there.\<close>

definition ban_reaches :: "org_db \<Rightarrow> string \<Rightarrow> string \<Rightarrow> ban_input \<Rightarrow> bool" where
  "ban_reaches t loginDomain userId input \<longleftrightarrow>
     (if truthy (bi_teamId input) then the (bi_teamId input) \<in> set (login_teams t loginDomain userId)
      else if truthy (bi_orgId input) then the (bi_orgId input) \<in> set (login_orgs t loginDomain userId)
      else normalizeDomain (bi_domain input) = loginDomain)"

lemma truthy_Some: "truthy x \<Longrightarrow> x = Some (the x)"
  by (cases x) (auto simp: truthy_def)

lemma ban_scopeD:
  assumes "ban_scope t input = Inr scope"
  shows "scope = (if truthy (bi_teamId input) then (None, bi_teamId input)
                  else if truthy (bi_orgId input) then (bi_orgId input, None) else (None, None))"
  using assms by (auto simp: ban_scope_def Let_def split: if_splits)

lemma find_snoc: "List.find P xs = None \<Longrightarrow> P x \<Longrightarrow> List.find P (xs @ [x]) = Some x"
  by (induction xs) (auto split: if_splits)

lemma created_ban:
  assumes "createAdminBan env input db = (Inr r, db1)"
  obtains scope b where "ban_scope (tenant (lp_auth db)) input = Inr scope"
    "b \<in> set (lp_bans db1)" "same_ban input scope b" "r = toRecord (tenant (lp_auth db)) b"
    "lp_auth db1 = lp_auth db" "ban_value input \<noteq> []"
    "List.find (same_ban input scope) (lp_bans db1) = Some b"
    "set (lp_bans db1) = insert b (set (lp_bans db))"
proof -
  from assms obtain scope where scope: "ban_scope (tenant (lp_auth db)) input = Inr scope" "ban_value input \<noteq> []"
    by (auto simp: createAdminBan_def Let_def split: if_splits sum.splits)
  show ?thesis
  proof (cases "List.find (same_ban input scope) (lp_bans db)")
    case (Some b)
    with assms scope have "r = toRecord (tenant (lp_auth db)) b" "db1 = db"
      by (auto simp: createAdminBan_def Let_def split: if_splits)
    moreover have "b \<in> set (lp_bans db) \<and> same_ban input scope b" using find_Some_set[OF Some] by simp
    ultimately show ?thesis using that[of scope b] scope Some by auto
  next
    case None
    let ?b = "new_ban env input scope"
    from assms scope None have db1: "r = toRecord (tenant (lp_auth db)) ?b" "db1 = db\<lparr>lp_bans := lp_bans db @ [?b]\<rparr>"
      "bn_id ?b \<notin> bn_id ` set (lp_bans db)"
      by (auto simp: createAdminBan_def Let_def split: if_splits)
    have "same_ban input scope ?b" by (simp add: same_ban_def new_ban_def)
    moreover from this None have "List.find (same_ban input scope) (lp_bans db1) = Some ?b"
      by (simp add: db1(2) find_snoc)
    ultimately show ?thesis using that[of scope ?b] scope db1 by auto
  qed
qed

lemma reached_ban_applies:
  assumes "ban_scope t input = Inr scope" "same_ban input scope b" "ban_reaches t loginDomain userId input"
  shows "ban_applies loginDomain (login_orgs t loginDomain userId) (login_teams t loginDomain userId) b"
  using assms(2,3) unfolding ban_scopeD[OF assms(1)]
  by (auto simp: same_ban_def ban_reaches_def ban_applies_def dest!: truthy_Some split: if_splits option.splits)

text \<open>
  C17: Once a ban is entered, the login of every user it reaches and matches is
  refused, superusers of the domain excepted, whoever asks and from wherever; entering the same ban
  again returns the same record and changes nothing; deleting it by the id in that record removes
  exactly this ban, and a second deletion finds nothing.
\<close>

theorem ban_takes_effect:
  assumes "createAdminBan env input db = (Inr r, db1)"
    and "database_url (tenant_env (pe_auth env2))"
    and "findUser (lp_auth db) userId = Some user"
    and "\<not> is_login_superuser (lp_auth db) (normalizeDomain domain) userId"
    and "ban_reaches (tenant (lp_auth db)) (normalizeDomain domain) userId input"
    and "matchesRule (bi_type input) (ban_value input)
           \<lparr>pr_email = js_lower (js_trim (u_email user)), pr_userId = Some userId, pr_ip = ip\<rparr>"
  shows "assertNotBannedAtLogin env2 userId domain ip db1 = refuse_with FORBIDDEN 403 ''ACCESS_DENIED'' \<and>
    createAdminBan env2 input db1 = (Inr r, db1) \<and>
    (\<exists>db2. deleteAdminBan env2 (ab_id r) db1 = (Inr (ab_id r), db2) \<and>
      set (lp_bans db2) = {b \<in> set (lp_bans db). bn_id b \<noteq> ab_id r} \<and>
      deleteAdminBan env2 (ab_id r) db2 = (refuse_with NOT_FOUND 404 ''BAN_NOT_FOUND'', db2))"
proof -
  obtain scope b where scope: "ban_scope (tenant (lp_auth db)) input = Inr scope" and
    b: "b \<in> set (lp_bans db1)" "same_ban input scope b" "r = toRecord (tenant (lp_auth db)) b" and
    same: "lp_auth db1 = lp_auth db" and entered: "ban_value input \<noteq> []" and
    first: "List.find (same_ban input scope) (lp_bans db1) = Some b" and
    rows: "set (lp_bans db1) = insert b (set (lp_bans db))"
    using created_ban[OF assms(1)] by metis
  have id: "ab_id r = bn_id b" by (simp add: b(3) toRecord_def)
  have "assertNotBannedAtLogin env2 userId domain ip db1 = refuse_with FORBIDDEN 403 ''ACCESS_DENIED''"
  proof -
    have "ban_applies (normalizeDomain domain) (login_orgs (tenant (lp_auth db)) (normalizeDomain domain) userId)
        (login_teams (tenant (lp_auth db)) (normalizeDomain domain) userId) b"
      by (rule reached_ban_applies[OF scope b(2) assms(5)])
    moreover have "bn_type b = bi_type input" "bn_value b = ban_value input" using b(2) by (simp_all add: same_ban_def)
    ultimately have "list_ex (\<lambda>b. matchesRule (bn_type b) (bn_value b)
          \<lparr>pr_email = js_lower (js_trim (u_email user)), pr_userId = Some userId, pr_ip = ip\<rparr>)
        (filter (ban_applies (normalizeDomain domain) (login_orgs (tenant (lp_auth db)) (normalizeDomain domain) userId)
          (login_teams (tenant (lp_auth db)) (normalizeDomain domain) userId)) (lp_bans db1))"
      using b(1) assms(6) by (auto simp: list_ex_iff)
    then show ?thesis using assms(2-4) by (simp add: assertNotBannedAtLogin_def same Let_def)
  qed
  moreover have "createAdminBan env2 input db1 = (Inr r, db1)"
    using assms(2) entered scope first b(3) by (simp add: createAdminBan_def same Let_def)
  moreover have "deleteAdminBan env2 (ab_id r) db1 =
      (Inr (ab_id r), db1\<lparr>lp_bans := filter (\<lambda>c. bn_id c \<noteq> ab_id r) (lp_bans db1)\<rparr>)"
    using b(1) assms(2) by (auto simp: deleteAdminBan_def id list_ex_iff)
  moreover have "set (filter (\<lambda>c. bn_id c \<noteq> ab_id r) (lp_bans db1)) = {b \<in> set (lp_bans db). bn_id b \<noteq> ab_id r}"
    using rows id by auto
  moreover have "deleteAdminBan env2 (ab_id r) (db1\<lparr>lp_bans := filter (\<lambda>c. bn_id c \<noteq> ab_id r) (lp_bans db1)\<rparr>) =
      (refuse_with NOT_FOUND 404 ''BAN_NOT_FOUND'', db1\<lparr>lp_bans := filter (\<lambda>c. bn_id c \<noteq> ab_id r) (lp_bans db1)\<rparr>)"
    using assms(2) by (simp add: deleteAdminBan_def list_ex_iff)
  ultimately show ?thesis by (intro conjI exI) (assumption | simp)+
qed

definition demo_policy_env :: "string \<Rightarrow> int \<Rightarrow> policy_env" where
  "demo_policy_env tag t = \<lparr>pe_auth = demo_auth_env tag t, domain_to_ascii = (\<lambda>d. d)\<rparr>"

definition demo_policy :: login_policy_db where
  "demo_policy = \<lparr>lp_auth = demo_auth, lp_clientAllow = (\<lambda>_. None), lp_orgAllow = (\<lambda>_. no_restriction),
     lp_teamAllow = (\<lambda>_. no_restriction), lp_bans = []\<rparr>"

definition demo_ban_input :: ban_input where
  "demo_ban_input = \<lparr>bi_type = PATTERN, bi_value = '' bob@* '', bi_domain = ''Shop'', bi_orgId = Some ''a'',
     bi_teamId = None, bi_reason = Some ''  '', bi_createdByEmail = None\<rparr>"

definition demo_banned :: "(thrown + admin_ban_record) \<times> login_policy_db" where
  "demo_banned = createAdminBan (demo_policy_env ''n'' 5) demo_ban_input demo_policy"

definition demo_record :: admin_ban_record where
  "demo_record = \<lparr>ab_id = ''n'', ab_value = ''bob@*'', ab_label = ''shop '' @ [CHR 0xB7] @ '' org Acme'',
     ab_bannedAt = 5, ab_reason = None\<rparr>"

lemma demo_ban_facts:
  "fst demo_banned = Inr demo_record"
  "findUser (lp_auth demo_policy) ''bob'' = Some (plain_user ''bob'' None)"
  "is_login_superuser (lp_auth demo_policy) (normalizeDomain ''shop'') ''bob'' = False"
  "ban_reaches (tenant (lp_auth demo_policy)) (normalizeDomain ''shop'') ''bob'' demo_ban_input = True"
  "matchesRule (bi_type demo_ban_input) (ban_value demo_ban_input)
     \<lparr>pr_email = js_lower (js_trim (u_email (plain_user ''bob'' None))), pr_userId = Some ''bob'', pr_ip = None\<rparr> = True"
  by code_simp+

theorem ban_takes_effect_witness:
  "assertNotBannedAtLogin (demo_policy_env ''o'' 9) ''bob'' ''shop'' None (snd demo_banned) =
     refuse_with FORBIDDEN 403 ''ACCESS_DENIED'' \<and>
   lp_bans (snd (deleteAdminBan (demo_policy_env ''o'' 9) ''n'' (snd demo_banned))) = []"
proof -
  have created: "createAdminBan (demo_policy_env ''n'' 5) demo_ban_input demo_policy =
      (Inr demo_record, snd demo_banned)"
    using demo_ban_facts(1) unfolding demo_banned_def by (metis prod.collapse)
  have env: "database_url (tenant_env (pe_auth (demo_policy_env tag n)))" for tag n
    by (simp add: demo_policy_env_def demo_auth_env_def demo_env_def)
  have none: "lp_bans demo_policy = []" by (simp add: demo_policy_def)
  obtain db2 where db2: "deleteAdminBan (demo_policy_env ''o'' 9) ''n'' (snd demo_banned) = (Inr ''n'', db2)"
      "set (lp_bans db2) \<subseteq> set (lp_bans demo_policy)" and
    denied: "assertNotBannedAtLogin (demo_policy_env ''o'' 9) ''bob'' ''shop'' None (snd demo_banned) =
      refuse_with FORBIDDEN 403 ''ACCESS_DENIED''"
    using ban_takes_effect[OF created env demo_ban_facts(2), of "''shop''" None "''o''" 9] demo_ban_facts(3-5)
    by (auto simp: demo_record_def)
  then show ?thesis using none by simp
qed

end
