(* ===== verification/Access_Requests.thy ===== *)
theory Access_Requests
  imports Login_Policy
begin

section \<open>Access requests\<close>

text \<open>
  \<^verbatim>\<open>access-request.service.base.ts\<close>, \<^verbatim>\<open>...auth.ts\<close> and \<^verbatim>\<open>...admin.ts\<close>: a person who signs in
  without being in the configured team is let in when their email domain is granted automatically,
  and otherwise leaves a request that the domain backend approves or rejects. The services run
  inside the transaction of their caller. \<open>findFirst\<close> without an order is the first row of the
  table.
\<close>

datatype access_request_status = Request_Pending | Request_Approved | Request_Rejected

record access_request =
  xr_id :: string
  xr_orgId :: string
  xr_teamId :: string
  xr_email :: string
  xr_requestName :: "string option"
  xr_status :: access_request_status
  xr_requestedAt :: int
  xr_lastRequestedAt :: int
  xr_reviewedAt :: "int option"
  xr_reviewReason :: "string option"
  xr_notifiedAt :: "int option"
  xr_createdAt :: int
  xr_updatedAt :: int
  xr_userId :: "string option"
  xr_reviewedByUserId :: "string option"

record access_notice =
  an_to :: string
  an_reviewUrl :: string
  an_requesterEmail :: string
  an_requesterName :: "string option"
  an_organisationName :: string
  an_teamName :: string

record access_config =
  xc_enabled :: bool
  xc_target_org_id :: "string option"
  xc_target_team_id :: "string option"
  xc_auto_grant_domains :: "string list"
  xc_notify_org_roles :: "string list"
  xc_admin_review_url :: "string option"

record gate_config =
  gc_client :: client_config
  gc_access :: access_config

record gate_db = login_policy_db +
  gd_requests :: "access_request list"
  gd_notices :: "access_notice list"

type_synonym ('z, 'a) gate_step = "'z gate_db_scheme \<Rightarrow> (thrown + 'a) \<times> 'z gate_db_scheme"

abbreviation tenant_of :: "'z gate_db_scheme \<Rightarrow> org_db" where
  "tenant_of db \<equiv> tenant (lp_auth db)"

definition set_tenant :: "org_db \<Rightarrow> 'z gate_db_scheme \<Rightarrow> 'z gate_db_scheme" where
  "set_tenant t db = db\<lparr>lp_auth := (lp_auth db)\<lparr>tenant := t\<rparr>\<rparr>"

definition on_tenant :: "(org_db \<Rightarrow> org_db checked) \<Rightarrow> ('z, unit) gate_step" where
  "on_tenant f = attempt (\<lambda>db. case f (tenant_of db) of Inl e \<Rightarrow> Inl e | Inr t \<Rightarrow> Inr ((), set_tenant t db))"

definition clear_to :: "bool \<Rightarrow> ('z, unit) gate_step" where
  "clear_to b = reading (\<lambda>_. check b BAD_REQUEST 400)"

abbreviation gate_clock :: "policy_env \<Rightarrow> int" where
  "gate_clock env \<equiv> now (pe_auth env)"

subsection \<open>The configured target\<close>

definition normalizeRequestName :: "string option \<Rightarrow> string option checked" where
  "normalizeRequestName value =
     (case map_option js_trim value of
        Some (c # cs) \<Rightarrow> if 120 < length (c # cs) then refuse BAD_REQUEST 400 else Inr (Some (c # cs))
      | _ \<Rightarrow> Inr None)"

definition normalizeAccessRequestStatus :: "string option \<Rightarrow> access_request_status option checked" where
  "normalizeAccessRequestStatus value =
     (if \<not> truthy value then Inr None
      else case js_upper (js_trim (the value)) of s \<Rightarrow>
        if s = ''PENDING'' then Inr (Some Request_Pending)
        else if s = ''APPROVED'' then Inr (Some Request_Approved)
        else if s = ''REJECTED'' then Inr (Some Request_Rejected)
        else refuse BAD_REQUEST 400)"

definition assertConfiguredAccessTarget :: "gate_config \<Rightarrow> string \<Rightarrow> string \<Rightarrow> unit checked" where
  "assertConfiguredAccessTarget gc orgId teamId =
     (let a = gc_access gc in
      if \<not> xc_enabled a then refuse BAD_REQUEST 400
      else check (xc_target_org_id a = Some orgId \<and> xc_target_team_id a = Some teamId) BAD_REQUEST 400)"

definition resolveConfiguredAccessTarget :: "gate_config \<Rightarrow> string \<Rightarrow> string \<Rightarrow> org_db \<Rightarrow> unit checked" where
  "resolveConfiguredAccessTarget gc orgId teamId t =
     and_then (assertConfiguredAccessTarget gc orgId teamId) (\<lambda>_.
     and_then (resolveOrganisationByDomain t orgId (cfg_domain (gc_client gc))) (\<lambda>org.
       if findTeam t (\<lambda>r. t_id r = teamId \<and> t_orgId r = o_id org) = None then refuse NOT_FOUND 404 else Inr ()))"

definition isAutoGrantDomain :: "policy_env \<Rightarrow> string \<Rightarrow> gate_config \<Rightarrow> bool" where
  "isAutoGrantDomain env email gc =
     (case extractEmailDomain env email of
        None \<Rightarrow> False | Some d \<Rightarrow> d \<in> set (xc_auto_grant_domains (gc_access gc)))"

definition buildAdminReviewUrl :: "gate_config \<Rightarrow> string" where
  "buildAdminReviewUrl gc =
     (case map_option js_trim (xc_admin_review_url (gc_access gc)) of
        Some (c # cs) \<Rightarrow> c # cs
      | _ \<Rightarrow> ''https://'' @ normalizeDomain (cfg_domain (gc_client gc)) @ ''/'')"

definition resolveAccessTarget :: "gate_config \<Rightarrow> org_db \<Rightarrow> (organisation \<times> team) checked" where
  "resolveAccessTarget gc t =
     (let a = gc_access gc in
      if \<not> truthy (xc_target_org_id a) \<or> \<not> truthy (xc_target_team_id a) then refuse BAD_REQUEST 400
      else and_then (resolveOrganisationByDomain t (the (xc_target_org_id a)) (cfg_domain (gc_client gc))) (\<lambda>org.
        case findTeam t (\<lambda>r. t_id r = the (xc_target_team_id a) \<and> t_orgId r = o_id org) of
          None \<Rightarrow> refuse NOT_FOUND 404
        | Some team \<Rightarrow> Inr (org, team)))"

subsection \<open>Letting someone in\<close>

text \<open>The membership that counts is the first of the user on the domain, in any state.\<close>

definition member_on_domain :: "org_db \<Rightarrow> string \<Rightarrow> string \<Rightarrow> org_member option" where
  "member_on_domain t userId domain =
     findMember t (\<lambda>m. om_userId m = userId \<and> org_domain t (om_orgId m) = Some domain)"

definition join_target_org :: "policy_env \<Rightarrow> client_config \<Rightarrow> organisation \<Rightarrow> string \<Rightarrow> ('z, unit) gate_step" where
  "join_target_org env c org userId =
     bind_step (reading (\<lambda>db. Inr (member_on_domain (tenant_of db) userId (o_domain org)))) (\<lambda>existing.
     case existing of
       Some m \<Rightarrow> clear_to (om_orgId m = o_id org)
     | None \<Rightarrow>
         bind_step (reading (\<lambda>db. check (count_where (\<lambda>m. om_orgId m = o_id org) (org_members (tenant_of db)) < parseOrgLimit c)
           BAD_REQUEST 400)) (\<lambda>_.
         on_tenant (create_org_member
           (new_member (fresh_id (tenant_env (pe_auth env)) 0) (o_id org) userId ''member'' (gate_clock env)))))"

definition team_seats_left :: "client_config \<Rightarrow> organisation \<Rightarrow> team \<Rightarrow> string \<Rightarrow> org_db \<Rightarrow> bool" where
  "team_seats_left c org team userId t \<longleftrightarrow>
     count_where (\<lambda>m. tm_teamId m = t_id team) (team_members t) < parseMaxMembersPerTeam c \<and>
     count_where (\<lambda>m. tm_userId m = userId \<and> team_in_org t (o_id org) (tm_teamId m)) (team_members t)
       < parseMaxTeamMembershipsPerUser c"

definition target_team_row :: "org_db \<Rightarrow> team \<Rightarrow> string \<Rightarrow> team_member option" where
  "target_team_row t team userId = findTeamMember t (\<lambda>m. tm_teamId m = t_id team \<and> tm_userId m = userId)"

definition join_target_team ::
  "policy_env \<Rightarrow> client_config \<Rightarrow> organisation \<Rightarrow> team \<Rightarrow> string \<Rightarrow> ('z, unit) gate_step" where
  "join_target_team env c org team userId =
     bind_step (reading (\<lambda>db. Inr (target_team_row (tenant_of db) team userId))) (\<lambda>existing.
     if existing \<noteq> None then return ()
     else
       bind_step (reading (\<lambda>db. check (team_seats_left c org team userId (tenant_of db)) BAD_REQUEST 400)) (\<lambda>_.
       bind_step (reading (\<lambda>_. normalizeTeamRole None c)) (\<lambda>role.
       on_tenant (create_team_member
         (new_team_member (fresh_id (tenant_env (pe_auth env)) 1) (t_id team) userId role (gate_clock env))))))"

definition ensureUserAssignedToConfiguredAccessTarget ::
  "policy_env \<Rightarrow> gate_config \<Rightarrow> string \<Rightarrow> ('z, unit) gate_step" where
  "ensureUserAssignedToConfiguredAccessTarget env gc userId =
     bind_step (reading (\<lambda>db. resolveAccessTarget gc (tenant_of db))) (\<lambda>(org, team).
     bind_step (reading (\<lambda>_. ensureOrgRole ''member'' (parseOrgFeatureRoles (gc_client gc)))) (\<lambda>_.
     bind_step (join_target_org env (gc_client gc) org userId) (\<lambda>_.
     join_target_team env (gc_client gc) org team userId)))"

subsection \<open>After authentication\<close>

datatype access_decision = Continue | Requested access_request

definition pending_for :: "string \<Rightarrow> string \<Rightarrow> access_request \<Rightarrow> bool" where
  "pending_for teamId email r \<longleftrightarrow> xr_teamId r = teamId \<and> xr_email r = email \<and> xr_status r = Request_Pending"

definition existing_pending :: "string \<Rightarrow> string \<Rightarrow> 'z gate_db_scheme \<Rightarrow> access_request option" where
  "existing_pending teamId email db =
     (case js_sort (\<lambda>a b. xr_createdAt b - xr_createdAt a) (filter (pending_for teamId email) (gd_requests db)) of
        [] \<Rightarrow> None | r # _ \<Rightarrow> Some r)"

definition update_request ::
  "string \<Rightarrow> (access_request \<Rightarrow> access_request) \<Rightarrow> int \<Rightarrow> 'z gate_db_scheme \<Rightarrow> 'z gate_db_scheme" where
  "update_request i f t db =
     db\<lparr>gd_requests := update_where (\<lambda>r. xr_id r = i) (\<lambda>r. (f r)\<lparr>xr_updatedAt := t\<rparr>) (gd_requests db)\<rparr>"

definition create_request :: "access_request \<Rightarrow> 'z gate_db_scheme \<Rightarrow> (unit \<times> 'z gate_db_scheme) checked" where
  "create_request r db =
     (if xr_id r \<in> xr_id ` set (gd_requests db) then Inl (Db_Error ''P2002'')
      else Inr ((), db\<lparr>gd_requests := gd_requests db @ [r]\<rparr>))"

definition renew_request :: "string \<Rightarrow> string option \<Rightarrow> int \<Rightarrow> access_request \<Rightarrow> access_request" where
  "renew_request userId name t r =
     r\<lparr>xr_userId := Some userId, xr_requestName := name, xr_lastRequestedAt := t, xr_notifiedAt := Some t\<rparr>"

definition new_request :: "policy_env \<Rightarrow> organisation \<Rightarrow> team \<Rightarrow> app_user \<Rightarrow> string option \<Rightarrow> access_request" where
  "new_request env org team user name =
     (let t = gate_clock env in
      \<lparr>xr_id = fresh_id (tenant_env (pe_auth env)) 2, xr_orgId = o_id org, xr_teamId = t_id team, xr_email = u_email user,
       xr_requestName = name, xr_status = Request_Pending, xr_requestedAt = t, xr_lastRequestedAt = t,
       xr_reviewedAt = None, xr_reviewReason = None, xr_notifiedAt = Some t, xr_createdAt = t, xr_updatedAt = t,
       xr_userId = Some (u_id user), xr_reviewedByUserId = None\<rparr>)"

definition listNotificationRecipients :: "string \<Rightarrow> string list \<Rightarrow> org_db \<Rightarrow> string list" where
  "listNotificationRecipients orgId roles t =
     remdups (filter (\<lambda>e. e \<noteq> [])
       (concat (map (\<lambda>m. case List.find (\<lambda>u. u_id u = om_userId m) (users t) of
            None \<Rightarrow> [] | Some u \<Rightarrow> [js_lower (js_trim (u_email u))])
          (filter (\<lambda>m. om_orgId m = orgId \<and> om_role m \<in> set roles) (org_members t)))))"

definition send_notices ::
  "gate_config \<Rightarrow> organisation \<Rightarrow> team \<Rightarrow> app_user \<Rightarrow> 'z gate_db_scheme \<Rightarrow> 'z gate_db_scheme" where
  "send_notices gc org team user db =
     db\<lparr>gd_notices := gd_notices db @
       map (\<lambda>e. \<lparr>an_to = e, an_reviewUrl = buildAdminReviewUrl gc, an_requesterEmail = u_email user,
                an_requesterName = u_name user, an_organisationName = o_name org, an_teamName = t_name team\<rparr>)
         (listNotificationRecipients (o_id org) (xc_notify_org_roles (gc_access gc)) (tenant_of db))\<rparr>"

definition file_request ::
  "policy_env \<Rightarrow> organisation \<Rightarrow> team \<Rightarrow> app_user \<Rightarrow> ('z, access_request) gate_step" where
  "file_request env org team user =
     bind_step (reading (\<lambda>db. Inr (existing_pending (t_id team) (u_email user) db))) (\<lambda>pending.
     bind_step (reading (\<lambda>_. normalizeRequestName (u_name user))) (\<lambda>name.
     case pending of
       Some r \<Rightarrow>
         bind_step (writing (update_request (xr_id r) (renew_request (u_id user) name (gate_clock env)) (gate_clock env)))
           (\<lambda>_. return ((renew_request (u_id user) name (gate_clock env) r)\<lparr>xr_updatedAt := gate_clock env\<rparr>))
     | None \<Rightarrow>
         bind_step (attempt (create_request (new_request env org team user name)))
           (\<lambda>_. return (new_request env org team user name))))"

definition handlePostAuthenticationAccessRequest ::
  "policy_env \<Rightarrow> gate_config \<Rightarrow> string \<Rightarrow> ('z, access_decision) gate_step" where
  "handlePostAuthenticationAccessRequest env gc userId =
     bind_step (reading (\<lambda>_. assertDatabaseEnabled (tenant_env (pe_auth env)))) (\<lambda>_.
     if \<not> xc_enabled (gc_access gc) then return Continue
     else
       bind_step (reading (\<lambda>db. resolveAccessTarget gc (tenant_of db))) (\<lambda>(org, team).
       bind_step (reading (\<lambda>db. Inr (findUser (lp_auth db) userId))) (\<lambda>found.
       case found of
         None \<Rightarrow> return Continue
       | Some user \<Rightarrow>
           bind_step (reading (\<lambda>db. Inr (target_team_row (tenant_of db) team (u_id user)))) (\<lambda>existing.
           if existing \<noteq> None then return Continue
           else if isAutoGrantDomain env (u_email user) gc then
             bind_step (ensureUserAssignedToConfiguredAccessTarget env gc (u_id user)) (\<lambda>_. return Continue)
           else
             bind_step (file_request env org team user) (\<lambda>request.
             bind_step (writing (send_notices gc org team user)) (\<lambda>_.
             return (Requested request)))))))"

subsection \<open>Reviewing\<close>

record access_request_record =
  xv_row :: access_request
  xv_avatarImageUrl :: "string option"

definition toAccessRequestRecord :: "policy_env \<Rightarrow> access_request \<Rightarrow> string \<Rightarrow> access_request_record" where
  "toAccessRequestRecord env r domain =
     \<lparr>xv_row = r, xv_avatarImageUrl =
        (if truthy (xr_userId r) then Some (memberAvatarImageUrl (tenant_env (pe_auth env)) domain (the (xr_userId r)))
         else None)\<rparr>"

definition listAccessRequests ::
  "policy_env \<Rightarrow> gate_config \<Rightarrow> string \<Rightarrow> string \<Rightarrow> string option \<Rightarrow> 'z gate_db_scheme \<Rightarrow> access_request_record list checked"
  where
  "listAccessRequests env gc orgId teamId status db =
     and_then (assertDatabaseEnabled (tenant_env (pe_auth env))) (\<lambda>_.
     and_then (resolveConfiguredAccessTarget gc orgId teamId (tenant_of db)) (\<lambda>_.
     and_then (normalizeAccessRequestStatus status) (\<lambda>s.
       Inr (map (\<lambda>r. toAccessRequestRecord env r (normalizeDomain (cfg_domain (gc_client gc))))
         (js_sort (\<lambda>a b. xr_createdAt b - xr_createdAt a)
           (filter (\<lambda>r. xr_orgId r = orgId \<and> xr_teamId r = teamId \<and> (case s of None \<Rightarrow> True | Some x \<Rightarrow> xr_status r = x))
             (gd_requests db)))))))"

definition findRequestOrThrow :: "string \<Rightarrow> string \<Rightarrow> string \<Rightarrow> 'z gate_db_scheme \<Rightarrow> access_request checked" where
  "findRequestOrThrow requestId orgId teamId db =
     (case List.find (\<lambda>r. xr_id r = requestId \<and> xr_orgId r = orgId \<and> xr_teamId r = teamId) (gd_requests db) of
        None \<Rightarrow> refuse NOT_FOUND 404 | Some r \<Rightarrow> Inr r)"

definition review ::
  "access_request_status \<Rightarrow> int \<Rightarrow> string option \<Rightarrow> string option \<Rightarrow> access_request \<Rightarrow> access_request" where
  "review s t reviewer reason r =
     r\<lparr>xr_status := s, xr_reviewedAt := Some t, xr_reviewedByUserId := blank_to_none reviewer,
       xr_reviewReason := blank_to_none reason\<rparr>"

definition nullable_text :: "string option \<Rightarrow> audit_value" where
  "nullable_text s = (case s of Some t \<Rightarrow> Text t | None \<Rightarrow> Nested [])"

definition auditAccessRequestReview ::
  "policy_env \<Rightarrow> string \<Rightarrow> string \<Rightarrow> gate_config \<Rightarrow> access_request \<Rightarrow> string option \<Rightarrow> 'z gate_db_scheme \<Rightarrow> 'z gate_db_scheme"
  where
  "auditAccessRequestReview env action orgId gc r reviewer db =
     set_tenant (auditOrg (tenant_env (pe_auth env))
       (Some \<lparr>via = ''domain_backend'', sourceDomain = normalizeDomain (cfg_domain (gc_client gc))\<rparr>)
       (audit_entry orgId None action ''access_request'' (xr_id r)
         [(''teamId'', Text (xr_teamId r)), (''requestUserId'', nullable_text (xr_userId r)),
          (''reviewedByUserId'', nullable_text (blank_to_none reviewer))]) (tenant_of db)) db"

text \<open>The reviewer is a foreign key to the users.\<close>

definition write_review ::
  "string \<Rightarrow> (access_request \<Rightarrow> access_request) \<Rightarrow> string option \<Rightarrow> int \<Rightarrow> ('z, unit) gate_step" where
  "write_review i f reviewer t =
     attempt (\<lambda>db. case blank_to_none reviewer of
       Some u \<Rightarrow> if user_exists (tenant_of db) u then Inr ((), update_request i f t db) else Inl (Db_Error ''P2003'')
     | None \<Rightarrow> Inr ((), update_request i f t db))"

definition finish_review ::
  "policy_env \<Rightarrow> gate_config \<Rightarrow> access_request_status \<Rightarrow> string \<Rightarrow> string \<Rightarrow> access_request \<Rightarrow> string option \<Rightarrow>
     string option \<Rightarrow> ('z, access_request_record) gate_step" where
  "finish_review env gc s action orgId row reviewer reason =
     (let f = review s (gate_clock env) reviewer reason; updated = (f row)\<lparr>xr_updatedAt := gate_clock env\<rparr> in
      bind_step (write_review (xr_id row) f reviewer (gate_clock env)) (\<lambda>_.
      bind_step (writing (auditAccessRequestReview env action orgId gc updated reviewer)) (\<lambda>_.
      return (toAccessRequestRecord env updated (normalizeDomain (cfg_domain (gc_client gc)))))))"

definition access_review_checks ::
  "policy_env \<Rightarrow> gate_config \<Rightarrow> string \<Rightarrow> string \<Rightarrow> string \<Rightarrow> 'z gate_db_scheme \<Rightarrow> access_request checked" where
  "access_review_checks env gc orgId teamId requestId db =
     and_then (assertDatabaseEnabled (tenant_env (pe_auth env))) (\<lambda>_.
     and_then (resolveConfiguredAccessTarget gc orgId teamId (tenant_of db)) (\<lambda>_.
     findRequestOrThrow requestId orgId teamId db))"

definition approveAccessRequest ::
  "policy_env \<Rightarrow> gate_config \<Rightarrow> string \<Rightarrow> string \<Rightarrow> string \<Rightarrow> string option \<Rightarrow> string option \<Rightarrow>
     ('z, access_request_record) gate_step" where
  "approveAccessRequest env gc orgId teamId requestId reviewer reason =
     bind_step (reading (access_review_checks env gc orgId teamId requestId)) (\<lambda>row.
     if xr_status row = Request_Approved
     then return (toAccessRequestRecord env row (normalizeDomain (cfg_domain (gc_client gc))))
     else
       bind_step (if truthy (xr_userId row) then ensureUserAssignedToConfiguredAccessTarget env gc (the (xr_userId row))
                  else return ()) (\<lambda>_.
       finish_review env gc Request_Approved ''access_request.approved'' orgId row reviewer reason))"

definition rejectAccessRequest ::
  "policy_env \<Rightarrow> gate_config \<Rightarrow> string \<Rightarrow> string \<Rightarrow> string \<Rightarrow> string option \<Rightarrow> string option \<Rightarrow>
     ('z, access_request_record) gate_step" where
  "rejectAccessRequest env gc orgId teamId requestId reviewer reason =
     bind_step (reading (access_review_checks env gc orgId teamId requestId)) (\<lambda>row.
     finish_review env gc Request_Rejected ''access_request.rejected'' orgId row reviewer reason)"

end
