(* ===== verification/Access_Request_Properties.thy ===== *)
theory Access_Request_Properties
  imports Access_Requests Login_Policy_Properties
begin

section \<open>What access requests do\<close>

text \<open>
  At most one open request per address and team over any serial history of sign-ins and reviews, and
  exactly what an approval writes, down to the cases in which it lets nobody in. The last part runs a
  small history on the store of \<^verbatim>\<open>Auth_Demo\<close>.
\<close>

subsection \<open>One open request per person and team\<close>

definition open_requests_unique :: "'z gate_db_scheme \<Rightarrow> bool" where
  "open_requests_unique db \<longleftrightarrow> distinct (map xr_id (gd_requests db)) \<and>
     distinct (map (\<lambda>r. (xr_teamId r, xr_email r)) (filter (\<lambda>r. xr_status r = Request_Pending) (gd_requests db)))"

text \<open>A step that leaves the requests alone, or only changes rows in ways that open none.\<close>

definition keeps_closed :: "(access_request \<Rightarrow> access_request) \<Rightarrow> bool" where
  "keeps_closed f \<longleftrightarrow> (\<forall>r. xr_id (f r) = xr_id r \<and>
     (xr_status (f r) = Request_Pending \<longrightarrow>
        xr_status r = Request_Pending \<and> xr_teamId (f r) = xr_teamId r \<and> xr_email (f r) = xr_email r))"

lemma distinct_map_filter_update:
  assumes "distinct (map key (filter P rs))" and "\<And>r. P (f r) \<Longrightarrow> P r \<and> key (f r) = key r"
  shows "distinct (map key (filter P (map f rs)))"
  using assms(1)
proof (induction rs)
  case (Cons r rs)
  then have IH: "distinct (map key (filter P (map f rs)))" by (auto split: if_splits)
  have "key ` {x \<in> f ` set rs. P x} \<subseteq> key ` {x \<in> set rs. P x}"
    using assms(2) by force
  with Cons.prems IH assms(2)[of r] show ?case by (auto split: if_splits)
qed simp

lemma update_request_unique:
  assumes "open_requests_unique db" and "keeps_closed f"
  shows "open_requests_unique (update_request i f t db)"
proof -
  let ?g = "\<lambda>r. if xr_id r = i then (f r)\<lparr>xr_updatedAt := t\<rparr> else r"
  have rows: "gd_requests (update_request i f t db) = map ?g (gd_requests db)"
    by (simp add: update_request_def update_where_def)
  have "xr_id (?g r) = xr_id r" for r using assms(2) by (simp add: keeps_closed_def)
  then have "map xr_id (map ?g (gd_requests db)) = map xr_id (gd_requests db)" by (induction "gd_requests db") auto
  moreover have "distinct (map (\<lambda>r. (xr_teamId r, xr_email r))
      (filter (\<lambda>r. xr_status r = Request_Pending) (map ?g (gd_requests db))))"
    using assms unfolding open_requests_unique_def keeps_closed_def
    by (intro distinct_map_filter_update) (auto split: if_splits)
  ultimately show ?thesis using assms(1) unfolding open_requests_unique_def rows by metis
qed

lemma keeps_closed_updates:
  "keeps_closed (renew_request u n t)" "keeps_closed (review Request_Approved t v w)"
  "keeps_closed (review Request_Rejected t v w)"
  by (simp_all add: keeps_closed_def renew_request_def review_def)

definition same_requests :: "'z gate_db_scheme \<Rightarrow> 'z gate_db_scheme \<Rightarrow> bool" where
  "same_requests s t \<longleftrightarrow> (open_requests_unique s \<longrightarrow> open_requests_unique t)"

interpretation request_order: store_order same_requests
  by unfold_locales (auto simp: same_requests_def)

lemma requests_untouched: "gd_requests t = gd_requests s \<Longrightarrow> same_requests s t"
  by (simp add: same_requests_def open_requests_unique_def)

lemma tenant_steps_keep:
  "advances same_requests (on_tenant f)" "advances same_requests (clear_to b)"
  by (auto simp: on_tenant_def clear_to_def set_tenant_def request_order.advances_pure requests_untouched
      split: sum.splits intro!: request_order.advances_attempt)

lemma ensure_keeps: "advances same_requests (ensureUserAssignedToConfiguredAccessTarget env gc u)"
  unfolding ensureUserAssignedToConfiguredAccessTarget_def join_target_org_def join_target_team_def
  by (auto split: prod.split option.split
      intro!: request_order.advances_bind request_order.advances_pure tenant_steps_keep)

lemma file_keeps: "same_requests s (snd (file_request env org team user s))"
proof -
  show ?thesis
  proof (cases "existing_pending (t_id team) (u_email user) s")
    case None
    then have none: "filter (pending_for (t_id team) (u_email user)) (gd_requests s) = []"
      by (auto simp: existing_pending_def split: list.splits dest!: arg_cong[of _ _ length])
    have "open_requests_unique (s\<lparr>gd_requests := gd_requests s @ [new_request env org team user name]\<rparr>)"
      if "open_requests_unique s" "xr_id (new_request env org team user name) \<notin> xr_id ` set (gd_requests s)" for name
      using that none
      by (auto simp: open_requests_unique_def new_request_def Let_def filter_empty_conv pending_for_def)
    then show ?thesis using None
      by (auto simp: file_request_def bind_step_def reading_def attempt_def create_request_def return_def
          same_requests_def split: sum.splits)
  next
    case (Some r)
    then show ?thesis
      using update_request_unique[OF _ keeps_closed_updates(1)]
      by (auto simp: file_request_def bind_step_def reading_def writing_def return_def same_requests_def
          split: sum.splits)
  qed
qed

lemma handle_keeps: "advances same_requests (handlePostAuthenticationAccessRequest env gc u)"
proof -
  have filing: "advances same_requests (file_request env org team user)" for org team user
    unfolding advances_def by (intro allI file_keeps)
  have notices: "same_requests s (send_notices gc org team user s)" for org team user and s :: "'z gate_db_scheme"
    by (rule requests_untouched) (simp add: send_notices_def)
  show ?thesis unfolding handlePostAuthenticationAccessRequest_def
    by (auto split: prod.split option.split
        intro!: request_order.advances_bind request_order.advances_pure request_order.advances_writing
          ensure_keeps filing notices)
qed

lemma write_review_keeps: "keeps_closed f \<Longrightarrow> advances same_requests (write_review i f v n)"
  unfolding write_review_def
  by (rule request_order.advances_attempt)
    (auto simp: same_requests_def update_request_unique split: option.splits if_splits)

lemma finish_review_keeps:
  assumes "keeps_closed (review st (gate_clock env) v w)"
  shows "advances same_requests (finish_review env gc st action orgId row v w)"
proof -
  have audit: "same_requests s (auditAccessRequestReview env action orgId gc r v s)" for r and s :: "'z gate_db_scheme"
    by (rule requests_untouched) (simp add: auditAccessRequestReview_def set_tenant_def)
  show ?thesis unfolding finish_review_def Let_def
    by (intro request_order.advances_bind request_order.advances_pure request_order.advances_writing
        write_review_keeps assms audit)
qed

lemma reviews_keep:
  "advances same_requests (approveAccessRequest env gc orgId teamId i v w)"
  "advances same_requests (rejectAccessRequest env gc orgId teamId i v w)"
  unfolding approveAccessRequest_def rejectAccessRequest_def
  by (auto intro!: request_order.advances_bind request_order.advances_pure ensure_keeps finish_review_keeps
      keeps_closed_updates)

inductive request_history :: "'z gate_db_scheme \<Rightarrow> 'z gate_db_scheme \<Rightarrow> bool" where
  start: "request_history s s"
| signed_in: "request_history s0 s \<Longrightarrow> handlePostAuthenticationAccessRequest env gc u s = (r, t) \<Longrightarrow> request_history s0 t"
| approved: "request_history s0 s \<Longrightarrow> approveAccessRequest env gc orgId teamId i v w s = (r, t) \<Longrightarrow> request_history s0 t"
| rejected: "request_history s0 s \<Longrightarrow> rejectAccessRequest env gc orgId teamId i v w s = (r, t) \<Longrightarrow> request_history s0 t"
| elsewhere: "request_history s0 s \<Longrightarrow> gd_requests t = gd_requests s \<Longrightarrow> request_history s0 t"

lemma request_history_keeps: "request_history s t \<Longrightarrow> same_requests s t"
proof (induction rule: request_history.induct)
  case (signed_in s0 s env gc u r t)
  then show ?case using advancesD[OF handle_keeps] request_order.trans by blast
next
  case (approved s0 s env gc orgId teamId i v w r t)
  then show ?case using advancesD[OF reviews_keep(1)] request_order.trans by blast
next
  case (rejected s0 s env gc orgId teamId i v w r t)
  then show ?case using advancesD[OF reviews_keep(2)] request_order.trans by blast
next
  case (elsewhere s0 s t)
  then show ?case using requests_untouched request_order.trans by blast
qed (rule request_order.refl)

lemma existing_pendingD:
  assumes "existing_pending teamId email db = Some r"
  shows "r \<in> set (gd_requests db)" and "pending_for teamId email r"
proof -
  let ?rows = "filter (pending_for teamId email) (gd_requests db)"
  have "r \<in> set (js_sort (\<lambda>a b. xr_createdAt b - xr_createdAt a) ?rows)"
    using assms by (cases "js_sort (\<lambda>a b. xr_createdAt b - xr_createdAt a) ?rows") (simp_all add: existing_pending_def)
  then have "r \<in> set ?rows" by (simp only: set_js_sort)
  then show "r \<in> set (gd_requests db)" "pending_for teamId email r" by simp_all
qed

lemma file_requestD:
  assumes "file_request env org team user s = (Inr r, t)"
  shows "r \<in> set (gd_requests t)" and "xr_status r = Request_Pending"
    and "xr_teamId r = t_id team" and "xr_email r = u_email user"
proof -
  have "r \<in> set (gd_requests t) \<and> xr_status r = Request_Pending \<and> xr_teamId r = t_id team \<and> xr_email r = u_email user"
  proof (cases "existing_pending (t_id team) (u_email user) s")
    case None
    then show ?thesis using assms
      by (auto simp: file_request_def bind_step_Inr reading_value attempt_value return_def create_request_def
          new_request_def Let_def split: if_splits)
  next
    case (Some q)
    note old = existing_pendingD[OF Some]
    from assms Some obtain name where
      "r = (renew_request (u_id user) name (gate_clock env) q)\<lparr>xr_updatedAt := gate_clock env\<rparr>"
      "t = update_request (xr_id q) (renew_request (u_id user) name (gate_clock env)) (gate_clock env) s"
      by (auto simp: file_request_def bind_step_Inr reading_value writing_def return_def)
    then show ?thesis using old
      by (auto simp: update_request_def update_where_def renew_request_def pending_for_def image_iff intro!: bexI[of _ q])
  qed
  then show "r \<in> set (gd_requests t)" "xr_status r = Request_Pending" "xr_teamId r = t_id team" "xr_email r = u_email user"
    by blast+
qed

lemma requestedD:
  assumes "handlePostAuthenticationAccessRequest env gc u s = (Inr (Requested r), t)"
  shows "r \<in> set (gd_requests t)" and "xr_status r = Request_Pending"
proof -
  from assms obtain org team user v where
    f: "file_request env org team user s = (Inr r, v)" and t: "t = send_notices gc org team user v"
    by (auto simp: handlePostAuthenticationAccessRequest_def bind_step_Inr reading_value writing_def return_def
        split: if_splits option.splits prod.splits)
  show "r \<in> set (gd_requests t)" "xr_status r = Request_Pending"
    using file_requestD[OF f] by (simp_all add: t send_notices_def)
qed

lemma filter_key_singleton:
  "distinct (map k (filter P xs)) \<Longrightarrow> x \<in> set xs \<Longrightarrow> P x \<Longrightarrow> filter (\<lambda>y. P y \<and> k y = k x) xs = [x]"
proof (induction xs)
  case (Cons y ys)
  show ?case
  proof (cases "y = x")
    case True
    then have "k x \<notin> k ` set (filter P ys)" using Cons.prems by simp
    then have "filter (\<lambda>z. P z \<and> k z = k x) ys = []"
      unfolding filter_empty_conv by (metis (mono_tags, lifting) imageI mem_Collect_eq set_filter)
    then show ?thesis using True Cons.prems(3) by simp
  next
    case False
    then have x: "x \<in> set ys" using Cons.prems(2) by simp
    then have "P y \<Longrightarrow> k y \<noteq> k x" using Cons.prems by auto
    moreover have "filter (\<lambda>z. P z \<and> k z = k x) ys = [x]"
      using Cons.IH[OF _ x Cons.prems(3)] Cons.prems(1) by (auto split: if_splits)
    ultimately show ?thesis by auto
  qed
qed simp

lemma only_open_request:
  assumes "open_requests_unique db" and "r \<in> set (gd_requests db)" and "xr_status r = Request_Pending"
  shows "filter (pending_for (xr_teamId r) (xr_email r)) (gd_requests db) = [r]"
proof -
  have "pending_for (xr_teamId r) (xr_email r) =
      (\<lambda>q. xr_status q = Request_Pending \<and> (xr_teamId q, xr_email q) = (xr_teamId r, xr_email r))"
    by (auto simp: fun_eq_iff pending_for_def)
  then show ?thesis
    using filter_key_singleton[of "\<lambda>r. (xr_teamId r, xr_email r)" "\<lambda>r. xr_status r = Request_Pending", OF _ assms(2)] assms
    by (simp add: open_requests_unique_def)
qed

text \<open>
  C30: An address never has two open requests for one team. Start from an empty request table and let any
  sequence of sign-ins, approvals, rejections and unrelated writes run, one after another: the requests have
  distinct ids, and a sign-in that ends in a request (new, or the open one renewed) leaves it as the only pending
  request for its team and address. The operations are serial here; the table has no unique index behind it.
\<close>

theorem open_requests_stay_unique:
  assumes "request_history s0 s" and "gd_requests s0 = []"
    and "handlePostAuthenticationAccessRequest env gc userId s = (Inr (Requested r), t)"
  shows "distinct (map xr_id (gd_requests t)) \<and>
    filter (pending_for (xr_teamId r) (xr_email r)) (gd_requests t) = [r]"
proof
  have "request_history s0 t" by (rule request_history.signed_in[OF assms(1,3)])
  moreover have "open_requests_unique s0" using assms(2) by (simp add: open_requests_unique_def)
  ultimately have u: "open_requests_unique t" using request_history_keeps unfolding same_requests_def by blast
  then show "distinct (map xr_id (gd_requests t))" by (simp add: open_requests_unique_def)
  show "filter (pending_for (xr_teamId r) (xr_email r)) (gd_requests t) = [r]"
    by (rule only_open_request[OF u requestedD[OF assms(3)]])
qed

subsection \<open>Approval\<close>

lemma on_tenant_Inr:
  "on_tenant f s = (Inr (), t) \<longleftrightarrow> (\<exists>u. f (tenant_of s) = Inr u \<and> t = set_tenant u s)"
  by (auto simp: on_tenant_def attempt_value split: sum.splits)

lemma clear_to_Inr: "clear_to b s = (Inr (), t) \<longleftrightarrow> b \<and> t = s"
  by (auto simp: clear_to_def reading_value check_def)

lemma set_tenant_sel [simp]:
  "tenant_of (set_tenant u s) = u" "gd_requests (set_tenant u s) = gd_requests s"
  "gd_notices (set_tenant u s) = gd_notices s" "lp_bans (set_tenant u s) = lp_bans s"
  by (simp_all add: set_tenant_def)

definition target_member :: "policy_env \<Rightarrow> organisation \<Rightarrow> string \<Rightarrow> org_member" where
  "target_member env org userId =
     new_member (fresh_id (tenant_env (pe_auth env)) 0) (o_id org) userId ''member'' (gate_clock env)"

definition target_seat :: "policy_env \<Rightarrow> team \<Rightarrow> string \<Rightarrow> team_member" where
  "target_seat env team userId =
     new_team_member (fresh_id (tenant_env (pe_auth env)) 1) (t_id team) userId ''member'' (gate_clock env)"

lemma join_orgD:
  assumes "join_target_org env c org u s = (Inr (), t)"
  shows "gd_requests t = gd_requests s \<and> tenant_of t = (tenant_of s)\<lparr>org_members := org_members (tenant_of t)\<rparr> \<and>
    ((\<exists>m. member_on_domain (tenant_of s) u (o_domain org) = Some m \<and> om_orgId m = o_id org \<and>
        org_members (tenant_of t) = org_members (tenant_of s)) \<or>
     member_on_domain (tenant_of s) u (o_domain org) = None \<and>
        org_members (tenant_of t) = org_members (tenant_of s) @ [target_member env org u] \<and>
        count_where (\<lambda>m. om_orgId m = o_id org) (org_members (tenant_of s)) < parseOrgLimit c)"
proof (cases "member_on_domain (tenant_of s) u (o_domain org)")
  case (Some m)
  then show ?thesis using assms
    by (auto simp: join_target_org_def bind_step_Inr reading_value clear_to_Inr)
next
  case None
  then show ?thesis using assms
    by (auto simp: join_target_org_def bind_step_Inr reading_value on_tenant_Inr check_def create_org_member_def
        constrained_def target_member_def split: if_splits)
qed

lemma join_teamD:
  assumes "join_target_team env c org team u s = (Inr (), t)"
  shows "gd_requests t = gd_requests s \<and> tenant_of t = (tenant_of s)\<lparr>team_members := team_members (tenant_of t)\<rparr> \<and>
    (target_team_row (tenant_of s) team u \<noteq> None \<and> team_members (tenant_of t) = team_members (tenant_of s) \<or>
     target_team_row (tenant_of s) team u = None \<and>
       team_members (tenant_of t) = team_members (tenant_of s) @ [target_seat env team u] \<and>
       team_seats_left c org team u (tenant_of s))"
proof (cases "target_team_row (tenant_of s) team u")
  case (Some m)
  then show ?thesis using assms
    by (auto simp: join_target_team_def bind_step_Inr reading_value return_value)
next
  case None
  have role: "normalizeTeamRole None c = Inr r \<Longrightarrow> r = ''member''" for r
    by (auto simp: normalizeTeamRole_def Let_def split: if_splits)
  show ?thesis using assms None
    by (auto simp: join_target_team_def bind_step_Inr reading_value on_tenant_Inr check_def create_team_member_def
        constrained_def target_seat_def dest!: role split: if_splits)
qed

lemma resolve_targetD:
  assumes "resolveAccessTarget gc t = Inr (org, team)"
  shows "org \<in> set (organisations t)" "o_domain org = normalizeDomain (cfg_domain (gc_client gc))"
    "team \<in> set (teams t)" "t_orgId team = o_id org" "xc_target_team_id (gc_access gc) = Some (t_id team)"
    "xc_target_org_id (gc_access gc) = Some i \<Longrightarrow> o_id org = js_trim i"
  using assms
  by (auto simp: resolveAccessTarget_def resolveOrganisationByDomain_def findTeam_def Let_def and_then_Inr_iff
      truthy_def dest!: find_Some_set split: if_splits option.splits)

lemma ensureD:
  assumes "ensureUserAssignedToConfiguredAccessTarget env gc u s = (Inr (), t)"
  obtains org team v where "resolveAccessTarget gc (tenant_of s) = Inr (org, team)"
    "join_target_org env (gc_client gc) org u s = (Inr (), v)"
    "join_target_team env (gc_client gc) org team u v = (Inr (), t)"
  using assms
  by (auto simp: ensureUserAssignedToConfiguredAccessTarget_def bind_step_Inr reading_value split: prod.splits)

text \<open>Whether the rows already there let the user in: a row that is not active does not.\<close>

definition rows_allow :: "org_db \<Rightarrow> organisation \<Rightarrow> team \<Rightarrow> string \<Rightarrow> bool" where
  "rows_allow t org team u \<longleftrightarrow>
     (\<forall>m \<in> set (org_members t). om_orgId m = o_id org \<longrightarrow> om_userId m = u \<longrightarrow> om_status m = ACTIVE) \<and>
     (\<forall>k \<in> set (team_members t). tm_teamId k = t_id team \<longrightarrow> tm_userId k = u \<longrightarrow> tm_status k = ACTIVE)"

lemma member_row_unique:
  "member_indexes_ok t \<Longrightarrow> m \<in> set (org_members t) \<Longrightarrow> m' \<in> set (org_members t) \<Longrightarrow>
     om_orgId m = om_orgId m' \<Longrightarrow> om_userId m = om_userId m' \<Longrightarrow> m = m'"
  by (auto simp: member_indexes_ok_def distinct_map inj_on_def)

lemma seat_row_unique:
  "team_member_index_ok t \<Longrightarrow> m \<in> set (team_members t) \<Longrightarrow> m' \<in> set (team_members t) \<Longrightarrow>
     tm_teamId m = tm_teamId m' \<Longrightarrow> tm_userId m = tm_userId m' \<Longrightarrow> m = m'"
  by (auto simp: team_member_index_ok_def distinct_map inj_on_def)

lemma assigned_in_force:
  assumes "ensureUserAssignedToConfiguredAccessTarget env gc u s = (Inr (), t)"
    and "resolveAccessTarget gc (tenant_of s) = Inr (org, team)"
    and "member_indexes_ok (tenant_of s)" "team_member_index_ok (tenant_of s)"
    and "distinct (map o_id (organisations (tenant_of s)))"
  shows "workspace_in_force (tenant_of t) u (o_id org) (t_id team) \<longleftrightarrow> rows_allow (tenant_of s) org team u"
    and "gd_requests t = gd_requests s"
    and "org_members (tenant_of t) \<in> {org_members (tenant_of s), org_members (tenant_of s) @ [target_member env org u]}"
    and "team_members (tenant_of t) \<in> {team_members (tenant_of s), team_members (tenant_of s) @ [target_seat env team u]}"
    and "tenant_of t = (tenant_of s)\<lparr>org_members := org_members (tenant_of t), team_members := team_members (tenant_of t)\<rparr>"
proof -
  obtain v where v: "join_target_org env (gc_client gc) org u s = (Inr (), v)"
    "join_target_team env (gc_client gc) org team u v = (Inr (), t)"
    using assms(2) by (auto intro: ensureD[OF assms(1)])
  note jo = join_orgD[OF v(1)] and jt = join_teamD[OF v(2)]
  from jo have tv: "team_members (tenant_of v) = team_members (tenant_of s)" "teams (tenant_of v) = teams (tenant_of s)"
    by (metis org_db.select_convs(4) org_db.surjective org_db.update_convs(2),
        metis org_db.select_convs(3) org_db.surjective org_db.update_convs(2))
  have mt: "org_members (tenant_of t) = org_members (tenant_of v)" "teams (tenant_of t) = teams (tenant_of v)"
    using jt by (metis org_db.select_convs(2) org_db.surjective org_db.update_convs(4),
        metis org_db.select_convs(3) org_db.surjective org_db.update_convs(4))
  show "gd_requests t = gd_requests s" using jo jt by simp
  show members: "org_members (tenant_of t) \<in> {org_members (tenant_of s), org_members (tenant_of s) @ [target_member env org u]}"
    using jo mt by auto
  show seats: "team_members (tenant_of t) \<in> {team_members (tenant_of s), team_members (tenant_of s) @ [target_seat env team u]}"
    using jt tv by auto
  show "tenant_of t = (tenant_of s)\<lparr>org_members := org_members (tenant_of t), team_members := team_members (tenant_of t)\<rparr>"
    using jo jt mt by (metis org_db.surjective org_db.update_convs(2) org_db.update_convs(4))
  show "workspace_in_force (tenant_of t) u (o_id org) (t_id team) \<longleftrightarrow> rows_allow (tenant_of s) org team u"
  proof -
    have org: "org_domain (tenant_of s) (o_id org) = Some (o_domain org)"
      using resolve_targetD(1)[OF assms(2)] assms(5) by (auto simp: org_domain_def findOrg_def find_key_Some_iff)
    have none: "\<not> (om_orgId m = o_id org \<and> om_userId m = u)"
      if "member_on_domain (tenant_of s) u (o_domain org) = None" "m \<in> set (org_members (tenant_of s))" for m
      using that org by (auto simp: member_on_domain_def findMember_def find_None_iff)
    have no_seat: "\<not> (tm_teamId k = t_id team \<and> tm_userId k = u)"
      if "target_team_row (tenant_of s) team u = None" "k \<in> set (team_members (tenant_of s))" for k
      using that by (auto simp: target_team_row_def findTeamMember_def find_None_iff)
    have member: "(\<exists>m \<in> set (org_members (tenant_of t)). active_member (o_id org) u m) \<longleftrightarrow>
        (\<forall>m \<in> set (org_members (tenant_of s)). om_orgId m = o_id org \<longrightarrow> om_userId m = u \<longrightarrow> om_status m = ACTIVE)"
    proof (cases "member_on_domain (tenant_of s) u (o_domain org)")
      case None
      then have "org_members (tenant_of t) = org_members (tenant_of s) @ [target_member env org u]"
        using jo mt by simp
      then show ?thesis using none[OF None] by (auto simp: target_member_def new_member_def)
    next
      case (Some m)
      then have "m \<in> set (org_members (tenant_of s))" "om_userId m = u" "om_orgId m = o_id org"
        "org_members (tenant_of t) = org_members (tenant_of s)"
        using jo mt by (auto simp: member_on_domain_def findMember_def dest!: find_Some_set)
      then show ?thesis using member_row_unique[OF assms(3)] by metis
    qed
    have seat: "(\<exists>k \<in> set (team_members (tenant_of t)). tm_teamId k = t_id team \<and> tm_userId k = u \<and> tm_status k = ACTIVE) \<longleftrightarrow>
        (\<forall>k \<in> set (team_members (tenant_of s)). tm_teamId k = t_id team \<longrightarrow> tm_userId k = u \<longrightarrow> tm_status k = ACTIVE)"
    proof (cases "target_team_row (tenant_of s) team u")
      case None
      have "target_team_row (tenant_of v) team u = None"
        using None tv by (simp add: target_team_row_def findTeamMember_def)
      then have "team_members (tenant_of t) = team_members (tenant_of s) @ [target_seat env team u]"
        using jt tv by simp
      then show ?thesis using no_seat[OF None] by (auto simp: target_seat_def new_team_member_def)
    next
      case (Some k)
      have "target_team_row (tenant_of v) team u = Some k"
        using Some tv by (simp add: target_team_row_def findTeamMember_def)
      then have "team_members (tenant_of t) = team_members (tenant_of s)" using jt tv by simp
      moreover have "k \<in> set (team_members (tenant_of s))" "tm_teamId k = t_id team" "tm_userId k = u"
        using Some by (auto simp: target_team_row_def findTeamMember_def dest!: find_Some_set)
      ultimately show ?thesis using seat_row_unique[OF assms(4)] by metis
    qed
    have "team_in_org (tenant_of t) (o_id org) (t_id team)"
      using resolve_targetD(3,4)[OF assms(2)] mt tv by (auto simp: team_in_org_def)
    then show ?thesis using member seat by (simp add: workspace_in_force_def rows_allow_def)
  qed
qed

lemma write_reviewD: "write_review i f v n s = (Inr (), t) \<Longrightarrow> t = update_request i f n s"
  by (auto simp: write_review_def attempt_value split: option.splits if_splits)

lemma finish_reviewD:
  assumes "finish_review env gc st action orgId row reviewer reason s = (Inr out, t)"
  shows "gd_requests t = gd_requests (update_request (xr_id row) (review st (gate_clock env) reviewer reason) (gate_clock env) s)"
    "xv_row out = (review st (gate_clock env) reviewer reason row)\<lparr>xr_updatedAt := gate_clock env\<rparr>"
    "\<exists>log. tenant_of t = (tenant_of s)\<lparr>audit_log := log\<rparr>"
proof -
  let ?f = "review st (gate_clock env) reviewer reason"
  let ?w = "update_request (xr_id row) ?f (gate_clock env) s"
  let ?row = "(?f row)\<lparr>xr_updatedAt := gate_clock env\<rparr>"
  from assms have t: "t = auditAccessRequestReview env action orgId gc ?row reviewer ?w" and
    out: "out = toAccessRequestRecord env ?row (normalizeDomain (cfg_domain (gc_client gc)))"
    by (auto simp: finish_review_def Let_def bind_step_Inr writing_value return_value dest!: write_reviewD)
  show "gd_requests t = gd_requests ?w" by (simp add: t auditAccessRequestReview_def)
  show "xv_row out = ?row" by (simp add: out toAccessRequestRecord_def)
  have "\<exists>log. auditOrg e a r d = d\<lparr>audit_log := log\<rparr>" for e a r d
    by (cases "audit_reachable e") (auto simp: auditOrg_def writeOrgAuditLog_def intro: exI[of _ "audit_log d"])
  then show "\<exists>log. tenant_of t = (tenant_of s)\<lparr>audit_log := log\<rparr>"
    unfolding t auditAccessRequestReview_def set_tenant_sel by (simp add: update_request_def)
qed

text \<open>
  C16: A successful approval of an open request concerns the calling domain's
  own organisation and team, the configured ones; it marks the request approved, leaves every other
  request as it is, adds at most one plain membership of each and changes no other row. The person
  is in the workspace afterwards exactly when no suspended or removed membership of theirs was
  there before: such rows are taken for memberships, so the approval succeeds and lets nobody in.
\<close>

theorem access_approval_outcome:
  assumes "approveAccessRequest env gc orgId teamId requestId reviewer reason s = (Inr out, t)"
    and "row \<in> set (gd_requests s)" and "xr_id row = requestId" and "distinct (map xr_id (gd_requests s))"
    and "xr_status row \<noteq> Request_Approved" and "xr_userId row = Some u" and "u \<noteq> []"
    and inv: "member_indexes_ok (tenant_of s)" "team_member_index_ok (tenant_of s)"
      "distinct (map o_id (organisations (tenant_of s)))"
  shows "\<exists>org team. org \<in> set (organisations (tenant_of s)) \<and> o_id org = js_trim orgId \<and>
      o_domain org = normalizeDomain (cfg_domain (gc_client gc)) \<and>
      team \<in> set (teams (tenant_of s)) \<and> t_id team = teamId \<and> t_orgId team = o_id org \<and>
      xv_row out = (review Request_Approved (gate_clock env) reviewer reason row)\<lparr>xr_updatedAt := gate_clock env\<rparr> \<and>
      gd_requests t = update_where (\<lambda>r. r = row) (\<lambda>_. xv_row out) (gd_requests s) \<and>
      org_members (tenant_of t) \<in> {org_members (tenant_of s), org_members (tenant_of s) @ [target_member env org u]} \<and>
      team_members (tenant_of t) \<in> {team_members (tenant_of s), team_members (tenant_of s) @ [target_seat env team u]} \<and>
      organisations (tenant_of t) = organisations (tenant_of s) \<and> teams (tenant_of t) = teams (tenant_of s) \<and>
      (workspace_in_force (tenant_of t) u (o_id org) teamId \<longleftrightarrow> rows_allow (tenant_of s) org team u)"
proof -
  from assms(1) obtain found where
    checks: "access_review_checks env gc orgId teamId requestId s = Inr found"
    by (auto simp: approveAccessRequest_def bind_step_Inr reading_value)
  then have "found \<in> set (gd_requests s)" "xr_id found = requestId" and
    conf: "assertConfiguredAccessTarget gc orgId teamId = Inr ()"
    by (auto simp: access_review_checks_def findRequestOrThrow_def resolveConfiguredAccessTarget_def and_then_Inr_iff
        dest!: find_Some_set split: option.splits)
  then have found: "found = row" using assms(2-4) by (auto simp: distinct_map inj_on_def)
  have target: "xc_target_org_id (gc_access gc) = Some orgId" "xc_target_team_id (gc_access gc) = Some teamId"
    using conf by (auto simp: assertConfiguredAccessTarget_def Let_def check_def split: if_splits)
  from assms(1) checks found assms(5-7) obtain v where
    ens: "ensureUserAssignedToConfiguredAccessTarget env gc u s = (Inr (), v)" and
    fin: "finish_review env gc Request_Approved ''access_request.approved'' orgId row reviewer reason v = (Inr out, t)"
    by (cases u) (auto simp: approveAccessRequest_def bind_step_Inr reading_value)
  obtain org team where rt: "resolveAccessTarget gc (tenant_of s) = Inr (org, team)"
    by (rule ensureD[OF ens]) (rule that)
  note place = resolve_targetD[OF rt]
  note joined = assigned_in_force[OF ens rt inv]
  let ?out = "(review Request_Approved (gate_clock env) reviewer reason row)\<lparr>xr_updatedAt := gate_clock env\<rparr>"
  from fin have t: "gd_requests t = gd_requests (update_request (xr_id row)
        (review Request_Approved (gate_clock env) reviewer reason) (gate_clock env) v)"
      "xv_row out = ?out" "\<exists>log. tenant_of t = (tenant_of v)\<lparr>audit_log := log\<rparr>"
    using finish_reviewD[OF fin] by blast+
  have "gd_requests t = update_where (\<lambda>r. r = row) (\<lambda>_. ?out) (gd_requests s)"
    using assms(2,4) joined(2) unfolding t(1) update_request_def update_where_def
    by (auto simp: distinct_map inj_on_def)
  moreover have "workspace_in_force (tenant_of t) u (o_id org) teamId \<longleftrightarrow> rows_allow (tenant_of s) org team u"
    using joined(1) t(3) place(5) target(2) by (auto simp: workspace_in_force_def team_in_org_def)
  moreover have "organisations (tenant_of v) = organisations (tenant_of s)" "teams (tenant_of v) = teams (tenant_of s)"
    by (metis joined(5) org_db.select_convs(1) org_db.surjective org_db.update_convs(2) org_db.update_convs(4),
        metis joined(5) org_db.select_convs(3) org_db.surjective org_db.update_convs(2) org_db.update_convs(4))
  ultimately show ?thesis
    using place joined(3,4) t(2,3) target by (intro exI[of _ org] exI[of _ team]) auto
qed

subsection \<open>A small run\<close>

text \<open>Dan asks for the default team, Ann is told, the backend approves.\<close>

definition demo_gate_config :: gate_config where
  "demo_gate_config = \<lparr>gc_client = default_config ''shop'', gc_access =
     \<lparr>xc_enabled = True, xc_target_org_id = Some ''a'', xc_target_team_id = Some ''g'', xc_auto_grant_domains = [],
      xc_notify_org_roles = [''owner'', ''admin''], xc_admin_review_url = None\<rparr>\<rparr>"

definition demo_gate :: gate_db where
  "demo_gate = login_policy_db.extend demo_policy \<lparr>gd_requests = [], gd_notices = []\<rparr>"

definition demo_asked :: "(thrown + access_decision) \<times> gate_db" where
  "demo_asked = handlePostAuthenticationAccessRequest (demo_policy_env ''r'' 40) demo_gate_config ''dan'' demo_gate"

definition demo_let_in :: "gate_db \<Rightarrow> (thrown + access_request_record) \<times> gate_db" where
  "demo_let_in db = approveAccessRequest (demo_policy_env ''v'' 60) demo_gate_config ''a'' ''g'' ''rii'' None (Some '' ok '') db"

text \<open>Ann adds Dan herself and removes him again before the request is reviewed.\<close>

definition demo_come_and_gone :: gate_db where
  "demo_come_and_gone =
     (let t0 = tenant_of (snd demo_asked);
          t1 = snd (addOrganisationMember (demo_env ''w'' 50) (demo_request (Some ''ann'')) ''dan'' ''member'' t0);
          t2 = snd (removeOrganisationMember (demo_env ''x'' 55) (demo_request (Some ''ann'')) ''dan'' t1)
      in set_tenant t2 (snd demo_asked))"

definition demo_row :: access_request where
  "demo_row = hd (gd_requests (snd demo_asked))"

lemma demo_request_facts:
  "fst demo_asked = Inr (Requested demo_row)" "gd_requests (snd demo_asked) = [demo_row]"
  "map an_to (gd_notices (snd demo_asked)) = [''ann@mail.test'', ''bob@mail.test'']"
  "xr_id demo_row = ''rii''" "xr_status demo_row = Request_Pending" "xr_userId demo_row = Some ''dan''"
  by code_simp+

lemma demo_gone_facts:
  "gd_requests demo_come_and_gone = [demo_row]"
  "map om_status (filter (\<lambda>m. om_userId m = ''dan'') (org_members (tenant_of demo_come_and_gone))) = [REMOVED]"
  by code_simp+

lemma demo_let_in_ok: "\<not> isl (fst (demo_let_in (snd demo_asked)))" "\<not> isl (fst (demo_let_in demo_come_and_gone))"
  by code_simp+

lemma demo_asked_indexes:
  "member_indexes_ok (tenant_of (snd demo_asked))" "team_member_index_ok (tenant_of (snd demo_asked))"
  "distinct (map o_id (organisations (tenant_of (snd demo_asked))))"
  by code_simp+

lemma demo_gone_indexes:
  "member_indexes_ok (tenant_of demo_come_and_gone)" "team_member_index_ok (tenant_of demo_come_and_gone)"
  "distinct (map o_id (organisations (tenant_of demo_come_and_gone)))"
  by code_simp+

theorem access_approval_outcome_witness:
  "workspace_in_force (tenant_of (snd (demo_let_in (snd demo_asked)))) ''dan'' ''a'' ''g'' \<and>
   \<not> workspace_in_force (tenant_of (snd (demo_let_in demo_come_and_gone))) ''dan'' ''a'' ''g''"
proof -
  obtain out where open_: "demo_let_in (snd demo_asked) = (Inr out, snd (demo_let_in (snd demo_asked)))"
    using demo_let_in_ok(1) by (metis prod.collapse sum.collapse(2))
  obtain out' where gone: "demo_let_in demo_come_and_gone = (Inr out', snd (demo_let_in demo_come_and_gone))"
    using demo_let_in_ok(2) by (metis prod.collapse sum.collapse(2))
  have fresh: "\<forall>m \<in> set (org_members (tenant_of (snd demo_asked))). om_userId m \<noteq> ''dan''"
    "\<forall>m \<in> set (team_members (tenant_of (snd demo_asked))). tm_userId m \<noteq> ''dan''"
    by code_simp+
  have removed: "\<exists>m \<in> set (org_members (tenant_of demo_come_and_gone)). om_orgId m = ''a'' \<and> om_userId m = ''dan'' \<and> om_status m \<noteq> ACTIVE"
    by code_simp
  have trim: "js_trim ''a'' = ''a''" by code_simp
  note row = demo_request_facts(4-6)
  have pending: "xr_status demo_row \<noteq> Request_Approved" "''dan'' \<noteq> []" by (simp_all add: row)
  have "demo_row \<in> set (gd_requests (snd demo_asked))" "distinct (map xr_id (gd_requests (snd demo_asked)))"
    by (simp_all add: demo_request_facts(2))
  from access_approval_outcome[OF open_[unfolded demo_let_in_def] this(1) row(1) this(2) pending(1) row(3) pending(2)
      demo_asked_indexes, folded demo_let_in_def]
  obtain org team where first: "o_id org = ''a''" "t_id team = ''g''"
    "workspace_in_force (tenant_of (snd (demo_let_in (snd demo_asked)))) ''dan'' (o_id org) ''g'' \<longleftrightarrow>
       rows_allow (tenant_of (snd demo_asked)) org team ''dan''"
    unfolding trim by blast
  have "rows_allow (tenant_of (snd demo_asked)) org team ''dan''"
    using fresh unfolding rows_allow_def by blast
  moreover have "demo_row \<in> set (gd_requests demo_come_and_gone)" "distinct (map xr_id (gd_requests demo_come_and_gone))"
    by (simp_all add: demo_gone_facts(1))
  from access_approval_outcome[OF gone[unfolded demo_let_in_def] this(1) row(1) this(2) pending(1) row(3) pending(2)
      demo_gone_indexes, folded demo_let_in_def]
  obtain org' team' where second: "o_id org' = ''a''" "t_id team' = ''g''"
    "workspace_in_force (tenant_of (snd (demo_let_in demo_come_and_gone))) ''dan'' (o_id org') ''g'' \<longleftrightarrow>
       rows_allow (tenant_of demo_come_and_gone) org' team' ''dan''"
    unfolding trim by blast
  have "\<not> rows_allow (tenant_of demo_come_and_gone) org' team' ''dan''"
    using removed second(1) unfolding rows_allow_def by auto
  ultimately show ?thesis using first second by simp
qed

text \<open>Dan signs in twice: the second sign-in renews the row of the first.\<close>

definition demo_asked_again :: "(thrown + access_decision) \<times> gate_db" where
  "demo_asked_again =
     handlePostAuthenticationAccessRequest (demo_policy_env ''s'' 45) demo_gate_config ''dan'' (snd demo_asked)"

definition demo_renewed :: access_request where
  "demo_renewed = hd (gd_requests (snd demo_asked_again))"

lemma demo_again_facts: "fst demo_asked_again = Inr (Requested demo_renewed)" "xr_id demo_renewed = ''rii''"
  "xr_teamId demo_renewed = ''g''" "xr_email demo_renewed = ''dan@mail.test''"
  by code_simp+

theorem open_requests_stay_unique_witness:
  "filter (pending_for ''g'' ''dan@mail.test'') (gd_requests (snd demo_asked_again)) = [demo_renewed]"
proof -
  have "request_history demo_gate (snd demo_asked)"
    using request_history.signed_in[OF request_history.start] unfolding demo_asked_def by (metis prod.collapse)
  moreover have "gd_requests demo_gate = []" by (simp add: demo_gate_def login_policy_db.extend_def)
  moreover have "handlePostAuthenticationAccessRequest (demo_policy_env ''s'' 45) demo_gate_config ''dan'' (snd demo_asked) =
      (Inr (Requested demo_renewed), snd demo_asked_again)"
    using demo_again_facts(1) unfolding demo_asked_again_def by (metis prod.collapse)
  ultimately show ?thesis
    using open_requests_stay_unique[of demo_gate "snd demo_asked"] demo_again_facts(3,4) by metis
qed

end
