(* ===== verification/Signature_Gate.thy ===== *)
theory Signature_Gate
  imports Access_Requests Login_Codes Authorization_Code
begin

section \<open>Agreements between authentication and the code\<close>

text \<open>
  \<^verbatim>\<open>signature-policy.service.ts\<close>, \<^verbatim>\<open>authorization-origin-lock.service.ts\<close>,
  \<^verbatim>\<open>signature-continuation.service.ts\<close> and \<^verbatim>\<open>signing-continuation-capability.service.ts\<close>: a domain
  may require published agreements to be signed before a code is handed out. A login that lacks
  a signature is parked as a continuation row, a bearer capability that is redeemed once for the
  code after signing. \<^verbatim>\<open>oauth-code.service.ts\<close> issues and consumes the codes of the public
  profile.

  The code keeps both kinds of authorization code in one table, those of the public profile with an
  empty config URL; here they are two lists, and a new public code is compared with both.
\<close>

subsection \<open>Rows\<close>

record signature_settings =
  ss_enabled :: bool
  ss_policyRevision :: int
  ss_retentionDays :: "int option"

record agreement =
  ag_id :: string
  ag_domain :: string
  ag_title :: string
  ag_description :: "string option"
  ag_displayOrder :: int
  ag_requiredForAccess :: bool
  ag_createdAt :: int

datatype signature_method = CLICKWRAP | TYPED_NAME

datatype version_status = DRAFT | PUBLISHED | SUPERSEDED | WITHDRAWN

record agreement_version =
  av_id :: string
  av_agreementId :: string
  av_version :: int
  av_title :: string
  av_originalFilename :: string
  av_signingMethod :: signature_method
  av_acceptanceStatement :: string
  av_sourcePdfSha256 :: string
  av_status :: version_status
  av_effectiveAt :: "int option"

record agreement_signature =
  as_userId :: string
  as_domain :: string
  as_agreementVersionId :: string
  as_revoked :: bool

datatype auth_profile = CONFIG_JWT | PUBLIC_OAUTH

record signing_continuation =
  sg_id :: string
  sg_tokenHash :: string
  sg_userId :: string
  sg_domain :: string
  sg_authProfile :: auth_profile
  sg_configUrl :: "string option"
  sg_redirectUrl :: string
  sg_oauthState :: "string option"
  sg_oauthClientId :: "string option"
  sg_oauthScope :: "string option"
  sg_resource :: "string option"
  sg_codeChallenge :: string
  sg_codeChallengeMethod :: string
  sg_rememberMe :: bool
  sg_requestAccess :: bool
  sg_orgId :: "string option"
  sg_teamId :: "string option"
  sg_authMethod :: string
  sg_twoFaCompleted :: bool
  sg_tokenVersion :: "nat option"
  sg_policyRevision :: int
  sg_expiresAt :: int
  sg_consumedAt :: "int option"
  sg_attemptCount :: nat
  sg_createdAt :: int

record oauth_code =
  oc_id :: string
  oc_codeHash :: string
  oc_userId :: string
  oc_domain :: string
  oc_redirectUrl :: string
  oc_oauthClientId :: string
  oc_oauthScope :: "string option"
  oc_resource :: "string option"
  oc_state :: "string option"
  oc_codeChallenge :: string
  oc_codeChallengeMethod :: string
  oc_rememberMe :: bool
  oc_tokenVersion :: nat
  oc_expiresAt :: int
  oc_usedAt :: "int option"

record sign_db = gate_db +
  sd_settings :: "string \<rightharpoonup> signature_settings"
  sd_agreements :: "agreement list"
  sd_versions :: "agreement_version list"
  sd_signatures :: "agreement_signature list"
  sd_continuations :: "signing_continuation list"
  sd_oauth_codes :: "oauth_code list"

record sign_env =
  se_policy :: policy_env
  se_token :: string
  se_ttlMinutes :: int
  se_maxAttempts :: nat
  se_await :: "sign_db \<Rightarrow> sign_db"

type_synonym 'a sign_step = "sign_db \<Rightarrow> (thrown + 'a) \<times> sign_db"

abbreviation sign_auth :: "sign_env \<Rightarrow> auth_env" where
  "sign_auth env \<equiv> pe_auth (se_policy env)"

abbreviation sign_now :: "sign_env \<Rightarrow> int" where
  "sign_now env \<equiv> now (sign_auth env)"

text \<open>A step on the authentication tables alone.\<close>

definition on_auth :: "'a auth_step \<Rightarrow> 'a sign_step" where
  "on_auth m db = (case m (lp_auth db) of (r, a) \<Rightarrow> (r, db\<lparr>lp_auth := a\<rparr>))"

subsection \<open>The policy\<close>

record required_version =
  rv_agreementId :: string
  rv_agreementVersionId :: string
  rv_version :: int
  rv_title :: string
  rv_agreementTitle :: string
  rv_description :: "string option"
  rv_originalFilename :: string
  rv_displayOrder :: int
  rv_signingMethod :: signature_method
  rv_acceptanceStatement :: string
  rv_sourcePdfSha256 :: string

record policy_evaluation =
  pv_enabled :: bool
  pv_policyRevision :: int
  pv_complete :: bool
  pv_required :: "required_version list"
  pv_missing :: "required_version list"

definition required_agreements :: "string \<Rightarrow> sign_db \<Rightarrow> agreement list" where
  "required_agreements domain db =
     js_sort (\<lambda>a b. if ag_displayOrder a \<noteq> ag_displayOrder b then ag_displayOrder a - ag_displayOrder b
                    else ag_createdAt a - ag_createdAt b)
       (filter (\<lambda>a. ag_domain a = domain \<and> ag_requiredForAccess a) (sd_agreements db))"

definition in_effect :: "int \<Rightarrow> agreement_version \<Rightarrow> bool" where
  "in_effect t v \<longleftrightarrow> av_status v = PUBLISHED \<and> (case av_effectiveAt v of None \<Rightarrow> False | Some e \<Rightarrow> e \<le> t)"

definition current_version :: "int \<Rightarrow> sign_db \<Rightarrow> agreement \<Rightarrow> agreement_version option" where
  "current_version t db a =
     (case js_sort (\<lambda>v w. av_version w - av_version v)
        (filter (\<lambda>v. av_agreementId v = ag_id a \<and> in_effect t v) (sd_versions db)) of
        [] \<Rightarrow> None | v # _ \<Rightarrow> Some v)"

definition requirement :: "agreement \<Rightarrow> agreement_version \<Rightarrow> required_version" where
  "requirement a v =
     \<lparr>rv_agreementId = ag_id a, rv_agreementVersionId = av_id v, rv_version = av_version v, rv_title = av_title v,
      rv_agreementTitle = ag_title a, rv_description = ag_description a,
      rv_originalFilename = av_originalFilename v, rv_displayOrder = ag_displayOrder a,
      rv_signingMethod = av_signingMethod v, rv_acceptanceStatement = av_acceptanceStatement v,
      rv_sourcePdfSha256 = av_sourcePdfSha256 v\<rparr>"

definition satisfied_versions :: "string \<Rightarrow> string \<Rightarrow> sign_db \<Rightarrow> string set" where
  "satisfied_versions domain userId db =
     as_agreementVersionId ` set (filter (\<lambda>s. as_domain s = domain \<and> as_userId s = userId \<and> \<not> as_revoked s)
       (sd_signatures db))"

definition evaluateSignaturePolicy :: "string \<Rightarrow> string \<Rightarrow> int \<Rightarrow> sign_db \<Rightarrow> policy_evaluation checked" where
  "evaluateSignaturePolicy domain userId t db =
     (let off = (\<lambda>r. Inr \<lparr>pv_enabled = False, pv_policyRevision = r, pv_complete = True, pv_required = [], pv_missing = []\<rparr>)
      in case sd_settings db domain of
        None \<Rightarrow> off 0
      | Some settings \<Rightarrow>
          if \<not> ss_enabled settings then off (ss_policyRevision settings)
          else if (case ss_retentionDays settings of None \<Rightarrow> True | Some d \<Rightarrow> d \<le> 0)
            then refuse_with INTERNAL 500 ''SIGNATURE_POLICY_INVALID''
          else
            (let agreements = required_agreements domain db in
             if agreements = [] \<or> list_ex (\<lambda>a. current_version t db a = None) agreements
             then refuse_with INTERNAL 500 ''SIGNATURE_POLICY_INVALID''
             else
               (let required = map (\<lambda>a. requirement a (the (current_version t db a))) agreements;
                    missing = filter (\<lambda>r. rv_agreementVersionId r \<notin> satisfied_versions domain userId db) required
                in Inr \<lparr>pv_enabled = True, pv_policyRevision = ss_policyRevision settings,
                        pv_complete = (missing = []), pv_required = required, pv_missing = missing\<rparr>)))"

subsection \<open>The locks of a decision\<close>

definition lockAuthorizationOriginForDecision ::
  "sign_env \<Rightarrow> auth_profile \<Rightarrow> scope_request \<Rightarrow> nat \<Rightarrow> unit sign_step" where
  "lockAuthorizationOriginForDecision env profile scope credentialEpoch =
     bind_step (writing (se_await env)) (\<lambda>_.
     bind_step (on_auth (lockAndAssertAuthenticationEpoch (sign_auth env) (sc_userId scope) credentialEpoch)) (\<lambda>_.
     bind_step (if profile = CONFIG_JWT
                then on_auth (lockAndAssertActiveClientWorkspaceScope (sign_auth env) scope) else return ()) (\<lambda>_.
     writing (se_await env))))"

subsection \<open>Public codes\<close>

record oauth_code_request =
  oq_userId :: string
  oq_domain :: string
  oq_oauthClientId :: string
  oq_redirectUrl :: string
  oq_resource :: "string option"
  oq_scope :: "string option"
  oq_state :: "string option"
  oq_codeChallenge :: string
  oq_rememberMe :: bool
  oq_credentialEpoch :: nat

definition new_oauth_code :: "sign_env \<Rightarrow> oauth_code_request \<Rightarrow> nat \<Rightarrow> oauth_code" where
  "new_oauth_code env p k =
     \<lparr>oc_id = fresh_id (tenant_env (sign_auth env)) k,
      oc_codeHash = hashAuthorizationCode (sign_auth env) (random_token (sign_auth env) k),
      oc_userId = oq_userId p, oc_domain = oq_domain p, oc_redirectUrl = oq_redirectUrl p,
      oc_oauthClientId = oq_oauthClientId p, oc_oauthScope = oq_scope p, oc_resource = oq_resource p,
      oc_state = oq_state p, oc_codeChallenge = oq_codeChallenge p, oc_codeChallengeMethod = ''S256'',
      oc_rememberMe = oq_rememberMe p, oc_tokenVersion = oq_credentialEpoch p,
      oc_expiresAt = sign_now env + AUTHORIZATION_CODE_TTL_MS, oc_usedAt = None\<rparr>"

definition create_oauth_code :: "oauth_code \<Rightarrow> sign_db \<Rightarrow> (unit \<times> sign_db) checked" where
  "create_oauth_code r db =
     (if (\<exists>c \<in> set (sd_oauth_codes db). oc_codeHash c = oc_codeHash r \<or> oc_id c = oc_id r) \<or>
         (\<exists>c \<in> set (auth_codes (lp_auth db)). ac_codeHash c = oc_codeHash r \<or> ac_id c = oc_id r)
      then Inl (Db_Error ''P2002'')
      else Inr ((), db\<lparr>sd_oauth_codes := sd_oauth_codes db @ [r]\<rparr>))"

fun draw_oauth_code :: "sign_env \<Rightarrow> oauth_code_request \<Rightarrow> nat \<Rightarrow> nat \<Rightarrow> string sign_step" where
  "draw_oauth_code env p k 0 = reading (\<lambda>_. refuse_with INTERNAL 500 ''AUTH_CODE_COLLISION'')"
| "draw_oauth_code env p k (Suc left) = (\<lambda>db.
     case attempt (create_oauth_code (new_oauth_code env p k)) db of
       (Inr _, db1) \<Rightarrow> (Inr (random_token (sign_auth env) k), db1)
     | (Inl e, db1) \<Rightarrow> (if e = Db_Error ''P2002'' then draw_oauth_code env p (Suc k) left db1 else (Inl e, db1)))"

definition issueOAuthCode :: "sign_env \<Rightarrow> oauth_code_request \<Rightarrow> string sign_step" where
  "issueOAuthCode env p =
     bind_step (on_auth (lockAndAssertAuthenticationEpoch (sign_auth env) (oq_userId p) (oq_credentialEpoch p))) (\<lambda>_.
     draw_oauth_code env p 0 3)"

record oauth_code_presented =
  op_code :: string
  op_oauthClientId :: string
  op_redirectUrl :: string
  op_codeVerifier :: "string option"

record oauth_code_grant =
  og_userId :: string
  og_resource :: "string option"
  og_scope :: "string option"
  og_rememberMe :: bool

definition oauth_code_checks :: "sign_env \<Rightarrow> oauth_code_presented \<Rightarrow> sign_db \<Rightarrow> oauth_code checked" where
  "oauth_code_checks env q db =
     (case List.find (\<lambda>c. oc_codeHash c = hashAuthorizationCode (sign_auth env) (op_code q)) (sd_oauth_codes db) of
        None \<Rightarrow> invalid_code
      | Some row \<Rightarrow>
          if oc_oauthClientId row = [] \<or> oc_oauthClientId row \<noteq> op_oauthClientId q \<or>
             oc_redirectUrl row \<noteq> op_redirectUrl q then invalid_code
          else if oc_codeChallenge row = [] \<or> oc_codeChallengeMethod row \<noteq> ''S256'' then invalid_code
          else if verifyPkceCodeVerifier (sign_auth env) (op_codeVerifier q) (oc_codeChallenge row) \<noteq> Inr ()
            then invalid_code
          else if is_set (oc_usedAt row) \<or> oc_expiresAt row \<le> sign_now env then invalid_code
          else if int (oc_tokenVersion row) > MAX_SAFE_INTEGER then invalid_code
          else Inr row)"

definition open_oauth_code :: "sign_env \<Rightarrow> oauth_code \<Rightarrow> oauth_code \<Rightarrow> bool" where
  "open_oauth_code env row c \<longleftrightarrow> oc_id c = oc_id row \<and> oc_usedAt c = None \<and> sign_now env < oc_expiresAt c"

definition claim_oauth_code :: "sign_env \<Rightarrow> oauth_code \<Rightarrow> unit sign_step" where
  "claim_oauth_code env row db =
     (let db1 = db\<lparr>sd_oauth_codes :=
            update_where (open_oauth_code env row) (\<lambda>c. c\<lparr>oc_usedAt := Some (sign_now env)\<rparr>) (sd_oauth_codes db)\<rparr>
      in if count_where (open_oauth_code env row) (sd_oauth_codes db) \<noteq> 1 then (invalid_code, db1) else (Inr (), db1))"

definition consumeOAuthCode :: "sign_env \<Rightarrow> oauth_code_presented \<Rightarrow> oauth_code_grant sign_step" where
  "consumeOAuthCode env q =
     bind_step (reading (oauth_code_checks env q)) (\<lambda>row.
     bind_step (on_auth (opaque (lockAndAssertAuthenticationEpoch (sign_auth env) (oc_userId row) (oc_tokenVersion row)))) (\<lambda>_.
     bind_step (claim_oauth_code env row) (\<lambda>_.
     return \<lparr>og_userId = oc_userId row, og_resource = oc_resource row, og_scope = oc_oauthScope row,
             og_rememberMe = oc_rememberMe row\<rparr>)))"

subsection \<open>Parking a login\<close>

text \<open>A redirect is the URL it starts from with the query parameters that are set on it; how the URL
  library prints it is left to the library.\<close>

type_synonym redirect = "string \<times> (string \<times> string) list"

record config_gate = code_request +
  cq_state :: "string option"
  cq_requestAccess :: bool
  cq_authMethod :: string

record public_gate = oauth_code_request +
  oq_authMethod :: string
  oq_twoFaCompleted :: bool

datatype gate_outcome =
    Code_Granted string redirect
  | Signing_Required string redirect int

definition hashSigningContinuationToken :: "sign_env \<Rightarrow> string \<Rightarrow> string" where
  "hashSigningContinuationToken env token =
     hmac_hex (hashes (sign_auth env)) (secret (sign_auth env)) (''uoa-signing-continuation'' @ CHR 0x00 # token)"

definition with_state :: "string option \<Rightarrow> (string \<times> string) list" where
  "with_state state = (if truthy state then [(''state'', the state)] else [])"

definition code_redirect :: "string \<Rightarrow> string \<Rightarrow> string option \<Rightarrow> redirect" where
  "code_redirect redirectUrl code state = (redirectUrl, (''code'', code) # with_state state)"

definition configSigningUrl :: "string \<Rightarrow> string \<Rightarrow> redirect" where
  "configSigningUrl token configUrl =
     (''/auth'', [(''config_url'', configUrl), (''flow'', ''signatures''), (''signing_token'', token)])"

definition publicSigningUrl :: "string \<Rightarrow> oauth_code_request \<Rightarrow> redirect" where
  "publicSigningUrl token p =
     (''/oauth/authorize'',
      [(''response_type'', ''code''), (''client_id'', oq_oauthClientId p), (''redirect_uri'', oq_redirectUrl p),
       (''code_challenge'', oq_codeChallenge p), (''code_challenge_method'', ''S256''),
       (''flow'', ''signatures''), (''signing_token'', token)] @ with_state (oq_state p) @
      (if truthy (oq_resource p) then [(''resource'', the (oq_resource p))] else []) @
      (if truthy (oq_scope p) then [(''scope'', the (oq_scope p))] else []))"

definition requirePkce :: "string option \<Rightarrow> string option \<Rightarrow> string checked" where
  "requirePkce challenge challengeMethod =
     (if \<not> truthy challenge \<or> challengeMethod \<noteq> Some ''S256'' then refuse_with BAD_REQUEST 400 ''PKCE_REQUIRED''
      else Inr (the challenge))"

definition parked :: "sign_env \<Rightarrow> int \<Rightarrow> signing_continuation" where
  "parked env revision =
     \<lparr>sg_id = fresh_id (tenant_env (sign_auth env)) 0, sg_tokenHash = hashSigningContinuationToken env (se_token env),
      sg_userId = [], sg_domain = [], sg_authProfile = CONFIG_JWT, sg_configUrl = None, sg_redirectUrl = [],
      sg_oauthState = None, sg_oauthClientId = None, sg_oauthScope = None, sg_resource = None,
      sg_codeChallenge = [], sg_codeChallengeMethod = ''S256'', sg_rememberMe = False, sg_requestAccess = False,
      sg_orgId = None, sg_teamId = None, sg_authMethod = [], sg_twoFaCompleted = False, sg_tokenVersion = None,
      sg_policyRevision = revision, sg_expiresAt = sign_now env + se_ttlMinutes env * 60000,
      sg_consumedAt = None, sg_attemptCount = 0, sg_createdAt = sign_now env\<rparr>"

definition parked_config :: "sign_env \<Rightarrow> config_gate \<Rightarrow> int \<Rightarrow> signing_continuation" where
  "parked_config env p revision = (parked env revision)
     \<lparr>sg_userId := cq_userId p, sg_domain := normalizeDomain (cq_domain p), sg_authProfile := CONFIG_JWT,
      sg_configUrl := Some (cq_configUrl p), sg_redirectUrl := cq_redirectUrl p, sg_oauthState := cq_state p,
      sg_codeChallenge := (case cq_codeChallenge p of None \<Rightarrow> [] | Some c \<Rightarrow> c), sg_rememberMe := cq_rememberMe p,
      sg_requestAccess := cq_requestAccess p, sg_orgId := cq_orgId p, sg_teamId := cq_teamId p,
      sg_authMethod := cq_authMethod p, sg_twoFaCompleted := cq_twoFaCompleted p,
      sg_tokenVersion := Some (cq_credentialEpoch p)\<rparr>"

definition parked_public :: "sign_env \<Rightarrow> public_gate \<Rightarrow> int \<Rightarrow> signing_continuation" where
  "parked_public env p revision = (parked env revision)
     \<lparr>sg_userId := oq_userId p, sg_domain := normalizeDomain (oq_domain p), sg_authProfile := PUBLIC_OAUTH,
      sg_redirectUrl := oq_redirectUrl p, sg_oauthState := oq_state p, sg_oauthClientId := Some (oq_oauthClientId p),
      sg_oauthScope := oq_scope p, sg_resource := oq_resource p, sg_codeChallenge := oq_codeChallenge p,
      sg_rememberMe := oq_rememberMe p, sg_authMethod := oq_authMethod p, sg_twoFaCompleted := oq_twoFaCompleted p,
      sg_tokenVersion := Some (oq_credentialEpoch p)\<rparr>"

text \<open>The CHECK constraints of the table. A row of the config profile must not carry the state of
  the relying party, although the row is written with it.\<close>

definition continuation_checks_ok :: "signing_continuation \<Rightarrow> bool" where
  "continuation_checks_ok r \<longleftrightarrow>
     sg_createdAt r < sg_expiresAt r \<and>
     (case sg_authProfile r of
        CONFIG_JWT \<Rightarrow> is_set (sg_configUrl r) \<and> \<not> is_set (sg_oauthClientId r) \<and> \<not> is_set (sg_resource r) \<and>
          \<not> is_set (sg_oauthState r) \<and> \<not> is_set (sg_oauthScope r)
      | PUBLIC_OAUTH \<Rightarrow> \<not> is_set (sg_configUrl r) \<and> is_set (sg_oauthClientId r))"

definition createContinuation :: "signing_continuation \<Rightarrow> sign_db \<Rightarrow> (unit \<times> sign_db) checked" where
  "createContinuation r db =
     (if \<not> continuation_checks_ok r then Inl (Db_Error ''23514'')
      else if \<exists>c \<in> set (sd_continuations db). sg_tokenHash c = sg_tokenHash r \<or> sg_id c = sg_id r
      then Inl (Db_Error ''P2002'')
      else Inr ((), db\<lparr>sd_continuations := sd_continuations db @ [r]\<rparr>))"

definition signature_verdict :: "sign_env \<Rightarrow> string \<Rightarrow> string \<Rightarrow> policy_evaluation sign_step" where
  "signature_verdict env domain userId = reading (evaluateSignaturePolicy domain userId (sign_now env))"

definition finalizeConfigAuthorizationWithSignatures :: "db_client \<Rightarrow> sign_env \<Rightarrow> config_gate \<Rightarrow> gate_outcome sign_step" where
  "finalizeConfigAuthorizationWithSignatures client env p =
     bind_step (reading (\<lambda>_. requirePkce (cq_codeChallenge p) (cq_codeChallengeMethod p))) (\<lambda>_.
     let request = (code_request.truncate p)\<lparr>cq_domain := normalizeDomain (cq_domain p)\<rparr> in
     runInTransaction client (se_await env)
       (bind_step (lockAuthorizationOriginForDecision env CONFIG_JWT (code_scope request) (cq_credentialEpoch p)) (\<lambda>_.
        bind_step (signature_verdict env (cq_domain request) (cq_userId p)) (\<lambda>policy.
        if pv_complete policy then
          bind_step (on_auth (issueAuthorizationCode (sign_auth env) request)) (\<lambda>code.
          return (Code_Granted code (code_redirect (cq_redirectUrl p) code (cq_state p))))
        else
          bind_step (attempt (createContinuation
            (parked_config env (p\<lparr>cq_domain := cq_domain request\<rparr>) (pv_policyRevision policy)))) (\<lambda>_.
          return (Signing_Required (se_token env) (configSigningUrl (se_token env) (cq_configUrl p))
            (pv_policyRevision policy)))))))"

definition finalizePublicOAuthAuthorizationWithSignatures :: "db_client \<Rightarrow> sign_env \<Rightarrow> public_gate \<Rightarrow> gate_outcome sign_step" where
  "finalizePublicOAuthAuthorizationWithSignatures client env p =
     bind_step (reading (\<lambda>_. requirePkce (Some (oq_codeChallenge p)) (Some ''S256''))) (\<lambda>_.
     let request = (oauth_code_request.truncate p)\<lparr>oq_domain := normalizeDomain (oq_domain p)\<rparr>;
         scope = \<lparr>sc_userId = oq_userId p, sc_domain = oq_domain request, sc_orgId = None, sc_teamId = None\<rparr> in
     runInTransaction client (se_await env)
       (bind_step (lockAuthorizationOriginForDecision env PUBLIC_OAUTH scope (oq_credentialEpoch p)) (\<lambda>_.
        bind_step (signature_verdict env (oq_domain request) (oq_userId p)) (\<lambda>policy.
        if pv_complete policy then
          bind_step (issueOAuthCode env request) (\<lambda>code.
          return (Code_Granted code (code_redirect (oq_redirectUrl p) code (oq_state p))))
        else
          bind_step (attempt (createContinuation
            (parked_public env (p\<lparr>oq_domain := oq_domain request\<rparr>) (pv_policyRevision policy)))) (\<lambda>_.
          return (Signing_Required (se_token env) (publicSigningUrl (se_token env) request)
            (pv_policyRevision policy)))))))"

subsection \<open>Resuming it\<close>

definition requireActiveSigningContinuation :: "sign_env \<Rightarrow> string \<Rightarrow> sign_db \<Rightarrow> signing_continuation checked" where
  "requireActiveSigningContinuation env token db =
     (case List.find (\<lambda>c. sg_tokenHash c = hashSigningContinuationToken env token) (sd_continuations db) of
        None \<Rightarrow> unauthenticated
      | Some c \<Rightarrow>
          if is_set (sg_consumedAt c) \<or> sg_expiresAt c \<le> sign_now env \<or> se_maxAttempts env \<le> sg_attemptCount c
          then unauthenticated else Inr c)"

definition requireCredentialEpoch :: "signing_continuation \<Rightarrow> nat checked" where
  "requireCredentialEpoch c =
     (case sg_tokenVersion c of
        None \<Rightarrow> unauthenticated
      | Some e \<Rightarrow> if int e > MAX_SAFE_INTEGER then unauthenticated else Inr e)"

definition sameOrigin :: "signing_continuation \<Rightarrow> signing_continuation \<Rightarrow> bool" where
  "sameOrigin l r \<longleftrightarrow>
     sg_id l = sg_id r \<and> sg_userId l = sg_userId r \<and> sg_domain l = sg_domain r \<and>
     sg_authProfile l = sg_authProfile r \<and> sg_configUrl l = sg_configUrl r \<and>
     sg_oauthClientId l = sg_oauthClientId r \<and> sg_redirectUrl l = sg_redirectUrl r \<and>
     sg_orgId l = sg_orgId r \<and> sg_teamId l = sg_teamId r \<and> sg_authMethod l = sg_authMethod r \<and>
     sg_twoFaCompleted l = sg_twoFaCompleted r \<and> sg_tokenVersion l = sg_tokenVersion r \<and>
     sg_expiresAt l = sg_expiresAt r"

definition continuation_scope :: "signing_continuation \<Rightarrow> scope_request" where
  "continuation_scope c =
     \<lparr>sc_userId = sg_userId c, sc_domain = sg_domain c, sc_orgId = sg_orgId c, sc_teamId = sg_teamId c\<rparr>"

definition lockAndRequireSigningContinuationForDecision ::
  "sign_env \<Rightarrow> string \<Rightarrow> (signing_continuation \<times> nat) sign_step" where
  "lockAndRequireSigningContinuationForDecision env token =
     bind_step (reading (requireActiveSigningContinuation env token)) (\<lambda>preview.
     bind_step (reading (\<lambda>_. requireCredentialEpoch preview)) (\<lambda>credentialEpoch.
     bind_step (lockAuthorizationOriginForDecision env (sg_authProfile preview) (continuation_scope preview)
       credentialEpoch) (\<lambda>_.
     bind_step (writing (se_await env)) (\<lambda>_.
     bind_step (reading (requireActiveSigningContinuation env token)) (\<lambda>current.
     bind_step (reading (\<lambda>_. if sameOrigin preview current then requireCredentialEpoch current else unauthenticated))
       (\<lambda>e. return (current, e)))))))"

definition withEpochValidSigningContinuationRead ::
  "db_client \<Rightarrow> sign_env \<Rightarrow> string \<Rightarrow> (signing_continuation \<Rightarrow> 'a sign_step) \<Rightarrow> 'a sign_step" where
  "withEpochValidSigningContinuationRead client env token read =
     runInTransaction client (se_await env)
       (bind_step (lockAndRequireSigningContinuationForDecision env token) (\<lambda>(continuation, _). read continuation))"

definition recordSigningContinuationFailure :: "string \<Rightarrow> sign_db \<Rightarrow> sign_db" where
  "recordSigningContinuationFailure i db =
     db\<lparr>sd_continuations := update_where (\<lambda>c. sg_id c = i \<and> sg_consumedAt c = None)
       (\<lambda>c. c\<lparr>sg_attemptCount := sg_attemptCount c + 1\<rparr>) (sd_continuations db)\<rparr>"

definition open_continuation :: "sign_env \<Rightarrow> signing_continuation \<Rightarrow> signing_continuation \<Rightarrow> bool" where
  "open_continuation env row c \<longleftrightarrow> sg_id c = sg_id row \<and> sg_consumedAt c = None \<and> sign_now env < sg_expiresAt c"

definition claim_continuation :: "sign_env \<Rightarrow> signing_continuation \<Rightarrow> unit sign_step" where
  "claim_continuation env row db =
     (let db1 = db\<lparr>sd_continuations :=
            update_where (open_continuation env row) (\<lambda>c. c\<lparr>sg_consumedAt := Some (sign_now env)\<rparr>) (sd_continuations db)\<rparr>
      in if count_where (open_continuation env row) (sd_continuations db) \<noteq> 1
         then (unauthenticated, db1) else (Inr (), db1))"

definition continuation_code :: "signing_continuation \<Rightarrow> nat \<Rightarrow> code_request" where
  "continuation_code c e =
     \<lparr>cq_userId = sg_userId c, cq_domain = sg_domain c, cq_configUrl = the (sg_configUrl c),
      cq_redirectUrl = sg_redirectUrl c, cq_codeChallenge = Some (sg_codeChallenge c),
      cq_codeChallengeMethod = Some ''S256'', cq_rememberMe = sg_rememberMe c,
      cq_twoFaCompleted = sg_twoFaCompleted c, cq_credentialEpoch = e, cq_orgId = sg_orgId c, cq_teamId = sg_teamId c\<rparr>"

definition continuationToPublicInput :: "signing_continuation \<Rightarrow> oauth_code_request checked" where
  "continuationToPublicInput c =
     (case (sg_oauthClientId c, sg_tokenVersion c) of
        (Some (x # xs), Some e) \<Rightarrow>
          Inr \<lparr>oq_userId = sg_userId c, oq_domain = sg_domain c, oq_oauthClientId = x # xs,
               oq_redirectUrl = sg_redirectUrl c, oq_resource = sg_resource c, oq_scope = sg_oauthScope c,
               oq_state = sg_oauthState c, oq_codeChallenge = sg_codeChallenge c,
               oq_rememberMe = sg_rememberMe c, oq_credentialEpoch = e\<rparr>
      | _ \<Rightarrow> unauthenticated)"

definition still_to_sign :: "string \<Rightarrow> signing_continuation \<Rightarrow> policy_evaluation \<Rightarrow> gate_outcome checked" where
  "still_to_sign token c policy =
     (if sg_authProfile c = CONFIG_JWT then
        (case sg_configUrl c of
           None \<Rightarrow> unauthenticated
         | Some url \<Rightarrow> Inr (Signing_Required token (configSigningUrl token url) (pv_policyRevision policy)))
      else and_then (continuationToPublicInput c) (\<lambda>p.
        Inr (Signing_Required token (publicSigningUrl token p) (pv_policyRevision policy))))"

definition resume_code :: "sign_env \<Rightarrow> signing_continuation \<Rightarrow> nat \<Rightarrow> string sign_step" where
  "resume_code env c e =
     (if sg_authProfile c = CONFIG_JWT then
        (if \<not> truthy (sg_configUrl c) then reading (\<lambda>_. unauthenticated)
         else on_auth (issueAuthorizationCode (sign_auth env) (continuation_code c e)))
      else bind_step (reading (\<lambda>_. continuationToPublicInput c)) (issueOAuthCode env))"

definition completeSigningContinuation :: "db_client \<Rightarrow> sign_env \<Rightarrow> string \<Rightarrow> gate_outcome sign_step" where
  "completeSigningContinuation client env token =
     runInTransaction client (se_await env)
       (bind_step (lockAndRequireSigningContinuationForDecision env token) (\<lambda>(c, e).
        bind_step (signature_verdict env (sg_domain c) (sg_userId c)) (\<lambda>policy.
        if \<not> pv_complete policy then reading (\<lambda>_. still_to_sign token c policy)
        else
          bind_step (claim_continuation env c) (\<lambda>_.
          bind_step (resume_code env c e) (\<lambda>code.
          return (Code_Granted code (code_redirect (sg_redirectUrl c) code (sg_oauthState c))))))))"

end
