(* ===== verification/Login_Finalize.thy ===== *)
theory Login_Finalize
  imports Signature_Gate
begin

section \<open>From a verified identity to the code\<close>

text \<open>
  \<^verbatim>\<open>access-request-flow.service.ts\<close> and \<^verbatim>\<open>workspace-finalize.service.ts\<close>: what every sign-in ends
  with, however the identity was verified. The two-factor policy decides between a challenge, a
  forced enrolment and going on; going on checks the epoch, the allow-lists and the bans, files an
  access request where one is asked for, and passes the signature gate to the code.

  A challenge and an enrolment are signed tokens; the model keeps what they are bound to.
\<close>

record login_params =
  lg_userId :: string
  lg_credentialEpoch :: nat
  lg_configUrl :: string
  lg_redirectUrl :: string
  lg_state :: "string option"
  lg_rememberMe :: bool
  lg_requestAccess :: bool
  lg_authMethod :: string
  lg_twoFaCompleted :: bool
  lg_codeChallenge :: "string option"
  lg_codeChallengeMethod :: "string option"
  lg_ip :: "string option"
  lg_orgId :: "string option"
  lg_teamId :: "string option"

definition parseRequestAccessFlag :: "string \<Rightarrow> bool" where
  "parseRequestAccessFlag s = (js_lower (js_trim s) \<in> {''true'', ''1'', ''yes''})"

definition buildAccessRequestedUrl :: "string \<Rightarrow> string \<Rightarrow> redirect" where
  "buildAccessRequestedUrl configUrl redirectUrl =
     (''/auth'', [(''config_url'', configUrl), (''request_access'', ''true''), (''request_access_status'', ''pending'')] @
       (if redirectUrl = [] then [] else [(''redirect_url'', redirectUrl)]))"

datatype final_result =
    Granted string redirect
  | Signing string redirect
  | Access_Requested redirect

definition gate_input :: "client_config \<Rightarrow> login_params \<Rightarrow> config_gate" where
  "gate_input c p =
     \<lparr>cq_userId = lg_userId p, cq_domain = cfg_domain c, cq_configUrl = lg_configUrl p,
      cq_redirectUrl = lg_redirectUrl p, cq_codeChallenge = lg_codeChallenge p,
      cq_codeChallengeMethod = lg_codeChallengeMethod p, cq_rememberMe = lg_rememberMe p,
      cq_twoFaCompleted = lg_twoFaCompleted p, cq_credentialEpoch = lg_credentialEpoch p,
      cq_orgId = lg_orgId p, cq_teamId = lg_teamId p, cq_state = lg_state p,
      cq_requestAccess = lg_requestAccess p, cq_authMethod = lg_authMethod p\<rparr>"

definition gate_result :: "gate_outcome \<Rightarrow> final_result" where
  "gate_result g =
     (case g of Code_Granted code r \<Rightarrow> Granted code r | Signing_Required token r _ \<Rightarrow> Signing token r)"

definition assertLocalEpoch :: "sign_env \<Rightarrow> login_params \<Rightarrow> (nat \<times> bool) sign_step" where
  "assertLocalEpoch env p = on_auth (lockAndAssertAuthenticationEpoch (sign_auth env) (lg_userId p) (lg_credentialEpoch p))"

definition access_decision_step :: "sign_env \<Rightarrow> gate_config \<Rightarrow> login_params \<Rightarrow> access_decision sign_step" where
  "access_decision_step env gc p =
     (if lg_requestAccess p then handlePostAuthenticationAccessRequest (se_policy env) gc (lg_userId p)
      else return Continue)"

definition finalize_locked :: "sign_env \<Rightarrow> gate_config \<Rightarrow> login_params \<Rightarrow> final_result sign_step" where
  "finalize_locked env gc p =
     bind_step (assertLocalEpoch env p) (\<lambda>_.
     bind_step (reading (assertEmailDomainAllowedForLogin (se_policy env) (lg_userId p) (cfg_domain (gc_client gc)))) (\<lambda>_.
     bind_step (reading (assertNotBannedAtLogin (se_policy env) (lg_userId p) (cfg_domain (gc_client gc)) (lg_ip p))) (\<lambda>_.
     bind_step (access_decision_step env gc p) (\<lambda>decision.
     case decision of
       Requested _ \<Rightarrow> return (Access_Requested (buildAccessRequestedUrl (lg_configUrl p) (lg_redirectUrl p)))
     | Continue \<Rightarrow>
         bind_step (finalizeConfigAuthorizationWithSignatures Transaction_Client env (gate_input (gc_client gc) p)) (\<lambda>gate.
         return (gate_result gate))))))"

definition finalizeAuthenticatedUser :: "db_client \<Rightarrow> sign_env \<Rightarrow> gate_config \<Rightarrow> login_params \<Rightarrow> final_result sign_step" where
  "finalizeAuthenticatedUser client env gc p =
     runInTransaction client (se_await env)
       (bind_step (writing (se_await env)) (\<lambda>_. finalize_locked env gc p))"

subsection \<open>The two-factor decision\<close>

datatype workspace_outcome =
    Twofa_Challenge login_params string
  | Twofa_Enrol login_params string
  | Finalized final_result

definition policy_org :: "gate_config \<Rightarrow> login_params \<Rightarrow> string option" where
  "policy_org gc p =
     (case lg_orgId p of
        Some i \<Rightarrow> Some i
      | None \<Rightarrow> if lg_requestAccess p then xc_target_org_id (gc_access gc) else None)"

text \<open>What a challenge or an enrolment binds: everything of the login but the address of the client.\<close>

definition bound :: "login_params \<Rightarrow> login_params" where
  "bound p = p\<lparr>lg_ip := None, lg_twoFaCompleted := False\<rparr>"

definition startTwoFactorSetup :: "sign_env \<Rightarrow> gate_config \<Rightarrow> login_params \<Rightarrow> sign_db \<Rightarrow> workspace_outcome checked" where
  "startTwoFactorSetup env gc p db =
     (if \<not> database_url (tenant_env (sign_auth env)) then refuse_with INTERNAL 500 ''DATABASE_DISABLED''
      else case findUser (lp_auth db) (lg_userId p) of
        None \<Rightarrow> refuse_with BAD_REQUEST 400 ''TWOFA_SETUP_FAILED''
      | Some u \<Rightarrow>
          if u_twoFaEnabled u \<or> tokenVersion (lp_auth db) (lg_userId p) \<noteq> Some (lg_credentialEpoch p)
          then refuse_with BAD_REQUEST 400 ''TWOFA_SETUP_FAILED''
          else Inr (Twofa_Enrol (bound p) (cfg_domain (gc_client gc))))"

definition decide_twofa :: "sign_env \<Rightarrow> gate_config \<Rightarrow> login_params \<Rightarrow> bool \<Rightarrow> twofa_policy \<Rightarrow> workspace_outcome sign_step" where
  "decide_twofa env gc p twoFaEnabled policy =
     (if policy \<noteq> OFF \<and> twoFaEnabled then return (Twofa_Challenge (bound p) (cfg_domain (gc_client gc)))
      else if policy = REQUIRED then reading (startTwoFactorSetup env gc p)
      else bind_step (finalizeAuthenticatedUser Transaction_Client env gc (p\<lparr>lg_twoFaCompleted := False\<rparr>)) (\<lambda>r.
        return (Finalized r)))"

definition finalizeWithTwoFaPolicy :: "db_client \<Rightarrow> sign_env \<Rightarrow> gate_config \<Rightarrow> login_params \<Rightarrow> workspace_outcome sign_step" where
  "finalizeWithTwoFaPolicy client env gc p =
     runInTransaction client (se_await env)
       (bind_step (writing (se_await env)) (\<lambda>_.
        bind_step (assertLocalEpoch env p) (\<lambda>(_, twoFaEnabled).
        bind_step (reading (\<lambda>_.
          if (lg_orgId p = None) \<noteq> (lg_teamId p = None)
          then Inl (Db_Error ''workspace scope requires both orgId and teamId'') else Inr ())) (\<lambda>_.
        bind_step (reading (\<lambda>db. Inr (resolveTwoFaPolicy (gc_client gc) (Some (lg_userId p)) (policy_org gc p) (lp_auth db))))
          (decide_twofa env gc p twoFaEnabled)))))"

end
