(* ===== verification/Finalize_Properties.thy ===== *)
theory Finalize_Properties
  imports Login_Finalize Code_Properties Access_Request_Properties
begin

section \<open>A granted login is cleared\<close>

text \<open>
  What has been checked when a sign-in ends with a code: the epoch, the two-factor policy, the
  allow-lists, the bans, the workspace and the required agreements; and how the code that is
  handed out depends on it.
\<close>

subsection \<open>The signature policy\<close>

text \<open>The promise of the gate, in terms of the tables: every required agreement of the domain has a
  newest version in effect, and the user's signature of that version, not revoked.\<close>

definition agreements_signed :: "string \<Rightarrow> string \<Rightarrow> int \<Rightarrow> sign_db \<Rightarrow> bool" where
  "agreements_signed domain userId t db \<longleftrightarrow>
     (case sd_settings db domain of
        None \<Rightarrow> True
      | Some settings \<Rightarrow> ss_enabled settings \<longrightarrow>
          (\<forall>a \<in> set (sd_agreements db). ag_domain a = domain \<and> ag_requiredForAccess a \<longrightarrow>
            (\<exists>v \<in> set (sd_versions db). av_agreementId v = ag_id a \<and> in_effect t v \<and>
              (\<forall>w \<in> set (sd_versions db). av_agreementId w = ag_id a \<and> in_effect t w \<longrightarrow> av_version w \<le> av_version v) \<and>
              (\<exists>g \<in> set (sd_signatures db). as_agreementVersionId g = av_id v \<and> as_domain g = domain \<and>
                as_userId g = userId \<and> \<not> as_revoked g))))"

lemma js_sort_descending:
  "js_sort (\<lambda>v w. f w - f v) xs = y # ys \<Longrightarrow> x \<in> set xs \<Longrightarrow> f x \<le> f y"
proof (induction xs arbitrary: y ys x)
  case (Cons a xs)
  show ?case
  proof (cases "js_sort (\<lambda>v w. f w - f v) xs")
    case Nil
    then have "xs = []" using set_js_sort[of "\<lambda>v w. f w - f v" xs] by simp
    then show ?thesis using Cons.prems by simp
  next
    case (Cons b bs)
    then show ?thesis using Cons.prems Cons.IH[OF Cons] by (force split: if_splits)
  qed
qed simp

lemma current_versionD:
  assumes "current_version t db a = Some v"
  shows "v \<in> set (sd_versions db)" "av_agreementId v = ag_id a" "in_effect t v"
    "\<And>w. w \<in> set (sd_versions db) \<Longrightarrow> av_agreementId w = ag_id a \<Longrightarrow> in_effect t w \<Longrightarrow> av_version w \<le> av_version v"
proof -
  let ?rows = "filter (\<lambda>v. av_agreementId v = ag_id a \<and> in_effect t v) (sd_versions db)"
  obtain vs where sorted: "js_sort (\<lambda>v w. av_version w - av_version v) ?rows = v # vs"
    using assms by (auto simp: current_version_def split: list.splits)
  then have "v \<in> set ?rows" by (metis list.set_intros(1) set_js_sort)
  then show "v \<in> set (sd_versions db)" "av_agreementId v = ag_id a" "in_effect t v" by simp_all
  show "av_version w \<le> av_version v" if "w \<in> set (sd_versions db)" "av_agreementId w = ag_id a" "in_effect t w" for w
    using js_sort_descending[OF sorted, of w] that by simp
qed

lemma policy_complete_signed:
  assumes "evaluateSignaturePolicy domain userId t db = Inr policy" and "pv_complete policy"
  shows "agreements_signed domain userId t db"
proof (cases "sd_settings db domain")
  case (Some settings)
  have "\<exists>v \<in> set (sd_versions db). av_agreementId v = ag_id a \<and> in_effect t v \<and>
      (\<forall>w \<in> set (sd_versions db). av_agreementId w = ag_id a \<and> in_effect t w \<longrightarrow> av_version w \<le> av_version v) \<and>
      (\<exists>g \<in> set (sd_signatures db). as_agreementVersionId g = av_id v \<and> as_domain g = domain \<and>
        as_userId g = userId \<and> \<not> as_revoked g)"
    if on: "ss_enabled settings" and a: "a \<in> set (sd_agreements db)" "ag_domain a = domain" "ag_requiredForAccess a" for a
  proof -
    have req: "a \<in> set (required_agreements domain db)" using a by (simp add: required_agreements_def)
    from assms(1) Some on have
      all: "\<not> list_ex (\<lambda>a. current_version t db a = None) (required_agreements domain db)" and
      p: "pv_complete policy \<longleftrightarrow> filter (\<lambda>r. rv_agreementVersionId r \<notin> satisfied_versions domain userId db)
            (map (\<lambda>a. requirement a (the (current_version t db a))) (required_agreements domain db)) = []"
      by (auto simp: evaluateSignaturePolicy_def Let_def split: if_splits option.splits)
    from all req obtain v where v: "current_version t db a = Some v" by (auto simp: list_ex_iff)
    have "av_id v \<in> satisfied_versions domain userId db"
      using p assms(2) req v by (force simp: filter_empty_conv requirement_def)
    then obtain g where "g \<in> set (sd_signatures db)" "as_agreementVersionId g = av_id v" "as_domain g = domain"
      "as_userId g = userId" "\<not> as_revoked g" by (auto simp: satisfied_versions_def)
    then show ?thesis using current_versionD[OF v] by blast
  qed
  then show ?thesis using Some by (simp add: agreements_signed_def)
qed (simp add: agreements_signed_def)

lemma signed_auth [simp]: "agreements_signed d u t (db\<lparr>lp_auth := a\<rparr>) = agreements_signed d u t db"
  by (cases "sd_settings db d") (simp_all add: agreements_signed_def)

subsection \<open>The steps of a login that runs alone\<close>

definition alone :: "sign_env \<Rightarrow> bool" where
  "alone env \<longleftrightarrow> se_await env = id \<and> await (sign_auth env) = id"

lemma on_auth_Inr: "on_auth m s = (Inr x, t) \<longleftrightarrow> (\<exists>a. m (lp_auth s) = (Inr x, a) \<and> t = s\<lparr>lp_auth := a\<rparr>)"
  by (auto simp: on_auth_def split: prod.splits)

lemma run_Inr: "runInTransaction client settle body s = (Inr x, t) \<longleftrightarrow> body s = (Inr x, t)"
  by (auto simp: runInTransaction_def split: db_client.splits prod.splits sum.splits)

lemma epoch_alone:
  assumes "on_auth (lockAndAssertAuthenticationEpoch (sign_auth env) u e) s = (Inr (n, b), t)" and "alone env"
  shows "t = s" "tokenVersion (lp_auth s) u = Some e" "\<exists>user. findUser (lp_auth s) u = Some user \<and> u_twoFaEnabled user = b"
  using assms
  by (auto simp: on_auth_Inr lockAndAssertAuthenticationEpoch_def Let_def alone_def split: option.splits if_splits)

lemma scope_alone:
  assumes "on_auth (lockAndAssertActiveClientWorkspaceScope (sign_auth env) sc) s = (Inr x, t)" and "alone env"
  shows "t = s"
    "sc_orgId sc = Some i \<Longrightarrow> i \<noteq> [] \<Longrightarrow>
       \<exists>tm. sc_teamId sc = Some tm \<and> workspace_in_force (tenant_of s) (sc_userId sc) i tm"
proof -
  from assms(1) obtain a where
    a: "lockAndAssertActiveClientWorkspaceScope (sign_auth env) sc (lp_auth s) = (Inr x, a)" "t = s\<lparr>lp_auth := a\<rparr>"
    by (auto simp: on_auth_Inr)
  have same: "a = lp_auth s" using locked_scope_state[OF a(1)] assms(2) by (auto simp: alone_def)
  then show "t = s" using a(2) by simp
  show "\<exists>tm. sc_teamId sc = Some tm \<and> workspace_in_force (tenant_of s) (sc_userId sc) i tm"
    if "sc_orgId sc = Some i" "i \<noteq> []"
    using locked_scopeD(2)[OF a(1) that] same by blast
qed

lemma origin_alone:
  assumes "lockAuthorizationOriginForDecision env CONFIG_JWT sc e s = (Inr (), t)" and "alone env"
  shows "t = s" "tokenVersion (lp_auth s) (sc_userId sc) = Some e"
    "sc_orgId sc = Some i \<Longrightarrow> i \<noteq> [] \<Longrightarrow>
       \<exists>tm. sc_teamId sc = Some tm \<and> workspace_in_force (tenant_of s) (sc_userId sc) i tm"
proof -
  from assms obtain n b v where
    1: "on_auth (lockAndAssertAuthenticationEpoch (sign_auth env) (sc_userId sc) e) s = (Inr (n, b), v)" and
    2: "on_auth (lockAndAssertActiveClientWorkspaceScope (sign_auth env) sc) v = (Inr (), t)"
    by (auto simp: lockAuthorizationOriginForDecision_def bind_step_Inr writing_value alone_def)
  note e = epoch_alone[OF 1 assms(2)]
  show "t = s" "tokenVersion (lp_auth s) (sc_userId sc) = Some e"
    using e scope_alone(1)[OF 2 assms(2)] by simp_all
  show "\<exists>tm. sc_teamId sc = Some tm \<and> workspace_in_force (tenant_of s) (sc_userId sc) i tm"
    if "sc_orgId sc = Some i" "i \<noteq> []"
    using scope_alone(2)[OF 2 assms(2) that] e(1) by simp
qed

lemma issued_alone:
  assumes "on_auth (issueAuthorizationCode (sign_auth env) p) s = (Inr code, t)" and "alone env"
  shows "\<exists>j. code = random_token (sign_auth env) j \<and> database_url (tenant_env (sign_auth env)) \<and>
    t = s\<lparr>lp_auth := (lp_auth s)\<lparr>auth_codes := auth_codes (lp_auth s) @ [new_code (sign_auth env) p j]\<rparr>\<rparr>"
proof -
  from assms(1) obtain a where
    a: "issueAuthorizationCode (sign_auth env) p (lp_auth s) = (Inr code, a)" "t = s\<lparr>lp_auth := a\<rparr>"
    by (auto simp: on_auth_Inr)
  have "database_url (tenant_env (sign_auth env))"
    using a(1) by (auto simp: issueAuthorizationCode_def bind_step_Inr reading_value split: if_splits)
  then show ?thesis using assms(2) unfolding alone_def
    by (elim conjE issueD[OF a(1)]) (auto simp: a(2) create_auth_code_def split: if_splits)
qed

lemma gate_alone:
  assumes "finalizeConfigAuthorizationWithSignatures client env g s = (Inr (Code_Granted code r), t)" and "alone env"
  obtains j where "code = random_token (sign_auth env) j" "r = code_redirect (cq_redirectUrl g) code (cq_state g)"
    "t = s\<lparr>lp_auth := (lp_auth s)\<lparr>auth_codes := auth_codes (lp_auth s) @
       [new_code (sign_auth env) ((code_request.truncate g)\<lparr>cq_domain := normalizeDomain (cq_domain g)\<rparr>) j]\<rparr>\<rparr>"
    "agreements_signed (normalizeDomain (cq_domain g)) (cq_userId g) (sign_now env) s"
    "\<And>i. cq_orgId g = Some i \<Longrightarrow> i \<noteq> [] \<Longrightarrow>
       \<exists>tm. cq_teamId g = Some tm \<and> workspace_in_force (tenant_of s) (cq_userId g) i tm"
    "database_url (tenant_env (sign_auth env))"
proof -
  let ?p = "(code_request.truncate g)\<lparr>cq_domain := normalizeDomain (cq_domain g)\<rparr>"
  have fields: "cq_userId ?p = cq_userId g" "cq_orgId ?p = cq_orgId g" "cq_teamId ?p = cq_teamId g"
    by (simp_all add: code_request.truncate_def)
  from assms(1) obtain v policy where
    origin: "lockAuthorizationOriginForDecision env CONFIG_JWT (code_scope ?p) (cq_credentialEpoch g) s = (Inr (), v)" and
    verdict: "evaluateSignaturePolicy (normalizeDomain (cq_domain g)) (cq_userId g) (sign_now env) v = Inr policy" and
    complete: "pv_complete policy" and
    issue: "on_auth (issueAuthorizationCode (sign_auth env) ?p) v = (Inr code, t)" and
    r: "r = code_redirect (cq_redirectUrl g) code (cq_state g)"
    by (auto simp: finalizeConfigAuthorizationWithSignatures_def Let_def bind_step_Inr reading_value run_Inr
        return_value signature_verdict_def attempt_value split: if_splits)
  note o = origin_alone[OF origin assms(2)]
  from issued_alone[OF issue assms(2)] o(1) obtain j where
    "code = random_token (sign_auth env) j"
    "t = s\<lparr>lp_auth := (lp_auth s)\<lparr>auth_codes := auth_codes (lp_auth s) @ [new_code (sign_auth env) ?p j]\<rparr>\<rparr>"
    "database_url (tenant_env (sign_auth env))"
    by auto
  moreover have "agreements_signed (normalizeDomain (cq_domain g)) (cq_userId g) (sign_now env) s"
    using policy_complete_signed[OF verdict complete] o(1) by simp
  moreover have "\<exists>tm. cq_teamId g = Some tm \<and> workspace_in_force (tenant_of s) (cq_userId g) i tm"
    if "cq_orgId g = Some i" "i \<noteq> []" for i
    using o(3)[of i] that fields by (simp add: code_scope_def)
  ultimately show thesis using that r by blast
qed

lemma finalized_alone:
  assumes "finalizeAuthenticatedUser client env gc p s = (Inr (Granted code r), t)" and "alone env"
  obtains v where "tokenVersion (lp_auth s) (lg_userId p) = Some (lg_credentialEpoch p)"
    "assertEmailDomainAllowedForLogin (se_policy env) (lg_userId p) (cfg_domain (gc_client gc)) s = Inr ()"
    "assertNotBannedAtLogin (se_policy env) (lg_userId p) (cfg_domain (gc_client gc)) (lg_ip p) s = Inr ()"
    "access_decision_step env gc p s = (Inr Continue, v)"
    "finalizeConfigAuthorizationWithSignatures Transaction_Client env (gate_input (gc_client gc) p) v =
       (Inr (Code_Granted code r), t)"
proof -
  from assms obtain n b s1 v decision where
    epoch: "on_auth (lockAndAssertAuthenticationEpoch (sign_auth env) (lg_userId p) (lg_credentialEpoch p)) s = (Inr (n, b), s1)" and
    allow: "assertEmailDomainAllowedForLogin (se_policy env) (lg_userId p) (cfg_domain (gc_client gc)) s1 = Inr ()" and
    ban: "assertNotBannedAtLogin (se_policy env) (lg_userId p) (cfg_domain (gc_client gc)) (lg_ip p) s1 = Inr ()" and
    go_on: "access_decision_step env gc p s1 = (Inr decision, v)" and
    rest: "(case decision of
         Continue \<Rightarrow>
           bind_step (finalizeConfigAuthorizationWithSignatures Transaction_Client env (gate_input (gc_client gc) p))
            (\<lambda>gate. return (gate_result gate))
       | Requested _ \<Rightarrow> return (Access_Requested (buildAccessRequestedUrl (lg_configUrl p) (lg_redirectUrl p)))) v =
         (Inr (Granted code r), t)"
    by (auto simp: finalizeAuthenticatedUser_def finalize_locked_def run_Inr bind_step_Inr reading_value writing_value
        alone_def assertLocalEpoch_def)
  from rest obtain gate where "decision = Continue" and
    gate: "finalizeConfigAuthorizationWithSignatures Transaction_Client env (gate_input (gc_client gc) p) v = (Inr gate, t)" and
    result: "gate_result gate = Granted code r"
    by (cases decision) (auto simp: bind_step_Inr return_value)
  note go_on = go_on[unfolded this(1)]
  from result have "gate = Code_Granted code r" by (cases gate) (simp_all add: gate_result_def)
  with epoch_alone[OF epoch assms(2)] allow ban go_on gate show thesis by (intro that[of v]) simp_all
qed

lemma policy_alone:
  assumes "finalizeWithTwoFaPolicy client env gc p s = (Inr (Finalized f), t)" and "alone env"
  obtains u where "findUser (lp_auth s) (lg_userId p) = Some u"
    "finalizeAuthenticatedUser Transaction_Client env gc (p\<lparr>lg_twoFaCompleted := False\<rparr>) s = (Inr f, t)"
    "\<not> (resolveTwoFaPolicy (gc_client gc) (Some (lg_userId p)) (policy_org gc p) (lp_auth s) \<noteq> OFF \<and> u_twoFaEnabled u)"
    "resolveTwoFaPolicy (gc_client gc) (Some (lg_userId p)) (policy_org gc p) (lp_auth s) \<noteq> REQUIRED"
proof -
  let ?pol = "\<lambda>v. resolveTwoFaPolicy (gc_client gc) (Some (lg_userId p)) (policy_org gc p) (lp_auth v)"
  from assms obtain n b v where
    epoch: "on_auth (lockAndAssertAuthenticationEpoch (sign_auth env) (lg_userId p) (lg_credentialEpoch p)) s = (Inr (n, b), v)" and
    decide: "decide_twofa env gc p b (?pol v) v = (Inr (Finalized f), t)"
    by (auto simp: finalizeWithTwoFaPolicy_def run_Inr bind_step_Inr reading_value writing_value alone_def
        assertLocalEpoch_def split: if_splits)
  note e = epoch_alone[OF epoch assms(2)]
  from e(3) obtain u where u: "findUser (lp_auth s) (lg_userId p) = Some u" "u_twoFaEnabled u = b" by blast
  have "finalizeAuthenticatedUser Transaction_Client env gc (p\<lparr>lg_twoFaCompleted := False\<rparr>) s = (Inr f, t)"
    "\<not> (?pol s \<noteq> OFF \<and> b)" "?pol s \<noteq> REQUIRED"
    using decide e(1)
    by (auto simp: decide_twofa_def bind_step_Inr return_value reading_value startTwoFactorSetup_def
        split: if_splits option.splits)
  with u show thesis by (intro that[of u]) auto
qed

text \<open>An access request writes memberships, requests and mail, never a code nor the tables of the
  agreements.\<close>

definition codes_kept :: "'z gate_db_scheme \<Rightarrow> 'z gate_db_scheme \<Rightarrow> bool" where
  "codes_kept s t \<longleftrightarrow> auth_codes (lp_auth t) = auth_codes (lp_auth s) \<and> gate_db.more t = gate_db.more s"

interpretation kept_order: store_order codes_kept
  by unfold_locales (simp_all add: codes_kept_def)

lemma tenant_steps_keep_codes: "advances codes_kept (on_tenant f)" "advances codes_kept (clear_to b)"
  by (auto simp: on_tenant_def clear_to_def set_tenant_def kept_order.advances_pure codes_kept_def
      split: sum.splits intro!: kept_order.advances_attempt)

lemma ensure_keeps_codes: "advances codes_kept (ensureUserAssignedToConfiguredAccessTarget env gc u)"
  unfolding ensureUserAssignedToConfiguredAccessTarget_def join_target_org_def join_target_team_def
  by (auto split: prod.split option.split
      intro!: kept_order.advances_bind kept_order.advances_pure tenant_steps_keep_codes)

lemma decision_keeps_codes: "advances codes_kept (access_decision_step env gc p)"
proof -
  have filing: "advances codes_kept (file_request e org team user)" for e org team user
    unfolding file_request_def
    by (auto split: option.split simp: create_request_def codes_kept_def update_request_def
        intro!: kept_order.advances_bind kept_order.advances_pure kept_order.advances_writing
          kept_order.advances_attempt split: if_splits)
  show ?thesis
    unfolding access_decision_step_def handlePostAuthenticationAccessRequest_def
    by (auto split: prod.split option.split simp: send_notices_def codes_kept_def
        intro!: kept_order.advances_bind kept_order.advances_pure kept_order.advances_writing
          ensure_keeps_codes filing)
qed

lemma not_bannedD:
  assumes "assertNotBannedAtLogin env userId domain ip db = Inr ()" and "database_url (tenant_env (pe_auth env))"
    and "findUser (lp_auth db) userId = Some u" and "b \<in> set (lp_bans db)"
    and "ban_applies (normalizeDomain domain) (login_orgs (tenant (lp_auth db)) (normalizeDomain domain) userId)
           (login_teams (tenant (lp_auth db)) (normalizeDomain domain) userId) b"
    and "matchesRule (bn_type b) (bn_value b)
           \<lparr>pr_email = js_lower (js_trim (u_email u)), pr_userId = Some userId, pr_ip = ip\<rparr>"
  shows "is_login_superuser (lp_auth db) (normalizeDomain domain) userId"
  using assms by (auto simp: assertNotBannedAtLogin_def Let_def list_ex_iff split: if_splits)

text \<open>
  C4: Whoever receives a code has been cleared. A sign-in that ends with a code, run without
  interference, was made by an existing user whose credential epoch is the one the identity was verified under; no second
  factor was owed, because the strongest policy in force is off, or optional for a user who has none; the allow-lists admit the
  address and no ban that reaches the user matches, superusers excepted; every agreement the
  domain requires is signed in its newest version in effect and not revoked; the workspace, if one was
  chosen, is in force. Exactly one code was added, for this user, workspace, challenge and redirect URL, not
  claiming a second factor, and the redirect carries it with the state of the relying party.
\<close>

theorem granted_login_is_cleared:
  assumes "finalizeWithTwoFaPolicy client env gc p s = (Inr (Finalized (Granted code r)), t)" and "alone env"
  shows "\<exists>u j. findUser (lp_auth s) (lg_userId p) = Some u \<and>
    tokenVersion (lp_auth s) (lg_userId p) = Some (lg_credentialEpoch p) \<and>
    (let policy = resolveTwoFaPolicy (gc_client gc) (Some (lg_userId p)) (policy_org gc p) (lp_auth s)
     in policy = OFF \<or> policy = OPTIONAL \<and> \<not> u_twoFaEnabled u) \<and>
    assertEmailDomainAllowedForLogin (se_policy env) (lg_userId p) (cfg_domain (gc_client gc)) s = Inr () \<and>
    (\<forall>b \<in> set (lp_bans s).
       ban_applies (normalizeDomain (cfg_domain (gc_client gc)))
         (login_orgs (tenant_of s) (normalizeDomain (cfg_domain (gc_client gc))) (lg_userId p))
         (login_teams (tenant_of s) (normalizeDomain (cfg_domain (gc_client gc))) (lg_userId p)) b \<longrightarrow>
       matchesRule (bn_type b) (bn_value b)
         \<lparr>pr_email = js_lower (js_trim (u_email u)), pr_userId = Some (lg_userId p), pr_ip = lg_ip p\<rparr> \<longrightarrow>
       is_login_superuser (lp_auth s) (normalizeDomain (cfg_domain (gc_client gc))) (lg_userId p)) \<and>
    agreements_signed (normalizeDomain (cfg_domain (gc_client gc))) (lg_userId p) (sign_now env) t \<and>
    (\<forall>i. lg_orgId p = Some i \<longrightarrow> i \<noteq> [] \<longrightarrow>
       (\<exists>tm. lg_teamId p = Some tm \<and> workspace_in_force (tenant_of t) (lg_userId p) i tm)) \<and>
    auth_codes (lp_auth t) = auth_codes (lp_auth s) @
      [new_code (sign_auth env) \<lparr>cq_userId = lg_userId p, cq_domain = normalizeDomain (cfg_domain (gc_client gc)),
         cq_configUrl = lg_configUrl p, cq_redirectUrl = lg_redirectUrl p, cq_codeChallenge = lg_codeChallenge p,
         cq_codeChallengeMethod = lg_codeChallengeMethod p, cq_rememberMe = lg_rememberMe p, cq_twoFaCompleted = False,
         cq_credentialEpoch = lg_credentialEpoch p, cq_orgId = lg_orgId p, cq_teamId = lg_teamId p\<rparr> j] \<and>
    code = random_token (sign_auth env) j \<and> r = code_redirect (lg_redirectUrl p) code (lg_state p)"
proof -
  let ?q = "p\<lparr>lg_twoFaCompleted := False\<rparr>"
  from assms obtain u where u: "findUser (lp_auth s) (lg_userId p) = Some u" and
    final: "finalizeAuthenticatedUser Transaction_Client env gc ?q s = (Inr (Granted code r), t)" and
    factor: "\<not> (resolveTwoFaPolicy (gc_client gc) (Some (lg_userId p)) (policy_org gc p) (lp_auth s) \<noteq> OFF \<and> u_twoFaEnabled u)"
      "resolveTwoFaPolicy (gc_client gc) (Some (lg_userId p)) (policy_org gc p) (lp_auth s) \<noteq> REQUIRED"
    by (rule policy_alone)
  from final assms(2) obtain v where epoch: "tokenVersion (lp_auth s) (lg_userId ?q) = Some (lg_credentialEpoch ?q)" and
    allow: "assertEmailDomainAllowedForLogin (se_policy env) (lg_userId ?q) (cfg_domain (gc_client gc)) s = Inr ()" and
    ban: "assertNotBannedAtLogin (se_policy env) (lg_userId ?q) (cfg_domain (gc_client gc)) (lg_ip ?q) s = Inr ()" and
    decided: "access_decision_step env gc ?q s = (Inr Continue, v)" and
    gate: "finalizeConfigAuthorizationWithSignatures Transaction_Client env (gate_input (gc_client gc) ?q) v =
       (Inr (Code_Granted code r), t)"
    by (rule finalized_alone)
  have kept: "auth_codes (lp_auth v) = auth_codes (lp_auth s)"
    using advancesD[OF decision_keeps_codes decided] by (simp add: codes_kept_def)
  show ?thesis
    using gate assms(2)
  proof (rule gate_alone)
    fix j
    assume j: "code = random_token (sign_auth env) j"
      "r = code_redirect (cq_redirectUrl (gate_input (gc_client gc) ?q)) code (cq_state (gate_input (gc_client gc) ?q))" and
      t: "t = v\<lparr>lp_auth := (lp_auth v)\<lparr>auth_codes := auth_codes (lp_auth v) @
        [new_code (sign_auth env) ((code_request.truncate (gate_input (gc_client gc) ?q))
           \<lparr>cq_domain := normalizeDomain (cq_domain (gate_input (gc_client gc) ?q))\<rparr>) j]\<rparr>\<rparr>" and
      signed: "agreements_signed (normalizeDomain (cq_domain (gate_input (gc_client gc) ?q)))
        (cq_userId (gate_input (gc_client gc) ?q)) (sign_now env) v" and
      scope: "\<And>i. cq_orgId (gate_input (gc_client gc) ?q) = Some i \<Longrightarrow> i \<noteq> [] \<Longrightarrow>
        \<exists>tm. cq_teamId (gate_input (gc_client gc) ?q) = Some tm \<and>
          workspace_in_force (tenant_of v) (cq_userId (gate_input (gc_client gc) ?q)) i tm" and
      db: "database_url (tenant_env (sign_auth env))"
    note banned = not_bannedD[OF ban, simplified, OF db u]
    have "tenant_of t = tenant_of v" by (simp add: t)
    moreover have "resolveTwoFaPolicy (gc_client gc) (Some (lg_userId p)) (policy_org gc p) (lp_auth s) = OFF \<or>
        resolveTwoFaPolicy (gc_client gc) (Some (lg_userId p)) (policy_org gc p) (lp_auth s) = OPTIONAL \<and> \<not> u_twoFaEnabled u"
      using factor twofa_policy.exhaust by blast
    ultimately show ?thesis
      using u epoch allow banned signed scope j kept
      by (intro exI[of _ u] exI[of _ j]) (simp add: t gate_input_def code_request.truncate_def Let_def)
  qed
qed

subsection \<open>A login whose user has not signed\<close>

lemma same_agreements:
  assumes "gate_db.more a = gate_db.more b"
  shows "agreements_signed d u n a = agreements_signed d u n b" "sd_continuations a = sd_continuations b"
proof -
  have eqs: "sd_settings a = sd_settings b \<and> sd_agreements a = sd_agreements b \<and> sd_versions a = sd_versions b \<and>
      sd_signatures a = sd_signatures b \<and> sd_continuations a = sd_continuations b"
    using assms by (cases a; cases b) simp
  then show "sd_continuations a = sd_continuations b" by blast
  from eqs show "agreements_signed d u n a = agreements_signed d u n b" by (simp only: agreements_signed_def)
qed

lemma gate_unsigned:
  assumes "finalizeConfigAuthorizationWithSignatures client env g s = (Inr out, t)" and "alone env"
    and "\<not> agreements_signed (normalizeDomain (cq_domain g)) (cq_userId g) (sign_now env) s"
  obtains revision where "cq_state g = None"
    "out = Signing_Required (se_token env) (configSigningUrl (se_token env) (cq_configUrl g)) revision"
    "t = s\<lparr>sd_continuations := sd_continuations s @
       [parked_config env (g\<lparr>cq_domain := normalizeDomain (cq_domain g)\<rparr>) revision]\<rparr>"
proof -
  let ?p = "(code_request.truncate g)\<lparr>cq_domain := normalizeDomain (cq_domain g)\<rparr>"
  let ?row = "\<lambda>policy. parked_config env (g\<lparr>cq_domain := cq_domain ?p\<rparr>) (pv_policyRevision policy)"
  from assms(1) obtain v policy where
    origin: "lockAuthorizationOriginForDecision env CONFIG_JWT (code_scope ?p) (cq_credentialEpoch g) s = (Inr (), v)" and
    verdict: "evaluateSignaturePolicy (normalizeDomain (cq_domain g)) (cq_userId g) (sign_now env) v = Inr policy" and
    rest: "(if pv_complete policy then
          bind_step (on_auth (issueAuthorizationCode (sign_auth env) ?p)) (\<lambda>code.
          return (Code_Granted code (code_redirect (cq_redirectUrl g) code (cq_state g))))
        else
          bind_step (attempt (createContinuation (?row policy))) (\<lambda>_.
          return (Signing_Required (se_token env) (configSigningUrl (se_token env) (cq_configUrl g))
            (pv_policyRevision policy)))) v = (Inr out, t)"
    by (auto simp: finalizeConfigAuthorizationWithSignatures_def Let_def bind_step_Inr reading_value run_Inr
        signature_verdict_def)
  have v: "v = s" by (rule origin_alone(1)[OF origin assms(2)])
  with verdict assms(3) policy_complete_signed have "\<not> pv_complete policy" by blast
  with rest have out: "out = Signing_Required (se_token env) (configSigningUrl (se_token env) (cq_configUrl g))
      (pv_policyRevision policy)" and
    row: "createContinuation (?row policy) s = Inr ((), t)"
    by (auto simp: v bind_step_Inr attempt_value return_value)
  from row have "continuation_checks_ok (?row policy)"
    "t = s\<lparr>sd_continuations := sd_continuations s @ [?row policy]\<rparr>"
    by (auto simp: createContinuation_def split: if_splits)
  moreover from this(1) have "cq_state g = None"
    by (simp add: continuation_checks_ok_def parked_config_def)
  ultimately show thesis using that[OF _ out] by simp
qed

lemma finalized_cases:
  assumes "finalizeAuthenticatedUser client env gc p s = (Inr f, t)" and "alone env"
  obtains (requested) r where "f = Access_Requested r" "codes_kept s t"
    | (gate) v g where "access_decision_step env gc p s = (Inr Continue, v)" "f = gate_result g"
        "finalizeConfigAuthorizationWithSignatures Transaction_Client env (gate_input (gc_client gc) p) v = (Inr g, t)"
proof -
  from assms obtain n b s1 v decision where
    epoch: "on_auth (lockAndAssertAuthenticationEpoch (sign_auth env) (lg_userId p) (lg_credentialEpoch p)) s = (Inr (n, b), s1)" and
    go_on: "access_decision_step env gc p s1 = (Inr decision, v)" and
    rest: "(case decision of
         Continue \<Rightarrow>
           bind_step (finalizeConfigAuthorizationWithSignatures Transaction_Client env (gate_input (gc_client gc) p))
            (\<lambda>gate. return (gate_result gate))
       | Requested _ \<Rightarrow> return (Access_Requested (buildAccessRequestedUrl (lg_configUrl p) (lg_redirectUrl p)))) v =
         (Inr f, t)"
    by (auto simp: finalizeAuthenticatedUser_def finalize_locked_def run_Inr bind_step_Inr reading_value writing_value
        alone_def assertLocalEpoch_def)
  have s1: "s1 = s" by (rule epoch_alone(1)[OF epoch assms(2)])
  show thesis
  proof (cases decision)
    case Continue
    with rest go_on s1 gate show thesis by (auto simp: bind_step_Inr return_value)
  next
    case (Requested x)
    with rest have "f = Access_Requested (buildAccessRequestedUrl (lg_configUrl p) (lg_redirectUrl p))" "t = v"
      by (simp_all add: return_value)
    with requested advancesD[OF decision_keeps_codes go_on] s1 show thesis by simp
  qed
qed

text \<open>
  C40: Whoever has not signed gets no code. A finalized sign-in of a user who lacks a signature the domain
  requires, run without interference, has added no code. It ended with an access request, or it was parked: one row
  was added that binds the token of the redirect to this user, domain, workspace, redirect URL, challenge and epoch,
  claims no second factor and expires after the configured minutes. It is parked only when the relying party
  sent no state: with a state, which the row would have to carry, the constraint of the table
  refuses the row, and the sign-in ends in an error instead.
\<close>

theorem unsigned_login_outcome:
  assumes "finalizeWithTwoFaPolicy client env gc p s = (Inr (Finalized f), t)" and "alone env"
    and "\<not> agreements_signed (normalizeDomain (cfg_domain (gc_client gc))) (lg_userId p) (sign_now env) s"
  shows "auth_codes (lp_auth t) = auth_codes (lp_auth s) \<and>
    (case f of
       Granted code r \<Rightarrow> False
     | Access_Requested r \<Rightarrow> sd_continuations t = sd_continuations s
     | Signing token r \<Rightarrow>
         lg_state p = None \<and> token = se_token env \<and> r = configSigningUrl token (lg_configUrl p) \<and>
         (\<exists>row. sd_continuations t = sd_continuations s @ [row] \<and>
            sg_tokenHash row = hashSigningContinuationToken env token \<and> sg_authProfile row = CONFIG_JWT \<and>
            sg_userId row = lg_userId p \<and> sg_domain row = normalizeDomain (normalizeDomain (cfg_domain (gc_client gc))) \<and>
            sg_configUrl row = Some (lg_configUrl p) \<and> sg_redirectUrl row = lg_redirectUrl p \<and>
            sg_orgId row = lg_orgId p \<and> sg_teamId row = lg_teamId p \<and>
            sg_codeChallenge row = (case lg_codeChallenge p of None \<Rightarrow> [] | Some ch \<Rightarrow> ch) \<and>
            sg_tokenVersion row = Some (lg_credentialEpoch p) \<and> \<not> sg_twoFaCompleted row \<and>
            sg_consumedAt row = None \<and> sg_expiresAt row = sign_now env + se_ttlMinutes env * 60000))"
proof -
  let ?q = "p\<lparr>lg_twoFaCompleted := False\<rparr>"
  from assms(1,2) have final: "finalizeAuthenticatedUser Transaction_Client env gc ?q s = (Inr f, t)"
    by (rule policy_alone)
  from final assms(2) show ?thesis
  proof (cases rule: finalized_cases)
    case (requested r)
    then show ?thesis using same_agreements(2)[of t s] by (simp add: codes_kept_def)
  next
    case (gate v g)
    have kept: "codes_kept s v" by (rule advancesD[OF decision_keeps_codes gate(1)])
    then have unsigned: "\<not> agreements_signed (normalizeDomain (cq_domain (gate_input (gc_client gc) ?q)))
        (cq_userId (gate_input (gc_client gc) ?q)) (sign_now env) v"
      using assms(3) same_agreements(1)[of v s] by (simp add: codes_kept_def gate_input_def)
    have rows: "sd_continuations v = sd_continuations s"
      using same_agreements(2)[of v s] kept by (simp add: codes_kept_def)
    from gate(3) assms(2) unsigned show ?thesis
      by (rule gate_unsigned)
        (use gate(2) kept rows in \<open>simp add: codes_kept_def gate_result_def gate_input_def parked_config_def parked_def\<close>)
  qed
qed

subsection \<open>A run\<close>

definition demo_signing :: sign_db where
  "demo_signing = gate_db.extend demo_gate
     \<lparr>sd_settings = [''shop'' \<mapsto> \<lparr>ss_enabled = True, ss_policyRevision = 3, ss_retentionDays = Some 30\<rparr>],
      sd_agreements = [\<lparr>ag_id = ''x'', ag_domain = ''shop'', ag_title = ''Terms'', ag_description = None,
        ag_displayOrder = 0, ag_requiredForAccess = True, ag_createdAt = 1\<rparr>],
      sd_versions = [\<lparr>av_id = ''x1'', av_agreementId = ''x'', av_version = 1, av_title = ''Terms'',
        av_originalFilename = ''t.pdf'', av_signingMethod = CLICKWRAP, av_acceptanceStatement = ''I agree'',
        av_sourcePdfSha256 = ''h'', av_status = PUBLISHED, av_effectiveAt = Some 2\<rparr>],
      sd_signatures = [\<lparr>as_userId = ''bob'', as_domain = ''shop'', as_agreementVersionId = ''x1'', as_revoked = False\<rparr>],
      sd_continuations = [], sd_oauth_codes = []\<rparr>"

definition demo_sign_env :: "string \<Rightarrow> int \<Rightarrow> sign_env" where
  "demo_sign_env tag n = \<lparr>se_policy = demo_policy_env tag n, se_token = tag @ ''sign'', se_ttlMinutes = 10,
     se_maxAttempts = 10, se_await = id\<rparr>"

definition demo_params :: "string \<Rightarrow> login_params" where
  "demo_params user = \<lparr>lg_userId = user, lg_credentialEpoch = 0, lg_configUrl = ''cfg'', lg_redirectUrl = ''https://shop/cb'',
     lg_state = Some ''xyz'', lg_rememberMe = True, lg_requestAccess = False, lg_authMethod = ''code'',
     lg_twoFaCompleted = False, lg_codeChallenge = Some ''ch'', lg_codeChallengeMethod = Some ''S256'', lg_ip = None,
     lg_orgId = Some ''a'', lg_teamId = Some ''g''\<rparr>"

definition demo_finished :: "string \<Rightarrow> (thrown + workspace_outcome) \<times> sign_db" where
  "demo_finished user = finalizeWithTwoFaPolicy Full_Client (demo_sign_env ''q'' 70) demo_gate_config (demo_params user) demo_signing"

text \<open>Ann has not signed. Without a state she is parked, with one she gets the database's error.\<close>

definition demo_stateless :: "(thrown + workspace_outcome) \<times> sign_db" where
  "demo_stateless = finalizeWithTwoFaPolicy Full_Client (demo_sign_env ''q'' 70) demo_gate_config
     ((demo_params ''ann'')\<lparr>lg_state := None\<rparr>) demo_signing"

lemma demo_finished_facts:
  "fst (demo_finished ''bob'') = Inr (Finalized (Granted ''q'' (''https://shop/cb'', [(''code'', ''q''), (''state'', ''xyz'')])))"
  "fst (demo_finished ''ann'') = Inl (Db_Error ''23514'')"
  "fst demo_stateless = Inr (Finalized (Signing ''qsign''
     (''/auth'', [(''config_url'', ''cfg''), (''flow'', ''signatures''), (''signing_token'', ''qsign'')])))"
  by code_simp+

lemma demo_alone: "alone (demo_sign_env tag n)" "sign_now (demo_sign_env tag n) = n"
  by (simp_all add: alone_def demo_sign_env_def demo_policy_env_def demo_auth_env_def demo_env_def)

theorem granted_login_is_cleared_witness:
  "agreements_signed ''shop'' ''bob'' 70 (snd (demo_finished ''bob'')) \<and>
   workspace_in_force (tenant_of (snd (demo_finished ''bob''))) ''bob'' ''a'' ''g''"
proof -
  have run: "finalizeWithTwoFaPolicy Full_Client (demo_sign_env ''q'' 70) demo_gate_config (demo_params ''bob'') demo_signing =
      (Inr (Finalized (Granted ''q'' (''https://shop/cb'', [(''code'', ''q''), (''state'', ''xyz'')]))), snd (demo_finished ''bob''))"
    using demo_finished_facts(1) unfolding demo_finished_def by (metis prod.collapse)
  have "normalizeDomain (cfg_domain (gc_client demo_gate_config)) = ''shop''" by code_simp
  then show ?thesis using granted_login_is_cleared[OF run demo_alone(1)]
    by (auto simp: demo_params_def demo_alone)
qed

theorem unsigned_login_outcome_witness:
  "\<exists>row. sd_continuations (snd demo_stateless) = [row] \<and> sg_userId row = ''ann'' \<and> sg_orgId row = Some ''a'' \<and>
     sg_expiresAt row = 600070"
proof -
  have run: "finalizeWithTwoFaPolicy Full_Client (demo_sign_env ''q'' 70) demo_gate_config
      ((demo_params ''ann'')\<lparr>lg_state := None\<rparr>) demo_signing =
      (Inr (Finalized (Signing ''qsign''
        (''/auth'', [(''config_url'', ''cfg''), (''flow'', ''signatures''), (''signing_token'', ''qsign'')]))),
       snd demo_stateless)"
    using demo_finished_facts(3) unfolding demo_stateless_def by (metis prod.collapse)
  have domain: "normalizeDomain (cfg_domain (gc_client demo_gate_config)) = ''shop''" by code_simp
  have unsigned: "\<not> agreements_signed ''shop'' ''ann'' 70 demo_signing"
    by (simp add: agreements_signed_def demo_signing_def gate_db.extend_def)
  have none: "sd_continuations demo_signing = []" by (simp add: demo_signing_def gate_db.extend_def)
  from unsigned_login_outcome[OF run demo_alone(1), unfolded domain demo_alone] unsigned none
  show ?thesis by (auto simp: demo_params_def demo_sign_env_def)
qed

end
