(* ===== verification/Signing_Properties.thy ===== *)
theory Signing_Properties
  imports Finalize_Properties
begin

section \<open>A parked login resumes once\<close>

text \<open>
  Over any history of logins that are parked, resumed or fail to sign, a continuation is redeemed at
  most once, only while it is open and the user's epoch is the one it was parked under, and only when every
  required agreement is signed; the code it yields is the code of the login that was parked.
\<close>

subsection \<open>How continuations age\<close>

definition continuation_ages :: "signing_continuation \<Rightarrow> signing_continuation \<Rightarrow> bool" where
  "continuation_ages c d \<longleftrightarrow>
     (\<exists>x n. d = c\<lparr>sg_consumedAt := x, sg_attemptCount := n\<rparr> \<and> sg_attemptCount c \<le> n \<and>
            (sg_consumedAt c \<noteq> None \<longrightarrow> x = sg_consumedAt c))"

definition continuations_ok :: "sign_db \<Rightarrow> bool" where
  "continuations_ok s \<longleftrightarrow>
     distinct (map sg_tokenHash (sd_continuations s)) \<and> distinct (map sg_id (sd_continuations s))"

definition along_signing :: "sign_db \<Rightarrow> sign_db \<Rightarrow> bool" where
  "along_signing s t \<longleftrightarrow> (continuations_ok s \<longrightarrow> continuations_ok t) \<and>
     (\<forall>c \<in> set (sd_continuations s). \<exists>d \<in> set (sd_continuations t). continuation_ages c d)"

lemma continuation_ages_refl [simp]: "continuation_ages c c"
  unfolding continuation_ages_def by (intro exI[of _ "sg_consumedAt c"] exI[of _ "sg_attemptCount c"]) simp

lemma continuation_ages_trans:
  assumes "continuation_ages c d" and "continuation_ages d e"
  shows "continuation_ages c e"
proof -
  from assms(1) obtain x n where d: "d = c\<lparr>sg_consumedAt := x, sg_attemptCount := n\<rparr>" "sg_attemptCount c \<le> n"
    "sg_consumedAt c \<noteq> None \<longrightarrow> x = sg_consumedAt c" unfolding continuation_ages_def by blast
  from assms(2) obtain y m where e: "e = d\<lparr>sg_consumedAt := y, sg_attemptCount := m\<rparr>" "sg_attemptCount d \<le> m"
    "sg_consumedAt d \<noteq> None \<longrightarrow> y = sg_consumedAt d" unfolding continuation_ages_def by blast
  show ?thesis unfolding continuation_ages_def
    by (intro exI[of _ y] exI[of _ m]) (use d e in auto)
qed

interpretation signing_order: store_order along_signing
proof
  show "along_signing s s" for s unfolding along_signing_def using continuation_ages_refl by blast
  show "along_signing s u" if "along_signing s t" "along_signing t u" for s t u
    using that unfolding along_signing_def by (meson continuation_ages_trans)
qed

lemma along_signing_same: "sd_continuations t = sd_continuations s \<Longrightarrow> along_signing s t"
  using signing_order.refl[of s] by (simp add: along_signing_def continuations_ok_def)

lemma update_continuations_along:
  assumes "\<And>c. P c \<Longrightarrow> continuation_ages c (f c)"
  shows "along_signing s (s\<lparr>sd_continuations := update_where P f (sd_continuations s)\<rparr>)"
proof -
  have keys: "sg_tokenHash (f c) = sg_tokenHash c \<and> sg_id (f c) = sg_id c" if "P c" for c
    using assms[OF that] by (auto simp: continuation_ages_def)
  then have "map sg_tokenHash (update_where P f (sd_continuations s)) = map sg_tokenHash (sd_continuations s)"
    "map sg_id (update_where P f (sd_continuations s)) = map sg_id (sd_continuations s)"
    by (auto simp: update_where_def)
  moreover have "\<exists>d \<in> set (update_where P f (sd_continuations s)). continuation_ages c d"
    if "c \<in> set (sd_continuations s)" for c
    using that assms by (intro bexI[of _ "if P c then f c else c"]) (auto simp: set_update_where)
  ultimately show ?thesis by (simp add: along_signing_def continuations_ok_def)
qed

lemma consumed_ages: "sg_consumedAt c = None \<Longrightarrow> continuation_ages c (c\<lparr>sg_consumedAt := Some n\<rparr>)"
  unfolding continuation_ages_def by (intro exI[of _ "Some n"] exI[of _ "sg_attemptCount c"]) simp

lemma failed_ages: "continuation_ages c (c\<lparr>sg_attemptCount := sg_attemptCount c + 1\<rparr>)"
  unfolding continuation_ages_def
  by (intro exI[of _ "sg_consumedAt c"] exI[of _ "sg_attemptCount c + 1"]) simp

lemma create_continuation_along: "createContinuation r s = Inr (x, t) \<Longrightarrow> along_signing s t"
  by (force simp: createContinuation_def along_signing_def continuations_ok_def split: if_splits)

lemma on_auth_along: "advances along_signing (on_auth m)"
  by (auto simp: advances_def on_auth_def intro: along_signing_same split: prod.split)

lemma record_failure_along: "along_signing s (recordSigningContinuationFailure i s)"
  unfolding recordSigningContinuationFailure_def
  by (rule update_continuations_along) (rule failed_ages)

lemma claim_continuation_along: "advances along_signing (claim_continuation env row)"
proof -
  have "along_signing s (s\<lparr>sd_continuations := update_where (open_continuation env row)
      (\<lambda>c. c\<lparr>sg_consumedAt := Some n\<rparr>) (sd_continuations s)\<rparr>)" for s n
    by (rule update_continuations_along) (auto simp: open_continuation_def intro: consumed_ages)
  then show ?thesis by (auto simp: advances_def claim_continuation_def Let_def)
qed

lemma draw_oauth_along: "advances along_signing (draw_oauth_code env p k n)"
proof (induction n arbitrary: k)
  case (Suc n)
  have "along_signing s (snd (draw_oauth_code env p k (Suc n) s))" for s
  proof (cases "create_oauth_code (new_oauth_code env p k) s")
    case (Inl e)
    then show ?thesis using Suc.IH[of "Suc k"] by (simp add: attempt_def advances_def signing_order.refl)
  next
    case (Inr y)
    then show ?thesis
      by (cases y) (auto simp: attempt_def create_oauth_code_def intro: along_signing_same split: if_splits)
  qed
  then show ?case by (simp add: advances_def)
qed (simp add: signing_order.advances_pure)

definition signs_wait :: "sign_env \<Rightarrow> bool" where
  "signs_wait env \<longleftrightarrow> (\<forall>x. along_signing x (se_await env x))"

lemma run_along:
  "signs_wait env \<Longrightarrow> advances along_signing m \<Longrightarrow> advances along_signing (runInTransaction client (se_await env) m)"
  by (auto simp: advances_def runInTransaction_def signs_wait_def split: db_client.split prod.split sum.split)
    (metis snd_conv)+

lemma wait_along: "signs_wait env \<Longrightarrow> advances along_signing (writing (se_await env))"
  by (rule signing_order.advances_writing) (simp add: signs_wait_def)

lemma origin_along: "signs_wait env \<Longrightarrow> advances along_signing (lockAuthorizationOriginForDecision env profile sc e)"
  unfolding lockAuthorizationOriginForDecision_def
  by (intro signing_order.advances_bind signing_order.advances_if signing_order.advances_pure on_auth_along wait_along)

lemma issue_oauth_along: "advances along_signing (issueOAuthCode env p)"
  unfolding issueOAuthCode_def by (intro signing_order.advances_bind on_auth_along draw_oauth_along)

lemma gates_along:
  assumes "signs_wait env"
  shows "advances along_signing (finalizeConfigAuthorizationWithSignatures client env g)"
    "advances along_signing (finalizePublicOAuthAuthorizationWithSignatures client env q)"
  unfolding finalizeConfigAuthorizationWithSignatures_def finalizePublicOAuthAuthorizationWithSignatures_def
    signature_verdict_def Let_def
  by (intro signing_order.advances_bind signing_order.advances_if signing_order.advances_pure on_auth_along
      issue_oauth_along origin_along run_along signing_order.advances_attempt assms
    | erule create_continuation_along)+

lemma require_along: "signs_wait env \<Longrightarrow> advances along_signing (lockAndRequireSigningContinuationForDecision env token)"
  unfolding lockAndRequireSigningContinuationForDecision_def
  by (intro signing_order.advances_bind signing_order.advances_pure origin_along wait_along)

lemma resume_along: "advances along_signing (resume_code env c e)"
  unfolding resume_code_def
  by (intro signing_order.advances_if signing_order.advances_bind signing_order.advances_pure on_auth_along issue_oauth_along)

lemma complete_along:
  assumes "signs_wait env"
  shows "advances along_signing (completeSigningContinuation client env token)"
proof -
  have "advances along_signing ((\<lambda>(c, e). bind_step (signature_verdict env (sg_domain c) (sg_userId c)) (\<lambda>policy.
        if \<not> pv_complete policy then reading (\<lambda>_. still_to_sign token c policy)
        else bind_step (claim_continuation env c) (\<lambda>_. bind_step (resume_code env c e) (\<lambda>code.
          return (Code_Granted code (code_redirect (sg_redirectUrl c) code (sg_oauthState c))))))) x)" for x
    unfolding signature_verdict_def
    by (cases x) (auto intro!: signing_order.advances_bind signing_order.advances_pure
        claim_continuation_along resume_along)
  then show ?thesis unfolding completeSigningContinuation_def
    by (intro run_along[OF assms] signing_order.advances_bind require_along[OF assms])
qed

inductive signing_history :: "sign_db \<Rightarrow> sign_db \<Rightarrow> bool" where
  start: "signing_history s s"
| park: "signing_history s0 s \<Longrightarrow> signs_wait env \<Longrightarrow>
    finalizeConfigAuthorizationWithSignatures client env g s = (r, t) \<Longrightarrow> signing_history s0 t"
| park_public: "signing_history s0 s \<Longrightarrow> signs_wait env \<Longrightarrow>
    finalizePublicOAuthAuthorizationWithSignatures client env q s = (r, t) \<Longrightarrow> signing_history s0 t"
| resume: "signing_history s0 s \<Longrightarrow> signs_wait env \<Longrightarrow>
    completeSigningContinuation client env token s = (r, t) \<Longrightarrow> signing_history s0 t"
| failure: "signing_history s0 s \<Longrightarrow> signing_history s0 (recordSigningContinuationFailure i s)"
| others: "signing_history s0 s \<Longrightarrow> along_signing s t \<Longrightarrow> signing_history s0 t"

lemma signing_history_along: "signing_history s t \<Longrightarrow> along_signing s t"
proof (induction rule: signing_history.induct)
  case (park s0 s env client g r t)
  then show ?case using signing_order.trans advancesD[OF gates_along(1)] by blast
next
  case (park_public s0 s env client q r t)
  then show ?case using signing_order.trans advancesD[OF gates_along(2)] by blast
next
  case (resume s0 s env client token r t)
  then show ?case using signing_order.trans advancesD[OF complete_along] by blast
next
  case (failure s0 s i)
  then show ?case using signing_order.trans record_failure_along by blast
next
  case (others s0 s t)
  then show ?case using signing_order.trans by blast
qed (rule signing_order.refl)

subsection \<open>What a resumption has found\<close>

lemma required_continuationD:
  assumes "requireActiveSigningContinuation env token s = Inr c"
  shows "c \<in> set (sd_continuations s)" "sg_tokenHash c = hashSigningContinuationToken env token"
    "sg_consumedAt c = None" "sign_now env < sg_expiresAt c" "sg_attemptCount c < se_maxAttempts env"
  using assms
  by (auto simp: requireActiveSigningContinuation_def dest!: find_Some_set split: option.splits if_splits)

lemma requiredD:
  assumes "lockAndRequireSigningContinuationForDecision env token s = (Inr (c, e), t)"
    and "signs_wait env" and "continuations_ok s"
  obtains row where "row \<in> set (sd_continuations s)" "sg_tokenHash row = hashSigningContinuationToken env token"
    "sg_consumedAt row = None" "sign_now env < sg_expiresAt row" "sg_attemptCount row < se_maxAttempts env"
    "continuation_ages row c" "sg_tokenVersion row = Some e" "requireActiveSigningContinuation env token t = Inr c"
    "continuations_ok t"
proof -
  from assms(1) obtain row e' v where
    row: "requireActiveSigningContinuation env token s = Inr row" and
    lock: "lockAuthorizationOriginForDecision env (sg_authProfile row) (continuation_scope row) e' s = (Inr (), v)" and
    t: "t = se_await env v" and current: "requireActiveSigningContinuation env token t = Inr c" and
    e: "requireCredentialEpoch c = Inr e"
    by (auto simp: lockAndRequireSigningContinuationForDecision_def bind_step_Inr reading_value writing_value
        return_value split: if_splits)
  note r = required_continuationD[OF row] and c = required_continuationD[OF current]
  have along: "along_signing s t"
    using advancesD[OF origin_along[OF assms(2)] lock] assms(2) signing_order.trans unfolding t signs_wait_def by blast
  then have ok: "continuations_ok t" using assms(3) by (simp add: along_signing_def)
  from along r(1) obtain d where d: "d \<in> set (sd_continuations t)" "continuation_ages row d"
    by (auto simp: along_signing_def)
  then have "sg_tokenHash d = sg_tokenHash c" using r(2) c(2) by (auto simp: continuation_ages_def)
  then have "d = c" using ok d(1) c(1) by (auto simp: continuations_ok_def distinct_map inj_on_def)
  with d(2) have ages: "continuation_ages row c" by simp
  moreover have "sg_tokenVersion row = Some e"
    using e ages by (auto simp: requireCredentialEpoch_def continuation_ages_def split: option.splits if_splits)
  ultimately show thesis using that r current ok by blast
qed

text \<open>The code of a resumed login is a row for what was parked.\<close>

definition parked_code :: "sign_env \<Rightarrow> signing_continuation \<Rightarrow> nat \<Rightarrow> string \<Rightarrow> sign_db \<Rightarrow> bool" where
  "parked_code env row e code t \<longleftrightarrow>
     (\<exists>j. code = random_token (sign_auth env) j \<and>
       (case sg_authProfile row of
          CONFIG_JWT \<Rightarrow> new_code (sign_auth env) (continuation_code row e) j \<in> set (auth_codes (lp_auth t))
        | PUBLIC_OAUTH \<Rightarrow> (\<exists>p. continuationToPublicInput row = Inr p \<and>
            new_oauth_code env p j \<in> set (sd_oauth_codes t))))"

lemma issue_row:
  assumes "issueAuthorizationCode env p s = (Inr code, t)"
  shows "\<exists>j. code = random_token env j \<and> new_code env p j \<in> set (auth_codes t)"
proof -
  from assms obtain s2 where "draw_code env p 0 3 s2 = (Inr code, t)"
    by (auto simp: issueAuthorizationCode_def bind_step_Inr reading_value in_transaction_Inr
        split: if_splits simp del: draw_code.simps)
  from draw_codeD[OF this] show ?thesis by (auto simp: create_auth_code_def split: if_splits)
qed

lemma draw_oauth_row:
  "draw_oauth_code env p k n s = (Inr code, t) \<Longrightarrow>
     \<exists>j. code = random_token (sign_auth env) j \<and> new_oauth_code env p j \<in> set (sd_oauth_codes t)"
proof (induction n arbitrary: k)
  case (Suc n)
  show ?case
  proof (cases "create_oauth_code (new_oauth_code env p k) s")
    case (Inl e)
    then show ?thesis using Suc by (auto simp: attempt_def split: if_splits)
  next
    case (Inr y)
    then have "code = random_token (sign_auth env) k" "new_oauth_code env p k \<in> set (sd_oauth_codes t)"
      using Suc.prems by (cases y; auto simp: attempt_def create_oauth_code_def split: if_splits)+
    then show ?thesis by blast
  qed
qed (simp add: reading_def)

lemma resume_row:
  assumes "resume_code env c e s = (Inr code, t)" and "continuation_ages row c"
  shows "parked_code env row e code t"
proof (cases "sg_authProfile row")
  case CONFIG_JWT
  have same: "continuation_code c e = continuation_code row e" "sg_authProfile c = sg_authProfile row"
    using assms(2) by (auto simp: continuation_ages_def continuation_code_def)
  from assms(1) CONFIG_JWT same obtain a where
    "issueAuthorizationCode (sign_auth env) (continuation_code row e) (lp_auth s) = (Inr code, a)" "t = s\<lparr>lp_auth := a\<rparr>"
    by (auto simp: resume_code_def reading_value on_auth_Inr split: if_splits)
  from issue_row[OF this(1)] this(2) CONFIG_JWT show ?thesis by (auto simp: parked_code_def)
next
  case PUBLIC_OAUTH
  have same: "continuationToPublicInput c = continuationToPublicInput row" "sg_authProfile c = sg_authProfile row"
    using assms(2)
    by (auto simp: continuation_ages_def continuationToPublicInput_def split: option.split list.split)
  have "sg_authProfile c \<noteq> CONFIG_JWT" using PUBLIC_OAUTH same(2) by simp
  with assms(1) same(1) obtain p where p: "continuationToPublicInput row = Inr p" "issueOAuthCode env p s = (Inr code, t)"
    by (auto simp: resume_code_def bind_step_Inr reading_value)
  from p(2) obtain v where "draw_oauth_code env p 0 3 v = (Inr code, t)"
    by (auto simp: issueOAuthCode_def bind_step_Inr simp del: draw_oauth_code.simps)
  with p(1) draw_oauth_row[of env p 0 3 v code t] PUBLIC_OAUTH show ?thesis by (auto simp: parked_code_def)
qed

text \<open>Claiming and issuing leave agreements and signatures alone.\<close>

definition agreements_kept :: "sign_db \<Rightarrow> sign_db \<Rightarrow> bool" where
  "agreements_kept s t \<longleftrightarrow> (\<forall>d u n. agreements_signed d u n s \<longrightarrow> agreements_signed d u n t)"

interpretation agreement_order: store_order agreements_kept
  by unfold_locales (auto simp: agreements_kept_def)

lemma signed_writes [simp]:
  "agreements_signed d u n (s\<lparr>sd_continuations := cs\<rparr>) = agreements_signed d u n s"
  "agreements_signed d u n (s\<lparr>sd_oauth_codes := os\<rparr>) = agreements_signed d u n s"
  by (cases "sd_settings s d"; simp add: agreements_signed_def)+

lemma on_auth_agreements: "advances agreements_kept (on_auth m)"
  by (auto simp: advances_def on_auth_def agreements_kept_def split: prod.split)

lemma draw_oauth_agreements: "advances agreements_kept (draw_oauth_code env p k n)"
proof (induction n arbitrary: k)
  case (Suc n)
  have "agreements_kept s (snd (draw_oauth_code env p k (Suc n) s))" for s
  proof (cases "create_oauth_code (new_oauth_code env p k) s")
    case (Inl e)
    then show ?thesis using Suc.IH[of "Suc k"] by (simp add: attempt_def advances_def agreement_order.refl)
  next
    case (Inr y)
    then show ?thesis
      by (cases y) (auto simp: attempt_def create_oauth_code_def agreements_kept_def split: if_splits)
  qed
  then show ?case by (simp add: advances_def)
qed (simp add: agreement_order.advances_pure)

lemma resume_agreements: "advances agreements_kept (resume_code env c e)"
  unfolding resume_code_def issueOAuthCode_def
  by (intro agreement_order.advances_if agreement_order.advances_bind agreement_order.advances_pure
      on_auth_agreements draw_oauth_agreements)

lemma claim_continuationD:
  assumes "claim_continuation env row s = (Inr (), t)"
  shows "count_where (open_continuation env row) (sd_continuations s) = 1"
    "t = s\<lparr>sd_continuations := update_where (open_continuation env row) (\<lambda>c. c\<lparr>sg_consumedAt := Some (sign_now env)\<rparr>)
       (sd_continuations s)\<rparr>"
  using assms by (auto simp: claim_continuation_def Let_def split: if_splits)

lemma completeD:
  assumes "completeSigningContinuation client env token s = (Inr (Code_Granted code r), t)"
  obtains c e v w where "lockAndRequireSigningContinuationForDecision env token s = (Inr (c, e), v)"
    "agreements_signed (sg_domain c) (sg_userId c) (sign_now env) v"
    "claim_continuation env c v = (Inr (), w)" "resume_code env c e w = (Inr code, t)"
    "r = code_redirect (sg_redirectUrl c) code (sg_oauthState c)"
proof -
  from assms obtain c e v policy w where
    "lockAndRequireSigningContinuationForDecision env token s = (Inr (c, e), v)"
    "evaluateSignaturePolicy (sg_domain c) (sg_userId c) (sign_now env) v = Inr policy" "pv_complete policy"
    "claim_continuation env c v = (Inr (), w)" "resume_code env c e w = (Inr code, t)"
    "r = code_redirect (sg_redirectUrl c) code (sg_oauthState c)"
    by (auto simp: completeSigningContinuation_def run_Inr bind_step_Inr reading_value return_value
        signature_verdict_def still_to_sign_def and_then_Inr_iff split: if_splits option.splits)
  then show thesis using that policy_complete_signed by blast
qed

text \<open>A consumed continuation answers nobody.\<close>

lemma consumed_refused:
  assumes "c \<in> set (sd_continuations s)" and "sg_tokenHash c = hashSigningContinuationToken env token"
    and "sg_consumedAt c \<noteq> None" and "continuations_ok s"
  shows "fst (completeSigningContinuation client env token s) = unauthenticated"
proof -
  have "List.find (\<lambda>c. sg_tokenHash c = hashSigningContinuationToken env token) (sd_continuations s) = Some c"
    using find_unique[of sg_tokenHash "sd_continuations s" c] assms(1,2,4) by (simp add: continuations_ok_def)
  then have "requireActiveSigningContinuation env token s = unauthenticated"
    using assms(3) by (auto simp: requireActiveSigningContinuation_def)
  then show ?thesis
    by (simp add: completeSigningContinuation_def lockAndRequireSigningContinuationForDecision_def bind_step_def
        reading_def runInTransaction_def split: db_client.split)
qed

text \<open>
  C9: A parked login resumes once. From an empty table of continuations, over any history of logins that are parked
  or resumed, of failed signing attempts and of writes by others, a resumption that ends with a code has found an open continuation
  for the presented token: not consumed, not expired, with attempts left, parked under the epoch the code is issued for. All agreements
  its domain requires are signed by its user. The code is a row for the login that was parked, in the
  profile it was parked in, and the redirect carries the state it came with. The token is worthless
  from then on: whatever happens later, presenting it again is refused as if it had never existed.
\<close>

theorem signing_continuation_single_use:
  assumes "signing_history s0 s" and "sd_continuations s0 = []" and "signs_wait env"
    and "completeSigningContinuation client env token s = (Inr (Code_Granted code r), t)"
  shows "(\<exists>row e. row \<in> set (sd_continuations s) \<and> sg_tokenHash row = hashSigningContinuationToken env token \<and>
      sg_consumedAt row = None \<and> sign_now env < sg_expiresAt row \<and> sg_attemptCount row < se_maxAttempts env \<and>
      sg_tokenVersion row = Some e \<and> agreements_signed (sg_domain row) (sg_userId row) (sign_now env) t \<and>
      parked_code env row e code t \<and> r = code_redirect (sg_redirectUrl row) code (sg_oauthState row)) \<and>
    (\<forall>s2 env2 client2. signing_history t s2 \<longrightarrow>
      hashSigningContinuationToken env2 token = hashSigningContinuationToken env token \<longrightarrow>
      fst (completeSigningContinuation client2 env2 token s2) = unauthenticated)"
proof (intro conjI allI impI)
  have ok: "continuations_ok s"
    using signing_history_along[OF assms(1)] assms(2) by (simp add: along_signing_def continuations_ok_def)
  obtain c e v w where
    locked: "lockAndRequireSigningContinuationForDecision env token s = (Inr (c, e), v)" and
    signed: "agreements_signed (sg_domain c) (sg_userId c) (sign_now env) v" and
    claim: "claim_continuation env c v = (Inr (), w)" and issued: "resume_code env c e w = (Inr code, t)" and
    r: "r = code_redirect (sg_redirectUrl c) code (sg_oauthState c)"
    using assms(4) by (rule completeD)
  obtain row where row: "row \<in> set (sd_continuations s)" "sg_tokenHash row = hashSigningContinuationToken env token"
      "sg_consumedAt row = None" "sign_now env < sg_expiresAt row" "sg_attemptCount row < se_maxAttempts env" and
    ages: "continuation_ages row c" and e: "sg_tokenVersion row = Some e" and
    current: "requireActiveSigningContinuation env token v = Inr c" and ok_v: "continuations_ok v"
    using locked assms(3) ok by (rule requiredD)
  note w = claim_continuationD(2)[OF claim] and now = required_continuationD[OF current]
  have same: "sg_domain c = sg_domain row" "sg_userId c = sg_userId row" "sg_redirectUrl c = sg_redirectUrl row"
    "sg_oauthState c = sg_oauthState row"
    using ages by (auto simp: continuation_ages_def)
  have "agreements_signed (sg_domain c) (sg_userId c) (sign_now env) t"
    using signed advancesD[OF resume_agreements issued] unfolding w by (simp add: agreements_kept_def)
  then show "\<exists>row e. row \<in> set (sd_continuations s) \<and> sg_tokenHash row = hashSigningContinuationToken env token \<and>
      sg_consumedAt row = None \<and> sign_now env < sg_expiresAt row \<and> sg_attemptCount row < se_maxAttempts env \<and>
      sg_tokenVersion row = Some e \<and> agreements_signed (sg_domain row) (sg_userId row) (sign_now env) t \<and>
      parked_code env row e code t \<and> r = code_redirect (sg_redirectUrl row) code (sg_oauthState row)"
    using row e resume_row[OF issued ages] r same by auto
  fix s2 env2 client2
  assume later: "signing_history t s2" and hash: "hashSigningContinuationToken env2 token = hashSigningContinuationToken env token"
  let ?used = "c\<lparr>sg_consumedAt := Some (sign_now env)\<rparr>"
  have "?used \<in> set (sd_continuations w)"
    using now(1,3,4) by (auto simp: w set_update_where open_continuation_def image_iff intro!: bexI[of _ c])
  moreover have along: "along_signing w s2"
    using signing_order.trans[OF advancesD[OF resume_along issued] signing_history_along[OF later]] .
  ultimately obtain d where d: "d \<in> set (sd_continuations s2)" "continuation_ages ?used d"
    by (auto simp: along_signing_def)
  have "continuations_ok w"
    using advancesD[OF claim_continuation_along claim] ok_v by (simp add: along_signing_def)
  then have "continuations_ok s2" using along by (simp add: along_signing_def)
  moreover have "sg_tokenHash d = hashSigningContinuationToken env2 token" "sg_consumedAt d \<noteq> None"
    using d(2) now(2) hash by (auto simp: continuation_ages_def)
  ultimately show "fst (completeSigningContinuation client2 env2 token s2) = unauthenticated"
    using d(1) by (intro consumed_refused)
qed

subsection \<open>A run\<close>

text \<open>Ann signs in without a signature, signs, and resumes; the token is refused after that.\<close>

definition demo_parked :: sign_db where
  "demo_parked = snd (finalizeConfigAuthorizationWithSignatures Full_Client (demo_sign_env ''q'' 70)
     (gate_input (gc_client demo_gate_config) ((demo_params ''ann'')\<lparr>lg_state := None\<rparr>)) demo_signing)"

definition demo_agreed :: sign_db where
  "demo_agreed = demo_parked\<lparr>sd_signatures := \<lparr>as_userId = ''ann'', as_domain = ''shop'', as_agreementVersionId = ''x1'',
     as_revoked = False\<rparr> # sd_signatures demo_parked\<rparr>"

definition demo_resumed :: "(thrown + gate_outcome) \<times> sign_db" where
  "demo_resumed = completeSigningContinuation Full_Client (demo_sign_env ''z'' 90) ''qsign'' demo_agreed"

lemma demo_resumed_facts:
  "fst demo_resumed = Inr (Code_Granted ''z'' (''https://shop/cb'', [(''code'', ''z'')]))"
  by code_simp

theorem signing_continuation_single_use_witness:
  "agreements_signed ''shop'' ''ann'' 90 (snd demo_resumed) \<and>
   fst (completeSigningContinuation Full_Client (demo_sign_env ''y'' 95) ''qsign'' (snd demo_resumed)) = unauthenticated"
proof -
  have quiet: "signs_wait (demo_sign_env tag n)" for tag n
    by (simp add: signs_wait_def demo_sign_env_def signing_order.refl)
  have "signing_history demo_signing demo_parked"
    using signing_history.park[OF signing_history.start quiet] unfolding demo_parked_def by (metis prod.collapse)
  then have before: "signing_history demo_signing demo_agreed"
    by (rule signing_history.others) (rule along_signing_same, simp add: demo_agreed_def)
  have none: "sd_continuations demo_signing = []" by (simp add: demo_signing_def gate_db.extend_def)
  have run: "completeSigningContinuation Full_Client (demo_sign_env ''z'' 90) ''qsign'' demo_agreed =
      (Inr (Code_Granted ''z'' (''https://shop/cb'', [(''code'', ''z'')])), snd demo_resumed)"
    using demo_resumed_facts unfolding demo_resumed_def by (metis prod.collapse)
  have rows: "map (\<lambda>c. (sg_domain c, sg_userId c)) (sd_continuations demo_agreed) = [(''shop'', ''ann'')]" by code_simp
  have clock: "sign_now (demo_sign_env ''z'' 90) = 90"
    by (simp add: demo_sign_env_def demo_policy_env_def demo_auth_env_def demo_env_def)
  have hash: "hashSigningContinuationToken (demo_sign_env ''y'' 95) ''qsign'' = hashSigningContinuationToken (demo_sign_env ''z'' 90) ''qsign''"
    by (simp add: hashSigningContinuationToken_def demo_sign_env_def demo_policy_env_def demo_auth_env_def)
  note use = signing_continuation_single_use[OF before none quiet run]
  from use obtain row where "row \<in> set (sd_continuations demo_agreed)"
    "agreements_signed (sg_domain row) (sg_userId row) 90 (snd demo_resumed)" unfolding clock by blast
  moreover from this(1) rows have "sg_domain row = ''shop''" "sg_userId row = ''ann''"
    by (cases "sd_continuations demo_agreed"; auto)+
  ultimately show ?thesis using use signing_history.start hash by auto
qed

end
