(* ===== verification/Rate_Limiter.thy ===== *)
theory Rate_Limiter
  imports Refresh_Store
begin

section \<open>Rate limiting\<close>

text \<open>
  \<^verbatim>\<open>middleware/rate-limiter.ts\<close>: a process-wide map from keys to fixed windows, bounded in
  size. A request under a key opens a window or counts in the open one and is refused beyond
  the limit of its route; a timer sweeps expired windows. The map of the runtime iterates in
  insertion order and keeps the place of a key that is set again, as this list does.
\<close>

record window_state =
  ws_count :: nat
  ws_resetAt :: int

type_synonym windows = "(string \<times> window_state) list"

definition MAX_ENTRIES :: nat where
  "MAX_ENTRIES = 100000"

definition sweepExpired :: "int \<Rightarrow> windows \<Rightarrow> windows" where
  "sweepExpired t = filter (\<lambda>(_, w). t < ws_resetAt w)"

text \<open>Expired windows go first; then the oldest keys, until one more fits.\<close>

definition ensureCapacity :: "int \<Rightarrow> windows \<Rightarrow> windows" where
  "ensureCapacity t ws =
     (if length ws < MAX_ENTRIES then ws
      else let live = sweepExpired t ws in drop (length live + 1 - MAX_ENTRIES) live)"

fun set_window :: "string \<Rightarrow> window_state \<Rightarrow> windows \<Rightarrow> windows" where
  "set_window k w [] = [(k, w)]"
| "set_window k w ((k', w') # ws) = (if k' = k then (k, w) # ws else (k', w') # set_window k w ws)"

definition open_window :: "string \<Rightarrow> int \<Rightarrow> windows \<Rightarrow> window_state option" where
  "open_window k t ws =
     (case map_of ws k of None \<Rightarrow> None | Some w \<Rightarrow> if ws_resetAt w \<le> t then None else Some w)"

definition consume :: "string \<Rightarrow> nat \<Rightarrow> int \<Rightarrow> int \<Rightarrow> windows \<Rightarrow> unit outcome \<times> windows" where
  "consume k limit windowMs t ws =
     (if k = [] then (Inr (), ws)
      else case open_window k t ws of
        None \<Rightarrow> (Inr (), set_window k \<lparr>ws_count = 1, ws_resetAt = t + windowMs\<rparr> (ensureCapacity t ws))
      | Some w \<Rightarrow>
          (let w' = w\<lparr>ws_count := ws_count w + 1\<rparr> in
           (if limit < ws_count w' then fail RATE_LIMITED 429 else Inr (), set_window k w' ws)))"

text \<open>The key of a signed-in caller: the token itself, not what it says.\<close>

definition createUserDomainRateLimitKey :: "string \<Rightarrow> string option \<Rightarrow> string option \<Rightarrow> string" where
  "createUserDomainRateLimitKey prefix domain token =
     (if \<not> truthy domain then prefix @ '':anonymous''
      else prefix @ '':'' @ the domain @ '':'' @ (case token of None \<Rightarrow> ''anonymous'' | Some x \<Rightarrow> x))"

subsection \<open>Histories\<close>

text \<open>What happens to the map: a request under a key, or a run of the timer.\<close>

datatype limiter_event = Request string nat int int | Sweep int

fun event_time :: "limiter_event \<Rightarrow> int" where
  "event_time (Request _ _ _ t) = t"
| "event_time (Sweep t) = t"

fun limiter_step :: "limiter_event \<Rightarrow> windows \<Rightarrow> unit outcome \<times> windows" where
  "limiter_step (Request k limit windowMs t) ws = consume k limit windowMs t ws"
| "limiter_step (Sweep t) ws = (Inr (), sweepExpired t ws)"

fun limiter_run :: "limiter_event list \<Rightarrow> windows \<Rightarrow> windows" where
  "limiter_run [] ws = ws"
| "limiter_run (e # es) ws = limiter_run es (snd (limiter_step e ws))"

fun request_of :: "string \<Rightarrow> limiter_event \<Rightarrow> bool" where
  "request_of k (Request k' _ _ _) \<longleftrightarrow> k' = k"
| "request_of k (Sweep _) \<longleftrightarrow> False"

fun event_keys :: "limiter_event list \<Rightarrow> string set" where
  "event_keys [] = {}"
| "event_keys (Request k _ _ _ # es) = insert k (event_keys es)"
| "event_keys (Sweep _ # es) = event_keys es"

text \<open>The requests of one key that are let through in a half-open interval of time, and those made
  from a point in time on.\<close>

fun admitted :: "string \<Rightarrow> int \<Rightarrow> int \<Rightarrow> limiter_event list \<Rightarrow> windows \<Rightarrow> nat" where
  "admitted k a b [] ws = 0"
| "admitted k a b (e # es) ws =
     (if request_of k e \<and> a \<le> event_time e \<and> event_time e < b \<and> fst (limiter_step e ws) = Inr () then 1 else 0) +
     admitted k a b es (snd (limiter_step e ws))"

definition requests_since :: "string \<Rightarrow> int \<Rightarrow> limiter_event list \<Rightarrow> nat" where
  "requests_since k a es = count_where (\<lambda>e. request_of k e \<and> a \<le> event_time e) es"

text \<open>All requests under the key have this window and at most this limit.\<close>

fun on_terms :: "string \<Rightarrow> nat \<Rightarrow> int \<Rightarrow> limiter_event \<Rightarrow> bool" where
  "on_terms k L W (Request k' limit windowMs _) \<longleftrightarrow> (k' = k \<longrightarrow> limit \<le> L \<and> windowMs = W)"
| "on_terms k L W (Sweep _) \<longleftrightarrow> True"

subsection \<open>The map\<close>

lemma set_window_map [simp]: "map_of (set_window k w ws) = (map_of ws)(k \<mapsto> w)"
  by (induction k w ws rule: set_window.induct) auto

lemma set_window_keys [simp]: "fst ` set (set_window k w ws) = insert k (fst ` set ws)"
  by (induction k w ws rule: set_window.induct) auto

lemma set_window_distinct [simp]: "distinct (map fst (set_window k w ws)) = distinct (map fst ws)"
  by (induction k w ws rule: set_window.induct) auto

lemma set_window_length: "length (set_window k w ws) = (if k \<in> fst ` set ws then length ws else Suc (length ws))"
  by (induction k w ws rule: set_window.induct) auto

lemma map_of_part:
  assumes "distinct (map fst ws)" and "set vs \<subseteq> set ws" and "map_of vs k = Some w"
  shows "map_of ws k = Some w"
  using assms map_of_is_SomeI map_of_SomeD by (metis subsetD)

lemma sweep_part: "set (sweepExpired t ws) \<subseteq> set ws"
  by (auto simp: sweepExpired_def)

lemma capacity_part: "set (ensureCapacity t ws) \<subseteq> set ws"
proof -
  have "set (drop n (sweepExpired t ws)) \<subseteq> set ws" for n
    by (rule subset_trans[OF set_drop_subset sweep_part])
  then show ?thesis by (simp add: ensureCapacity_def Let_def)
qed

lemma part_distinct:
  "distinct (map fst ws) \<Longrightarrow> distinct (map fst (sweepExpired t ws))"
  "distinct (map fst ws) \<Longrightarrow> distinct (map fst (ensureCapacity t ws))"
  by (simp_all add: sweepExpired_def ensureCapacity_def Let_def distinct_map_filter flip: drop_map)

lemma capacity_length: "length (ensureCapacity t ws) < MAX_ENTRIES"
  by (auto simp: ensureCapacity_def Let_def MAX_ENTRIES_def)

lemma sweep_keeps:
  "distinct (map fst ws) \<Longrightarrow> map_of ws k = Some w \<Longrightarrow> t < ws_resetAt w \<Longrightarrow> map_of (sweepExpired t ws) k = Some w"
  by (intro map_of_is_SomeI) (auto simp: sweepExpired_def distinct_map_filter dest: map_of_SomeD)

subsection \<open>Every step\<close>

lemma step_distinct: "distinct (map fst ws) \<Longrightarrow> distinct (map fst (snd (limiter_step e ws)))"
  by (cases e) (auto simp: consume_def Let_def part_distinct split: option.split)

lemma step_keys: "fst ` set (snd (limiter_step e ws)) \<subseteq> event_keys [e] \<union> fst ` set ws"
proof (cases e)
  case (Request k limit windowMs t)
  have "fst ` set (ensureCapacity t ws) \<subseteq> fst ` set ws" by (rule image_mono[OF capacity_part])
  then show ?thesis using Request by (auto simp: consume_def Let_def split: option.splits)
next
  case (Sweep t)
  have "fst ` set (sweepExpired t ws) \<subseteq> fst ` set ws" by (rule image_mono[OF sweep_part])
  then show ?thesis using Sweep by simp
qed

lemma step_length:
  assumes "distinct (map fst ws)" and "length ws \<le> MAX_ENTRIES"
  shows "length (snd (limiter_step e ws)) \<le> MAX_ENTRIES"
proof (cases e)
  case (Request k limit windowMs t)
  show ?thesis
  proof (cases "open_window k t ws")
    case None
    then show ?thesis using assms(2) Request capacity_length[of t ws]
      by (auto simp: consume_def set_window_length)
  next
    case (Some w)
    then have "k \<in> fst ` set ws"
      by (auto simp: open_window_def split: option.splits if_splits dest!: map_of_SomeD) force
    then show ?thesis using assms(2) Some Request by (auto simp: consume_def Let_def set_window_length)
  qed
next
  case (Sweep t)
  then show ?thesis using assms(2) by (auto simp: sweepExpired_def intro: order.trans[OF length_filter_le])
qed

lemma run_bounded:
  "distinct (map fst ws) \<Longrightarrow> length ws \<le> MAX_ENTRIES \<Longrightarrow>
     distinct (map fst (limiter_run es ws)) \<and> length (limiter_run es ws) \<le> MAX_ENTRIES"
  by (induction es arbitrary: ws) (simp_all add: step_distinct step_length)

subsection \<open>Nobody is refused early\<close>

text \<open>An open window has counted requests of its key that came after it was opened.\<close>

lemma window_counts:
  assumes "sorted (map event_time es)" and "list_all (on_terms k L W) es" and "k \<noteq> []"
    and "map_of (limiter_run es []) k = Some w"
  shows "ws_resetAt w - W \<in> event_time ` set es \<and> ws_count w \<le> requests_since k (ws_resetAt w - W) es"
  using assms
proof (induction es arbitrary: w rule: rev_induct)
  case (snoc e es)
  let ?ws = "limiter_run es []"
  have run: "limiter_run (es @ [e]) ws = snd (limiter_step e (limiter_run es ws))" for ws
    by (induction es arbitrary: ws) simp_all
  have dist: "distinct (map fst ?ws)" using run_bounded[of "[]" es] by simp
  have IH: "ws_resetAt v - W \<in> event_time ` set es \<and> ws_count v \<le> requests_since k (ws_resetAt v - W) es"
    if "map_of ?ws k = Some v" for v
    using snoc.IH[OF _ _ snoc.prems(3) that] snoc.prems(1,2) by (simp add: sorted_append)
  have grow: "requests_since k a es \<le> requests_since k a (es @ [e])" for a by (simp add: requests_since_def)
  show ?case
  proof (cases "map_of ?ws k = Some w")
    case True
    then show ?thesis using IH[OF True] grow by (auto intro: order.trans)
  next
    case False
    have step: "map_of (snd (limiter_step e ?ws)) k = Some w" using snoc.prems(4) by (simp add: run)
    obtain limit t where e: "e = Request k limit W t"
    proof (cases e)
      case (Sweep t)
      then show thesis using step False map_of_part[OF dist sweep_part] by simp
    next
      case (Request k' limit W' t)
      have "k' = k"
      proof (rule ccontr)
        assume "k' \<noteq> k"
        then have "map_of ?ws k = Some w \<or> map_of (ensureCapacity t ?ws) k = Some w"
          using step Request by (auto simp: consume_def Let_def split: if_splits option.splits)
        then show False using False map_of_part[OF dist capacity_part] by blast
      qed
      with Request snoc.prems(2) show thesis using that by simp
    qed
    show ?thesis
    proof (cases "open_window k t ?ws")
      case None
      then have "w = \<lparr>ws_count = 1, ws_resetAt = t + W\<rparr>" using step e snoc.prems(3) by (simp add: consume_def)
      then show ?thesis using e by (simp add: requests_since_def)
    next
      case (Some v)
      then have v: "map_of ?ws k = Some v" by (auto simp: open_window_def split: option.splits if_splits)
      have w: "w = v\<lparr>ws_count := ws_count v + 1\<rparr>" using step e Some snoc.prems(3) by (simp add: consume_def Let_def)
      have "ws_resetAt v - W \<le> t"
        using IH[OF v] snoc.prems(1) e by (auto simp: sorted_append)
      then show ?thesis using IH[OF v] w e by (simp add: requests_since_def)
    qed
  qed
qed simp

subsection \<open>Nobody gets through too often\<close>

lemma capacity_idle: "length ws < MAX_ENTRIES \<Longrightarrow> ensureCapacity t ws = ws"
  by (simp add: ensureCapacity_def)

lemma late_admitted: "sorted (map event_time es) \<Longrightarrow> \<forall>e \<in> set es. b \<le> event_time e \<Longrightarrow> admitted k a b es ws = 0"
  by (induction es arbitrary: ws) auto

text \<open>The map stays so small that no key is evicted.\<close>

definition roomy :: "string set \<Rightarrow> windows \<Rightarrow> bool" where
  "roomy K ws \<longleftrightarrow> finite K \<and> card K < MAX_ENTRIES \<and> distinct (map fst ws) \<and> fst ` set ws \<subseteq> K"

lemma roomy_length: "roomy K ws \<Longrightarrow> length ws < MAX_ENTRIES"
  unfolding roomy_def by (metis card_mono distinct_card length_map list.set_map order.strict_trans1)

lemma roomy_step: "roomy K ws \<Longrightarrow> event_keys [e] \<subseteq> K \<Longrightarrow> roomy K (snd (limiter_step e ws))"
  using step_distinct step_keys unfolding roomy_def by (meson Un_least order.trans)

lemma event_keys_Cons: "event_keys (e # es) = event_keys [e] \<union> event_keys es"
  by (cases e) simp_all

lemma other_step:
  assumes "roomy K ws" and "\<not> request_of k e" and "event_time e < ws_resetAt w" and "map_of ws k = Some w"
  shows "map_of (snd (limiter_step e ws)) k = Some w"
proof (cases e)
  case (Request k' limit W t)
  have "map_of ((set_window k' v (ensureCapacity t ws))) k = Some w" "map_of (set_window k' v ws) k = Some w" for v
    using assms(2,4) Request capacity_idle[OF roomy_length[OF assms(1)]] by simp_all
  then show ?thesis using assms(4) Request by (simp add: consume_def Let_def split: option.split)
next
  case (Sweep t)
  then show ?thesis using sweep_keeps[OF _ assms(4)] assms(1,3) by (simp add: roomy_def)
qed

text \<open>While the window that covers the rest of the interval is open, it admits what is left of it.\<close>

lemma admitted_in_window:
  assumes "sorted (map event_time es)" and "list_all (on_terms k L W) es" and "event_keys es \<subseteq> K" and "roomy K ws"
    and "k \<noteq> []" and "map_of ws k = Some w" and "b \<le> ws_resetAt w"
  shows "admitted k a b es ws \<le> max 1 L - ws_count w"
  using assms
proof (induction es arbitrary: ws w)
  case (Cons e es)
  let ?ws = "snd (limiter_step e ws)"
  have rest: "sorted (map event_time es)" "list_all (on_terms k L W) es" "event_keys es \<subseteq> K" "event_keys [e] \<subseteq> K"
    using Cons.prems(1,2,3) event_keys_Cons[of e es] by auto
  note IH = Cons.IH[OF rest(1-3) roomy_step[OF Cons.prems(4) rest(4)] Cons.prems(5)]
  show ?case
  proof (cases "b \<le> event_time e")
    case True
    then have "\<forall>e' \<in> set (e # es). b \<le> event_time e'" using Cons.prems(1) by auto
    from late_admitted[OF Cons.prems(1) this] show ?thesis by simp
  next
    case False
    then have early: "event_time e < ws_resetAt w" using Cons.prems(7) by simp
    show ?thesis
    proof (cases "request_of k e")
      case False
      then show ?thesis using IH[OF other_step[OF Cons.prems(4) False early Cons.prems(6)] Cons.prems(7)] by simp
    next
      case True
      then obtain limit t where e: "e = Request k limit W t" and limit: "limit \<le> L"
        using Cons.prems(2) by (cases e) auto
      have step: "limiter_step e ws = (if limit < ws_count w + 1 then fail RATE_LIMITED 429 else Inr (),
          set_window k (w\<lparr>ws_count := ws_count w + 1\<rparr>) ws)"
        using early Cons.prems(5,6) by (simp add: e consume_def open_window_def Let_def)
      have "admitted k a b es ?ws \<le> max 1 L - (ws_count w + 1)"
        using IH[of "w\<lparr>ws_count := ws_count w + 1\<rparr>"] Cons.prems(7) by (simp add: step)
      moreover have "(if request_of k e \<and> a \<le> event_time e \<and> event_time e < b \<and> fst (limiter_step e ws) = Inr ()
          then 1 else (0::nat)) \<le> (if ws_count w + 1 \<le> L then 1 else 0)"
        using limit by (auto simp: step split: if_splits)
      ultimately show ?thesis by (auto split: if_splits)
    qed
  qed
qed simp

text \<open>Inside the interval the window that was open at its start and one more can admit.\<close>

definition left_of :: "nat \<Rightarrow> window_state option \<Rightarrow> nat" where
  "left_of M v = (case v of None \<Rightarrow> 0 | Some w \<Rightarrow> M - ws_count w)"

lemma step_effect:
  assumes "roomy K ws" and "k \<noteq> []" and "list_all (on_terms k L W) [e]"
  shows "(\<not> request_of k e \<and> map_of (snd (limiter_step e ws)) k \<in> {map_of ws k, None}) \<or>
    (request_of k e \<and> fst (limiter_step e ws) = Inr () \<and>
       map_of (snd (limiter_step e ws)) k = Some \<lparr>ws_count = 1, ws_resetAt = event_time e + W\<rparr>) \<or>
    (\<exists>w. request_of k e \<and> map_of ws k = Some w \<and>
       map_of (snd (limiter_step e ws)) k = Some (w\<lparr>ws_count := ws_count w + 1\<rparr>) \<and>
       (fst (limiter_step e ws) = Inr () \<longrightarrow> ws_count w + 1 \<le> L))"
proof (cases e)
  case (Sweep t)
  have "map_of (sweepExpired t ws) k = Some w \<Longrightarrow> map_of ws k = Some w" for w
    using map_of_part[OF _ sweep_part] assms(1) by (auto simp: roomy_def)
  then show ?thesis using Sweep by (cases "map_of (sweepExpired t ws) k") auto
next
  case (Request k' limit W' t)
  note idle = capacity_idle[OF roomy_length[OF assms(1)]]
  show ?thesis
  proof (cases "k' = k")
    case False
    then show ?thesis using Request idle by (auto simp: consume_def Let_def split: option.split)
  next
    case True
    then have terms: "limit \<le> L" "W' = W" using assms(3) Request by simp_all
    show ?thesis
    proof (cases "open_window k t ws")
      case None
      then show ?thesis using Request True terms idle assms(2) by (simp add: consume_def)
    next
      case (Some w)
      then have "map_of ws k = Some w" by (auto simp: open_window_def split: option.splits if_splits)
      then show ?thesis using Some Request True terms assms(2) by (auto simp: consume_def Let_def split: if_splits)
    qed
  qed
qed

lemma admitted_inside:
  assumes "sorted (map event_time es)" and "list_all (on_terms k L W) es" and "event_keys es \<subseteq> K" and "roomy K ws"
    and "k \<noteq> []" and "\<forall>e \<in> set es. a \<le> event_time e"
  shows "admitted k a (a + W) es ws \<le> left_of (max 1 L) (map_of ws k) + max 1 L"
  using assms
proof (induction es arbitrary: ws)
  case (Cons e es)
  let ?ws = "snd (limiter_step e ws)"
  have rest: "sorted (map event_time es)" "list_all (on_terms k L W) es" "event_keys es \<subseteq> K" "event_keys [e] \<subseteq> K"
    "list_all (on_terms k L W) [e]" "a \<le> event_time e"
    using Cons.prems(1,2,3,6) event_keys_Cons[of e es] by auto
  note room = roomy_step[OF Cons.prems(4) rest(4)]
  have IH: "admitted k a (a + W) es ?ws \<le> left_of (max 1 L) (map_of ?ws k) + max 1 L"
    using Cons.IH[OF rest(1-3) room Cons.prems(5)] Cons.prems(6) by simp
  consider (other) "\<not> request_of k e" "map_of ?ws k \<in> {map_of ws k, None}"
    | (opened) "request_of k e" "map_of ?ws k = Some \<lparr>ws_count = 1, ws_resetAt = event_time e + W\<rparr>"
    | (counted) w where "map_of ws k = Some w" "map_of ?ws k = Some (w\<lparr>ws_count := ws_count w + 1\<rparr>)"
        "fst (limiter_step e ws) = Inr () \<longrightarrow> ws_count w + 1 \<le> L"
    using step_effect[OF Cons.prems(4,5) rest(5)] by blast
  then show ?case
  proof cases
    case other
    then show ?thesis using IH by (auto simp: left_of_def)
  next
    case opened
    have "admitted k a (a + W) es ?ws \<le> max 1 L - 1"
      using admitted_in_window[OF rest(1-3) room Cons.prems(5) opened(2), of "a + W" a] rest(6) by simp
    moreover have "admitted k a (a + W) (e # es) ws \<le> 1 + admitted k a (a + W) es ?ws" by simp
    moreover have "1 \<le> max 1 L" by simp
    ultimately show ?thesis by linarith
  next
    case counted
    then show ?thesis using IH by (auto simp: left_of_def split: if_splits)
  qed
qed (simp add: left_of_def)

lemma admitted_bound:
  assumes "sorted (map event_time es)" and "list_all (on_terms k L W) es" and "event_keys es \<subseteq> K" and "roomy K ws"
    and "k \<noteq> []"
  shows "admitted k a (a + W) es ws \<le> 2 * max 1 L"
  using assms
proof (induction es arbitrary: ws)
  case (Cons e es)
  show ?case
  proof (cases "a \<le> event_time e")
    case True
    then have "\<forall>e' \<in> set (e # es). a \<le> event_time e'" using Cons.prems(1) by auto
    from admitted_inside[OF Cons.prems this] have
      "admitted k a (a + W) (e # es) ws \<le> left_of (max 1 L) (map_of ws k) + max 1 L" .
    moreover have "left_of (max 1 L) (map_of ws k) \<le> max 1 L" by (simp add: left_of_def split: option.split)
    ultimately show ?thesis by linarith
  next
    case False
    have "event_keys es \<subseteq> K" "event_keys [e] \<subseteq> K" using Cons.prems(3) event_keys_Cons[of e es] by auto
    then show ?thesis using False Cons.IH[OF _ _ _ roomy_step[OF Cons.prems(4)]] Cons.prems by simp
  qed
qed simp

lemma finite_event_keys: "finite (event_keys es)"
  by (induction es rule: event_keys.induct) simp_all

text \<open>
  C20: What the limiter guarantees for a key whose requests are all made on the terms of one route, on a clock that
  does not run backwards: the map never holds more than its maximum of keys; a request is refused only
  if at least as many requests as its limit allows preceded it within one window's length, so a caller who keeps to the
  limit is never refused; and only as long as fewer keys are in use than the map holds, so that none is evicted, any interval of one window's
  length lets at most twice the limit through, where a limit of zero counts as one, since the request that opens a window is not
  compared with the limit.
\<close>

theorem rate_limit_bounds:
  assumes "sorted (map event_time es)" and "list_all (on_terms k L W) es" and "k \<noteq> []"
  shows "length (limiter_run es []) \<le> MAX_ENTRIES \<and>
    (\<forall>pre limit t post. es = pre @ Request k limit W t # post \<longrightarrow>
       fst (limiter_step (Request k limit W t) (limiter_run pre [])) \<noteq> Inr () \<longrightarrow>
       limit \<le> requests_since k (t - W) pre) \<and>
    (card (event_keys es) < MAX_ENTRIES \<longrightarrow> (\<forall>a. admitted k a (a + W) es [] \<le> 2 * max 1 L))"
proof (intro conjI allI impI)
  show "length (limiter_run es []) \<le> MAX_ENTRIES" using run_bounded[of "[]" es] by simp
  show "admitted k a (a + W) es [] \<le> 2 * max 1 L" if "card (event_keys es) < MAX_ENTRIES" for a
    using admitted_bound[OF assms(1,2) order.refl _ assms(3)] that finite_event_keys by (simp add: roomy_def)
  fix pre limit t post
  assume es: "es = pre @ Request k limit W t # post" and
    refused: "fst (limiter_step (Request k limit W t) (limiter_run pre [])) \<noteq> Inr ()"
  from refused obtain w where w: "map_of (limiter_run pre []) k = Some w" "t < ws_resetAt w" "limit \<le> ws_count w"
    by (auto simp: consume_def open_window_def Let_def split: option.splits if_splits)
  have "sorted (map event_time pre)" "list_all (on_terms k L W) pre" using assms(1,2) es by (simp_all add: sorted_append)
  from window_counts[OF this assms(3) w(1)] have "ws_count w \<le> requests_since k (ws_resetAt w - W) pre" by simp
  also have "\<dots> \<le> requests_since k (t - W) pre"
    unfolding requests_since_def using w(2) by (intro count_where_mono) auto
  finally show "limit \<le> requests_since k (t - W) pre" using w(3) by linarith
qed

text \<open>Two requests per window of ten: the burst around a boundary gets through, the third of a
  window does not.\<close>

definition demo_burst :: "limiter_event list" where
  "demo_burst = [Request ''k'' 2 10 1, Request ''k'' 2 10 9, Request ''k'' 2 10 10, Request ''k'' 2 10 11, Sweep 12,
     Request ''k'' 2 10 13, Request ''k'' 2 10 14]"

lemma demo_burst_facts: "admitted ''k'' 8 18 demo_burst [] = 3" "event_keys demo_burst = {''k''}"
  "fst (limiter_step (Request ''k'' 2 10 10) (limiter_run [Request ''k'' 2 10 1, Request ''k'' 2 10 9] [])) =
     fail RATE_LIMITED 429"
  by (simp_all add: demo_burst_def consume_def open_window_def ensureCapacity_def MAX_ENTRIES_def sweepExpired_def Let_def)

theorem rate_limit_bounds_witness:
  "admitted ''k'' 8 18 demo_burst [] \<le> 4 \<and>
   2 \<le> requests_since ''k'' 0 [Request ''k'' 2 10 1, Request ''k'' 2 10 9]"
proof -
  have terms: "sorted (map event_time demo_burst)" "list_all (on_terms ''k'' 2 10) demo_burst" "''k'' \<noteq> []"
    by (simp_all add: demo_burst_def)
  note use = rate_limit_bounds[OF terms]
  have "card (event_keys demo_burst) < MAX_ENTRIES" by (simp add: demo_burst_facts MAX_ENTRIES_def)
  with use have "admitted ''k'' 8 (8 + 10) demo_burst [] \<le> 2 * max 1 2" by blast
  moreover have "demo_burst = [Request ''k'' 2 10 1, Request ''k'' 2 10 9] @ Request ''k'' 2 10 10 #
      [Request ''k'' 2 10 11, Sweep 12, Request ''k'' 2 10 13, Request ''k'' 2 10 14]"
    by (simp add: demo_burst_def)
  with use have "2 \<le> requests_since ''k'' (10 - 10) [Request ''k'' 2 10 1, Request ''k'' 2 10 9]"
    using demo_burst_facts(3) by (metis Inl_Inr_False)
  ultimately show ?thesis by simp
qed

end
