(* ===== verification/Spec2Isabelle.thy ===== *)
theory Spec2Isabelle
  imports Team_Invite Role_Grants Refresh_Properties Credit_Rating Org_Outcomes Org_Findings Invite_Findings
    Code_Properties Group_Properties Access_Properties Login_Properties Net_Policy
    Login_Policy_Properties Access_Request_Properties Signing_Properties Rate_Limiter
begin

text \<open>
  This library models the core of the authentication server under \<^verbatim>\<open>API/src\<close>: how a person
  proves who they are, which workspace they are let into, what the tokens they receive say, who
  may change the membership of a workspace, and how usage is priced. It is a shallow embedding:
  every definition is a translation of a function, a handler or a row type of the source and
  carries its name where HOL allows it.

  \<^bold>\<open>How the program is put together, and where it is modelled.\<close>

  The services work on tables. \<^verbatim>\<open>Org_Model\<close> has those of organisations, memberships, teams, groups
  and the audit log, \<^verbatim>\<open>Refresh_Store\<close> the refresh tokens with the credential epoch of each user,
  \<^verbatim>\<open>Auth_Model\<close> adds invitations, emailed tokens, client domains, product keys and authorization
  codes, and the login theories add sign-in codes, bans, allow-lists and access requests. A row type is
  a record with the columns the services read or write; a table is a list, with the unique indexes
  and foreign keys of \<^verbatim>\<open>schema.prisma\<close>, and the CHECK constraints the migrations add to invitations and
  parked logins, enforced by the create and update primitives: a violation is a database error and writes
  nothing. A service is
  a step from a store to a result or a thrown error together with the store it leaves
  (\<open>bind_step\<close>, \<open>reading\<close>, \<open>writing\<close>, \<open>attempt\<close> of \<^verbatim>\<open>Auth_Model\<close>), so that every early return and
  every throw of the code is a branch, and writes before a throw stay unless a transaction undoes them.
  The codes of the two profiles share a table of the database and are two lists here. A redirect is the URL
  it starts from with the parameters that are set on it.

    \<^item> \<^verbatim>\<open>Uoa_Prelude\<close>: error values (\<^verbatim>\<open>utils/errors.ts\<close>), the string and sorting operations of the
      JavaScript library, conditional updates. \<^verbatim>\<open>Decimal_Digits\<close>, \<^verbatim>\<open>Ip_Text\<close>: numerals and address
      text shared by several parsers. \<^verbatim>\<open>Cursor_Pages\<close>: the paging of the list endpoints.
    \<^item> Organisations: \<^verbatim>\<open>Slugs\<close>, \<^verbatim>\<open>Avatar_Urls\<close>, \<^verbatim>\<open>Http_Url\<close>, \<^verbatim>\<open>Org_Service\<close> (resolvers, guards, audit),
      \<^verbatim>\<open>Org_Membership\<close>, \<^verbatim>\<open>Org_Lifecycle\<close>, \<^verbatim>\<open>Org_Teams\<close>, \<^verbatim>\<open>Org_Groups\<close> (the handlers of
      \<^verbatim>\<open>organisation.service.*\<close>, \<^verbatim>\<open>team.service.*\<close>, \<^verbatim>\<open>group.service.*\<close>). \<^verbatim>\<open>Org_Invariants\<close> proves that each
      handler preserves the store invariant whatever other requests commit while it waits, up to the
      three reliances named there (\<open>served\<close>), and builds from it histories of overlapping requests; \<^verbatim>\<open>Org_Properties\<close>, \<^verbatim>\<open>Org_Authority\<close>, \<^verbatim>\<open>Org_Outcomes\<close> and
      \<^verbatim>\<open>Group_Properties\<close> state what the handlers promise; \<^verbatim>\<open>Org_Findings\<close> evaluates histories in which
      a comment or the brief is not met, the overlaps outside those reliances among them.
    \<^item> Capabilities: \<^verbatim>\<open>Role_Grants\<close> (\<^verbatim>\<open>role-grants.ts\<close> and the validation of a written grant table).
    \<^item> Invitations: \<^verbatim>\<open>Team_Invite\<close> is the state machine of \<^verbatim>\<open>team-invite-state-machine.ts\<close>;
      \<^verbatim>\<open>Invite_Base\<close> and \<^verbatim>\<open>Invite_Service\<close> are the services around it; \<^verbatim>\<open>Invite_Refinement\<close> and
      \<^verbatim>\<open>Invite_Properties\<close> show that the services move rows only along the machine, taken as the
      abstract specification; \<^verbatim>\<open>Invite_Findings\<close> has overlapping requests that are judged on a stale
      row, which only the constraints of the table refuse, and the invitation no other product can accept.
    \<^item> Sessions: \<^verbatim>\<open>Refresh_Store\<close>, \<^verbatim>\<open>Refresh_Exchange\<close> (issue, rotation, replay, theft), \<^verbatim>\<open>Refresh_Safety\<close>,
      \<^verbatim>\<open>Refresh_Sessions\<close> (the reachable stores and their invariant) and \<^verbatim>\<open>Refresh_Properties\<close>.
    \<^item> Sign-in: \<^verbatim>\<open>Login_Codes\<close> (emailed six-digit codes, the chooser session, transactions),
      \<^verbatim>\<open>Login_Policy\<close> (allow-lists, bans), \<^verbatim>\<open>Access_Requests\<close> (what a signed-in outsider triggers and
      its review), \<^verbatim>\<open>Net_Policy\<close> (which addresses the server fetches from). The properties of
      each are in the theory itself or in the one named after it.
    \<^item> The end of a sign-in: \<^verbatim>\<open>Signature_Gate\<close> (required agreements, the locks of a decision, logins parked
      for signing, the codes of the public OAuth profile) and \<^verbatim>\<open>Login_Finalize\<close> (what
      \<^verbatim>\<open>workspace-finalize.service.ts\<close> and \<^verbatim>\<open>access-request-flow.service.ts\<close> compose out of all
      of the above); \<^verbatim>\<open>Finalize_Properties\<close> shows what a granted login has passed and how one without the
      required signatures ends, \<^verbatim>\<open>Signing_Properties\<close>
      that a parked one resumes once. \<^verbatim>\<open>Rate_Limiter\<close> is the limiter in front of the routes.
    \<^item> Workspace and codes: \<^verbatim>\<open>Workspace_Scope\<close> (is the requested workspace in force, the two-factor
      policy, the epoch lock), \<^verbatim>\<open>First_Login\<close> and \<^verbatim>\<open>Required_Placement\<close> (the chooser),
      \<^verbatim>\<open>Authorization_Code\<close> with \<^verbatim>\<open>Code_Properties\<close>.
    \<^item> Tokens: \<^verbatim>\<open>Token_Endpoint\<close> composes the code and refresh grants into the token response;
      \<^verbatim>\<open>Access_Tokens\<close> verifies what it signed; \<^verbatim>\<open>Request_Guards\<close> is the middleware in front of the
      handlers; \<^verbatim>\<open>Token_Properties\<close> and \<^verbatim>\<open>Access_Properties\<close> connect them.
    \<^item> Pricing: \<^verbatim>\<open>Billing_Money\<close> (exact decimal strings), \<^verbatim>\<open>Billing_Rating\<close> (usage per caller),
      \<^verbatim>\<open>Credit_Rating\<close> (prepaid credit, largest-remainder allocation).
    \<^item> \<^verbatim>\<open>Auth_Demo\<close> is the small concrete store on which witnesses are evaluated.

  The parts meet in the store: an invitation or an access request adds memberships that the
  workspace check reads; the check guards the code, the code the token; a removal revokes the sessions the
  refresh grant would rotate, and moves no epoch of anyone else.

  \<^bold>\<open>What the lemmas show.\<close> Invariants are proved per write primitive, then per handler, then over all
  reachable stores (inductive relations for the organisation, session, invitation, group, code, request and signing histories).
  The locale \<open>store_order\<close> carries the recurrent argument that a step made of reads, writes and
  attempts only moves the store along an order; it is interpreted for codes, sign-in codes, requests,
  invitations, parked logins and agreements. \<open>step_invariant\<close> carries an invariant along a step
  relation. The other locales state an interface at which a client of it is proved once, and are interpreted on the definitions of the provider. Properties, numbered in the text in front
  of each, use the facts of these interpretations. Histories named in the text as findings are evaluated.

  \<^bold>\<open>Bounds.\<close> Recursion follows the source. The chain of replaced refresh tokens is followed for at most
  \<open>MAX_REFRESH_REPLAY_CHAIN_DEPTH\<close> (32) rows, as in the code, which answers a longer chain with the
  corruption branch. Slug suffixes are retried as often as the source does; the counting loop for
  team slugs ends at the retry maximum of the source and is proved to find a slug while fewer than
  9,999 are taken. Codes are drawn at most three times, as in the source. A walk over the pages of a list
  gets one page more than there are rows, and is shown to end within it. Glob patterns are matched by a
  total function whose measure is the length of pattern and text. Integers are unbounded where JavaScript computes exactly; shifts and masks
  of addresses are 32-bit words; safe-integer checks of the code are written out.

  \<^bold>\<open>Parameters.\<close> Clocks, fresh identifiers and random draws; HMAC, SHA-256 and the PKCE digest, as uninterpreted
  functions (a property that tells two secrets apart speaks of their digests); the JWT library,
  by what it verifies; the URL parser; \<open>isIP\<close> and name resolution; IDNA conversion; locale
  comparison; and \<open>await\<close>, the writes other transactions commit while a step waits for a lock.
  Waiting is arbitrary unless a property says otherwise; a property about one request running alone
  says so by assuming that the wait changes nothing, or only what an order allows. In the histories
  of \<^verbatim>\<open>Org_Invariants\<close> what commits during a wait is itself such a history.

  \<^bold>\<open>Not modelled.\<close> HTTP routing and request schemas, the browser applications, configuration fetching and its
  signature checks (the verified configuration is an input), password hashing, social providers,
  one-time-code enrolment, mail templates, avatar drawing, logs and pages: input and output around
  the decisions. The ledger, contracts, invoices and Stripe synchronisation of the billing subsystem, the
  confidential token exchange and delegation, the signing of the PDFs, shareable team links and
  integration onboarding are parts of their own, with sources of the size of all that is modelled here;
  they would be the next components. Row-level security of the database is not modelled: the conditions are those of the
  queries. Column lengths and the CHECK constraints of the other tables, which restrict values the code computes itself, are not
  modelled. Display strings of amounts are left out because currency symbols lie outside the
  character type. Texts are lists of 8-bit characters, so lengths in UTF-16 units agree with the
  code on that range only. The job that deletes expired rows does not run inside a history.
\<close>

end
